(* ===== verification/Prelude.thy ===== *)
theory Prelude
  imports "HOL-Library.Word" "HOL-Library.Monad_Syntax"
begin

unbundle bit_operations_syntax

text \<open>
  Shared vocabulary of the development: the C integer types, byte buffers with the
  accesses the code makes to them (little-endian fields, \<open>memcpy\<close> into a buffer), and the
  style in which state changing code is written.

  A C function that changes the globals is a HOL function from the state to
  \<open>state option\<close>, composed with the \<open>do\<close> notation of the option monad. The value
  \<^const>\<open>None\<close> stands for control that never comes back to the caller: a failed
  \<open>assert\<close> (the firmware's \<open>assert\<close> ends in \<open>Error_Handler\<close>, an endless loop with interrupts
  off) or an access outside the buffer it is made to, which C leaves undefined.
\<close>

type_synonym u8 = "8 word"
type_synonym u16 = "16 word"
type_synonym u32 = "32 word"
type_synonym bytes = "8 word list"

named_theorems frame_simps \<open>fields an operation leaves alone\<close>
named_theorems fw_defs \<open>definitions of small operations that proofs unfold together\<close>

section \<open>Byte buffers\<close>

text \<open>\<open>n\<close> bytes at offset \<open>off\<close>; the unconditional effect of \<open>memcpy(dst + off, src, length src)\<close>.\<close>

definition slice :: "'a list \<Rightarrow> nat \<Rightarrow> nat \<Rightarrow> 'a list" where
  "slice b off n = take n (drop off b)"

definition splice :: "'a list \<Rightarrow> nat \<Rightarrow> 'a list \<Rightarrow> 'a list" where
  "splice dst off src = take off dst @ src @ drop (off + length src) dst"

text \<open>\<open>memcpy\<close> with the bounds C requires of it: \<^const>\<open>None\<close> when it leaves the destination.\<close>

definition memcpy_to :: "'a list \<Rightarrow> nat \<Rightarrow> 'a list \<Rightarrow> 'a list option" where
  "memcpy_to dst off src =
     (if off + length src \<le> length dst then Some (splice dst off src) else None)"

text \<open>Reading \<open>n\<close> bytes at \<open>off\<close>, likewise checked.\<close>

definition read_from :: "'a list \<Rightarrow> nat \<Rightarrow> nat \<Rightarrow> 'a list option" where
  "read_from src off n = (if off + n \<le> length src then Some (slice src off n) else None)"

lemma length_splice [simp]: "off + length src \<le> length dst \<Longrightarrow> length (splice dst off src) = length dst"
  by (simp add: splice_def)

lemma length_slice [simp]: "off + n \<le> length b \<Longrightarrow> length (slice b off n) = n"
  by (simp add: slice_def)

lemma nth_slice: "i < n \<Longrightarrow> off + n \<le> length b \<Longrightarrow> slice b off n ! i = b ! (off + i)"
  by (simp add: slice_def)

lemma nth_splice:
  assumes "off + length src \<le> length dst" "i < length dst"
  shows "splice dst off src ! i =
    (if i < off then dst ! i else if i < off + length src then src ! (i - off) else dst ! i)"
  using assms by (auto simp: splice_def nth_append min_def)

lemma slice_splice_same [simp]:
  "off + length src \<le> length dst \<Longrightarrow> n = length src \<Longrightarrow> slice (splice dst off src) off n = src"
  by (simp add: slice_def splice_def)

lemma slice_splice_before:
  assumes "off + length src \<le> length dst" "o2 + n \<le> off"
  shows "slice (splice dst off src) o2 n = slice dst o2 n"
  by (rule nth_equalityI) (use assms in \<open>auto simp: nth_slice nth_splice\<close>)

lemma slice_splice_after:
  assumes "off + length src \<le> length dst" "off + length src \<le> o2" "o2 + n \<le> length dst"
  shows "slice (splice dst off src) o2 n = slice dst o2 n"
  by (rule nth_equalityI) (use assms in \<open>auto simp: nth_slice nth_splice\<close>)

lemma slice_all [simp]: "n = length b \<Longrightarrow> slice b 0 n = b"
  by (simp add: slice_def)

lemma splice_all [simp]: "length src = length dst \<Longrightarrow> splice dst 0 src = src"
  by (simp add: splice_def)

lemma memcpy_to_eq_Some [simp]:
  "memcpy_to dst off src = Some r \<longleftrightarrow> off + length src \<le> length dst \<and> r = splice dst off src"
  by (auto simp: memcpy_to_def)

lemma read_from_eq_Some [simp]:
  "read_from src off n = Some r \<longleftrightarrow> off + n \<le> length src \<and> r = slice src off n"
  by (auto simp: read_from_def)

subsection \<open>Little-endian fields\<close>

text \<open>
  Fields of packed structures and of packets, read as numbers; writing truncates to the
  width of the field as the conversion to \<open>u8\<close>, \<open>u16\<close> or \<open>u32\<close> does.
\<close>

definition rd16 :: "bytes \<Rightarrow> nat \<Rightarrow> nat" where
  "rd16 b off = unat (b ! off) + 256 * unat (b ! (off + 1))"

definition rd32 :: "bytes \<Rightarrow> nat \<Rightarrow> nat" where
  "rd32 b off = rd16 b off + 65536 * rd16 b (off + 2)"

definition le16 :: "nat \<Rightarrow> bytes" where
  "le16 n = [word_of_nat n, word_of_nat (n div 256)]"

definition le32 :: "nat \<Rightarrow> bytes" where
  "le32 n = le16 n @ le16 (n div 65536)"

lemma length_le16 [simp]: "length (le16 n) = 2"
  by (simp add: le16_def)

lemma length_le32 [simp]: "length (le32 n) = 4"
  by (simp add: le32_def)

lemma unat_of_nat8: "unat (word_of_nat n :: u8) = n mod 256"
  by (simp add: unat_of_nat)

lemma rd16_le16: "rd16 (le16 n) 0 = n mod 65536"
proof -
  have "n mod 256 + 256 * (n div 256 mod 256) = n mod (256 * 256)"
    by (simp only: mod_mult2_eq)
  then show ?thesis by (simp add: rd16_def le16_def unat_of_nat8)
qed

lemma rd16_cong: "b ! off = c ! o2 \<Longrightarrow> b ! Suc off = c ! Suc o2 \<Longrightarrow> rd16 b off = rd16 c o2"
  by (simp add: rd16_def)

lemma rd16_splice_same:
  assumes "off + 2 \<le> length b"
  shows "rd16 (splice b off (le16 n)) off = n mod 65536"
proof -
  have "rd16 (splice b off (le16 n)) off = rd16 (le16 n) 0"
    using assms by (intro rd16_cong) (simp_all add: nth_splice)
  then show ?thesis by (simp add: rd16_le16)
qed

lemma rd16_splice_other:
  assumes "off + length src \<le> length b" "o2 + 2 \<le> off \<or> off + length src \<le> o2" "o2 + 2 \<le> length b"
  shows "rd16 (splice b off src) o2 = rd16 b o2"
  using assms by (intro rd16_cong) (auto simp: nth_splice)

lemma rd16_less: "rd16 b off < 65536"
proof -
  have "unat (b ! off) < 256" "unat (b ! (off + 1)) < 256"
    using unsigned_less [of "b ! off", where ?'a = nat] unsigned_less [of "b ! (off + 1)", where ?'a = nat]
    by simp_all
  then show ?thesis by (simp add: rd16_def)
qed

lemma unat_max32: "unat (- 1 :: u32) = 4294967295"
proof -
  have "(- 1 :: u32) = 4294967295" by simp
  then show ?thesis by (simp only: unat_numeral) simp
qed

text \<open>\<open>(u8)(x & 0xff)\<close> and \<open>(u8)(x >> 8)\<close> of an \<open>int\<close>.\<close>

definition lo8 :: "int \<Rightarrow> u8" where "lo8 x = word_of_int x"

definition hi8 :: "int \<Rightarrow> u8" where "hi8 x = word_of_int (x div 256)"

text \<open>Conversion to \<open>unsigned int\<close> and back to \<open>int\<close>.\<close>

definition to_unsigned :: "int \<Rightarrow> nat" where
  "to_unsigned i = nat (i mod 2 ^ 32)"

definition to_signed :: "nat \<Rightarrow> int" where
  "to_signed n = (if n < 2 ^ 31 then int n else int n - 2 ^ 32)"

lemma to_signed_small [simp]: "n < 2 ^ 31 \<Longrightarrow> to_signed n = int n"
  by (simp add: to_signed_def)

lemma to_unsigned_small [simp]: "0 \<le> i \<Longrightarrow> i < 2 ^ 32 \<Longrightarrow> to_unsigned i = nat i"
  by (simp add: to_unsigned_def)

section \<open>Effects\<close>

text \<open>
  \<open>keeps P f\<close>: whenever \<open>f\<close> returns, it keeps the property \<open>P\<close> of the state.
  \<open>preserves g f\<close>: it leaves the observation \<open>g\<close> as it was.
\<close>

definition keeps :: "('s \<Rightarrow> bool) \<Rightarrow> ('s \<Rightarrow> 's option) \<Rightarrow> bool" where
  "keeps P f \<longleftrightarrow> (\<forall>s s'. P s \<longrightarrow> f s = Some s' \<longrightarrow> P s')"

definition preserves :: "('s \<Rightarrow> 'a) \<Rightarrow> ('s \<Rightarrow> 's option) \<Rightarrow> bool" where
  "preserves g f \<longleftrightarrow> (\<forall>s s'. f s = Some s' \<longrightarrow> g s' = g s)"

lemma keepsI: "(\<And>s s'. P s \<Longrightarrow> f s = Some s' \<Longrightarrow> P s') \<Longrightarrow> keeps P f"
  by (simp add: keeps_def)

lemma keepsD: "keeps P f \<Longrightarrow> f s = Some s' \<Longrightarrow> P s \<Longrightarrow> P s'"
  by (auto simp: keeps_def)

lemma preservesI: "(\<And>s s'. f s = Some s' \<Longrightarrow> g s' = g s) \<Longrightarrow> preserves g f"
  by (simp add: preserves_def)

lemma preservesD: "preserves g f \<Longrightarrow> f s = Some s' \<Longrightarrow> g s' = g s"
  by (simp add: preserves_def)

lemma preserves_keeps: "preserves g f \<Longrightarrow> keeps (\<lambda>s. Q (g s)) f"
  by (simp add: preserves_def keeps_def)

text \<open>Running a list of actions in order, stopping where one does not return.\<close>

fun run_all :: "('s \<Rightarrow> 's option) list \<Rightarrow> 's \<Rightarrow> 's option" where
  "run_all [] s = Some s"
| "run_all (f # fs) s = (case f s of None \<Rightarrow> None | Some s' \<Rightarrow> run_all fs s')"

lemma run_all_append:
  "run_all (fs @ gs) s = (case run_all fs s of None \<Rightarrow> None | Some s' \<Rightarrow> run_all gs s')"
  by (induction fs arbitrary: s) (simp_all split: option.split)

lemma run_all_keeps: "(\<And>f. f \<in> set fs \<Longrightarrow> keeps P f) \<Longrightarrow> keeps P (run_all fs)"
proof (induction fs)
  case Nil
  then show ?case by (simp add: keeps_def)
next
  case (Cons f fs)
  then have f: "keeps P f" and fs: "keeps P (run_all fs)" by auto
  show ?case
  proof (rule keepsI)
    fix s s' assume "P s" "run_all (f # fs) s = Some s'"
    then obtain s1 where "f s = Some s1" "run_all fs s1 = Some s'" by (auto split: option.splits)
    with \<open>P s\<close> show "P s'" using keepsD [OF f] keepsD [OF fs] by blast
  qed
qed

section \<open>Postconditions\<close>

text \<open>\<open>post P r\<close>: if there is a result, it satisfies \<open>P\<close>.\<close>

definition post :: "('a \<Rightarrow> bool) \<Rightarrow> 'a option \<Rightarrow> bool" where
  "post P r \<longleftrightarrow> (\<forall>x. r = Some x \<longrightarrow> P x)"

lemma post_None [simp]: "post P None"
  by (simp add: post_def)

lemma post_Some [simp]: "post P (Some x) = P x"
  by (simp add: post_def)

lemma post_bind [simp]: "post P (m \<bind> f) = post (\<lambda>x. post P (f x)) m"
  by (cases m) (simp_all add: post_def)

lemma post_map [simp]: "post P (map_option f m) = post (\<lambda>x. P (f x)) m"
  by (cases m) (simp_all add: post_def)

lemma post_True [simp]: "post (\<lambda>_. True) m"
  by (simp add: post_def)

lemma post_const [intro]: "Q \<Longrightarrow> post (\<lambda>_. Q) m"
  by (simp add: post_def)

lemma postI: "(\<And>x. r = Some x \<Longrightarrow> P x) \<Longrightarrow> post P r"
  by (simp add: post_def)

lemma postD: "post P r \<Longrightarrow> r = Some x \<Longrightarrow> P x"
  by (simp add: post_def)

lemma post_mono: "post P r \<Longrightarrow> (\<And>x. P x \<Longrightarrow> Q x) \<Longrightarrow> post Q r"
  by (simp add: post_def)

lemma post_conj: "post P r \<Longrightarrow> post Q r \<Longrightarrow> post (\<lambda>x. P x \<and> Q x) r"
  by (simp add: post_def)

text \<open>A result that is data and not a state, about which nothing is needed.\<close>

lemma post_data:
  "(\<And>x. P x) \<Longrightarrow> post P (r :: bytes option)"
  "(\<And>x. R x) \<Longrightarrow> post R (w :: u32 option)"
  "(\<And>x. S x) \<Longrightarrow> post S (n :: nat option)"
  by (simp_all add: post_def)

text \<open>A function that keeps \<open>P\<close>, used inside a larger one.\<close>

lemma post_keeps: "keeps P f \<Longrightarrow> P s \<Longrightarrow> (\<And>s'. P s' \<Longrightarrow> Q s') \<Longrightarrow> post Q (f s)"
  by (auto simp: keeps_def post_def)

lemma keepsI_post: "(\<And>s. P s \<Longrightarrow> post P (f s)) \<Longrightarrow> keeps P f"
  by (auto simp: keeps_def post_def)

lemma post_run_all:
  "(\<And>f. f \<in> set fs \<Longrightarrow> keeps P f) \<Longrightarrow> P s \<Longrightarrow> (\<And>s'. P s' \<Longrightarrow> Q s') \<Longrightarrow> post Q (run_all fs s)"
  by (rule post_keeps [OF run_all_keeps])

end
