(* ===== verification/Signet_Common.thy ===== *)
theory Signet_Common
  imports Prelude
begin

text \<open>
  \<open>signetdev/common/signetdev_common.h\<close>, \<open>signetdev_common_priv.h\<close> and
  \<open>signetdev_hc_common.h\<close>: the protocol constants that host and device share. Command
  codes travel as a byte and are compared with whatever arrives, so they are numbers;
  device states and response codes are enumerations with their wire codes. The sizes are
  those of the Signet HC build (\<open>-DSIGNET_HC\<close> in \<open>firmware-hc/Makefile\<close>).
\<close>

datatype device_state =
  DS_DISCONNECTED | DS_RESET | DS_UNINITIALIZED | DS_INITIALIZING | DS_WIPING | DS_ERASING_PAGES
| DS_FIRMWARE_UPDATE | DS_LOGGED_OUT | DS_LOGGED_IN | DS_BACKING_UP_DEVICE | DS_RESTORING_DEVICE
| DS_BOOTLOADER

fun ds_code :: "device_state \<Rightarrow> nat" where
  "ds_code DS_DISCONNECTED = 0"
| "ds_code DS_RESET = 1"
| "ds_code DS_UNINITIALIZED = 2"
| "ds_code DS_INITIALIZING = 3"
| "ds_code DS_WIPING = 4"
| "ds_code DS_ERASING_PAGES = 5"
| "ds_code DS_FIRMWARE_UPDATE = 6"
| "ds_code DS_LOGGED_OUT = 7"
| "ds_code DS_LOGGED_IN = 8"
| "ds_code DS_BACKING_UP_DEVICE = 9"
| "ds_code DS_RESTORING_DEVICE = 10"
| "ds_code DS_BOOTLOADER = 11"

lemma ds_code_inj [simp]: "ds_code a = ds_code b \<longleftrightarrow> a = b"
  by (cases a; cases b) simp_all

datatype command_responses =
  OKAY | INVALID_STATE | INVALID_INPUT | ID_INVALID | ID_NOT_OPEN | TAG_INVALID | WRITE_FAILED
| NOT_LOGGED_IN | NOT_INITIALIZED | BAD_PASSWORD | IN_PROGRESS | NOT_ENOUGH_SPACE | DONE
| BUTTON_PRESS_CANCELED | BUTTON_PRESS_TIMEOUT | UNKNOWN_DB_FORMAT | DEVICE_NOT_WIPED

fun resp_code :: "command_responses \<Rightarrow> nat" where
  "resp_code OKAY = 0"
| "resp_code INVALID_STATE = 1"
| "resp_code INVALID_INPUT = 2"
| "resp_code ID_INVALID = 3"
| "resp_code ID_NOT_OPEN = 4"
| "resp_code TAG_INVALID = 5"
| "resp_code WRITE_FAILED = 6"
| "resp_code NOT_LOGGED_IN = 7"
| "resp_code NOT_INITIALIZED = 8"
| "resp_code BAD_PASSWORD = 9"
| "resp_code IN_PROGRESS = 10"
| "resp_code NOT_ENOUGH_SPACE = 11"
| "resp_code DONE = 12"
| "resp_code BUTTON_PRESS_CANCELED = 13"
| "resp_code BUTTON_PRESS_TIMEOUT = 14"
| "resp_code UNKNOWN_DB_FORMAT = 15"
| "resp_code DEVICE_NOT_WIPED = 16"

section \<open>Command codes\<close>

abbreviation (input) STARTUP :: int where "STARTUP \<equiv> 0"
abbreviation (input) OPEN_ID :: int where "OPEN_ID \<equiv> 1"
abbreviation (input) CLOSE_ID :: int where "CLOSE_ID \<equiv> 2"
abbreviation (input) GET_DATA :: int where "GET_DATA \<equiv> 3"
abbreviation (input) SET_DATA :: int where "SET_DATA \<equiv> 4"
abbreviation (input) TYPE_CMD :: int where "TYPE_CMD \<equiv> 5"
abbreviation (input) LOGIN :: int where "LOGIN \<equiv> 6"
abbreviation (input) LOGOUT :: int where "LOGOUT \<equiv> 7"
abbreviation (input) DELETE_ID :: int where "DELETE_ID \<equiv> 8"
abbreviation (input) BUTTON_WAIT :: int where "BUTTON_WAIT \<equiv> 9"
abbreviation (input) GET_PROGRESS :: int where "GET_PROGRESS \<equiv> 10"
abbreviation (input) GET_DEVICE_STATE :: int where "GET_DEVICE_STATE \<equiv> 11"
abbreviation (input) ERASE_FLASH_PAGES :: int where "ERASE_FLASH_PAGES \<equiv> 12"
abbreviation (input) WRITE_FLASH :: int where "WRITE_FLASH \<equiv> 13"
abbreviation (input) RESET_DEVICE :: int where "RESET_DEVICE \<equiv> 14"
abbreviation (input) INITIALIZE :: int where "INITIALIZE \<equiv> 15"
abbreviation (input) CONNECT :: int where "CONNECT \<equiv> 16"
abbreviation (input) DISCONNECT :: int where "DISCONNECT \<equiv> 17"
abbreviation (input) WIPE :: int where "WIPE \<equiv> 18"
abbreviation (input) CANCEL_BUTTON_PRESS :: int where "CANCEL_BUTTON_PRESS \<equiv> 19"
abbreviation (input) CHANGE_MASTER_PASSWORD :: int where "CHANGE_MASTER_PASSWORD \<equiv> 20"
abbreviation (input) BACKUP_DEVICE :: int where "BACKUP_DEVICE \<equiv> 21"
abbreviation (input) READ_BLOCK :: int where "READ_BLOCK \<equiv> 22"
abbreviation (input) BACKUP_DEVICE_DONE :: int where "BACKUP_DEVICE_DONE \<equiv> 23"
abbreviation (input) RESTORE_DEVICE :: int where "RESTORE_DEVICE \<equiv> 24"
abbreviation (input) WRITE_BLOCK :: int where "WRITE_BLOCK \<equiv> 25"
abbreviation (input) ERASE_BLOCK :: int where "ERASE_BLOCK \<equiv> 26"
abbreviation (input) RESTORE_DEVICE_DONE :: int where "RESTORE_DEVICE_DONE \<equiv> 27"
abbreviation (input) GET_DEVICE_CAPACITY :: int where "GET_DEVICE_CAPACITY \<equiv> 28"
abbreviation (input) UPDATE_FIRMWARE :: int where "UPDATE_FIRMWARE \<equiv> 29"
abbreviation (input) GET_ALL_DATA :: int where "GET_ALL_DATA \<equiv> 30"
abbreviation (input) UPDATE_UID :: int where "UPDATE_UID \<equiv> 31"
abbreviation (input) READ_UID :: int where "READ_UID \<equiv> 32"
abbreviation (input) READ_ALL_UIDS :: int where "READ_ALL_UIDS \<equiv> 33"
abbreviation (input) GET_RAND_BITS :: int where "GET_RAND_BITS \<equiv> 34"
abbreviation (input) ENTER_MOBILE_MODE :: int where "ENTER_MOBILE_MODE \<equiv> 35"
abbreviation (input) LOGIN_TOKEN :: int where "LOGIN_TOKEN \<equiv> 36"
abbreviation (input) READ_CLEARTEXT_PASSWORD_NAMES :: int where "READ_CLEARTEXT_PASSWORD_NAMES \<equiv> 37"
abbreviation (input) READ_CLEARTEXT_PASSWORD :: int where "READ_CLEARTEXT_PASSWORD \<equiv> 38"
abbreviation (input) WRITE_CLEARTEXT_PASSWORD :: int where "WRITE_CLEARTEXT_PASSWORD \<equiv> 39"
abbreviation (input) UPDATE_UIDS :: int where "UPDATE_UIDS \<equiv> 40"
abbreviation (input) SWITCH_BOOT_MODE :: int where "SWITCH_BOOT_MODE \<equiv> 41"
abbreviation (input) WRITE_BLOCK_HC :: int where "WRITE_BLOCK_HC \<equiv> 42"
abbreviation (input) READ_BLOCK_HC :: int where "READ_BLOCK_HC \<equiv> 43"
abbreviation (input) ERASE_BLOCK_HC :: int where "ERASE_BLOCK_HC \<equiv> 44"

section \<open>Sizes\<close>

abbreviation (input) BLK_SIZE :: nat where "BLK_SIZE \<equiv> 16384"
abbreviation (input) NUM_STORAGE_BLOCKS :: nat where "NUM_STORAGE_BLOCKS \<equiv> 1024"
abbreviation (input) ROOT_DATA_BLOCK :: nat where "ROOT_DATA_BLOCK \<equiv> 0"
abbreviation (input) MIN_DATA_BLOCK :: nat where "MIN_DATA_BLOCK \<equiv> 1"
abbreviation (input) MAX_DATA_BLOCK :: nat where "MAX_DATA_BLOCK \<equiv> 1023"
abbreviation (input) NUM_DATA_BLOCKS :: nat where "NUM_DATA_BLOCKS \<equiv> 1023"
abbreviation (input) INVALID_BLOCK :: nat where "INVALID_BLOCK \<equiv> 0"
abbreviation (input) INVALID_PART_SIZE :: nat where "INVALID_PART_SIZE \<equiv> 65535"
abbreviation (input) MIN_UID :: nat where "MIN_UID \<equiv> 1"
abbreviation (input) MAX_UID :: nat where "MAX_UID \<equiv> 4095"

abbreviation (input) RAW_HID_HEADER_SIZE :: nat where "RAW_HID_HEADER_SIZE \<equiv> 1"
abbreviation (input) RAW_HID_PACKET_SIZE :: nat where "RAW_HID_PACKET_SIZE \<equiv> 512"
abbreviation (input) RAW_HID_PAYLOAD_SIZE :: nat where "RAW_HID_PAYLOAD_SIZE \<equiv> 511"
abbreviation (input) CMD_PACKET_HEADER_SIZE :: nat where "CMD_PACKET_HEADER_SIZE \<equiv> 6"
abbreviation (input) CMD_PACKET_PAYLOAD_SIZE :: nat where "CMD_PACKET_PAYLOAD_SIZE \<equiv> 16391"
abbreviation (input) CMD_PACKET_BUF_SIZE :: nat where "CMD_PACKET_BUF_SIZE \<equiv> 16907"

abbreviation (input) HASH_FN_SZ :: nat where "HASH_FN_SZ \<equiv> 16"
abbreviation (input) SALT_SZ_V2 :: nat where "SALT_SZ_V2 \<equiv> 32"
abbreviation (input) INIT_RAND_DATA_SZ :: nat where "INIT_RAND_DATA_SZ \<equiv> 80"
abbreviation (input) STARTUP_RESP_INFO_SIZE :: nat where "STARTUP_RESP_INFO_SIZE \<equiv> 8"
abbreviation (input) STARTUP_RESP_SIZE :: nat where "STARTUP_RESP_SIZE \<equiv> 56"
abbreviation (input) INITIALIZE_CMD_SIZE :: nat where "INITIALIZE_CMD_SIZE \<equiv> 160"
abbreviation (input) CLEARTEXT_PASS_SIZE :: nat where "CLEARTEXT_PASS_SIZE \<equiv> 256"

text \<open>How the sizes are derived in the headers.\<close>

lemma derived_sizes:
  "NUM_DATA_BLOCKS = MAX_DATA_BLOCK - MIN_DATA_BLOCK + 1"
  "RAW_HID_PAYLOAD_SIZE = RAW_HID_PACKET_SIZE - RAW_HID_HEADER_SIZE"
  "CMD_PACKET_PAYLOAD_SIZE = BLK_SIZE + CMD_PACKET_HEADER_SIZE + 1"
  "CMD_PACKET_BUF_SIZE = CMD_PACKET_PAYLOAD_SIZE + CMD_PACKET_HEADER_SIZE + RAW_HID_PAYLOAD_SIZE - 1"
  "INIT_RAND_DATA_SZ = 32 * 2 + 16"
  "STARTUP_RESP_SIZE = STARTUP_RESP_INFO_SIZE + HASH_FN_SZ + SALT_SZ_V2"
  "INITIALIZE_CMD_SIZE = 32 + HASH_FN_SZ + SALT_SZ_V2 + INIT_RAND_DATA_SZ"
  by simp_all

end
