(* ===== verification/Host_Codec.thy ===== *)
theory Host_Codec
  imports Prelude
begin

text \<open>
  Record payloads on the wire. \<open>signetdev.c\<close> (\<open>encode_entry_data\<close>, \<open>decode_id\<close>) packs a
  record's bytes and one mask bit per byte into sub-blocks of 16 bytes: two bytes of mask
  bits, then 14 bytes of data. The device (\<open>mask_uid_data\<close> in \<open>firmware-hc/db.c\<close>) zeroes
  the bytes whose mask bit is set before it hands out a record without a button press.
\<close>

abbreviation (input) SUB_BLK_SIZE :: nat where "SUB_BLK_SIZE \<equiv> 16"
abbreviation (input) SUB_BLK_MASK_SIZE :: nat where "SUB_BLK_MASK_SIZE \<equiv> 2"
abbreviation (input) SUB_BLK_DATA_SIZE :: nat where "SUB_BLK_DATA_SIZE \<equiv> 14"

definition SIZE_TO_SUB_BLK_COUNT :: "nat \<Rightarrow> nat" where
  "SIZE_TO_SUB_BLK_COUNT sz = (sz + (SUB_BLK_DATA_SIZE - 1)) div SUB_BLK_DATA_SIZE"

definition SUB_BLK_COUNT :: "nat \<Rightarrow> nat" where
  "SUB_BLK_COUNT sz = (sz + (SUB_BLK_SIZE - 1)) div SUB_BLK_SIZE"

definition SIGNET_ERROR_OVERFLOW :: int where
  "SIGNET_ERROR_OVERFLOW = -4"

text \<open>\<open>(m >> k) & 1\<close> and \<open>(m & ~(1 << k)) | (b << k)\<close> on a byte.\<close>

definition get_bit :: "u8 \<Rightarrow> nat \<Rightarrow> u8" where
  "get_bit m k = drop_bit k m AND 1"

definition put_bit :: "u8 \<Rightarrow> nat \<Rightarrow> u8 \<Rightarrow> u8" where
  "put_bit m k b = (m AND NOT (push_bit k 1)) OR push_bit k b"

section \<open>Host: encoding\<close>

definition encode_step :: "bytes \<Rightarrow> bytes \<Rightarrow> nat \<Rightarrow> bytes \<Rightarrow> bytes" where
  "encode_step data msk i msg =
     (let r = i mod SUB_BLK_DATA_SIZE;
          blk = i div SUB_BLK_DATA_SIZE;
          idx = blk * SUB_BLK_SIZE + r + SUB_BLK_MASK_SIZE;
          b = get_bit (msk ! (i div 8)) (i mod 8);
          m_idx = blk * SUB_BLK_SIZE + (r div 8);
          msg = msg[idx := data ! i]
      in msg[m_idx := put_bit (msg ! m_idx) (r mod 8) b])"

text \<open>
  \<open>encode_entry_data\<close>: \<open>msg\<close> is the caller's buffer with whatever it held; the result is
  the buffer after the call and the return value (the message size, or an error). The
  unsigned arithmetic on \<open>size\<close> wraps only for sizes above \<open>7 * 2 ^ 29 - 14\<close>, where no
  caller's buffer reaches; sizes below that are the domain of the definition.
\<close>

definition encode_entry_data :: "nat \<Rightarrow> bytes \<Rightarrow> bytes \<Rightarrow> bytes \<Rightarrow> nat \<Rightarrow> bytes \<times> int" where
  "encode_entry_data sz data msk msg msg_sz =
     (let blk_count = SIZE_TO_SUB_BLK_COUNT sz;
          message_size = blk_count * SUB_BLK_SIZE
      in if message_size \<ge> msg_sz then (msg, SIGNET_ERROR_OVERFLOW)
         else (fold (encode_step data msk) [0..<sz] msg, int message_size))"

section \<open>Host: decoding\<close>

text \<open>
  \<open>decode_id\<close> runs its loop \<open>resp_len\<close> times. \<open>resp\<close> is the memory from the response
  pointer to the end of its buffer, which may be longer than \<open>resp_len\<close>; a read behind it
  is \<^const>\<open>None\<close>, as is a write behind the caller's \<open>data\<close> or \<open>msk\<close>.
\<close>

definition decode_step :: "bytes \<Rightarrow> nat \<Rightarrow> bytes \<times> bytes \<Rightarrow> (bytes \<times> bytes) option" where
  "decode_step resp i dm =
     (let (data, msk) = dm;
          blk = i div SUB_BLK_DATA_SIZE;
          blk_field = i mod SUB_BLK_DATA_SIZE
      in if blk * SUB_BLK_SIZE + blk_field + SUB_BLK_MASK_SIZE < length resp
            \<and> i < length data \<and> i div 8 < length msk
         then let b = get_bit (resp ! (blk * SUB_BLK_SIZE + blk_field div 8)) (blk_field mod 8)
              in Some (data[i := resp ! (blk * SUB_BLK_SIZE + blk_field + SUB_BLK_MASK_SIZE)],
                       msk[i div 8 := put_bit (msk ! (i div 8)) (i mod 8) b])
         else None)"

fun decode_loop :: "bytes \<Rightarrow> nat list \<Rightarrow> bytes \<times> bytes \<Rightarrow> (bytes \<times> bytes) option" where
  "decode_loop resp [] dm = Some dm"
| "decode_loop resp (i # is) dm =
     (case decode_step resp i dm of None \<Rightarrow> None | Some dm' \<Rightarrow> decode_loop resp is dm')"

definition decode_id :: "nat \<Rightarrow> bytes \<Rightarrow> nat \<Rightarrow> bytes \<Rightarrow> bytes \<Rightarrow> (int \<times> bytes \<times> bytes) option" where
  "decode_id cmd_payload_size resp resp_len data msk =
     (let blk_count = SUB_BLK_COUNT resp_len
      in if SUB_BLK_SIZE * blk_count \<ge> cmd_payload_size then Some (-1, data, msk)
         else if SUB_BLK_SIZE * blk_count \<noteq> resp_len then Some (-1, data, msk)
         else map_option (\<lambda>(d, m). (0, d, m)) (decode_loop resp [0..<resp_len] (data, msk)))"

section \<open>Device: masking\<close>

definition mask_byte :: "bytes \<Rightarrow> nat \<Rightarrow> nat \<Rightarrow> bytes" where
  "mask_byte data sub_block j =
     (let byte = j div 8;
          b = push_bit (j mod 8) (1 :: u8)
      in if (data ! (sub_block + byte)) AND b \<noteq> 0
         then data[sub_block + SUB_BLK_MASK_SIZE + j := 0] else data)"

definition mask_uid_data :: "bytes \<Rightarrow> nat \<Rightarrow> bytes" where
  "mask_uid_data data blk_count =
     fold (\<lambda>i d. fold (\<lambda>j d. mask_byte d (i * SUB_BLK_SIZE) j) [0..<SUB_BLK_DATA_SIZE] d) [0..<blk_count] data"

section \<open>Bits\<close>

lemma get_bit_iff: "bit (get_bit m k) n \<longleftrightarrow> n = 0 \<and> bit m k"
  by (auto simp: get_bit_def bit_simps)

lemma get_bit_cases: "get_bit m k = (if bit m k then 1 else 0)"
  by (rule bit_eqI) (auto simp: get_bit_iff bit_simps)

lemma bit_put_bit:
  assumes "k < 8" "n < 8"
  shows "bit (put_bit m k (get_bit x j)) n = (if n = k then bit x j else bit m n)"
  using assms by (auto simp: put_bit_def get_bit_cases bit_simps)

lemma and_power_iff:
  assumes "k < 8"
  shows "(x :: u8) AND 2 ^ k = 0 \<longleftrightarrow> \<not> bit x k"
proof
  assume "x AND 2 ^ k = 0"
  then have "\<not> bit (x AND push_bit k 1) k" by (simp add: push_bit_of_1)
  then show "\<not> bit x k" using assms by (simp add: bit_simps)
next
  assume "\<not> bit x k"
  then show "x AND 2 ^ k = 0" by (intro bit_eqI) (auto simp: bit_simps)
qed

section \<open>Positions\<close>

definition data_idx :: "nat \<Rightarrow> nat" where
  "data_idx i = (i div 14) * 16 + (i mod 14 + 2)"

definition mask_idx :: "nat \<Rightarrow> nat" where
  "mask_idx i = (i div 14) * 16 + (i mod 14) div 8"

lemma blk16: "m < 16 \<Longrightarrow> (a * 16 + m) div 16 = (a::nat)" "m < 16 \<Longrightarrow> (a * 16 + m) mod 16 = (m::nat)"
  by simp_all

lemma mod14: "i mod 14 + 2 < (16::nat)" "(i mod 14) div 8 < (2::nat)"
proof -
  have "i mod 14 < 14" by simp
  then show "i mod 14 + 2 < 16" "(i mod 14) div 8 < 2" by linarith+
qed

lemma data_idx_16: "data_idx i div 16 = i div 14" "data_idx i mod 16 = i mod 14 + 2"
  unfolding data_idx_def using mod14(1) [of i] by (rule blk16)+

lemma mask_idx_16: "mask_idx i div 16 = i div 14" "mask_idx i mod 16 = (i mod 14) div 8"
  unfolding mask_idx_def using mod14(2) [of i] by (intro blk16; simp)+

lemma data_idx_inj [simp]: "data_idx i = data_idx j \<longleftrightarrow> i = j"
proof
  assume a: "data_idx i = data_idx j"
  then have "i div 14 = j div 14" "i mod 14 = j mod 14"
    using data_idx_16 [of i] data_idx_16 [of j] by simp_all
  then show "i = j" by (metis div_mult_mod_eq)
qed simp

lemma data_mask_disjoint [simp]: "data_idx i \<noteq> mask_idx j" "mask_idx j \<noteq> data_idx i"
proof -
  have "data_idx i mod 16 \<noteq> mask_idx j mod 16"
    using mod14(2) [of j] by (simp add: data_idx_16 mask_idx_16)
  then show "data_idx i \<noteq> mask_idx j" "mask_idx j \<noteq> data_idx i" by auto
qed

lemma mask_bit_inj:
  assumes "mask_idx i = mask_idx j" "i mod 14 mod 8 = j mod 14 mod 8"
  shows "i = j"
proof -
  from assms(1) have a: "i div 14 = j div 14" "i mod 14 div 8 = j mod 14 div 8"
    using mask_idx_16 by metis+
  with assms(2) have "i mod 14 = j mod 14" by (metis div_mult_mod_eq)
  with a(1) show "i = j" by (metis div_mult_mod_eq)
qed

lemma data_idx_mono: "i \<le> j \<Longrightarrow> data_idx i \<le> data_idx j"
proof -
  assume "i \<le> j"
  then have "i div 14 \<le> j div 14" by (rule div_le_mono)
  moreover have "i div 14 = j div 14 \<Longrightarrow> i mod 14 \<le> j mod 14"
    using \<open>i \<le> j\<close> by (metis add_le_cancel_left div_mult_mod_eq)
  moreover have "i mod 14 < 14" by simp
  ultimately show ?thesis
    unfolding data_idx_def by (cases "i div 14 = j div 14") (auto simp: nat_less_le)
qed

lemma mask_le_data: "mask_idx i < data_idx i"
  using mod14(2) [of i] by (simp add: data_idx_def mask_idx_def)

lemma sub_blk_bound: "i < sz \<Longrightarrow> i div 14 < SIZE_TO_SUB_BLK_COUNT sz"
  unfolding SIZE_TO_SUB_BLK_COUNT_def by linarith

lemma data_idx_bound: "i div 14 < c \<Longrightarrow> data_idx i < c * 16"
  using mod14(1) [of i] by (simp add: data_idx_def)

lemma mask_idx_bound: "i div 14 < c \<Longrightarrow> mask_idx i < c * 16"
  using mask_le_data [of i] data_idx_bound [of i c] by simp

section \<open>What the loops leave behind\<close>

lemma encode_step_alt:
  "encode_step data msk i msg =
     (let msg = msg[data_idx i := data ! i]
      in msg[mask_idx i := put_bit (msg ! mask_idx i) (i mod 14 mod 8) (get_bit (msk ! (i div 8)) (i mod 8))])"
  by (simp add: encode_step_def data_idx_def mask_idx_def Let_def add.assoc)

lemma length_encode [simp]: "length (fold (encode_step data msk) is msg) = length msg"
  by (induction "is" arbitrary: msg) (simp_all add: encode_step_alt Let_def)

lemma encode_fold:
  assumes "\<forall>i<n. data_idx i < length msg"
  shows "\<forall>i<n. fold (encode_step data msk) [0..<n] msg ! data_idx i = data ! i
           \<and> bit (fold (encode_step data msk) [0..<n] msg ! mask_idx i) (i mod 14 mod 8)
              = bit (msk ! (i div 8)) (i mod 8)"
  using assms
proof (induction n)
  case (Suc n)
  let ?m = "fold (encode_step data msk) [0..<n] msg"
  have b: "data_idx n < length msg" "mask_idx n < length msg"
    using Suc.prems mask_le_data [of n] by auto
  have k: "j mod 14 mod 8 < 8" for j :: nat by simp
  have IH: "\<forall>i<n. ?m ! data_idx i = data ! i \<and> bit (?m ! mask_idx i) (i mod 14 mod 8) = bit (msk ! (i div 8)) (i mod 8)"
    using Suc by simp
  show ?case
  proof (intro allI impI)
    fix i assume i: "i < Suc n"
    show "fold (encode_step data msk) [0..<Suc n] msg ! data_idx i = data ! i \<and>
       bit (fold (encode_step data msk) [0..<Suc n] msg ! mask_idx i) (i mod 14 mod 8) = bit (msk ! (i div 8)) (i mod 8)"
    proof (cases "i = n")
      case True
      with b show ?thesis by (simp add: encode_step_alt Let_def bit_put_bit)
    next
      case False
      with i have "i < n" by simp
      moreover have "mask_idx i = mask_idx n \<longrightarrow> i mod 14 mod 8 \<noteq> n mod 14 mod 8"
        using mask_bit_inj False by blast
      ultimately show ?thesis
        using b IH by (auto simp: encode_step_alt Let_def bit_put_bit nth_list_update)
    qed
  qed
qed simp

lemma decode_step_alt:
  "decode_step resp i (data, msk) =
     (if data_idx i < length resp \<and> i < length data \<and> i div 8 < length msk
      then Some (data[i := resp ! data_idx i],
                 msk[i div 8 := put_bit (msk ! (i div 8)) (i mod 8) (get_bit (resp ! mask_idx i) (i mod 14 mod 8))])
      else None)"
  by (simp add: decode_step_def data_idx_def mask_idx_def Let_def add.assoc)

lemma decode_loop_snoc:
  "decode_loop resp (is @ [i]) dm =
     (case decode_loop resp is dm of None \<Rightarrow> None | Some dm' \<Rightarrow> decode_step resp i dm')"
  by (induction "is" arbitrary: dm) (simp_all split: option.splits)

lemma decode_loop_upt:
  assumes "decode_loop resp [0..<n] (data, msk) = Some (d, m)"
  shows "length d = length data \<and> length m = length msk
       \<and> (\<forall>i<n. data_idx i < length resp \<and> i < length data \<and> i div 8 < length msk)
       \<and> (\<forall>i<n. d ! i = resp ! data_idx i
                \<and> bit (m ! (i div 8)) (i mod 8) = bit (resp ! mask_idx i) (i mod 14 mod 8))"
  using assms
proof (induction n arbitrary: d m)
  case (Suc n)
  then obtain d0 m0 where 0: "decode_loop resp [0..<n] (data, msk) = Some (d0, m0)"
    and s: "decode_step resp n (d0, m0) = Some (d, m)"
    by (auto simp: decode_loop_snoc split: option.splits)
  note IH = Suc.IH [OF 0]
  have n: "data_idx n < length resp" "n < length d0" "n div 8 < length m0"
    and d: "d = d0[n := resp ! data_idx n]"
    and m: "m = m0[n div 8 := put_bit (m0 ! (n div 8)) (n mod 8) (get_bit (resp ! mask_idx n) (n mod 14 mod 8))]"
    using s by (simp_all add: decode_step_alt split: if_splits)
  have "d ! i = resp ! data_idx i
      \<and> bit (m ! (i div 8)) (i mod 8) = bit (resp ! mask_idx i) (i mod 14 mod 8)" if "i < Suc n" for i
  proof (cases "i = n")
    case False
    with that have "i < n" by simp
    then have o: "d0 ! i = resp ! data_idx i" "bit (m0 ! (i div 8)) (i mod 8) = bit (resp ! mask_idx i) (i mod 14 mod 8)"
      using IH by blast+
    have "bit (m ! (i div 8)) (i mod 8) = bit (m0 ! (i div 8)) (i mod 8)"
    proof (cases "i div 8 = n div 8")
      case True
      with False have "i mod 8 \<noteq> n mod 8" by (metis div_mult_mod_eq)
      moreover have "m ! (i div 8) = put_bit (m0 ! (i div 8)) (n mod 8) (get_bit (resp ! mask_idx n) (n mod 14 mod 8))"
        unfolding m True using n(3) by simp
      ultimately show ?thesis by (simp add: bit_put_bit)
    qed (simp add: m)
    with o False show ?thesis by (simp add: d)
  qed (use n in \<open>simp add: d m bit_put_bit\<close>)
  then show ?case using IH n by (simp add: d m less_Suc_eq)
qed simp

lemma decode_loop_defined:
  assumes "\<forall>i<n. data_idx i < length resp \<and> i < length data \<and> i div 8 < length msk"
  shows "\<exists>d m. decode_loop resp [0..<n] (data, msk) = Some (d, m) \<and> length d = length data \<and> length m = length msk"
  using assms
proof (induction n)
  case (Suc n)
  then obtain d m where "decode_loop resp [0..<n] (data, msk) = Some (d, m)"
    "length d = length data" "length m = length msk" by auto
  with Suc.prems show ?case by (auto simp: decode_loop_snoc decode_step_alt)
qed simp

subsection \<open>Masking\<close>

definition mask_at :: "nat \<Rightarrow> bytes \<Rightarrow> bytes" where
  "mask_at k d = (if bit (d ! mask_idx k) (k mod 14 mod 8) then d[data_idx k := 0] else d)"

lemma mask_byte_at: "j < 14 \<Longrightarrow> mask_byte d (i * 16) j = mask_at (14 * i + j) d"
proof -
  assume "j < 14"
  then have "(14 * i + j) div 14 = i" "(14 * i + j) mod 14 = j" by simp_all
  then show ?thesis
    by (simp add: mask_byte_def mask_at_def data_idx_def mask_idx_def Let_def and_power_iff add.assoc
        del: div_mult_self3)
qed

lemma mask_uid_data_fold: "mask_uid_data d c = fold mask_at [0..<14 * c] d"
proof (induction c)
  case (Suc c)
  have "fold (\<lambda>j d. mask_byte d (c * 16) j) [0..<14] e = fold (\<lambda>j. mask_at (14 * c + j)) [0..<14] e" for e
    by (rule fold_cong) (auto simp: mask_byte_at)
  also have "fold (\<lambda>j. mask_at (14 * c + j)) [0..<14] e = fold mask_at [14 * c..<14 * c + 14] e" for e
  proof -
    have "[14 * c..<14 * c + 14] = map (\<lambda>j. j + 14 * c) [0..<14]"
      by (simp only: map_add_upt add.commute [of _ 14])
    then show ?thesis by (simp only: fold_map comp_def add.commute)
  qed
  finally have "mask_uid_data d (Suc c) = fold mask_at [14 * c..<14 * c + 14] (fold mask_at [0..<14 * c] d)"
    using Suc by (simp add: mask_uid_data_def)
  also have "\<dots> = fold mask_at [0..<14 * c + 14] d"
    by (simp only: upt_add_eq_append [of 0 "14 * c" 14] le0 fold_append comp_def)
  finally show ?case by (simp add: add.commute)
qed (simp add: mask_uid_data_def)

lemma length_mask_fold [simp]: "length (fold mask_at is d) = length d"
  by (induction "is" arbitrary: d) (simp_all add: mask_at_def)

lemma mask_fold_spec:
  assumes "\<forall>i<n. data_idx i < length d"
  shows "(\<forall>k. fold mask_at [0..<n] d ! mask_idx k = d ! mask_idx k)
       \<and> (\<forall>k. fold mask_at [0..<n] d ! data_idx k =
              (if k < n \<and> bit (d ! mask_idx k) (k mod 14 mod 8) then 0 else d ! data_idx k))"
  using assms
proof (induction n)
  case (Suc n)
  then have IH: "\<forall>k. fold mask_at [0..<n] d ! mask_idx k = d ! mask_idx k"
    "\<forall>k. fold mask_at [0..<n] d ! data_idx k =
        (if k < n \<and> bit (d ! mask_idx k) (k mod 14 mod 8) then 0 else d ! data_idx k)"
    and b: "data_idx n < length d" by simp_all
  show ?case
  proof (intro conjI allI)
    fix k
    show "fold mask_at [0..<Suc n] d ! mask_idx k = d ! mask_idx k"
      using IH(1) by (simp add: mask_at_def)
    show "fold mask_at [0..<Suc n] d ! data_idx k =
        (if k < Suc n \<and> bit (d ! mask_idx k) (k mod 14 mod 8) then 0 else d ! data_idx k)"
      using IH b by (cases "k = n") (auto simp: mask_at_def less_Suc_eq nth_list_update)
  qed
qed simp

section \<open>Round trips\<close>

lemma encode_entry_data_Some:
  assumes "encode_entry_data sz data msk msg msg_sz = (msg', int n)" "msg_sz \<le> length msg"
  shows "n = SIZE_TO_SUB_BLK_COUNT sz * 16" "n < msg_sz" "length msg' = length msg"
    and "\<forall>i < sz. data_idx i < n \<and> mask_idx i < n \<and> msg' ! data_idx i = data ! i
           \<and> bit (msg' ! mask_idx i) (i mod 14 mod 8) = bit (msk ! (i div 8)) (i mod 8)"
proof -
  have nov: "\<not> SIZE_TO_SUB_BLK_COUNT sz * 16 \<ge> msg_sz" and n: "n = SIZE_TO_SUB_BLK_COUNT sz * 16"
    and m: "msg' = fold (encode_step data msk) [0..<sz] msg"
    using assms(1) by (auto simp: encode_entry_data_def Let_def SIGNET_ERROR_OVERFLOW_def split: if_splits)
  show "n = SIZE_TO_SUB_BLK_COUNT sz * 16" "n < msg_sz" "length msg' = length msg"
    using n nov m by simp_all
  have "\<forall>i < sz. data_idx i < n \<and> mask_idx i < n"
    using sub_blk_bound data_idx_bound mask_idx_bound n by blast
  moreover from this have "\<forall>i < sz. data_idx i < length msg" using nov n assms(2) by fastforce
  ultimately show "\<forall>i < sz. data_idx i < n \<and> mask_idx i < n \<and> msg' ! data_idx i = data ! i
           \<and> bit (msg' ! mask_idx i) (i mod 14 mod 8) = bit (msk ! (i div 8)) (i mod 8)"
    using encode_fold [of sz msg data msk] by (simp add: m)
qed

lemma size_le_blocks: "sz \<le> SIZE_TO_SUB_BLK_COUNT sz * 14" "SIZE_TO_SUB_BLK_COUNT sz * 14 \<le> SIZE_TO_SUB_BLK_COUNT sz * 16"
  unfolding SIZE_TO_SUB_BLK_COUNT_def by linarith+

lemma decode_id_Some:
  assumes "decode_id cps resp n d0 m0 = Some (0, d, m)"
  shows "\<forall>i<n. data_idx i < length resp \<and> d ! i = resp ! data_idx i
            \<and> bit (m ! (i div 8)) (i mod 8) = bit (resp ! mask_idx i) (i mod 14 mod 8)"
  using assms decode_loop_upt [of resp n d0 m0]
  by (auto simp: decode_id_def Let_def split: if_splits)

text \<open>
  C19. A record sent with \<open>signetdev_update_uid\<close> and read back with the response bytes the
  message had is the same record: for every byte position of the record, \<open>decode_id\<close> returns
  the byte and the mask bit that \<open>encode_entry_data\<close> was given, whatever the two message
  buffers and the result buffers held before.
\<close>

theorem entry_roundtrip:
  assumes "encode_entry_data sz data msk msg msg_sz = (msg', int n)" "msg_sz \<le> length msg"
    and "take n resp = take n msg'"
    and "decode_id cps resp n d0 m0 = Some (0, d, m)"
  shows "\<forall>i < sz. d ! i = data ! i \<and> bit (m ! (i div 8)) (i mod 8) = bit (msk ! (i div 8)) (i mod 8)"
proof -
  note e = encode_entry_data_Some [OF assms(1,2)] and d = decode_id_Some [OF assms(4)]
  have same: "resp ! k = msg' ! k" if "k < n" for k
    using assms(3) that nth_take by metis
  have sz: "sz \<le> n" using e(1) size_le_blocks by (metis order_trans)
  show ?thesis
  proof (intro allI impI)
    fix i assume i: "i < sz"
    with e(4) have "data_idx i < n" "mask_idx i < n" "msg' ! data_idx i = data ! i"
      "bit (msg' ! mask_idx i) (i mod 14 mod 8) = bit (msk ! (i div 8)) (i mod 8)" by blast+
    moreover from i sz d have "d ! i = resp ! data_idx i"
      "bit (m ! (i div 8)) (i mod 8) = bit (resp ! mask_idx i) (i mod 14 mod 8)" by auto
    ultimately show "d ! i = data ! i \<and> bit (m ! (i div 8)) (i mod 8) = bit (msk ! (i div 8)) (i mod 8)"
      using same by simp
  qed
qed

lemma decode_id_defined:
  assumes "0 < n" "16 * SUB_BLK_COUNT n < cps" "16 * SUB_BLK_COUNT n = n"
    and "data_idx (n - 1) < length resp" "n \<le> length data" "(n - 1) div 8 < length msk"
  shows "\<exists>d m. decode_id cps resp n data msk = Some (0, d, m)"
proof -
  have "data_idx i < length resp \<and> i < length data \<and> i div 8 < length msk" if "i < n" for i
  proof -
    have "i \<le> n - 1" using that by simp
    then have "data_idx i \<le> data_idx (n - 1)" "i div 8 \<le> (n - 1) div 8"
      by (rule data_idx_mono, rule div_le_mono)
    then show ?thesis using that assms by simp
  qed
  then show ?thesis
    using decode_loop_defined [of n resp data msk] assms(2,3) by (auto simp: decode_id_def)
qed

theorem entry_roundtrip_witness:
  "\<exists>msg' d m. encode_entry_data 3 [7, 8, 9] [2] (replicate 40 255) 40 = (msg', int 16)
     \<and> decode_id 64 msg' 16 (replicate 16 0) (replicate 2 0) = Some (0, d, m)
     \<and> d ! 1 = 8 \<and> bit (m ! 0) 1"
proof -
  define msg' where "msg' = fold (encode_step [7, 8, 9] [2]) [0..<3] (replicate 40 255)"
  have e: "encode_entry_data 3 [7, 8, 9] [2] (replicate 40 255) 40 = (msg', int 16)"
    by (simp add: encode_entry_data_def SIZE_TO_SUB_BLK_COUNT_def msg'_def del: upt_Suc)
  obtain d m where d: "decode_id 64 msg' 16 (replicate 16 0) (replicate 2 0) = Some (0, d, m)"
    using decode_id_defined [of 16 64 msg' "replicate 16 0" "replicate 2 0"]
    by (auto simp: SUB_BLK_COUNT_def data_idx_def msg'_def)
  have "\<forall>i < 3. d ! i = [7, 8, 9] ! i \<and> bit (m ! (i div 8)) (i mod 8) = bit ([2 :: u8] ! (i div 8)) (i mod 8)"
    by (rule entry_roundtrip [OF e _ refl d]) simp
  from this [rule_format, of 1] e d show ?thesis by (simp add: bit_simps)
qed

text \<open>
  C20. A masked read never reveals a hidden byte: when the device runs \<open>mask_uid_data\<close> on
  the stored sub-blocks of a record before sending them, the host decodes a zero for every
  byte whose mask bit is set, the original byte for every other one, and the mask itself.
\<close>

theorem masked_read_hides:
  assumes "encode_entry_data sz data msk msg msg_sz = (msg', int n)" "msg_sz \<le> length msg"
    and "take n resp = mask_uid_data (take n msg') (SIZE_TO_SUB_BLK_COUNT sz)"
    and "decode_id cps resp n d0 m0 = Some (0, d, m)"
  shows "\<forall>i < sz. d ! i = (if bit (msk ! (i div 8)) (i mod 8) then 0 else data ! i)
           \<and> bit (m ! (i div 8)) (i mod 8) = bit (msk ! (i div 8)) (i mod 8)"
proof (intro allI impI)
  fix i assume i: "i < sz"
  note e = encode_entry_data_Some [OF assms(1,2)] and d = decode_id_Some [OF assms(4)]
  let ?c = "SIZE_TO_SUB_BLK_COUNT sz" and ?t = "take n msg'"
  have len: "length ?t = n" using e(2,3) assms(2) by simp
  have b: "\<forall>k<14 * ?c. data_idx k < length ?t"
  proof (intro allI impI)
    fix k assume "k < 14 * ?c"
    then have "k div 14 < ?c" by (simp add: div_less_iff_less_mult mult.commute)
    then show "data_idx k < length ?t" using data_idx_bound len e(1) by simp
  qed
  note m = mask_fold_spec [OF b, folded mask_uid_data_fold]
  have sz: "i < n" "i < 14 * ?c" using i e(1) size_le_blocks [of sz] by simp_all
  from e(4) i have k: "data_idx i < n" "mask_idx i < n" "msg' ! data_idx i = data ! i"
    "bit (msg' ! mask_idx i) (i mod 14 mod 8) = bit (msk ! (i div 8)) (i mod 8)" by blast+
  have r: "resp ! j = mask_uid_data ?t ?c ! j" if "j < n" for j
    using assms(3) that nth_take by metis
  from sz(1) d have "d ! i = resp ! data_idx i"
    "bit (m ! (i div 8)) (i mod 8) = bit (resp ! mask_idx i) (i mod 14 mod 8)" by auto
  with k sz m r show "d ! i = (if bit (msk ! (i div 8)) (i mod 8) then 0 else data ! i)
      \<and> bit (m ! (i div 8)) (i mod 8) = bit (msk ! (i div 8)) (i mod 8)" by auto
qed

theorem masked_read_hides_witness:
  "\<exists>msg' d m. encode_entry_data 3 [7, 8, 9] [2] (replicate 40 255) 40 = (msg', int 16)
     \<and> decode_id 64 (mask_uid_data (take 16 msg') 1 @ replicate 24 0) 16 (replicate 16 0) (replicate 2 0) = Some (0, d, m)
     \<and> d ! 1 = 0 \<and> d ! 2 = 9"
proof -
  define msg' where "msg' = fold (encode_step [7, 8, 9] [2]) [0..<3] (replicate 40 255)"
  have e: "encode_entry_data 3 [7, 8, 9] [2] (replicate 40 255) 40 = (msg', int 16)"
    by (simp add: encode_entry_data_def SIZE_TO_SUB_BLK_COUNT_def msg'_def del: upt_Suc)
  have c: "SIZE_TO_SUB_BLK_COUNT 3 = 1" by (simp add: SIZE_TO_SUB_BLK_COUNT_def)
  define resp where "resp = mask_uid_data (take 16 msg') 1 @ replicate 24 0"
  have lm: "length (mask_uid_data (take 16 msg') 1) = 16" by (simp add: mask_uid_data_fold msg'_def)
  obtain d m where d: "decode_id 64 resp 16 (replicate 16 0) (replicate 2 0) = Some (0, d, m)"
    using decode_id_defined [of 16 64 resp "replicate 16 0" "replicate 2 0"] lm
    by (auto simp: SUB_BLK_COUNT_def data_idx_def resp_def)
  have "\<forall>i < 3. d ! i = (if bit ([2 :: u8] ! (i div 8)) (i mod 8) then 0 else [7, 8, 9] ! i)
      \<and> bit (m ! (i div 8)) (i mod 8) = bit ([2 :: u8] ! (i div 8)) (i mod 8)"
    by (rule masked_read_hides [OF e _ _ d]) (simp_all add: resp_def lm c del: One_nat_def)
  from this [rule_format, of 1] this [rule_format, of 2] e d show ?thesis
    by (simp add: bit_simps resp_def)
qed

text \<open>
  C27. \<open>decode_id\<close> runs its loop once per response byte instead of once per data byte, so it
  reads behind the sub-blocks it was given: with a response of \<open>c\<close> sub-blocks it is only
  defined when the buffer behind the response pointer reaches past position
  \<open>data_idx (16 * c - 1)\<close>, about one seventh further than the response itself. For the
  largest records of a Signet HC this lies outside the response buffer.
\<close>

theorem decode_id_overread:
  assumes "0 < c" "16 * c < cps" "length resp \<le> data_idx (16 * c - 1)"
  shows "decode_id cps resp (16 * c) data msk = None"
proof (cases "decode_loop resp [0..<16 * c] (data, msk)")
  case None
  moreover have "SUB_BLK_COUNT (16 * c) = c" by (simp add: SUB_BLK_COUNT_def)
  ultimately show ?thesis using assms(2) by (simp add: decode_id_def)
next
  case (Some dm)
  obtain d m where "dm = (d, m)" by fastforce
  with Some have "\<forall>i<16 * c. data_idx i < length resp" using decode_loop_upt by fast
  then have "data_idx (16 * c - 1) < length resp" using assms(1) by simp
  with assms(3) show ?thesis by simp
qed

theorem decode_id_overread_witness:
  "decode_id 16391 (replicate 16389 0) (16 * 1023) (replicate 16391 0) (replicate 16391 0) = None"
  by (rule decode_id_overread) (simp_all add: data_idx_def)

end
