(* ===== verification/Host_Msg.thy ===== *)
theory Host_Msg
  imports Signet_Common Host_Codec
begin

text \<open>
  The message layer of the host library, \<open>signetdev/host/signetdev.c\<close>: device geometry,
  the requests handed to the I/O thread, the split of a request into HID packets, the
  reassembly of responses, and the decoding of each response before the application's
  callback sees it. Callbacks, errors and freed requests are recorded in order in \<open>events\<close>.
\<close>

datatype signetdev_device_type = SIGNETDEV_DEVICE_NONE | SIGNETDEV_DEVICE_ORIGINAL | SIGNETDEV_DEVICE_HC

datatype signetdev_cmd_id =
  SIGNETDEV_CMD_STARTUP | SIGNETDEV_CMD_LOGOUT | SIGNETDEV_CMD_LOGIN | SIGNETDEV_CMD_LOGIN_TOKEN
| SIGNETDEV_CMD_WIPE | SIGNETDEV_CMD_BUTTON_WAIT | SIGNETDEV_CMD_DISCONNECT | SIGNETDEV_CMD_GET_PROGRESS
| SIGNETDEV_CMD_BEGIN_DEVICE_BACKUP | SIGNETDEV_CMD_END_DEVICE_BACKUP | SIGNETDEV_CMD_BEGIN_DEVICE_RESTORE
| SIGNETDEV_CMD_END_DEVICE_RESTORE | SIGNETDEV_CMD_BEGIN_UPDATE_FIRMWARE | SIGNETDEV_CMD_RESET_DEVICE
| SIGNETDEV_CMD_SWITCH_BOOT_MODE | SIGNETDEV_CMD_TYPE | SIGNETDEV_CMD_CHANGE_MASTER_PASSWORD
| SIGNETDEV_CMD_BEGIN_INITIALIZE_DEVICE | SIGNETDEV_CMD_READ_BLOCK | SIGNETDEV_CMD_WRITE_BLOCK
| SIGNETDEV_CMD_WRITE_FLASH | SIGNETDEV_CMD_ERASE_PAGES | SIGNETDEV_CMD_ENTER_MOBILE_MODE
| SIGNETDEV_CMD_UPDATE_UID | SIGNETDEV_CMD_UPDATE_UIDS | SIGNETDEV_CMD_READ_UID | SIGNETDEV_CMD_READ_ALL_UIDS
| SIGNETDEV_CMD_GET_RAND_BITS | SIGNETDEV_CMD_GET_DEVICE_STATE | SIGNETDEV_CMD_READ_CLEARTEXT_PASSWORD
| SIGNETDEV_CMD_READ_CLEARTEXT_PASSWORD_NAMES | SIGNETDEV_CMD_WRITE_CLEARTEXT_PASSWORD

text \<open>
  \<open>struct send_message_req\<close>. Both response pointers are set together, to the two static
  buffers of \<open>signetdev_priv_send_message\<close>: \<open>get_resp\<close> says whether they are. \<open>user\<close> is an
  opaque pointer of the application.
\<close>

record send_message_req =
  dev_cmd :: int
  api_cmd :: signetdev_cmd_id
  payload :: "bytes option"
  payload_size :: nat
  messages_remaining :: nat
  get_resp :: bool
  user :: nat
  token :: int
  interrupt :: bool
  end_device_state :: int

text \<open>What a callback receives as response data.\<close>

record startup_resp_data =
  fw_major_version :: nat
  fw_minor_version :: nat
  fw_step_version :: nat
  sr_device_state :: nat
  root_block_format :: nat
  db_format :: nat
  boot_mode :: "nat option"
  upgrade_state :: "nat option"
  hashfn :: bytes
  salt :: bytes

datatype resp_data =
  RD_none
| RD_bytes bytes
| RD_progress (n_components: nat) (total_progress: nat) (total_progress_maximum: nat)
    (progress: "nat list") (progress_maximum: "nat list")
| RD_startup "startup_resp_data option"
| RD_rand nat bytes
| RD_uid nat bytes bytes
| RD_all_uids nat nat bytes bytes
| RD_uid_none

datatype host_event =
  Device_event nat nat bytes
| Command_resp (ev_user: nat) (ev_token: int) (ev_api: signetdev_cmd_id) (ev_state: int)
    (ev_remaining: nat) (ev_code: int) (ev_data: resp_data)
| Host_error
| Message_freed int

record host =
  g_device_type :: signetdev_device_type
  token_ctr :: int
  s_async_resp :: bytes
  s_async_resp_code :: int
  issued :: "send_message_req list"
  events :: "host_event list"
  has_resp_cb :: bool
  has_event_cb :: bool

section \<open>Geometry\<close>

definition signetdev_device_block_size :: "signetdev_device_type \<Rightarrow> nat" where
  "signetdev_device_block_size t =
     (case t of SIGNETDEV_DEVICE_ORIGINAL \<Rightarrow> 2048 | SIGNETDEV_DEVICE_HC \<Rightarrow> 16384 | _ \<Rightarrow> 0)"

definition signetdev_max_entry_data_size :: "signetdev_device_type \<Rightarrow> nat" where
  "signetdev_max_entry_data_size t =
     (case t of SIGNETDEV_DEVICE_NONE \<Rightarrow> 0
      | _ \<Rightarrow> SUB_BLK_DATA_SIZE * ((signetdev_device_block_size t - SUB_BLK_SIZE) div SUB_BLK_SIZE))"

definition signetdev_device_num_root_blocks :: nat where
  "signetdev_device_num_root_blocks = 1"

definition signetdev_priv_cmd_payload_size :: "signetdev_device_type \<Rightarrow> nat" where
  "signetdev_priv_cmd_payload_size t = signetdev_device_block_size t + CMD_PACKET_HEADER_SIZE + 1"

definition signetdev_priv_hid_packet_size :: "signetdev_device_type \<Rightarrow> int" where
  "signetdev_priv_hid_packet_size t =
     (case t of SIGNETDEV_DEVICE_ORIGINAL \<Rightarrow> 64 | SIGNETDEV_DEVICE_HC \<Rightarrow> 512 | _ \<Rightarrow> -1)"

definition signetdev_priv_hid_payload_size :: "signetdev_device_type \<Rightarrow> int" where
  "signetdev_priv_hid_payload_size t =
     (case t of SIGNETDEV_DEVICE_NONE \<Rightarrow> -1 | _ \<Rightarrow> signetdev_priv_hid_packet_size t - int RAW_HID_HEADER_SIZE)"

definition signetdev_priv_startup_resp_info_size :: "signetdev_device_type \<Rightarrow> int" where
  "signetdev_priv_startup_resp_info_size t =
     (case t of SIGNETDEV_DEVICE_ORIGINAL \<Rightarrow> 6 | SIGNETDEV_DEVICE_HC \<Rightarrow> 8 | _ \<Rightarrow> -1)"

definition signetdev_priv_startup_resp_size :: "signetdev_device_type \<Rightarrow> nat" where
  "signetdev_priv_startup_resp_size t =
     (case t of SIGNETDEV_DEVICE_NONE \<Rightarrow> 0
      | _ \<Rightarrow> nat (signetdev_priv_startup_resp_info_size t) + HASH_FN_SZ + SALT_SZ_V2)"

definition signetdev_device_num_storage_blocks :: "signetdev_device_type \<Rightarrow> nat" where
  "signetdev_device_num_storage_blocks t =
     (case t of SIGNETDEV_DEVICE_ORIGINAL \<Rightarrow> 96 | SIGNETDEV_DEVICE_HC \<Rightarrow> 1024 | _ \<Rightarrow> 0)"

definition signetdev_device_num_data_blocks :: "signetdev_device_type \<Rightarrow> nat" where
  "signetdev_device_num_data_blocks t =
     (case t of SIGNETDEV_DEVICE_NONE \<Rightarrow> 0
      | _ \<Rightarrow> signetdev_device_num_storage_blocks t - signetdev_device_num_root_blocks)"

section \<open>Requests\<close>

definition get_cmd_token :: "host \<Rightarrow> int \<times> host" where
  "get_cmd_token h = (token_ctr h, h\<lparr>token_ctr := token_ctr h + 1\<rparr>)"

definition signetdev_priv_send_message ::
  "nat \<Rightarrow> int \<Rightarrow> int \<Rightarrow> signetdev_cmd_id \<Rightarrow> nat \<Rightarrow> bytes option \<Rightarrow> nat \<Rightarrow> bool \<Rightarrow> host \<Rightarrow> int \<times> host" where
  "signetdev_priv_send_message usr tok dcmd acmd remaining pl pl_size gresp h =
     (let r = \<lparr>dev_cmd = dcmd, api_cmd = acmd,
               payload = map_option (take pl_size) pl,
               payload_size = pl_size,
               messages_remaining = remaining,
               get_resp = gresp, user = usr, token = tok, interrupt = False, end_device_state = 0\<rparr>
      in (0, h\<lparr>issued := issued h @ [r]\<rparr>))"

definition signetdev_priv_cancel_message :: "int \<Rightarrow> bytes option \<Rightarrow> nat \<Rightarrow> host \<Rightarrow> int \<times> host" where
  "signetdev_priv_cancel_message dcmd pl pl_size h =
     (let r = \<lparr>dev_cmd = dcmd, api_cmd = SIGNETDEV_CMD_BUTTON_WAIT,
               payload = map_option (take pl_size) pl,
               payload_size = pl_size,
               messages_remaining = 0,
               get_resp = False, user = 0, token = 0, interrupt = True, end_device_state = 0\<rparr>
      in (0, h\<lparr>issued := issued h @ [r]\<rparr>))"

section \<open>Sending: from a request to HID packets\<close>

record tx_message_state =
  msg_buf :: bytes
  packet_buf :: bytes
  msg_size :: nat
  msg_packet_seq :: nat
  msg_packet_count :: nat

abbreviation (input) MAX_CMD_PACKET_BUF_SIZE :: nat where "MAX_CMD_PACKET_BUF_SIZE \<equiv> 16907"
abbreviation (input) MAX_CMD_PACKET_PAYLOAD_SIZE :: nat where "MAX_CMD_PACKET_PAYLOAD_SIZE \<equiv> 16391"

definition signetdev_priv_prepare_message_state ::
  "signetdev_device_type \<Rightarrow> int \<Rightarrow> nat \<Rightarrow> bytes option \<Rightarrow> nat \<Rightarrow> tx_message_state \<Rightarrow> tx_message_state option" where
  "signetdev_priv_prepare_message_state t dcmd remaining pl pl_size msg =
     (let size = to_unsigned (int pl_size + int CMD_PACKET_HEADER_SIZE);
          p = to_unsigned (signetdev_priv_hid_payload_size t);
          buf = (msg_buf msg)[0 := word_of_nat size];
          buf = buf[1 := word_of_nat (size div 256)];
          buf = buf[2 := word_of_int dcmd];
          buf = buf[3 := word_of_nat remaining];
          buf = buf[4 := word_of_nat (remaining div 256)];
          msg = msg\<lparr>msg_size := size, msg_buf := buf, msg_packet_seq := 0,
                    msg_packet_count := to_unsigned (int size + int p - 1) div p\<rparr>
      in case pl of
           None \<Rightarrow> Some msg
         | Some d \<Rightarrow>
             if pl_size \<le> length d
             then map_option (\<lambda>b. msg\<lparr>msg_buf := b\<rparr>) (memcpy_to buf CMD_PACKET_HEADER_SIZE (take pl_size d))
             else None)"

definition signetdev_priv_advance_message_state :: "signetdev_device_type \<Rightarrow> tx_message_state \<Rightarrow> tx_message_state option" where
  "signetdev_priv_advance_message_state t msg =
     (let p = to_unsigned (signetdev_priv_hid_payload_size t);
          seq = msg_packet_seq msg;
          hdr = word_of_nat seq OR (if seq + 1 = msg_packet_count msg then 0x80 else 0 :: u8)
      in case read_from (msg_buf msg) (p * seq) p of
           None \<Rightarrow> None
         | Some chunk \<Rightarrow>
             map_option (\<lambda>b. msg\<lparr>packet_buf := b, msg_packet_seq := seq + 1\<rparr>)
               (memcpy_to (packet_buf msg) 0 ([0, hdr] @ chunk)))"

definition signetdev_priv_message_packet_count :: "signetdev_device_type \<Rightarrow> nat \<Rightarrow> nat" where
  "signetdev_priv_message_packet_count t msg_sz =
     (msg_sz + signetdev_priv_cmd_payload_size t - 1) div signetdev_priv_cmd_payload_size t"

section \<open>Receiving\<close>

record rx_message_state =
  expected_resp_size :: nat
  expected_messages_remaining :: nat
  rx_message :: "send_message_req option"

definition emit :: "host_event \<Rightarrow> host \<Rightarrow> host" where
  "emit e h = h\<lparr>events := events h @ [e]\<rparr>"

definition signetdev_priv_handle_device_event :: "nat \<Rightarrow> bytes \<Rightarrow> nat \<Rightarrow> host \<Rightarrow> host" where
  "signetdev_priv_handle_device_event ty dat resp_len h =
     (if has_event_cb h then emit (Device_event ty resp_len (take resp_len dat)) h else h)"

definition call_resp_cb :: "send_message_req \<Rightarrow> int \<Rightarrow> nat \<Rightarrow> resp_data \<Rightarrow> host \<Rightarrow> host" where
  "call_resp_cb m rcode remaining d h =
     (if has_resp_cb h
      then emit (Command_resp (user m) (token m) (api_cmd m) (end_device_state m) remaining rcode d) h else h)"

definition decode_progress :: "bytes \<Rightarrow> nat \<Rightarrow> resp_data" where
  "decode_progress resp resp_len =
     (let k = resp_len div 4 - 1
      in RD_progress k (rd16 resp 0) (rd16 resp 2)
           (map (\<lambda>i. rd16 resp ((i + 1) * 4)) [0..<k])
           (map (\<lambda>i. rd16 resp ((i + 1) * 4 + 2)) [0..<k]))"

definition decode_startup :: "signetdev_device_type \<Rightarrow> bytes \<Rightarrow> startup_resp_data" where
  "decode_startup t resp =
     (let i = nat (signetdev_priv_startup_resp_info_size t)
      in \<lparr>fw_major_version = unat (resp ! 0), fw_minor_version = unat (resp ! 1),
          fw_step_version = unat (resp ! 2), sr_device_state = unat (resp ! 3),
          root_block_format = unat (resp ! 4), db_format = unat (resp ! 5),
          boot_mode = (if t = SIGNETDEV_DEVICE_HC then Some (unat (resp ! 6)) else None),
          upgrade_state = (if t = SIGNETDEV_DEVICE_HC then Some (unat (resp ! 7)) else None),
          hashfn = slice resp i HASH_FN_SZ,
          salt = slice resp (i + HASH_FN_SZ) SALT_SZ_V2\<rparr>)"

text \<open>
  \<open>signetdev_priv_handle_command_resp\<close>. \<open>resp\<close> is the static response buffer. The result
  structures of the two \<open>READ_*UID*\<close> cases live on the stack: \<open>g\<close> is what their \<open>data\<close> and
  \<open>mask\<close> arrays held before. The progress arrays have room for eight components, more is a
  write outside them.
\<close>

definition signetdev_priv_handle_command_resp ::
  "bytes \<Rightarrow> send_message_req \<Rightarrow> int \<Rightarrow> bytes \<Rightarrow> nat \<Rightarrow> nat \<Rightarrow> host \<Rightarrow> host option" where
  "signetdev_priv_handle_command_resp g m rcode resp resp_len remaining h =
     (let t = g_device_type h; cb = call_resp_cb m rcode remaining;
          okay = int (resp_code OKAY)
      in if dev_cmd m = READ_BLOCK_HC \<or> dev_cmd m = READ_BLOCK then
           (if resp_len \<noteq> signetdev_device_block_size t then Some (emit Host_error h)
            else Some (cb (RD_bytes (take resp_len resp)) h))
         else if dev_cmd m = READ_CLEARTEXT_PASSWORD then
           (if rcode = okay \<and> resp_len \<noteq> CLEARTEXT_PASS_SIZE then Some (emit Host_error h)
            else Some (cb (RD_bytes (take resp_len resp)) h))
         else if dev_cmd m = READ_CLEARTEXT_PASSWORD_NAMES then
           (if rcode = okay \<and> resp_len \<noteq> (64 + 1) * 4 then Some (emit Host_error h)
            else Some (cb (RD_bytes (take resp_len resp)) h))
         else if dev_cmd m = GET_PROGRESS then
           (if rcode = okay \<and> resp_len \<ge> 4 \<and> resp_len mod 4 = 0 then
              (if resp_len div 4 - 1 \<le> 8 then Some (cb (decode_progress resp resp_len) h) else None)
            else if rcode = int (resp_code INVALID_STATE) then Some (cb (RD_progress 0 0 0 [] []) h)
            else Some (emit Host_error h))
         else if dev_cmd m = STARTUP then
           (if rcode = okay \<and> resp_len < signetdev_priv_startup_resp_size t then Some (emit Host_error h)
            else if rcode = okay \<or> rcode = int (resp_code UNKNOWN_DB_FORMAT)
            then Some (cb (RD_startup (Some (decode_startup t resp))) h)
            else Some (cb (RD_startup None) h))
         else if dev_cmd m = GET_RAND_BITS then Some (cb (RD_rand resp_len (take resp_len resp)) h)
         else if dev_cmd m = READ_ALL_UIDS then
           (if rcode = okay then
              (if resp_len < 4 then Some (emit Host_error h)
               else if resp_len - 4 = 0 then Some (cb (RD_all_uids (rd16 resp 0) (rd16 resp 2) g g) h)
               else (case decode_id (signetdev_priv_cmd_payload_size t) (drop 4 resp) (resp_len - 4) g g of
                       None \<Rightarrow> None
                     | Some (rc, dat, msk) \<Rightarrow>
                         if rc \<noteq> 0 then Some (emit Host_error h)
                         else Some (cb (RD_all_uids (rd16 resp 0) (rd16 resp 2) dat msk) h)))
            else Some (cb RD_uid_none h))
         else if dev_cmd m = READ_UID then
           (if rcode = okay then
              (if resp_len < 2 then Some (emit Host_error h)
               else if resp_len - 2 = 0 then Some (cb (RD_uid (rd16 resp 0) g g) h)
               else (case decode_id (signetdev_priv_cmd_payload_size t) (drop 2 resp) (resp_len - 2) g g of
                       None \<Rightarrow> None
                     | Some (rc, dat, msk) \<Rightarrow>
                         if rc \<noteq> 0 then Some (emit Host_error h)
                         else Some (cb (RD_uid (rd16 resp 0) dat msk) h)))
            else Some (cb RD_uid_none h))
         else Some (cb RD_none h))"

definition signetdev_priv_message_send_resp :: "bytes \<Rightarrow> send_message_req \<Rightarrow> int \<Rightarrow> nat \<Rightarrow> host \<Rightarrow> host option" where
  "signetdev_priv_message_send_resp g m rc remaining h =
     (if interrupt m then Some h
      else let code = (if get_resp m then s_async_resp_code h else int (resp_code OKAY));
               resp_len = (if rc \<ge> 0 then nat rc else 0);
               code = (if rc \<ge> 0 then code else rc)
           in signetdev_priv_handle_command_resp g m code (s_async_resp h) resp_len remaining h)"

definition signetdev_priv_free_message :: "send_message_req \<Rightarrow> host \<Rightarrow> host" where
  "signetdev_priv_free_message m h = emit (Message_freed (token m)) h"

definition signetdev_priv_finalize_message :: "bytes \<Rightarrow> send_message_req \<Rightarrow> int \<Rightarrow> host \<Rightarrow> host option" where
  "signetdev_priv_finalize_message g m rc h =
     map_option (signetdev_priv_free_message m) (signetdev_priv_message_send_resp g m rc 0 h)"

text \<open>
  \<open>signetdev_priv_process_rx_packet\<close>. The packet is the report the device sent. A response
  to a message without response buffer is copied through a null pointer: no result. The
  statements before the assignments to \<open>resp_code\<close> do not depend on their order.
\<close>

definition signetdev_priv_process_rx_packet ::
  "bytes \<Rightarrow> bytes \<Rightarrow> rx_message_state \<times> host \<Rightarrow> (rx_message_state \<times> host) option" where
  "signetdev_priv_process_rx_packet g pkt sh =
     (let (st, h) = sh;
          seq = unat (pkt ! 0 AND 0x7f);
          last = unat (drop_bit 7 (pkt ! 0)) \<noteq> 0;
          hdr = drop RAW_HID_HEADER_SIZE pkt;
          p = nat (signetdev_priv_hid_payload_size (g_device_type h))
      in if seq = 0x7f then
           Some (st, signetdev_priv_handle_device_event (unat (hdr ! 0)) (drop 2 hdr) (unat (hdr ! 1)) h)
         else case rx_message st of
           None \<Rightarrow> Some (st, h)
         | Some m \<Rightarrow>
           do {
              (st, h) \<leftarrow>
                (if seq = 0 then do {
                   let size = to_unsigned (int (rd16 hdr 0) - int CMD_PACKET_HEADER_SIZE);
                   let m = m\<lparr>end_device_state := int (unat (hdr ! 5))\<rparr>;
                   _ \<leftarrow> (if get_resp m then Some () else None);
                   b \<leftarrow> memcpy_to (s_async_resp h) 0 (slice hdr CMD_PACKET_HEADER_SIZE (p - CMD_PACKET_HEADER_SIZE));
                   Some (st\<lparr>expected_resp_size := size, expected_messages_remaining := rd16 hdr 3,
                            rx_message := Some m\<rparr>,
                         h\<lparr>s_async_resp := b, s_async_resp_code := int (unat (hdr ! 2))\<rparr>)
                 } else do {
                   let offset = p * seq - CMD_PACKET_HEADER_SIZE;
                   let to_read = (if offset + p > expected_resp_size st
                                  then to_unsigned (int (expected_resp_size st) - int offset) else p);
                   if to_read = 0 then Some (st, h)
                   else if to_read > p \<or> \<not> get_resp m then None
                   else do {
                     b \<leftarrow> memcpy_to (s_async_resp h) offset (slice hdr 0 to_read);
                     Some (st, h\<lparr>s_async_resp := b\<rparr>)
                   }
                 });
              if \<not> last then Some (st, h)
              else (case rx_message st of
                      None \<Rightarrow> None
                    | Some m \<Rightarrow>
                        if expected_messages_remaining st = 0
                        then map_option (\<lambda>h. (st\<lparr>rx_message := None\<rparr>, h))
                               (signetdev_priv_finalize_message g m (to_signed (expected_resp_size st)) h)
                        else map_option (\<lambda>h. (st, h))
                               (signetdev_priv_message_send_resp g m (to_signed (expected_resp_size st))
                                  (expected_messages_remaining st) h))
            })"

end
