(* ===== verification/Host_Api.thy ===== *)
theory Host_Api
  imports Host_Msg
begin

text \<open>
  The entry points of the host library (\<open>signetdev/host/signetdev.c\<close>): each builds the
  payload of one device command and hands a request to the I/O thread. A function returns
  the C return code, the value left in \<open>*token\<close> and the new state; buffers passed by the
  application are byte lists and reading behind their end gives \<^const>\<open>None\<close>. \<open>g\<close> is what an
  uninitialised local buffer held, \<open>t0\<close> what \<open>*token\<close> held.
\<close>

type_synonym api_result = "(int \<times> int \<times> host) option"

definition execute_command :: "nat \<Rightarrow> int \<Rightarrow> int \<Rightarrow> signetdev_cmd_id \<Rightarrow> host \<Rightarrow> int \<times> host" where
  "execute_command usr tok dcmd acmd h = signetdev_priv_send_message usr tok dcmd acmd 0 None 0 True h"

definition execute_command_no_resp :: "nat \<Rightarrow> int \<Rightarrow> int \<Rightarrow> signetdev_cmd_id \<Rightarrow> host \<Rightarrow> int \<times> host" where
  "execute_command_no_resp usr tok dcmd acmd h = signetdev_priv_send_message usr tok dcmd acmd 0 None 0 False h"

text \<open>A fresh token, then a command without payload, or with one.\<close>

definition api_command :: "nat \<Rightarrow> int \<Rightarrow> signetdev_cmd_id \<Rightarrow> host \<Rightarrow> api_result" where
  "api_command usr dcmd acmd h =
     (let (tok, h) = get_cmd_token h; (rc, h) = execute_command usr tok dcmd acmd h in Some (rc, tok, h))"

definition api_command_no_resp :: "nat \<Rightarrow> int \<Rightarrow> signetdev_cmd_id \<Rightarrow> host \<Rightarrow> api_result" where
  "api_command_no_resp usr dcmd acmd h =
     (let (tok, h) = get_cmd_token h; (rc, h) = execute_command_no_resp usr tok dcmd acmd h in Some (rc, tok, h))"

definition api_message :: "nat \<Rightarrow> int \<Rightarrow> signetdev_cmd_id \<Rightarrow> nat \<Rightarrow> bytes \<Rightarrow> host \<Rightarrow> api_result" where
  "api_message usr dcmd acmd remaining msg h =
     (let (tok, h) = get_cmd_token h;
          (rc, h) = signetdev_priv_send_message usr tok dcmd acmd remaining (Some msg) (length msg) True h
      in Some (rc, tok, h))"

text \<open>The token is taken even when the call then fails without sending.\<close>

definition api_fail :: "int \<Rightarrow> host \<Rightarrow> api_result" where
  "api_fail rc h = (let (tok, h) = get_cmd_token h in Some (rc, tok, h))"

section \<open>Commands without payload\<close>

definition signetdev_cancel_button_wait :: "host \<Rightarrow> int \<times> host" where
  "signetdev_cancel_button_wait h =
     (let (_, h) = signetdev_priv_cancel_message CANCEL_BUTTON_PRESS None 0 h in (int (resp_code OKAY), h))"

definition signetdev_logout :: "nat \<Rightarrow> host \<Rightarrow> api_result" where
  "signetdev_logout usr = api_command usr LOGOUT SIGNETDEV_CMD_LOGOUT"

definition signetdev_wipe :: "nat \<Rightarrow> host \<Rightarrow> api_result" where
  "signetdev_wipe usr = api_command usr WIPE SIGNETDEV_CMD_WIPE"

definition signetdev_button_wait :: "nat \<Rightarrow> host \<Rightarrow> api_result" where
  "signetdev_button_wait usr = api_command usr BUTTON_WAIT SIGNETDEV_CMD_BUTTON_WAIT"

definition signetdev_disconnect :: "nat \<Rightarrow> host \<Rightarrow> api_result" where
  "signetdev_disconnect usr = api_command_no_resp usr DISCONNECT SIGNETDEV_CMD_DISCONNECT"

definition signetdev_begin_device_backup :: "nat \<Rightarrow> host \<Rightarrow> api_result" where
  "signetdev_begin_device_backup usr = api_command usr BACKUP_DEVICE SIGNETDEV_CMD_BEGIN_DEVICE_BACKUP"

definition signetdev_end_device_backup :: "nat \<Rightarrow> host \<Rightarrow> api_result" where
  "signetdev_end_device_backup usr = api_command usr BACKUP_DEVICE_DONE SIGNETDEV_CMD_END_DEVICE_BACKUP"

definition signetdev_begin_device_restore :: "nat \<Rightarrow> host \<Rightarrow> api_result" where
  "signetdev_begin_device_restore usr = api_command usr RESTORE_DEVICE SIGNETDEV_CMD_BEGIN_DEVICE_RESTORE"

definition signetdev_end_device_restore :: "nat \<Rightarrow> host \<Rightarrow> api_result" where
  "signetdev_end_device_restore usr = api_command usr RESTORE_DEVICE_DONE SIGNETDEV_CMD_END_DEVICE_RESTORE"

definition signetdev_get_device_state :: "nat \<Rightarrow> host \<Rightarrow> api_result" where
  "signetdev_get_device_state usr = api_command usr GET_DEVICE_STATE SIGNETDEV_CMD_GET_DEVICE_STATE"

definition signetdev_begin_update_firmware :: "nat \<Rightarrow> host \<Rightarrow> api_result" where
  "signetdev_begin_update_firmware usr = api_command usr UPDATE_FIRMWARE SIGNETDEV_CMD_BEGIN_UPDATE_FIRMWARE"

definition signetdev_reset_device :: "nat \<Rightarrow> host \<Rightarrow> api_result" where
  "signetdev_reset_device usr = api_command_no_resp usr RESET_DEVICE SIGNETDEV_CMD_RESET_DEVICE"

definition signetdev_switch_boot_mode :: "nat \<Rightarrow> host \<Rightarrow> api_result" where
  "signetdev_switch_boot_mode usr = api_command usr SWITCH_BOOT_MODE SIGNETDEV_CMD_SWITCH_BOOT_MODE"

definition signetdev_startup :: "nat \<Rightarrow> host \<Rightarrow> api_result" where
  "signetdev_startup usr = api_command usr STARTUP SIGNETDEV_CMD_STARTUP"

definition signetdev_enter_mobile_mode :: "nat \<Rightarrow> host \<Rightarrow> api_result" where
  "signetdev_enter_mobile_mode usr = api_command_no_resp usr ENTER_MOBILE_MODE SIGNETDEV_CMD_ENTER_MOBILE_MODE"

definition signetdev_read_cleartext_password_names :: "nat \<Rightarrow> host \<Rightarrow> api_result" where
  "signetdev_read_cleartext_password_names usr =
     api_command usr READ_CLEARTEXT_PASSWORD_NAMES SIGNETDEV_CMD_READ_CLEARTEXT_PASSWORD_NAMES"

definition signetdev_erase_pages_hc :: "nat \<Rightarrow> host \<Rightarrow> api_result" where
  "signetdev_erase_pages_hc usr = api_command usr ERASE_FLASH_PAGES SIGNETDEV_CMD_ERASE_PAGES"

section \<open>Commands with a payload\<close>

text \<open>This one does not allocate a token: the request carries what \<open>*token\<close> held.\<close>

definition signetdev_get_rand_bits :: "nat \<Rightarrow> int \<Rightarrow> int \<Rightarrow> host \<Rightarrow> api_result" where
  "signetdev_get_rand_bits usr t0 sz h =
     (let (rc, h) = signetdev_priv_send_message usr t0 GET_RAND_BITS SIGNETDEV_CMD_GET_RAND_BITS 0
                      (Some [lo8 sz, hi8 sz]) 2 True h
      in Some (rc, t0, h))"

text \<open>
  \<open>memcpy(msg + off, src, n > room ? room : n)\<close>, the bounded copy of the key, hash function
  and salt arguments.
\<close>

definition copy_field :: "bytes \<Rightarrow> nat \<Rightarrow> bytes \<Rightarrow> nat \<Rightarrow> nat \<Rightarrow> bytes option" where
  "copy_field msg off src n room =
     (case read_from src 0 (if n > room then room else n) of
        None \<Rightarrow> None | Some d \<Rightarrow> memcpy_to msg off d)"

definition signetdev_login :: "nat \<Rightarrow> bytes \<Rightarrow> nat \<Rightarrow> int \<Rightarrow> host \<Rightarrow> api_result" where
  "signetdev_login usr ky key_len gen_token h = do {
     d \<leftarrow> read_from ky 0 (if key_len > 32 then 33 else key_len);
     msg \<leftarrow> memcpy_to (replicate 33 0) 0 d;
     let msg = msg[32 := word_of_int gen_token];
     api_message usr LOGIN SIGNETDEV_CMD_LOGIN 0 msg h
   }"

text \<open>The request's token is the first byte of the login token, not the allocated one.\<close>

definition signetdev_login_token :: "nat \<Rightarrow> bytes \<Rightarrow> host \<Rightarrow> api_result" where
  "signetdev_login_token usr ltok h = do {
     msg \<leftarrow> read_from ltok 0 32;
     let (tok, h) = get_cmd_token h;
     let (rc, h) = signetdev_priv_send_message usr (uint (ltok ! 0)) LOGIN_TOKEN SIGNETDEV_CMD_LOGIN_TOKEN 0
                     (Some msg) 32 True h;
     Some (rc, tok, h)
   }"

definition signetdev_get_progress :: "nat \<Rightarrow> int \<Rightarrow> int \<Rightarrow> host \<Rightarrow> api_result" where
  "signetdev_get_progress usr prog state =
     api_message usr GET_PROGRESS SIGNETDEV_CMD_GET_PROGRESS 0 [lo8 prog, hi8 prog, lo8 state, hi8 state]"

text \<open>\<open>fw_info\<close> is the packed \<open>struct hc_firmware_info\<close>, 80 bytes.\<close>

definition signetdev_begin_update_firmware_hc :: "nat \<Rightarrow> bytes \<Rightarrow> host \<Rightarrow> api_result" where
  "signetdev_begin_update_firmware_hc usr fw_info h = do {
     msg \<leftarrow> read_from fw_info 0 80;
     api_message usr UPDATE_FIRMWARE SIGNETDEV_CMD_BEGIN_UPDATE_FIRMWARE 0 msg h
   }"

definition signetdev_read_cleartext_password :: "nat \<Rightarrow> int \<Rightarrow> host \<Rightarrow> api_result" where
  "signetdev_read_cleartext_password usr index =
     api_message usr READ_CLEARTEXT_PASSWORD SIGNETDEV_CMD_READ_CLEARTEXT_PASSWORD 0 [word_of_int index]"

definition signetdev_write_cleartext_password :: "nat \<Rightarrow> int \<Rightarrow> bytes \<Rightarrow> host \<Rightarrow> api_result" where
  "signetdev_write_cleartext_password usr index pass h = do {
     d \<leftarrow> read_from pass 0 CLEARTEXT_PASS_SIZE;
     api_message usr WRITE_CLEARTEXT_PASSWORD SIGNETDEV_CMD_WRITE_CLEARTEXT_PASSWORD 0 (word_of_int index # d) h
   }"

definition signetdev_begin_initialize_device ::
  "nat \<Rightarrow> bytes \<Rightarrow> nat \<Rightarrow> bytes \<Rightarrow> nat \<Rightarrow> bytes \<Rightarrow> nat \<Rightarrow> bytes \<Rightarrow> nat \<Rightarrow> host \<Rightarrow> api_result" where
  "signetdev_begin_initialize_device usr ky key_len hfn hashfn_len slt salt_len rnd rand_data_len h = do {
     let msg = replicate INITIALIZE_CMD_SIZE 0;
     msg \<leftarrow> copy_field msg 0 ky key_len 32;
     msg \<leftarrow> copy_field msg 32 hfn hashfn_len HASH_FN_SZ;
     msg \<leftarrow> copy_field msg (32 + HASH_FN_SZ) slt salt_len SALT_SZ_V2;
     msg \<leftarrow> copy_field msg (32 + HASH_FN_SZ + SALT_SZ_V2) rnd rand_data_len INIT_RAND_DATA_SZ;
     api_message usr INITIALIZE SIGNETDEV_CMD_BEGIN_INITIALIZE_DEVICE 0 msg h
   }"

definition signetdev_change_master_password ::
  "nat \<Rightarrow> bytes \<Rightarrow> nat \<Rightarrow> bytes \<Rightarrow> nat \<Rightarrow> bytes \<Rightarrow> nat \<Rightarrow> bytes \<Rightarrow> nat \<Rightarrow> host \<Rightarrow> api_result" where
  "signetdev_change_master_password usr old_key old_key_len new_key new_key_len hfn hashfn_len slt salt_len h = do {
     let msg = replicate (32 * 2 + HASH_FN_SZ + SALT_SZ_V2) 0;
     msg \<leftarrow> copy_field msg 0 old_key old_key_len 32;
     msg \<leftarrow> copy_field msg 32 new_key new_key_len 32;
     msg \<leftarrow> copy_field msg 64 hfn hashfn_len HASH_FN_SZ;
     msg \<leftarrow> copy_field msg (64 + HASH_FN_SZ) slt salt_len SALT_SZ_V2;
     api_message usr CHANGE_MASTER_PASSWORD SIGNETDEV_CMD_CHANGE_MASTER_PASSWORD 0 msg h
   }"

section \<open>Blocks, flash and records\<close>

definition signetdev_read_block :: "nat \<Rightarrow> nat \<Rightarrow> host \<Rightarrow> api_result" where
  "signetdev_read_block usr idx h =
     (if g_device_type h = SIGNETDEV_DEVICE_HC
      then api_message usr READ_BLOCK_HC SIGNETDEV_CMD_READ_BLOCK 0 [lo8 (int idx), hi8 (int idx)] h
      else api_message usr READ_BLOCK SIGNETDEV_CMD_READ_BLOCK 0 [lo8 (int idx)] h)"

definition signetdev_write_block :: "nat \<Rightarrow> nat \<Rightarrow> bytes \<Rightarrow> host \<Rightarrow> api_result" where
  "signetdev_write_block usr idx buffer h = do {
     d \<leftarrow> read_from buffer 0 (signetdev_device_block_size (g_device_type h));
     if g_device_type h = SIGNETDEV_DEVICE_HC
     then api_message usr WRITE_BLOCK_HC SIGNETDEV_CMD_WRITE_BLOCK 0 ([lo8 (int idx), hi8 (int idx)] @ d) h
     else api_message usr WRITE_BLOCK SIGNETDEV_CMD_WRITE_BLOCK 0 ([lo8 (int idx)] @ d) h
   }"

definition signetdev_write_flash :: "nat \<Rightarrow> nat \<Rightarrow> bytes \<Rightarrow> nat \<Rightarrow> host \<Rightarrow> api_result" where
  "signetdev_write_flash usr addr data data_len h =
     (if to_unsigned (4 + int data_len) \<ge> MAX_CMD_PACKET_PAYLOAD_SIZE then api_fail SIGNET_ERROR_OVERFLOW h
      else do {
        d \<leftarrow> read_from data 0 data_len;
        if 4 + data_len > MAX_CMD_PACKET_PAYLOAD_SIZE then None
        else api_message usr WRITE_FLASH SIGNETDEV_CMD_WRITE_FLASH 0 (le32 addr @ d) h
      })"

definition signetdev_erase_pages :: "nat \<Rightarrow> bytes \<Rightarrow> nat \<Rightarrow> host \<Rightarrow> api_result" where
  "signetdev_erase_pages usr page_numbers n_pages h = do {
     d \<leftarrow> read_from page_numbers 0 n_pages;
     api_message usr ERASE_FLASH_PAGES SIGNETDEV_CMD_ERASE_PAGES 0 d h
   }"

definition uid_message :: "bytes \<Rightarrow> nat \<Rightarrow> nat \<Rightarrow> bytes \<Rightarrow> bytes \<Rightarrow> (bytes + int) option" where
  "uid_message g uid sz data msk =
     (let hdr = le16 uid @ le16 sz;
          (body, message_size) = encode_entry_data sz data msk (drop 4 g) (MAX_CMD_PACKET_PAYLOAD_SIZE - 4)
      in if message_size < 0 then Some (Inr message_size)
         else if sz \<le> length data \<and> sz \<le> 8 * length msk \<and> length g = MAX_CMD_PACKET_PAYLOAD_SIZE
         then Some (Inl (hdr @ take (nat message_size) body))
         else None)"

definition signetdev_update_uid :: "bytes \<Rightarrow> nat \<Rightarrow> nat \<Rightarrow> nat \<Rightarrow> bytes \<Rightarrow> bytes \<Rightarrow> host \<Rightarrow> api_result" where
  "signetdev_update_uid g usr uid sz data msk h =
     (case uid_message g uid sz data msk of
        None \<Rightarrow> None
      | Some (Inr rc) \<Rightarrow> api_fail rc h
      | Some (Inl msg) \<Rightarrow> api_message usr UPDATE_UID SIGNETDEV_CMD_UPDATE_UID 0 msg h)"

definition signetdev_update_uids :: "bytes \<Rightarrow> nat \<Rightarrow> nat \<Rightarrow> nat \<Rightarrow> bytes \<Rightarrow> bytes \<Rightarrow> nat \<Rightarrow> host \<Rightarrow> api_result" where
  "signetdev_update_uids g usr uid sz data msk remaining_uids h =
     (case uid_message g uid sz data msk of
        None \<Rightarrow> None
      | Some (Inr rc) \<Rightarrow> api_fail rc h
      | Some (Inl msg) \<Rightarrow> api_message usr UPDATE_UIDS SIGNETDEV_CMD_UPDATE_UIDS remaining_uids msg h)"

definition signetdev_read_uid :: "nat \<Rightarrow> int \<Rightarrow> int \<Rightarrow> host \<Rightarrow> api_result" where
  "signetdev_read_uid usr uid masked =
     api_message usr READ_UID SIGNETDEV_CMD_READ_UID 0 [lo8 uid, hi8 uid, lo8 masked]"

definition signetdev_read_all_uids :: "nat \<Rightarrow> int \<Rightarrow> host \<Rightarrow> api_result" where
  "signetdev_read_all_uids usr masked =
     api_message usr READ_ALL_UIDS SIGNETDEV_CMD_READ_ALL_UIDS 0 [lo8 masked]"

end
