(* ===== verification/Host_Keymap.thy ===== *)
theory Host_Keymap
  imports Host_Api
begin

text \<open>
  Typing through the device (\<open>signetdev/host/signetdev.c\<close>): the key map from UTF-16 code
  units to one or two key strokes, the conversion of text to scan codes, and the three
  \<open>TYPE\<close> requests. A scan code word has the scan code in its high and the modifier in its low
  byte; the word 0 releases all keys.
\<close>

record signetdev_phy_key =
  scancode :: u8
  modifier :: u8

record signetdev_key =
  key_code :: u16
  phy_key0 :: signetdev_phy_key
  phy_key1 :: signetdev_phy_key

record keymaps =
  keymap_inv :: "nat \<Rightarrow> signetdev_key"
  keymap :: "nat \<Rightarrow> signetdev_key"
  keymap_num_keys :: nat

section \<open>Key maps\<close>

definition keymap_reset :: "nat \<Rightarrow> (nat \<Rightarrow> signetdev_key) \<Rightarrow> nat \<Rightarrow> signetdev_key" where
  "keymap_reset i kinv =
     kinv(i := (kinv i)\<lparr>key_code := word_of_nat i, phy_key0 := \<lparr>scancode = 0, modifier = 0\<rparr>\<rparr>)"

definition keymap_enter :: "signetdev_key list \<Rightarrow> nat \<Rightarrow> keymaps \<Rightarrow> keymaps" where
  "keymap_enter keys i km =
     km\<lparr>keymap := (keymap km)(i := keys ! i),
        keymap_inv := (keymap_inv km)(unat (key_code (keys ! i)) := keys ! i)\<rparr>"

text \<open>The arrays have \<open>2 ^ 16\<close> entries; the second loop runs from the last key to the first.\<close>

definition signetdev_set_keymap :: "signetdev_key list \<Rightarrow> keymaps \<Rightarrow> keymaps option" where
  "signetdev_set_keymap keys km =
     (if length keys > 65536 then None
      else let km = km\<lparr>keymap_inv := fold keymap_reset [0..<65536] (keymap_inv km)\<rparr>;
               km = fold (keymap_enter keys) (rev [0..<length keys]) km
           in Some (km\<lparr>keymap_num_keys := length keys\<rparr>))"

definition en_us_key :: "nat \<times> nat \<times> nat \<Rightarrow> signetdev_key" where
  "en_us_key e =
     (case e of (c, s, m) \<Rightarrow>
        \<lparr>key_code = word_of_nat c, phy_key0 = \<lparr>scancode = word_of_nat s, modifier = word_of_nat m\<rparr>,
         phy_key1 = \<lparr>scancode = 0, modifier = 0\<rparr>\<rparr>)"

text \<open>The rows \<open>{character, {{scan code, modifier}, {0, 0}}}\<close> of the default key map.\<close>

definition keymap_en_us :: "signetdev_key list" where
  "keymap_en_us = map en_us_key
   [(97, 4, 0), (65, 4, 2), (98, 5, 0), (66, 5, 2), (99, 6, 0), (67, 6, 2),
    (100, 7, 0), (68, 7, 2), (101, 8, 0), (69, 8, 2), (102, 9, 0), (70, 9, 2),
    (103, 10, 0), (71, 10, 2), (104, 11, 0), (72, 11, 2), (105, 12, 0), (73, 12, 2),
    (106, 13, 0), (74, 13, 2), (107, 14, 0), (75, 14, 2), (108, 15, 0), (76, 15, 2),
    (109, 16, 0), (77, 16, 2), (110, 17, 0), (78, 17, 2), (111, 18, 0), (79, 18, 2),
    (112, 19, 0), (80, 19, 2), (113, 20, 0), (81, 20, 2), (114, 21, 0), (82, 21, 2),
    (115, 22, 0), (83, 22, 2), (116, 23, 0), (84, 23, 2), (117, 24, 0), (85, 24, 2),
    (118, 25, 0), (86, 25, 2), (119, 26, 0), (87, 26, 2), (120, 27, 0), (88, 27, 2),
    (121, 28, 0), (89, 28, 2), (122, 29, 0), (90, 29, 2), (49, 30, 0), (33, 30, 2),
    (50, 31, 0), (64, 31, 2), (51, 32, 0), (35, 32, 2), (52, 33, 0), (36, 33, 2),
    (53, 34, 0), (37, 34, 2), (54, 35, 0), (94, 35, 2), (55, 36, 0), (38, 36, 2),
    (56, 37, 0), (42, 37, 2), (57, 38, 0), (40, 38, 2), (48, 39, 0), (41, 39, 2),
    (10, 40, 0), (9, 43, 0), (32, 44, 0), (45, 45, 0), (95, 45, 2), (61, 46, 0),
    (43, 46, 2), (91, 47, 0), (123, 47, 2), (93, 48, 0), (125, 48, 2), (92, 49, 0),
    (124, 49, 2), (59, 51, 0), (58, 51, 2), (39, 52, 0), (34, 52, 2), (96, 53, 0),
    (126, 53, 2), (44, 54, 0), (60, 54, 2), (46, 55, 0), (62, 55, 2), (47, 56, 0),
    (63, 56, 2)]"

section \<open>Text to key strokes\<close>

definition signetdev_can_type_w :: "(nat \<Rightarrow> signetdev_key) \<Rightarrow> u16 list \<Rightarrow> bool" where
  "signetdev_can_type_w kinv keys = list_all (\<lambda>c. scancode (phy_key0 (kinv (unat c))) \<noteq> 0) keys"

definition signetdev_can_type :: "(nat \<Rightarrow> signetdev_key) \<Rightarrow> bytes \<Rightarrow> bool" where
  "signetdev_can_type kinv keys = list_all (\<lambda>c. scancode (phy_key0 (kinv (unat c))) \<noteq> 0) keys"

definition phy_code :: "signetdev_phy_key \<Rightarrow> u16" where
  "phy_code p = ucast (modifier p) + push_bit 8 (ucast (scancode p))"

text \<open>
  The \<open>while\<close> loop of \<open>signetdev_to_scancodes_w\<close>. Its state is the keys left, the previous
  scan code, the room left and what was written; \<open>Inr\<close> is the early return for a
  character without key. An iteration may release a key without consuming a character, so
  what decreases is the room left.
\<close>

function scancodes_loop ::
  "(nat \<Rightarrow> signetdev_key) \<Rightarrow> u16 list \<Rightarrow> u8 \<Rightarrow> int \<Rightarrow> u16 list \<Rightarrow> (u16 list \<times> int \<times> u16 list) + u16 list" where
  "scancodes_loop kinv ks prev out_len out =
     (if ks = [] \<or> out_len < 2 then Inl (ks, out_len, out)
      else let k = kinv (unat (hd ks)) in
        if scancode (phy_key0 k) \<noteq> 0 \<and> prev = scancode (phy_key0 k)
        then scancodes_loop kinv ks 0 (out_len - 1) (out @ [0])
        else if scancode (phy_key0 k) \<noteq> 0 then
          (if scancode (phy_key1 k) \<noteq> 0 \<and> out_len \<le> 3 then Inl (ks, out_len, out)
           else let codes = (if scancode (phy_key1 k) \<noteq> 0 then [phy_code (phy_key0 k), phy_code (phy_key1 k)]
                             else [phy_code (phy_key0 k)]);
                    out = out @ codes
                in scancodes_loop kinv (tl ks) (ucast (drop_bit 8 (last out))) (out_len - int (length codes)) out)
        else Inr out)"
  by auto

termination
  by (relation "measure (\<lambda>(kinv, ks, prev, out_len, out). nat out_len)") (auto simp: Let_def)

declare scancodes_loop.simps [simp del]

text \<open>
  The result: return code, what was written to \<open>out\<close>, and \<open>*out_len_\<close> afterwards. The
  final 0 is written without a check, \<^const>\<open>None\<close> when there is no room for it.
\<close>

definition signetdev_to_scancodes_w ::
  "(nat \<Rightarrow> signetdev_key) \<Rightarrow> u16 list \<Rightarrow> int \<Rightarrow> (int \<times> u16 list \<times> int) option" where
  "signetdev_to_scancodes_w kinv keys out_len0 =
     (case scancodes_loop kinv keys 0 out_len0 [] of
        Inr out \<Rightarrow> Some (2, out, out_len0)
      | Inl (ks, out_len, out) \<Rightarrow>
          if out_len < 1 then None
          else Some (if ks = [] then 0 else 1, out @ [0], out_len0 - (out_len - 1)))"

section \<open>The TYPE requests\<close>

text \<open>
  The loop of \<open>signetdev_type\<close> and \<open>signetdev_type_w\<close>: \<open>msg\<close> holds the first
  \<open>2 * j\<close> bytes, which is what \<open>message_size\<close> was before the key. A character without key
  is skipped. \<open>Inr ()\<close> is the overflow return.
\<close>

fun type_loop :: "(nat \<Rightarrow> signetdev_key) \<Rightarrow> nat list \<Rightarrow> bytes \<Rightarrow> bytes + unit" where
  "type_loop kinv [] msg = Inl msg"
| "type_loop kinv (c # cs) msg =
     (let k = kinv c
      in if scancode (phy_key0 k) = 0 then type_loop kinv cs msg
         else let message_size = length msg + (if scancode (phy_key1 k) \<noteq> 0 then 8 else 4)
              in if message_size \<ge> MAX_CMD_PACKET_PAYLOAD_SIZE then Inr ()
                 else if scancode (phy_key1 k) \<noteq> 0
                 then type_loop kinv cs (msg @ [modifier (phy_key0 k), scancode (phy_key0 k), 0, 0,
                                                modifier (phy_key1 k), scancode (phy_key1 k), 0, 0])
                 else type_loop kinv cs (msg @ [modifier (phy_key0 k), scancode (phy_key0 k), 0, 0]))"

definition signetdev_type :: "(nat \<Rightarrow> signetdev_key) \<Rightarrow> nat \<Rightarrow> bytes \<Rightarrow> host \<Rightarrow> api_result" where
  "signetdev_type kinv usr keys h =
     (case type_loop kinv (map unat keys) [] of
        Inr _ \<Rightarrow> api_fail SIGNET_ERROR_OVERFLOW h
      | Inl msg \<Rightarrow> api_message usr TYPE_CMD SIGNETDEV_CMD_TYPE 0 msg h)"

definition signetdev_type_w :: "(nat \<Rightarrow> signetdev_key) \<Rightarrow> nat \<Rightarrow> u16 list \<Rightarrow> host \<Rightarrow> api_result" where
  "signetdev_type_w kinv usr keys h =
     (case type_loop kinv (map unat keys) [] of
        Inr _ \<Rightarrow> api_fail SIGNET_ERROR_OVERFLOW h
      | Inl msg \<Rightarrow> api_message usr TYPE_CMD SIGNETDEV_CMD_TYPE 0 msg h)"

definition signetdev_type_raw :: "nat \<Rightarrow> bytes \<Rightarrow> nat \<Rightarrow> host \<Rightarrow> api_result" where
  "signetdev_type_raw usr codes n_keys h =
     (let message_size = n_keys * 2
      in if message_size \<ge> MAX_CMD_PACKET_PAYLOAD_SIZE then api_fail SIGNET_ERROR_OVERFLOW h
         else do {
           msg \<leftarrow> read_from codes 0 message_size;
           api_message usr TYPE_CMD SIGNETDEV_CMD_TYPE 0 msg h
         })"

section \<open>The key map after \<open>signetdev_set_keymap\<close>\<close>

lemma enter_inv:
  "keymap_inv (fold (keymap_enter keys) is km) =
     fold (\<lambda>k kinv. kinv(unat (key_code k) := k)) (map ((!) keys) is) (keymap_inv km)"
  by (induction "is" arbitrary: km) (simp_all add: keymap_enter_def)

lemma foldr_upd_find:
  "foldr (\<lambda>k kinv. kinv(unat (key_code k) := k)) keys kinv c =
     (case find (\<lambda>k. unat (key_code k) = c) keys of None \<Rightarrow> kinv c | Some k \<Rightarrow> k)"
  by (induction keys) auto

lemma enter_all:
  "keymap_inv (fold (keymap_enter keys) (rev [0..<length keys]) km) c =
     (case find (\<lambda>k. unat (key_code k) = c) keys of None \<Rightarrow> keymap_inv km c | Some k \<Rightarrow> k)"
proof -
  have "map ((!) keys) (rev [0..<length keys]) = rev keys"
    by (simp add: rev_map [symmetric] map_nth)
  then have "keymap_inv (fold (keymap_enter keys) (rev [0..<length keys]) km) =
      foldr (\<lambda>k kinv. kinv(unat (key_code k) := k)) keys (keymap_inv km)"
    by (simp only: enter_inv foldr_conv_fold)
  then show ?thesis by (simp only: foldr_upd_find)
qed

lemma reset_all:
  "c < n \<Longrightarrow> scancode (phy_key0 (fold keymap_reset [0..<n] kinv c)) = 0"
  by (induction n) (auto simp: keymap_reset_def less_Suc_eq)

text \<open>
  C25. After \<open>signetdev_set_keymap\<close>, whatever the tables held before, \<open>signetdev_can_type_w\<close>
  accepts exactly the texts of which every code unit has a key in the list whose first entry
  has a scan code: earlier keys win over later ones with the same code, and no key of the
  previous key map survives.
\<close>

theorem set_keymap_lookup:
  assumes "signetdev_set_keymap keys km = Some km'"
  shows "signetdev_can_type_w (keymap_inv km') txt =
           (\<forall>c \<in> set txt. \<exists>k. find (\<lambda>k. key_code k = c) keys = Some k \<and> scancode (phy_key0 k) \<noteq> 0)"
proof -
  have eq: "(\<lambda>k. unat (key_code k) = unat c) = (\<lambda>k. key_code k = c)" for c :: u16
    by (simp add: fun_eq_iff word_unat_eq_iff)
  have l: "keymap_inv km' (unat c) =
      (case find (\<lambda>k. key_code k = c) keys of
         None \<Rightarrow> fold keymap_reset [0..<65536] (keymap_inv km) (unat c) | Some k \<Rightarrow> k)" for c :: u16
    using assms by (auto simp: signetdev_set_keymap_def Let_def enter_all eq simp del: upt_Suc split: if_splits option.split)
  have z: "scancode (phy_key0 (fold keymap_reset [0..<65536] (keymap_inv km) (unat c))) = 0" for c :: u16
    by (rule reset_all) (use unsigned_less [of c, where ?'a = nat] in simp)
  show "signetdev_can_type_w (keymap_inv km') txt =
      (\<forall>c \<in> set txt. \<exists>k. find (\<lambda>k. key_code k = c) keys = Some k \<and> scancode (phy_key0 k) \<noteq> 0)"
    by (auto simp: signetdev_can_type_w_def list_all_iff l z simp del: upt_Suc split: option.split)
qed

definition keymaps_example :: keymaps where
  "keymaps_example = \<lparr>keymap_inv = \<lambda>_. en_us_key (0, 9, 0), keymap = \<lambda>_. en_us_key (0, 9, 0), keymap_num_keys = 0\<rparr>"

theorem set_keymap_lookup_witness:
  "\<exists>km'. signetdev_set_keymap (take 2 keymap_en_us) keymaps_example = Some km'
     \<and> signetdev_can_type_w (keymap_inv km') [97, 65, 97] \<and> \<not> signetdev_can_type_w (keymap_inv km') [98]"
proof -
  obtain km' where km': "signetdev_set_keymap (take 2 keymap_en_us) keymaps_example = Some km'"
    by (simp add: signetdev_set_keymap_def keymap_en_us_def del: upt_Suc)
  note l = set_keymap_lookup [OF km']
  have "signetdev_can_type_w (keymap_inv km') [97, 65, 97]" "\<not> signetdev_can_type_w (keymap_inv km') [98]"
    unfolding l by (simp_all add: keymap_en_us_def en_us_key_def)
  with km' show ?thesis by blast
qed

section \<open>Scan codes\<close>

text \<open>The strokes of a key, and those of a text.\<close>

definition key_codes :: "signetdev_key \<Rightarrow> u16 list" where
  "key_codes k = (if scancode (phy_key1 k) \<noteq> 0 then [phy_code (phy_key0 k), phy_code (phy_key1 k)]
                  else [phy_code (phy_key0 k)])"

definition released :: "u16 list \<Rightarrow> bool" where
  "released out \<longleftrightarrow> successively (\<lambda>a b. drop_bit 8 a \<noteq> drop_bit 8 b \<or> drop_bit 8 b = 0) out"

lemma phy_code_hi: "drop_bit 8 (phy_code p) = ucast (scancode p)"
proof (rule bit_word_eqI)
  fix n
  have "phy_code p = ucast (modifier p) OR push_bit 8 (ucast (scancode p))"
    unfolding phy_code_def
    by (rule disjunctive_add) (auto simp: bit_simps dest: bit_imp_le_length)
  then show "n < LENGTH(16) \<Longrightarrow> bit (drop_bit 8 (phy_code p)) n = bit (ucast (scancode p) :: u16) n"
    by (auto simp: bit_simps dest: bit_imp_le_length)
qed

lemma ucast_8_16_8 [simp]: "ucast (ucast (x :: u8) :: u16) = x"
  by (rule bit_word_eqI) (auto simp: bit_simps)

lemma ucast_8_16_eq [simp]: "(ucast (x :: u8) :: u16) = ucast y \<longleftrightarrow> x = y"
  by (metis ucast_8_16_8)

lemma phy_code_nz: "scancode p \<noteq> 0 \<Longrightarrow> phy_code p \<noteq> 0"
proof
  assume "scancode p \<noteq> 0" "phy_code p = 0"
  then have "(ucast (scancode p) :: u16) = ucast (0 :: u8)" using phy_code_hi [of p] by simp
  with \<open>scancode p \<noteq> 0\<close> show False by (simp only: ucast_8_16_eq)
qed

lemma released_snoc:
  "released (out @ [a]) \<longleftrightarrow> released out \<and> (out = [] \<or> drop_bit 8 (last out) \<noteq> drop_bit 8 a \<or> drop_bit 8 a = 0)"
  by (auto simp: released_def successively_append_iff)

definition prev_of :: "u16 list \<Rightarrow> u8" where
  "prev_of out = (if out = [] then 0 else ucast (drop_bit 8 (last out)))"

lemma hi_eq_iff: "drop_bit 8 a = drop_bit 8 b \<longleftrightarrow> (ucast (drop_bit 8 (a :: u16)) :: u8) = ucast (drop_bit 8 b)"
proof
  assume e: "(ucast (drop_bit 8 a) :: u8) = ucast (drop_bit 8 b)"
  show "drop_bit 8 a = drop_bit 8 b"
  proof (rule bit_word_eqI)
    fix n assume "n < LENGTH(16)"
    have "bit (ucast (drop_bit 8 a) :: u8) n = bit (ucast (drop_bit 8 b) :: u8) n" using e by simp
    then show "bit (drop_bit 8 a) n = bit (drop_bit 8 b) n"
      by (cases "n < 8") (auto simp: bit_simps dest: bit_imp_le_length)
  qed
qed simp

text \<open>The strokes of a key use different scan codes.\<close>

definition strokes_differ :: "signetdev_key \<Rightarrow> bool" where
  "strokes_differ k \<longleftrightarrow> scancode (phy_key1 k) = 0 \<or> scancode (phy_key1 k) \<noteq> scancode (phy_key0 k)"

lemma released_code:
  assumes "scancode p \<noteq> 0"
  shows "released (out @ [phy_code p]) \<longleftrightarrow> released out \<and> prev_of out \<noteq> scancode p"
proof -
  have "drop_bit 8 a = ucast (scancode p) \<longleftrightarrow> ucast (drop_bit 8 a) = scancode p" for a :: u16
    using hi_eq_iff [of a "phy_code p"] by (simp add: phy_code_hi)
  moreover have "(ucast (scancode p) :: u16) \<noteq> 0"
    using ucast_8_16_eq [of "scancode p" 0] assms by simp
  ultimately show ?thesis using assms by (auto simp: released_snoc prev_of_def phy_code_hi)
qed

lemma released_keys:
  assumes "scancode (phy_key0 k) \<noteq> 0" "prev_of out \<noteq> scancode (phy_key0 k)"
  shows "released (out @ key_codes k) \<longleftrightarrow> released out \<and> strokes_differ k"
proof -
  have "prev_of (out @ [phy_code (phy_key0 k)]) = scancode (phy_key0 k)"
    by (simp add: prev_of_def phy_code_hi)
  then have "scancode (phy_key1 k) \<noteq> 0 \<Longrightarrow>
      released ((out @ [phy_code (phy_key0 k)]) @ [phy_code (phy_key1 k)]) \<longleftrightarrow> released out \<and> strokes_differ k"
    using assms by (auto simp: released_code strokes_differ_def simp del: append_assoc)
  then show ?thesis using assms by (simp add: key_codes_def released_code strokes_differ_def)
qed

lemma filter_key_codes: "scancode (phy_key0 k) \<noteq> 0 \<Longrightarrow> filter (\<lambda>a. a \<noteq> 0) (key_codes k) = key_codes k"
  by (simp add: key_codes_def phy_code_nz)

lemma scancodes_loop_Inl:
  "scancodes_loop kinv ks prev out_len out = Inl (ks', n', out') \<Longrightarrow> prev = prev_of out \<Longrightarrow> 1 \<le> out_len \<Longrightarrow>
   1 \<le> n' \<and> int (length out') + n' = int (length out) + out_len \<and>
   (\<exists>dn. ks = dn @ ks' \<and> (released out' \<longleftrightarrow> released out \<and> (\<forall>c \<in> set dn. strokes_differ (kinv (unat c)))) \<and> filter (\<lambda>a. a \<noteq> 0) out' =
       filter (\<lambda>a. a \<noteq> 0) out @ concat (map (\<lambda>c. key_codes (kinv (unat c))) dn))"
proof (induction kinv ks prev out_len out rule: scancodes_loop.induct)
  case (1 kinv ks prev out_len out)
  note IH = "1.IH" and run = "1.prems"(1) and pv = "1.prems"(2) and pos = "1.prems"(3)
  show ?case
  proof (cases "ks = [] \<or> out_len < 2")
    case True
    then show ?thesis using run pos by (auto simp: scancodes_loop.simps)
  next
    case False
    then obtain c cs where ks: "ks = c # cs" by (cases ks) auto
    define k where "k = kinv (unat c)"
    have hd: "kinv (unat (hd ks)) = k" by (simp add: ks k_def)
    show ?thesis
    proof (cases "scancode (phy_key0 k) \<noteq> 0 \<and> prev = scancode (phy_key0 k)")
      case True
      have "scancodes_loop kinv ks 0 (out_len - 1) (out @ [0]) = Inl (ks', n', out')"
        using run False True unfolding scancodes_loop.simps [of kinv ks prev out_len out] by (simp add: hd Let_def)
      from IH(1) [OF False hd [symmetric] True this] show ?thesis
        using False by (simp add: released_snoc prev_of_def)
    next
      case nrep: False
      show ?thesis
      proof (cases "scancode (phy_key0 k) \<noteq> 0 \<and> \<not> (scancode (phy_key1 k) \<noteq> 0 \<and> out_len \<le> 3)")
        case True
        then have nz: "scancode (phy_key0 k) \<noteq> 0" and room: "\<not> (scancode (phy_key1 k) \<noteq> 0 \<and> out_len \<le> 3)" by auto
        have run': "scancodes_loop kinv (tl ks) (ucast (drop_bit 8 (last (out @ key_codes k))))
            (out_len - int (length (key_codes k))) (out @ key_codes k) = Inl (ks', n', out')"
          using run False nrep nz room unfolding scancodes_loop.simps [of kinv ks prev out_len out] by (auto simp: hd Let_def key_codes_def split: if_splits)
        have ne: "key_codes k \<noteq> []" by (simp add: key_codes_def)
        have rel: "released (out @ key_codes k) \<longleftrightarrow> released out \<and> strokes_differ k"
          using nz nrep pv by (intro released_keys) auto
        have "1 \<le> out_len - int (length (key_codes k))"
          using room False by (auto simp: key_codes_def)
        then have
          "1 \<le> n' \<and>
           int (length out') + n' = int (length (out @ key_codes k)) + (out_len - int (length (key_codes k))) \<and>
           (\<exists>dn. tl ks = dn @ ks' \<and>
              (released out' \<longleftrightarrow> released (out @ key_codes k) \<and> (\<forall>c \<in> set dn. strokes_differ (kinv (unat c)))) \<and> filter (\<lambda>a. a \<noteq> 0) out' =
              filter (\<lambda>a. a \<noteq> 0) (out @ key_codes k) @ concat (map (\<lambda>c. key_codes (kinv (unat c))) dn))"
          using run' ne
          by (intro IH(2) [OF False hd [symmetric] nrep nz room key_codes_def refl])
            (auto simp: ks prev_of_def)
        then show ?thesis unfolding rel
          by (auto simp: ks filter_key_codes [OF nz [unfolded k_def]] k_def intro: exI [of _ "c # _"])
      next
        case stop: False
        show ?thesis
        proof (cases "scancode (phy_key0 k) = 0")
          case True
          then show ?thesis using run False unfolding scancodes_loop.simps [of kinv ks prev out_len out] by (simp add: hd Let_def)
        next
          case False
          then show ?thesis
            using run stop nrep \<open>\<not> (ks = [] \<or> out_len < 2)\<close>
            unfolding scancodes_loop.simps [of kinv ks prev out_len out] by (simp add: hd Let_def)
        qed
      qed
    qed
  qed
qed

lemma scancodes_loop_Inr:
  "scancodes_loop kinv ks prev out_len out = Inr out' \<Longrightarrow> \<exists>c \<in> set ks. scancode (phy_key0 (kinv (unat c))) = 0"
proof (induction kinv ks prev out_len out rule: scancodes_loop.induct)
  case (1 kinv ks prev out_len out)
  note IH = "1.IH" and step = scancodes_loop.simps [of kinv ks prev out_len out]
  from "1.prems" have ne: "\<not> (ks = [] \<or> out_len < 2)" unfolding step by (auto split: if_splits)
  then have hd: "hd ks \<in> set ks" "set (tl ks) \<subseteq> set ks" by (cases ks; auto)+
  show ?case
    using "1.prems" ne hd IH [OF ne refl] unfolding step
    by (fastforce simp: Let_def split: if_splits)
qed

text \<open>
  C24. \<open>signetdev_to_scancodes_w\<close> always returns when the caller offers room for at least one
  word, never writes more words than were offered, and reports in \<open>*out_len_\<close> how many it
  wrote. What it writes types a prefix of the text, stroke by stroke, the whole text when it
  returns 0. It returns 2 only if some character has no key. A repeated key is released in
  between (no two adjacent words press the same physical key) exactly if for every character
  typed the two strokes of its key use different scan codes: the loop compares only the first
  stroke of a key with the stroke before it, so the second stroke of a key with one scan code
  for both follows without a release.
\<close>

theorem to_scancodes_w_correct:
  assumes "1 \<le> out_len"
  shows "\<exists>rc out n. signetdev_to_scancodes_w kinv keys out_len = Some (rc, out, n) \<and>
    (rc = 2 \<and> \<not> signetdev_can_type_w kinv keys \<or>
     rc \<in> {0, 1} \<and> n = int (length out) \<and> n \<le> out_len \<and>
     (\<exists>typed rest. keys = typed @ rest \<and> (rc = 0 \<longleftrightarrow> rest = []) \<and>
        filter (\<lambda>a. a \<noteq> 0) out = concat (map (\<lambda>c. key_codes (kinv (unat c))) typed) \<and>
        (released out \<longleftrightarrow> (\<forall>c \<in> set typed. scancode (phy_key1 (kinv (unat c))) = 0 \<or>
           scancode (phy_key1 (kinv (unat c))) \<noteq> scancode (phy_key0 (kinv (unat c)))))))"
proof (cases "scancodes_loop kinv keys 0 out_len []")
  case (Inl r)
  obtain ks n' out' where "r = (ks, n', out')" by (cases r) auto
  with Inl have "1 \<le> n' \<and> int (length out') + n' = out_len \<and>
      (\<exists>dn. keys = dn @ ks \<and> (released out' \<longleftrightarrow> (\<forall>c \<in> set dn. strokes_differ (kinv (unat c)))) \<and>
         filter (\<lambda>a. a \<noteq> 0) out' = concat (map (\<lambda>c. key_codes (kinv (unat c))) dn))"
    using scancodes_loop_Inl [of kinv keys 0 out_len "[]" ks n' out'] assms
    by (simp add: released_def prev_of_def)
  with Inl \<open>r = (ks, n', out')\<close> show ?thesis
    by (auto simp: signetdev_to_scancodes_w_def released_snoc strokes_differ_def)
next
  case (Inr out')
  with scancodes_loop_Inr [of kinv keys 0 out_len "[]" out'] show ?thesis
    by (auto simp: signetdev_to_scancodes_w_def signetdev_can_type_w_def list_all_iff)
qed

text \<open>A key map with two letters, for the examples.\<close>

definition kinv_example :: "nat \<Rightarrow> signetdev_key" where
  "kinv_example c =
     (if c = 97 then en_us_key (97, 4, 0) else if c = 65 then en_us_key (65, 4, 2) else en_us_key (c, 0, 0))"

text \<open>A key whose two strokes use one scan code, say an accent typed with and without shift.\<close>

definition accent_key :: signetdev_key where
  "accent_key = \<lparr>key_code = 94, phy_key0 = \<lparr>scancode = 53, modifier = 2\<rparr>, phy_key1 = \<lparr>scancode = 53, modifier = 0\<rparr>\<rparr>"

theorem to_scancodes_w_correct_witness:
  "(\<exists>rc out n. signetdev_to_scancodes_w kinv_example [97, 65] 8 = Some (rc, out, n) \<and> released out \<and> n \<le> 8)
   \<and> (\<exists>rc out n. signetdev_to_scancodes_w (\<lambda>_. accent_key) [94] 8 = Some (rc, out, n) \<and> n \<le> 8 \<and> (rc = 0 \<longrightarrow> \<not> released out))"
proof -
  have "signetdev_can_type_w kinv_example [97, 65]" "signetdev_can_type_w (\<lambda>_. accent_key) [94]"
    "scancode (phy_key1 (kinv_example c)) = 0" for c
    by (simp_all add: signetdev_can_type_w_def kinv_example_def en_us_key_def accent_key_def)
  with to_scancodes_w_correct [of 8 kinv_example "[97, 65]"] to_scancodes_w_correct [of 8 "\<lambda>_. accent_key" "[94]"]
  show ?thesis by (fastforce simp: accent_key_def)
qed

end
