(* ===== verification/Signet_Aes.thy ===== *)
theory Signet_Aes
  imports Prelude
begin

text \<open>
  \<open>firmware-hc/signet_aes.c\<close>: single-block AES through Nettle and the CBC mode built on it.
  Nettle is a git submodule outside the tree: its four block functions are the fields of
  \<open>nettle\<close>, and \<open>nettle_ok\<close> is the documented contract the device relies on: decrypting
  with the key schedule of the same key inverts encrypting a block, and a block stays a block.
\<close>

record nettle =
  aes128_encrypt :: "bytes \<Rightarrow> bytes \<Rightarrow> bytes"
  aes128_decrypt :: "bytes \<Rightarrow> bytes \<Rightarrow> bytes"
  aes256_encrypt :: "bytes \<Rightarrow> bytes \<Rightarrow> bytes"
  aes256_decrypt :: "bytes \<Rightarrow> bytes \<Rightarrow> bytes"

abbreviation (input) AES_BLK_SIZE :: nat where "AES_BLK_SIZE \<equiv> 16"
abbreviation (input) AES_128_KEY_SIZE :: nat where "AES_128_KEY_SIZE \<equiv> 16"
abbreviation (input) AES_256_KEY_SIZE :: nat where "AES_256_KEY_SIZE \<equiv> 32"

definition signet_aes_128_encrypt :: "nettle \<Rightarrow> bytes \<Rightarrow> bytes \<Rightarrow> bytes" where
  "signet_aes_128_encrypt N key din = aes128_encrypt N (take AES_128_KEY_SIZE key) (take AES_BLK_SIZE din)"

definition signet_aes_256_encrypt :: "nettle \<Rightarrow> bytes \<Rightarrow> bytes \<Rightarrow> bytes" where
  "signet_aes_256_encrypt N key din = aes256_encrypt N (take AES_256_KEY_SIZE key) (take AES_BLK_SIZE din)"

definition signet_aes_128_decrypt :: "nettle \<Rightarrow> bytes \<Rightarrow> bytes \<Rightarrow> bytes" where
  "signet_aes_128_decrypt N key din = aes128_decrypt N (take AES_128_KEY_SIZE key) (take AES_BLK_SIZE din)"

definition signet_aes_256_decrypt :: "nettle \<Rightarrow> bytes \<Rightarrow> bytes \<Rightarrow> bytes" where
  "signet_aes_256_decrypt N key din = aes256_decrypt N (take AES_256_KEY_SIZE key) (take AES_BLK_SIZE din)"

text \<open>\<open>xor_block\<close>: with a null mask the block is copied.\<close>

definition xor_block :: "bytes \<Rightarrow> bytes option \<Rightarrow> bytes" where
  "xor_block src_block msk =
     (case msk of
        Some m \<Rightarrow> map (\<lambda>i. (src_block ! i) XOR (m ! i)) [0..<AES_BLK_SIZE]
      | None \<Rightarrow> take AES_BLK_SIZE src_block)"

text \<open>
  The CBC loops. \<open>din\<close> and \<open>dout\<close> are distinct buffers in every call of the firmware, so
  the loop's writes to \<open>dout\<close> do not change what it reads; the result is what is written to
  \<open>dout\<close>. A null \<open>iv\<close> leaves the first block unmasked.
\<close>

fun signet_aes_128_encrypt_cbc :: "nettle \<Rightarrow> bytes \<Rightarrow> nat \<Rightarrow> bytes option \<Rightarrow> bytes \<Rightarrow> bytes" where
  "signet_aes_128_encrypt_cbc N key 0 iv din = []"
| "signet_aes_128_encrypt_cbc N key (Suc n_blocks) iv din =
     (let temp = xor_block din iv;
          dout = signet_aes_128_encrypt N key temp
      in dout @ signet_aes_128_encrypt_cbc N key n_blocks (Some dout) (drop AES_BLK_SIZE din))"

fun signet_aes_256_encrypt_cbc :: "nettle \<Rightarrow> bytes \<Rightarrow> nat \<Rightarrow> bytes option \<Rightarrow> bytes \<Rightarrow> bytes" where
  "signet_aes_256_encrypt_cbc N key 0 iv din = []"
| "signet_aes_256_encrypt_cbc N key (Suc n_blocks) iv din =
     (let temp = xor_block din iv;
          dout = signet_aes_256_encrypt N key temp
      in dout @ signet_aes_256_encrypt_cbc N key n_blocks (Some dout) (drop AES_BLK_SIZE din))"

fun signet_aes_128_decrypt_cbc :: "nettle \<Rightarrow> bytes \<Rightarrow> nat \<Rightarrow> bytes option \<Rightarrow> bytes \<Rightarrow> bytes" where
  "signet_aes_128_decrypt_cbc N key 0 iv din = []"
| "signet_aes_128_decrypt_cbc N key (Suc n_blocks) iv din =
     (let temp = signet_aes_128_decrypt N key din
      in xor_block temp iv
         @ signet_aes_128_decrypt_cbc N key n_blocks (Some (take AES_BLK_SIZE din)) (drop AES_BLK_SIZE din))"

fun signet_aes_256_decrypt_cbc :: "nettle \<Rightarrow> bytes \<Rightarrow> nat \<Rightarrow> bytes option \<Rightarrow> bytes \<Rightarrow> bytes" where
  "signet_aes_256_decrypt_cbc N key 0 iv din = []"
| "signet_aes_256_decrypt_cbc N key (Suc n_blocks) iv din =
     (let temp = signet_aes_256_decrypt N key din
      in xor_block temp iv
         @ signet_aes_256_decrypt_cbc N key n_blocks (Some (take AES_BLK_SIZE din)) (drop AES_BLK_SIZE din))"

section \<open>The contract of Nettle\<close>

definition nettle_ok :: "nettle \<Rightarrow> bool" where
  "nettle_ok N \<longleftrightarrow>
     (\<forall>k b. length k = AES_128_KEY_SIZE \<longrightarrow> length b = AES_BLK_SIZE \<longrightarrow>
        length (aes128_encrypt N k b) = AES_BLK_SIZE \<and> aes128_decrypt N k (aes128_encrypt N k b) = b) \<and>
     (\<forall>k b. length k = AES_256_KEY_SIZE \<longrightarrow> length b = AES_BLK_SIZE \<longrightarrow>
        length (aes256_encrypt N k b) = AES_BLK_SIZE \<and> aes256_decrypt N k (aes256_encrypt N k b) = b)"

text \<open>A concrete instance: a block masked with the first half of the key.\<close>

definition xor_cipher :: "bytes \<Rightarrow> bytes \<Rightarrow> bytes" where
  "xor_cipher k b = map2 (XOR) (take AES_BLK_SIZE k) b"

definition nettle_xor :: nettle where
  "nettle_xor = \<lparr>aes128_encrypt = xor_cipher, aes128_decrypt = xor_cipher,
                 aes256_encrypt = xor_cipher, aes256_decrypt = xor_cipher\<rparr>"

lemma xor_cipher_invol: "length k \<ge> 16 \<Longrightarrow> length b = 16 \<Longrightarrow> xor_cipher k (xor_cipher k b) = b"
  by (rule nth_equalityI) (simp_all add: xor_cipher_def xor.assoc [symmetric])

lemma nettle_ok_xor: "nettle_ok nettle_xor"
  unfolding nettle_ok_def nettle_xor_def
  by (simp add: xor_cipher_invol) (simp add: xor_cipher_def)

section \<open>Block masking\<close>

lemma length_xor_block [simp]:
  "(case msk of None \<Rightarrow> True | Some m \<Rightarrow> length m = 16) \<Longrightarrow> length src \<ge> 16 \<Longrightarrow>
   length (xor_block src msk) = 16"
  by (simp add: xor_block_def split: option.splits)

lemma xor_block_invol:
  assumes "length src \<ge> 16"
  shows "xor_block (xor_block src msk) msk = take 16 src"
  by (rule nth_equalityI)
    (use assms in \<open>auto simp: xor_block_def xor.assoc simp del: upt_Suc split: option.splits\<close>)

text \<open>Block decryption inverts block encryption under the contract.\<close>

lemma signet_aes_256_inverse:
  assumes "nettle_ok N" "length key \<ge> AES_256_KEY_SIZE" "length b = AES_BLK_SIZE"
  shows "length (signet_aes_256_encrypt N key b) = AES_BLK_SIZE"
    and "signet_aes_256_decrypt N key (signet_aes_256_encrypt N key b) = b"
  using assms by (auto simp: nettle_ok_def signet_aes_256_encrypt_def signet_aes_256_decrypt_def)

lemma signet_aes_128_inverse:
  assumes "nettle_ok N" "length key \<ge> AES_128_KEY_SIZE" "length b = AES_BLK_SIZE"
  shows "length (signet_aes_128_encrypt N key b) = AES_BLK_SIZE"
    and "signet_aes_128_decrypt N key (signet_aes_128_encrypt N key b) = b"
  using assms by (auto simp: nettle_ok_def signet_aes_128_encrypt_def signet_aes_128_decrypt_def)

lemma signet_aes_decrypt_cong:
  "take 16 b = take 16 b' \<Longrightarrow> signet_aes_256_decrypt N key b = signet_aes_256_decrypt N key b'"
  "take 16 b = take 16 b' \<Longrightarrow> signet_aes_128_decrypt N key b = signet_aes_128_decrypt N key b'"
  by (simp_all add: signet_aes_256_decrypt_def signet_aes_128_decrypt_def)

section \<open>The CBC round trip\<close>

definition iv_ok :: "bytes option \<Rightarrow> bool" where
  "iv_ok iv \<longleftrightarrow> (case iv of None \<Rightarrow> True | Some v \<Rightarrow> length v = AES_BLK_SIZE)"

lemma iv_ok_simps [simp]: "iv_ok None" "iv_ok (Some v) \<longleftrightarrow> length v = AES_BLK_SIZE"
  by (simp_all add: iv_ok_def)

lemma length_xor_block_iv [simp]: "iv_ok iv \<Longrightarrow> length src \<ge> 16 \<Longrightarrow> length (xor_block src iv) = 16"
  by (simp add: iv_ok_def)

lemma length_cbc_256:
  assumes "nettle_ok N" "length key \<ge> AES_256_KEY_SIZE"
  shows "iv_ok iv \<Longrightarrow> length din \<ge> 16 * n \<Longrightarrow> length (signet_aes_256_encrypt_cbc N key n iv din) = 16 * n"
proof (induction n arbitrary: iv din)
  case (Suc n)
  then show ?case
    using signet_aes_256_inverse(1) [OF assms, of "xor_block din iv"] by (simp add: Let_def)
qed simp

lemma cbc_256_inverse:
  assumes "nettle_ok N" "length key \<ge> AES_256_KEY_SIZE"
  shows "iv_ok iv \<Longrightarrow> length din \<ge> 16 * n \<Longrightarrow>
    signet_aes_256_decrypt_cbc N key n iv (signet_aes_256_encrypt_cbc N key n iv din @ rest) = take (16 * n) din"
proof (induction n arbitrary: iv din)
  case (Suc n)
  let ?x = "xor_block din iv"
  let ?c = "signet_aes_256_encrypt N key ?x"
  have x: "length ?x = 16" using Suc.prems by simp
  note inv = signet_aes_256_inverse [OF assms x]
  have d: "signet_aes_256_decrypt N key (?c @ xs) = ?x" for xs
    using inv signet_aes_decrypt_cong(1) [of "?c @ xs" ?c] by simp
  have t: "take (16 + 16 * n) din = take 16 din @ take (16 * n) (drop 16 din)"
    by (simp add: take_add)
  show ?case
    using Suc.IH [of "Some ?c" "drop 16 din"] Suc.prems inv(1) xor_block_invol [of din iv]
    by (simp add: Let_def d t)
qed simp

lemma length_cbc_128:
  assumes "nettle_ok N" "length key \<ge> AES_128_KEY_SIZE"
  shows "iv_ok iv \<Longrightarrow> length din \<ge> 16 * n \<Longrightarrow> length (signet_aes_128_encrypt_cbc N key n iv din) = 16 * n"
proof (induction n arbitrary: iv din)
  case (Suc n)
  then show ?case
    using signet_aes_128_inverse(1) [OF assms, of "xor_block din iv"] by (simp add: Let_def)
qed simp

lemma cbc_128_inverse:
  assumes "nettle_ok N" "length key \<ge> AES_128_KEY_SIZE"
  shows "iv_ok iv \<Longrightarrow> length din \<ge> 16 * n \<Longrightarrow>
    signet_aes_128_decrypt_cbc N key n iv (signet_aes_128_encrypt_cbc N key n iv din @ rest) = take (16 * n) din"
proof (induction n arbitrary: iv din)
  case (Suc n)
  let ?x = "xor_block din iv"
  let ?c = "signet_aes_128_encrypt N key ?x"
  have x: "length ?x = 16" using Suc.prems by simp
  note inv = signet_aes_128_inverse [OF assms x]
  have d: "signet_aes_128_decrypt N key (?c @ xs) = ?x" for xs
    using inv signet_aes_decrypt_cong(2) [of "?c @ xs" ?c] by simp
  have t: "take (16 + 16 * n) din = take 16 din @ take (16 * n) (drop 16 din)"
    by (simp add: take_add)
  show ?case
    using Suc.IH [of "Some ?c" "drop 16 din"] Suc.prems inv(1) xor_block_invol [of din iv]
    by (simp add: Let_def d t)
qed simp

text \<open>
  C21. CBC decryption inverts CBC encryption, for both key lengths, every number of blocks, a
  null or a real initialisation vector, and whatever follows the cipher text in the buffer:
  what comes back is the plain text cut to whole blocks.
\<close>

theorem cbc_roundtrip:
  assumes "nettle_ok N" "iv_ok iv" "length key = 32" "16 * n \<le> length din"
  shows "signet_aes_256_decrypt_cbc N key n iv (signet_aes_256_encrypt_cbc N key n iv din @ rest) = take (16 * n) din
       \<and> signet_aes_128_decrypt_cbc N key n iv (signet_aes_128_encrypt_cbc N key n iv din @ rest) = take (16 * n) din"
  using assms by (simp add: cbc_256_inverse cbc_128_inverse)

theorem cbc_roundtrip_witness:
  "signet_aes_256_decrypt_cbc nettle_xor (replicate 32 7) 2 None
     (signet_aes_256_encrypt_cbc nettle_xor (replicate 32 7) 2 None (replicate 40 9) @ [1]) = replicate 32 9"
  using cbc_roundtrip [OF nettle_ok_xor, of None "replicate 32 7" 2 "replicate 40 9" "[1]"] by simp

end
