(* ===== verification/Rand.thy ===== *)
theory Rand
  imports Prelude
begin

text \<open>
  \<open>firmware-hc/rand.c\<close>, \<open>rtc_rand.c\<close>: two ring buffers of 1024 words, one filled by the
  TRNG interrupt and one by the RTC interrupt; a consumer takes one word of each and XORs
  them. A rewind point lets a consumer take words again. The interrupt enables of the two
  sources are the fields \<open>rng_irq\<close> and \<open>rtc_irq\<close>; interrupt handlers run as whole steps.
\<close>

abbreviation (input) RAND_BUF :: int where "RAND_BUF \<equiv> 1024"

record rand_src_state =
  rbuf :: "int \<Rightarrow> u32"
  rhead :: int
  rlevel :: int
  rtail :: int
  rewind_level :: int
  rewind_tail :: int

datatype rand_src = RAND_SRC_TRNG | RAND_SRC_RTC

record rand_state =
  rng_rand_state :: rand_src_state
  rtc_rand_state :: rand_src_state
  rng_irq :: bool
  rtc_irq :: bool

definition rand_init :: "rand_state \<Rightarrow> rand_state" where
  "rand_init r = r\<lparr>rng_rand_state := (rng_rand_state r)\<lparr>rewind_tail := -1\<rparr>,
                   rtc_rand_state := (rtc_rand_state r)\<lparr>rewind_tail := -1\<rparr>\<rparr>"

definition rand_src_rewind :: "rand_src_state \<Rightarrow> rand_src_state" where
  "rand_src_rewind src =
     (if rewind_tail src \<ge> 0
      then src\<lparr>rlevel := rewind_level src, rtail := rewind_tail src\<rparr> else src)"

definition rand_rewind :: "rand_state \<Rightarrow> rand_state" where
  "rand_rewind r = r\<lparr>rng_rand_state := rand_src_rewind (rng_rand_state r),
                     rtc_rand_state := rand_src_rewind (rtc_rand_state r)\<rparr>"

definition rand_avail :: "rand_state \<Rightarrow> int" where
  "rand_avail r =
     (let rtc_level = rlevel (rtc_rand_state r);
          rng_level = rlevel (rng_rand_state r)
      in if rtc_level > rng_level then rng_level else rtc_level)"

definition rand_src_get :: "rand_src_state \<Rightarrow> u32 \<times> rand_src_state" where
  "rand_src_get src =
     (if rhead src = rtail src then (0, src)
      else (rbuf src (rtail src),
            src\<lparr>rtail := (rtail src + 1) mod RAND_BUF, rlevel := rlevel src - 1\<rparr>))"

definition rand_get :: "rand_state \<Rightarrow> u32 \<times> rand_state" where
  "rand_get r =
     (let (rtc_val, rtc) = rand_src_get (rtc_rand_state r);
          (rng_val, rng) = rand_src_get (rng_rand_state r)
      in (rtc_val XOR rng_val,
          r\<lparr>rtc_rand_state := rtc, rng_rand_state := rng, rng_irq := True, rtc_irq := True\<rparr>))"

definition rand_src_rewind_point :: "rand_src_state \<Rightarrow> rand_src_state" where
  "rand_src_rewind_point src = src\<lparr>rewind_tail := rtail src, rewind_level := rlevel src\<rparr>"

definition rand_set_rewind_point :: "rand_state \<Rightarrow> rand_state" where
  "rand_set_rewind_point r = r\<lparr>rtc_rand_state := rand_src_rewind_point (rtc_rand_state r),
                               rng_rand_state := rand_src_rewind_point (rng_rand_state r)\<rparr>"

definition rand_clear_rewind_point :: "rand_state \<Rightarrow> rand_state" where
  "rand_clear_rewind_point r =
     r\<lparr>rtc_rand_state := (rtc_rand_state r)\<lparr>rewind_tail := -1\<rparr>,
       rng_rand_state := (rng_rand_state r)\<lparr>rewind_tail := -1\<rparr>,
       rng_irq := True, rtc_irq := True\<rparr>"

text \<open>
  \<open>rand_push\<close>: the new word is XORed into the old contents of the slot. The boolean says
  whether the word was stored, in which case the code calls \<open>rand_update\<close>; a full ring
  disables the interrupt of its source instead.
\<close>

definition rand_src_push :: "u32 \<Rightarrow> rand_src_state \<Rightarrow> bool \<times> rand_src_state" where
  "rand_src_push val src =
     (let next_head = (rhead src + 1) mod RAND_BUF;
          tail = (if rewind_tail src < 0 then rtail src else rewind_tail src)
      in if next_head \<noteq> tail
         then (True,
               src\<lparr>rbuf := (rbuf src)(rhead src := rbuf src (rhead src) XOR val),
                   rlevel := rlevel src + 1,
                   rhead := next_head,
                   rewind_level := (if rewind_tail src \<ge> 0 then rewind_level src + 1 else rewind_level src)\<rparr>)
         else (False, src))"

definition rand_push :: "rand_src \<Rightarrow> u32 \<Rightarrow> rand_state \<Rightarrow> bool \<times> rand_state" where
  "rand_push s val r =
     (case s of
        RAND_SRC_TRNG \<Rightarrow>
          (let (stored, src) = rand_src_push val (rng_rand_state r)
           in if stored then (True, r\<lparr>rng_rand_state := src\<rparr>) else (False, r\<lparr>rng_irq := False\<rparr>))
      | RAND_SRC_RTC \<Rightarrow>
          (let (stored, src) = rand_src_push val (rtc_rand_state r)
           in if stored then (True, r\<lparr>rtc_rand_state := src\<rparr>) else (False, r\<lparr>rtc_irq := False\<rparr>)))"

text \<open>
  \<open>RTC_WKUP_IRQHandler\<close>: one bit per tick, the parity of the low five bits of the cycle
  counter, collected into words of 32 bits. The result is the new collector
  \<open>(rndtemp, rndtemp_i)\<close> and the word handed to \<open>rand_push\<close>, if any.
\<close>

definition rtc_wkup_collect :: "u32 \<Rightarrow> u32 \<times> nat \<Rightarrow> (u32 \<times> nat) \<times> u32 option" where
  "rtc_wkup_collect clk st =
     (let (rndtemp, rndtemp_i) = st;
          rnd = clk AND 1;
          clk1 = drop_bit 1 clk;
          rnd1 = rnd XOR (clk1 AND 1);
          clk2 = drop_bit 1 clk1;
          rnd2 = rnd1 XOR (clk2 AND 1);
          clk3 = drop_bit 1 clk2;
          rnd3 = rnd2 XOR (clk3 AND 1);
          clk4 = drop_bit 1 clk3;
          rnd4 = rnd3 XOR (clk4 AND 1);
          rndtemp1 = push_bit 1 rndtemp OR rnd4;
          i1 = rndtemp_i + 1
      in if i1 \<ge> 32 then ((rndtemp1, 0), Some rndtemp1) else ((rndtemp1, i1), None))"

section \<open>The ring as a bounded queue\<close>

text \<open>
  The interface a consumer of random words relies on: a queue with an abstraction to a list
  and an invariant. \<open>put\<close> reports whether it stored the word; what it stores is \<open>mix\<close> of
  the word and of what the queue's memory held.
\<close>

locale word_queue =
  fixes abs :: "'q \<Rightarrow> 'w list"
    and invar :: "'q \<Rightarrow> bool"
    and level :: "'q \<Rightarrow> int"
    and get :: "'q \<Rightarrow> 'w \<times> 'q"
    and put :: "'w \<Rightarrow> 'q \<Rightarrow> bool \<times> 'q"
    and mix :: "'q \<Rightarrow> 'w \<Rightarrow> 'w"
    and empty_word :: 'w
  assumes level_abs: "invar q \<Longrightarrow> level q = int (length (abs q))"
    and get_invar: "invar q \<Longrightarrow> invar (snd (get q))"
    and get_empty: "invar q \<Longrightarrow> abs q = [] \<Longrightarrow> get q = (empty_word, q)"
    and get_abs: "invar q \<Longrightarrow> abs q \<noteq> [] \<Longrightarrow> fst (get q) = hd (abs q) \<and> abs (snd (get q)) = tl (abs q)"
    and put_invar: "invar q \<Longrightarrow> invar (snd (put w q))"
    and put_abs: "invar q \<Longrightarrow> fst (put w q) \<Longrightarrow> abs (snd (put w q)) = abs q @ [mix q w]"
    and put_full: "invar q \<Longrightarrow> \<not> fst (put w q) \<Longrightarrow> snd (put w q) = q"
begin

text \<open>Taking \<open>n\<close> words when \<open>n\<close> are there yields the oldest \<open>n\<close> in order.\<close>

fun get_n :: "nat \<Rightarrow> 'q \<Rightarrow> 'w list \<times> 'q" where
  "get_n 0 q = ([], q)"
| "get_n (Suc n) q = (let (w, q') = get q; (ws, q'') = get_n n q' in (w # ws, q''))"

lemma get_n_spec:
  "invar q \<Longrightarrow> int n \<le> level q \<Longrightarrow>
   fst (get_n n q) = take n (abs q) \<and> abs (snd (get_n n q)) = drop n (abs q) \<and> invar (snd (get_n n q))"
proof (induction n arbitrary: q)
  case (Suc n)
  obtain w q' where g: "get q = (w, q')" by (cases "get q")
  have ne: "abs q \<noteq> []" using Suc.prems level_abs [of q] by auto
  have w: "w = hd (abs q)" and q': "abs q' = tl (abs q)" "invar q'"
    using get_abs [OF Suc.prems(1) ne] get_invar [OF Suc.prems(1)] g by simp_all
  have lv: "int n \<le> level q'"
    using Suc.prems level_abs [OF Suc.prems(1)] level_abs [OF q'(2)] q'(1) by simp
  show ?case
    using Suc.IH [OF q'(2) lv] g w q' ne
    by (auto simp: Let_def split: prod.splits) (simp_all add: take_Suc drop_Suc)
qed simp

end

definition ring_invar :: "rand_src_state \<Rightarrow> bool" where
  "ring_invar s \<longleftrightarrow>
     0 \<le> rhead s \<and> rhead s < RAND_BUF \<and> 0 \<le> rtail s \<and> rtail s < RAND_BUF \<and>
     rlevel s = (rhead s - rtail s) mod RAND_BUF \<and>
     (rewind_tail s \<ge> 0 \<longrightarrow> rewind_tail s < RAND_BUF \<and>
        rewind_level s = (rhead s - rewind_tail s) mod RAND_BUF \<and> rlevel s \<le> rewind_level s)"

definition ring_abs :: "rand_src_state \<Rightarrow> u32 list" where
  "ring_abs s = map (\<lambda>i. rbuf s ((rtail s + int i) mod RAND_BUF)) [0..<nat (rlevel s)]"

lemma length_ring_abs [simp]: "length (ring_abs s) = nat (rlevel s)"
  by (simp add: ring_abs_def)

lemma ring_level_bounds: "ring_invar s \<Longrightarrow> 0 \<le> rlevel s \<and> rlevel s < RAND_BUF"
  by (auto simp: ring_invar_def)

text \<open>Distances and positions on the ring, as linear arithmetic.\<close>

lemma mod_wrap_up: "- n \<le> x \<Longrightarrow> x < 0 \<Longrightarrow> x mod n = x + (n::int)"
  using mod_add_self2 [of x n] mod_pos_pos_trivial [of "x + n" n] by simp

lemma mod_wrap_down: "n \<le> x \<Longrightarrow> x < 2 * n \<Longrightarrow> x mod n = x - (n::int)"
  using mod_add_self2 [of "x - n" n] mod_pos_pos_trivial [of "x - n" n] by simp

lemma ring_dist:
  "0 \<le> h \<Longrightarrow> h < 1024 \<Longrightarrow> 0 \<le> t \<Longrightarrow> t < 1024 \<Longrightarrow>
   (h - t) mod 1024 = (if t \<le> h then h - t else h - t + (1024::int))"
  by (simp add: mod_pos_pos_trivial mod_wrap_up)

lemma ring_pos:
  "0 \<le> t \<Longrightarrow> t < 1024 \<Longrightarrow> 0 \<le> i \<Longrightarrow> i \<le> 1023 \<Longrightarrow>
   (t + i) mod 1024 = (if t + i < 1024 then t + i else t + i - (1024::int))"
  by (simp add: mod_pos_pos_trivial mod_wrap_down)

lemmas ring_arith = ring_dist ring_pos

text \<open>The queue laws for the ring.\<close>

lemma ring_invar_split:
  assumes "ring_invar s"
  shows "0 \<le> rhead s" "rhead s < 1024" "0 \<le> rtail s" "rtail s < 1024"
    and "rlevel s = (if rtail s \<le> rhead s then rhead s - rtail s else rhead s - rtail s + 1024)"
  using assms ring_dist [of "rhead s" "rtail s"] by (auto simp: ring_invar_def)

lemma ring_empty_iff: "ring_invar s \<Longrightarrow> ring_abs s = [] \<longleftrightarrow> rhead s = rtail s"
  using ring_invar_split [of s] by (auto simp: ring_abs_def split: if_splits)

lemma ring_get_invar: "ring_invar s \<Longrightarrow> ring_invar (snd (rand_src_get s))"
  by (auto simp: ring_invar_def rand_src_get_def ring_arith split: if_splits)

lemma ring_get_abs:
  assumes "ring_invar s" "ring_abs s \<noteq> []"
  shows "fst (rand_src_get s) = hd (ring_abs s) \<and> ring_abs (snd (rand_src_get s)) = tl (ring_abs s)"
proof -
  obtain n where n: "nat (rlevel s) = Suc n"
    using assms(2) by (cases "nat (rlevel s)") (auto simp: ring_abs_def)
  note b = ring_invar_split [OF assms(1)]
  have ne: "rhead s \<noteq> rtail s" using assms ring_empty_iff by blast
  have l: "nat (rlevel s - 1) = n" using n by simp
  have u: "[0..<Suc n] = 0 # map Suc [0..<n]" by (simp add: upt_conv_Cons map_Suc_upt del: upt_Suc)
  have p: "((rtail s + 1) mod 1024 + int i) mod 1024 = (rtail s + (1 + int i)) mod 1024" for i
    by (simp add: mod_add_left_eq add.assoc)
  show ?thesis
    using ne b(1-4) unfolding ring_abs_def n u
    by (simp add: rand_src_get_def l p ring_abs_def comp_def del: upt_Suc)
qed

lemma ring_put_invar:
  assumes "ring_invar s"
  shows "ring_invar (snd (rand_src_push w s))"
proof (cases "rewind_tail s < 0")
  case True
  with assms show ?thesis
    by (auto simp: ring_invar_def rand_src_push_def ring_arith Let_def split: if_splits)
next
  case False
  then have "0 \<le> rewind_tail s" "rewind_tail s < 1024" using assms by (auto simp: ring_invar_def)
  with assms show ?thesis
    by (auto simp: ring_invar_def rand_src_push_def ring_arith Let_def split: if_splits)
qed

lemma ring_put_abs:
  assumes "ring_invar s" "fst (rand_src_push w s)"
  shows "ring_abs (snd (rand_src_push w s)) = ring_abs s @ [rbuf s (rhead s) XOR w]"
proof -
  note b = ring_invar_split [OF assms(1)]
  let ?n = "nat (rlevel s)"
  have l: "nat (rlevel s + 1) = Suc ?n" using b(5) b by (simp split: if_splits)
  have last: "(rtail s + int ?n) mod 1024 = rhead s"
    using b ring_level_bounds [OF assms(1)] by (simp add: ring_pos split: if_splits)
  have old: "(rtail s + int i) mod 1024 \<noteq> rhead s" if "i < ?n" for i
  proof -
    have "int i < rlevel s" using that by simp
    then show ?thesis using b ring_level_bounds [OF assms(1)] by (auto simp: ring_pos split: if_splits)
  qed
  have st: "(rhead s + 1) mod RAND_BUF \<noteq> (if rewind_tail s < 0 then rtail s else rewind_tail s)"
    using assms(2) by (auto simp: rand_src_push_def Let_def split: if_splits)
  show ?thesis
    using st old last
    by (simp add: rand_src_push_def Let_def ring_abs_def l)
qed

lemma ring_put_full: "\<not> fst (rand_src_push w s) \<Longrightarrow> snd (rand_src_push w s) = s"
  by (auto simp: rand_src_push_def Let_def split: if_splits)

interpretation ring: word_queue ring_abs ring_invar rlevel rand_src_get rand_src_push
  "\<lambda>s w. rbuf s (rhead s) XOR w" 0
proof unfold_locales
  fix q assume "ring_invar q"
  then show "rlevel q = int (length (ring_abs q))" using ring_level_bounds by simp
next
  fix q assume "ring_invar q" "ring_abs q = []"
  then show "rand_src_get q = (0, q)" using ring_empty_iff by (simp add: rand_src_get_def)
qed (simp_all add: ring_get_invar ring_get_abs ring_put_invar ring_put_abs ring_put_full)

section \<open>Taking words from both rings\<close>

definition rand_invar :: "rand_state \<Rightarrow> bool" where
  "rand_invar r \<longleftrightarrow> ring_invar (rtc_rand_state r) \<and> ring_invar (rng_rand_state r)"

text \<open>The loops \<open>for (i = 0; i < n; i++) tok[i] = rand_get()\<close> of \<open>commands.c\<close>.\<close>

fun rand_take :: "nat \<Rightarrow> rand_state \<Rightarrow> u32 list \<times> rand_state" where
  "rand_take 0 r = ([], r)"
| "rand_take (Suc n) r = (let (w, r') = rand_get r; (ws, r'') = rand_take n r' in (w # ws, r''))"

lemma rand_get_rings:
  "fst (rand_get r) = fst (rand_src_get (rtc_rand_state r)) XOR fst (rand_src_get (rng_rand_state r))"
  "rtc_rand_state (snd (rand_get r)) = snd (rand_src_get (rtc_rand_state r))"
  "rng_rand_state (snd (rand_get r)) = snd (rand_src_get (rng_rand_state r))"
  by (simp_all add: rand_get_def case_prod_beta)

lemma rand_take_rings:
  "fst (rand_take n r) =
     map2 (XOR) (fst (ring.get_n n (rtc_rand_state r))) (fst (ring.get_n n (rng_rand_state r)))
   \<and> rtc_rand_state (snd (rand_take n r)) = snd (ring.get_n n (rtc_rand_state r))
   \<and> rng_rand_state (snd (rand_take n r)) = snd (ring.get_n n (rng_rand_state r))"
  by (induction n arbitrary: r) (simp_all add: rand_get_rings case_prod_beta)

lemma rand_avail_le: "int n \<le> rand_avail r \<longleftrightarrow> int n \<le> rlevel (rtc_rand_state r) \<and> int n \<le> rlevel (rng_rand_state r)"
  by (auto simp: rand_avail_def Let_def)

lemma length_rand_take [simp]: "length (fst (rand_take n r)) = n"
  by (induction n arbitrary: r) (simp_all add: case_prod_beta)

text \<open>
  C22. When \<open>rand_avail\<close> reports at least \<open>n\<close> words, the \<open>n\<close> calls of \<open>rand_get\<close> made by
  the login token and the initialization code return, in order, the XOR of the \<open>n\<close> oldest
  words of the two entropy rings: no word is a default zero, is skipped or is used twice,
  and the rings stay well formed.
\<close>

theorem rand_take_fresh:
  assumes "rand_invar r" "int n \<le> rand_avail r"
  shows "fst (rand_take n r)
           = map2 (XOR) (take n (ring_abs (rtc_rand_state r))) (take n (ring_abs (rng_rand_state r)))
         \<and> ring_abs (rtc_rand_state (snd (rand_take n r))) = drop n (ring_abs (rtc_rand_state r))
         \<and> ring_abs (rng_rand_state (snd (rand_take n r))) = drop n (ring_abs (rng_rand_state r))
         \<and> rand_invar (snd (rand_take n r))"
  using assms ring.get_n_spec [of "rtc_rand_state r" n] ring.get_n_spec [of "rng_rand_state r" n]
  by (simp add: rand_invar_def rand_avail_le rand_take_rings)

definition ring_example :: rand_src_state where
  "ring_example = \<lparr>rbuf = (\<lambda>i. of_int (i + 5)), rhead = 2, rlevel = 3, rtail = 1023,
                    rewind_level = 0, rewind_tail = -1\<rparr>"

definition rand_example :: rand_state where
  "rand_example = \<lparr>rng_rand_state = ring_example, rtc_rand_state = ring_example\<lparr>rbuf := (\<lambda>i. 1)\<rparr>,
                    rng_irq = True, rtc_irq = True\<rparr>"

lemma rand_example_ok: "rand_invar rand_example" "int 2 \<le> rand_avail rand_example"
  by (simp_all add: rand_invar_def rand_example_def ring_example_def ring_invar_def rand_avail_def)

theorem rand_take_fresh_witness:
  "fst (rand_take 2 rand_example)
     = map2 (XOR) (take 2 (ring_abs (rtc_rand_state rand_example)))
                  (take 2 (ring_abs (rng_rand_state rand_example)))"
  using rand_take_fresh [OF rand_example_ok] by blast

section \<open>Rewinding\<close>

datatype ring_op = Ring_get | Ring_push u32

fun ring_run :: "ring_op list \<Rightarrow> rand_src_state \<Rightarrow> rand_src_state" where
  "ring_run [] s = s"
| "ring_run (Ring_get # ops) s = ring_run ops (snd (rand_src_get s))"
| "ring_run (Ring_push w # ops) s = ring_run ops (snd (rand_src_push w s))"

lemma ring_rewind_invar: "ring_invar s \<Longrightarrow> ring_invar (rand_src_rewind s)"
  by (auto simp: ring_invar_def rand_src_rewind_def)

lemma ring_rewind_point_invar: "ring_invar s \<Longrightarrow> ring_invar (rand_src_rewind_point s)"
  by (auto simp: ring_invar_def rand_src_rewind_point_def)

lemma rewind_get:
  "0 \<le> rewind_tail s \<Longrightarrow> rand_src_rewind (snd (rand_src_get s)) = rand_src_rewind s"
  by (simp add: rand_src_rewind_def rand_src_get_def)

lemma rewind_push:
  "0 \<le> rewind_tail s \<Longrightarrow> rand_src_rewind (snd (rand_src_push w s)) = snd (rand_src_push w (rand_src_rewind s))"
  by (simp add: rand_src_rewind_def rand_src_push_def Let_def)

lemma rewind_tail_frame [simp]:
  "rewind_tail (snd (rand_src_get s)) = rewind_tail s"
  "rewind_tail (snd (rand_src_push w s)) = rewind_tail s"
  by (simp_all add: rand_src_get_def rand_src_push_def Let_def)

lemma ring_run_rewind:
  "ring_invar s \<Longrightarrow> 0 \<le> rewind_tail s \<Longrightarrow>
   \<exists>ws. ring_abs (rand_src_rewind (ring_run ops s)) = ring_abs (rand_src_rewind s) @ ws"
proof (induction ops s rule: ring_run.induct)
  case (2 ops s)
  then show ?case by (simp add: ring_get_invar rewind_get)
next
  case (3 w ops s)
  from 3 obtain ws where
    "ring_abs (rand_src_rewind (ring_run ops (snd (rand_src_push w s))))
       = ring_abs (snd (rand_src_push w (rand_src_rewind s))) @ ws"
    by (auto simp: ring_put_invar rewind_push)
  then show ?case
    using ring_put_abs [OF ring_rewind_invar [OF "3.prems"(1)], of w] ring_put_full [of w "rand_src_rewind s"]
    by (cases "fst (rand_src_push w (rand_src_rewind s))") auto
qed simp

text \<open>
  C23. A consumer that sets a rewind point, takes any number of words while the interrupt
  keeps pushing new ones, and then rewinds, finds every word that was there at the rewind
  point again, in the same order: pushing never overwrites a word that a rewind can return to.
\<close>

theorem rewind_restores_words:
  assumes "ring_invar s"
  shows "\<exists>ws. ring_abs (rand_src_rewind (ring_run ops (rand_src_rewind_point s))) = ring_abs s @ ws"
proof -
  have "ring_abs (rand_src_rewind (rand_src_rewind_point s)) = ring_abs s"
    using assms by (simp add: rand_src_rewind_def rand_src_rewind_point_def ring_abs_def)
  moreover have "0 \<le> rewind_tail (rand_src_rewind_point s)"
    using assms by (simp add: rand_src_rewind_point_def ring_invar_def)
  ultimately show ?thesis using ring_run_rewind ring_rewind_point_invar [OF assms] by metis
qed

theorem rewind_restores_words_witness:
  "\<exists>ws. ring_abs (rand_src_rewind (ring_run [Ring_get, Ring_push 7, Ring_get] (rand_src_rewind_point ring_example)))
        = ring_abs ring_example @ ws"
  by (rule rewind_restores_words) (simp add: ring_invar_def ring_example_def)

end
