(* ===== verification/Fw_State.thy ===== *)
theory Fw_State
  imports Signet_Common Signet_Aes Rand
begin

text \<open>
  The state of the Signet HC firmware (\<open>firmware-hc\<close>, application build: \<open>SIGNET_HC\<close>,
  \<open>BOOT_MODE_B\<close>, \<open>ENABLE_FIDO2\<close>, without the test, factory and MMC standby options). The
  record \<open>fw\<close> has one field per global variable of the modelled files, with the C name where
  it is free in HOL. Pointers into static buffers are names of the buffers (\<open>buf\<close>), so that
  two users of one buffer see each other's writes. The members of the union \<open>cmd_data\<close> are
  separate fields: what one member looks like after another one was written is not modelled.

  What leaves the modelled files is appended to \<open>outs\<close>: transmitted reports, resumed
  endpoints, calls of the HAL, the LED and the notifications of the SCSI and FIDO layers.
\<close>

section \<open>Enumerations\<close>

datatype command_subsystem = SIGNET_SUBSYSTEM | CTAP_SUBSYSTEM | CTAP_STARTUP_SUBSYSTEM | NO_SUBSYSTEM

datatype emmc_user = EMMC_USER_NONE | EMMC_USER_STORAGE | EMMC_USER_DB | EMMC_USER_TEST

datatype root_block_sync_state = ROOT_BLOCK_SYNCED | ROOT_BLOCK_MODIFIED | ROOT_BLOCK_WRITING

datatype db_action = DB_ACTION_NONE | DB_ACTION_READ | DB_ACTION_WRITE

datatype flash_state = FLASH_IDLE | FLASH_ERASING | FLASH_WRITING

datatype hc_boot_mode = HC_BOOT_BOOTLOADER_MODE | HC_BOOT_APPLICATION_MODE | HC_BOOT_UNKNOWN_MODE

fun boot_mode_code :: "hc_boot_mode \<Rightarrow> nat" where
  "boot_mode_code HC_BOOT_BOOTLOADER_MODE = 0"
| "boot_mode_code HC_BOOT_APPLICATION_MODE = 1"
| "boot_mode_code HC_BOOT_UNKNOWN_MODE = 2"

datatype work =
  KEYBOARD_WORK | READ_DB_TX_WORK | WRITE_DB_TX_WORK | MMC_TX_CPLT_WORK | MMC_TX_DMA_CPLT_WORK
| MMC_RX_CPLT_WORK | READ_DB_TX_CPLT_WORK | FLASH_WORK | USBD_SCSI_WORK | SYNC_ROOT_BLOCK_WORK
| BUTTON_PRESS_WORK | BUTTON_PRESSING_WORK | TIMER_WORK | BLINK_WORK | WORK_STATUS_WORK

datatype interface = INTERFACE_CMD | INTERFACE_KEYBOARD

text \<open>The static buffers that are passed around by pointer, and the two root pages in flash.\<close>

datatype buf =
  Buf_root_page | Buf_init_block | Buf_startup_block | Buf_wipe_block | Buf_read_block
| Buf_write_block | Buf_erase_block | Buf_update_block | Buf_write_flash | Buf_read_cache
| Buf_chars | Buf_cleartext | Buf_null

datatype txbuf = Tx_cmd_packet | Tx_event_packet | Tx_chars buf nat

datatype evbuf = Ev_null | Ev_timeout_secs

datatype crypt_page = Crypt_data1 | Crypt_data2

text \<open>What the firmware does to the outside.\<close>

datatype fw_out =
  Out_report interface bytes
| Out_rx_resume interface
| Out_led bool
| Out_scsi_state device_state
| Out_scsi_storage_start
| Out_mmc_read nat buf
| Out_mmc_write nat buf
| Out_mmc_write_cont
| Out_flash_erase nat
| Out_flash_program nat nat
| Out_boot_mode hc_boot_mode
| Out_ctap_idle
| Out_ctap_blink_timeout
| Out_ctap_press
| Out_usb_deinit
| Out_delay nat
| Out_system_reset

section \<open>Command data\<close>

record block_info =
  bi_valid :: bool
  bi_occupied :: bool
  bi_part_count :: nat
  bi_part_occupancy :: nat
  bi_part_size :: nat
  bi_part_tbl_offs :: nat

record erase_data =
  ef_index :: nat
  ef_min_page :: nat
  ef_max_page :: nat

record init_data =
  in_started :: bool
  in_rand_avail_init :: int
  in_random_data_gathered :: int
  in_root_block_finalized :: bool
  in_blocks_written :: nat
  in_random_data_needed :: int
  in_signet_random_data_needed :: int
  in_ctap_random_data_needed :: int
  in_signet_data_updated :: bool
  in_ctap_data_updated :: bool
  in_passwd :: bytes
  in_hashfn :: bytes
  in_salt :: bytes
  in_rand :: bytes
  in_block :: bytes
  in_blk_info :: block_info

record startup_data =
  st_block :: bytes
  st_resp :: bytes
  st_blk_info :: block_info

record block_data =
  bd_block :: bytes
  bd_block_idx :: nat

record change_data =
  ch_new_key :: bytes
  ch_keystore_key :: bytes
  ch_hashfn :: bytes
  ch_salt :: bytes

record login_data =
  lg_password :: bytes
  lg_authenticated :: bool
  lg_gen_token :: nat
  lg_token :: bytes
  lt_token :: bytes

record update_data =
  up_iv :: bytes
  up_uid :: nat
  up_sz :: nat
  up_write_count :: nat
  up_block_num :: nat
  up_prev_block_num :: nat
  up_press_type :: nat
  up_blk_info :: block_info
  up_entry :: bytes
  up_entry_sz :: nat
  up_block :: bytes

text \<open>\<open>ent\<close> points into the block read cache: its position in the directory, or null.\<close>

record read_data =
  ru_iv :: bytes
  ru_uid :: nat
  ru_block_num :: nat
  ru_index :: nat
  ru_ent :: "nat option"
  ru_masked :: nat
  ru_waiting_for_button_press :: bool
  ru_block :: bytes

record read_all_data =
  ra_iv :: bytes
  ra_uid :: nat
  ra_expected_remaining :: int
  ra_masked :: nat
  ra_block :: bytes

record write_flash_data =
  wf_block :: bytes
  wf_addr :: nat
  wf_sz :: nat

record rand_bits_data =
  gr_sz :: nat
  gr_block :: bytes

section \<open>The device\<close>

record fw =
  \<comment> \<open>\<open>commands.c\<close>\<close>
  active_cmd :: int
  cmd_iter_count :: nat
  cmd_messages_remaining :: nat
  g_write_db_tx_complete :: bool
  g_read_db_tx_complete :: bool
  g_uninitialized_wiped :: bool
  g_mmc_tx_cplt :: bool
  g_mmc_tx_dma_cplt :: bool
  g_mmc_rx_cplt :: bool
  g_root_block_sync_state :: root_block_sync_state
  g_device_state :: device_state
  s_device_system_owner :: command_subsystem
  s_ctap_subsystem_waiting :: bool
  s_signet_subsystem_waiting :: bool
  s_subsystem_release_requested :: bool
  cmd_packet_buf :: bytes
  cmd_resp :: bytes
  g_encrypt_key :: bytes
  token_auth_rand_cyphertext :: bytes
  token_encrypt_key_cyphertext :: bytes
  g_root_block_version :: nat
  g_db_version :: nat
  backup_prev_state :: device_state
  g_root_page_valid :: bool
  root_page :: bytes
  root_page_ptr :: "crypt_page option"
  n_progress_components :: nat
  g_progress_level :: "nat \<Rightarrow> int"
  progress_maximum :: "nat \<Rightarrow> int"
  g_progress_check :: int
  g_progress_target_state :: int
  waiting_for_button_press :: bool
  waiting_for_long_button_press :: bool
  g_emmc_user :: emmc_user
  g_emmc_user_ready :: "emmc_user \<Rightarrow> bool"
  g_db_action :: db_action
  g_db_read_idx :: nat
  g_db_read_dest :: buf
  g_db_write_idx :: nat
  g_db_write_src :: buf
  cleartext_pass_index :: int
  cleartext_pass_typing :: bool
  cleartext_type_buf :: bytes
  \<comment> \<open>\<open>cmd_data\<close>\<close>
  d_erase :: erase_data
  d_chars :: bytes
  d_init :: init_data
  d_startup :: startup_data
  d_wipe :: block_data
  d_read_block :: block_data
  d_write_block :: block_data
  d_erase_block :: bytes
  d_change :: change_data
  d_login :: login_data
  d_update :: update_data
  d_read_uid :: read_data
  d_read_all :: read_all_data
  d_write_flash :: write_flash_data
  d_rand_bits :: rand_bits_data
  \<comment> \<open>\<open>db.c\<close>\<close>
  block_read_cache :: bytes
  block_read_cache_idx :: nat
  block_read_cache_updating :: bool
  g_block_info_tbl :: "nat \<Rightarrow> block_info"
  uid_map :: "nat \<Rightarrow> nat"
  db3_startup_scan_running :: bool
  db3_startup_scan_blk_num :: nat
  db3_startup_scan_block_read :: buf
  \<comment> \<open>\<open>firmware_update_state.c\<close>, \<open>flash.c\<close>; the memories\<close>
  g_update_firmware :: bytes
  flash_state :: flash_state
  flash_erase_sector :: int
  flash_write_dest :: nat
  flash_write_src :: "buf \<times> nat"
  flash_write_length :: int
  flash_mem :: "nat \<Rightarrow> u8"
  boot_add0 :: nat
  emmc :: "nat \<Rightarrow> bytes"
  \<comment> \<open>\<open>usb_raw_hid.c\<close>, \<open>usbd_hid.c\<close>, \<open>usb_keyboard.c\<close>\<close>
  raw_hid_tx_data :: bool
  raw_hid_tx_seq :: nat
  raw_hid_tx_count :: nat
  raw_hid_tx_cmd_packet :: bytes
  raw_hid_tx_event_packet :: bytes
  event_mask :: u8
  event_data :: "nat \<Rightarrow> evbuf"
  event_data_len :: "nat \<Rightarrow> nat"
  usb_configured :: bool
  hid_busy :: "interface \<Rightarrow> bool"
  tx_report :: "interface \<Rightarrow> txbuf option"
  g_typing :: bool
  kb_n_chars :: nat
  kb_chars :: buf
  kb_char_pos :: nat
  ms_type :: int
  char_pos_to_type :: int
  \<comment> \<open>\<open>main.c\<close>, the tick counter and the random numbers\<close>
  g_ms_last_pressed :: int
  g_blink_state :: int
  g_blink_start :: int
  g_blink_period :: int
  g_blink_duration :: int
  g_blink_paused :: bool
  g_pause_start :: int
  g_timeout_event_secs :: nat
  g_button_state :: bool
  g_press_pending :: bool
  g_timer_target :: int
  g_ctap_initialized :: bool
  g_work_to_do :: "work set"
  work_led_off_ms :: int
  work_led_state :: bool
  now :: int
  rnd :: rand_state
  outs :: "fw_out list"

text \<open>
  The surroundings of the device: Nettle, the CRC unit of the chip as the HAL drives it, the
  memory at the addresses 0 to 255 (ITCM RAM, read by \<open>login_cmd_iter\<close>), and of the FIDO code
  \<open>ctap_reset\<close>, which works on the root page and on the random numbers and says how many
  random bytes it asked for, and \<open>ctap_init_finish\<close> with the number of words it needs.
\<close>

record env =
  env_nettle :: nettle
  env_hal_crc :: "bytes \<Rightarrow> u32"
  env_low_mem :: bytes
  env_ctap_reset :: "bytes \<Rightarrow> rand_state \<Rightarrow> bool \<times> bytes \<times> rand_state \<times> int"
  env_ctap_init_rand :: int
  env_ctap_init_finish :: "bytes \<Rightarrow> rand_state \<Rightarrow> bytes \<times> rand_state"

type_synonym action = "fw \<Rightarrow> fw option"

section \<open>The state at reset\<close>

text \<open>
  The initialisers of the global variables; what has none is zero. The flash and the eMMC keep
  what they held, here erased flash and zero blocks. \<open>db3_startup_scan_blk_num\<close> starts as
  -1, outside the table it indexes: here 65535.
\<close>

definition block_info_0 :: block_info where
  "block_info_0 = \<lparr>bi_valid = False, bi_occupied = False, bi_part_count = 0, bi_part_occupancy = 0,
                   bi_part_size = 0, bi_part_tbl_offs = 0\<rparr>"

definition rand_src_0 :: rand_src_state where
  "rand_src_0 = \<lparr>rbuf = (\<lambda>_. 0), rhead = 0, rlevel = 0, rtail = 0, rewind_level = 0, rewind_tail = 0\<rparr>"

definition zeros :: "nat \<Rightarrow> bytes" where
  "zeros n = replicate n 0"

lemma length_zeros [simp]: "length (zeros n) = n"
  by (simp add: zeros_def)

lemma nth_zeros [simp]: "i < n \<Longrightarrow> zeros n ! i = 0"
  by (simp add: zeros_def)

definition block_data_0 :: block_data where
  "block_data_0 = \<lparr>bd_block = zeros BLK_SIZE, bd_block_idx = 0\<rparr>"

definition init_data_0 :: init_data where
  "init_data_0 =
     \<lparr>in_started = False, in_rand_avail_init = 0, in_random_data_gathered = 0, in_root_block_finalized = False,
      in_blocks_written = 0, in_random_data_needed = 0, in_signet_random_data_needed = 0,
      in_ctap_random_data_needed = 0, in_signet_data_updated = False, in_ctap_data_updated = False,
      in_passwd = zeros 32, in_hashfn = zeros 16, in_salt = zeros 32, in_rand = zeros INIT_RAND_DATA_SZ,
      in_block = zeros BLK_SIZE, in_blk_info = block_info_0\<rparr>"

definition update_data_0 :: update_data where
  "update_data_0 =
     \<lparr>up_iv = zeros 16, up_uid = 0, up_sz = 0, up_write_count = 0, up_block_num = 0, up_prev_block_num = 0,
      up_press_type = 0, up_blk_info = block_info_0, up_entry = zeros BLK_SIZE, up_entry_sz = 0,
      up_block = zeros BLK_SIZE\<rparr>"

definition read_data_0 :: read_data where
  "read_data_0 =
     \<lparr>ru_iv = zeros 16, ru_uid = 0, ru_block_num = 0, ru_index = 0, ru_ent = None, ru_masked = 0,
      ru_waiting_for_button_press = False, ru_block = zeros BLK_SIZE\<rparr>"

definition fw_reset :: fw where
  "fw_reset = \<lparr>
     active_cmd = -1, cmd_iter_count = 0, cmd_messages_remaining = 0, g_write_db_tx_complete = False,
     g_read_db_tx_complete = False, g_uninitialized_wiped = False, g_mmc_tx_cplt = False,
     g_mmc_tx_dma_cplt = False, g_mmc_rx_cplt = False, g_root_block_sync_state = ROOT_BLOCK_SYNCED,
     g_device_state = DS_DISCONNECTED, s_device_system_owner = NO_SUBSYSTEM,
     s_ctap_subsystem_waiting = False, s_signet_subsystem_waiting = False,
     s_subsystem_release_requested = True, cmd_packet_buf = zeros CMD_PACKET_BUF_SIZE,
     cmd_resp = zeros CMD_PACKET_BUF_SIZE, g_encrypt_key = zeros 32,
     token_auth_rand_cyphertext = zeros 32, token_encrypt_key_cyphertext = zeros 32,
     g_root_block_version = 0, g_db_version = 0, backup_prev_state = DS_DISCONNECTED,
     g_root_page_valid = False, root_page = zeros 12292, root_page_ptr = None,
     n_progress_components = 0, g_progress_level = (\<lambda>_. 0), progress_maximum = (\<lambda>_. 0),
     g_progress_check = 0, g_progress_target_state = int (ds_code DS_DISCONNECTED),
     waiting_for_button_press = False, waiting_for_long_button_press = False,
     g_emmc_user = EMMC_USER_NONE, g_emmc_user_ready = (\<lambda>_. False), g_db_action = DB_ACTION_NONE,
     g_db_read_idx = 0, g_db_read_dest = Buf_null, g_db_write_idx = 0, g_db_write_src = Buf_null,
     cleartext_pass_index = -1, cleartext_pass_typing = False, cleartext_type_buf = zeros 144,
     d_erase = \<lparr>ef_index = 0, ef_min_page = 0, ef_max_page = 0\<rparr>,
     d_chars = zeros CMD_PACKET_PAYLOAD_SIZE, d_init = init_data_0,
     d_startup = \<lparr>st_block = zeros BLK_SIZE, st_resp = zeros STARTUP_RESP_SIZE, st_blk_info = block_info_0\<rparr>,
     d_wipe = block_data_0, d_read_block = block_data_0, d_write_block = block_data_0,
     d_erase_block = zeros BLK_SIZE,
     d_change = \<lparr>ch_new_key = zeros 32, ch_keystore_key = zeros 32, ch_hashfn = zeros 16, ch_salt = zeros 32\<rparr>,
     d_login = \<lparr>lg_password = zeros 32, lg_authenticated = False, lg_gen_token = 0, lg_token = zeros 32,
                lt_token = zeros 32\<rparr>,
     d_update = update_data_0, d_read_uid = read_data_0,
     d_read_all = \<lparr>ra_iv = zeros 16, ra_uid = 0, ra_expected_remaining = 0, ra_masked = 0, ra_block = zeros BLK_SIZE\<rparr>,
     d_write_flash = \<lparr>wf_block = zeros BLK_SIZE, wf_addr = 0, wf_sz = 0\<rparr>,
     d_rand_bits = \<lparr>gr_sz = 0, gr_block = zeros BLK_SIZE\<rparr>,
     block_read_cache = zeros BLK_SIZE, block_read_cache_idx = 65535, block_read_cache_updating = False,
     g_block_info_tbl = (\<lambda>_. block_info_0), uid_map = (\<lambda>_. INVALID_BLOCK),
     db3_startup_scan_running = False, db3_startup_scan_blk_num = 65535, db3_startup_scan_block_read = Buf_null,
     g_update_firmware = zeros 80, flash_state = FLASH_IDLE, flash_erase_sector = 0, flash_write_dest = 0,
     flash_write_src = (Buf_null, 0), flash_write_length = 0, flash_mem = (\<lambda>_. 0xff), boot_add0 = 0x88,
     emmc = (\<lambda>_. zeros BLK_SIZE),
     raw_hid_tx_data = False, raw_hid_tx_seq = 0, raw_hid_tx_count = 0,
     raw_hid_tx_cmd_packet = zeros RAW_HID_PACKET_SIZE, raw_hid_tx_event_packet = zeros RAW_HID_PACKET_SIZE,
     event_mask = 0, event_data = (\<lambda>_. Ev_null), event_data_len = (\<lambda>_. 0),
     usb_configured = False, hid_busy = (\<lambda>_. False), tx_report = (\<lambda>_. None),
     g_typing = False, kb_n_chars = 0, kb_chars = Buf_null, kb_char_pos = 0, ms_type = 0, char_pos_to_type = 0,
     g_ms_last_pressed = 0, g_blink_state = 0, g_blink_start = 0, g_blink_period = 0, g_blink_duration = 0,
     g_blink_paused = False, g_pause_start = 0, g_timeout_event_secs = 0, g_button_state = False,
     g_press_pending = False, g_timer_target = 0, g_ctap_initialized = False, g_work_to_do = {},
     work_led_off_ms = 0, work_led_state = False, now = 0,
     rnd = \<lparr>rng_rand_state = rand_src_0, rtc_rand_state = rand_src_0, rng_irq = False, rtc_irq = False\<rparr>,
     outs = []\<rparr>"

text \<open>Surroundings to evaluate examples in: a CRC unit that always yields 0, XOR as the cipher.\<close>

definition env_example :: env where
  "env_example =
     \<lparr>env_nettle = nettle_xor, env_hal_crc = (\<lambda>_. 0), env_low_mem = zeros 512,
      env_ctap_reset = (\<lambda>page r. (True, page, r, 0)), env_ctap_init_rand = 8,
      env_ctap_init_finish = (\<lambda>page r. (page, r))\<rparr>"

lemma env_example_simps [simp]:
  "env_nettle env_example = nettle_xor" "env_hal_crc env_example d = 0" "env_low_mem env_example = zeros 512"
  "env_ctap_reset env_example page r = (True, page, r, 0)"
  by (simp_all add: env_example_def)

end
