(* ===== verification/Fw_Io.thy ===== *)
theory Fw_Io
  imports Fw_State "HOL-Library.Signed_Division"
begin

text \<open>
  The small operations that everything else uses: the work flags, LED, timer and blinking of
  \<open>main.c\<close>, the HID reports of \<open>usbd_hid.c\<close>, and the packet layer of \<open>usb_raw_hid.c\<close>. Code
  that calls up into a later file takes the function it calls as an argument.
\<close>

section \<open>Work flags, LED and timer\<close>

definition BEGIN_WORK :: "work \<Rightarrow> fw \<Rightarrow> fw" where
  "BEGIN_WORK w s = s\<lparr>g_work_to_do := insert w (g_work_to_do s)\<rparr>"

definition END_WORK :: "work \<Rightarrow> fw \<Rightarrow> fw" where
  "END_WORK w s = s\<lparr>g_work_to_do := g_work_to_do s - {w}\<rparr>"

definition put_out :: "fw_out \<Rightarrow> fw \<Rightarrow> fw" where
  "put_out x s = s\<lparr>outs := outs s @ [x]\<rparr>"

definition led_on :: "fw \<Rightarrow> fw" where "led_on = put_out (Out_led True)"

definition led_off :: "fw \<Rightarrow> fw" where "led_off = put_out (Out_led False)"

definition timer_start :: "int \<Rightarrow> fw \<Rightarrow> fw" where
  "timer_start ms s = BEGIN_WORK TIMER_WORK (s\<lparr>g_timer_target := now s + ms\<rparr>)"

definition timer_stop :: "fw \<Rightarrow> fw" where
  "timer_stop s = END_WORK TIMER_WORK (s\<lparr>g_timer_target := 0\<rparr>)"

section \<open>Static buffers\<close>

definition buf_get :: "buf \<Rightarrow> fw \<Rightarrow> bytes" where
  "buf_get b s =
     (case b of
        Buf_root_page \<Rightarrow> root_page s
      | Buf_init_block \<Rightarrow> in_block (d_init s)
      | Buf_startup_block \<Rightarrow> st_block (d_startup s)
      | Buf_wipe_block \<Rightarrow> bd_block (d_wipe s)
      | Buf_read_block \<Rightarrow> bd_block (d_read_block s)
      | Buf_write_block \<Rightarrow> bd_block (d_write_block s)
      | Buf_erase_block \<Rightarrow> d_erase_block s
      | Buf_update_block \<Rightarrow> up_block (d_update s)
      | Buf_write_flash \<Rightarrow> wf_block (d_write_flash s)
      | Buf_read_cache \<Rightarrow> block_read_cache s
      | Buf_chars \<Rightarrow> d_chars s
      | Buf_cleartext \<Rightarrow> cleartext_type_buf s
      | Buf_null \<Rightarrow> [])"

definition buf_put :: "buf \<Rightarrow> bytes \<Rightarrow> fw \<Rightarrow> fw" where
  "buf_put b d s =
     (case b of
        Buf_root_page \<Rightarrow> s\<lparr>root_page := d\<rparr>
      | Buf_init_block \<Rightarrow> s\<lparr>d_init := (d_init s)\<lparr>in_block := d\<rparr>\<rparr>
      | Buf_startup_block \<Rightarrow> s\<lparr>d_startup := (d_startup s)\<lparr>st_block := d\<rparr>\<rparr>
      | Buf_wipe_block \<Rightarrow> s\<lparr>d_wipe := (d_wipe s)\<lparr>bd_block := d\<rparr>\<rparr>
      | Buf_read_block \<Rightarrow> s\<lparr>d_read_block := (d_read_block s)\<lparr>bd_block := d\<rparr>\<rparr>
      | Buf_write_block \<Rightarrow> s\<lparr>d_write_block := (d_write_block s)\<lparr>bd_block := d\<rparr>\<rparr>
      | Buf_erase_block \<Rightarrow> s\<lparr>d_erase_block := d\<rparr>
      | Buf_update_block \<Rightarrow> s\<lparr>d_update := (d_update s)\<lparr>up_block := d\<rparr>\<rparr>
      | Buf_write_flash \<Rightarrow> s\<lparr>d_write_flash := (d_write_flash s)\<lparr>wf_block := d\<rparr>\<rparr>
      | Buf_read_cache \<Rightarrow> s\<lparr>block_read_cache := d\<rparr>
      | Buf_chars \<Rightarrow> s\<lparr>d_chars := d\<rparr>
      | Buf_cleartext \<Rightarrow> s\<lparr>cleartext_type_buf := d\<rparr>
      | Buf_null \<Rightarrow> s)"

lemma buf_get_put: "b \<noteq> Buf_null \<Longrightarrow> buf_get b (buf_put b d s) = d"
  by (cases b) (simp_all add: buf_get_def buf_put_def)

lemma buf_get_put_other: "b \<noteq> c \<Longrightarrow> buf_get b (buf_put c d s) = buf_get b s"
  by (cases b; cases c) (simp_all add: buf_get_def buf_put_def)

text \<open>The buffers do not depend on the other variables.\<close>

lemma buf_get_frame [simp]:
  "buf_get b (s\<lparr>active_cmd := x0\<rparr>) = buf_get b s"
  "buf_get b (s\<lparr>cmd_iter_count := x1\<rparr>) = buf_get b s"
  "buf_get b (s\<lparr>cmd_messages_remaining := x2\<rparr>) = buf_get b s"
  "buf_get b (s\<lparr>g_write_db_tx_complete := x3\<rparr>) = buf_get b s"
  "buf_get b (s\<lparr>g_read_db_tx_complete := x4\<rparr>) = buf_get b s"
  "buf_get b (s\<lparr>g_uninitialized_wiped := x5\<rparr>) = buf_get b s"
  "buf_get b (s\<lparr>g_mmc_tx_cplt := x6\<rparr>) = buf_get b s"
  "buf_get b (s\<lparr>g_mmc_tx_dma_cplt := x7\<rparr>) = buf_get b s"
  "buf_get b (s\<lparr>g_mmc_rx_cplt := x8\<rparr>) = buf_get b s"
  "buf_get b (s\<lparr>g_root_block_sync_state := x9\<rparr>) = buf_get b s"
  "buf_get b (s\<lparr>g_device_state := x10\<rparr>) = buf_get b s"
  "buf_get b (s\<lparr>s_device_system_owner := x11\<rparr>) = buf_get b s"
  "buf_get b (s\<lparr>s_ctap_subsystem_waiting := x12\<rparr>) = buf_get b s"
  "buf_get b (s\<lparr>s_signet_subsystem_waiting := x13\<rparr>) = buf_get b s"
  "buf_get b (s\<lparr>s_subsystem_release_requested := x14\<rparr>) = buf_get b s"
  "buf_get b (s\<lparr>cmd_packet_buf := x15\<rparr>) = buf_get b s"
  "buf_get b (s\<lparr>cmd_resp := x16\<rparr>) = buf_get b s"
  "buf_get b (s\<lparr>g_encrypt_key := x17\<rparr>) = buf_get b s"
  "buf_get b (s\<lparr>token_auth_rand_cyphertext := x18\<rparr>) = buf_get b s"
  "buf_get b (s\<lparr>token_encrypt_key_cyphertext := x19\<rparr>) = buf_get b s"
  "buf_get b (s\<lparr>g_root_block_version := x20\<rparr>) = buf_get b s"
  "buf_get b (s\<lparr>g_db_version := x21\<rparr>) = buf_get b s"
  "buf_get b (s\<lparr>backup_prev_state := x22\<rparr>) = buf_get b s"
  "buf_get b (s\<lparr>g_root_page_valid := x23\<rparr>) = buf_get b s"
  "buf_get b (s\<lparr>root_page_ptr := x24\<rparr>) = buf_get b s"
  "buf_get b (s\<lparr>n_progress_components := x25\<rparr>) = buf_get b s"
  "buf_get b (s\<lparr>g_progress_level := x26\<rparr>) = buf_get b s"
  "buf_get b (s\<lparr>progress_maximum := x27\<rparr>) = buf_get b s"
  "buf_get b (s\<lparr>g_progress_check := x28\<rparr>) = buf_get b s"
  "buf_get b (s\<lparr>g_progress_target_state := x29\<rparr>) = buf_get b s"
  "buf_get b (s\<lparr>waiting_for_button_press := x30\<rparr>) = buf_get b s"
  "buf_get b (s\<lparr>waiting_for_long_button_press := x31\<rparr>) = buf_get b s"
  "buf_get b (s\<lparr>g_emmc_user := x32\<rparr>) = buf_get b s"
  "buf_get b (s\<lparr>g_emmc_user_ready := x33\<rparr>) = buf_get b s"
  "buf_get b (s\<lparr>g_db_action := x34\<rparr>) = buf_get b s"
  "buf_get b (s\<lparr>g_db_read_idx := x35\<rparr>) = buf_get b s"
  "buf_get b (s\<lparr>g_db_read_dest := x36\<rparr>) = buf_get b s"
  "buf_get b (s\<lparr>g_db_write_idx := x37\<rparr>) = buf_get b s"
  "buf_get b (s\<lparr>g_db_write_src := x38\<rparr>) = buf_get b s"
  "buf_get b (s\<lparr>cleartext_pass_index := x39\<rparr>) = buf_get b s"
  "buf_get b (s\<lparr>cleartext_pass_typing := x40\<rparr>) = buf_get b s"
  "buf_get b (s\<lparr>d_erase := x41\<rparr>) = buf_get b s"
  "buf_get b (s\<lparr>d_change := x42\<rparr>) = buf_get b s"
  "buf_get b (s\<lparr>d_login := x43\<rparr>) = buf_get b s"
  "buf_get b (s\<lparr>d_read_uid := x44\<rparr>) = buf_get b s"
  "buf_get b (s\<lparr>d_read_all := x45\<rparr>) = buf_get b s"
  "buf_get b (s\<lparr>d_rand_bits := x46\<rparr>) = buf_get b s"
  "buf_get b (s\<lparr>block_read_cache_idx := x47\<rparr>) = buf_get b s"
  "buf_get b (s\<lparr>block_read_cache_updating := x48\<rparr>) = buf_get b s"
  "buf_get b (s\<lparr>g_block_info_tbl := x49\<rparr>) = buf_get b s"
  "buf_get b (s\<lparr>uid_map := x50\<rparr>) = buf_get b s"
  "buf_get b (s\<lparr>db3_startup_scan_running := x51\<rparr>) = buf_get b s"
  "buf_get b (s\<lparr>db3_startup_scan_blk_num := x52\<rparr>) = buf_get b s"
  "buf_get b (s\<lparr>db3_startup_scan_block_read := x53\<rparr>) = buf_get b s"
  "buf_get b (s\<lparr>g_update_firmware := x54\<rparr>) = buf_get b s"
  "buf_get b (s\<lparr>flash_state := x55\<rparr>) = buf_get b s"
  "buf_get b (s\<lparr>flash_erase_sector := x56\<rparr>) = buf_get b s"
  "buf_get b (s\<lparr>flash_write_dest := x57\<rparr>) = buf_get b s"
  "buf_get b (s\<lparr>flash_write_src := x58\<rparr>) = buf_get b s"
  "buf_get b (s\<lparr>flash_write_length := x59\<rparr>) = buf_get b s"
  "buf_get b (s\<lparr>flash_mem := x60\<rparr>) = buf_get b s"
  "buf_get b (s\<lparr>boot_add0 := x61\<rparr>) = buf_get b s"
  "buf_get b (s\<lparr>emmc := x62\<rparr>) = buf_get b s"
  "buf_get b (s\<lparr>raw_hid_tx_data := x63\<rparr>) = buf_get b s"
  "buf_get b (s\<lparr>raw_hid_tx_seq := x64\<rparr>) = buf_get b s"
  "buf_get b (s\<lparr>raw_hid_tx_count := x65\<rparr>) = buf_get b s"
  "buf_get b (s\<lparr>raw_hid_tx_cmd_packet := x66\<rparr>) = buf_get b s"
  "buf_get b (s\<lparr>raw_hid_tx_event_packet := x67\<rparr>) = buf_get b s"
  "buf_get b (s\<lparr>event_mask := x68\<rparr>) = buf_get b s"
  "buf_get b (s\<lparr>event_data := x69\<rparr>) = buf_get b s"
  "buf_get b (s\<lparr>event_data_len := x70\<rparr>) = buf_get b s"
  "buf_get b (s\<lparr>usb_configured := x71\<rparr>) = buf_get b s"
  "buf_get b (s\<lparr>hid_busy := x72\<rparr>) = buf_get b s"
  "buf_get b (s\<lparr>tx_report := x73\<rparr>) = buf_get b s"
  "buf_get b (s\<lparr>g_typing := x74\<rparr>) = buf_get b s"
  "buf_get b (s\<lparr>kb_n_chars := x75\<rparr>) = buf_get b s"
  "buf_get b (s\<lparr>kb_chars := x76\<rparr>) = buf_get b s"
  "buf_get b (s\<lparr>kb_char_pos := x77\<rparr>) = buf_get b s"
  "buf_get b (s\<lparr>ms_type := x78\<rparr>) = buf_get b s"
  "buf_get b (s\<lparr>char_pos_to_type := x79\<rparr>) = buf_get b s"
  "buf_get b (s\<lparr>g_ms_last_pressed := x80\<rparr>) = buf_get b s"
  "buf_get b (s\<lparr>g_blink_state := x81\<rparr>) = buf_get b s"
  "buf_get b (s\<lparr>g_blink_start := x82\<rparr>) = buf_get b s"
  "buf_get b (s\<lparr>g_blink_period := x83\<rparr>) = buf_get b s"
  "buf_get b (s\<lparr>g_blink_duration := x84\<rparr>) = buf_get b s"
  "buf_get b (s\<lparr>g_blink_paused := x85\<rparr>) = buf_get b s"
  "buf_get b (s\<lparr>g_pause_start := x86\<rparr>) = buf_get b s"
  "buf_get b (s\<lparr>g_timeout_event_secs := x87\<rparr>) = buf_get b s"
  "buf_get b (s\<lparr>g_button_state := x88\<rparr>) = buf_get b s"
  "buf_get b (s\<lparr>g_press_pending := x89\<rparr>) = buf_get b s"
  "buf_get b (s\<lparr>g_timer_target := x90\<rparr>) = buf_get b s"
  "buf_get b (s\<lparr>g_ctap_initialized := x91\<rparr>) = buf_get b s"
  "buf_get b (s\<lparr>g_work_to_do := x92\<rparr>) = buf_get b s"
  "buf_get b (s\<lparr>now := x93\<rparr>) = buf_get b s"
  "buf_get b (s\<lparr>rnd := x94\<rparr>) = buf_get b s"
  "buf_get b (s\<lparr>outs := x95\<rparr>) = buf_get b s"
  "buf_get b (s\<lparr>work_led_off_ms := x96\<rparr>) = buf_get b s"
  "buf_get b (s\<lparr>work_led_state := x97\<rparr>) = buf_get b s"
  by (simp_all add: buf_get_def split: buf.split)

section \<open>HID reports: \<open>usbd_hid.c\<close>\<close>

text \<open>A report handed to the USB driver: \<open>len\<close> bytes from the start of the buffer.\<close>

definition txbuf_bytes :: "txbuf \<Rightarrow> nat \<Rightarrow> fw \<Rightarrow> bytes" where
  "txbuf_bytes t len s =
     (case t of
        Tx_cmd_packet \<Rightarrow> take len (raw_hid_tx_cmd_packet s)
      | Tx_event_packet \<Rightarrow> take len (raw_hid_tx_event_packet s)
      | Tx_chars b off \<Rightarrow> take len (drop off (buf_get b s)))"

definition USBD_HID_SendReport :: "interface \<Rightarrow> txbuf \<Rightarrow> nat \<Rightarrow> action" where
  "USBD_HID_SendReport i t len s =
     (if usb_configured s then
        (if \<not> hid_busy s i
         then Some (put_out (Out_report i (txbuf_bytes t len s)) (s\<lparr>hid_busy := (hid_busy s)(i := True)\<rparr>))
         else None)
      else Some s)"

definition usb_tx_pending :: "interface \<Rightarrow> fw \<Rightarrow> bool" where
  "usb_tx_pending i s = hid_busy s i"

definition usb_send_bytes :: "interface \<Rightarrow> txbuf \<Rightarrow> nat \<Rightarrow> action" where
  "usb_send_bytes i t len s =
     (if usb_tx_pending i s
      then (if tx_report s i = None then Some (s\<lparr>tx_report := (tx_report s)(i := Some t)\<rparr>) else None)
      else USBD_HID_SendReport i t len s)"

text \<open>
  \<open>USBD_HID_DataIn\<close>: the host fetched a report. A waiting report is sent with the packet
  size of the command endpoint, whatever its interface; then the interface's own handler
  (\<open>usb_raw_hid_tx\<close>, \<open>usb_tx_keyboard\<close>) runs.
\<close>

definition USBD_HID_DataIn :: "(interface \<Rightarrow> action) \<Rightarrow> interface \<Rightarrow> action" where
  "USBD_HID_DataIn tx i s = do {
     let s = s\<lparr>hid_busy := (hid_busy s)(i := False)\<rparr>;
     s \<leftarrow> (case tx_report s i of
             None \<Rightarrow> Some s
           | Some t \<Rightarrow>
               map_option (\<lambda>s. s\<lparr>tx_report := (tx_report s)(i := None)\<rparr>)
                 (USBD_HID_SendReport i t RAW_HID_PACKET_SIZE s));
     tx i s
   }"

definition USBD_HID_rx_resume :: "interface \<Rightarrow> fw \<Rightarrow> fw" where
  "USBD_HID_rx_resume i = put_out (Out_rx_resume i)"

section \<open>Packets: \<open>usb_raw_hid.c\<close>\<close>

definition next_event :: "u8 \<Rightarrow> nat option" where
  "next_event m = find (\<lambda>i. bit m i) [0..<8]"

definition evbuf_bytes :: "evbuf \<Rightarrow> nat \<Rightarrow> fw \<Rightarrow> bytes option" where
  "evbuf_bytes e len s =
     (case e of
        Ev_null \<Rightarrow> None
      | Ev_timeout_secs \<Rightarrow> (if len \<le> 1 then Some (take len [word_of_nat (g_timeout_event_secs s)]) else None))"

definition maybe_send_raw_hid_event :: "fw \<Rightarrow> (bool \<times> fw) option" where
  "maybe_send_raw_hid_event s =
     (if event_mask s = 0 then Some (False, s)
      else if usb_tx_pending INTERFACE_CMD s then Some (False, s)
      else case next_event (event_mask s) of
             None \<Rightarrow> Some (True, s)
           | Some i \<Rightarrow> do {
               let s = s\<lparr>event_mask := event_mask s AND NOT (push_bit i 1)\<rparr>;
               let pkt = (raw_hid_tx_event_packet s)[0 := 0xff];
               let pkt = pkt[RAW_HID_HEADER_SIZE := word_of_nat i];
               pkt \<leftarrow> (if event_data s i \<noteq> Ev_null then do {
                          d \<leftarrow> evbuf_bytes (event_data s i) (event_data_len s i) s;
                          let pkt = pkt[RAW_HID_HEADER_SIZE + 1 := word_of_nat (event_data_len s i)];
                          memcpy_to pkt (RAW_HID_HEADER_SIZE + 2) d
                        } else Some (pkt[RAW_HID_HEADER_SIZE + 1 := 0]));
               let s = s\<lparr>raw_hid_tx_event_packet := pkt\<rparr>;
               s \<leftarrow> usb_send_bytes INTERFACE_CMD Tx_event_packet RAW_HID_PACKET_SIZE s;
               Some (True, s)
             })"

text \<open>\<open>sent\<close> is \<open>cmd_packet_sent\<close> of \<open>commands.c\<close>; \<open>raw_hid_tx_data\<close> points to \<open>cmd_resp\<close> or is null.\<close>

definition maybe_send_raw_hid_packet :: "action \<Rightarrow> action" where
  "maybe_send_raw_hid_packet sent s = do {
     (ev, s) \<leftarrow> maybe_send_raw_hid_event s;
     if ev then Some s
     else if raw_hid_tx_seq s \<noteq> raw_hid_tx_count s then do {
       let lst = (if raw_hid_tx_seq s + 1 = raw_hid_tx_count s then 1 else 0 :: u8);
       chunk \<leftarrow> read_from (cmd_resp s) (raw_hid_tx_seq s * RAW_HID_PAYLOAD_SIZE) RAW_HID_PAYLOAD_SIZE;
       let pkt = (raw_hid_tx_cmd_packet s)[0 := push_bit 7 lst OR word_of_nat (raw_hid_tx_seq s)];
       pkt \<leftarrow> memcpy_to pkt RAW_HID_HEADER_SIZE chunk;
       let s = s\<lparr>raw_hid_tx_cmd_packet := pkt\<rparr>;
       s \<leftarrow> usb_send_bytes INTERFACE_CMD Tx_cmd_packet RAW_HID_PACKET_SIZE s;
       Some (s\<lparr>raw_hid_tx_seq := raw_hid_tx_seq s + 1\<rparr>)
     } else do {
       let s = s\<lparr>raw_hid_tx_seq := 0, raw_hid_tx_count := 0\<rparr>;
       if raw_hid_tx_data s then sent (s\<lparr>raw_hid_tx_data := False\<rparr>) else Some s
     }
   }"

text \<open>
  \<open>cmd_packet_send\<close>, always with \<open>cmd_resp\<close>. \<open>len\<close> is a \<open>u16\<close> and never 0 (a response has a
  header), so the branch that calls \<open>cmd_packet_sent\<close> is not taken from here.
\<close>

definition cmd_packet_send :: "nat \<Rightarrow> action" where
  "cmd_packet_send len s =
     maybe_send_raw_hid_packet (\<lambda>_. None)
       (s\<lparr>raw_hid_tx_count := (len mod 65536 + RAW_HID_PAYLOAD_SIZE - 1) div RAW_HID_PAYLOAD_SIZE,
          raw_hid_tx_seq := 0, raw_hid_tx_data := True\<rparr>)"

definition cmd_event_send :: "nat \<Rightarrow> evbuf \<Rightarrow> nat \<Rightarrow> action" where
  "cmd_event_send n d len s =
     map_option snd
       (maybe_send_raw_hid_event
          (s\<lparr>event_mask := event_mask s OR push_bit n 1,
             event_data := (event_data s)(n := d),
             event_data_len := (event_data_len s)(n := len)\<rparr>))"

text \<open>
  \<open>usb_raw_hid_rx\<close>; \<open>recv\<close> is \<open>cmd_packet_recv\<close>. A packet with a sequence number above 32 is
  written behind the end of \<open>cmd_packet_buf\<close>, after its endpoint has been resumed.
\<close>

definition usb_raw_hid_rx :: "action \<Rightarrow> bytes \<Rightarrow> action" where
  "usb_raw_hid_rx recv data s = do {
     let seq = unat (data ! 0 AND 0x7f);
     let last = bit (data ! 0) 7;
     let index = seq * RAW_HID_PAYLOAD_SIZE;
     let s = (if index + RAW_HID_PAYLOAD_SIZE > CMD_PACKET_BUF_SIZE then USBD_HID_rx_resume INTERFACE_CMD s else s);
     b \<leftarrow> memcpy_to (cmd_packet_buf s) index (slice data RAW_HID_HEADER_SIZE RAW_HID_PAYLOAD_SIZE);
     let s = s\<lparr>cmd_packet_buf := b\<rparr>;
     if last then recv s else Some (USBD_HID_rx_resume INTERFACE_CMD s)
   }"

section \<open>Blinking: \<open>main.c\<close>\<close>

definition start_blinking :: "int \<Rightarrow> int \<Rightarrow> fw \<Rightarrow> fw" where
  "start_blinking period duration s =
     (let s = s\<lparr>g_blink_start := now s, g_blink_period := period, g_blink_duration := duration,
                g_timeout_event_secs := nat ((duration + 999) div 1000) mod 256\<rparr>
      in BEGIN_WORK BLINK_WORK (led_on s))"

definition pause_blinking :: "fw \<Rightarrow> fw" where
  "pause_blinking s = (let s = led_off s in s\<lparr>g_blink_paused := True, g_pause_start := now s\<rparr>)"

definition stop_blinking :: "fw \<Rightarrow> fw" where
  "stop_blinking s = END_WORK BLINK_WORK (led_off (s\<lparr>g_blink_period := 0, g_blink_paused := False\<rparr>))"

definition is_blinking :: "fw \<Rightarrow> bool" where
  "is_blinking s \<longleftrightarrow> g_blink_period s > 0"

text \<open>
  \<open>blink_idle\<close>; \<open>timeout\<close> is \<open>blink_timeout\<close> of \<open>commands.c\<close>. Division and remainder on
  \<open>int\<close> truncate towards zero.
\<close>

definition blink_idle :: "action \<Rightarrow> action" where
  "blink_idle timeout s =
     (if g_blink_period s > 0 \<and> \<not> g_blink_paused s then do {
        let ms_count = now s;
        let next_blink_state = ((ms_count - g_blink_start s) sdiv (g_blink_period s sdiv 2)) smod 2;
        let s = (if next_blink_state \<noteq> g_blink_state s
                 then (if next_blink_state \<noteq> 0 then led_off s else led_on s) else s);
        let s = s\<lparr>g_blink_state := next_blink_state\<rparr>;
        if g_blink_duration s \<noteq> 0 then do {
          let timeout_event_msecs = g_blink_duration s - (ms_count - g_blink_start s);
          let next_timeout_event_secs = (timeout_event_msecs + 999) sdiv 1000;
          s \<leftarrow> (if timeout_event_msecs \<le> 0 \<and> g_blink_duration s > 0
                then timeout (put_out Out_ctap_blink_timeout
                       (led_off (END_WORK BLINK_WORK (s\<lparr>g_blink_period := 0\<rparr>))))
                else Some s);
          if next_timeout_event_secs \<noteq> int (g_timeout_event_secs s) then do {
            let s = s\<lparr>g_timeout_event_secs := nat (next_timeout_event_secs mod 256)\<rparr>;
            if g_device_state s \<noteq> DS_DISCONNECTED \<and> g_device_state s \<noteq> DS_RESET
            then cmd_event_send 2 Ev_timeout_secs 1 s else Some s
          } else Some s
        } else Some s
      } else Some s)"

definition resume_blinking :: "action \<Rightarrow> action" where
  "resume_blinking timeout s =
     (if g_blink_paused s
      then blink_idle timeout (s\<lparr>g_blink_start := g_blink_start s + (now s - g_pause_start s), g_blink_paused := False\<rparr>)
      else Some s)"

end
