(* ===== verification/Fw_Flash.thy ===== *)
theory Fw_Flash
  imports Fw_Io
begin

text \<open>
  \<open>firmware-hc/flash.c\<close>: the map of the flash sectors, the write state machine that the main
  loop drives, and the boot mode option bytes. The flash itself is \<open>flash_mem\<close>, byte by byte:
  erasing a sector sets its bytes to \<open>0xff\<close>, programming a word can only clear bits. The HAL
  calls are taken to succeed, as its documentation says for a valid sector or address.
\<close>

section \<open>Sectors\<close>

definition flash_sector_to_addr :: "int \<Rightarrow> nat" where
  "flash_sector_to_addr x =
     0x8000000 + (if x > 0 then 0x4000 else 0) + (if x > 1 then 0x4000 else 0)
     + (if x > 2 then 0x4000 else 0) + (if x > 3 then 0x4000 else 0) + (if x > 4 then 0x10000 else 0)
     + (if x > 5 then 0x20000 else 0) + (if x > 6 then 0x20000 else 0) + (if x > 7 then 0x20000 else 0)"

definition flash_addr_to_sector :: "nat \<Rightarrow> int" where
  "flash_addr_to_sector addr =
     (case find (\<lambda>i. flash_sector_to_addr i \<le> addr \<and> addr < flash_sector_to_addr (i + 1)) [0..7] of
        Some i \<Rightarrow> i | None \<Rightarrow> -1)"

definition flash_read :: "nat \<Rightarrow> nat \<Rightarrow> fw \<Rightarrow> bytes" where
  "flash_read addr n s = map (\<lambda>i. flash_mem s (addr + i)) [0..<n]"

text \<open>What the two HAL calls do to the memory.\<close>

definition HAL_FLASHEx_Erase :: "int \<Rightarrow> action" where
  "HAL_FLASHEx_Erase sector s =
     (if 0 \<le> sector \<and> sector < 8
      then Some (put_out (Out_flash_erase (nat sector))
             (s\<lparr>flash_mem := (\<lambda>a. if flash_sector_to_addr sector \<le> a \<and> a < flash_sector_to_addr (sector + 1)
                                then 0xff else flash_mem s a)\<rparr>))
      else None)"

definition HAL_FLASH_Program :: "nat \<Rightarrow> bytes \<Rightarrow> action" where
  "HAL_FLASH_Program addr w s =
     (if length w = 4
      then Some (put_out (Out_flash_program addr (rd32 w 0))
             (s\<lparr>flash_mem := (\<lambda>a. if addr \<le> a \<and> a < addr + 4 then flash_mem s a AND w ! (a - addr)
                                else flash_mem s a)\<rparr>))
      else None)"

section \<open>The write state machine\<close>

definition is_flash_idle :: "fw \<Rightarrow> bool" where
  "is_flash_idle s \<longleftrightarrow> flash_state s = FLASH_IDLE"

definition flash_idle_ready :: "fw \<Rightarrow> bool" where
  "flash_idle_ready s \<longleftrightarrow> flash_state s \<noteq> FLASH_IDLE"

definition flash_writing :: "fw \<Rightarrow> bool" where
  "flash_writing s = (case flash_state s of FLASH_IDLE \<Rightarrow> False | _ \<Rightarrow> True)"

definition flash_program_word :: action where
  "flash_program_word s =
     (if flash_write_length s > 0 then do {
        let (b, off) = flash_write_src s;
        w \<leftarrow> read_from (buf_get b s) off 4;
        s \<leftarrow> HAL_FLASH_Program (flash_write_dest s) w s;
        Some (s\<lparr>flash_write_length := flash_write_length s - 4,
               flash_write_src := (b, off + 4),
               flash_write_dest := flash_write_dest s + 4\<rparr>)
      } else Some s)"

text \<open>
  \<open>flash_idle\<close>: one erase, or up to 16 words, per call; \<open>done\<close> is \<open>flash_write_complete\<close>
  of \<open>commands.c\<close>. The loop condition \<open>flash_write_length > 0\<close> is tested by each step.
\<close>

definition flash_idle :: "action \<Rightarrow> action" where
  "flash_idle complete s =
     (case flash_state s of
        FLASH_IDLE \<Rightarrow> Some s
      | FLASH_ERASING \<Rightarrow> do {
          s \<leftarrow> HAL_FLASHEx_Erase (flash_erase_sector s) s;
          if flash_write_length s \<noteq> 0 then Some (s\<lparr>flash_state := FLASH_WRITING\<rparr>)
          else complete (END_WORK FLASH_WORK (s\<lparr>flash_state := FLASH_IDLE\<rparr>))
        }
      | FLASH_WRITING \<Rightarrow> do {
          s \<leftarrow> run_all (replicate 16 flash_program_word) s;
          if flash_write_length s = 0
          then complete (END_WORK FLASH_WORK (s\<lparr>flash_state := FLASH_IDLE\<rparr>))
          else Some s
        })"

text \<open>\<open>flash_write\<close> returns 1, or ends in the failed assertion.\<close>

definition flash_write :: "nat \<Rightarrow> buf \<Rightarrow> int \<Rightarrow> action" where
  "flash_write dest src count s =
     (if flash_state s = FLASH_IDLE then
        (let s = s\<lparr>flash_write_dest := dest, flash_write_src := (src, 0), flash_write_length := count\<rparr>
         in if count mod 4 = 0 then Some (BEGIN_WORK FLASH_WORK (s\<lparr>flash_state := FLASH_WRITING\<rparr>)) else None)
      else None)"

definition flash_write_page :: "nat \<Rightarrow> buf \<Rightarrow> int \<Rightarrow> action" where
  "flash_write_page dest src count s =
     (if flash_state s = FLASH_IDLE then
        (let s = s\<lparr>flash_write_dest := dest, flash_write_src := (src, 0), flash_write_length := count\<rparr>
         in if count mod 4 = 0
            then Some (BEGIN_WORK FLASH_WORK
                   (s\<lparr>flash_erase_sector := flash_addr_to_sector dest, flash_state := FLASH_ERASING\<rparr>))
            else None)
      else None)"

section \<open>Boot mode\<close>

abbreviation (input) BOOTLOADER_MODE_ADD0_VAL :: nat where "BOOTLOADER_MODE_ADD0_VAL \<equiv> 0x82"
abbreviation (input) APPLICATION_MODE_ADD0_VAL :: nat where "APPLICATION_MODE_ADD0_VAL \<equiv> 0x88"

definition flash_set_boot_mode :: "hc_boot_mode \<Rightarrow> fw \<Rightarrow> fw" where
  "flash_set_boot_mode m s =
     (case m of
        HC_BOOT_BOOTLOADER_MODE \<Rightarrow> put_out (Out_boot_mode m) (s\<lparr>boot_add0 := BOOTLOADER_MODE_ADD0_VAL\<rparr>)
      | HC_BOOT_APPLICATION_MODE \<Rightarrow> put_out (Out_boot_mode m) (s\<lparr>boot_add0 := APPLICATION_MODE_ADD0_VAL\<rparr>)
      | HC_BOOT_UNKNOWN_MODE \<Rightarrow> s)"

definition flash_get_boot_mode :: "fw \<Rightarrow> hc_boot_mode" where
  "flash_get_boot_mode s =
     (if boot_add0 s = BOOTLOADER_MODE_ADD0_VAL then HC_BOOT_BOOTLOADER_MODE
      else if boot_add0 s = APPLICATION_MODE_ADD0_VAL then HC_BOOT_APPLICATION_MODE
      else HC_BOOT_UNKNOWN_MODE)"

end
