(* ===== verification/Fw_Base.thy ===== *)
theory Fw_Base
  imports Fw_Flash
begin

text \<open>
  The lower half of \<open>firmware-hc/commands.c\<close>: the eMMC scheduler and the block transfers, the
  root block with its two copies in flash, progress reports, responses, button waits, the
  initialisation vectors, and the arbitration of the device between the Signet and the FIDO
  code; with them \<open>crc.c\<close> and \<open>usb_keyboard.c\<close>.

  \<open>release_device\<close> and \<open>restart_signet_command\<close> call each other; here the former takes the
  latter as an argument. Releases made on behalf of the Signet code never restart it, so the
  functions below that release pass an argument that is not used
  (\<open>release_device_request_restart\<close>).
\<close>

section \<open>Root page fields\<close>

abbreviation (input) ROOT_PAGE_SIZE :: nat where "ROOT_PAGE_SIZE \<equiv> 12292"
abbreviation (input) ROOT_BLOCK_FORMAT_CURRENT :: nat where "ROOT_BLOCK_FORMAT_CURRENT \<equiv> 3"
abbreviation (input) DB_FORMAT_CURRENT :: nat where "DB_FORMAT_CURRENT \<equiv> 3"
abbreviation (input) DB_FORMAT_2 :: nat where "DB_FORMAT_2 \<equiv> 2"

text \<open>Offsets in the packed \<open>struct hc_device_data\<close>.\<close>

abbreviation (input) RP_CRC :: nat where "RP_CRC \<equiv> 0"
abbreviation (input) RP_FORMAT :: nat where "RP_FORMAT \<equiv> 4"
abbreviation (input) RP_DB_FORMAT :: nat where "RP_DB_FORMAT \<equiv> 6"
abbreviation (input) RP_DATA_ITERATION :: nat where "RP_DATA_ITERATION \<equiv> 8"
abbreviation (input) RP_DEVICE_ID :: nat where "RP_DEVICE_ID \<equiv> 12"
abbreviation (input) RP_UPGRADE_STATE :: nat where "RP_UPGRADE_STATE \<equiv> 60"
abbreviation (input) RP_AUTH_RANDOM :: nat where "RP_AUTH_RANDOM \<equiv> 864"
abbreviation (input) RP_SALT :: nat where "RP_SALT \<equiv> 884"
abbreviation (input) RP_HASHFN :: nat where "RP_HASHFN \<equiv> 916"
abbreviation (input) RP_AUTH_CT :: nat where "RP_AUTH_CT \<equiv> 932"
abbreviation (input) RP_KEYSTORE_CT :: nat where "RP_KEYSTORE_CT \<equiv> 948"

definition rp_format :: "fw \<Rightarrow> nat" where "rp_format s = rd16 (root_page s) RP_FORMAT"

definition rp_db_format :: "fw \<Rightarrow> nat" where "rp_db_format s = rd16 (root_page s) RP_DB_FORMAT"

definition rp_get :: "nat \<Rightarrow> nat \<Rightarrow> fw \<Rightarrow> bytes" where "rp_get off n s = slice (root_page s) off n"

definition rp_put :: "nat \<Rightarrow> bytes \<Rightarrow> fw \<Rightarrow> fw" where
  "rp_put off d s = s\<lparr>root_page := splice (root_page s) off d\<rparr>"

definition crypt_addr :: "crypt_page \<Rightarrow> nat" where
  "crypt_addr p = (case p of Crypt_data1 \<Rightarrow> 0x8000000 | Crypt_data2 \<Rightarrow> 0x8004000)"

section \<open>Checksums\<close>

definition crc_32 :: "env \<Rightarrow> bytes \<Rightarrow> u32" where
  "crc_32 E d = NOT (env_hal_crc E d)"

definition compute_device_data_crc :: "env \<Rightarrow> bytes \<Rightarrow> u32 option" where
  "compute_device_data_crc E d = map_option (crc_32 E) (read_from d 4 (ROOT_PAGE_SIZE - 4))"

section \<open>The eMMC scheduler\<close>

definition emmc_block_addr :: "nat \<Rightarrow> nat" where
  "emmc_block_addr idx = (idx - MIN_DATA_BLOCK + 37) * 32"

definition emmc_user_db_start :: "fw \<Rightarrow> fw" where
  "emmc_user_db_start s =
     (case g_db_action s of
        DB_ACTION_READ \<Rightarrow> put_out (Out_mmc_read (emmc_block_addr (g_db_read_idx s)) (g_db_read_dest s)) s
      | DB_ACTION_WRITE \<Rightarrow> put_out (Out_mmc_write (emmc_block_addr (g_db_write_idx s)) (g_db_write_src s)) s
      | DB_ACTION_NONE \<Rightarrow> s)"

definition emmc_take :: "emmc_user \<Rightarrow> fw \<Rightarrow> fw" where
  "emmc_take u s = s\<lparr>g_emmc_user := u, g_emmc_user_ready := (g_emmc_user_ready s)(u := False)\<rparr>"

definition emmc_user_schedule :: "fw \<Rightarrow> fw" where
  "emmc_user_schedule s =
     (if g_emmc_user s = EMMC_USER_NONE then
        (if g_emmc_user_ready s EMMC_USER_DB then emmc_user_db_start (emmc_take EMMC_USER_DB s)
         else if g_emmc_user_ready s EMMC_USER_STORAGE
         then put_out Out_scsi_storage_start (emmc_take EMMC_USER_STORAGE s)
         else if g_emmc_user_ready s EMMC_USER_TEST then emmc_take EMMC_USER_TEST s
         else s)
      else s)"

definition emmc_user_done :: "fw \<Rightarrow> fw" where
  "emmc_user_done s = emmc_user_schedule (s\<lparr>g_emmc_user := EMMC_USER_NONE\<rparr>)"

definition emmc_user_queue :: "emmc_user \<Rightarrow> action" where
  "emmc_user_queue u s =
     (if g_emmc_user_ready s u then None
      else Some (emmc_user_schedule (s\<lparr>g_emmc_user_ready := (g_emmc_user_ready s)(u := True)\<rparr>)))"

section \<open>The root block\<close>

definition sync_root_block :: "fw \<Rightarrow> fw" where
  "sync_root_block s = BEGIN_WORK SYNC_ROOT_BLOCK_WORK (s\<lparr>g_root_block_sync_state := ROOT_BLOCK_MODIFIED\<rparr>)"

definition sync_root_block_pending :: "fw \<Rightarrow> bool" where
  "sync_root_block_pending s \<longleftrightarrow> g_root_block_sync_state s \<noteq> ROOT_BLOCK_SYNCED"

definition sync_root_block_writing :: "fw \<Rightarrow> bool" where
  "sync_root_block_writing s \<longleftrightarrow> g_root_block_sync_state s = ROOT_BLOCK_WRITING"

text \<open>
  \<open>write_root_block\<close> stamps the iteration number and the checksum into the caller's buffer,
  then writes it over the copy that is not current. The iteration number is a \<open>u16\<close>.
\<close>

definition next_crypt_page :: "crypt_page option \<Rightarrow> crypt_page" where
  "next_crypt_page p =
     (case p of Some Crypt_data1 \<Rightarrow> Crypt_data2 | Some Crypt_data2 \<Rightarrow> Crypt_data1 | None \<Rightarrow> Crypt_data1)"

definition write_root_block :: "env \<Rightarrow> buf \<Rightarrow> nat \<Rightarrow> action" where
  "write_root_block E data sz s = do {
     it \<leftarrow> (if g_root_page_valid s then
              (case root_page_ptr s of
                 None \<Rightarrow> None
               | Some p \<Rightarrow> Some (rd16 (flash_read (crypt_addr p + RP_DATA_ITERATION) 2 s) 0 + 1))
            else Some 0);
     d \<leftarrow> memcpy_to (buf_get data s) RP_DATA_ITERATION (le16 it);
     crc \<leftarrow> compute_device_data_crc E d;
     d \<leftarrow> memcpy_to d RP_CRC (le32 (unat crc));
     let s = buf_put data d s;
     let p = next_crypt_page (root_page_ptr s);
     let s = s\<lparr>root_page_ptr := Some p\<rparr>;
     flash_write_page (crypt_addr p) data (int sz) s
   }"

definition sync_root_block_immediate :: "env \<Rightarrow> action" where
  "sync_root_block_immediate E s =
     write_root_block E Buf_root_page ROOT_PAGE_SIZE (s\<lparr>g_root_block_sync_state := ROOT_BLOCK_WRITING\<rparr>)"

section \<open>Block transfers\<close>

text \<open>\<open>complete\<close> is \<open>read_block_complete\<close>, called at once when the root block is read.\<close>

definition read_data_block :: "action \<Rightarrow> nat \<Rightarrow> buf \<Rightarrow> action" where
  "read_data_block complete idx dest s =
     (if idx = ROOT_DATA_BLOCK then
        (case root_page_ptr s of
           None \<Rightarrow> None
         | Some p \<Rightarrow> complete (buf_put dest (flash_read (crypt_addr p) BLK_SIZE s) s))
      else emmc_user_queue EMMC_USER_DB
             (s\<lparr>g_db_action := DB_ACTION_READ, g_db_read_idx := idx, g_db_read_dest := dest\<rparr>))"

definition invalidate_data_block_cache :: "nat \<Rightarrow> fw \<Rightarrow> fw" where
  "invalidate_data_block_cache idx s =
     (if idx = block_read_cache_idx s then s\<lparr>block_read_cache_idx := 65535\<rparr> else s)"

definition write_data_block :: "env \<Rightarrow> nat \<Rightarrow> buf \<Rightarrow> action" where
  "write_data_block E idx src s =
     (let s = invalidate_data_block_cache idx s
      in if idx = ROOT_DATA_BLOCK then write_root_block E src BLK_SIZE s
         else emmc_user_queue EMMC_USER_DB
                (s\<lparr>g_db_action := DB_ACTION_WRITE, g_db_write_idx := idx, g_db_write_src := src\<rparr>))"

text \<open>The HAL's completion callbacks.\<close>

definition HAL_MMC_RxCpltCallback :: "fw \<Rightarrow> fw" where
  "HAL_MMC_RxCpltCallback s = BEGIN_WORK MMC_RX_CPLT_WORK (s\<lparr>g_mmc_rx_cplt := True\<rparr>)"

definition MMC_DMATXTransmitComplete :: "fw \<Rightarrow> fw" where
  "MMC_DMATXTransmitComplete s = BEGIN_WORK MMC_TX_DMA_CPLT_WORK (s\<lparr>g_mmc_tx_dma_cplt := True\<rparr>)"

definition HAL_MMC_TxCpltCallback :: "fw \<Rightarrow> fw" where
  "HAL_MMC_TxCpltCallback s = BEGIN_WORK MMC_TX_CPLT_WORK (s\<lparr>g_mmc_tx_cplt := True\<rparr>)"

definition HAL_MMC_ErrorCallback :: action where
  "HAL_MMC_ErrorCallback s = None"

definition HAL_MMC_AbortCallback :: action where
  "HAL_MMC_AbortCallback s = None"

section \<open>Who owns the device\<close>

definition request_device :: "command_subsystem \<Rightarrow> fw \<Rightarrow> bool \<times> fw" where
  "request_device system s =
     (if s_device_system_owner s = system then (True, s)
      else if s_device_system_owner s = NO_SUBSYSTEM \<and> (system \<noteq> CTAP_SUBSYSTEM \<or> g_ctap_initialized s)
      then (True, s\<lparr>s_device_system_owner := system\<rparr>)
      else case system of
             SIGNET_SUBSYSTEM \<Rightarrow> (False, s\<lparr>s_signet_subsystem_waiting := True\<rparr>)
           | CTAP_SUBSYSTEM \<Rightarrow> (False, s\<lparr>s_ctap_subsystem_waiting := True\<rparr>)
           | _ \<Rightarrow> (False, s))"

definition release_device :: "(fw \<Rightarrow> (int \<times> fw) option) \<Rightarrow> command_subsystem \<Rightarrow> action" where
  "release_device restart system s =
     (if s_ctap_subsystem_waiting s \<and> system \<noteq> CTAP_SUBSYSTEM \<and> g_ctap_initialized s
      then Some (put_out Out_ctap_idle
             (s\<lparr>s_ctap_subsystem_waiting := False, s_device_system_owner := CTAP_SUBSYSTEM\<rparr>))
      else if s_signet_subsystem_waiting s \<and> system \<noteq> SIGNET_SUBSYSTEM then do {
        (r, s) \<leftarrow> restart (s\<lparr>s_signet_subsystem_waiting := False, s_device_system_owner := SIGNET_SUBSYSTEM\<rparr>);
        Some (if r = 0 then USBD_HID_rx_resume INTERFACE_CMD s else s)
      } else Some (s\<lparr>s_device_system_owner := NO_SUBSYSTEM\<rparr>))"

definition release_device_request :: "(fw \<Rightarrow> (int \<times> fw) option) \<Rightarrow> command_subsystem \<Rightarrow> fw \<Rightarrow> (bool \<times> fw) option" where
  "release_device_request restart system s =
     (if system \<noteq> s_device_system_owner s then Some (False, s)
      else if g_root_block_sync_state s \<noteq> ROOT_BLOCK_SYNCED
      then Some (False, s\<lparr>s_subsystem_release_requested := True\<rparr>)
      else map_option (\<lambda>s. (True, s)) (release_device restart system s))"

lemma release_device_request_restart:
  "release_device_request f SIGNET_SUBSYSTEM s = release_device_request g SIGNET_SUBSYSTEM s"
  by (simp add: release_device_request_def release_device_def)

definition subsystem_idle_check :: action where
  "subsystem_idle_check s =
     (if active_cmd s = -1 \<and> n_progress_components s = 0
      then map_option snd (release_device_request (\<lambda>_. None) SIGNET_SUBSYSTEM s)
      else Some s)"

section \<open>Responses and progress\<close>

text \<open>A null \<open>payload\<close> still counts with its length, the bytes sent are then stale.\<close>

definition finish_command_multi :: "command_responses \<Rightarrow> int \<Rightarrow> bytes option \<Rightarrow> nat \<Rightarrow> action" where
  "finish_command_multi resp remaining payload payload_len s = do {
     let full_length = payload_len + CMD_PACKET_HEADER_SIZE;
     r \<leftarrow> memcpy_to (cmd_resp s) 0
           [word_of_nat full_length, word_of_nat (full_length div 256), word_of_nat (resp_code resp),
            lo8 remaining, hi8 remaining, word_of_nat (ds_code (g_device_state s))];
     r \<leftarrow> (case payload of
            None \<Rightarrow> Some r
          | Some p \<Rightarrow> do { d \<leftarrow> read_from p 0 payload_len; memcpy_to r CMD_PACKET_HEADER_SIZE d });
     let s = s\<lparr>cmd_resp := r\<rparr>;
     let s = (if remaining = 0 \<and> cmd_messages_remaining s = 0 then s\<lparr>active_cmd := -1\<rparr> else s);
     s \<leftarrow> cmd_packet_send full_length s;
     subsystem_idle_check s
   }"

definition finish_command :: "command_responses \<Rightarrow> bytes option \<Rightarrow> nat \<Rightarrow> action" where
  "finish_command resp payload payload_len = finish_command_multi resp 0 payload payload_len"

definition finish_command_resp :: "command_responses \<Rightarrow> action" where
  "finish_command_resp resp = finish_command resp None 0"

definition get_total_progress :: "fw \<Rightarrow> int" where
  "get_total_progress s = (\<Sum>i\<leftarrow>[0..<n_progress_components s]. g_progress_level s i)"

definition get_total_progress_maximum :: "fw \<Rightarrow> int" where
  "get_total_progress_maximum s = (\<Sum>i\<leftarrow>[0..<n_progress_components s]. progress_maximum s i)"

definition progress_pair :: "int \<Rightarrow> int \<Rightarrow> bytes" where
  "progress_pair a b = [lo8 a, hi8 a, lo8 b, hi8 b]"

definition get_progress_check :: action where
  "get_progress_check s =
     (if active_cmd s = GET_PROGRESS then
        (let total_progress = get_total_progress s;
             total_progress_maximum = get_total_progress_maximum s
         in if g_progress_target_state s = int (ds_code (g_device_state s)) \<and> total_progress > g_progress_check s then
              (if n_progress_components s \<le> 8
               then finish_command OKAY
                      (Some (progress_pair total_progress total_progress_maximum
                         @ concat (map (\<lambda>i. progress_pair (g_progress_level s i) (progress_maximum s i))
                                     [0..<n_progress_components s])))
                      ((n_progress_components s + 1) * 4) s
               else None)
            else if g_progress_target_state s \<noteq> int (ds_code (g_device_state s))
            then finish_command_resp INVALID_STATE s
            else Some s)
      else Some s)"

definition enter_progressing_state :: "device_state \<Rightarrow> int list \<Rightarrow> action" where
  "enter_progressing_state state maxima s = do {
     let s = put_out (Out_scsi_state state) (s\<lparr>g_device_state := state\<rparr>);
     let n = length maxima;
     let s = s\<lparr>g_progress_check := 0, n_progress_components := n,
               g_progress_level := (\<lambda>i. if i < n then 0 else g_progress_level s i),
               progress_maximum := (\<lambda>i. if i < n then maxima ! i else progress_maximum s i)\<rparr>;
     s \<leftarrow> get_progress_check s;
     subsystem_idle_check s
   }"

definition enter_state :: "device_state \<Rightarrow> action" where
  "enter_state state = enter_progressing_state state []"

section \<open>Waiting for the button\<close>

definition begin_button_press_wait :: "fw \<Rightarrow> fw" where
  "begin_button_press_wait s = start_blinking 500 10000 (s\<lparr>waiting_for_button_press := True\<rparr>)"

definition begin_long_button_press_wait :: "fw \<Rightarrow> fw" where
  "begin_long_button_press_wait s = start_blinking 1000 10000 (s\<lparr>waiting_for_long_button_press := True\<rparr>)"

definition end_button_press_wait :: "fw \<Rightarrow> fw" where
  "end_button_press_wait s = stop_blinking (s\<lparr>waiting_for_button_press := False\<rparr>)"

definition end_long_button_press_wait :: "fw \<Rightarrow> fw" where
  "end_long_button_press_wait s = stop_blinking (s\<lparr>waiting_for_long_button_press := False\<rparr>)"

definition blink_timeout :: action where
  "blink_timeout s =
     (if waiting_for_button_press s \<or> waiting_for_long_button_press s
      then finish_command_resp BUTTON_PRESS_TIMEOUT (end_long_button_press_wait (end_button_press_wait s))
      else Some s)"

section \<open>Initialisation vectors\<close>

definition derive_iv :: "nat \<Rightarrow> fw \<Rightarrow> bytes option" where
  "derive_iv n s =
     (if rp_format s = ROOT_BLOCK_FORMAT_CURRENT then
        (let iv = rp_get RP_DEVICE_ID 16 s; w = rd32 iv 12
         in if rp_db_format s = DB_FORMAT_CURRENT then Some (splice iv 12 (le32 (w + n)))
            else if rp_db_format s = DB_FORMAT_2 then Some (splice iv 12 (le32 (w + n mod 256)))
            else None)
      else None)"

section \<open>The keyboard: \<open>usb_keyboard.c\<close>\<close>

definition usb_keyboard_typing_done :: action where
  "usb_keyboard_typing_done s = do {
     s \<leftarrow> (if active_cmd s = TYPE_CMD then finish_command_resp OKAY s else Some s);
     Some (if g_device_state s = DS_DISCONNECTED then s\<lparr>cleartext_pass_typing := False\<rparr> else s)
   }"

text \<open>The number of characters is a \<open>u8\<close>: the caller's count is converted.\<close>

definition usb_keyboard_type :: "buf \<Rightarrow> nat \<Rightarrow> action" where
  "usb_keyboard_type chars n_int s =
     (let n = n_int mod 256
      in if g_typing s then Some s
         else if n = 0 then usb_keyboard_typing_done s
         else do {
           let s = BEGIN_WORK KEYBOARD_WORK
                     (s\<lparr>kb_n_chars := n, kb_chars := chars, kb_char_pos := 0, g_typing := True\<rparr>);
           s \<leftarrow> usb_send_bytes INTERFACE_KEYBOARD (Tx_chars chars 0) 2 s;
           Some (s\<lparr>ms_type := now s, char_pos_to_type := -1, kb_char_pos := (kb_char_pos s + 1) mod 256\<rparr>)
         })"

definition usb_keyboard_idle_ready :: "fw \<Rightarrow> bool" where
  "usb_keyboard_idle_ready s = g_typing s"

definition usb_keyboard_idle :: action where
  "usb_keyboard_idle s =
     (if g_typing s \<and> char_pos_to_type s \<ge> 0 \<and> now s > ms_type s + 25 then do {
        s \<leftarrow> usb_send_bytes INTERFACE_KEYBOARD (Tx_chars (kb_chars s) (nat (char_pos_to_type s) * 4)) 2 s;
        Some (s\<lparr>ms_type := now s, char_pos_to_type := -1, kb_char_pos := (kb_char_pos s + 1) mod 256\<rparr>)
      } else Some s)"

definition usb_tx_keyboard :: action where
  "usb_tx_keyboard s =
     (if g_typing s then
        (if kb_char_pos s = kb_n_chars s
         then usb_keyboard_typing_done (END_WORK KEYBOARD_WORK (s\<lparr>g_typing := False\<rparr>))
         else Some (s\<lparr>char_pos_to_type := int (kb_char_pos s)\<rparr>))
      else Some s)"

end
