(* ===== verification/Db.thy ===== *)
theory Db
  imports Fw_Base Host_Codec
begin

text \<open>
  \<open>firmware-hc/db.c\<close>: the password database. A block of 16 KiB holds a header (CRC, partition
  size, occupancy), a directory of 6-byte entries and equally sized partitions; a record is
  stored CBC-encrypted in one partition. \<open>g_block_info_tbl\<close> caches the headers and
  \<open>uid_map\<close> the block of each record; one block at a time is cached in \<open>block_read_cache\<close>.

  Every caller of \<open>update_uid\<close>, \<open>allocate_uid\<close> and \<open>deallocate_uid\<close> passes the scratch block
  and block info of \<open>cmd_data.update_uid\<close>, so these are used directly; the block numbers the
  functions return through pointers are results.
\<close>

datatype update_uid_status =
  UPDATE_UID_SUCCESS | UPDATE_UID_NO_SPACE | UPDATE_UID_INVALID | UPDATE_UID_DATA_LOADING

section \<open>Blocks\<close>

abbreviation (input) MAX_PART_SIZE :: nat where "MAX_PART_SIZE \<equiv> 1023"

definition blk_part_size :: "bytes \<Rightarrow> nat" where "blk_part_size b = rd16 b 4"

definition blk_occupancy :: "bytes \<Rightarrow> nat" where "blk_occupancy b = rd16 b 6"

definition blk_set_header :: "nat \<Rightarrow> nat \<Rightarrow> bytes \<Rightarrow> bytes" where
  "blk_set_header psz occ b = splice b 4 (le16 psz @ le16 occ)"

text \<open>
  A directory entry: 12 bits uid, 2 bits revision, 1 bit \<open>first\<close>, 1 bit padding, then the size
  and the next block. The occupancy bound of 255 keeps every entry read inside the block.
\<close>

definition ent_off :: "nat \<Rightarrow> nat" where "ent_off j = 8 + 6 * j"

definition ent_uid :: "bytes \<Rightarrow> nat \<Rightarrow> nat" where "ent_uid b j = rd16 b (ent_off j) mod 4096"

definition ent_rev :: "bytes \<Rightarrow> nat \<Rightarrow> nat" where "ent_rev b j = rd16 b (ent_off j) div 4096 mod 4"

definition ent_first :: "bytes \<Rightarrow> nat \<Rightarrow> bool" where "ent_first b j \<longleftrightarrow> rd16 b (ent_off j) div 16384 mod 2 = 1"

definition ent_sz :: "bytes \<Rightarrow> nat \<Rightarrow> nat" where "ent_sz b j = rd16 b (ent_off j + 2)"

definition ent_write :: "nat \<Rightarrow> nat \<Rightarrow> nat \<Rightarrow> nat \<Rightarrow> bytes \<Rightarrow> bytes option" where
  "ent_write j uid sz rv b = do {
     old \<leftarrow> map_option (\<lambda>d. rd16 d 0) (read_from b (ent_off j) 2);
     let info = uid mod 4096 + 4096 * (rv mod 4) + 16384 + 32768 * (old div 32768);
     memcpy_to b (ent_off j) (le16 info @ le16 sz @ le16 INVALID_BLOCK)
   }"

definition block_crc :: "env \<Rightarrow> bytes \<Rightarrow> u32" where
  "block_crc E b = crc_32 E (slice b 4 (BLK_SIZE - 4))"

definition blk_set_crc :: "u32 \<Rightarrow> bytes \<Rightarrow> bytes" where
  "blk_set_crc c b = splice b 0 (le32 (unat c))"

definition block_crc_check :: "env \<Rightarrow> bytes \<Rightarrow> bool" where
  "block_crc_check E b =
     (if blk_part_size b = INVALID_PART_SIZE then False else unat (block_crc E b) = rd32 b 0)"

definition get_block_header_size :: "nat \<Rightarrow> nat" where
  "get_block_header_size part_count = SUB_BLK_COUNT (8 + 6 * part_count)"

fun part_count_loop :: "nat \<Rightarrow> nat \<Rightarrow> nat" where
  "part_count_loop part_size 0 = 0"
| "part_count_loop part_size (Suc c) =
     (if get_block_header_size (Suc c) + Suc c * part_size > 1024 then part_count_loop part_size c else Suc c)"

text \<open>Defined in C for positive partition sizes.\<close>

definition get_part_count :: "nat \<Rightarrow> nat" where
  "get_part_count part_size = part_count_loop part_size (1024 div part_size)"

definition get_part :: "block_info \<Rightarrow> nat \<Rightarrow> nat" where
  "get_part info n = (bi_part_tbl_offs info + bi_part_size info * n) * SUB_BLK_SIZE"

definition initialize_block :: "nat \<Rightarrow> bytes" where
  "initialize_block part_size = blk_set_header part_size 0 (replicate BLK_SIZE 0)"

definition db3_initialize_block :: "env \<Rightarrow> bytes" where
  "db3_initialize_block E = (let b = initialize_block MAX_PART_SIZE in blk_set_crc (block_crc E b) b)"

section \<open>The block cache\<close>

definition get_cached_data_block :: "nat \<Rightarrow> fw \<Rightarrow> (bool \<times> fw) option" where
  "get_cached_data_block idx s =
     (if block_read_cache_idx s = idx then Some (True, s)
      else map_option (\<lambda>s. (False, s))
             (read_data_block (\<lambda>_. None) idx Buf_read_cache
                (s\<lparr>block_read_cache_idx := idx mod 65536, block_read_cache_updating := True\<rparr>)))"

text \<open>
  \<open>find_uid\<close>: the record is not mapped; its block is being loaded; it is entry \<open>j\<close> of the
  cached block; or its block does not hold it (\<open>*ent\<close> is null then). The block number is
  \<open>uid_map[uid]\<close> in every case.
\<close>

datatype find_result = Find_unmapped | Find_loading | Find_found nat | Find_missing

definition find_uid :: "nat \<Rightarrow> fw \<Rightarrow> (find_result \<times> nat \<times> fw) option" where
  "find_uid uid s =
     (if uid > MAX_UID then None
      else let block_num = uid_map s uid in
        if block_num = INVALID_BLOCK then Some (Find_unmapped, block_num, s)
        else do {
          (cached, s) \<leftarrow> get_cached_data_block block_num s;
          if \<not> cached then Some (Find_loading, block_num, s)
          else case find (\<lambda>j. ent_uid (block_read_cache s) j = uid)
                      [0..<bi_part_occupancy (g_block_info_tbl s block_num)] of
                 Some j \<Rightarrow> Some (Find_found j, block_num, s)
               | None \<Rightarrow> Some (Find_missing, block_num, s)
        })"

section \<open>Allocation\<close>

definition find_free_block :: "fw \<Rightarrow> nat" where
  "find_free_block s =
     (case find (\<lambda>i. bi_valid (g_block_info_tbl s i) \<and> \<not> bi_occupied (g_block_info_tbl s i))
             [MIN_DATA_BLOCK..<MAX_DATA_BLOCK + 1] of
        Some i \<Rightarrow> i | None \<Rightarrow> INVALID_BLOCK)"

definition upd_update :: "(update_data \<Rightarrow> update_data) \<Rightarrow> fw \<Rightarrow> fw" where
  "upd_update f s = s\<lparr>d_update := f (d_update s)\<rparr>"

definition allocate_uid_blk :: "env \<Rightarrow> nat \<Rightarrow> nat \<Rightarrow> nat \<Rightarrow> action" where
  "allocate_uid_blk E uid sz rv s = do {
     let u = d_update s;
     let index = bi_part_occupancy (up_blk_info u);
     let info = (up_blk_info u)\<lparr>bi_part_occupancy := (index + 1) mod 256, bi_occupied := True, bi_valid := True\<rparr>;
     let b = blk_set_header (blk_part_size (up_block u)) (blk_occupancy (up_block u) + 1) (up_block u);
     b \<leftarrow> ent_write index uid sz rv b;
     let blk_count = SIZE_TO_SUB_BLK_COUNT sz;
     din \<leftarrow> read_from (up_entry u) 0 (blk_count * SUB_BLK_SIZE);
     b \<leftarrow> memcpy_to b (get_part info index)
            (signet_aes_256_encrypt_cbc (env_nettle E) (g_encrypt_key s) blk_count (Some (up_iv u)) din);
     Some (upd_update (\<lambda>u. u\<lparr>up_blk_info := info, up_block := b\<rparr>) s)
   }"

text \<open>The first block with partitions of the right size and a free one.\<close>

definition alloc_exact :: "nat \<Rightarrow> fw \<Rightarrow> nat option" where
  "alloc_exact part_size s =
     find (\<lambda>i. let b = g_block_info_tbl s i in
             bi_valid b \<and> bi_occupied b \<and> bi_part_size b = part_size \<and> bi_part_occupancy b < bi_part_count b)
       [MIN_DATA_BLOCK..<MAX_DATA_BLOCK + 1]"

text \<open>The last resort loop: the block with the smallest partitions that are large enough.\<close>

definition alloc_larger_step :: "nat \<Rightarrow> fw \<Rightarrow> nat \<Rightarrow> nat \<times> nat \<Rightarrow> nat \<times> nat" where
  "alloc_larger_step part_size s i acc =
     (let (block_num, found_part_size) = acc; b = g_block_info_tbl s i
      in if bi_valid b \<and> bi_occupied b \<and> bi_part_size b \<ge> part_size \<and> bi_part_size b < found_part_size
            \<and> bi_part_occupancy b < bi_part_count b
         then (i, bi_part_size b) else acc)"

definition alloc_larger :: "nat \<Rightarrow> fw \<Rightarrow> nat" where
  "alloc_larger part_size s =
     fst (fold (alloc_larger_step part_size s) [MIN_DATA_BLOCK..<MAX_DATA_BLOCK + 1] (INVALID_BLOCK, BLK_SIZE))"

text \<open>
  \<open>allocate_uid\<close>. The last test of the code compares the pointer \<open>block_num\<close> with
  \<open>INVALID_BLOCK\<close> and is always true, so the branch that returns \<open>UPDATE_UID_NO_SPACE\<close> is dead.
\<close>

definition allocate_uid :: "env \<Rightarrow> nat \<Rightarrow> nat \<Rightarrow> nat \<Rightarrow> fw \<Rightarrow> (update_uid_status \<times> nat \<times> fw) option" where
  "allocate_uid E uid sz rv s = do {
     let part_size = MAX_PART_SIZE;
     let (block_num, allocating, s) =
       (case alloc_exact part_size s of
          Some i \<Rightarrow> (i, False, upd_update (\<lambda>u. u\<lparr>up_blk_info := g_block_info_tbl s i\<rparr>) s)
        | None \<Rightarrow>
            (let i = find_free_block s in
             if i \<noteq> INVALID_BLOCK
             then (i, True, upd_update (\<lambda>u. u\<lparr>up_block := initialize_block part_size,
                      up_blk_info := (up_blk_info u)\<lparr>bi_part_occupancy := 0, bi_part_size := part_size,
                         bi_part_count := get_part_count part_size mod 256,
                         bi_part_tbl_offs := get_block_header_size (get_part_count part_size mod 256)\<rparr>\<rparr>) s)
             else (let i = alloc_larger part_size s in
                   (i, False, if i \<noteq> INVALID_BLOCK
                              then upd_update (\<lambda>u. u\<lparr>up_blk_info := g_block_info_tbl s i\<rparr>) s else s))));
     (ready, s) \<leftarrow>
       (if block_num \<noteq> INVALID_BLOCK \<and> \<not> allocating then do {
          (cached, s) \<leftarrow> get_cached_data_block block_num s;
          Some (cached, if cached then upd_update (\<lambda>u. u\<lparr>up_block := block_read_cache s\<rparr>) s else s)
        } else Some (True, s));
     if \<not> ready then Some (UPDATE_UID_DATA_LOADING, block_num, s)
     else map_option (\<lambda>s. (UPDATE_UID_SUCCESS, block_num, s)) (allocate_uid_blk E uid sz rv s)
   }"

definition deallocate_uid :: "nat \<Rightarrow> bool \<Rightarrow> fw \<Rightarrow> (update_uid_status \<times> nat \<times> fw) option" where
  "deallocate_uid uid deallocate_block s = do {
     (r, block_num, s) \<leftarrow> find_uid uid s;
     case r of
       Find_unmapped \<Rightarrow> Some (UPDATE_UID_INVALID, block_num, s)
     | Find_missing \<Rightarrow> Some (UPDATE_UID_INVALID, block_num, s)
     | Find_loading \<Rightarrow> Some (UPDATE_UID_DATA_LOADING, block_num, s)
     | Find_found index \<Rightarrow> do {
         let info = g_block_info_tbl s block_num;
         if bi_part_occupancy info = 1 \<and> deallocate_block then
           Some (UPDATE_UID_SUCCESS, block_num,
             upd_update (\<lambda>u. u\<lparr>up_blk_info := info\<lparr>bi_valid := True, bi_occupied := False\<rparr>,
                 up_block := blk_set_crc (-1) (blk_set_header INVALID_PART_SIZE 0 (up_block u))\<rparr>) s)
         else do {
           let info = info\<lparr>bi_part_occupancy := (bi_part_occupancy info + 255) mod 256\<rparr>;
           let b = block_read_cache s;
           let occ = (blk_occupancy b + 65535) mod 65536;
           let b = blk_set_header (blk_part_size b) occ b;
           b \<leftarrow> (if occ \<noteq> 0 then do {
                   p \<leftarrow> read_from b (get_part info (bi_part_occupancy info)) (bi_part_size info * SUB_BLK_SIZE);
                   b \<leftarrow> memcpy_to b (get_part info index) p;
                   e \<leftarrow> read_from b (ent_off (bi_part_occupancy info)) 6;
                   memcpy_to b (ent_off index) e
                 } else Some b);
           Some (UPDATE_UID_SUCCESS, block_num, upd_update (\<lambda>u. u\<lparr>up_blk_info := info, up_block := b\<rparr>) s)
         }
       }
   }"

section \<open>Updating a record\<close>

text \<open>The results: status, \<open>*prev_block_num\<close> and \<open>*next_block_num\<close>.\<close>

definition update_uid :: "env \<Rightarrow> nat \<Rightarrow> nat \<Rightarrow> fw \<Rightarrow> (update_uid_status \<times> nat \<times> nat \<times> fw) option" where
  "update_uid E uid sz s =
     (let prev0 = up_prev_block_num (d_update s) in
      if sz = 0 then do {
        (rc, nb, s) \<leftarrow> deallocate_uid uid True s;
        Some (rc, INVALID_BLOCK, nb, s)
      } else do {
        (r, nb, s) \<leftarrow> find_uid uid s;
        case r of
          Find_loading \<Rightarrow> Some (UPDATE_UID_DATA_LOADING, prev0, nb, s)
        | Find_found index \<Rightarrow> do {
            let info = g_block_info_tbl s nb;
            let s = upd_update (\<lambda>u. u\<lparr>up_blk_info := info\<rparr>) s;
            if bi_part_size info = MAX_PART_SIZE then do {
              let s = upd_update (\<lambda>u. u\<lparr>up_block := block_read_cache s\<rparr>) s;
              (rc, prev, s) \<leftarrow> deallocate_uid uid False s;
              if rc \<noteq> UPDATE_UID_SUCCESS then Some (rc, prev, nb, s)
              else map_option (\<lambda>s. (UPDATE_UID_SUCCESS, prev, nb, s))
                     (allocate_uid_blk E uid sz (ent_rev (block_read_cache s) index) s)
            } else do {
              let new_rev = (ent_rev (block_read_cache s) index + 1) mod 4;
              (rc, nb', s) \<leftarrow> allocate_uid E uid sz new_rev s;
              Some (rc, nb, nb', s)
            }
          }
        | _ \<Rightarrow> do {
            (rc, nb, s) \<leftarrow> allocate_uid E uid sz 0 s;
            Some (rc, INVALID_BLOCK, nb, s)
          }
      })"

definition update_uid_cmd_complete :: "env \<Rightarrow> action" where
  "update_uid_cmd_complete E s = do {
     let u = d_update s;
     let s = (if bi_occupied (up_blk_info u)
              then upd_update (\<lambda>u. u\<lparr>up_block := blk_set_crc (block_crc E (up_block u)) (up_block u)\<rparr>) s else s);
     write_data_block E (up_block_num u) Buf_update_block s
   }"

definition update_uid_cmd_iter :: "env \<Rightarrow> action" where
  "update_uid_cmd_iter E s = do {
     (rc, prev, nb, s) \<leftarrow> update_uid E (up_uid (d_update s)) (up_entry_sz (d_update s)) s;
     let s = upd_update (\<lambda>u. u\<lparr>up_prev_block_num := prev, up_block_num := nb\<rparr>) s;
     case rc of
       UPDATE_UID_SUCCESS \<Rightarrow>
         (if up_press_type (d_update s) = 0 then update_uid_cmd_complete E s
          else if up_press_type (d_update s) = 1 then Some (begin_button_press_wait s)
          else Some (begin_long_button_press_wait s))
     | UPDATE_UID_NO_SPACE \<Rightarrow> finish_command_resp NOT_ENOUGH_SPACE s
     | _ \<Rightarrow> Some s
   }"

definition update_uid_cmd :: "env \<Rightarrow> nat \<Rightarrow> bytes \<Rightarrow> nat \<Rightarrow> nat \<Rightarrow> action" where
  "update_uid_cmd E uid data sz press_type s = do {
     iv \<leftarrow> derive_iv uid s;
     entry \<leftarrow> memcpy_to (up_entry (d_update s)) 0 data;
     update_uid_cmd_iter E
       (upd_update (\<lambda>u. u\<lparr>up_iv := iv, up_uid := uid, up_sz := sz, up_write_count := 0, up_press_type := press_type,
                        up_prev_block_num := INVALID_BLOCK, up_entry := entry, up_entry_sz := sz\<rparr>) s)
   }"

text \<open>The second write of a moved record goes to its old block, whose number may change.\<close>

definition set_block_info :: "nat \<Rightarrow> block_info \<Rightarrow> action" where
  "set_block_info i info s =
     (if i \<le> MAX_DATA_BLOCK then Some (s\<lparr>g_block_info_tbl := (g_block_info_tbl s)(i := info)\<rparr>) else None)"

definition set_uid_map :: "nat \<Rightarrow> nat \<Rightarrow> action" where
  "set_uid_map uid b s = (if uid \<le> MAX_UID then Some (s\<lparr>uid_map := (uid_map s)(uid := b)\<rparr>) else None)"

definition update_uid_cmd_write_finished :: "env \<Rightarrow> action" where
  "update_uid_cmd_write_finished E s = do {
     let s = upd_update (\<lambda>u. u\<lparr>up_write_count := up_write_count u + 1\<rparr>) s;
     let u = d_update s;
     if up_write_count u = 1 then do {
       s \<leftarrow> set_block_info (up_block_num u) (up_blk_info u) s;
       if up_prev_block_num u \<noteq> up_block_num u \<and> up_prev_block_num u \<noteq> INVALID_BLOCK then do {
         (_, prev, s) \<leftarrow> deallocate_uid (up_uid u) True s;
         let s = upd_update (\<lambda>u. u\<lparr>up_prev_block_num := prev,
                    up_block := blk_set_crc (block_crc E (up_block u)) (up_block u)\<rparr>) s;
         write_data_block E prev Buf_update_block s
       } else do {
         s \<leftarrow> set_uid_map (up_uid u) (if up_sz u = 0 then INVALID_BLOCK else up_block_num u mod 65536) s;
         finish_command_resp OKAY s
       }
     } else do {
       s \<leftarrow> set_block_info (up_prev_block_num u) (up_blk_info u) s;
       s \<leftarrow> set_uid_map (up_uid u) (up_block_num u mod 65536) s;
       finish_command_resp OKAY s
     }
   }"

section \<open>Reading records\<close>

text \<open>The decrypted sub-blocks of an entry of the cached block.\<close>

definition decode_uid :: "env \<Rightarrow> nat \<Rightarrow> nat \<Rightarrow> nat \<Rightarrow> nat \<Rightarrow> bytes \<Rightarrow> fw \<Rightarrow> bytes option" where
  "decode_uid E sz block_num index masked iv s = do {
     let blk_count = SIZE_TO_SUB_BLK_COUNT sz;
     din \<leftarrow> read_from (block_read_cache s) (get_part (g_block_info_tbl s block_num) index) (blk_count * SUB_BLK_SIZE);
     let d = signet_aes_256_decrypt_cbc (env_nettle E) (g_encrypt_key s) blk_count (Some iv) din;
     Some (if masked \<noteq> 0 then mask_uid_data d blk_count else d)
   }"

definition upd_read :: "(read_data \<Rightarrow> read_data) \<Rightarrow> fw \<Rightarrow> fw" where
  "upd_read f s = s\<lparr>d_read_uid := f (d_read_uid s)\<rparr>"

definition read_uid_cmd_complete :: "env \<Rightarrow> action" where
  "read_uid_cmd_complete E s = do {
     let s = upd_read (\<lambda>r. r\<lparr>ru_waiting_for_button_press := False\<rparr>) s;
     j \<leftarrow> ru_ent (d_read_uid s);
     b \<leftarrow> memcpy_to (ru_block (d_read_uid s)) 0 (le16 (ent_sz (block_read_cache s) j));
     let s = upd_read (\<lambda>r. r\<lparr>ru_block := b\<rparr>) s;
     (cached, s) \<leftarrow> get_cached_data_block (ru_block_num (d_read_uid s)) s;
     if \<not> cached then Some s
     else do {
       let r = d_read_uid s;
       let sz = ent_sz (block_read_cache s) j;
       d \<leftarrow> decode_uid E sz (ru_block_num r) (ru_index r) (ru_masked r) (ru_iv r) s;
       b \<leftarrow> memcpy_to (ru_block r) 2 d;
       finish_command OKAY (Some b) (SIZE_TO_SUB_BLK_COUNT sz * SUB_BLK_SIZE + 2)
         (upd_read (\<lambda>r. r\<lparr>ru_block := b\<rparr>) s)
     }
   }"

definition read_uid_cmd_iter :: "env \<Rightarrow> action" where
  "read_uid_cmd_iter E s = do {
     (r, nb, s) \<leftarrow> find_uid (ru_uid (d_read_uid s)) s;
     let s = upd_read (\<lambda>d. d\<lparr>ru_block_num := nb\<rparr>) s;
     case r of
       Find_unmapped \<Rightarrow> finish_command_resp ID_INVALID s
     | Find_missing \<Rightarrow> finish_command_resp ID_INVALID (upd_read (\<lambda>d. d\<lparr>ru_ent := None\<rparr>) s)
     | Find_loading \<Rightarrow> Some s
     | Find_found j \<Rightarrow> do {
         let s = upd_read (\<lambda>d. d\<lparr>ru_ent := Some j, ru_index := j, ru_waiting_for_button_press := (ru_masked d = 0)\<rparr>) s;
         if ru_masked (d_read_uid s) = 0 \<and> ru_waiting_for_button_press (d_read_uid s)
         then Some (begin_button_press_wait s)
         else read_uid_cmd_complete E s
       }
   }"

definition read_uid_cmd :: "env \<Rightarrow> nat \<Rightarrow> nat \<Rightarrow> action" where
  "read_uid_cmd E uid masked s = do {
     iv \<leftarrow> derive_iv uid s;
     read_uid_cmd_iter E
       (upd_read (\<lambda>r. r\<lparr>ru_uid := uid, ru_masked := masked, ru_waiting_for_button_press := False, ru_iv := iv\<rparr>) s)
   }"

text \<open>
  The loop that looks for the next mapped record. Its condition also reads \<open>uid_map[4096]\<close>,
  one past the end, before it tests the bound; the value read does not matter.
\<close>

definition next_mapped_uid :: "nat \<Rightarrow> fw \<Rightarrow> nat" where
  "next_mapped_uid uid s =
     (if uid > MAX_UID then uid
      else case find (\<lambda>u. uid_map s u \<noteq> INVALID_BLOCK) [uid..<MAX_UID + 1] of Some u \<Rightarrow> u | None \<Rightarrow> MAX_UID + 1)"

definition upd_read_all :: "(read_all_data \<Rightarrow> read_all_data) \<Rightarrow> fw \<Rightarrow> fw" where
  "upd_read_all f s = s\<lparr>d_read_all := f (d_read_all s)\<rparr>"

text \<open>
  \<open>read_all_uids_cmd_iter\<close>. A successful \<open>find_uid\<close> leaves a non-null entry, so the body of
  the \<open>do ... while (!ent)\<close> loop runs once.
\<close>

definition read_all_uids_cmd_iter :: "env \<Rightarrow> action" where
  "read_all_uids_cmd_iter E s = do {
     let uid = next_mapped_uid (ra_uid (d_read_all s)) s;
     let s = upd_read_all (\<lambda>r. r\<lparr>ra_uid := uid\<rparr>) s;
     if uid > MAX_UID then do {
       b \<leftarrow> memcpy_to (ra_block (d_read_all s)) 0 (le16 uid);
       finish_command_multi ID_INVALID 0 (Some b) 2 (upd_read_all (\<lambda>r. r\<lparr>ra_block := b\<rparr>) s)
     } else do {
       (r, nb, s) \<leftarrow> find_uid uid s;
       case r of
         Find_found j \<Rightarrow> do {
           let s = upd_read_all (\<lambda>r. r\<lparr>ra_expected_remaining := ra_expected_remaining r - 1\<rparr>) s;
           let sz = ent_sz (block_read_cache s) j;
           b \<leftarrow> memcpy_to (ra_block (d_read_all s)) 0 (le16 uid @ le16 sz);
           iv \<leftarrow> derive_iv uid s;
           d \<leftarrow> decode_uid E sz nb j (ra_masked (d_read_all s)) iv s;
           b \<leftarrow> memcpy_to b 4 d;
           finish_command_multi OKAY (ra_expected_remaining (d_read_all s)) (Some b)
             (SIZE_TO_SUB_BLK_COUNT sz * SUB_BLK_SIZE + 4)
             (upd_read_all (\<lambda>r. r\<lparr>ra_iv := iv, ra_block := b\<rparr>) s)
         }
       | _ \<Rightarrow> Some s
     }
   }"

definition read_all_uids_cmd_complete :: "env \<Rightarrow> action" where
  "read_all_uids_cmd_complete E s =
     read_all_uids_cmd_iter E (upd_read_all (\<lambda>r. r\<lparr>ra_uid := ra_uid r + 1\<rparr>) s)"

definition read_all_uids_cmd :: "env \<Rightarrow> nat \<Rightarrow> action" where
  "read_all_uids_cmd E masked s =
     (let n = length (filter (\<lambda>i. uid_map s i \<noteq> INVALID_BLOCK) [MIN_UID..<MAX_UID + 1]);
          s = upd_read_all (\<lambda>r. r\<lparr>ra_uid := 0, ra_masked := masked, ra_expected_remaining := int n\<rparr>) s
      in if masked = 0 then Some (begin_long_button_press_wait s) else read_all_uids_cmd_iter E s)"

section \<open>The scan at startup\<close>

text \<open>
  \<open>scan_block\<close> is the part of \<open>db3_startup_scan_resume\<close> that takes one block into the
  tables; the occupancy is stored in a \<open>u8\<close>.
\<close>

definition scan_info :: "env \<Rightarrow> bytes \<Rightarrow> block_info \<Rightarrow> block_info" where
  "scan_info E b old =
     (let psz = blk_part_size b;
          info = old\<lparr>bi_part_size := psz,
                     bi_valid := (block_crc_check E b \<or> psz = INVALID_PART_SIZE),
                     bi_occupied := (psz \<noteq> INVALID_PART_SIZE)\<rparr>
      in if bi_valid info \<and> bi_occupied info
         then info\<lparr>bi_part_occupancy := blk_occupancy b mod 256,
                   bi_part_count := get_part_count psz mod 256,
                   bi_part_tbl_offs := get_block_header_size (get_part_count psz mod 256)\<rparr>
         else info)"

definition scan_entry :: "bytes \<Rightarrow> nat \<Rightarrow> nat \<Rightarrow> (nat \<Rightarrow> nat) \<Rightarrow> nat \<Rightarrow> nat" where
  "scan_entry b i j m =
     (let uid = ent_uid b j
      in if uid \<ge> MIN_UID \<and> uid \<le> MAX_UID \<and> ent_first b j then m(uid := i mod 65536) else m)"

definition scan_block :: "env \<Rightarrow> bytes \<Rightarrow> nat \<Rightarrow> action" where
  "scan_block E b i s =
     (let info = scan_info E b (g_block_info_tbl s i)
      in if i > MAX_DATA_BLOCK \<or> (bi_valid info \<and> bi_occupied info \<and> bi_part_size info = 0) then None
         else Some (s\<lparr>g_block_info_tbl := (g_block_info_tbl s)(i := info),
                      uid_map := (if bi_valid info \<and> bi_occupied info
                                  then fold (scan_entry b i) [0..<bi_part_occupancy info] (uid_map s) else uid_map s)\<rparr>))"

definition db3_startup_scan_resume :: "env \<Rightarrow> action" where
  "db3_startup_scan_resume E s = do {
     s \<leftarrow> scan_block E (buf_get (db3_startup_scan_block_read s) s) (db3_startup_scan_blk_num s) s;
     let s = s\<lparr>db3_startup_scan_blk_num := db3_startup_scan_blk_num s + 1\<rparr>;
     if db3_startup_scan_blk_num s \<le> MAX_DATA_BLOCK
     then read_data_block (\<lambda>_. None) (db3_startup_scan_blk_num s) (db3_startup_scan_block_read s) s
     else do {
       let s = s\<lparr>db3_startup_scan_running := False\<rparr>;
       if active_cmd s = STARTUP then do {
         s \<leftarrow> enter_state DS_LOGGED_OUT s;
         let s = s\<lparr>d_startup := (d_startup s)\<lparr>st_resp :=
                    (st_resp (d_startup s))[3 := word_of_nat (ds_code (g_device_state s))]\<rparr>\<rparr>;
         finish_command OKAY (Some (st_resp (d_startup s))) STARTUP_RESP_SIZE s
       } else if g_device_state s = DS_INITIALIZING then enter_state DS_LOGGED_OUT s
       else Some s
     }
   }"

definition db3_startup_scan :: "buf \<Rightarrow> action" where
  "db3_startup_scan block_read s =
     (let s = s\<lparr>uid_map := (\<lambda>u. if MIN_UID \<le> u \<and> u \<le> MAX_UID then INVALID_BLOCK else uid_map s u),
                db3_startup_scan_running := True,
                db3_startup_scan_block_read := block_read,
                db3_startup_scan_blk_num := MIN_DATA_BLOCK\<rparr>
      in read_data_block (\<lambda>_. None) MIN_DATA_BLOCK block_read s)"

section \<open>Completion of transfers\<close>

text \<open>The boolean is the C return value: whether the database code handled the completion.\<close>

definition db3_read_dispatch :: "env \<Rightarrow> fw \<Rightarrow> (bool \<times> fw) option" where
  "db3_read_dispatch E s =
     (if g_device_state s = DS_INITIALIZING then map_option (\<lambda>s. (True, s)) (db3_startup_scan_resume E s)
      else if active_cmd s = STARTUP then map_option (\<lambda>s. (True, s)) (db3_startup_scan_resume E s)
      else Some (False, s))"

definition db3_read_block_complete :: "env \<Rightarrow> fw \<Rightarrow> (bool \<times> fw) option" where
  "db3_read_block_complete E s =
     (if block_read_cache_updating s then
        (let s = s\<lparr>block_read_cache_updating := False\<rparr>
         in if active_cmd s = UPDATE_UID \<or> active_cmd s = UPDATE_UIDS
            then map_option (\<lambda>s. (True, s)) (update_uid_cmd_iter E s)
            else if active_cmd s = READ_UID then map_option (\<lambda>s. (True, s)) (read_uid_cmd_iter E s)
            else if active_cmd s = READ_ALL_UIDS then map_option (\<lambda>s. (True, s)) (read_all_uids_cmd_iter E s)
            else db3_read_dispatch E s)
      else db3_read_dispatch E s)"

definition db3_write_block_complete :: "env \<Rightarrow> fw \<Rightarrow> (bool \<times> fw) option" where
  "db3_write_block_complete E s =
     (if active_cmd s = UPDATE_UIDS \<or> active_cmd s = UPDATE_UID
      then map_option (\<lambda>s. (True, s)) (update_uid_cmd_write_finished E s)
      else Some (False, s))"

end
