(* ===== verification/Fw_Update.thy ===== *)
theory Fw_Update
  imports Fw_Base
begin

text \<open>
  \<open>firmware-hc/firmware_update_state.c\<close> and \<open>bootloader_state.c\<close>: writing new firmware into
  the boot area that is not running, and switching to it. \<open>data\<close> is the memory from the
  payload of the command to the end of \<open>cmd_packet_buf\<close>, \<open>data_len\<close> the length the packet
  claims, possibly negative. A state function returns 0, or -1 for a command it does not know.
\<close>

abbreviation (input) BOOT_AREA_A :: nat where "BOOT_AREA_A \<equiv> 0x8008000"
abbreviation (input) BOOT_AREA_B :: nat where "BOOT_AREA_B \<equiv> 0x8020000"
abbreviation (input) HC_BOOT_AREA_A_LEN :: nat where "HC_BOOT_AREA_A_LEN \<equiv> 98304"
abbreviation (input) HC_BOOT_AREA_B_LEN :: nat where "HC_BOOT_AREA_B_LEN \<equiv> 393216"
abbreviation (input) FIRMWARE_INFO_SIZE :: nat where "FIRMWARE_INFO_SIZE \<equiv> 80"

text \<open>The comparison with \<open>sizeof\<close> is unsigned: a negative length passes it.\<close>

definition update_firmware_cmd :: "bytes \<Rightarrow> int \<Rightarrow> action" where
  "update_firmware_cmd data data_len s =
     (if to_unsigned data_len < FIRMWARE_INFO_SIZE then finish_command_resp INVALID_INPUT s
      else map_option (\<lambda>d. s\<lparr>g_update_firmware := d\<rparr>) (read_from data 0 FIRMWARE_INFO_SIZE))"

definition firmware_crc :: "fw \<Rightarrow> nat" where
  "firmware_crc s = rd32 (g_update_firmware s) 8"

definition write_flash_cmd_complete :: action where
  "write_flash_cmd_complete s = finish_command_resp OKAY s"

definition update_firmware_cmd_complete :: action where
  "update_firmware_cmd_complete s = do { s \<leftarrow> finish_command_resp OKAY s; enter_state DS_FIRMWARE_UPDATE s }"

text \<open>Arithmetic on \<open>u32\<close>.\<close>

definition in_memory_range :: "nat \<Rightarrow> nat \<Rightarrow> nat \<Rightarrow> bool" where
  "in_memory_range addr base_addr len \<longleftrightarrow>
     (let end_addr = to_unsigned (int base_addr + int len - 1) in base_addr \<le> addr \<and> addr \<le> end_addr)"

definition firmware_update_write_block_complete :: action where
  "firmware_update_write_block_complete s =
     (if g_device_state s = DS_ERASING_PAGES then do {
        let ix = (ef_index (d_erase s) + 1) mod 65536;
        let s = s\<lparr>d_erase := (d_erase s)\<lparr>ef_index := ix\<rparr>,
                  g_progress_level := (g_progress_level s)(0 := int ix - int (ef_min_page (d_erase s)))\<rparr>;
        s \<leftarrow> get_progress_check s;
        if ef_index (d_erase s) > ef_max_page (d_erase s) then enter_state DS_FIRMWARE_UPDATE s
        else flash_write_page (flash_sector_to_addr (int (ef_index (d_erase s)))) Buf_null 0 s
      } else Some s)"

definition erase_flash_pages_start :: "nat \<Rightarrow> nat \<Rightarrow> action" where
  "erase_flash_pages_start first_page last_page s = do {
     let s = s\<lparr>d_erase := \<lparr>ef_index = first_page, ef_min_page = first_page, ef_max_page = last_page\<rparr>\<rparr>;
     s \<leftarrow> enter_progressing_state DS_ERASING_PAGES [int last_page - int first_page] s;
     s \<leftarrow> finish_command_resp OKAY s;
     flash_write_page (flash_sector_to_addr (int (ef_index (d_erase s)))) Buf_null 0 s
   }"

definition erase_flash_pages_cmd :: action where
  "erase_flash_pages_cmd s =
     (case flash_get_boot_mode s of
        HC_BOOT_BOOTLOADER_MODE \<Rightarrow> erase_flash_pages_start 5 7 s
      | HC_BOOT_APPLICATION_MODE \<Rightarrow> erase_flash_pages_start 2 4 s
      | HC_BOOT_UNKNOWN_MODE \<Rightarrow> finish_command_resp INVALID_STATE s)"

definition write_flash_area :: "nat \<Rightarrow> nat \<Rightarrow> bytes \<Rightarrow> int \<Rightarrow> action" where
  "write_flash_area base len data data_len s = do {
     let addr = rd32 data 0;
     let dest = to_unsigned (int addr + int base);
     if data_len - 4 < 0 then None
     else do {
       d \<leftarrow> read_from data 4 (nat (data_len - 4));
       b \<leftarrow> memcpy_to (wf_block (d_write_flash s)) 0 d;
       let sz = nat (data_len - 4) mod 65536;
       let s = s\<lparr>d_write_flash := \<lparr>wf_block = b, wf_addr = addr, wf_sz = sz\<rparr>\<rparr>;
       if \<not> in_memory_range dest base len
          \<or> \<not> in_memory_range (to_unsigned (int dest + int sz - 1)) base len
       then finish_command_resp INVALID_INPUT s
       else flash_write dest Buf_write_flash (int sz) s
     }
   }"

definition write_flash_cmd :: "bytes \<Rightarrow> int \<Rightarrow> action" where
  "write_flash_cmd data data_len s =
     (case flash_get_boot_mode s of
        HC_BOOT_BOOTLOADER_MODE \<Rightarrow> write_flash_area BOOT_AREA_B HC_BOOT_AREA_B_LEN data data_len s
      | HC_BOOT_APPLICATION_MODE \<Rightarrow> write_flash_area BOOT_AREA_A HC_BOOT_AREA_A_LEN data data_len s
      | HC_BOOT_UNKNOWN_MODE \<Rightarrow> finish_command_resp INVALID_STATE s)"

text \<open>A reset is the last output of a run.\<close>

definition reset_device_cmd :: action where
  "reset_device_cmd s = Some (put_out Out_system_reset s)"

definition switch_boot_finish :: "hc_boot_mode \<Rightarrow> action" where
  "switch_boot_finish m s =
     Some (put_out Out_system_reset (put_out (Out_delay 1000) (put_out Out_usb_deinit (led_on (flash_set_boot_mode m s)))))"

definition switch_boot_mode_cmd :: "env \<Rightarrow> action" where
  "switch_boot_mode_cmd E s =
     (case flash_get_boot_mode s of
        HC_BOOT_BOOTLOADER_MODE \<Rightarrow>
          (if unat (crc_32 E (flash_read BOOT_AREA_B HC_BOOT_AREA_B_LEN s)) \<noteq> firmware_crc s
           then finish_command_resp INVALID_STATE s
           else switch_boot_finish HC_BOOT_APPLICATION_MODE s)
      | HC_BOOT_APPLICATION_MODE \<Rightarrow>
          (if unat (crc_32 E (flash_read BOOT_AREA_A HC_BOOT_AREA_A_LEN s)) \<noteq> firmware_crc s
           then finish_command_resp INVALID_STATE s
           else switch_boot_finish HC_BOOT_BOOTLOADER_MODE s)
      | HC_BOOT_UNKNOWN_MODE \<Rightarrow> Some s)"

text \<open>The pattern of the state functions: the command ran, or it is not known here.\<close>

definition handled :: "fw option \<Rightarrow> (int \<times> fw) option" where
  "handled r = map_option (\<lambda>s. (0, s)) r"

definition get_progress_cmd :: "bytes \<Rightarrow> action" where
  "get_progress_cmd data s =
     (let s = s\<lparr>g_progress_check := int (rd16 data 0), g_progress_target_state := int (rd16 data 2)\<rparr>
      in if g_progress_target_state s \<noteq> int (ds_code (g_device_state s)) then finish_command_resp INVALID_STATE s
         else get_progress_check s)"

definition firmware_update_state :: "env \<Rightarrow> int \<Rightarrow> bytes \<Rightarrow> int \<Rightarrow> fw \<Rightarrow> (int \<times> fw) option" where
  "firmware_update_state E cmd data data_len s =
     (if cmd = ERASE_FLASH_PAGES then handled (erase_flash_pages_cmd s)
      else if cmd = WRITE_FLASH then handled (write_flash_cmd data data_len s)
      else if cmd = SWITCH_BOOT_MODE then handled (switch_boot_mode_cmd E s)
      else if cmd = RESET_DEVICE then handled (reset_device_cmd s)
      else Some (-1, s))"

definition erasing_pages_state :: "int \<Rightarrow> bytes \<Rightarrow> fw \<Rightarrow> (int \<times> fw) option" where
  "erasing_pages_state cmd data s =
     (if cmd = GET_PROGRESS then handled (get_progress_cmd data s) else Some (-1, s))"

definition bootloader_state :: "env \<Rightarrow> int \<Rightarrow> bytes \<Rightarrow> int \<Rightarrow> fw \<Rightarrow> (int \<times> fw) option" where
  "bootloader_state E cmd data data_len s =
     (if cmd = SWITCH_BOOT_MODE then handled (switch_boot_mode_cmd E s)
      else if cmd = UPDATE_FIRMWARE
      then handled (do { s \<leftarrow> update_firmware_cmd data data_len s; update_firmware_cmd_complete s })
      else Some (-1, s))"

end
