(* ===== verification/Commands.thy ===== *)
theory Commands
  imports Db Fw_Update
begin

text \<open>
  The upper half of \<open>firmware-hc/commands.c\<close>: the command handlers, the table of commands each
  device state accepts, the dispatcher, the button and random-number events, and the choice of
  the root page at startup. \<open>data\<close> and \<open>data_len\<close> are as in \<open>Fw_Update\<close>.
\<close>

section \<open>Random words\<close>

definition words_bytes :: "u32 list \<Rightarrow> bytes" where
  "words_bytes ws = concat (map (\<lambda>w. le32 (unat w)) ws)"

text \<open>\<open>for (i = 0; i < n; i++) ((u32 *)b)[i] ^= rand_get()\<close>\<close>

definition xor_rand :: "nat \<Rightarrow> bytes \<Rightarrow> rand_state \<Rightarrow> (bytes \<times> rand_state) option" where
  "xor_rand n b r =
     (let (ws, r) = rand_take n r
      in if 4 * n \<le> length b
         then Some (splice b 0 (map2 (XOR) (take (4 * n) b) (words_bytes ws)), r) else None)"

section \<open>Initialising the root page\<close>

definition upd_init :: "(init_data \<Rightarrow> init_data) \<Rightarrow> fw \<Rightarrow> fw" where
  "upd_init f s = s\<lparr>d_init := f (d_init s)\<rparr>"

text \<open>The credentials: 16 bytes of device id, 16 of authentication data, 32 of keystore key.\<close>

definition init_signet_data :: "env \<Rightarrow> action" where
  "init_signet_data E s = do {
     (rand, r) \<leftarrow> xor_rand (INIT_RAND_DATA_SZ div 4) (in_rand (d_init s)) (rnd s);
     let i = d_init s;
     let auth_rand_data = slice rand 16 16;
     let keystore_key = slice rand 32 32;
     let s = upd_init (\<lambda>i. i\<lparr>in_rand := rand\<rparr>) (s\<lparr>rnd := r\<rparr>);
     let s = rp_put RP_FORMAT (le16 ROOT_BLOCK_FORMAT_CURRENT) s;
     let s = rp_put RP_DB_FORMAT (le16 DB_FORMAT_CURRENT) s;
     let s = rp_put RP_DEVICE_ID (slice rand 0 16) s;
     let s = rp_put RP_AUTH_RANDOM auth_rand_data s;
     let s = rp_put RP_AUTH_CT (signet_aes_256_encrypt_cbc (env_nettle E) (in_passwd i) 1 None auth_rand_data) s;
     let s = rp_put RP_KEYSTORE_CT (signet_aes_256_encrypt_cbc (env_nettle E) (in_passwd i) 2 None keystore_key) s;
     let s = rp_put RP_SALT (in_salt i) s;
     let s = rp_put RP_HASHFN (in_hashfn i) s;
     Some (upd_init (\<lambda>i. i\<lparr>in_signet_data_updated := True\<rparr>) s)
   }"

definition init_ctap_data :: "env \<Rightarrow> fw \<Rightarrow> fw" where
  "init_ctap_data E s =
     (if \<not> g_root_page_valid s \<or> g_device_state s \<noteq> DS_UNINITIALIZED then
        (if in_ctap_random_data_needed (d_init s) = 0 then
           (let r = rand_set_rewind_point (rnd s);
                (ok, page, r, requested) = env_ctap_reset E (root_page s) r;
                s = s\<lparr>root_page := page\<rparr>
            in if ok
               then upd_init (\<lambda>i. i\<lparr>in_ctap_data_updated := True\<rparr>) (s\<lparr>rnd := rand_clear_rewind_point r\<rparr>)
               else (let r = rand_rewind r
                     in upd_init (\<lambda>i. i\<lparr>in_rand_avail_init := rand_avail r,
                                        in_ctap_random_data_needed := requested sdiv 4,
                                        in_random_data_needed := requested sdiv 4\<rparr>) (s\<lparr>rnd := r\<rparr>)))
         else
           (let (ok, page, r, requested) = env_ctap_reset E (root_page s) (rnd s)
            in upd_init (\<lambda>i. i\<lparr>in_ctap_data_updated := True\<rparr>)
                 (s\<lparr>root_page := page, rnd := rand_clear_rewind_point r\<rparr>)))
      else upd_init (\<lambda>i. i\<lparr>in_ctap_data_updated := True\<rparr>) s)"

definition finalize_root_page_check :: "env \<Rightarrow> action" where
  "finalize_root_page_check E s =
     (if in_root_block_finalized (d_init s) then Some s
      else do {
        s \<leftarrow> (if \<not> in_signet_data_updated (d_init s)
                 \<and> rand_avail (rnd s) \<ge> in_signet_random_data_needed (d_init s)
              then init_signet_data E s else Some s);
        let s = (if in_signet_data_updated (d_init s) \<and> \<not> in_ctap_data_updated (d_init s)
                    \<and> (in_ctap_random_data_needed (d_init s) = 0
                       \<or> rand_avail (rnd s) \<ge> in_ctap_random_data_needed (d_init s))
                 then init_ctap_data E s else s);
        Some (if in_signet_data_updated (d_init s) \<and> in_ctap_data_updated (d_init s)
              then upd_init (\<lambda>i. i\<lparr>in_root_block_finalized := True\<rparr>) (sync_root_block s) else s)
      })"

section \<open>Logging in\<close>

text \<open>\<open>attempt_login_256\<close>: the decrypted key, if the password matches.\<close>

definition attempt_login_256 :: "env \<Rightarrow> bytes \<Rightarrow> bytes \<Rightarrow> bytes \<Rightarrow> bytes \<Rightarrow> bytes option" where
  "attempt_login_256 E auth_key auth_rand auth_rand_cyphertext encrypt_key_cyphertext =
     (if signet_aes_256_encrypt_cbc (env_nettle E) auth_key 1 None auth_rand \<noteq> take 16 auth_rand_cyphertext
      then None
      else Some (signet_aes_256_decrypt_cbc (env_nettle E) auth_key 2 None encrypt_key_cyphertext))"

definition upd_login :: "(login_data \<Rightarrow> login_data) \<Rightarrow> fw \<Rightarrow> fw" where
  "upd_login f s = s\<lparr>d_login := f (d_login s)\<rparr>"

text \<open>
  \<open>login_cmd_iter\<close>. The response's payload pointer is \<open>(u8 *)cmd_data.login.gen_token\<close>: a
  number below 256 used as an address, null when it is 0.
\<close>

definition login_cmd_iter :: "env \<Rightarrow> action" where
  "login_cmd_iter E s =
     (if lg_authenticated (d_login s) \<and> rand_avail (rnd s) \<ge> 8 then do {
        let (ws, r) = rand_take 8 (rnd s);
        let tok = words_bytes ws;
        let s = upd_login (\<lambda>l. l\<lparr>lg_token := tok\<rparr>) (s\<lparr>rnd := r\<rparr>);
        let s = s\<lparr>token_auth_rand_cyphertext :=
                    signet_aes_256_encrypt_cbc (env_nettle E) tok 2 None (rp_get RP_AUTH_RANDOM 32 s),
                  token_encrypt_key_cyphertext :=
                    signet_aes_256_encrypt_cbc (env_nettle E) tok 2 None (g_encrypt_key s)\<rparr>;
        let g = lg_gen_token (d_login s);
        s \<leftarrow> finish_command OKAY (if g = 0 then None else Some (drop g (env_low_mem E))) 32 s;
        enter_state DS_LOGGED_IN s
      } else Some s)"

definition login_cmd :: "bytes \<Rightarrow> int \<Rightarrow> action" where
  "login_cmd data data_len s =
     (let s = upd_login (\<lambda>l. l\<lparr>lg_gen_token := 0, lg_authenticated := False\<rparr>) s
      in if data_len < 32 then finish_command_resp INVALID_INPUT s
         else Some (begin_button_press_wait
                (upd_login (\<lambda>l. l\<lparr>lg_password := take 32 data,
                    lg_gen_token := (if data_len - 32 > 0 then unat (data ! 32) else 0)\<rparr>) s)))"

definition login_token_cmd :: "bytes \<Rightarrow> int \<Rightarrow> action" where
  "login_token_cmd data data_len s =
     (if data_len \<noteq> 32 then finish_command_resp INVALID_INPUT s
      else Some (begin_button_press_wait (upd_login (\<lambda>l. l\<lparr>lt_token := take 32 data\<rparr>) s)))"

definition button_press_login :: "env \<Rightarrow> action" where
  "button_press_login E s =
     (if rp_format s = ROOT_BLOCK_FORMAT_CURRENT then
        (case attempt_login_256 E (lg_password (d_login s)) (rp_get RP_AUTH_RANDOM 16 s)
                (rp_get RP_AUTH_CT 16 s) (rp_get RP_KEYSTORE_CT 32 s) of
           Some k \<Rightarrow>
             (let s = s\<lparr>g_encrypt_key := k\<rparr>
              in if lg_gen_token (d_login s) \<noteq> 0
                 then login_cmd_iter E (upd_login (\<lambda>l. l\<lparr>lg_authenticated := True\<rparr>) s)
                 else do { s \<leftarrow> finish_command_resp OKAY s; enter_state DS_LOGGED_IN s })
         | None \<Rightarrow> finish_command_resp BAD_PASSWORD s)
      else finish_command_resp UNKNOWN_DB_FORMAT s)"

definition button_press_login_token :: "env \<Rightarrow> action" where
  "button_press_login_token E s =
     (if rp_format s = ROOT_BLOCK_FORMAT_CURRENT then
        (case attempt_login_256 E (lt_token (d_login s)) (rp_get RP_AUTH_RANDOM 16 s)
                (token_auth_rand_cyphertext s) (token_encrypt_key_cyphertext s) of
           Some k \<Rightarrow> do { s \<leftarrow> finish_command_resp OKAY (s\<lparr>g_encrypt_key := k\<rparr>); enter_state DS_LOGGED_IN s }
         | None \<Rightarrow> finish_command_resp BAD_PASSWORD s)
      else Some s)"

section \<open>Simple commands\<close>

definition initialize_cmd :: "bytes \<Rightarrow> int \<Rightarrow> action" where
  "initialize_cmd data data_len s =
     (if data_len < int INITIALIZE_CMD_SIZE then finish_command_resp INVALID_INPUT s
      else Some (begin_long_button_press_wait
             (upd_init (\<lambda>i. i\<lparr>in_passwd := slice data 0 32, in_hashfn := slice data 32 16,
                            in_salt := slice data 48 32, in_rand := slice data 80 INIT_RAND_DATA_SZ,
                            in_started := False\<rparr>) s)))"

definition initialize_cmd_complete :: "env \<Rightarrow> action" where
  "initialize_cmd_complete E s = do {
     let s = upd_init (\<lambda>i. i\<lparr>in_started := True, in_blocks_written := 0, in_random_data_gathered := 0,
                           in_root_block_finalized := False, in_block := db3_initialize_block E\<rparr>) s;
     s \<leftarrow> write_data_block E (in_blocks_written (d_init s) + MIN_DATA_BLOCK) Buf_init_block s;
     s \<leftarrow> finish_command_resp OKAY s;
     let needed = int (INIT_RAND_DATA_SZ div 4);
     let s = upd_init (\<lambda>i. i\<lparr>in_rand_avail_init := rand_avail (rnd s), in_random_data_needed := needed,
                           in_signet_random_data_needed := needed, in_ctap_random_data_needed := 0,
                           in_signet_data_updated := False,
                           in_ctap_data_updated := (g_root_page_valid s \<and> g_device_state s = DS_UNINITIALIZED)\<rparr>) s;
     let p = needed - in_rand_avail_init (d_init s);
     enter_progressing_state DS_INITIALIZING [int NUM_DATA_BLOCKS, (if p < 0 then 0 else p), 1] s
   }"

definition wipe_cmd :: "fw \<Rightarrow> fw" where
  "wipe_cmd s = begin_long_button_press_wait s"

definition restore_device_cmd :: "fw \<Rightarrow> fw" where
  "restore_device_cmd s = begin_long_button_press_wait s"

definition read_block_cmd :: "action \<Rightarrow> bytes \<Rightarrow> int \<Rightarrow> action" where
  "read_block_cmd complete data data_len s =
     (if data_len \<noteq> 2 then finish_command_resp INVALID_INPUT s
      else let idx = rd16 data 0 in
        if idx \<ge> NUM_STORAGE_BLOCKS then finish_command_resp INVALID_INPUT s
        else read_data_block complete idx Buf_read_block (s\<lparr>d_read_block := (d_read_block s)\<lparr>bd_block_idx := idx\<rparr>\<rparr>))"

definition write_block_cmd :: "env \<Rightarrow> bytes \<Rightarrow> int \<Rightarrow> action" where
  "write_block_cmd E data data_len s =
     (if data_len \<noteq> 2 + int BLK_SIZE then finish_command_resp INVALID_INPUT s
      else let idx = rd16 data 0; s = s\<lparr>d_write_block := \<lparr>bd_block = slice data 2 BLK_SIZE, bd_block_idx = idx\<rparr>\<rparr> in
        if idx \<ge> NUM_STORAGE_BLOCKS then finish_command_resp INVALID_INPUT s
        else write_data_block E idx Buf_write_block s)"

definition erase_block_cmd :: "env \<Rightarrow> bytes \<Rightarrow> int \<Rightarrow> action" where
  "erase_block_cmd E data data_len s =
     (if data_len \<noteq> 2 then finish_command_resp INVALID_INPUT s
      else let idx = rd16 data 0 in
        if idx \<ge> NUM_STORAGE_BLOCKS then finish_command_resp INVALID_INPUT s
        else write_data_block E idx Buf_erase_block (s\<lparr>d_erase_block := replicate BLK_SIZE 0\<rparr>))"

definition get_device_capacity_cmd :: action where
  "get_device_capacity_cmd s = finish_command OKAY (Some (replicate 6 0)) 6 s"

definition change_master_password_cmd :: "env \<Rightarrow> bytes \<Rightarrow> int \<Rightarrow> action" where
  "change_master_password_cmd E data data_len s =
     (if data_len \<noteq> 112 then finish_command_resp INVALID_INPUT s
      else let s = s\<lparr>d_change := (d_change s)\<lparr>ch_hashfn := slice data 64 16, ch_salt := slice data 80 32,
                                              ch_new_key := slice data 32 32\<rparr>\<rparr> in
        if rp_format s = ROOT_BLOCK_FORMAT_CURRENT then
          (case attempt_login_256 E (slice data 0 32) (rp_get RP_AUTH_RANDOM 16 s)
                  (rp_get RP_AUTH_CT 16 s) (rp_get RP_KEYSTORE_CT 32 s) of
             None \<Rightarrow> finish_command_resp BAD_PASSWORD s
           | Some k \<Rightarrow> Some (begin_long_button_press_wait (s\<lparr>d_change := (d_change s)\<lparr>ch_keystore_key := k\<rparr>\<rparr>)))
        else finish_command_resp UNKNOWN_DB_FORMAT s)"

definition change_master_password_complete :: "env \<Rightarrow> action" where
  "change_master_password_complete E s =
     (if rp_format s = ROOT_BLOCK_FORMAT_CURRENT then
        (let c = d_change s;
             s = rp_put RP_AUTH_CT (signet_aes_256_encrypt_cbc (env_nettle E) (ch_new_key c) 1 None
                   (rp_get RP_AUTH_RANDOM 16 s)) s;
             s = rp_put RP_KEYSTORE_CT (signet_aes_256_encrypt_cbc (env_nettle E) (ch_new_key c) 2 None
                   (ch_keystore_key c)) s;
             s = rp_put RP_SALT (ch_salt c) s;
             s = rp_put RP_HASHFN (ch_hashfn c) s
         in Some (sync_root_block s))
      else finish_command_resp UNKNOWN_DB_FORMAT s)"

definition cmd_disconnect :: action where
  "cmd_disconnect s =
     enter_state DS_DISCONNECTED
       ((end_long_button_press_wait (end_button_press_wait s))\<lparr>active_cmd := -1\<rparr>)"

text \<open>The availability in words is compared with a number of bytes.\<close>

definition get_rand_bits_cmd_check :: action where
  "get_rand_bits_cmd_check s =
     (let d = d_rand_bits s in
      if rand_avail (rnd s) \<ge> int (gr_sz d) then do {
        (b, r) \<leftarrow> xor_rand ((gr_sz d + 3) div 4) (gr_block d) (rnd s);
        finish_command OKAY (Some b) (gr_sz d) (s\<lparr>rnd := r, d_rand_bits := d\<lparr>gr_block := b\<rparr>\<rparr>)
      } else Some s)"

definition get_rand_bits_cmd :: "bytes \<Rightarrow> int \<Rightarrow> action" where
  "get_rand_bits_cmd data data_len s =
     (if data_len < 2 then finish_command_resp INVALID_INPUT s
      else let sz = rd16 data 0; s = s\<lparr>d_rand_bits := (d_rand_bits s)\<lparr>gr_sz := sz\<rparr>\<rparr> in
        if sz \<ge> BLK_SIZE then finish_command_resp INVALID_INPUT s
        else do {
          b \<leftarrow> memcpy_to (gr_block (d_rand_bits s)) 0 (replicate ((sz + 3) div 4) 0);
          get_rand_bits_cmd_check (s\<lparr>d_rand_bits := (d_rand_bits s)\<lparr>gr_block := b\<rparr>\<rparr>)
        })"

text \<open>The loop of the TYPE command, then \<open>usb_keyboard_type\<close>, whose count is a \<open>u8\<close>.\<close>

definition type_cmd :: "bytes \<Rightarrow> int \<Rightarrow> action" where
  "type_cmd data data_len s =
     (let n_chars = data_len div 2 in
      if to_unsigned (n_chars * 4) > CMD_PACKET_PAYLOAD_SIZE then finish_command_resp INVALID_INPUT s
      else do {
        c \<leftarrow> memcpy_to (d_chars s) 0
              (concat (map (\<lambda>i. [data ! (2 * i), data ! (2 * i + 1), 0, 0]) [0..<nat n_chars]));
        usb_keyboard_type Buf_chars (nat n_chars) (s\<lparr>d_chars := c\<rparr>)
      })"

section \<open>The commands of each device state\<close>

definition initializing_state :: "int \<Rightarrow> bytes \<Rightarrow> fw \<Rightarrow> (int \<times> fw) option" where
  "initializing_state cmd data s =
     (if cmd = GET_PROGRESS then handled (get_progress_cmd data s) else Some (-1, s))"

definition wiping_state :: "int \<Rightarrow> bytes \<Rightarrow> fw \<Rightarrow> (int \<times> fw) option" where
  "wiping_state cmd data s =
     (if cmd = GET_PROGRESS then handled (get_progress_cmd data s) else Some (-1, s))"

definition uninitialized_state :: "env \<Rightarrow> int \<Rightarrow> bytes \<Rightarrow> int \<Rightarrow> fw \<Rightarrow> (int \<times> fw) option" where
  "uninitialized_state E cmd data data_len s =
     (if cmd = GET_PROGRESS then handled (get_progress_cmd data s)
      else if cmd = RESTORE_DEVICE then handled (Some (restore_device_cmd s))
      else if cmd = INITIALIZE then handled (initialize_cmd data data_len s)
      else if cmd = WIPE then handled (Some (wipe_cmd s))
      else if cmd = GET_DEVICE_CAPACITY then handled (get_device_capacity_cmd s)
      else if cmd = UPDATE_FIRMWARE then
        (if g_uninitialized_wiped s
         then handled (map_option begin_long_button_press_wait (update_firmware_cmd data data_len s))
         else handled (finish_command_resp DEVICE_NOT_WIPED s))
      else Some (-1, s))"

definition logged_out_state :: "env \<Rightarrow> int \<Rightarrow> bytes \<Rightarrow> int \<Rightarrow> fw \<Rightarrow> (int \<times> fw) option" where
  "logged_out_state E cmd data data_len s =
     (if cmd = GET_PROGRESS then handled (get_progress_cmd data s)
      else if cmd = CHANGE_MASTER_PASSWORD then handled (change_master_password_cmd E data data_len s)
      else if cmd = INITIALIZE then handled (initialize_cmd data data_len s)
      else if cmd = WIPE then handled (Some (wipe_cmd s))
      else if cmd = BACKUP_DEVICE then handled (Some (begin_long_button_press_wait s))
      else if cmd = RESTORE_DEVICE then handled (Some (restore_device_cmd s))
      else if cmd = LOGIN then handled (login_cmd data data_len s)
      else if cmd = LOGIN_TOKEN then handled (login_token_cmd data data_len s)
      else if cmd = GET_DEVICE_CAPACITY then handled (get_device_capacity_cmd s)
      else Some (-1, s))"

definition read_uid_request :: "env \<Rightarrow> bytes \<Rightarrow> int \<Rightarrow> action" where
  "read_uid_request E data data_len s =
     (if data_len < 3 then finish_command_resp INVALID_INPUT s
      else let uid = rd16 data 0 in
        if uid < MIN_UID \<or> uid > MAX_UID then finish_command_resp INVALID_INPUT s
        else read_uid_cmd E uid (unat (data ! 2)) s)"

definition update_uid_request :: "env \<Rightarrow> bytes \<Rightarrow> int \<Rightarrow> action" where
  "update_uid_request E data data_len s =
     (if data_len < 4 then finish_command_resp INVALID_INPUT s
      else let uid = rd16 data 0; sz = rd16 data 2; blk_count = SIZE_TO_SUB_BLK_COUNT sz in
        if uid < MIN_UID \<or> uid > MAX_UID \<or> data_len - 4 \<noteq> int (blk_count * SUB_BLK_SIZE)
        then finish_command_resp INVALID_INPUT s
        else let press = (if active_cmd s = UPDATE_UID then 1 else if cmd_iter_count s = 0 then 2 else 0)
             in update_uid_cmd E uid (slice data 4 (nat (data_len - 4))) sz press s)"

definition logged_in_state :: "env \<Rightarrow> bytes \<Rightarrow> int \<Rightarrow> fw \<Rightarrow> (int \<times> fw) option" where
  "logged_in_state E data data_len s =
     (let cmd = active_cmd s in
      if cmd = GET_PROGRESS then handled (get_progress_cmd data s)
      else if cmd = CHANGE_MASTER_PASSWORD then handled (change_master_password_cmd E data data_len s)
      else if cmd = BACKUP_DEVICE then handled (Some (begin_long_button_press_wait s))
      else if cmd = GET_RAND_BITS then handled (get_rand_bits_cmd data data_len s)
      else if cmd = READ_UID then handled (read_uid_request E data data_len s)
      else if cmd = UPDATE_UIDS \<or> cmd = UPDATE_UID then handled (update_uid_request E data data_len s)
      else if cmd = READ_ALL_UIDS then
        handled (if data_len < 1 then finish_command_resp INVALID_INPUT s
                 else read_all_uids_cmd E (unat (data ! 0)) s)
      else if cmd = TYPE_CMD then handled (type_cmd data data_len s)
      else if cmd = BUTTON_WAIT then handled (Some (begin_button_press_wait s))
      else if cmd = LOGOUT then
        handled (do { s \<leftarrow> enter_state DS_LOGGED_OUT s; finish_command_resp OKAY s })
      else if cmd = UPDATE_FIRMWARE then
        handled (map_option begin_long_button_press_wait (update_firmware_cmd data data_len s))
      else Some (-1, s))"

definition backing_up_device_state :: "action \<Rightarrow> int \<Rightarrow> bytes \<Rightarrow> int \<Rightarrow> fw \<Rightarrow> (int \<times> fw) option" where
  "backing_up_device_state complete cmd data data_len s =
     (if cmd = READ_BLOCK_HC then handled (read_block_cmd complete data data_len s)
      else if cmd = BACKUP_DEVICE_DONE then
        handled (do { s \<leftarrow> enter_state (backup_prev_state s) s; finish_command_resp OKAY s })
      else Some (-1, s))"

definition restoring_device_state :: "env \<Rightarrow> int \<Rightarrow> bytes \<Rightarrow> int \<Rightarrow> fw \<Rightarrow> (int \<times> fw) option" where
  "restoring_device_state E cmd data data_len s =
     (if cmd = WRITE_BLOCK_HC then handled (write_block_cmd E data data_len s)
      else if cmd = ERASE_BLOCK_HC then handled (erase_block_cmd E data data_len s)
      else if cmd = RESTORE_DEVICE_DONE then
        handled (do { s \<leftarrow> enter_state DS_DISCONNECTED s; finish_command_resp OKAY s })
      else Some (-1, s))"

end
