(* ===== verification/Dispatch.thy ===== *)
theory Dispatch
  imports Commands
begin

text \<open>
  The entry points of \<open>firmware-hc/commands.c\<close>: startup, the dispatcher of command packets,
  the completion of block transfers and flash writes, the button, the random numbers and the
  typing, and \<open>command_idle\<close>, which the main loop calls.
\<close>

section \<open>Startup\<close>

definition page_valid :: "env \<Rightarrow> crypt_page \<Rightarrow> fw \<Rightarrow> bool" where
  "page_valid E p s \<longleftrightarrow>
     (let d = flash_read (crypt_addr p) ROOT_PAGE_SIZE s
      in map_option unat (compute_device_data_crc E d) = Some (rd32 d RP_CRC))"

definition page_iteration :: "crypt_page \<Rightarrow> fw \<Rightarrow> nat" where
  "page_iteration p s = rd16 (flash_read (crypt_addr p) ROOT_PAGE_SIZE s) RP_DATA_ITERATION"

text \<open>
  \<open>cmd_init\<close>. After the choice \<open>_root_page\<close> is never null, so the page always counts as
  valid, also when neither checksum was right.
\<close>

definition choose_root_page :: "env \<Rightarrow> fw \<Rightarrow> crypt_page" where
  "choose_root_page E s =
     (if page_valid E Crypt_data1 s then
        (if page_valid E Crypt_data2 s then
           (if page_iteration Crypt_data1 s > page_iteration Crypt_data2 s then Crypt_data1 else Crypt_data2)
         else Crypt_data1)
      else if page_valid E Crypt_data2 s then Crypt_data2 else Crypt_data1)"

definition cmd_init :: "env \<Rightarrow> fw \<Rightarrow> fw" where
  "cmd_init E s =
     (let p = choose_root_page E s
      in s\<lparr>root_page_ptr := Some p, root_page := flash_read (crypt_addr p) ROOT_PAGE_SIZE s, g_root_page_valid := True\<rparr>)"

definition upd_startup_resp :: "(bytes \<Rightarrow> bytes) \<Rightarrow> fw \<Rightarrow> fw" where
  "upd_startup_resp f s = s\<lparr>d_startup := (d_startup s)\<lparr>st_resp := f (st_resp (d_startup s))\<rparr>\<rparr>"

text \<open>The three early returns of \<open>startup_cmd_iter\<close>.\<close>

definition startup_uninitialized :: "command_responses \<Rightarrow> action" where
  "startup_uninitialized rc s = do {
     s \<leftarrow> enter_state DS_UNINITIALIZED (s\<lparr>g_uninitialized_wiped := False\<rparr>);
     let s = upd_startup_resp (\<lambda>r. r[3 := word_of_nat (ds_code (g_device_state s))]) s;
     finish_command rc (Some (st_resp (d_startup s))) STARTUP_RESP_SIZE s
   }"

definition startup_cmd_iter :: action where
  "startup_cmd_iter s =
     (let r = replicate STARTUP_RESP_SIZE 0;
          r = r[1 := 2, 2 := 2, 3 := word_of_nat (ds_code (g_device_state s)),
                6 := word_of_nat (boot_mode_code (flash_get_boot_mode s))];
          s = upd_startup_resp (\<lambda>_. r) s
      in if \<not> g_root_page_valid s then startup_uninitialized OKAY s
         else let s = s\<lparr>g_root_block_version := rp_format s mod 256\<rparr> in
           if rp_format s = ROOT_BLOCK_FORMAT_CURRENT then
             (let r = splice r STARTUP_RESP_INFO_SIZE (rp_get RP_HASHFN 16 s @ rp_get RP_SALT 32 s);
                  s = s\<lparr>g_db_version := rp_db_format s mod 256\<rparr>;
                  r = r[4 := word_of_nat (g_root_block_version s), 5 := word_of_nat (g_db_version s),
                        7 := word_of_nat (rd32 (root_page s) RP_UPGRADE_STATE)];
                  s = upd_startup_resp (\<lambda>_. r) s
              in if g_db_version s = DB_FORMAT_CURRENT \<or> g_db_version s = DB_FORMAT_2
                 then db3_startup_scan Buf_startup_block s
                 else startup_uninitialized UNKNOWN_DB_FORMAT s)
           else startup_uninitialized UNKNOWN_DB_FORMAT s)"

definition startup_cmd :: "env \<Rightarrow> action" where
  "startup_cmd E s =
     (let s = (if g_device_state s \<noteq> DS_DISCONNECTED
               then end_long_button_press_wait (end_button_press_wait (stop_blinking s)) else s)
      in startup_cmd_iter (cmd_init E s))"

section \<open>The dispatcher\<close>

text \<open>\<open>read_block_complete\<close>: a block has arrived in its buffer.\<close>

definition read_block_complete :: "env \<Rightarrow> action" where
  "read_block_complete E s = do {
     (handled_by_db, s) \<leftarrow> db3_read_block_complete E s;
     if handled_by_db then Some s
     else if active_cmd s = READ_BLOCK_HC
     then finish_command OKAY (Some (bd_block (d_read_block s))) BLK_SIZE s
     else Some s
   }"

definition packet_data_len :: "fw \<Rightarrow> int" where
  "packet_data_len s = int (rd16 (cmd_packet_buf s) 0) - int CMD_PACKET_HEADER_SIZE"

definition packet_messages_remaining :: "fw \<Rightarrow> nat" where
  "packet_messages_remaining s = rd16 (cmd_packet_buf s) 3"

definition run_state_command :: "env \<Rightarrow> bytes \<Rightarrow> int \<Rightarrow> fw \<Rightarrow> (int \<times> fw) option" where
  "run_state_command E data data_len s =
     (case g_device_state s of
        DS_UNINITIALIZED \<Rightarrow> uninitialized_state E (active_cmd s) data data_len s
      | DS_INITIALIZING \<Rightarrow> initializing_state (active_cmd s) data s
      | DS_WIPING \<Rightarrow> wiping_state (active_cmd s) data s
      | DS_BACKING_UP_DEVICE \<Rightarrow> backing_up_device_state (read_block_complete E) (active_cmd s) data data_len s
      | DS_RESTORING_DEVICE \<Rightarrow> restoring_device_state E (active_cmd s) data data_len s
      | DS_FIRMWARE_UPDATE \<Rightarrow> firmware_update_state E (active_cmd s) data data_len s
      | DS_ERASING_PAGES \<Rightarrow> erasing_pages_state (active_cmd s) data s
      | DS_BOOTLOADER \<Rightarrow> bootloader_state E (active_cmd s) data data_len s
      | DS_LOGGED_OUT \<Rightarrow> logged_out_state E (active_cmd s) data data_len s
      | DS_LOGGED_IN \<Rightarrow> logged_in_state E data data_len s
      | _ \<Rightarrow> Some (-1, s))"

text \<open>Returns 1 if the device belongs to another subsystem, else 0.\<close>

definition restart_signet_command :: "env \<Rightarrow> fw \<Rightarrow> (int \<times> fw) option" where
  "restart_signet_command E s =
     (let data = drop CMD_PACKET_HEADER_SIZE (cmd_packet_buf s);
          data_len = packet_data_len s;
          messages_remaining = packet_messages_remaining s;
          (granted, s) = request_device SIGNET_SUBSYSTEM s
      in if \<not> granted then Some (1, s)
         else let s = s\<lparr>cmd_messages_remaining := messages_remaining\<rparr> in
           if active_cmd s = STARTUP then handled (startup_cmd E s)
           else if active_cmd s = GET_DEVICE_STATE
           then handled (finish_command OKAY (Some [word_of_nat (ds_code (g_device_state s))]) 1 s)
           else if active_cmd s = CANCEL_BUTTON_PRESS
           then handled (subsystem_idle_check (s\<lparr>active_cmd := -1\<rparr>))
           else if data_len > int CMD_PACKET_PAYLOAD_SIZE then handled (finish_command_resp INVALID_INPUT s)
           else do {
             (ret, s) \<leftarrow> run_state_command E data data_len s;
             s \<leftarrow> (if ret \<noteq> 0 then finish_command_resp INVALID_STATE s else Some s);
             Some (0, if messages_remaining \<noteq> 0 then s\<lparr>cmd_iter_count := cmd_iter_count s + 1\<rparr> else s)
           })"

definition cmd_packet_recv :: "env \<Rightarrow> action" where
  "cmd_packet_recv E s =
     (let next_active_cmd = int (unat (cmd_packet_buf s ! 2));
          prev_active_cmd = active_cmd s;
          waiting_for_a_button_press = (waiting_for_button_press s \<or> waiting_for_long_button_press s);
          resume = USBD_HID_rx_resume INTERFACE_CMD
      in if next_active_cmd = DISCONNECT then map_option resume (cmd_disconnect s)
         else if prev_active_cmd \<noteq> -1 \<and> next_active_cmd = CANCEL_BUTTON_PRESS \<and> \<not> waiting_for_a_button_press
         then Some (resume s)
         else if prev_active_cmd \<noteq> -1 \<and> waiting_for_a_button_press \<and> next_active_cmd = CANCEL_BUTTON_PRESS
         then map_option resume (finish_command_resp BUTTON_PRESS_CANCELED (end_button_press_wait s))
         else do {
           let s = (if active_cmd s \<noteq> next_active_cmd then s\<lparr>cmd_iter_count := 0\<rparr> else s);
           (r, s) \<leftarrow> restart_signet_command E (s\<lparr>active_cmd := next_active_cmd\<rparr>);
           Some (if r = 0 then resume s else s)
         })"

section \<open>Completion of writes\<close>

definition initializing_iter :: "env \<Rightarrow> action" where
  "initializing_iter E s = do {
     let s = upd_init (\<lambda>i. i\<lparr>in_blocks_written := in_blocks_written i + 1\<rparr>) s;
     let n = in_blocks_written (d_init s);
     let lvl = (if int n > progress_maximum s 0 then progress_maximum s 0 else int n);
     let s = s\<lparr>g_progress_level := (g_progress_level s)(0 := lvl, 1 := in_random_data_gathered (d_init s))\<rparr>;
     s \<leftarrow> get_progress_check s;
     let n = in_blocks_written (d_init s);
     if n < NUM_DATA_BLOCKS
     then write_data_block E (n + MIN_DATA_BLOCK) Buf_init_block (upd_init (\<lambda>i. i\<lparr>in_block := db3_initialize_block E\<rparr>) s)
     else if n = NUM_DATA_BLOCKS then finalize_root_page_check E s
     else db3_startup_scan Buf_init_block
            (s\<lparr>g_root_block_version := ROOT_BLOCK_FORMAT_CURRENT, g_db_version := DB_FORMAT_CURRENT,
               g_root_page_valid := True\<rparr>)
   }"

definition wiping_iter :: "env \<Rightarrow> action" where
  "wiping_iter E s = do {
     let n = bd_block_idx (d_wipe s) + 1;
     let s = s\<lparr>d_wipe := (d_wipe s)\<lparr>bd_block_idx := n\<rparr>, g_progress_level := (g_progress_level s)(0 := int n)\<rparr>;
     s \<leftarrow> get_progress_check s;
     if bd_block_idx (d_wipe s) = NUM_STORAGE_BLOCKS
     then enter_state DS_UNINITIALIZED (s\<lparr>g_uninitialized_wiped := True\<rparr>)
     else write_data_block E (bd_block_idx (d_wipe s)) Buf_wipe_block
            (s\<lparr>d_wipe := (d_wipe s)\<lparr>bd_block := replicate BLK_SIZE 0\<rparr>\<rparr>)
   }"

definition root_block_synced :: "env \<Rightarrow> action" where
  "root_block_synced E s =
     (if g_root_block_sync_state s = ROOT_BLOCK_WRITING
      then let s = END_WORK SYNC_ROOT_BLOCK_WORK (s\<lparr>g_root_block_sync_state := ROOT_BLOCK_SYNCED\<rparr>)
           in if s_subsystem_release_requested s
              then release_device (restart_signet_command E) (s_device_system_owner s)
                     (s\<lparr>s_subsystem_release_requested := False\<rparr>)
              else Some s
      else Some s)"

definition write_block_complete :: "env \<Rightarrow> action" where
  "write_block_complete E s = do {
     s \<leftarrow> root_block_synced E s;
     (handled_by_db, s) \<leftarrow> db3_write_block_complete E s;
     if handled_by_db then Some s
     else do {
       s \<leftarrow> (case g_device_state s of
               DS_INITIALIZING \<Rightarrow> initializing_iter E s
             | DS_WIPING \<Rightarrow> wiping_iter E s
             | _ \<Rightarrow> Some s);
       if active_cmd s \<in> {WRITE_CLEARTEXT_PASSWORD, CHANGE_MASTER_PASSWORD, WRITE_BLOCK_HC, ERASE_BLOCK_HC}
       then finish_command_resp OKAY s
       else if active_cmd s = WRITE_FLASH then write_flash_cmd_complete s
       else if active_cmd s = STARTUP then startup_cmd_iter s
       else Some s
     }
   }"

definition flash_write_complete :: "env \<Rightarrow> action" where
  "flash_write_complete E s = do { s \<leftarrow> write_block_complete E s; firmware_update_write_block_complete s }"

definition flash_write_failed :: action where
  "flash_write_failed s = (if active_cmd s \<noteq> -1 then finish_command_resp WRITE_FAILED s else Some s)"

section \<open>Events\<close>

definition cmd_packet_sent :: "env \<Rightarrow> action" where
  "cmd_packet_sent E s = (if active_cmd s = READ_ALL_UIDS then read_all_uids_cmd_complete E s else Some s)"

text \<open>The part of \<open>cmd_rand_update\<close> for a device that is being initialised, then the rest.\<close>

definition rand_update_initializing :: "env \<Rightarrow> action" where
  "rand_update_initializing E s = do {
     s \<leftarrow> finalize_root_page_check E s;
     let avail = rand_avail (rnd s);
     if avail \<le> in_random_data_needed (d_init s) then do {
       let gathered = avail - in_rand_avail_init (d_init s) + 1;
       let s = upd_init (\<lambda>i. i\<lparr>in_random_data_gathered := gathered\<rparr>) s;
       get_progress_check
         (s\<lparr>g_progress_level := (g_progress_level s)(1 := gathered),
            progress_maximum := (progress_maximum s)
              (1 := in_random_data_needed (d_init s) - in_rand_avail_init (d_init s))\<rparr>)
     } else Some s
   }"

definition cmd_rand_update :: "env \<Rightarrow> action" where
  "cmd_rand_update E s = do {
     s \<leftarrow> (if g_device_state s = DS_INITIALIZING then rand_update_initializing E s else Some s);
     if active_cmd s = GET_RAND_BITS then get_rand_bits_cmd_check s
     else if active_cmd s = LOGIN then login_cmd_iter E s
     else Some s
   }"

text \<open>\<open>rand_push\<close> with \<open>rand_update\<close>; the FIDO code's own update is not modelled.\<close>

definition device_rand_push :: "env \<Rightarrow> rand_src \<Rightarrow> u32 \<Rightarrow> action" where
  "device_rand_push E src w s =
     (let (stored, r) = rand_push src w (rnd s); s = s\<lparr>rnd := r\<rparr>
      in if stored \<and> s_device_system_owner s = SIGNET_SUBSYSTEM then cmd_rand_update E s else Some s)"

definition button_press :: "env \<Rightarrow> action" where
  "button_press E s =
     (if waiting_for_button_press s then
        (let s = end_button_press_wait s in
         if active_cmd s = LOGIN then button_press_login E s
         else if active_cmd s = LOGIN_TOKEN then button_press_login_token E s
         else if active_cmd s = UPDATE_UID then update_uid_cmd_complete E s
         else if active_cmd s = READ_UID then read_uid_cmd_complete E s
         else if active_cmd s = BUTTON_WAIT then finish_command_resp OKAY s
         else Some s)
      else if waiting_for_long_button_press s then Some (pause_blinking s)
      else Some s)"

definition button_press_unprompted :: action where
  "button_press_unprompted s =
     (if g_device_state s = DS_DISCONNECTED then Some s else cmd_event_send 1 Ev_null 0 s)"

definition wipe_cmd_start :: "env \<Rightarrow> action" where
  "wipe_cmd_start E s = do {
     s \<leftarrow> finish_command_resp OKAY s;
     let s = s\<lparr>d_wipe := \<lparr>bd_block = replicate BLK_SIZE 0, bd_block_idx = ROOT_DATA_BLOCK\<rparr>\<rparr>;
     s \<leftarrow> write_data_block E ROOT_DATA_BLOCK Buf_wipe_block s;
     enter_progressing_state DS_WIPING [int NUM_STORAGE_BLOCKS] s
   }"

definition long_button_press :: "env \<Rightarrow> action" where
  "long_button_press E s =
     (if waiting_for_long_button_press s then
        (let s = end_long_button_press_wait s in
         if active_cmd s = READ_ALL_UIDS then read_all_uids_cmd_iter E s
         else if active_cmd s = UPDATE_UIDS then update_uid_cmd_complete E s
         else if active_cmd s = UPDATE_FIRMWARE then update_firmware_cmd_complete s
         else if active_cmd s = WIPE then wipe_cmd_start E s
         else if active_cmd s = BACKUP_DEVICE then do {
           s \<leftarrow> finish_command_resp OKAY s;
           enter_state DS_BACKING_UP_DEVICE (s\<lparr>backup_prev_state := g_device_state s\<rparr>)
         }
         else if active_cmd s = RESTORE_DEVICE then do {
           s \<leftarrow> finish_command_resp OKAY s;
           enter_state DS_RESTORING_DEVICE s
         }
         else if active_cmd s = INITIALIZE then initialize_cmd_complete E s
         else if active_cmd s = CHANGE_MASTER_PASSWORD then change_master_password_complete E s
         else Some s)
      else Some s)"

definition button_release :: "env \<Rightarrow> action" where
  "button_release E s = (if waiting_for_long_button_press s then resume_blinking blink_timeout s else Some s)"

definition timer_timeout :: action where
  "timer_timeout s =
     (let index = cleartext_pass_index s; s = s\<lparr>cleartext_pass_index := -1\<rparr>
      in if index \<ge> 0 then do {
           b \<leftarrow> memcpy_to (cleartext_type_buf s) 0 (concat (replicate (nat (index + 1)) [0, 42, 0, 0]));
           usb_keyboard_type Buf_cleartext (nat ((index + 1) * 2)) (s\<lparr>cleartext_type_buf := b, cleartext_pass_typing := True\<rparr>)
         } else Some s)"

section \<open>\<open>command_idle\<close>\<close>

definition command_idle_ready :: "fw \<Rightarrow> bool" where
  "command_idle_ready s \<longleftrightarrow>
     g_read_db_tx_complete s \<or> g_write_db_tx_complete s \<or> g_mmc_tx_cplt s \<or> g_mmc_tx_dma_cplt s \<or> g_mmc_rx_cplt s"

text \<open>The five parts of \<open>command_idle\<close>, in their order. The storage user's part is outside.\<close>

definition idle_read_db :: "env \<Rightarrow> action" where
  "idle_read_db E s =
     (if g_read_db_tx_complete s
      then read_block_complete E (emmc_user_done (END_WORK READ_DB_TX_CPLT_WORK (s\<lparr>g_read_db_tx_complete := False\<rparr>)))
      else Some s)"

definition idle_write_db :: "env \<Rightarrow> action" where
  "idle_write_db E s =
     (if g_write_db_tx_complete s
      then write_block_complete E (emmc_user_done (END_WORK WRITE_DB_TX_WORK (s\<lparr>g_write_db_tx_complete := False\<rparr>)))
      else Some s)"

definition idle_mmc_tx :: action where
  "idle_mmc_tx s =
     (if g_mmc_tx_cplt s then
        (let s = END_WORK MMC_TX_CPLT_WORK (s\<lparr>g_mmc_tx_cplt := False\<rparr>)
         in case g_emmc_user s of
              EMMC_USER_DB \<Rightarrow> Some (BEGIN_WORK WRITE_DB_TX_WORK (s\<lparr>g_write_db_tx_complete := True\<rparr>))
            | EMMC_USER_NONE \<Rightarrow> None
            | _ \<Rightarrow> Some s)
      else Some s)"

definition idle_mmc_tx_dma :: action where
  "idle_mmc_tx_dma s =
     (if g_mmc_tx_dma_cplt s then
        (let s = END_WORK MMC_TX_DMA_CPLT_WORK (s\<lparr>g_mmc_tx_dma_cplt := False\<rparr>)
         in case g_emmc_user s of
              EMMC_USER_NONE \<Rightarrow> None
            | EMMC_USER_STORAGE \<Rightarrow> Some s
            | _ \<Rightarrow> Some (put_out Out_mmc_write_cont s))
      else Some s)"

definition idle_mmc_rx :: action where
  "idle_mmc_rx s =
     (if g_mmc_rx_cplt s then
        (let s = END_WORK MMC_RX_CPLT_WORK (s\<lparr>g_mmc_rx_cplt := False\<rparr>)
         in case g_emmc_user s of
              EMMC_USER_DB \<Rightarrow> Some (BEGIN_WORK READ_DB_TX_CPLT_WORK (s\<lparr>g_read_db_tx_complete := True\<rparr>))
            | EMMC_USER_NONE \<Rightarrow> None
            | _ \<Rightarrow> Some s)
      else Some s)"

definition command_idle :: "env \<Rightarrow> action" where
  "command_idle E = run_all [idle_read_db E, idle_write_db E, idle_mmc_tx, idle_mmc_tx_dma, idle_mmc_rx]"

end
