(* ===== verification/Flash_Lemmas.thy ===== *)
theory Flash_Lemmas
  imports Fw_Flash
begin

text \<open>
  What \<open>flash.c\<close> achieves: the sector map is exact, a page write that the main loop drives
  by repeated \<open>flash_idle\<close> ends after a known number of calls with the page erased and the
  source programmed, and no step touches another sector.
\<close>

section \<open>The sector map\<close>

lemma sector_list: "[0..7::int] = [0, 1, 2, 3, 4, 5, 6, 7]"
  by (simp add: upto_rec1)

text \<open>
  C35. The two flash address functions are inverse: an address is given sector \<open>i\<close> exactly if
  \<open>i\<close> is one of the eight sectors and the address lies between the start of \<open>i\<close> and that of
  \<open>i + 1\<close>; every other address is given -1.
\<close>

theorem flash_sector_map:
  "(0 \<le> i \<and> flash_addr_to_sector a = i) =
     (0 \<le> i \<and> i < 8 \<and> flash_sector_to_addr i \<le> a \<and> a < flash_sector_to_addr (i + 1))"
proof -
  have "i \<in> {0, 1, 2, 3, 4, 5, 6, 7}" if "0 \<le> i" "i < 8" using that by simp presburger
  moreover have "flash_addr_to_sector a \<in> {-1, 0, 1, 2, 3, 4, 5, 6, 7}"
    by (simp add: flash_addr_to_sector_def sector_list)
  ultimately show ?thesis
    by (auto simp: flash_addr_to_sector_def sector_list flash_sector_to_addr_def split: if_splits)
qed

lemma flash_addr_to_sector_start:
  "0 \<le> i \<Longrightarrow> i < 8 \<Longrightarrow> flash_addr_to_sector (flash_sector_to_addr i) = i"
  using flash_sector_map [of i "flash_sector_to_addr i"] by (simp add: flash_sector_to_addr_def)

section \<open>Programming words\<close>

text \<open>The step that programs one word, and \<open>n\<close> of them.\<close>

definition prog1 :: "fw \<Rightarrow> fw" where
  "prog1 s =
     (let b = fst (flash_write_src s); off = snd (flash_write_src s); d = flash_write_dest s;
          w = slice (buf_get b s) off 4;
          mem = (\<lambda>a. if d \<le> a \<and> a < d + 4 then flash_mem s a AND w ! (a - d) else flash_mem s a)
      in (put_out (Out_flash_program d (rd32 w 0)) (s\<lparr>flash_mem := mem\<rparr>))
           \<lparr>flash_write_length := flash_write_length s - 4, flash_write_src := (b, off + 4),
            flash_write_dest := d + 4\<rparr>)"

definition progn :: "nat \<Rightarrow> fw \<Rightarrow> fw" where
  "progn n = (prog1 ^^ n)"

lemma progn_0 [simp]: "progn 0 s = s"
  by (simp add: progn_def)

lemma progn_Suc: "progn (Suc n) s = prog1 (progn n s)"
  by (simp add: progn_def)

lemma progn_add: "progn n (progn m s) = progn (m + n) s"
  by (simp add: progn_def add.commute [of m n] funpow_add)

lemma prog1_simps [simp]:
  "flash_write_length (prog1 s) = flash_write_length s - 4"
  "flash_write_src (prog1 s) = (fst (flash_write_src s), snd (flash_write_src s) + 4)"
  "flash_write_dest (prog1 s) = flash_write_dest s + 4"
  "flash_state (prog1 s) = flash_state s"
  "buf_get b (prog1 s) = buf_get b s"
  "root_page_ptr (prog1 s) = root_page_ptr s"
  by (simp_all add: prog1_def put_out_def Let_def)

lemma progn_simps [simp]:
  "flash_write_length (progn n s) = flash_write_length s - 4 * int n"
  "flash_write_src (progn n s) = (fst (flash_write_src s), snd (flash_write_src s) + 4 * n)"
  "flash_write_dest (progn n s) = flash_write_dest s + 4 * n"
  "flash_state (progn n s) = flash_state s"
  "buf_get b (progn n s) = buf_get b s"
  "root_page_ptr (progn n s) = root_page_ptr s"
  by (induction n) (simp_all add: progn_Suc)

lemma prog1_mem:
  assumes "snd (flash_write_src s) + 4 \<le> length (buf_get (fst (flash_write_src s)) s)"
  shows "flash_mem (prog1 s) a =
    (if flash_write_dest s \<le> a \<and> a < flash_write_dest s + 4
     then flash_mem s a AND buf_get (fst (flash_write_src s)) s ! (snd (flash_write_src s) + (a - flash_write_dest s))
     else flash_mem s a)"
proof -
  have "slice (buf_get (fst (flash_write_src s)) s) (snd (flash_write_src s)) 4 ! (a - flash_write_dest s)
      = buf_get (fst (flash_write_src s)) s ! (snd (flash_write_src s) + (a - flash_write_dest s))"
    if "flash_write_dest s \<le> a \<and> a < flash_write_dest s + 4"
    by (rule nth_slice) (use that assms in auto)
  then show ?thesis by (auto simp: prog1_def put_out_def Let_def)
qed

lemma progn_mem:
  assumes "snd (flash_write_src s) + 4 * n \<le> length (buf_get (fst (flash_write_src s)) s)"
  shows "flash_mem (progn n s) a =
    (if flash_write_dest s \<le> a \<and> a < flash_write_dest s + 4 * n
     then flash_mem s a AND buf_get (fst (flash_write_src s)) s ! (snd (flash_write_src s) + (a - flash_write_dest s))
     else flash_mem s a)"
  using assms
proof (induction n)
  case (Suc n)
  have m: "flash_mem (progn (Suc n) s) a =
      (if flash_write_dest s + 4 * n \<le> a \<and> a < flash_write_dest s + 4 * n + 4
       then flash_mem (progn n s) a AND buf_get (fst (flash_write_src s)) s !
              (snd (flash_write_src s) + 4 * n + (a - (flash_write_dest s + 4 * n)))
       else flash_mem (progn n s) a)"
    unfolding progn_Suc by (subst prog1_mem) (use Suc.prems in simp_all)
  show ?case
    unfolding m using Suc by auto
qed auto

lemma flash_program_word_prog1:
  assumes "0 < flash_write_length s"
    and "snd (flash_write_src s) + 4 \<le> length (buf_get (fst (flash_write_src s)) s)"
  shows "flash_program_word s = Some (prog1 s)"
proof -
  obtain b off where src: "flash_write_src s = (b, off)" by (cases "flash_write_src s")
  with assms show ?thesis
    by (simp add: flash_program_word_def HAL_FLASH_Program_def prog1_def read_from_def Let_def put_out_def)
qed

lemma flash_program_word_done: "flash_write_length s \<le> 0 \<Longrightarrow> flash_program_word s = Some s"
  by (simp add: flash_program_word_def)

lemma run_words_Suc:
  assumes "snd (flash_write_src s) + 4 * m \<le> length (buf_get (fst (flash_write_src s)) s)"
    and "flash_write_length s = 4 * int m"
  shows "flash_program_word (progn (min k m) s) = Some (progn (min (Suc k) m) s)"
proof (cases "k < m")
  case True
  then have "min k m = k" "min (Suc k) m = Suc k" by simp_all
  moreover have "flash_program_word (progn k s) = Some (prog1 (progn k s))"
    by (rule flash_program_word_prog1) (use True assms in simp_all)
  ultimately show ?thesis by (simp only: progn_Suc)
next
  case False
  then have "min k m = m" "min (Suc k) m = m" by simp_all
  moreover have "flash_program_word (progn m s) = Some (progn m s)"
    by (rule flash_program_word_done) (simp add: assms(2))
  ultimately show ?thesis by simp
qed

lemma run_words:
  assumes "snd (flash_write_src s) + 4 * m \<le> length (buf_get (fst (flash_write_src s)) s)"
    and "flash_write_length s = 4 * int m"
  shows "run_all (replicate k flash_program_word) s = Some (progn (min k m) s)"
proof (induction k)
  case (Suc k)
  have "run_all (replicate (Suc k) flash_program_word) s = flash_program_word (progn (min k m) s)"
    unfolding replicate_Suc replicate_append_same [symmetric] run_all_append Suc.IH
    by (simp split: option.split)
  then show ?case using run_words_Suc [OF assms] by simp
qed simp

section \<open>Driving a write to its end\<close>

text \<open>\<open>n\<close> calls of \<open>flash_idle\<close> by the main loop, with nothing done at completion.\<close>

fun flash_steps :: "nat \<Rightarrow> action" where
  "flash_steps 0 s = Some s"
| "flash_steps (Suc n) s = (case flash_idle Some s of None \<Rightarrow> None | Some s' \<Rightarrow> flash_steps n s')"

text \<open>The state at the end of a write of \<open>m\<close> words.\<close>

definition flash_done :: "nat \<Rightarrow> fw \<Rightarrow> fw" where
  "flash_done m s = END_WORK FLASH_WORK ((progn m s)\<lparr>flash_state := FLASH_IDLE\<rparr>)"

lemma flash_done_state [simp]: "flash_state (flash_done m s) = FLASH_IDLE"
  by (simp add: flash_done_def END_WORK_def)

lemma flash_done_mem [simp]: "flash_mem (flash_done m s) = flash_mem (progn m s)"
  by (simp add: flash_done_def END_WORK_def)

lemma flash_steps_idle: "flash_state s = FLASH_IDLE \<Longrightarrow> flash_steps n s = Some s"
  by (induction n) (simp_all add: flash_idle_def)

lemma flash_program_word_state: "flash_program_word s = Some s' \<Longrightarrow> flash_state s' = flash_state s"
  by (auto simp: flash_program_word_def HAL_FLASH_Program_def put_out_def bind_eq_Some_conv
      split: if_splits prod.splits)

lemma run_words_state:
  "run_all (replicate k flash_program_word) s = Some s' \<Longrightarrow> flash_state s' = flash_state s"
  by (induction k arbitrary: s) (auto split: option.splits dest: flash_program_word_state)

lemma flash_idle_WRITING:
  assumes "flash_state s = FLASH_WRITING"
  shows "flash_idle complete s = (case run_all (replicate 16 flash_program_word) s of
      None \<Rightarrow> None
    | Some t \<Rightarrow> if flash_write_length t = 0
                then complete (END_WORK FLASH_WORK (t\<lparr>flash_state := FLASH_IDLE\<rparr>)) else Some t)"
  unfolding flash_idle_def assms
  by (cases "run_all (replicate 16 flash_program_word) s")
    (simp_all only: flash_state.case Option.bind.simps option.case)

text \<open>\<open>flash_write_complete\<close> is called by the call that ends the write, and by no other.\<close>

lemma flash_idle_complete:
  "flash_idle complete s =
     (case flash_idle Some s of
        None \<Rightarrow> None
      | Some s' \<Rightarrow> if flash_state s \<noteq> FLASH_IDLE \<and> flash_state s' = FLASH_IDLE then complete s' else Some s')"
proof (cases "flash_state s")
  case FLASH_ERASING
  then show ?thesis
    by (cases "HAL_FLASHEx_Erase (flash_erase_sector s) s") (simp_all add: flash_idle_def END_WORK_def)
next
  case FLASH_WRITING
  show ?thesis
  proof (cases "run_all (replicate 16 flash_program_word) s")
    case (Some t)
    then have "flash_state t = FLASH_WRITING" using run_words_state FLASH_WRITING by metis
    then show ?thesis unfolding flash_idle_WRITING [OF FLASH_WRITING] Some
      by (simp add: END_WORK_def FLASH_WRITING)
  next
    case None
    show ?thesis unfolding flash_idle_WRITING [OF FLASH_WRITING] None by simp
  qed
qed (simp add: flash_idle_def)

lemma flash_idle_writing:
  assumes "flash_state s = FLASH_WRITING" "flash_write_length s = 4 * int m"
    and "snd (flash_write_src s) + 4 * m \<le> length (buf_get (fst (flash_write_src s)) s)"
  shows "flash_idle Some s = Some (if m \<le> 16 then flash_done m s else progn 16 s)"
  unfolding flash_idle_WRITING [OF assms(1)] run_words [OF assms(3,2)] flash_done_def
  using assms(2) by (auto simp: min_def)

lemma flash_done_progn: "flash_done m (progn k s) = flash_done (k + m) s"
  by (simp add: flash_done_def progn_add)

text \<open>A pending write of \<open>m\<close> words: complete after \<open>m div 16 + 1\<close> calls, a prefix before.\<close>

lemma flash_steps_writing:
  assumes "flash_state s = FLASH_WRITING" "flash_write_length s = 4 * int m"
    and "snd (flash_write_src s) + 4 * m \<le> length (buf_get (fst (flash_write_src s)) s)"
  shows "flash_steps n s = Some (if 0 < n \<and> m \<le> 16 * n then flash_done m s else progn (16 * n) s)"
  using assms
proof (induction n arbitrary: s m)
  case (Suc n)
  show ?case
  proof (cases "m \<le> 16")
    case True
    then show ?thesis
      by (simp add: flash_idle_writing [OF Suc.prems] flash_steps_idle)
  next
    case False
    have "flash_steps n (progn 16 s) = Some (if 0 < n \<and> m - 16 \<le> 16 * n
        then flash_done (m - 16) (progn 16 s) else progn (16 * n) (progn 16 s))"
      by (rule Suc.IH) (use False Suc.prems in auto)
    with False show ?thesis
      by (auto simp: flash_idle_writing [OF Suc.prems] flash_done_progn progn_add)
  qed
qed simp

section \<open>Writing a page\<close>

lemma erased_and [simp]: "255 AND w = (w :: u8)"
proof -
  have "(255 :: u8) = - 1" by simp
  then show ?thesis by (simp only: and.left_neutral)
qed

abbreviation (input) sector_range :: "int \<Rightarrow> nat \<Rightarrow> bool" where
  "sector_range i a \<equiv> flash_sector_to_addr i \<le> a \<and> a < flash_sector_to_addr (i + 1)"

text \<open>The state after the erase of sector \<open>i\<close>, with \<open>m\<close> words to come.\<close>

definition flash_erased :: "int \<Rightarrow> nat \<Rightarrow> fw \<Rightarrow> fw" where
  "flash_erased i m s =
     (let s = put_out (Out_flash_erase (nat i))
            (s\<lparr>flash_mem := (\<lambda>a. if sector_range i a then 0xff else flash_mem s a)\<rparr>)
      in if m = 0 then END_WORK FLASH_WORK (s\<lparr>flash_state := FLASH_IDLE\<rparr>) else s\<lparr>flash_state := FLASH_WRITING\<rparr>)"

lemma flash_erased_simps [simp]:
  "flash_mem (flash_erased i m s) a = (if sector_range i a then 0xff else flash_mem s a)"
  "flash_write_src (flash_erased i m s) = flash_write_src s"
  "flash_write_dest (flash_erased i m s) = flash_write_dest s"
  "flash_write_length (flash_erased i m s) = flash_write_length s"
  "flash_state (flash_erased i m s) = (if m = 0 then FLASH_IDLE else FLASH_WRITING)"
  "buf_get b (flash_erased i m s) = buf_get b s"
  by (simp_all add: flash_erased_def Let_def put_out_def END_WORK_def)

lemma flash_idle_erasing:
  assumes "flash_state s = FLASH_ERASING" "0 \<le> flash_erase_sector s" "flash_erase_sector s < 8"
    and "flash_write_length s = 4 * int m"
  shows "flash_idle Some s = Some (flash_erased (flash_erase_sector s) m s)"
  using assms by (simp add: flash_idle_def HAL_FLASHEx_Erase_def flash_erased_def put_out_def Let_def)

text \<open>The state \<open>flash_write_page\<close> leaves.\<close>

definition page_started :: "nat \<Rightarrow> buf \<Rightarrow> nat \<Rightarrow> fw \<Rightarrow> fw" where
  "page_started dest src m s =
     BEGIN_WORK FLASH_WORK
       (s\<lparr>flash_write_dest := dest, flash_write_src := (src, 0), flash_write_length := 4 * int m,
          flash_erase_sector := flash_addr_to_sector dest, flash_state := FLASH_ERASING\<rparr>)"

lemma page_started_simps [simp]:
  "flash_mem (page_started dest src m s) = flash_mem s"
  "flash_write_src (page_started dest src m s) = (src, 0)"
  "flash_write_dest (page_started dest src m s) = dest"
  "flash_write_length (page_started dest src m s) = 4 * int m"
  "flash_state (page_started dest src m s) = FLASH_ERASING"
  "flash_erase_sector (page_started dest src m s) = flash_addr_to_sector dest"
  "buf_get b (page_started dest src m s) = buf_get b s"
  by (simp_all add: page_started_def BEGIN_WORK_def)

lemma flash_write_page_started:
  "flash_write_page dest src (4 * int m) s =
     (if flash_state s = FLASH_IDLE then Some (page_started dest src m s) else None)"
  by (simp add: flash_write_page_def page_started_def BEGIN_WORK_def Let_def)

text \<open>Where a page write stands after \<open>n\<close> calls of \<open>flash_idle\<close>.\<close>

lemma page_steps:
  assumes sector: "0 \<le> i" "i < 8" and src: "4 * m \<le> length (buf_get b s)"
  shows "flash_steps (Suc n) (page_started (flash_sector_to_addr i) b m s) =
    (let e = flash_erased i m (page_started (flash_sector_to_addr i) b m s)
     in Some (if m = 0 then e else if 0 < n \<and> m \<le> 16 * n then flash_done m e else progn (16 * n) e))"
proof -
  let ?s = "page_started (flash_sector_to_addr i) b m s"
  have idle: "flash_idle Some ?s = Some (flash_erased i m ?s)"
    using flash_idle_erasing [of ?s m] sector by (simp add: flash_addr_to_sector_start)
  show ?thesis
  proof (cases "m = 0")
    case True
    then show ?thesis using idle by (simp add: flash_steps_idle)
  next
    case False
    have "flash_steps n (flash_erased i m ?s) =
        Some (if 0 < n \<and> m \<le> 16 * n then flash_done m (flash_erased i m ?s) else progn (16 * n) (flash_erased i m ?s))"
      by (rule flash_steps_writing) (use False src in auto)
    with False idle show ?thesis by (simp add: Let_def)
  qed
qed

declare flash_steps.simps(2) [simp del]

text \<open>The memory while \<open>k\<close> words of the page are programmed, inside the sector.\<close>

lemma page_mem:
  assumes "k \<le> m" "4 * m \<le> length (buf_get b s)"
    and "flash_sector_to_addr i + 4 * m \<le> flash_sector_to_addr (i + 1)"
  shows "flash_mem (progn k (flash_erased i m (page_started (flash_sector_to_addr i) b m s))) a =
    (if sector_range i a
     then if a < flash_sector_to_addr i + 4 * k then buf_get b s ! (a - flash_sector_to_addr i) else 0xff
     else flash_mem s a)"
  by (subst progn_mem) (use assms in auto)

text \<open>The two properties of a page write, used again for the root page.\<close>

lemma page_write_complete_aux:
  assumes "flash_state s = FLASH_IDLE" and "0 \<le> i" "i < 8"
    and "4 * m \<le> length (buf_get b s)"
    and "flash_sector_to_addr i + 4 * m \<le> flash_sector_to_addr (i + 1)"
    and "m \<le> 16 * n" "0 < n"
  shows "\<exists>s1 s2. flash_write_page (flash_sector_to_addr i) b (4 * int m) s = Some s1
      \<and> flash_steps (Suc n) s1 = Some s2 \<and> flash_state s2 = FLASH_IDLE
      \<and> (\<forall>a. flash_mem s2 a =
           (if flash_sector_to_addr i \<le> a \<and> a < flash_sector_to_addr i + 4 * m
            then buf_get b s ! (a - flash_sector_to_addr i)
            else if flash_sector_to_addr i \<le> a \<and> a < flash_sector_to_addr (i + 1) then 0xff
            else flash_mem s a))"
proof -
  let ?p = "page_started (flash_sector_to_addr i) b m s"
  have "flash_write_page (flash_sector_to_addr i) b (4 * int m) s = Some ?p"
    by (simp add: flash_write_page_started assms(1))
  moreover have "flash_steps (Suc n) ?p = Some (if m = 0 then flash_erased i m ?p else flash_done m (flash_erased i m ?p))"
    unfolding page_steps [OF assms(2-4)] using assms(6,7) by (simp add: Let_def)
  moreover have "flash_mem (flash_done m (flash_erased i m ?p)) a =
      (if sector_range i a
       then if a < flash_sector_to_addr i + 4 * m then buf_get b s ! (a - flash_sector_to_addr i) else 0xff
       else flash_mem s a)" for a
    using page_mem [of m m b s i a] assms(4,5) by simp
  ultimately show ?thesis using assms(5) by auto
qed

lemma page_write_confined_aux:
  assumes "flash_state s = FLASH_IDLE" and "0 \<le> i" "i < 8"
    and "4 * m \<le> length (buf_get b s)"
    and "flash_sector_to_addr i + 4 * m \<le> flash_sector_to_addr (i + 1)"
    and "a < flash_sector_to_addr i \<or> flash_sector_to_addr (i + 1) \<le> a"
  shows "\<exists>s1 s2. flash_write_page (flash_sector_to_addr i) b (4 * int m) s = Some s1
      \<and> flash_steps n s1 = Some s2 \<and> flash_mem s2 a = flash_mem s a"
proof -
  let ?p = "page_started (flash_sector_to_addr i) b m s"
  have start: "flash_write_page (flash_sector_to_addr i) b (4 * int m) s = Some ?p"
    by (simp add: flash_write_page_started assms(1))
  have out: "\<not> sector_range i a" using assms(6) by auto
  show ?thesis
  proof (cases n)
    case 0
    with start show ?thesis by simp
  next
    case (Suc k)
    have "flash_mem (progn j (flash_erased i m ?p)) a = flash_mem s a" if "j \<le> m" for j
      using page_mem [of j m b s i a] that out assms(4,5) by auto
    then show ?thesis
      using start page_steps [OF assms(2-4), of k] out
      by (cases "m = 0"; cases "0 < k \<and> m \<le> 16 * k") (auto simp: Suc Let_def)
  qed
qed

lemma page_write_done:
  assumes "flash_state s = FLASH_IDLE" and "0 \<le> i" "i < 8" and "4 * m \<le> length (buf_get b s)"
    and "flash_sector_to_addr i + 4 * m \<le> flash_sector_to_addr (i + 1)" and "m \<le> 16 * n" "0 < n"
  shows "\<exists>s1 s2. flash_write_page (flash_sector_to_addr i) b (4 * int m) s = Some s1
      \<and> flash_steps (Suc n) s1 = Some s2 \<and> flash_state s2 = FLASH_IDLE
      \<and> (\<forall>k < 4 * m. flash_mem s2 (flash_sector_to_addr i + k) = buf_get b s ! k)"
  using page_write_complete_aux [OF assms] by fastforce

text \<open>
  C33. A page write that the main loop drives ends: after the erase and one call for every 16
  words the state machine is idle, the sector holds the source followed by erased bytes, and
  the rest of the flash is as it was.
\<close>

theorem page_write_complete:
  assumes "flash_state s = FLASH_IDLE" and "0 \<le> i" "i < 8"
    and "4 * m \<le> length (buf_get b s)"
    and "flash_sector_to_addr i + 4 * m \<le> flash_sector_to_addr (i + 1)"
    and "m \<le> 16 * n" "0 < n"
  shows "\<exists>s1 s2. flash_write_page (flash_sector_to_addr i) b (4 * int m) s = Some s1
      \<and> flash_steps (Suc n) s1 = Some s2 \<and> flash_state s2 = FLASH_IDLE
      \<and> (\<forall>a. flash_mem s2 a =
           (if flash_sector_to_addr i \<le> a \<and> a < flash_sector_to_addr i + 4 * m
            then buf_get b s ! (a - flash_sector_to_addr i)
            else if flash_sector_to_addr i \<le> a \<and> a < flash_sector_to_addr (i + 1) then 0xff
            else flash_mem s a))"
  using assms by (rule page_write_complete_aux)

theorem page_write_complete_witness:
  "\<exists>s1 s2. flash_write_page (flash_sector_to_addr 1) Buf_write_flash (4 * int 4) fw_reset = Some s1
      \<and> flash_steps (Suc 1) s1 = Some s2 \<and> flash_state s2 = FLASH_IDLE"
  using page_write_complete [of fw_reset 1 4 Buf_write_flash 1]
  by (fastforce simp: fw_reset_def buf_get_def flash_sector_to_addr_def)

text \<open>
  C34. At every moment of a page write only the sector being written has changed, however many
  times the main loop has run and also if the write is then abandoned.
\<close>

theorem page_write_confined:
  assumes "flash_state s = FLASH_IDLE" and "0 \<le> i" "i < 8"
    and "4 * m \<le> length (buf_get b s)"
    and "flash_sector_to_addr i + 4 * m \<le> flash_sector_to_addr (i + 1)"
    and "a < flash_sector_to_addr i \<or> flash_sector_to_addr (i + 1) \<le> a"
  shows "\<exists>s1 s2. flash_write_page (flash_sector_to_addr i) b (4 * int m) s = Some s1
      \<and> flash_steps n s1 = Some s2 \<and> flash_mem s2 a = flash_mem s a"
  using assms by (rule page_write_confined_aux)

theorem page_write_confined_witness:
  "\<exists>s1 s2. flash_write_page (flash_sector_to_addr 1) Buf_write_flash (4 * int 40) fw_reset = Some s1
      \<and> flash_steps 2 s1 = Some s2 \<and> flash_mem s2 0x8000000 = 0xff"
  using page_write_confined [where s = fw_reset and i = 1 and m = 40 and b = Buf_write_flash and a = "0x8000000" and n = 2]
  by (fastforce simp: fw_reset_def buf_get_def flash_sector_to_addr_def)

end
