(* ===== verification/Root_Page.thy ===== *)
theory Root_Page
  imports Dispatch Flash_Lemmas
begin

text \<open>
  The root page and its two copies in flash: \<open>write_root_block\<close> writes the copy that is not in
  use, \<open>cmd_init\<close> chooses between them at startup. A power failure during the write leaves the
  copy in use as it was; after the write the new copy is chosen, up to the wrap-around of the
  \<open>u16\<close> iteration number.
\<close>

section \<open>The two copies\<close>

definition crypt_sector :: "crypt_page \<Rightarrow> int" where
  "crypt_sector p = (case p of Crypt_data1 \<Rightarrow> 0 | Crypt_data2 \<Rightarrow> 1)"

lemma crypt_sector_range: "0 \<le> crypt_sector p" "crypt_sector p < 8"
  by (cases p; simp add: crypt_sector_def)+

lemma crypt_addr_sector: "crypt_addr p = flash_sector_to_addr (crypt_sector p)"
  by (cases p) (simp_all add: crypt_addr_def crypt_sector_def flash_sector_to_addr_def)

lemma crypt_sector_size: "flash_sector_to_addr (crypt_sector p + 1) = crypt_addr p + 16384"
  by (cases p) (simp_all add: crypt_addr_def crypt_sector_def flash_sector_to_addr_def)

lemma next_crypt_page_other: "next_crypt_page (Some p) \<noteq> p"
  by (cases p) (simp_all add: next_crypt_page_def)

lemma other_page_outside:
  "i < 16384 \<Longrightarrow> crypt_addr p + i < crypt_addr (next_crypt_page (Some p))
     \<or> crypt_addr (next_crypt_page (Some p)) + 16384 \<le> crypt_addr p + i"
  by (cases p) (simp_all add: next_crypt_page_def crypt_addr_def)

lemma flash_read_cong:
  "(\<And>i. i < n \<Longrightarrow> flash_mem s (addr + i) = flash_mem t (addr + i)) \<Longrightarrow> flash_read addr n s = flash_read addr n t"
  by (simp add: flash_read_def)

lemma flash_read_eqI:
  "length d = n \<Longrightarrow> (\<And>i. i < n \<Longrightarrow> flash_mem s (addr + i) = d ! i) \<Longrightarrow> flash_read addr n s = d"
  by (rule nth_equalityI) (simp_all add: flash_read_def)

lemma page_valid_cong:
  "flash_read (crypt_addr p) ROOT_PAGE_SIZE s = flash_read (crypt_addr p) ROOT_PAGE_SIZE t \<Longrightarrow>
   page_valid E p s = page_valid E p t \<and> page_iteration p s = page_iteration p t"
  by (simp add: page_valid_def page_iteration_def)

lemma page_iteration_less: "page_iteration p s < 65536"
  by (simp add: page_iteration_def rd16_less)

lemma flash_iteration:
  "rd16 (flash_read (crypt_addr p + RP_DATA_ITERATION) 2 s) 0 = page_iteration p s"
  unfolding page_iteration_def by (rule rd16_cong) (simp_all add: flash_read_def add.assoc)

section \<open>What \<open>write_root_block\<close> writes\<close>

text \<open>The page with its iteration number and checksum.\<close>

definition stamp_root_page :: "env \<Rightarrow> nat \<Rightarrow> bytes \<Rightarrow> bytes" where
  "stamp_root_page E it d =
     (let d = splice d RP_DATA_ITERATION (le16 it)
      in splice d RP_CRC (le32 (unat (crc_32 E (slice d 4 (ROOT_PAGE_SIZE - 4))))))"

lemma length_stamp_root_page [simp]:
  "ROOT_PAGE_SIZE \<le> length d \<Longrightarrow> length (stamp_root_page E it d) = length d"
  by (simp add: stamp_root_page_def Let_def)

lemma rd32_le32: "n < 2 ^ 32 \<Longrightarrow> off + 4 \<le> length b \<Longrightarrow> rd32 (splice b off (le32 n)) off = n"
proof -
  assume n: "n < 2 ^ 32" and b: "off + 4 \<le> length b"
  have "rd16 (splice b off (le32 n)) off = rd16 (le16 n) 0"
    using b by (intro rd16_cong) (simp_all add: nth_splice le32_def nth_append)
  moreover have "rd16 (splice b off (le32 n)) (off + 2) = rd16 (le16 (n div 65536)) 0"
    using b by (intro rd16_cong) (simp_all add: nth_splice le32_def nth_append)
  ultimately show ?thesis using n by (simp add: rd32_def rd16_le16)
qed

lemma stamp_root_page_crc:
  assumes "ROOT_PAGE_SIZE \<le> length d"
  shows "crc_32 E (slice (stamp_root_page E it d) 4 (ROOT_PAGE_SIZE - 4)) = c \<Longrightarrow>
         rd32 (stamp_root_page E it d) RP_CRC = unat c"
proof -
  let ?d = "splice d RP_DATA_ITERATION (le16 it)"
  let ?c = "crc_32 E (slice ?d 4 (ROOT_PAGE_SIZE - 4))"
  have d: "length ?d = length d" using assms by simp
  have "slice (stamp_root_page E it d) 4 (ROOT_PAGE_SIZE - 4) = slice ?d 4 (ROOT_PAGE_SIZE - 4)"
    unfolding stamp_root_page_def Let_def by (rule slice_splice_after) (use assms in simp_all)
  moreover have "rd32 (stamp_root_page E it d) RP_CRC = unat ?c"
    unfolding stamp_root_page_def Let_def
    by (rule rd32_le32) (use assms unsigned_less [of ?c, where ?'a = nat] in simp_all)
  ultimately show "crc_32 E (slice (stamp_root_page E it d) 4 (ROOT_PAGE_SIZE - 4)) = c \<Longrightarrow>
         rd32 (stamp_root_page E it d) RP_CRC = unat c" by simp
qed

lemma stamp_root_page_iteration:
  assumes "ROOT_PAGE_SIZE \<le> length d"
  shows "rd16 (stamp_root_page E it d) RP_DATA_ITERATION = it mod 65536"
  unfolding stamp_root_page_def Let_def
  by (subst rd16_splice_other) (use assms rd16_splice_same [of RP_DATA_ITERATION d it] in simp_all)

lemma stamp_root_page_rest:
  assumes "ROOT_PAGE_SIZE \<le> length d" "i < length d" "4 \<le> i" "i \<noteq> 8" "i \<noteq> 9"
  shows "stamp_root_page E it d ! i = d ! i"
  using assms by (simp add: stamp_root_page_def Let_def nth_splice)

definition next_iteration :: "fw \<Rightarrow> nat" where
  "next_iteration s =
     (if g_root_page_valid s
      then (case root_page_ptr s of None \<Rightarrow> 0 | Some p \<Rightarrow> page_iteration p s + 1) else 0)"

text \<open>The state in which the write of the page begins.\<close>

definition root_write_state :: "env \<Rightarrow> buf \<Rightarrow> fw \<Rightarrow> fw" where
  "root_write_state E b s =
     (buf_put b (stamp_root_page E (next_iteration s) (buf_get b s)) s)
       \<lparr>root_page_ptr := Some (next_crypt_page (root_page_ptr s))\<rparr>"

lemma buf_put_frame [simp]:
  "flash_mem (buf_put b d s) = flash_mem s"
  "flash_state (buf_put b d s) = flash_state s"
  "root_page_ptr (buf_put b d s) = root_page_ptr s"
  by (cases b; simp add: buf_put_def)+

lemma write_root_block_eq:
  assumes "ROOT_PAGE_SIZE \<le> length (buf_get b s)" "g_root_page_valid s \<Longrightarrow> root_page_ptr s \<noteq> None"
  shows "write_root_block E b sz s =
    flash_write_page (crypt_addr (next_crypt_page (root_page_ptr s))) b (int sz) (root_write_state E b s)"
proof -
  have it: "(if g_root_page_valid s then (case root_page_ptr s of None \<Rightarrow> None
        | Some p \<Rightarrow> Some (rd16 (flash_read (crypt_addr p + RP_DATA_ITERATION) 2 s) 0 + 1)) else Some 0)
      = Some (next_iteration s)"
    using assms(2) by (auto simp: next_iteration_def flash_iteration)
  show ?thesis
    unfolding write_root_block_def it
    using assms(1)
    by (simp add: memcpy_to_def compute_device_data_crc_def read_from_def root_write_state_def
        stamp_root_page_def Let_def)
qed

section \<open>The write and the choice at startup\<close>

lemma take_page:
  assumes "ROOT_PAGE_SIZE \<le> length d"
  shows "compute_device_data_crc E (take ROOT_PAGE_SIZE d) = Some (crc_32 E (slice d 4 (ROOT_PAGE_SIZE - 4)))"
    and "rd32 (take ROOT_PAGE_SIZE d) RP_CRC = rd32 d RP_CRC"
    and "rd16 (take ROOT_PAGE_SIZE d) RP_DATA_ITERATION = rd16 d RP_DATA_ITERATION"
  using assms by (simp_all add: compute_device_data_crc_def read_from_def slice_def rd32_def rd16_def drop_take)

text \<open>A stamped page in flash is valid and carries its iteration number.\<close>

lemma stamped_page:
  assumes "flash_read (crypt_addr q) ROOT_PAGE_SIZE s = take ROOT_PAGE_SIZE (stamp_root_page E it d)"
    and "ROOT_PAGE_SIZE \<le> length d"
  shows "page_valid E q s" "page_iteration q s = it mod 65536"
proof -
  have l: "ROOT_PAGE_SIZE \<le> length (stamp_root_page E it d)" using assms(2) by simp
  show "page_valid E q s"
    unfolding page_valid_def assms(1) Let_def take_page [OF l]
    using stamp_root_page_crc [OF assms(2) refl] by simp
  show "page_iteration q s = it mod 65536"
    unfolding page_iteration_def assms(1) take_page [OF l] by (rule stamp_root_page_iteration [OF assms(2)])
qed

lemma root_write_state_simps [simp]:
  "flash_mem (root_write_state E b s) = flash_mem s"
  "flash_state (root_write_state E b s) = flash_state s"
  "root_page_ptr (root_write_state E b s) = Some (next_crypt_page (root_page_ptr s))"
  "b \<noteq> Buf_null \<Longrightarrow> buf_get b (root_write_state E b s) = stamp_root_page E (next_iteration s) (buf_get b s)"
  by (simp_all add: root_write_state_def buf_get_put)

text \<open>While the other copy is written, the copy in use does not change.\<close>

lemma root_write_keeps_current:
  assumes idle: "flash_state s = FLASH_IDLE" and b: "b \<noteq> Buf_null" "4 * m \<le> length (buf_get b s)"
    and m: "3073 \<le> m" "m \<le> 4096" and p: "root_page_ptr s = Some p"
  shows "\<exists>s1 s2. write_root_block E b (4 * m) s = Some s1 \<and> flash_steps n s1 = Some s2
      \<and> flash_read (crypt_addr p) ROOT_PAGE_SIZE s2 = flash_read (crypt_addr p) ROOT_PAGE_SIZE s"
proof -
  let ?q = "next_crypt_page (Some p)" and ?w = "root_write_state E b s"
  have len: "ROOT_PAGE_SIZE \<le> length (buf_get b s)" using b m by simp
  have bw: "4 * m \<le> length (buf_get b ?w)" using b len by simp
  have eq: "write_root_block E b (4 * m) s = flash_write_page (flash_sector_to_addr (crypt_sector ?q)) b (4 * int m) ?w"
    using write_root_block_eq [OF len, of E "4 * m"] p by (simp add: crypt_addr_sector)
  have size: "flash_sector_to_addr (crypt_sector ?q) + 4 * m \<le> flash_sector_to_addr (crypt_sector ?q + 1)"
    using m by (simp add: crypt_sector_size crypt_addr_sector)
  have out: "a < flash_sector_to_addr (crypt_sector ?q) \<or> flash_sector_to_addr (crypt_sector ?q + 1) \<le> a"
    if "a = crypt_addr p + i" "i < 16384" for a i
    using other_page_outside [of i p] that by (simp add: crypt_sector_size flip: crypt_addr_sector)
  have start: "\<exists>s1 s2. write_root_block E b (4 * m) s = Some s1 \<and> flash_steps n s1 = Some s2
      \<and> flash_mem s2 a = flash_mem s a" if "a = crypt_addr p + i" "i < 16384" for a i
    unfolding eq using page_write_confined_aux [of ?w "crypt_sector ?q" m b a n] idle bw size out [OF that]
    by (simp add: crypt_sector_range)
  from start [of "crypt_addr p" 0] obtain s1 s2
    where s12: "write_root_block E b (4 * m) s = Some s1" "flash_steps n s1 = Some s2" by auto
  have "flash_mem s2 (crypt_addr p + i) = flash_mem s (crypt_addr p + i)" if "i < ROOT_PAGE_SIZE" for i
    using start [OF refl, of i] s12 that by auto
  then have "flash_read (crypt_addr p) ROOT_PAGE_SIZE s2 = flash_read (crypt_addr p) ROOT_PAGE_SIZE s"
    by (rule flash_read_cong)
  with s12 show ?thesis by blast
qed

text \<open>When it is written, the new copy is the stamped buffer.\<close>

lemma root_write_done:
  assumes idle: "flash_state s = FLASH_IDLE" and b: "b \<noteq> Buf_null" "4 * m \<le> length (buf_get b s)"
    and m: "3073 \<le> m" "m \<le> 4096" and p: "root_page_ptr s = Some p" and n: "m \<le> 16 * n"
  shows "\<exists>s1 s2. write_root_block E b (4 * m) s = Some s1 \<and> flash_steps (Suc n) s1 = Some s2
      \<and> flash_state s2 = FLASH_IDLE
      \<and> flash_read (crypt_addr (next_crypt_page (Some p))) ROOT_PAGE_SIZE s2
          = take ROOT_PAGE_SIZE (stamp_root_page E (next_iteration s) (buf_get b s))"
proof -
  let ?q = "next_crypt_page (Some p)" and ?w = "root_write_state E b s"
  let ?d = "stamp_root_page E (next_iteration s) (buf_get b s)"
  have len: "ROOT_PAGE_SIZE \<le> length (buf_get b s)" using b m by simp
  have eq: "write_root_block E b (4 * m) s = flash_write_page (flash_sector_to_addr (crypt_sector ?q)) b (4 * int m) ?w"
    using write_root_block_eq [OF len, of E "4 * m"] p by (simp add: crypt_addr_sector)
  have "\<exists>s1 s2. flash_write_page (flash_sector_to_addr (crypt_sector ?q)) b (4 * int m) ?w = Some s1
      \<and> flash_steps (Suc n) s1 = Some s2 \<and> flash_state s2 = FLASH_IDLE
      \<and> (\<forall>i < 4 * m. flash_mem s2 (flash_sector_to_addr (crypt_sector ?q) + i) = ?d ! i)"
    using page_write_done [of ?w "crypt_sector ?q" m b n] idle b len m n
    by (simp add: crypt_sector_range crypt_sector_size crypt_addr_sector)
  then obtain s1 s2 where s12: "write_root_block E b (4 * m) s = Some s1"
      "flash_steps (Suc n) s1 = Some s2" "flash_state s2 = FLASH_IDLE"
      and mem: "\<And>i. i < 4 * m \<Longrightarrow> flash_mem s2 (crypt_addr ?q + i) = ?d ! i"
    by (auto simp: eq crypt_addr_sector)
  have "flash_read (crypt_addr ?q) ROOT_PAGE_SIZE s2 = take ROOT_PAGE_SIZE ?d"
    by (rule flash_read_eqI) (use len m mem in simp_all)
  with s12 show ?thesis by blast
qed

text \<open>The copy chosen at startup is valid if one of them is.\<close>

lemma choose_root_page_valid: "page_valid E p s \<Longrightarrow> page_valid E (choose_root_page E s) s"
  by (cases p) (simp_all add: choose_root_page_def)

lemma choose_root_page_next:
  assumes "page_valid E (next_crypt_page (Some p)) s"
    and "page_iteration (next_crypt_page (Some p)) s \<noteq> page_iteration p s"
  shows "choose_root_page E s =
    (if page_valid E p s \<and> page_iteration (next_crypt_page (Some p)) s < page_iteration p s
     then p else next_crypt_page (Some p))"
  using assms by (cases p) (auto simp: choose_root_page_def next_crypt_page_def)

lemma sync_root_block_immediate_write:
  "sync_root_block_immediate E s =
     write_root_block E Buf_root_page (4 * 3073) (s\<lparr>g_root_block_sync_state := ROOT_BLOCK_WRITING\<rparr>)"
  by (simp add: sync_root_block_immediate_def)

lemma buf_get_root_page [simp]: "buf_get Buf_root_page s = root_page s"
  by (simp add: buf_get_def)

lemma page_frame [simp]:
  "flash_read a n (s\<lparr>g_root_block_sync_state := x\<rparr>) = flash_read a n s"
  "page_valid E p (s\<lparr>g_root_block_sync_state := x\<rparr>) = page_valid E p s"
  "page_iteration p (s\<lparr>g_root_block_sync_state := x\<rparr>) = page_iteration p s"
  "next_iteration (s\<lparr>g_root_block_sync_state := x\<rparr>) = next_iteration s"
  by (simp_all add: flash_read_def page_valid_def page_iteration_def next_iteration_def Let_def split: option.split)

text \<open>Both copies erased, with the CRC unit of \<open>env_example\<close>: they count as valid.\<close>

definition example_page_state :: fw where
  "example_page_state = fw_reset\<lparr>root_page_ptr := Some Crypt_data1, g_root_page_valid := True\<rparr>"

lemma example_page_simps:
  "flash_state example_page_state = FLASH_IDLE" "length (root_page example_page_state) = ROOT_PAGE_SIZE"
  "root_page_ptr example_page_state = Some Crypt_data1" "g_root_page_valid example_page_state"
  by (simp_all add: example_page_state_def fw_reset_def)

lemma erased_page_valid: "(\<And>a. flash_mem s a = 0xff) \<Longrightarrow> page_valid env_example p s"
  by (simp add: page_valid_def compute_device_data_crc_def read_from_def crc_32_def Let_def rd32_def rd16_def
      flash_read_def unat_max32)

lemma example_page_valid: "page_valid env_example p example_page_state"
  by (rule erased_page_valid) (simp add: example_page_state_def fw_reset_def)

text \<open>
  C7. Writing the root block is safe against a power failure: while the copy in use has a right
  checksum, a restart after any number of steps of the write chooses a copy with a right
  checksum, and if it chooses the copy that was in use, it gets the page as it was. (The write goes
  to the other copy only; the two copies do not agree afterwards.)
\<close>

theorem root_write_power_safe:
  assumes "flash_state s = FLASH_IDLE" "length (root_page s) = ROOT_PAGE_SIZE"
    and "root_page_ptr s = Some p" "page_valid E p s"
  shows "\<exists>s1 s2. sync_root_block_immediate E s = Some s1 \<and> flash_steps n s1 = Some s2
      \<and> page_valid E (choose_root_page E s2) s2
      \<and> (root_page_ptr (cmd_init E s2) = Some p \<longrightarrow>
           root_page (cmd_init E s2) = flash_read (crypt_addr p) ROOT_PAGE_SIZE s)"
proof -
  let ?s = "s\<lparr>g_root_block_sync_state := ROOT_BLOCK_WRITING\<rparr>"
  obtain s1 s2 where w: "sync_root_block_immediate E s = Some s1" "flash_steps n s1 = Some s2"
      and r: "flash_read (crypt_addr p) ROOT_PAGE_SIZE s2 = flash_read (crypt_addr p) ROOT_PAGE_SIZE s"
    using root_write_keeps_current [of ?s Buf_root_page 3073 p E n] assms
    by (auto simp: sync_root_block_immediate_write)
  from r have "page_valid E p s2" using assms(4) page_valid_cong by blast
  with w r show ?thesis
    by (intro exI conjI) (auto intro: choose_root_page_valid simp: cmd_init_def Let_def)
qed

theorem root_write_power_safe_witness:
  "\<exists>s1 s2. sync_root_block_immediate env_example example_page_state = Some s1 \<and> flash_steps 7 s1 = Some s2
      \<and> page_valid env_example (choose_root_page env_example s2) s2"
  using root_write_power_safe [OF example_page_simps(1-3) example_page_valid, of 7] by blast

text \<open>
  C8. A completed write of the root block is what the next startup uses: it takes the page from
  the copy just written, with the bytes of \<open>root_page\<close> apart from checksum and iteration number,
  except when the iteration number of the valid old copy is 65535: then the new copy gets 0 and
  the old copy is chosen.
\<close>

theorem root_write_commit:
  assumes "flash_state s = FLASH_IDLE" "length (root_page s) = ROOT_PAGE_SIZE"
    and "root_page_ptr s = Some p" "g_root_page_valid s" and "193 \<le> n"
  shows "\<exists>s1 s2. sync_root_block_immediate E s = Some s1 \<and> flash_steps (Suc n) s1 = Some s2
      \<and> flash_state s2 = FLASH_IDLE
      \<and> (if page_valid E p s \<and> page_iteration p s = 65535
         then root_page_ptr (cmd_init E s2) = Some p
         else root_page_ptr (cmd_init E s2) = Some (next_crypt_page (Some p))
              \<and> (\<forall>i \<in> {4..<ROOT_PAGE_SIZE} - {8, 9}. root_page (cmd_init E s2) ! i = root_page s ! i))"
proof -
  let ?s = "s\<lparr>g_root_block_sync_state := ROOT_BLOCK_WRITING\<rparr>"
  let ?q = "next_crypt_page (Some p)" and ?it = "page_iteration p s + 1"
  have it: "next_iteration s = ?it" by (simp add: next_iteration_def assms(3,4))
  obtain s1 s2 where w: "sync_root_block_immediate E s = Some s1" "flash_steps (Suc n) s1 = Some s2"
      "flash_state s2 = FLASH_IDLE"
      and new: "flash_read (crypt_addr ?q) ROOT_PAGE_SIZE s2 = take ROOT_PAGE_SIZE (stamp_root_page E ?it (root_page s))"
    using root_write_done [of ?s Buf_root_page 3073 p n E] assms
    by (auto simp: sync_root_block_immediate_write it)
  obtain t1 t2 where t: "sync_root_block_immediate E s = Some t1" "flash_steps (Suc n) t1 = Some t2"
      and old: "flash_read (crypt_addr p) ROOT_PAGE_SIZE t2 = flash_read (crypt_addr p) ROOT_PAGE_SIZE s"
    using root_write_keeps_current [of ?s Buf_root_page 3073 p E "Suc n"] assms
    by (auto simp: sync_root_block_immediate_write)
  have "t2 = s2" using t w by simp
  have cong: "page_valid E p s2 = page_valid E p s" "page_iteration p s2 = page_iteration p s"
    using page_valid_cong old \<open>t2 = s2\<close> by blast+
  have q: "page_valid E ?q s2" "page_iteration ?q s2 = ?it mod 65536"
    by (rule stamped_page [OF new]; use assms(2) in simp)+
  have neq: "?it mod 65536 \<noteq> page_iteration p s"
    using page_iteration_less [of p s] by (cases "page_iteration p s = 65535") (auto simp: mod_less)
  have choice: "choose_root_page E s2 = (if page_valid E p s \<and> page_iteration p s = 65535 then p else ?q)"
    using choose_root_page_next [OF q(1)] neq page_iteration_less [of p s]
    by (cases "page_iteration p s = 65535") (auto simp: q(2) cong)
  have "root_page (cmd_init E s2) ! i = root_page s ! i"
    if "\<not> (page_valid E p s \<and> page_iteration p s = 65535)" "i \<in> {4..<ROOT_PAGE_SIZE} - {8, 9}" for i
    using that stamp_root_page_rest [of "root_page s" i E ?it] assms(2)
    by (auto simp: cmd_init_def choice new Let_def)
  with w choice show ?thesis by (auto simp: cmd_init_def Let_def)
qed

theorem root_write_commit_witness:
  "\<exists>s1 s2. sync_root_block_immediate env_example example_page_state = Some s1
      \<and> flash_steps 194 s1 = Some s2 \<and> flash_state s2 = FLASH_IDLE"
  using root_write_commit [OF example_page_simps, of 193 env_example] by auto

end
