(* ===== verification/Frame.thy ===== *)
theory Frame
  imports Dispatch
begin

text \<open>
  What the responses, the state changes and the button waits leave alone. An observation of
  the state that does not look at the variables of the packet layer and of the arbitration is
  not changed by sending a packet (\<open>packet_frame\<close>, \<open>tx_frame\<close>), nor, if it does not look at \<open>active_cmd\<close>
  either, by finishing a command (\<open>io_frame\<close>); one that in addition does not look at the
  device state and the progress counters is not changed by entering a state
  (\<open>state_frame\<close>), and one that does not look at the blinking and the waiting flags not by
  waiting for the button (\<open>button_frame\<close>). The observations of the memories, of the keys and
  of the database are such; the interpretations at the end say so.
\<close>

section \<open>Responses\<close>

locale packet_frame =
  fixes view :: "fw \<Rightarrow> 'a"
  assumes v_cmd_resp: "view (s\<lparr>cmd_resp := x6\<rparr>) = view s"
    and v_tx_data: "view (s\<lparr>raw_hid_tx_data := x7\<rparr>) = view s"
    and v_tx_seq: "view (s\<lparr>raw_hid_tx_seq := x8\<rparr>) = view s"
    and v_tx_count: "view (s\<lparr>raw_hid_tx_count := x9\<rparr>) = view s"
    and v_tx_cmd: "view (s\<lparr>raw_hid_tx_cmd_packet := x10\<rparr>) = view s"
    and v_tx_event: "view (s\<lparr>raw_hid_tx_event_packet := x11\<rparr>) = view s"
    and v_event_mask: "view (s\<lparr>event_mask := x12\<rparr>) = view s"
    and v_event_data: "view (s\<lparr>event_data := x13\<rparr>) = view s"
    and v_event_data_len: "view (s\<lparr>event_data_len := x14\<rparr>) = view s"
    and v_hid_busy: "view (s\<lparr>hid_busy := x15\<rparr>) = view s"
    and v_tx_report: "view (s\<lparr>tx_report := x16\<rparr>) = view s"
    and v_outs: "view (s\<lparr>outs := x17\<rparr>) = view s"
begin

lemmas io_vars = v_cmd_resp v_tx_data v_tx_seq
  v_tx_count v_tx_cmd v_tx_event v_event_mask v_event_data v_event_data_len v_hid_busy v_tx_report v_outs

lemma view_put_out: "view (put_out x s) = view s"
  by (simp add: put_out_def io_vars)

lemma view_SendReport: "USBD_HID_SendReport i t n s = Some s' \<Longrightarrow> view s' = view s"
  by (auto simp: USBD_HID_SendReport_def view_put_out io_vars split: if_splits)

lemma view_usb_send_bytes: "usb_send_bytes i t n s = Some s' \<Longrightarrow> view s' = view s"
  by (auto simp: usb_send_bytes_def io_vars split: if_splits dest: view_SendReport)

lemma view_event:
  assumes "maybe_send_raw_hid_event s = Some (b, s')"
  shows "view s' = view s"
proof -
  consider "s' = s" | i pkt where "usb_send_bytes INTERFACE_CMD Tx_event_packet RAW_HID_PACKET_SIZE
      (s\<lparr>event_mask := event_mask s AND NOT (push_bit i 1), raw_hid_tx_event_packet := pkt\<rparr>) = Some s'"
    using assms unfolding maybe_send_raw_hid_event_def Let_def
    apply (simp only: split: if_splits option.splits)
    apply (simp_all add: bind_eq_Some_conv)
    apply (auto split: if_splits)
    done
  then show ?thesis
    by cases (auto simp: io_vars dest: view_usb_send_bytes)
qed

lemma view_packet:
  assumes "maybe_send_raw_hid_packet sent s = Some s'"
    and "\<And>t t'. sent t = Some t' \<Longrightarrow> view t' = view t"
  shows "view s' = view s"
proof -
  obtain ev s1 where e: "maybe_send_raw_hid_event s = Some (ev, s1)"
    using assms(1) by (cases "maybe_send_raw_hid_event s") (auto simp: maybe_send_raw_hid_packet_def)
  note run = assms(1) [unfolded maybe_send_raw_hid_packet_def e, simplified]
  have "view s' = view s1"
  proof (cases "\<not> ev \<and> raw_hid_tx_seq s1 \<noteq> raw_hid_tx_count s1")
    case True
    with run have "\<exists>pkt s2.
        usb_send_bytes INTERFACE_CMD Tx_cmd_packet RAW_HID_PACKET_SIZE (s1\<lparr>raw_hid_tx_cmd_packet := pkt\<rparr>) = Some s2
        \<and> s' = s2\<lparr>raw_hid_tx_seq := raw_hid_tx_seq s2 + 1\<rparr>"
      by (auto simp: bind_eq_Some_conv Let_def)
    then show ?thesis using view_usb_send_bytes by (metis v_tx_cmd v_tx_seq)
  next
    case False
    with run show ?thesis by (auto simp: io_vars Let_def split: if_splits dest!: assms(2))
  qed
  then show ?thesis using view_event [OF e] by simp
qed

lemma view_cmd_packet_send: "cmd_packet_send n s = Some s' \<Longrightarrow> view s' = view s"
  by (auto simp: cmd_packet_send_def io_vars dest!: view_packet)

lemma view_cmd_event_send: "cmd_event_send k d n s = Some s' \<Longrightarrow> view s' = view s"
  by (auto simp: cmd_event_send_def io_vars dest!: view_event)

lemma view_rx_resume: "view (USBD_HID_rx_resume i s) = view s"
  by (simp add: USBD_HID_rx_resume_def view_put_out)

end

locale tx_frame = packet_frame +
  assumes v_owner: "view (s\<lparr>s_device_system_owner := x2\<rparr>) = view s"
    and v_ctap_waiting: "view (s\<lparr>s_ctap_subsystem_waiting := x3\<rparr>) = view s"
    and v_signet_waiting: "view (s\<lparr>s_signet_subsystem_waiting := x4\<rparr>) = view s"
    and v_release: "view (s\<lparr>s_subsystem_release_requested := x5\<rparr>) = view s"
begin

lemmas owner_vars = v_owner v_ctap_waiting v_signet_waiting v_release

lemma view_release: "release_device restart SIGNET_SUBSYSTEM s = Some s' \<Longrightarrow> view s' = view s"
  by (auto simp: release_device_def view_put_out owner_vars split: if_splits)

lemma view_release_request: "release_device_request restart SIGNET_SUBSYSTEM s = Some (b, s') \<Longrightarrow> view s' = view s"
  by (auto simp: release_device_request_def owner_vars split: if_splits dest: view_release)

lemma view_idle_check: "subsystem_idle_check s = Some s' \<Longrightarrow> view s' = view s"
  by (auto simp: subsystem_idle_check_def split: if_splits dest: view_release_request)

lemma view_request_device: "request_device sys s = (b, s') \<Longrightarrow> view s' = view s"
  by (auto simp: request_device_def owner_vars split: if_splits command_subsystem.splits)

end

locale io_frame = tx_frame +
  assumes v_active_cmd: "view (s\<lparr>active_cmd := x1\<rparr>) = view s"
begin

lemma view_finish_multi: "finish_command_multi r k p n s = Some s' \<Longrightarrow> view s' = view s"
  by (auto simp: finish_command_multi_def Let_def bind_eq_Some_conv io_vars v_active_cmd
      split: if_splits dest!: view_cmd_packet_send view_idle_check)

lemma view_finish: "finish_command r p n s = Some s' \<Longrightarrow> view s' = view s"
  by (simp add: finish_command_def view_finish_multi)

lemma view_finish_resp: "finish_command_resp r s = Some s' \<Longrightarrow> view s' = view s"
  by (simp add: finish_command_resp_def view_finish)

lemma view_progress_check: "get_progress_check s = Some s' \<Longrightarrow> view s' = view s"
  by (auto simp: get_progress_check_def Let_def split: if_splits dest: view_finish view_finish_resp)

end

section \<open>Entering a state\<close>

locale state_frame = io_frame +
  assumes v_state: "view (s\<lparr>g_device_state := y1\<rparr>) = view s"
    and v_n_progress: "view (s\<lparr>n_progress_components := y2\<rparr>) = view s"
    and v_progress_level: "view (s\<lparr>g_progress_level := y3\<rparr>) = view s"
    and v_progress_max: "view (s\<lparr>progress_maximum := y4\<rparr>) = view s"
    and v_progress_check: "view (s\<lparr>g_progress_check := y5\<rparr>) = view s"
    and v_progress_target: "view (s\<lparr>g_progress_target_state := y6\<rparr>) = view s"
begin

lemmas state_vars = v_state v_n_progress v_progress_level v_progress_max v_progress_check v_progress_target

lemma view_enter_progressing: "enter_progressing_state d ms s = Some s' \<Longrightarrow> view s' = view s"
  by (auto simp: enter_progressing_state_def Let_def bind_eq_Some_conv view_put_out state_vars
      dest!: view_idle_check view_progress_check)

lemma view_enter_state: "enter_state d s = Some s' \<Longrightarrow> view s' = view s"
  by (simp add: enter_state_def view_enter_progressing)

lemma view_get_progress_cmd: "get_progress_cmd data s = Some s' \<Longrightarrow> view s' = view s"
  by (auto simp: get_progress_cmd_def Let_def state_vars split: if_splits dest!: view_finish_resp view_progress_check)

end

section \<open>Waiting for the button\<close>

locale button_frame = io_frame +
  assumes v_waiting: "view (s\<lparr>waiting_for_button_press := z1\<rparr>) = view s"
    and v_waiting_long: "view (s\<lparr>waiting_for_long_button_press := z2\<rparr>) = view s"
    and v_blink_start: "view (s\<lparr>g_blink_start := z3\<rparr>) = view s"
    and v_blink_period: "view (s\<lparr>g_blink_period := z4\<rparr>) = view s"
    and v_blink_duration: "view (s\<lparr>g_blink_duration := z5\<rparr>) = view s"
    and v_blink_paused: "view (s\<lparr>g_blink_paused := z6\<rparr>) = view s"
    and v_blink_state: "view (s\<lparr>g_blink_state := z7\<rparr>) = view s"
    and v_pause_start: "view (s\<lparr>g_pause_start := z8\<rparr>) = view s"
    and v_timeout_secs: "view (s\<lparr>g_timeout_event_secs := z9\<rparr>) = view s"
    and v_work: "view (s\<lparr>g_work_to_do := z10\<rparr>) = view s"
begin

lemmas button_vars = v_waiting v_waiting_long v_blink_start v_blink_period v_blink_duration v_blink_paused
  v_blink_state v_pause_start v_timeout_secs v_work

lemma view_led: "view (led_on s) = view s" "view (led_off s) = view s"
  by (simp_all add: led_on_def led_off_def view_put_out)

lemma view_work: "view (BEGIN_WORK w s) = view s" "view (END_WORK w s) = view s"
  by (simp_all add: BEGIN_WORK_def END_WORK_def button_vars)

lemma view_blinking: "view (start_blinking p d s) = view s" "view (stop_blinking s) = view s" "view (pause_blinking s) = view s"
  by (simp_all add: start_blinking_def stop_blinking_def pause_blinking_def Let_def view_led view_work button_vars)

lemma view_button_wait:
  "view (begin_button_press_wait s) = view s" "view (begin_long_button_press_wait s) = view s"
  "view (end_button_press_wait s) = view s" "view (end_long_button_press_wait s) = view s"
  by (simp_all add: begin_button_press_wait_def begin_long_button_press_wait_def end_button_press_wait_def
      end_long_button_press_wait_def view_blinking button_vars)

lemma view_blink_timeout: "blink_timeout s = Some s' \<Longrightarrow> view s' = view s"
  by (auto simp: blink_timeout_def split: if_splits dest!: view_finish_resp simp: view_button_wait)

lemma view_blink_idle: "blink_idle blink_timeout s = Some s' \<Longrightarrow> view s' = view s"
  by (auto simp: blink_idle_def Let_def bind_eq_Some_conv button_vars view_led view_work view_put_out
      split: if_splits dest!: view_cmd_event_send view_blink_timeout)

end

section \<open>What is left alone by all of them\<close>

locale quiet = state_frame + button_frame

interpretation vowner: packet_frame "\<lambda>s. (active_cmd s, s_device_system_owner s, s_ctap_subsystem_waiting s,
    s_signet_subsystem_waiting s, s_subsystem_release_requested s, n_progress_components s)"
  by unfold_locales simp_all

interpretation vcmd: tx_frame "\<lambda>s. (active_cmd s, cmd_messages_remaining s, n_progress_components s, g_device_state s)"
  by unfold_locales simp_all

interpretation vflash: quiet "\<lambda>s. (flash_mem s, flash_state s, flash_erase_sector s, flash_write_dest s,
    flash_write_src s, flash_write_length s, boot_add0 s)"
  by unfold_locales simp_all

interpretation vbuf: quiet "\<lambda>s. buf_get b s" for b
  by unfold_locales simp_all

interpretation vkeys: quiet "\<lambda>s. (g_encrypt_key s, token_auth_rand_cyphertext s, token_encrypt_key_cyphertext s,
    root_page s, root_page_ptr s, g_root_page_valid s, g_root_block_sync_state s, rnd s)"
  by unfold_locales simp_all

interpretation vdb: quiet "\<lambda>s. (g_block_info_tbl s, uid_map s, block_read_cache s, block_read_cache_idx s,
    block_read_cache_updating s, db3_startup_scan_blk_num s, db3_startup_scan_block_read s)"
  by unfold_locales simp_all

interpretation vdata: quiet "\<lambda>s. (d_erase s, d_chars s, d_init s, d_wipe s, d_change s, d_login s, d_update s, d_read_uid s,
    d_read_all s, d_write_flash s, d_rand_bits s, g_update_firmware s, cmd_packet_buf s)"
  by unfold_locales simp_all

interpretation vemmc: quiet "\<lambda>s. (g_emmc_user s, g_emmc_user_ready s, g_db_action s, g_db_read_idx s, g_db_read_dest s,
    g_db_write_idx s, g_db_write_src s, emmc s, g_mmc_tx_cplt s, g_mmc_rx_cplt s)"
  by unfold_locales simp_all

interpretation vstate: button_frame "\<lambda>s. (g_device_state s, n_progress_components s, g_progress_level s,
    progress_maximum s, g_progress_check s, g_progress_target_state s)"
  by unfold_locales simp_all

interpretation vwait: state_frame "\<lambda>s. (waiting_for_button_press s, waiting_for_long_button_press s, g_work_to_do s)"
  by unfold_locales simp_all

section \<open>Finishing a command\<close>

text \<open>Releasing the device on behalf of the Signet code always returns.\<close>

lemma subsystem_idle_check_total: "\<exists>s'. subsystem_idle_check s = Some s'"
  by (auto simp: subsystem_idle_check_def release_device_request_def release_device_def)

text \<open>\<open>active_cmd\<close> is cleared by the last response unless further request messages are announced.\<close>

lemma finish_multi_active:
  assumes "finish_command_multi r k p n s = Some s'"
  shows "active_cmd s' = (if k = 0 \<and> cmd_messages_remaining s = 0 then -1 else active_cmd s)"
    and "cmd_messages_remaining s' = cmd_messages_remaining s" and "g_device_state s' = g_device_state s"
    and "n_progress_components s' = n_progress_components s"
proof -
  obtain b s1 where s1: "cmd_packet_send (n + CMD_PACKET_HEADER_SIZE)
        (if k = 0 \<and> cmd_messages_remaining s = 0 then s\<lparr>cmd_resp := b, active_cmd := -1\<rparr> else s\<lparr>cmd_resp := b\<rparr>) = Some s1"
      "subsystem_idle_check s1 = Some s'"
    using assms by (fastforce simp: finish_command_multi_def Let_def bind_eq_Some_conv split: if_splits)
  show "active_cmd s' = (if k = 0 \<and> cmd_messages_remaining s = 0 then -1 else active_cmd s)"
    "cmd_messages_remaining s' = cmd_messages_remaining s" "g_device_state s' = g_device_state s"
    "n_progress_components s' = n_progress_components s"
    using vcmd.view_cmd_packet_send [OF s1(1)] vcmd.view_idle_check [OF s1(2)] by (simp_all split: if_splits)
qed

lemma finish_resp_active:
  assumes "finish_command_resp r s = Some s'"
  shows "active_cmd s' = (if cmd_messages_remaining s = 0 then -1 else active_cmd s)"
    and "cmd_messages_remaining s' = cmd_messages_remaining s" and "g_device_state s' = g_device_state s"
    and "n_progress_components s' = n_progress_components s"
  using finish_multi_active [of r 0 None 0 s s'] assms by (simp_all add: finish_command_resp_def finish_command_def)

text \<open>A response after which the command stays active does not release the device.\<close>

lemma finish_multi_keeps_owner:
  assumes "finish_command_multi r k p n s = Some s'" "active_cmd s' \<noteq> -1"
  shows "s_device_system_owner s' = s_device_system_owner s"
proof -
  obtain b s1 where s1: "cmd_packet_send (n + CMD_PACKET_HEADER_SIZE)
        (if k = 0 \<and> cmd_messages_remaining s = 0 then s\<lparr>cmd_resp := b, active_cmd := -1\<rparr> else s\<lparr>cmd_resp := b\<rparr>) = Some s1"
      "subsystem_idle_check s1 = Some s'"
    using assms(1) by (fastforce simp: finish_command_multi_def Let_def bind_eq_Some_conv split: if_splits)
  have "active_cmd s1 \<noteq> -1" using vcmd.view_idle_check [OF s1(2)] assms(2) by simp
  then have "s1 = s'" using s1(2) by (simp add: subsystem_idle_check_def)
  with vowner.view_cmd_packet_send [OF s1(1)] show ?thesis by (simp split: if_splits)
qed

text \<open>Entering a state when no GET_PROGRESS is waiting.\<close>

definition entered :: "device_state \<Rightarrow> int list \<Rightarrow> fw \<Rightarrow> fw" where
  "entered d ms s =
     (let s = put_out (Out_scsi_state d) (s\<lparr>g_device_state := d\<rparr>)
      in s\<lparr>g_progress_check := 0, n_progress_components := length ms,
           g_progress_level := (\<lambda>i. if i < length ms then 0 else g_progress_level s i),
           progress_maximum := (\<lambda>i. if i < length ms then ms ! i else progress_maximum s i)\<rparr>)"

lemma entered_simps [simp]:
  "active_cmd (entered d ms s) = active_cmd s" "g_device_state (entered d ms s) = d"
  "n_progress_components (entered d ms s) = length ms"
  "cmd_messages_remaining (entered d ms s) = cmd_messages_remaining s"
  by (simp_all add: entered_def Let_def put_out_def)

lemma enter_progressing_state_entered:
  "enter_progressing_state d ms s = (get_progress_check (entered d ms s) \<bind> subsystem_idle_check)"
  by (simp add: enter_progressing_state_def entered_def Let_def put_out_def)

lemma enter_progressing_state_eq:
  "active_cmd s \<noteq> GET_PROGRESS \<Longrightarrow> enter_progressing_state d ms s = subsystem_idle_check (entered d ms s)"
  by (simp add: enter_progressing_state_def get_progress_check_def entered_def Let_def put_out_def)

lemma enter_progressing_active:
  assumes "active_cmd s \<noteq> GET_PROGRESS"
  shows "\<exists>s'. enter_progressing_state d ms s = Some s' \<and> g_device_state s' = d \<and> active_cmd s' = active_cmd s
    \<and> n_progress_components s' = length ms \<and> cmd_messages_remaining s' = cmd_messages_remaining s"
proof -
  obtain s' where "subsystem_idle_check (entered d ms s) = Some s'" using subsystem_idle_check_total by blast
  with vcmd.view_idle_check [OF this] show ?thesis by (auto simp: enter_progressing_state_eq assms)
qed

lemma enter_state_active:
  "active_cmd s \<noteq> GET_PROGRESS \<Longrightarrow> \<exists>s'. enter_state d s = Some s' \<and> g_device_state s' = d \<and> active_cmd s' = active_cmd s
    \<and> n_progress_components s' = 0 \<and> cmd_messages_remaining s' = cmd_messages_remaining s"
  using enter_progressing_active [of s d "[]"] by (simp add: enter_state_def)

text \<open>A response can be sent when the last one has been taken from the queue and no event waits.\<close>

definition can_respond :: "fw \<Rightarrow> bool" where
  "can_respond s \<longleftrightarrow> event_mask s = 0 \<and> (tx_report s INTERFACE_CMD = None \<or> \<not> hid_busy s INTERFACE_CMD)
     \<and> length (cmd_resp s) = CMD_PACKET_BUF_SIZE \<and> length (raw_hid_tx_cmd_packet s) = RAW_HID_PACKET_SIZE"

lemma can_respond_frame [simp]:
  "can_respond (s\<lparr>active_cmd := x1\<rparr>) = can_respond s"
  "can_respond (s\<lparr>s_device_system_owner := x2\<rparr>) = can_respond s"
  "can_respond (s\<lparr>s_ctap_subsystem_waiting := x3\<rparr>) = can_respond s"
  "can_respond (s\<lparr>s_signet_subsystem_waiting := x4\<rparr>) = can_respond s"
  "can_respond (s\<lparr>s_subsystem_release_requested := x5\<rparr>) = can_respond s"
  "can_respond (s\<lparr>outs := x6\<rparr>) = can_respond s"
  "can_respond (s\<lparr>g_device_state := x7\<rparr>) = can_respond s"
  "can_respond (s\<lparr>d_erase := x8\<rparr>) = can_respond s"
  "can_respond (entered d ms s) = can_respond s"
  "can_respond (put_out x s) = can_respond s"
  by (simp_all add: can_respond_def entered_def put_out_def Let_def)

lemma can_respond_reset [simp]: "can_respond fw_reset"
  by (simp add: can_respond_def fw_reset_def)

lemma can_respond_idle_check: "subsystem_idle_check s = Some s' \<Longrightarrow> can_respond s' = can_respond s"
  by (auto simp: subsystem_idle_check_def release_device_request_def release_device_def split: if_splits)

lemma can_respond_entered:
  "enter_progressing_state d ms s = Some s' \<Longrightarrow> active_cmd s \<noteq> GET_PROGRESS \<Longrightarrow> can_respond s' = can_respond s"
  by (simp add: enter_progressing_state_eq can_respond_idle_check)

lemma usb_send_bytes_total:
  "tx_report s i = None \<or> \<not> hid_busy s i \<Longrightarrow> \<exists>s'. usb_send_bytes i t n s = Some s'"
  by (auto simp: usb_send_bytes_def usb_tx_pending_def USBD_HID_SendReport_def)

text \<open>The packet the response is at: sequence number, last flag, 511 bytes of the response.\<close>

definition tx_packet :: "fw \<Rightarrow> bytes" where
  "tx_packet s =
     splice ((raw_hid_tx_cmd_packet s)
        [0 := push_bit 7 (if raw_hid_tx_seq s + 1 = raw_hid_tx_count s then 1 else 0) OR word_of_nat (raw_hid_tx_seq s)])
       RAW_HID_HEADER_SIZE (slice (cmd_resp s) (raw_hid_tx_seq s * RAW_HID_PAYLOAD_SIZE) RAW_HID_PAYLOAD_SIZE)"

lemma maybe_send_raw_hid_packet_eq:
  assumes "event_mask s = 0" "raw_hid_tx_seq s \<noteq> raw_hid_tx_count s"
    and "raw_hid_tx_seq s * RAW_HID_PAYLOAD_SIZE + RAW_HID_PAYLOAD_SIZE \<le> length (cmd_resp s)"
    and "length (raw_hid_tx_cmd_packet s) = RAW_HID_PACKET_SIZE"
  shows "maybe_send_raw_hid_packet sent s = do {
     s \<leftarrow> usb_send_bytes INTERFACE_CMD Tx_cmd_packet RAW_HID_PACKET_SIZE (s\<lparr>raw_hid_tx_cmd_packet := tx_packet s\<rparr>);
     Some (s\<lparr>raw_hid_tx_seq := raw_hid_tx_seq s + 1\<rparr>)
   }"
proof -
  have e: "maybe_send_raw_hid_event s = Some (False, s)" using assms(1) by (simp add: maybe_send_raw_hid_event_def)
  have r: "read_from (cmd_resp s) (raw_hid_tx_seq s * RAW_HID_PAYLOAD_SIZE) RAW_HID_PAYLOAD_SIZE
      = Some (slice (cmd_resp s) (raw_hid_tx_seq s * RAW_HID_PAYLOAD_SIZE) RAW_HID_PAYLOAD_SIZE)"
    using assms(3) by simp
  have w: "memcpy_to ((raw_hid_tx_cmd_packet s)
        [0 := push_bit 7 (if raw_hid_tx_seq s + 1 = raw_hid_tx_count s then 1 else 0) OR word_of_nat (raw_hid_tx_seq s)])
      RAW_HID_HEADER_SIZE (slice (cmd_resp s) (raw_hid_tx_seq s * RAW_HID_PAYLOAD_SIZE) RAW_HID_PAYLOAD_SIZE)
      = Some (tx_packet s)"
    unfolding tx_packet_def using assms(3,4) by simp
  show ?thesis
    unfolding maybe_send_raw_hid_packet_def e Let_def Option.bind.bind_lunit case_prod_conv if_False r w
    using assms(2) by (simp only: if_True simp_thms)
qed

text \<open>The state in which the first packet of a response is sent.\<close>

definition sending :: "nat \<Rightarrow> fw \<Rightarrow> fw" where
  "sending len s = s\<lparr>raw_hid_tx_count := (len mod 65536 + RAW_HID_PAYLOAD_SIZE - 1) div RAW_HID_PAYLOAD_SIZE,
                     raw_hid_tx_seq := 0, raw_hid_tx_data := True\<rparr>"

lemma cmd_packet_send_total:
  assumes "can_respond s" "0 < n" "n < 65536"
  shows "\<exists>s'. cmd_packet_send n s = Some s'"
proof -
  have "cmd_packet_send n s = do {
     s \<leftarrow> usb_send_bytes INTERFACE_CMD Tx_cmd_packet RAW_HID_PACKET_SIZE
           ((sending n s)\<lparr>raw_hid_tx_cmd_packet := tx_packet (sending n s)\<rparr>);
     Some (s\<lparr>raw_hid_tx_seq := raw_hid_tx_seq s + 1\<rparr>)
   }"
    unfolding cmd_packet_send_def sending_def [symmetric]
    by (rule maybe_send_raw_hid_packet_eq) (use assms in \<open>simp_all add: sending_def can_respond_def\<close>)
  moreover obtain s1 where "usb_send_bytes INTERFACE_CMD Tx_cmd_packet RAW_HID_PACKET_SIZE
           ((sending n s)\<lparr>raw_hid_tx_cmd_packet := tx_packet (sending n s)\<rparr>) = Some s1"
    using usb_send_bytes_total [of "(sending n s)\<lparr>raw_hid_tx_cmd_packet := tx_packet (sending n s)\<rparr>" INTERFACE_CMD] assms(1)
    by (auto simp: sending_def can_respond_def)
  ultimately show ?thesis by simp
qed

text \<open>The response buffer: the header of six bytes, then the payload.\<close>

definition response_buf :: "command_responses \<Rightarrow> int \<Rightarrow> bytes option \<Rightarrow> nat \<Rightarrow> fw \<Rightarrow> bytes option" where
  "response_buf resp remaining payload n s = do {
     let full_length = n + CMD_PACKET_HEADER_SIZE;
     r \<leftarrow> memcpy_to (cmd_resp s) 0
           [word_of_nat full_length, word_of_nat (full_length div 256), word_of_nat (resp_code resp),
            lo8 remaining, hi8 remaining, word_of_nat (ds_code (g_device_state s))];
     case payload of
       None \<Rightarrow> Some r
     | Some p \<Rightarrow> do { d \<leftarrow> read_from p 0 n; memcpy_to r CMD_PACKET_HEADER_SIZE d }
   }"

definition responding :: "int \<Rightarrow> bytes \<Rightarrow> fw \<Rightarrow> fw" where
  "responding remaining r s =
     (let s = s\<lparr>cmd_resp := r\<rparr>
      in if remaining = 0 \<and> cmd_messages_remaining s = 0 then s\<lparr>active_cmd := -1\<rparr> else s)"

lemma finish_multi_eq:
  "finish_command_multi resp remaining payload n s = do {
     r \<leftarrow> response_buf resp remaining payload n s;
     s \<leftarrow> cmd_packet_send (n + CMD_PACKET_HEADER_SIZE) (responding remaining r s);
     subsystem_idle_check s
   }"
  unfolding finish_command_multi_def response_buf_def responding_def Let_def Option.bind_assoc by (rule refl)

lemma response_buf_total:
  assumes "length (cmd_resp s) = CMD_PACKET_BUF_SIZE" "n \<le> CMD_PACKET_PAYLOAD_SIZE" "\<And>d. p = Some d \<Longrightarrow> n \<le> length d"
  obtains b where "response_buf r k p n s = Some b" "length b = CMD_PACKET_BUF_SIZE"
  using assms by (cases p) (auto simp: response_buf_def read_from_def memcpy_to_def)

lemma finish_multi_total:
  assumes "can_respond s" "n \<le> CMD_PACKET_PAYLOAD_SIZE" "\<And>d. p = Some d \<Longrightarrow> n \<le> length d"
  shows "\<exists>s'. finish_command_multi r k p n s = Some s'"
proof -
  obtain b where b: "response_buf r k p n s = Some b" "length b = CMD_PACKET_BUF_SIZE"
    using response_buf_total [of s n p r k] assms by (auto simp: can_respond_def)
  have t: "can_respond (responding k b s)" using assms(1) b(2) by (simp add: responding_def can_respond_def Let_def)
  obtain s1 where s1: "cmd_packet_send (n + 6) (responding k b s) = Some s1"
    using cmd_packet_send_total [OF t, of "n + 6"] assms(2) by auto
  obtain s2 where s2: "subsystem_idle_check s1 = Some s2"
    using subsystem_idle_check_total by blast
  show ?thesis by (simp add: finish_multi_eq b s1 s2)
qed

lemma finish_resp_total: "can_respond s \<Longrightarrow> \<exists>s'. finish_command_resp r s = Some s'"
  by (simp add: finish_command_resp_def finish_command_def finish_multi_total)

end
