(* ===== verification/Update_Lemmas.thy ===== *)
theory Update_Lemmas
  imports Frame Flash_Lemmas
begin

text \<open>
  The firmware update: flash writes stay in the boot area that is not running, erasing covers
  exactly the sectors of that area, and the device boots into it only after its checksum
  matched the announced one.
\<close>

section \<open>Writing\<close>

text \<open>The area the device may write in its boot mode: start and length.\<close>

definition update_area :: "fw \<Rightarrow> (nat \<times> nat) option" where
  "update_area s =
     (case flash_get_boot_mode s of
        HC_BOOT_BOOTLOADER_MODE \<Rightarrow> Some (BOOT_AREA_B, HC_BOOT_AREA_B_LEN)
      | HC_BOOT_APPLICATION_MODE \<Rightarrow> Some (BOOT_AREA_A, HC_BOOT_AREA_A_LEN)
      | HC_BOOT_UNKNOWN_MODE \<Rightarrow> None)"

lemma in_memory_range_iff:
  "0 < len \<Longrightarrow> base + len \<le> 2 ^ 32 \<Longrightarrow> in_memory_range addr base len \<longleftrightarrow> base \<le> addr \<and> addr < base + len"
  by (auto simp: in_memory_range_def to_unsigned_def nat_less_iff)

lemma finish_flash_mem: "finish_command_resp r s = Some s' \<Longrightarrow> flash_mem s' = flash_mem s \<and> flash_state s' = flash_state s"
  using vflash.view_finish_resp by simp

text \<open>A write of \<open>m\<close> words that was accepted, however far it got.\<close>

lemma flash_write_steps_mem:
  assumes "flash_write dest b (int sz) s = Some s1" "flash_steps n s1 = Some s2" "sz \<le> length (buf_get b s)"
    and "flash_mem s2 a \<noteq> flash_mem s a"
  shows "dest \<le> a \<and> a < dest + sz"
proof -
  have idle: "flash_state s = FLASH_IDLE" and "int sz mod 4 = 0"
    and s1: "s1 = BEGIN_WORK FLASH_WORK (s\<lparr>flash_write_dest := dest, flash_write_src := (b, 0),
               flash_write_length := int sz, flash_state := FLASH_WRITING\<rparr>)"
    using assms(1) by (auto simp: flash_write_def Let_def split: if_splits)
  then obtain m where m: "sz = 4 * m" by (metis of_nat_mod of_nat_numeral of_nat_eq_0_iff mod_0_imp_dvd dvd_def)
  have steps: "flash_steps n s1 = Some (if 0 < n \<and> m \<le> 16 * n then flash_done m s1 else progn (16 * n) s1)"
    by (rule flash_steps_writing) (use assms(3) in \<open>simp_all add: s1 m BEGIN_WORK_def\<close>)
  have "flash_mem (progn k s1) a = flash_mem s a" if "k \<le> m" "\<not> (dest \<le> a \<and> a < dest + sz)" for k
    by (subst progn_mem) (use that assms(3) in \<open>auto simp: s1 m BEGIN_WORK_def\<close>)
  moreover have "flash_mem s2 = flash_mem (progn (if 0 < n \<and> m \<le> 16 * n then m else 16 * n) s1)"
    using assms(2) steps by (cases "0 < n \<and> m \<le> 16 * n") auto
  moreover have "(if 0 < n \<and> m \<le> 16 * n then m else 16 * n) \<le> m" by auto
  ultimately show ?thesis using assms(4) by metis
qed

lemma write_flash_area_confined:
  assumes "write_flash_area base len data data_len s = Some s1" "flash_steps n s1 = Some s2"
    and "flash_state s = FLASH_IDLE" "length (wf_block (d_write_flash s)) = BLK_SIZE"
    and area: "0 < len" "base + len \<le> 2 ^ 31" and "flash_mem s2 a \<noteq> flash_mem s a"
  shows "base \<le> a \<and> a < base + len"
proof -
  define dest where "dest = to_unsigned (int (rd32 data 0) + int base)"
  define sz where "sz = nat (data_len - 4) mod 65536"
  obtain d b where d: "read_from data 4 (nat (data_len - 4)) = Some d"
      and b: "memcpy_to (wf_block (d_write_flash s)) 0 d = Some b"
      and s1: "(if \<not> in_memory_range dest base len \<or> \<not> in_memory_range (to_unsigned (int dest + int sz - 1)) base len
           then finish_command_resp INVALID_INPUT
           else flash_write dest Buf_write_flash (int sz))
          (s\<lparr>d_write_flash := \<lparr>wf_block = b, wf_addr = rd32 data 0, wf_sz = sz\<rparr>\<rparr>) = Some s1"
    using assms(1) unfolding write_flash_area_def dest_def sz_def
    by (auto simp: bind_eq_Some_conv Let_def simp del: read_from_eq_Some memcpy_to_eq_Some split: if_splits)
  let ?s = "s\<lparr>d_write_flash := \<lparr>wf_block = b, wf_addr = rd32 data 0, wf_sz = sz\<rparr>\<rparr>"
  have szle: "sz \<le> length (buf_get Buf_write_flash ?s)"
    using d b assms(4) by (simp add: buf_get_def sz_def)
  show ?thesis
  proof (cases "in_memory_range dest base len \<and> in_memory_range (to_unsigned (int dest + int sz - 1)) base len")
    case True
    then have w: "flash_write dest Buf_write_flash (int sz) ?s = Some s1" using s1 by simp
    have "dest \<le> a \<and> a < dest + sz"
      by (rule flash_write_steps_mem [OF w assms(2) szle]) (use assms(7) in simp)
    moreover have "base \<le> dest" "dest < base + len" "to_unsigned (int dest + int sz - 1) < base + len"
      using True area by (simp_all add: in_memory_range_iff)
    moreover have "sz < 65536" by (simp add: sz_def)
    ultimately show ?thesis using area by (auto simp: to_unsigned_def)
  next
    case False
    then have "finish_command_resp INVALID_INPUT ?s = Some s1" using s1 by (simp split: if_splits)
    then have "flash_mem s1 = flash_mem s" "flash_state s1 = FLASH_IDLE"
      using finish_flash_mem [of INVALID_INPUT ?s s1] assms(3) by simp_all
    then show ?thesis using assms(2,7) by (simp add: flash_steps_idle)
  qed
qed

text \<open>
  C11. A WRITE_FLASH command can change no byte outside the boot area that is not running,
  whatever address and length it carries and however far the write gets: the bootloader writes
  only area B, the application only area A, and in an unknown boot mode nothing is written.
\<close>

theorem write_flash_confined:
  assumes "flash_state s = FLASH_IDLE" "length (wf_block (d_write_flash s)) = BLK_SIZE"
    and "write_flash_cmd data data_len s = Some s1" "flash_steps n s1 = Some s2"
    and "flash_mem s2 a \<noteq> flash_mem s a"
  shows "\<exists>base len. update_area s = Some (base, len) \<and> base \<le> a \<and> a < base + len"
proof (cases "flash_get_boot_mode s")
  case HC_BOOT_BOOTLOADER_MODE
  then show ?thesis
    using assms write_flash_area_confined [of BOOT_AREA_B HC_BOOT_AREA_B_LEN data data_len s s1 n s2 a]
    by (simp add: write_flash_cmd_def update_area_def)
next
  case HC_BOOT_APPLICATION_MODE
  then show ?thesis
    using assms write_flash_area_confined [of BOOT_AREA_A HC_BOOT_AREA_A_LEN data data_len s s1 n s2 a]
    by (simp add: write_flash_cmd_def update_area_def)
next
  case HC_BOOT_UNKNOWN_MODE
  then have "finish_command_resp INVALID_STATE s = Some s1" using assms(3) by (simp add: write_flash_cmd_def)
  then have "flash_mem s1 = flash_mem s" "flash_state s1 = FLASH_IDLE"
    using finish_flash_mem [of INVALID_STATE s s1] assms(1) by simp_all
  then show ?thesis using assms(4,5) by (simp add: flash_steps_idle)
qed

theorem write_flash_confined_witness:
  "\<exists>s1 s2. write_flash_cmd [0, 0, 0, 0, 1, 2, 3, 4] 8 fw_reset = Some s1 \<and> flash_steps 1 s1 = Some s2
     \<and> flash_mem s2 (BOOT_AREA_A + 1) = 2
     \<and> (\<exists>base len. update_area fw_reset = Some (base, len) \<and> base \<le> BOOT_AREA_A + 1 \<and> BOOT_AREA_A + 1 < base + len)"
proof -
  let ?s = "fw_reset\<lparr>d_write_flash := \<lparr>wf_block = splice (zeros BLK_SIZE) 0 [1, 2, 3, 4], wf_addr = 0, wf_sz = 4\<rparr>\<rparr>"
  define s1 where "s1 = BEGIN_WORK FLASH_WORK (?s\<lparr>flash_write_dest := BOOT_AREA_A,
      flash_write_src := (Buf_write_flash, 0), flash_write_length := 4, flash_state := FLASH_WRITING\<rparr>)"
  have addr: "rd32 [0, 0, 0, 0, 1, 2, 3, 4] 0 = 0" by (simp add: rd32_def rd16_def)
  have reset: "flash_get_boot_mode fw_reset = HC_BOOT_APPLICATION_MODE" "flash_state fw_reset = FLASH_IDLE"
    "wf_block (d_write_flash fw_reset) = zeros BLK_SIZE" "flash_mem fw_reset a = 0xff" for a
    by (simp_all add: fw_reset_def flash_get_boot_mode_def)
  have w: "write_flash_cmd [0, 0, 0, 0, 1, 2, 3, 4] 8 fw_reset = Some s1"
    by (simp add: write_flash_cmd_def write_flash_area_def addr reset read_from_def slice_def Let_def
        memcpy_to_def in_memory_range_def to_unsigned_def flash_write_def s1_def BEGIN_WORK_def)
  have st: "flash_steps 1 s1 = Some (flash_done 1 s1)"
    by (subst flash_steps_writing [where m = 1]) (simp_all add: s1_def BEGIN_WORK_def buf_get_def)
  have mem: "flash_mem (flash_done 1 s1) (BOOT_AREA_A + 1) = 2"
    by (simp only: flash_done_mem, subst progn_mem)
      (simp_all add: s1_def BEGIN_WORK_def buf_get_def splice_def reset)
  have "\<exists>base len. update_area fw_reset = Some (base, len) \<and> base \<le> BOOT_AREA_A + 1 \<and> BOOT_AREA_A + 1 < base + len"
    by (rule write_flash_confined [OF reset(2) _ w st]) (simp_all only: mem reset, simp_all)
  with w st mem show ?thesis by blast
qed

section \<open>Erasing\<close>

text \<open>\<open>n\<close> calls of \<open>flash_idle\<close> by the main loop, with the completion the firmware gives it.\<close>

fun idle_steps :: "env \<Rightarrow> nat \<Rightarrow> action" where
  "idle_steps E 0 s = Some s"
| "idle_steps E (Suc n) s =
     (case flash_idle (flash_write_complete E) s of None \<Rightarrow> None | Some s' \<Rightarrow> idle_steps E n s')"

text \<open>An erase run that has come to sector \<open>k\<close> of \<open>k\<close> to \<open>m\<close>.\<close>

definition erasing_at :: "nat \<Rightarrow> nat \<Rightarrow> fw \<Rightarrow> bool" where
  "erasing_at k m s \<longleftrightarrow>
     flash_state s = FLASH_ERASING \<and> flash_erase_sector s = int k \<and> flash_write_length s = 0
     \<and> ef_index (d_erase s) = k \<and> ef_max_page (d_erase s) = m \<and> k \<le> m \<and> m < 8
     \<and> g_device_state s = DS_ERASING_PAGES \<and> active_cmd s = -1 \<and> g_root_block_sync_state s = ROOT_BLOCK_SYNCED"

text \<open>With no command active, the completion of an erase only goes on with the run.\<close>

lemma erase_complete:
  assumes "g_device_state s = DS_ERASING_PAGES" "active_cmd s = -1" "g_root_block_sync_state s = ROOT_BLOCK_SYNCED"
  shows "flash_write_complete E s = firmware_update_write_block_complete s"
  using assms
  by (simp add: flash_write_complete_def write_block_complete_def root_block_synced_def db3_write_block_complete_def)

lemma erasing_idle:
  assumes "erasing_at k m s"
  shows "flash_idle (flash_write_complete E) s = firmware_update_write_block_complete (flash_erased (int k) 0 s)"
proof -
  have "flash_idle Some s = Some (flash_erased (int k) 0 s)"
    using flash_idle_erasing [of s 0] assms by (simp add: erasing_at_def)
  moreover have "flash_write_complete E (flash_erased (int k) 0 s) = firmware_update_write_block_complete (flash_erased (int k) 0 s)"
    by (rule erase_complete) (use assms in \<open>simp_all add: erasing_at_def flash_erased_def put_out_def END_WORK_def\<close>)
  ultimately show ?thesis
    using assms by (subst flash_idle_complete) (simp add: erasing_at_def)
qed

lemma erasing_step:
  assumes "erasing_at k m s" "k < m"
  shows "\<exists>s'. flash_idle (flash_write_complete E) s = Some s' \<and> erasing_at (Suc k) m s'
    \<and> (\<forall>a. flash_mem s' a = (if sector_range (int k) a then 0xff else flash_mem s a))"
proof -
  have k: "flash_addr_to_sector (flash_sector_to_addr (int (Suc k))) = int (Suc k)"
    using assms flash_addr_to_sector_start [of "int (Suc k)"] by (simp add: erasing_at_def)
  let ?t = "(flash_erased (int k) 0 s)\<lparr>d_erase := (d_erase s)\<lparr>ef_index := Suc k\<rparr>,
      g_progress_level := (g_progress_level s)(0 := int (Suc k) - int (ef_min_page (d_erase s)))\<rparr>"
  have "firmware_update_write_block_complete (flash_erased (int k) 0 s)
      = flash_write_page (flash_sector_to_addr (int (Suc k))) Buf_null (4 * int 0) ?t"
    using assms
    by (simp add: firmware_update_write_block_complete_def erasing_at_def flash_erased_def put_out_def END_WORK_def
        get_progress_check_def Let_def)
  moreover have "flash_state ?t = FLASH_IDLE" by simp
  ultimately have "flash_idle (flash_write_complete E) s = Some (page_started (flash_sector_to_addr (int (Suc k))) Buf_null 0 ?t)"
    unfolding erasing_idle [OF assms(1)] by (simp only: flash_write_page_started simp_thms if_True)
  moreover have "erasing_at (Suc k) m (page_started (flash_sector_to_addr (int (Suc k))) Buf_null 0 ?t)"
    using assms k
    by (simp add: erasing_at_def page_started_def flash_erased_def put_out_def END_WORK_def BEGIN_WORK_def)
  ultimately show ?thesis by simp
qed

lemma erasing_last:
  assumes "erasing_at m m s"
  shows "\<exists>s'. flash_idle (flash_write_complete E) s = Some s' \<and> g_device_state s' = DS_FIRMWARE_UPDATE
    \<and> flash_state s' = FLASH_IDLE \<and> (\<forall>a. flash_mem s' a = (if sector_range (int m) a then 0xff else flash_mem s a))"
proof -
  let ?t = "(flash_erased (int m) 0 s)\<lparr>d_erase := (d_erase s)\<lparr>ef_index := Suc m\<rparr>,
      g_progress_level := (g_progress_level s)(0 := int (Suc m) - int (ef_min_page (d_erase s)))\<rparr>"
  have "firmware_update_write_block_complete (flash_erased (int m) 0 s) = enter_state DS_FIRMWARE_UPDATE ?t"
    using assms
    by (simp add: firmware_update_write_block_complete_def erasing_at_def flash_erased_def put_out_def END_WORK_def
        get_progress_check_def Let_def)
  moreover have "active_cmd ?t \<noteq> GET_PROGRESS"
    using assms by (simp add: erasing_at_def flash_erased_def put_out_def END_WORK_def)
  ultimately obtain s' where "flash_idle (flash_write_complete E) s = Some s'" "enter_state DS_FIRMWARE_UPDATE ?t = Some s'"
      "g_device_state s' = DS_FIRMWARE_UPDATE"
    using enter_state_active [of ?t DS_FIRMWARE_UPDATE] erasing_idle [OF assms, of E] by auto
  with vflash.view_enter_state [OF this(2)] show ?thesis by simp
qed

lemma erase_start:
  assumes "erase_flash_pages_start k m s = Some s1" "k \<le> m" "m < 8" "active_cmd s \<noteq> GET_PROGRESS"
    and "cmd_messages_remaining s = 0" "g_root_block_sync_state s = ROOT_BLOCK_SYNCED"
  shows "erasing_at k m s1" "flash_mem s1 = flash_mem s"
proof -
  let ?t = "s\<lparr>d_erase := \<lparr>ef_index = k, ef_min_page = k, ef_max_page = m\<rparr>\<rparr>"
  obtain a b where a: "enter_progressing_state DS_ERASING_PAGES [int m - int k] ?t = Some a"
      and b: "finish_command_resp OKAY a = Some b"
      and w: "flash_write_page (flash_sector_to_addr (int (ef_index (d_erase b)))) Buf_null (4 * int 0) b = Some s1"
    using assms(1) by (auto simp: erase_flash_pages_start_def Let_def bind_eq_Some_conv)
  have "d_erase b = d_erase ?t" "flash_mem b = flash_mem s" "g_root_block_sync_state b = ROOT_BLOCK_SYNCED"
    using vdata.view_enter_progressing [OF a] vdata.view_finish_resp [OF b]
      vflash.view_enter_progressing [OF a] vflash.view_finish_resp [OF b]
      vkeys.view_enter_progressing [OF a] vkeys.view_finish_resp [OF b] assms(6) by simp_all
  moreover have "active_cmd b = -1" "g_device_state b = DS_ERASING_PAGES"
    using enter_progressing_active [of ?t DS_ERASING_PAGES "[int m - int k]"] a b assms(4,5)
      finish_resp_active [OF b] by auto
  moreover have "flash_addr_to_sector (flash_sector_to_addr (int k)) = int k"
    using flash_addr_to_sector_start [of "int k"] assms(2,3) by simp
  ultimately show "erasing_at k m s1" "flash_mem s1 = flash_mem s"
    using w assms(2,3) unfolding flash_write_page_started
    by (auto simp: erasing_at_def page_started_def BEGIN_WORK_def split: if_splits)
qed

lemma erase_three:
  assumes "erasing_at k (k + 2) s"
  shows "\<exists>s2. idle_steps E 3 s = Some s2 \<and> g_device_state s2 = DS_FIRMWARE_UPDATE \<and> flash_state s2 = FLASH_IDLE
    \<and> (\<forall>a. flash_mem s2 a = (if sector_range (int k) a \<or> sector_range (int (k + 1)) a \<or> sector_range (int (k + 2)) a
                              then 0xff else flash_mem s a))"
proof -
  obtain a where a: "flash_idle (flash_write_complete E) s = Some a" "erasing_at (Suc k) (k + 2) a"
      "\<forall>x. flash_mem a x = (if sector_range (int k) x then 0xff else flash_mem s x)"
    using erasing_step [OF assms, of E] by auto
  obtain b where b: "flash_idle (flash_write_complete E) a = Some b" "erasing_at (k + 2) (k + 2) b"
      "\<forall>x. flash_mem b x = (if sector_range (int (Suc k)) x then 0xff else flash_mem a x)"
    using erasing_step [OF a(2), of E] by auto
  obtain c where c: "flash_idle (flash_write_complete E) b = Some c" "g_device_state c = DS_FIRMWARE_UPDATE"
      "flash_state c = FLASH_IDLE"
      "\<forall>x. flash_mem c x = (if sector_range (int (k + 2)) x then 0xff else flash_mem b x)"
    using erasing_last [OF b(2), of E] by auto
  have "idle_steps E 3 s = Some c" by (simp add: numeral_3_eq_3 a b c)
  moreover have "flash_mem c x = (if sector_range (int k) x \<or> sector_range (int (k + 1)) x \<or> sector_range (int (k + 2)) x
      then 0xff else flash_mem s x)" for x
    using a(3) b(3) c(4) by simp
  ultimately show ?thesis using c(2,3) by blast
qed

text \<open>
  C31. ERASE_FLASH_PAGES erases exactly the boot area that is not running: when the command
  returns, three rounds of the main loop later every byte of that area is \<open>0xff\<close>, every other
  byte is as before and the device is back in the firmware update state.
\<close>

theorem erase_covers_area:
  assumes "erase_flash_pages_cmd s = Some s1" "active_cmd s = ERASE_FLASH_PAGES" "cmd_messages_remaining s = 0"
    and "g_root_block_sync_state s = ROOT_BLOCK_SYNCED" "update_area s = Some (base, len)"
  shows "\<exists>s2. idle_steps E 3 s1 = Some s2 \<and> g_device_state s2 = DS_FIRMWARE_UPDATE \<and> flash_state s2 = FLASH_IDLE
    \<and> (\<forall>a. flash_mem s2 a = (if base \<le> a \<and> a < base + len then 0xff else flash_mem s a))"
proof (cases "flash_get_boot_mode s")
  case HC_BOOT_BOOTLOADER_MODE
  then have "erase_flash_pages_start 5 7 s = Some s1" using assms(1) by (simp add: erase_flash_pages_cmd_def)
  then have "erasing_at 5 (5 + 2) s1" "flash_mem s1 = flash_mem s" using assms(2-4) erase_start [of 5 7 s s1] by simp_all
  moreover have "base = BOOT_AREA_B" "len = HC_BOOT_AREA_B_LEN"
    using assms(5) HC_BOOT_BOOTLOADER_MODE by (simp_all add: update_area_def)
  ultimately show ?thesis
    using erase_three [of 5 s1 E] by (auto simp: flash_sector_to_addr_def)
next
  case HC_BOOT_APPLICATION_MODE
  then have "erase_flash_pages_start 2 4 s = Some s1" using assms(1) by (simp add: erase_flash_pages_cmd_def)
  then have "erasing_at 2 (2 + 2) s1" "flash_mem s1 = flash_mem s" using assms(2-4) erase_start [of 2 4 s s1] by simp_all
  moreover have "base = BOOT_AREA_A" "len = HC_BOOT_AREA_A_LEN"
    using assms(5) HC_BOOT_APPLICATION_MODE by (simp_all add: update_area_def)
  ultimately show ?thesis
    using erase_three [of 2 s1 E] by (auto simp: flash_sector_to_addr_def)
next
  case HC_BOOT_UNKNOWN_MODE
  with assms(5) show ?thesis by (simp add: update_area_def)
qed

theorem erase_covers_area_witness:
  "\<exists>s1 s2. erase_flash_pages_cmd (fw_reset\<lparr>active_cmd := ERASE_FLASH_PAGES\<rparr>) = Some s1
     \<and> idle_steps env_example 3 s1 = Some s2 \<and> g_device_state s2 = DS_FIRMWARE_UPDATE"
proof -
  let ?s = "fw_reset\<lparr>active_cmd := ERASE_FLASH_PAGES\<rparr>"
  have mode: "flash_get_boot_mode ?s = HC_BOOT_APPLICATION_MODE" "flash_state ?s = FLASH_IDLE"
    by (simp_all add: fw_reset_def flash_get_boot_mode_def)
  let ?t = "?s\<lparr>d_erase := \<lparr>ef_index = 2, ef_min_page = 2, ef_max_page = 4\<rparr>\<rparr>"
  obtain a where a: "enter_progressing_state DS_ERASING_PAGES [2] ?t = Some a"
    using enter_progressing_active [of ?t DS_ERASING_PAGES "[2]"] by auto
  have "can_respond a" using can_respond_entered [OF a] by simp
  then obtain b where b: "finish_command_resp OKAY a = Some b" using finish_resp_total by blast
  have idle: "flash_state b = FLASH_IDLE"
    using vflash.view_enter_progressing [OF a] vflash.view_finish_resp [OF b] mode(2) by simp
  obtain s1 where s1: "erase_flash_pages_cmd ?s = Some s1"
    using a b flash_write_page_started [of _ Buf_null 0 b] idle
    by (auto simp: erase_flash_pages_cmd_def mode erase_flash_pages_start_def)
  have "update_area ?s = Some (BOOT_AREA_A, HC_BOOT_AREA_A_LEN)" by (simp add: update_area_def mode)
  from erase_covers_area [OF s1 _ _ _ this, of env_example] s1 show ?thesis
    by (auto simp: fw_reset_def)
qed

section \<open>Switching\<close>

text \<open>
  C32. The boot mode changes exactly when the CRC of the whole area that is not running equals
  the checksum announced by UPDATE_FIRMWARE; then it becomes the other mode and the command ends
  in a reset. The flash contents do not change. The checksum decides alone: no signature is
  checked, which the upgrade procedure of \<open>docs/hc\<close> asks for.
\<close>

theorem switch_boot_mode_checked:
  assumes "switch_boot_mode_cmd E s = Some s'"
  shows "(boot_add0 s' \<noteq> boot_add0 s) =
      (\<exists>base len. update_area s = Some (base, len) \<and> unat (crc_32 E (flash_read base len s)) = firmware_crc s)
    \<and> (boot_add0 s' \<noteq> boot_add0 s \<longrightarrow>
         {flash_get_boot_mode s, flash_get_boot_mode s'} = {HC_BOOT_BOOTLOADER_MODE, HC_BOOT_APPLICATION_MODE}
         \<and> last (outs s') = Out_system_reset)
    \<and> flash_mem s' = flash_mem s"
proof -
  have refused: "boot_add0 s' = boot_add0 s \<and> flash_mem s' = flash_mem s" if "finish_command_resp INVALID_STATE s = Some s'"
    using vflash.view_finish_resp [OF that] by simp
  show ?thesis
    using assms refused
    by (auto simp: switch_boot_mode_cmd_def switch_boot_finish_def update_area_def flash_get_boot_mode_def
        flash_set_boot_mode_def put_out_def led_on_def split: if_splits)
qed

theorem switch_boot_mode_checked_witness:
  "\<exists>s'. switch_boot_mode_cmd env_example (fw_reset\<lparr>g_update_firmware := replicate 80 0xff\<rparr>) = Some s'
     \<and> boot_add0 s' = 0x82 \<and> last (outs s') = Out_system_reset"
proof -
  let ?s = "fw_reset\<lparr>g_update_firmware := replicate 80 0xff\<rparr>"
  have crc: "unat (crc_32 env_example (flash_read BOOT_AREA_A HC_BOOT_AREA_A_LEN ?s)) = firmware_crc ?s"
    by (simp add: crc_32_def firmware_crc_def rd32_def rd16_def unat_max32)
  have mode: "flash_get_boot_mode ?s = HC_BOOT_APPLICATION_MODE" "boot_add0 ?s = 0x88"
    by (simp_all add: fw_reset_def flash_get_boot_mode_def)
  define s' where "s' = put_out Out_system_reset (put_out (Out_delay 1000) (put_out Out_usb_deinit (led_on
      (flash_set_boot_mode HC_BOOT_BOOTLOADER_MODE ?s))))"
  have run: "switch_boot_mode_cmd env_example ?s = Some s'"
    unfolding switch_boot_mode_cmd_def switch_boot_finish_def mode s'_def crc by simp
  have "boot_add0 s' = 0x82" by (simp add: s'_def put_out_def led_on_def flash_set_boot_mode_def)
  moreover from this have "boot_add0 s' \<noteq> boot_add0 ?s" by (simp add: mode)
  ultimately show ?thesis using switch_boot_mode_checked [OF run] run by blast
qed

end
