(* ===== verification/Machine.thy ===== *)
theory Machine
  imports Frame
begin

text \<open>
  The whole device: the main loop of \<open>firmware-hc/main.c\<close> (from \<open>while (1)\<close> on), and the
  interrupts that change the state between its rounds, as the step function \<open>dev_step\<close> over
  events and the set of reachable states. One part of the loop is one step, with the clock
  standing still; the SCSI layer's \<open>usbd_scsi_idle\<close> is outside. The eMMC stores what is
  written to it.
\<close>

section \<open>The main loop\<close>

definition main_ctap_init :: "env \<Rightarrow> action" where
  "main_ctap_init E s =
     (if \<not> g_ctap_initialized s \<and> rand_avail (rnd s) \<ge> env_ctap_init_rand E
         \<and> s_device_system_owner s = NO_SUBSYSTEM
      then (let (granted, s) = request_device CTAP_STARTUP_SUBSYSTEM s
            in if granted then
                 (let (page, r) = env_ctap_init_finish E (root_page s) (rnd s)
                  in map_option snd (release_device_request (restart_signet_command E) CTAP_STARTUP_SUBSYSTEM
                       (s\<lparr>root_page := page, rnd := r, g_ctap_initialized := True\<rparr>)))
               else Some s)
      else Some s)"

definition main_work_led :: "fw \<Rightarrow> fw" where
  "main_work_led s =
     (let busy = (g_work_to_do s \<inter> {KEYBOARD_WORK, SYNC_ROOT_BLOCK_WORK, FLASH_WORK} \<noteq> {}
                  \<or> g_emmc_user s = EMMC_USER_STORAGE \<or> g_emmc_user s = EMMC_USER_DB);
          s = (if busy
               then (if \<not> work_led_state s then BEGIN_WORK WORK_STATUS_WORK (s\<lparr>work_led_off_ms := now s + 40\<rparr>) else s)
                      \<lparr>work_led_state := True\<rparr>
               else (if work_led_state s then s\<lparr>work_led_off_ms := now s + 10\<rparr> else s)\<lparr>work_led_state := False\<rparr>)
      in if BLINK_WORK \<in> g_work_to_do s then s
         else if work_led_state s \<or> now s < work_led_off_ms s then led_on s
         else led_off (END_WORK WORK_STATUS_WORK s))"

definition main_timer :: action where
  "main_timer s =
     (if now s > g_timer_target s \<and> g_timer_target s \<noteq> 0
      then map_option (\<lambda>s. END_WORK TIMER_WORK (s\<lparr>g_timer_target := 0\<rparr>)) (timer_timeout s)
      else Some s)"

definition main_sync_root :: "env \<Rightarrow> action" where
  "main_sync_root E s =
     (if sync_root_block_pending s \<and> is_flash_idle s \<and> \<not> sync_root_block_writing s
      then sync_root_block_immediate E s else Some s)"

definition main_press :: "env \<Rightarrow> action" where
  "main_press E s =
     (if g_press_pending s then do {
        let s = END_WORK BUTTON_PRESS_WORK (s\<lparr>g_press_pending := False\<rparr>);
        if \<not> g_button_state s then do {
          s \<leftarrow> (case s_device_system_owner s of
                  SIGNET_SUBSYSTEM \<Rightarrow> button_press E s
                | CTAP_SUBSYSTEM \<Rightarrow> Some (put_out Out_ctap_press s)
                | NO_SUBSYSTEM \<Rightarrow> button_press_unprompted s
                | CTAP_STARTUP_SUBSYSTEM \<Rightarrow> Some s);
          Some (BEGIN_WORK BUTTON_PRESSING_WORK (s\<lparr>g_button_state := True\<rparr>))
        } else Some s
      } else Some s)"

definition main_release :: "env \<Rightarrow> bool \<Rightarrow> action" where
  "main_release E current_button_state s =
     (if \<not> current_button_state \<and> g_button_state s \<and> now s - g_ms_last_pressed s > 100
      then map_option (\<lambda>s. END_WORK BUTTON_PRESSING_WORK (s\<lparr>g_button_state := False\<rparr>)) (button_release E s)
      else Some s)"

definition main_long_press :: "env \<Rightarrow> action" where
  "main_long_press E s =
     (if g_button_state s \<and> now s - g_ms_last_pressed s > 2000
      then let s = END_WORK BUTTON_PRESSING_WORK (s\<lparr>g_button_state := False\<rparr>)
           in if s_device_system_owner s = SIGNET_SUBSYSTEM then long_button_press E s else Some s
      else Some s)"

text \<open>The parts of one round, in their order; interrupts can come between them.\<close>

datatype phase =
  Ph_ctap_init | Ph_work_led | Ph_timer | Ph_keyboard | Ph_blink | Ph_command_idle | Ph_sync_root | Ph_flash
| Ph_press | Ph_release bool | Ph_long_press

fun main_phase :: "env \<Rightarrow> phase \<Rightarrow> action" where
  "main_phase E Ph_ctap_init s = main_ctap_init E s"
| "main_phase E Ph_work_led s = Some (main_work_led s)"
| "main_phase E Ph_timer s = main_timer s"
| "main_phase E Ph_keyboard s = usb_keyboard_idle s"
| "main_phase E Ph_blink s = blink_idle blink_timeout s"
| "main_phase E Ph_command_idle s = command_idle E s"
| "main_phase E Ph_sync_root s = main_sync_root E s"
| "main_phase E Ph_flash s = flash_idle (flash_write_complete E) s"
| "main_phase E Ph_press s = main_press E s"
| "main_phase E (Ph_release current_button_state) s = main_release E current_button_state s"
| "main_phase E Ph_long_press s = main_long_press E s"

definition main_phases :: "bool \<Rightarrow> phase list" where
  "main_phases current_button_state =
     [Ph_ctap_init, Ph_work_led, Ph_timer, Ph_keyboard, Ph_blink, Ph_command_idle, Ph_sync_root, Ph_flash,
      Ph_press, Ph_release current_button_state, Ph_long_press]"

definition main_iter :: "env \<Rightarrow> bool \<Rightarrow> action" where
  "main_iter E current_button_state = run_all (map (main_phase E) (main_phases current_button_state))"

section \<open>Interrupts\<close>

definition BUTTON_HANDLER :: "fw \<Rightarrow> fw" where
  "BUTTON_HANDLER s = BEGIN_WORK BUTTON_PRESS_WORK (s\<lparr>g_ms_last_pressed := now s, g_press_pending := True\<rparr>)"

definition hid_data_in :: "env \<Rightarrow> interface \<Rightarrow> action" where
  "hid_data_in E i =
     (case i of
        INTERFACE_CMD \<Rightarrow> maybe_send_raw_hid_packet (cmd_packet_sent E)
      | INTERFACE_KEYBOARD \<Rightarrow> usb_tx_keyboard)"

text \<open>The DMA has moved the block, then the completion interrupt comes.\<close>

definition mmc_rx_done :: "fw \<Rightarrow> fw" where
  "mmc_rx_done s =
     HAL_MMC_RxCpltCallback
       (if g_emmc_user s = EMMC_USER_DB then buf_put (g_db_read_dest s) (emmc s (g_db_read_idx s)) s else s)"

definition mmc_tx_done :: "fw \<Rightarrow> fw" where
  "mmc_tx_done s =
     HAL_MMC_TxCpltCallback
       (if g_emmc_user s = EMMC_USER_DB
        then s\<lparr>emmc := (emmc s)(g_db_write_idx s := buf_get (g_db_write_src s) s)\<rparr> else s)"

datatype event =
  Ev_main phase | Ev_rx bytes | Ev_tx interface | Ev_configured bool | Ev_button | Ev_tick nat
| Ev_rand rand_src u32 | Ev_mmc_rx | Ev_mmc_tx | Ev_mmc_tx_dma | Ev_ctap_request | Ev_ctap_release

fun dev_step :: "env \<Rightarrow> event \<Rightarrow> action" where
  "dev_step E (Ev_main ph) s = main_phase E ph s"
| "dev_step E (Ev_rx d) s = usb_raw_hid_rx (cmd_packet_recv E) d s"
| "dev_step E (Ev_tx i) s = USBD_HID_DataIn (hid_data_in E) i s"
| "dev_step E (Ev_configured b) s = Some (s\<lparr>usb_configured := b\<rparr>)"
| "dev_step E Ev_button s = Some (BUTTON_HANDLER s)"
| "dev_step E (Ev_tick n) s = Some (s\<lparr>now := now s + int n\<rparr>)"
| "dev_step E (Ev_rand src w) s = device_rand_push E src w s"
| "dev_step E Ev_mmc_rx s = Some (mmc_rx_done s)"
| "dev_step E Ev_mmc_tx s = Some (mmc_tx_done s)"
| "dev_step E Ev_mmc_tx_dma s = Some (MMC_DMATXTransmitComplete s)"
| "dev_step E Ev_ctap_request s = Some (snd (request_device CTAP_SUBSYSTEM s))"
| "dev_step E Ev_ctap_release s = map_option snd (release_device_request (restart_signet_command E) CTAP_SUBSYSTEM s)"

text \<open>The states the device can be in, from the initialised one on.\<close>

inductive reachable :: "env \<Rightarrow> fw \<Rightarrow> fw \<Rightarrow> bool" for E s0 where
  reach_start: "reachable E s0 s0"
| reach_step: "reachable E s0 s \<Longrightarrow> dev_step E e s = Some s' \<Longrightarrow> reachable E s0 s'"

inductive_cases reachableE: "reachable E s0 s"

lemma reachable_invariant:
  assumes "reachable E s0 s" "P s0" "\<And>e. keeps P (dev_step E e)"
  shows "P s"
  using assms by (induction rule: reachable.induct) (auto dest: keepsD)

text \<open>A round of the loop without interrupts is a run of the machine.\<close>

lemma main_phases_reachable:
  "reachable E s0 s \<Longrightarrow> run_all (map (main_phase E) phs) s = Some s' \<Longrightarrow> reachable E s0 s'"
proof (induction phs arbitrary: s)
  case (Cons ph phs)
  then obtain t where "main_phase E ph s = Some t" "run_all (map (main_phase E) phs) t = Some s'"
    by (auto split: option.splits)
  then show ?case
    using Cons.IH reach_step [OF Cons.prems(1), of "Ev_main ph" t] by simp
qed simp

lemma main_iter_reachable: "reachable E s0 s \<Longrightarrow> main_iter E b s = Some s' \<Longrightarrow> reachable E s0 s'"
  unfolding main_iter_def by (rule main_phases_reachable)

end
