(* ===== verification/Session.thy ===== *)
theory Session
  imports Machine
begin

text \<open>
  Who can open a session. A device is \<open>closed\<close> unless it is logged in, or backing up a
  device that was logged in and will be again. Every step of the machine keeps a closed device
  closed, except the button press that completes a LOGIN or LOGIN_TOKEN, and the random numbers
  that complete a LOGIN with a token.
\<close>

section \<open>Closed devices\<close>

definition closed :: "fw \<Rightarrow> bool" where
  "closed s \<longleftrightarrow> \<not> (g_device_state s = DS_LOGGED_IN
     \<or> g_device_state s = DS_BACKING_UP_DEVICE \<and> backup_prev_state s = DS_LOGGED_IN)"

text \<open>It does not depend on the other variables.\<close>

lemma closed_frame [simp]:
  "closed (s\<lparr>active_cmd := x0\<rparr>) = closed s"
  "closed (s\<lparr>cmd_iter_count := x1\<rparr>) = closed s"
  "closed (s\<lparr>cmd_messages_remaining := x2\<rparr>) = closed s"
  "closed (s\<lparr>g_write_db_tx_complete := x3\<rparr>) = closed s"
  "closed (s\<lparr>g_read_db_tx_complete := x4\<rparr>) = closed s"
  "closed (s\<lparr>g_uninitialized_wiped := x5\<rparr>) = closed s"
  "closed (s\<lparr>g_mmc_tx_cplt := x6\<rparr>) = closed s"
  "closed (s\<lparr>g_mmc_tx_dma_cplt := x7\<rparr>) = closed s"
  "closed (s\<lparr>g_mmc_rx_cplt := x8\<rparr>) = closed s"
  "closed (s\<lparr>g_root_block_sync_state := x9\<rparr>) = closed s"
  "closed (s\<lparr>s_device_system_owner := x10\<rparr>) = closed s"
  "closed (s\<lparr>s_ctap_subsystem_waiting := x11\<rparr>) = closed s"
  "closed (s\<lparr>s_signet_subsystem_waiting := x12\<rparr>) = closed s"
  "closed (s\<lparr>s_subsystem_release_requested := x13\<rparr>) = closed s"
  "closed (s\<lparr>cmd_packet_buf := x14\<rparr>) = closed s"
  "closed (s\<lparr>cmd_resp := x15\<rparr>) = closed s"
  "closed (s\<lparr>g_encrypt_key := x16\<rparr>) = closed s"
  "closed (s\<lparr>token_auth_rand_cyphertext := x17\<rparr>) = closed s"
  "closed (s\<lparr>token_encrypt_key_cyphertext := x18\<rparr>) = closed s"
  "closed (s\<lparr>g_root_block_version := x19\<rparr>) = closed s"
  "closed (s\<lparr>g_db_version := x20\<rparr>) = closed s"
  "closed (s\<lparr>g_root_page_valid := x21\<rparr>) = closed s"
  "closed (s\<lparr>root_page := x22\<rparr>) = closed s"
  "closed (s\<lparr>root_page_ptr := x23\<rparr>) = closed s"
  "closed (s\<lparr>n_progress_components := x24\<rparr>) = closed s"
  "closed (s\<lparr>g_progress_level := x25\<rparr>) = closed s"
  "closed (s\<lparr>progress_maximum := x26\<rparr>) = closed s"
  "closed (s\<lparr>g_progress_check := x27\<rparr>) = closed s"
  "closed (s\<lparr>g_progress_target_state := x28\<rparr>) = closed s"
  "closed (s\<lparr>waiting_for_button_press := x29\<rparr>) = closed s"
  "closed (s\<lparr>waiting_for_long_button_press := x30\<rparr>) = closed s"
  "closed (s\<lparr>g_emmc_user := x31\<rparr>) = closed s"
  "closed (s\<lparr>g_emmc_user_ready := x32\<rparr>) = closed s"
  "closed (s\<lparr>g_db_action := x33\<rparr>) = closed s"
  "closed (s\<lparr>g_db_read_idx := x34\<rparr>) = closed s"
  "closed (s\<lparr>g_db_read_dest := x35\<rparr>) = closed s"
  "closed (s\<lparr>g_db_write_idx := x36\<rparr>) = closed s"
  "closed (s\<lparr>g_db_write_src := x37\<rparr>) = closed s"
  "closed (s\<lparr>cleartext_pass_index := x38\<rparr>) = closed s"
  "closed (s\<lparr>cleartext_pass_typing := x39\<rparr>) = closed s"
  "closed (s\<lparr>cleartext_type_buf := x40\<rparr>) = closed s"
  "closed (s\<lparr>d_erase := x41\<rparr>) = closed s"
  "closed (s\<lparr>d_chars := x42\<rparr>) = closed s"
  "closed (s\<lparr>d_init := x43\<rparr>) = closed s"
  "closed (s\<lparr>d_startup := x44\<rparr>) = closed s"
  "closed (s\<lparr>d_wipe := x45\<rparr>) = closed s"
  "closed (s\<lparr>d_read_block := x46\<rparr>) = closed s"
  "closed (s\<lparr>d_write_block := x47\<rparr>) = closed s"
  "closed (s\<lparr>d_erase_block := x48\<rparr>) = closed s"
  "closed (s\<lparr>d_change := x49\<rparr>) = closed s"
  "closed (s\<lparr>d_login := x50\<rparr>) = closed s"
  "closed (s\<lparr>d_update := x51\<rparr>) = closed s"
  "closed (s\<lparr>d_read_uid := x52\<rparr>) = closed s"
  "closed (s\<lparr>d_read_all := x53\<rparr>) = closed s"
  "closed (s\<lparr>d_write_flash := x54\<rparr>) = closed s"
  "closed (s\<lparr>d_rand_bits := x55\<rparr>) = closed s"
  "closed (s\<lparr>block_read_cache := x56\<rparr>) = closed s"
  "closed (s\<lparr>block_read_cache_idx := x57\<rparr>) = closed s"
  "closed (s\<lparr>block_read_cache_updating := x58\<rparr>) = closed s"
  "closed (s\<lparr>g_block_info_tbl := x59\<rparr>) = closed s"
  "closed (s\<lparr>uid_map := x60\<rparr>) = closed s"
  "closed (s\<lparr>db3_startup_scan_running := x61\<rparr>) = closed s"
  "closed (s\<lparr>db3_startup_scan_blk_num := x62\<rparr>) = closed s"
  "closed (s\<lparr>db3_startup_scan_block_read := x63\<rparr>) = closed s"
  "closed (s\<lparr>g_update_firmware := x64\<rparr>) = closed s"
  "closed (s\<lparr>flash_state := x65\<rparr>) = closed s"
  "closed (s\<lparr>flash_erase_sector := x66\<rparr>) = closed s"
  "closed (s\<lparr>flash_write_dest := x67\<rparr>) = closed s"
  "closed (s\<lparr>flash_write_src := x68\<rparr>) = closed s"
  "closed (s\<lparr>flash_write_length := x69\<rparr>) = closed s"
  "closed (s\<lparr>flash_mem := x70\<rparr>) = closed s"
  "closed (s\<lparr>boot_add0 := x71\<rparr>) = closed s"
  "closed (s\<lparr>emmc := x72\<rparr>) = closed s"
  "closed (s\<lparr>raw_hid_tx_data := x73\<rparr>) = closed s"
  "closed (s\<lparr>raw_hid_tx_seq := x74\<rparr>) = closed s"
  "closed (s\<lparr>raw_hid_tx_count := x75\<rparr>) = closed s"
  "closed (s\<lparr>raw_hid_tx_cmd_packet := x76\<rparr>) = closed s"
  "closed (s\<lparr>raw_hid_tx_event_packet := x77\<rparr>) = closed s"
  "closed (s\<lparr>event_mask := x78\<rparr>) = closed s"
  "closed (s\<lparr>event_data := x79\<rparr>) = closed s"
  "closed (s\<lparr>event_data_len := x80\<rparr>) = closed s"
  "closed (s\<lparr>usb_configured := x81\<rparr>) = closed s"
  "closed (s\<lparr>hid_busy := x82\<rparr>) = closed s"
  "closed (s\<lparr>tx_report := x83\<rparr>) = closed s"
  "closed (s\<lparr>g_typing := x84\<rparr>) = closed s"
  "closed (s\<lparr>kb_n_chars := x85\<rparr>) = closed s"
  "closed (s\<lparr>kb_chars := x86\<rparr>) = closed s"
  "closed (s\<lparr>kb_char_pos := x87\<rparr>) = closed s"
  "closed (s\<lparr>ms_type := x88\<rparr>) = closed s"
  "closed (s\<lparr>char_pos_to_type := x89\<rparr>) = closed s"
  "closed (s\<lparr>g_ms_last_pressed := x90\<rparr>) = closed s"
  "closed (s\<lparr>g_blink_state := x91\<rparr>) = closed s"
  "closed (s\<lparr>g_blink_start := x92\<rparr>) = closed s"
  "closed (s\<lparr>g_blink_period := x93\<rparr>) = closed s"
  "closed (s\<lparr>g_blink_duration := x94\<rparr>) = closed s"
  "closed (s\<lparr>g_blink_paused := x95\<rparr>) = closed s"
  "closed (s\<lparr>g_pause_start := x96\<rparr>) = closed s"
  "closed (s\<lparr>g_timeout_event_secs := x97\<rparr>) = closed s"
  "closed (s\<lparr>g_button_state := x98\<rparr>) = closed s"
  "closed (s\<lparr>g_press_pending := x99\<rparr>) = closed s"
  "closed (s\<lparr>g_timer_target := x100\<rparr>) = closed s"
  "closed (s\<lparr>g_ctap_initialized := x101\<rparr>) = closed s"
  "closed (s\<lparr>g_work_to_do := x102\<rparr>) = closed s"
  "closed (s\<lparr>work_led_off_ms := x103\<rparr>) = closed s"
  "closed (s\<lparr>work_led_state := x104\<rparr>) = closed s"
  "closed (s\<lparr>now := x105\<rparr>) = closed s"
  "closed (s\<lparr>rnd := x106\<rparr>) = closed s"
  "closed (s\<lparr>outs := x107\<rparr>) = closed s"
  by (simp_all add: closed_def)

interpretation vclosed: button_frame closed
  by unfold_locales simp_all

interpretation vprev: quiet backup_prev_state
  by unfold_locales simp_all

named_theorems closed_rules \<open>operations that keep a device closed, with the rest of the run\<close>

lemma closed_pure [simp]:
  "closed (put_out x s) = closed s" "closed (BEGIN_WORK w s) = closed s" "closed (END_WORK w s) = closed s"
  "closed (begin_button_press_wait s) = closed s" "closed (begin_long_button_press_wait s) = closed s"
  "closed (end_button_press_wait s) = closed s" "closed (end_long_button_press_wait s) = closed s"
  "closed (stop_blinking s) = closed s" "closed (pause_blinking s) = closed s"
  "closed (USBD_HID_rx_resume i s) = closed s" "closed (led_on s) = closed s" "closed (led_off s) = closed s"
  by (simp_all add: vclosed.view_put_out vclosed.view_work vclosed.view_button_wait vclosed.view_blinking
      vclosed.view_rx_resume vclosed.view_led)

lemma closed_buf_put [simp]: "closed (buf_put b d s) = closed s"
  by (cases b) (simp_all add: buf_put_def)

lemma closed_rp_put [simp]: "closed (rp_put off d s) = closed s"
  by (simp add: rp_put_def)

lemma closed_emmc [simp]:
  "closed (emmc_user_schedule s) = closed s" "closed (emmc_user_done s) = closed s"
  by (simp_all add: emmc_user_done_def emmc_user_schedule_def emmc_user_db_start_def emmc_take_def split: db_action.split)

lemma closed_sync_root_block [simp]: "closed (sync_root_block s) = closed s"
  by (simp add: sync_root_block_def)

text \<open>A rule for an operation that keeps \<open>closed\<close>, in the form the proofs below use.\<close>

lemma closed_postI:
  "(\<And>s'. r = Some s' \<Longrightarrow> closed s') \<Longrightarrow> (\<And>s'. closed s' \<Longrightarrow> Q s') \<Longrightarrow> post Q r"
  by (simp add: post_def)

lemma closed_responses [closed_rules]:
  assumes "closed s" "\<And>s'. closed s' \<Longrightarrow> Q s'"
  shows "post Q (finish_command_resp r s)" "post Q (finish_command r p n s)" "post Q (finish_command_multi r k p n s)"
    "post Q (get_progress_check s)" "post Q (subsystem_idle_check s)" "post Q (usb_send_bytes i t n s)"
    "post Q (cmd_event_send e d n s)" "post Q (blink_idle blink_timeout s)"
  using assms vclosed.view_finish_resp vclosed.view_finish vclosed.view_finish_multi vclosed.view_progress_check
    vclosed.view_idle_check vclosed.view_usb_send_bytes vclosed.view_cmd_event_send vclosed.view_blink_idle
  by (auto simp: post_def)

text \<open>Entering a state that is not the open one.\<close>

lemma enter_progressing_session:
  assumes "enter_progressing_state d ms s = Some s'"
  shows "g_device_state s' = d" "backup_prev_state s' = backup_prev_state s"
proof -
  show "backup_prev_state s' = backup_prev_state s" by (rule vprev.view_enter_progressing [OF assms])
  obtain u where u: "get_progress_check (entered d ms s) = Some u" "subsystem_idle_check u = Some s'"
    using assms by (auto simp: enter_progressing_state_entered bind_eq_Some_conv)
  show "g_device_state s' = d"
    using vstate.view_progress_check [OF u(1)] vstate.view_idle_check [OF u(2)] by simp
qed

lemma closed_enter [closed_rules]:
  assumes "d \<noteq> DS_LOGGED_IN" "d = DS_BACKING_UP_DEVICE \<Longrightarrow> backup_prev_state s \<noteq> DS_LOGGED_IN"
    and "\<And>s'. closed s' \<Longrightarrow> Q s'"
  shows "post Q (enter_state d s)" "post Q (enter_progressing_state d ms s)"
proof -
  have "closed s'" if "enter_progressing_state d ns s = Some s'" for ns s'
    using enter_progressing_session [OF that] assms(1,2) by (auto simp: closed_def)
  then show "post Q (enter_state d s)" "post Q (enter_progressing_state d ms s)"
    using assms(3) by (auto simp: post_def enter_state_def)
qed

section \<open>Flash and blocks\<close>

lemma closed_flash_write [closed_rules]:
  assumes "closed s" "\<And>s'. closed s' \<Longrightarrow> Q s'"
  shows "post Q (flash_write a b n s)" "post Q (flash_write_page a b n s)"
  using assms by (auto simp: post_def flash_write_def flash_write_page_def Let_def split: if_splits)

lemma closed_write_root_block [closed_rules]:
  "closed s \<Longrightarrow> (\<And>s'. closed s' \<Longrightarrow> Q s') \<Longrightarrow> post Q (write_root_block E b n s)"
  by (auto simp: write_root_block_def Let_def intro!: post_data closed_rules)

lemma closed_emmc_queue [closed_rules]:
  "closed s \<Longrightarrow> (\<And>s'. closed s' \<Longrightarrow> Q s') \<Longrightarrow> post Q (emmc_user_queue u s)"
  by (auto simp: emmc_user_queue_def)

lemma closed_read_data_block:
  assumes "keeps closed complete" "closed s" "\<And>s'. closed s' \<Longrightarrow> Q s'"
  shows "post Q (read_data_block complete idx d s)"
  using assms(2,3)
  by (auto simp: read_data_block_def intro!: closed_emmc_queue post_keeps [OF assms(1)] split: option.split)

lemma keeps_None [simp]: "keeps P (\<lambda>_. None)"
  by (simp add: keeps_def)

lemma closed_read_block_only [closed_rules]:
  "closed s \<Longrightarrow> (\<And>s'. closed s' \<Longrightarrow> Q s') \<Longrightarrow> post Q (read_data_block (\<lambda>_. None) idx d s)"
  by (rule closed_read_data_block) simp_all

lemma closed_write_data_block [closed_rules]:
  "closed s \<Longrightarrow> (\<And>s'. closed s' \<Longrightarrow> Q s') \<Longrightarrow> post Q (write_data_block E idx d s)"
  by (auto simp: write_data_block_def Let_def invalidate_data_block_cache_def intro!: closed_rules)

lemma closed_sync_immediate [closed_rules]:
  "closed s \<Longrightarrow> (\<And>s'. closed s' \<Longrightarrow> Q s') \<Longrightarrow> post Q (sync_root_block_immediate E s)"
  by (auto simp: sync_root_block_immediate_def intro!: closed_rules)

section \<open>Keyboard and packets\<close>

lemma closed_typing_done [closed_rules]:
  "closed s \<Longrightarrow> (\<And>s'. closed s' \<Longrightarrow> Q s') \<Longrightarrow> post Q (usb_keyboard_typing_done s)"
  by (auto simp: usb_keyboard_typing_done_def intro!: closed_rules)

lemma closed_keyboard [closed_rules]:
  assumes "closed s" "\<And>s'. closed s' \<Longrightarrow> Q s'"
  shows "post Q (usb_keyboard_type b n s)" "post Q (usb_keyboard_idle s)" "post Q (usb_tx_keyboard s)"
  using assms
  by (auto simp: usb_keyboard_type_def usb_keyboard_idle_def usb_tx_keyboard_def Let_def intro!: closed_rules)

lemma closed_send_packet:
  assumes "keeps closed sent" "closed s" "\<And>s'. closed s' \<Longrightarrow> Q s'"
  shows "post Q (maybe_send_raw_hid_packet sent s)"
proof (rule postI)
  fix s' assume s': "maybe_send_raw_hid_packet sent s = Some s'"
  obtain ev s1 where e: "maybe_send_raw_hid_event s = Some (ev, s1)"
    using s' by (cases "maybe_send_raw_hid_event s") (auto simp: maybe_send_raw_hid_packet_def)
  have "closed s1" using vclosed.view_event [OF e] assms(2) by simp
  then have "post closed (maybe_send_raw_hid_packet sent s)"
    unfolding maybe_send_raw_hid_packet_def e using assms(1)
    by (auto simp: Let_def intro!: post_data closed_rules intro: post_keeps)
  then show "Q s'" using s' assms(3) by (auto dest: postD)
qed

section \<open>Database\<close>

lemma closed_cached [closed_rules]:
  "closed s \<Longrightarrow> (\<And>b s'. closed s' \<Longrightarrow> Q (b, s')) \<Longrightarrow> post Q (get_cached_data_block idx s)"
  by (auto simp: get_cached_data_block_def intro!: closed_rules)

lemma closed_find_uid [closed_rules]:
  "closed s \<Longrightarrow> (\<And>r nb s'. closed s' \<Longrightarrow> Q (r, nb, s')) \<Longrightarrow> post Q (find_uid uid s)"
  by (auto simp: find_uid_def Let_def intro!: closed_rules split: option.split)

lemma closed_upd [simp]:
  "closed (upd_update f s) = closed s" "closed (upd_read g s) = closed s" "closed (upd_read_all h s) = closed s"
  "closed (upd_init i s) = closed s" "closed (upd_login l s) = closed s" "closed (upd_startup_resp r s) = closed s"
  by (simp_all add: upd_update_def upd_read_def upd_read_all_def upd_init_def upd_login_def upd_startup_resp_def)

lemma closed_alloc_blk [closed_rules]:
  "closed s \<Longrightarrow> (\<And>s'. closed s' \<Longrightarrow> Q s') \<Longrightarrow> post Q (allocate_uid_blk E uid sz rv s)"
  by (auto simp: allocate_uid_blk_def Let_def intro!: post_data)

lemma closed_allocate [closed_rules]:
  "closed s \<Longrightarrow> (\<And>r nb s'. closed s' \<Longrightarrow> Q (r, nb, s')) \<Longrightarrow> post Q (allocate_uid E uid sz rv s)"
  by (auto simp: allocate_uid_def Let_def intro!: closed_rules split: option.split prod.splits)

lemma closed_deallocate [closed_rules]:
  "closed s \<Longrightarrow> (\<And>r nb s'. closed s' \<Longrightarrow> Q (r, nb, s')) \<Longrightarrow> post Q (deallocate_uid uid b s)"
  by (auto simp: deallocate_uid_def Let_def intro!: post_data closed_rules split: find_result.split)

lemma closed_update_uid [closed_rules]:
  "closed s \<Longrightarrow> (\<And>r p nb s'. closed s' \<Longrightarrow> Q (r, p, nb, s')) \<Longrightarrow> post Q (update_uid E uid sz s)"
  by (auto simp: update_uid_def Let_def intro!: closed_rules split: find_result.split)

lemma closed_update_uid_complete [closed_rules]:
  "closed s \<Longrightarrow> (\<And>s'. closed s' \<Longrightarrow> Q s') \<Longrightarrow> post Q (update_uid_cmd_complete E s)"
  by (auto simp: update_uid_cmd_complete_def Let_def intro!: closed_rules)

lemma closed_update_uid_iter [closed_rules]:
  "closed s \<Longrightarrow> (\<And>s'. closed s' \<Longrightarrow> Q s') \<Longrightarrow> post Q (update_uid_cmd_iter E s)"
  by (auto simp: update_uid_cmd_iter_def Let_def intro!: closed_rules split: update_uid_status.split)

lemma closed_update_uid_cmd [closed_rules]:
  "closed s \<Longrightarrow> (\<And>s'. closed s' \<Longrightarrow> Q s') \<Longrightarrow> post Q (update_uid_cmd E uid d sz p s)"
  by (auto simp: update_uid_cmd_def Let_def intro!: post_data closed_rules)

lemma closed_tables [closed_rules]:
  assumes "closed s" "\<And>s'. closed s' \<Longrightarrow> Q s'"
  shows "post Q (set_block_info i info s)" "post Q (set_uid_map u b s)" "post Q (scan_block E blk i s)"
  using assms by (auto simp: set_block_info_def set_uid_map_def scan_block_def Let_def)

lemma closed_update_uid_written [closed_rules]:
  "closed s \<Longrightarrow> (\<And>s'. closed s' \<Longrightarrow> Q s') \<Longrightarrow> post Q (update_uid_cmd_write_finished E s)"
  by (auto simp: update_uid_cmd_write_finished_def Let_def intro!: closed_rules)

lemma closed_read_uid_complete [closed_rules]:
  "closed s \<Longrightarrow> (\<And>s'. closed s' \<Longrightarrow> Q s') \<Longrightarrow> post Q (read_uid_cmd_complete E s)"
  by (auto simp: read_uid_cmd_complete_def Let_def intro!: post_data closed_rules)

lemma closed_read_uid [closed_rules]:
  assumes "closed s" "\<And>s'. closed s' \<Longrightarrow> Q s'"
  shows "post Q (read_uid_cmd_iter E s)" "post Q (read_uid_cmd E uid m s)"
  using assms
  by (auto simp: read_uid_cmd_iter_def read_uid_cmd_def Let_def intro!: post_data closed_rules split: find_result.split)

lemma closed_read_all_iter [closed_rules]:
  "closed s \<Longrightarrow> (\<And>s'. closed s' \<Longrightarrow> Q s') \<Longrightarrow> post Q (read_all_uids_cmd_iter E s)"
  by (auto simp: read_all_uids_cmd_iter_def Let_def intro!: post_data closed_rules split: find_result.split)

lemma closed_read_all [closed_rules]:
  assumes "closed s" "\<And>s'. closed s' \<Longrightarrow> Q s'"
  shows "post Q (read_all_uids_cmd_complete E s)" "post Q (read_all_uids_cmd E m s)"
  using assms by (auto simp: read_all_uids_cmd_complete_def read_all_uids_cmd_def Let_def intro!: closed_rules)

lemma closed_scan [closed_rules]:
  assumes "closed s" "\<And>s'. closed s' \<Longrightarrow> Q s'"
  shows "post Q (db3_startup_scan_resume E s)" "post Q (db3_startup_scan b s)"
  using assms by (auto simp: db3_startup_scan_resume_def db3_startup_scan_def Let_def intro!: closed_rules)

lemma closed_db3_complete [closed_rules]:
  assumes "closed s" "\<And>b s'. closed s' \<Longrightarrow> Q (b, s')"
  shows "post Q (db3_read_block_complete E s)" "post Q (db3_write_block_complete E s)"
  using assms
  by (auto simp: db3_read_block_complete_def db3_read_dispatch_def db3_write_block_complete_def Let_def intro!: closed_rules)

section \<open>Firmware update\<close>

lemma closed_update_firmware [closed_rules]:
  assumes "closed s" "\<And>s'. closed s' \<Longrightarrow> Q s'"
  shows "post Q (update_firmware_cmd d n s)" "post Q (update_firmware_cmd_complete s)"
    "post Q (write_flash_cmd_complete s)" "post Q (firmware_update_write_block_complete s)"
  using assms
  by (auto simp: update_firmware_cmd_def update_firmware_cmd_complete_def write_flash_cmd_complete_def
      firmware_update_write_block_complete_def Let_def intro!: post_data closed_rules)

lemma closed_erase_start [closed_rules]:
  "(\<And>s'. closed s' \<Longrightarrow> Q s') \<Longrightarrow> post Q (erase_flash_pages_start k m s)"
  by (auto simp: erase_flash_pages_start_def Let_def intro!: closed_rules)

lemma closed_write_flash_area [closed_rules]:
  "closed s \<Longrightarrow> (\<And>s'. closed s' \<Longrightarrow> Q s') \<Longrightarrow> post Q (write_flash_area b l d n s)"
  by (auto simp: write_flash_area_def Let_def intro!: post_data closed_rules)

lemma closed_switch_boot_finish [simp]: "closed (flash_set_boot_mode m s) = closed s"
  by (simp add: flash_set_boot_mode_def split: hc_boot_mode.split)

lemma closed_flash_cmds [closed_rules]:
  assumes "closed s" "\<And>s'. closed s' \<Longrightarrow> Q s'"
  shows "post Q (erase_flash_pages_cmd s)" "post Q (write_flash_cmd d n s)" "post Q (switch_boot_mode_cmd E s)"
    "post Q (reset_device_cmd s)" "post Q (get_progress_cmd d s)"
  using assms
  by (auto simp: erase_flash_pages_cmd_def write_flash_cmd_def switch_boot_mode_cmd_def switch_boot_finish_def
      reset_device_cmd_def get_progress_cmd_def Let_def intro!: closed_rules split: hc_boot_mode.split)

lemma closed_update_states [closed_rules]:
  assumes "closed s" "\<And>r s'. closed s' \<Longrightarrow> Q (r, s')"
  shows "post Q (firmware_update_state E c d n s)" "post Q (erasing_pages_state c d s)" "post Q (bootloader_state E c d n s)"
  using assms
  by (auto simp: firmware_update_state_def erasing_pages_state_def bootloader_state_def handled_def intro!: closed_rules)

section \<open>Commands\<close>

lemma closed_root_page [closed_rules]:
  assumes "closed s" "\<And>s'. closed s' \<Longrightarrow> Q s'"
  shows "post Q (init_signet_data E s)"
  using assms by (auto simp: init_signet_data_def Let_def xor_rand_def split: prod.splits if_splits)

lemma closed_init_ctap [simp]: "closed (init_ctap_data E s) = closed s"
  by (simp add: init_ctap_data_def Let_def split: prod.splits)

lemma closed_finalize [closed_rules]:
  "closed s \<Longrightarrow> (\<And>s'. closed s' \<Longrightarrow> Q s') \<Longrightarrow> post Q (finalize_root_page_check E s)"
  by (auto simp: finalize_root_page_check_def Let_def intro!: closed_rules)

lemma closed_simple_cmds [closed_rules]:
  assumes "closed s" "\<And>s'. closed s' \<Longrightarrow> Q s'"
  shows "post Q (login_cmd d n s)" "post Q (login_token_cmd d n s)" "post Q (initialize_cmd d n s)"
    "post Q (get_device_capacity_cmd s)" "post Q (change_master_password_cmd E d n s)"
    "post Q (change_master_password_complete E s)"
  using assms
  by (auto simp: login_cmd_def login_token_cmd_def initialize_cmd_def get_device_capacity_cmd_def
      change_master_password_cmd_def change_master_password_complete_def Let_def intro!: closed_rules split: option.split)

lemma closed_wipe [simp]: "closed (wipe_cmd s) = closed s" "closed (restore_device_cmd s) = closed s"
  by (simp_all add: wipe_cmd_def restore_device_cmd_def)

lemma closed_initialize_complete [closed_rules]:
  "closed s \<Longrightarrow> (\<And>s'. closed s' \<Longrightarrow> Q s') \<Longrightarrow> post Q (initialize_cmd_complete E s)"
  by (auto simp: initialize_cmd_complete_def Let_def intro!: closed_rules)

lemma closed_block_cmds [closed_rules]:
  assumes "closed s" "\<And>s'. closed s' \<Longrightarrow> Q s'"
  shows "post Q (write_block_cmd E d n s)" "post Q (erase_block_cmd E d n s)"
  using assms by (auto simp: write_block_cmd_def erase_block_cmd_def Let_def intro!: closed_rules)

lemma closed_read_block_cmd:
  "keeps closed complete \<Longrightarrow> closed s \<Longrightarrow> (\<And>s'. closed s' \<Longrightarrow> Q s') \<Longrightarrow> post Q (read_block_cmd complete d n s)"
  by (auto simp: read_block_cmd_def Let_def intro!: closed_rules closed_read_data_block)

lemma closed_disconnect [closed_rules]:
  "(\<And>s'. closed s' \<Longrightarrow> Q s') \<Longrightarrow> post Q (cmd_disconnect s)"
  by (auto simp: cmd_disconnect_def intro!: closed_rules)

lemma closed_rand_bits_check [closed_rules]:
  assumes "closed s" "\<And>s'. closed s' \<Longrightarrow> Q s'"
  shows "post Q (get_rand_bits_cmd_check s)"
  using assms
  by (auto simp: get_rand_bits_cmd_check_def xor_rand_def Let_def intro!: closed_rules split: prod.splits if_splits)

lemma closed_rand_type [closed_rules]:
  assumes "closed s" "\<And>s'. closed s' \<Longrightarrow> Q s'"
  shows "post Q (get_rand_bits_cmd d n s)" "post Q (type_cmd d n s)"
  using assms by (auto simp: get_rand_bits_cmd_def type_cmd_def Let_def intro!: post_data closed_rules)

lemma closed_requests [closed_rules]:
  assumes "closed s" "\<And>s'. closed s' \<Longrightarrow> Q s'"
  shows "post Q (read_uid_request E d n s)" "post Q (update_uid_request E d n s)"
  using assms by (auto simp: read_uid_request_def update_uid_request_def Let_def intro!: closed_rules)

lemma closed_states [closed_rules]:
  assumes "closed s" "\<And>r s'. closed s' \<Longrightarrow> Q (r, s')"
  shows "post Q (initializing_state c d s)" "post Q (wiping_state c d s)" "post Q (uninitialized_state E c d n s)"
    "post Q (logged_out_state E c d n s)" "post Q (restoring_device_state E c d n s)"
  using assms
  by (auto simp: initializing_state_def wiping_state_def uninitialized_state_def logged_out_state_def
      restoring_device_state_def handled_def intro!: closed_rules)

section \<open>Dispatcher\<close>

lemma closed_read_block_complete [closed_rules]:
  "closed s \<Longrightarrow> (\<And>s'. closed s' \<Longrightarrow> Q s') \<Longrightarrow> post Q (read_block_complete E s)"
  by (auto simp: read_block_complete_def intro!: closed_rules)

lemma keeps_closed_read_complete: "keeps closed (read_block_complete E)"
  by (rule keepsI_post) (rule closed_read_block_complete)

lemma closed_backing_up [closed_rules]:
  assumes "closed s" "g_device_state s = DS_BACKING_UP_DEVICE" "\<And>r s'. closed s' \<Longrightarrow> Q (r, s')"
  shows "post Q (backing_up_device_state (read_block_complete E) c d n s)"
proof -
  have "backup_prev_state s \<noteq> DS_LOGGED_IN" using assms(1,2) by (simp add: closed_def)
  then show ?thesis
    using assms(1,3)
    by (auto simp: backing_up_device_state_def handled_def
        intro!: closed_rules closed_read_block_cmd [OF keeps_closed_read_complete])
qed

lemma closed_run_state_command [closed_rules]:
  "closed s \<Longrightarrow> (\<And>r s'. closed s' \<Longrightarrow> Q (r, s')) \<Longrightarrow> post Q (run_state_command E d n s)"
  by (cases "g_device_state s") (auto simp: run_state_command_def closed_def [of s] intro!: closed_rules)

lemma closed_startup [closed_rules]:
  assumes "closed s" "\<And>s'. closed s' \<Longrightarrow> Q s'"
  shows "post Q (startup_uninitialized rc s)" "post Q (startup_cmd_iter s)" "post Q (startup_cmd E s)"
  using assms
  by (auto simp: startup_uninitialized_def startup_cmd_iter_def startup_cmd_def cmd_init_def Let_def intro!: closed_rules)

lemma closed_request_device: "closed s \<Longrightarrow> closed (snd (request_device sys s))"
  using vclosed.view_request_device [of sys s "fst (request_device sys s)" "snd (request_device sys s)"] by simp

lemma closed_restart [closed_rules]:
  "closed s \<Longrightarrow> (\<And>r s'. closed s' \<Longrightarrow> Q (r, s')) \<Longrightarrow> post Q (restart_signet_command E s)"
  using closed_request_device [of s SIGNET_SUBSYSTEM]
  by (auto simp: restart_signet_command_def Let_def handled_def intro!: closed_rules split: prod.splits)

lemma closed_release:
  assumes "closed s" "\<And>s'. closed s' \<Longrightarrow> Q s'"
  shows "post Q (release_device (restart_signet_command E) sys s)"
  using assms by (auto simp: release_device_def intro!: closed_rules)

lemma closed_release_request:
  assumes "closed s" "\<And>b s'. closed s' \<Longrightarrow> Q (b, s')"
  shows "post Q (release_device_request (restart_signet_command E) sys s)"
  using assms by (auto simp: release_device_request_def intro!: closed_release)

lemma closed_packet_recv [closed_rules]:
  "closed s \<Longrightarrow> (\<And>s'. closed s' \<Longrightarrow> Q s') \<Longrightarrow> post Q (cmd_packet_recv E s)"
  by (auto simp: cmd_packet_recv_def Let_def intro!: closed_rules)

lemma closed_write_iters [closed_rules]:
  assumes "closed s" "\<And>s'. closed s' \<Longrightarrow> Q s'"
  shows "post Q (initializing_iter E s)" "post Q (wiping_iter E s)"
  using assms by (auto simp: initializing_iter_def wiping_iter_def Let_def intro!: closed_rules)

lemma closed_root_block_synced [closed_rules]:
  "closed s \<Longrightarrow> (\<And>s'. closed s' \<Longrightarrow> Q s') \<Longrightarrow> post Q (root_block_synced E s)"
  by (auto simp: root_block_synced_def Let_def intro!: closed_release)

lemma closed_write_block_complete [closed_rules]:
  "closed s \<Longrightarrow> (\<And>s'. closed s' \<Longrightarrow> Q s') \<Longrightarrow> post Q (write_block_complete E s)"
  by (auto simp: write_block_complete_def intro!: closed_rules split: device_state.split)

lemma closed_flash_write_complete [closed_rules]:
  "closed s \<Longrightarrow> (\<And>s'. closed s' \<Longrightarrow> Q s') \<Longrightarrow> post Q (flash_write_complete E s)"
  by (auto simp: flash_write_complete_def intro!: closed_rules)

lemma closed_wipe_start [closed_rules]:
  "closed s \<Longrightarrow> (\<And>s'. closed s' \<Longrightarrow> Q s') \<Longrightarrow> post Q (wipe_cmd_start E s)"
  by (auto simp: wipe_cmd_start_def Let_def intro!: closed_rules)

text \<open>A backup begun in an open session would leave it open; from a closed one it does not.\<close>

lemma closed_not_logged_in: "closed s \<Longrightarrow> g_device_state s \<noteq> DS_LOGGED_IN"
  by (simp add: closed_def)

lemma closed_long_press [closed_rules]:
  "closed s \<Longrightarrow> (\<And>s'. closed s' \<Longrightarrow> Q s') \<Longrightarrow> post Q (long_button_press E s)"
  by (auto simp: long_button_press_def Let_def intro!: closed_rules dest: closed_not_logged_in)

lemma closed_button_other [closed_rules]:
  assumes "closed s" "\<And>s'. closed s' \<Longrightarrow> Q s'"
  shows "post Q (button_release E s)" "post Q (button_press_unprompted s)" "post Q (timer_timeout s)" "post Q (cmd_packet_sent E s)"
  using assms
  by (auto simp: button_release_def resume_blinking_def button_press_unprompted_def timer_timeout_def cmd_packet_sent_def
      Let_def intro!: post_data closed_rules)

lemma closed_flash_program [closed_rules]:
  "closed s \<Longrightarrow> (\<And>s'. closed s' \<Longrightarrow> Q s') \<Longrightarrow> post Q (flash_program_word s)"
  by (auto simp: flash_program_word_def HAL_FLASH_Program_def intro!: post_data split: prod.split)

lemma closed_flash_idle [closed_rules]:
  assumes "closed s" "\<And>s'. closed s' \<Longrightarrow> Q s'"
  shows "post Q (flash_idle (flash_write_complete E) s)"
proof -
  have words: "post R (run_all (replicate n flash_program_word) t)" if "closed t" "\<And>s'. closed s' \<Longrightarrow> R s'" for n t R
    by (rule post_run_all [where P = closed]) (use that in \<open>auto intro!: keepsI_post closed_rules\<close>)
  show ?thesis
  proof (cases "flash_state s")
    case FLASH_ERASING
    then show ?thesis
      using assms by (auto simp: flash_idle_def HAL_FLASHEx_Erase_def intro!: closed_rules)
  next
    case FLASH_WRITING
    show ?thesis
      unfolding flash_idle_def FLASH_WRITING flash_state.case post_bind
      by (rule words [OF assms(1)]) (use assms(2) in \<open>auto intro!: closed_rules\<close>)
  qed (use assms in \<open>simp add: flash_idle_def\<close>)
qed

lemma closed_command_idle [closed_rules]:
  assumes "closed s" "\<And>s'. closed s' \<Longrightarrow> Q s'"
  shows "post Q (command_idle E s)"
  unfolding command_idle_def
proof (rule post_run_all [where P = closed])
  fix f assume "f \<in> set [idle_read_db E, idle_write_db E, idle_mmc_tx, idle_mmc_tx_dma, idle_mmc_rx]"
  then show "keeps closed f"
    by (auto intro!: keepsI_post closed_rules split: emmc_user.split
        simp: idle_read_db_def idle_write_db_def idle_mmc_tx_def idle_mmc_tx_dma_def idle_mmc_rx_def Let_def)
qed (use assms in auto)

section \<open>The machine\<close>

text \<open>What a LOGIN and a LOGIN_TOKEN are checked against.\<close>

definition login_accepts :: "env \<Rightarrow> fw \<Rightarrow> bool" where
  "login_accepts E s \<longleftrightarrow>
     attempt_login_256 E (lg_password (d_login s)) (rp_get RP_AUTH_RANDOM 16 s) (rp_get RP_AUTH_CT 16 s)
       (rp_get RP_KEYSTORE_CT 32 s) \<noteq> None"

definition token_accepts :: "env \<Rightarrow> fw \<Rightarrow> bool" where
  "token_accepts E s \<longleftrightarrow>
     attempt_login_256 E (lt_token (d_login s)) (rp_get RP_AUTH_RANDOM 16 s)
       (token_auth_rand_cyphertext s) (token_encrypt_key_cyphertext s) \<noteq> None"

lemma accepts_wait [simp]:
  "login_accepts E (end_button_press_wait s) = login_accepts E s"
  "token_accepts E (end_button_press_wait s) = token_accepts E s"
  by (simp_all add: login_accepts_def token_accepts_def rp_get_def end_button_press_wait_def stop_blinking_def led_off_def
      put_out_def END_WORK_def)

lemma wait_cmd [simp]: "active_cmd (end_button_press_wait s) = active_cmd s"
  by (simp add: end_button_press_wait_def stop_blinking_def led_off_def put_out_def END_WORK_def)

lemma press_login_gate:
  assumes "closed s"
  shows "post (\<lambda>s'. closed s' \<or> login_accepts E s) (button_press_login E s)"
    and "post (\<lambda>s'. closed s' \<or> token_accepts E s) (button_press_login_token E s)"
  using assms
  by (auto simp: button_press_login_def button_press_login_token_def login_accepts_def token_accepts_def Let_def
      intro!: closed_rules split: option.split)

lemma button_press_gate:
  assumes "closed s"
  shows "post (\<lambda>s'. closed s' \<or> waiting_for_button_press s
      \<and> (active_cmd s = LOGIN \<and> login_accepts E s \<or> active_cmd s = LOGIN_TOKEN \<and> token_accepts E s)) (button_press E s)"
proof -
  let ?s = "end_button_press_wait s"
  have s: "closed ?s" using assms by simp
  have "post (\<lambda>s'. closed s' \<or> login_accepts E s) (button_press_login E ?s)"
    "post (\<lambda>s'. closed s' \<or> token_accepts E s) (button_press_login_token E ?s)"
    using press_login_gate [OF s, of E] by simp_all
  then show ?thesis
    using assms by (auto simp: button_press_def Let_def intro!: closed_rules elim: post_mono)
qed

lemma main_press_gate:
  assumes "closed s"
  shows "post (\<lambda>s'. closed s' \<or> g_press_pending s \<and> s_device_system_owner s = SIGNET_SUBSYSTEM \<and> waiting_for_button_press s
      \<and> (active_cmd s = LOGIN \<and> login_accepts E s \<or> active_cmd s = LOGIN_TOKEN \<and> token_accepts E s)) (main_press E s)"
proof -
  let ?s = "END_WORK BUTTON_PRESS_WORK (s\<lparr>g_press_pending := False\<rparr>)"
  have "closed ?s" using assms by simp
  from button_press_gate [OF this, of E]
  have "post (\<lambda>s'. closed s' \<or> waiting_for_button_press s
      \<and> (active_cmd s = LOGIN \<and> login_accepts E s \<or> active_cmd s = LOGIN_TOKEN \<and> token_accepts E s)) (button_press E ?s)"
    by (simp add: login_accepts_def token_accepts_def rp_get_def END_WORK_def)
  moreover have "s_device_system_owner ?s = s_device_system_owner s" "g_button_state ?s = g_button_state s"
    by (simp_all add: END_WORK_def)
  ultimately show ?thesis
    using assms
    by (cases "s_device_system_owner s")
      (auto simp: main_press_def Let_def intro!: closed_rules elim: post_mono split: command_subsystem.split)
qed

text \<open>Random numbers end a LOGIN only if its password was accepted, and do not touch the flag that says so.\<close>

lemma progress_check_login:
  assumes "get_progress_check s = Some s'"
  shows "d_login s' = d_login s" "active_cmd s' = LOGIN \<Longrightarrow> active_cmd s = LOGIN"
proof -
  show "d_login s' = d_login s" using vdata.view_progress_check [OF assms] by simp
  show "active_cmd s = LOGIN" if "active_cmd s' = LOGIN"
  proof (cases "active_cmd s = GET_PROGRESS")
    case True
    then show ?thesis
      using assms that
      by (auto simp: get_progress_check_def Let_def finish_command_def finish_command_resp_def
          dest!: finish_multi_active(1) split: if_splits)
  qed (use assms that in \<open>simp add: get_progress_check_def\<close>)
qed

lemma finalize_login:
  "post (\<lambda>s'. d_login s' = d_login s \<and> active_cmd s' = active_cmd s) (finalize_root_page_check E s)"
proof -
  have signet: "post (\<lambda>t. d_login t = d_login s \<and> active_cmd t = active_cmd s) (init_signet_data E s)"
    by (auto simp: init_signet_data_def xor_rand_def Let_def rp_put_def upd_init_def split: prod.splits)
  have ctap: "d_login (init_ctap_data E t) = d_login t \<and> active_cmd (init_ctap_data E t) = active_cmd t" for t
    by (simp add: init_ctap_data_def Let_def upd_init_def split: prod.splits)
  show ?thesis
    by (simp add: finalize_root_page_check_def ctap upd_init_def sync_root_block_def BEGIN_WORK_def Let_def)
      (auto simp: ctap intro: post_mono [OF signet])
qed

lemma rand_initializing_login:
  assumes "closed s"
  shows "post (\<lambda>s'. closed s' \<and> d_login s' = d_login s \<and> (active_cmd s' = LOGIN \<longrightarrow> active_cmd s = LOGIN))
     (rand_update_initializing E s)"
proof -
  have 1: "post (\<lambda>t. closed t \<and> d_login t = d_login s \<and> active_cmd t = active_cmd s) (finalize_root_page_check E s)"
    by (intro post_conj finalize_login closed_finalize assms)
  have 2: "post (\<lambda>s'. closed s' \<and> d_login s' = d_login s \<and> (active_cmd s' = LOGIN \<longrightarrow> active_cmd s = LOGIN)) (get_progress_check t)"
    if "closed t" "d_login t = d_login s" "active_cmd t = active_cmd s" for t
  proof (rule postI)
    fix s' assume run: "get_progress_check t = Some s'"
    have "closed s'" using vclosed.view_progress_check [OF run] that(1) by simp
    with progress_check_login [OF run] that
    show "closed s' \<and> d_login s' = d_login s \<and> (active_cmd s' = LOGIN \<longrightarrow> active_cmd s = LOGIN)" by simp
  qed
  show ?thesis
    unfolding rand_update_initializing_def post_bind
    by (rule post_mono [OF 1]) (auto simp: Let_def upd_init_def intro!: 2)
qed

lemma rand_update_gate:
  assumes "closed s"
  shows "post (\<lambda>s'. closed s' \<or> active_cmd s = LOGIN \<and> lg_authenticated (d_login s)) (cmd_rand_update E s)"
proof -
  have rest: "post (\<lambda>s'. closed s' \<or> active_cmd s = LOGIN \<and> lg_authenticated (d_login s))
      (if active_cmd t = GET_RAND_BITS then get_rand_bits_cmd_check t
       else if active_cmd t = LOGIN then login_cmd_iter E t else Some t)"
    if "closed t" "d_login t = d_login s" "active_cmd t = LOGIN \<longrightarrow> active_cmd s = LOGIN" for t
    using that by (auto simp: login_cmd_iter_def intro!: closed_rules)
  show ?thesis
  proof (cases "g_device_state s = DS_INITIALIZING")
    case True
    show ?thesis
      unfolding cmd_rand_update_def post_bind if_P [OF True]
      by (rule post_mono [OF rand_initializing_login [OF assms]]) (use rest in blast)
  next
    case False
    show ?thesis unfolding cmd_rand_update_def post_bind if_not_P [OF False] post_Some using rest assms by blast
  qed
qed

lemma closed_main_other:
  assumes "closed s" "ph \<noteq> Ph_press"
  shows "post closed (main_phase E ph s)"
proof (cases ph)
  case Ph_ctap_init
  then show ?thesis
    using assms(1) closed_request_device [of s CTAP_STARTUP_SUBSYSTEM]
    by (auto simp: main_ctap_init_def Let_def intro!: closed_release_request split: prod.split)
next
  case Ph_press
  with assms(2) show ?thesis by simp
qed (use assms(1) in \<open>auto simp: main_work_led_def main_timer_def main_sync_root_def main_release_def main_long_press_def
       Let_def intro!: closed_rules\<close>)

lemma closed_rx: "closed s \<Longrightarrow> post closed (usb_raw_hid_rx (cmd_packet_recv E) d s)"
  by (auto simp: usb_raw_hid_rx_def Let_def intro!: post_data closed_rules)

lemma closed_data_in: "closed s \<Longrightarrow> post closed (USBD_HID_DataIn (hid_data_in E) i s)"
proof -
  assume s: "closed s"
  have sent: "keeps closed (cmd_packet_sent E)" by (rule keepsI_post) (auto intro!: closed_rules)
  have tx: "post closed (hid_data_in E i t)" if "closed t" for t
    using that by (cases i) (auto simp: hid_data_in_def intro!: closed_send_packet [OF sent] closed_rules)
  show ?thesis
    using s
    by (auto simp: USBD_HID_DataIn_def Let_def USBD_HID_SendReport_def intro!: tx split: option.split)
qed

lemma dev_step_gate:
  assumes "closed s"
  shows "post (\<lambda>s'. closed s'
      \<or> e = Ev_main Ph_press \<and> g_press_pending s \<and> s_device_system_owner s = SIGNET_SUBSYSTEM
        \<and> waiting_for_button_press s
        \<and> (active_cmd s = LOGIN \<and> login_accepts E s \<or> active_cmd s = LOGIN_TOKEN \<and> token_accepts E s)
      \<or> (\<exists>src w. e = Ev_rand src w \<and> active_cmd s = LOGIN \<and> lg_authenticated (d_login s))) (dev_step E e s)"
proof (cases e)
  case (Ev_main ph)
  show ?thesis
  proof (cases "ph = Ph_press")
    case True
    then show ?thesis
      using post_mono [OF main_press_gate [OF assms, of E]] by (simp add: Ev_main)
  next
    case False
    then show ?thesis
      using post_mono [OF closed_main_other [OF assms False, of E]] by (simp add: Ev_main)
  qed
next
  case (Ev_rx d)
  then show ?thesis using post_mono [OF closed_rx [OF assms, of E d]] by simp
next
  case (Ev_tx i)
  then show ?thesis using post_mono [OF closed_data_in [OF assms, of E i]] by simp
next
  case (Ev_rand src w)
  obtain b r where push: "rand_push src w (rnd s) = (b, r)" by fastforce
  have "closed (s\<lparr>rnd := r\<rparr>)" using assms by simp
  from rand_update_gate [OF this, of E] show ?thesis
    using assms by (auto simp: Ev_rand device_rand_push_def push Let_def elim!: post_mono)
next
  case Ev_ctap_release
  then show ?thesis using assms by (auto intro!: closed_release_request)
qed (use assms closed_request_device [OF assms, of CTAP_SUBSYSTEM] in
     \<open>auto simp: BUTTON_HANDLER_def mmc_rx_done_def mmc_tx_done_def HAL_MMC_RxCpltCallback_def HAL_MMC_TxCpltCallback_def
        MMC_DMATXTransmitComplete_def\<close>)

text \<open>
  C1. The only ways into a session: from a closed device, one step of the machine (any part of
  the main loop, any interrupt, any packet from the host) leads to an open one only if it is the
  handling of a button press that was awaited by the Signet code, with an accepted password of
  the active LOGIN or an accepted token of the active LOGIN_TOKEN, or the arrival of a random
  word while a LOGIN is active and the word \<open>cmd_data.login.authenticated\<close> is set. An accepted
  password sets that word, but the theorem does not say that it was set by one of the active
  LOGIN: it may be left over from an earlier one, and in the code it lies in the union
  \<open>cmd_data\<close> over the data of other commands. The statement is about every state, so it covers
  every value the word can have.
\<close>

theorem session_gate:
  assumes "dev_step E e s = Some s'" "closed s" "\<not> closed s'"
  shows "e = Ev_main Ph_press \<and> g_press_pending s \<and> s_device_system_owner s = SIGNET_SUBSYSTEM
        \<and> waiting_for_button_press s
        \<and> (active_cmd s = LOGIN \<and> login_accepts E s \<or> active_cmd s = LOGIN_TOKEN \<and> token_accepts E s)
      \<or> (\<exists>src w. e = Ev_rand src w \<and> active_cmd s = LOGIN \<and> lg_authenticated (d_login s))"
  using postD [OF dev_step_gate [OF assms(2)] assms(1)] assms(3) by blast

end
