(* ===== verification/Login.thy ===== *)
theory Login
  imports Session
begin

text \<open>
  Passwords, tokens and the way a session is opened: the right password gives back the keystore
  key and keeps doing so after a change of the password; and the hole that a stale flag leaves.
\<close>

section \<open>Answering twice\<close>

text \<open>When the endpoint is free, one response leaves room for another.\<close>

lemma finish_multi_again:
  assumes "can_respond s" "\<not> hid_busy s INTERFACE_CMD" "tx_report s INTERFACE_CMD = None"
    and "n \<le> CMD_PACKET_PAYLOAD_SIZE" "\<And>d. p = Some d \<Longrightarrow> n \<le> length d"
  shows "\<exists>s'. finish_command_multi r k p n s = Some s' \<and> can_respond s'"
proof -
  obtain b where b: "response_buf r k p n s = Some b" "length b = CMD_PACKET_BUF_SIZE"
    using response_buf_total [of s n p r k] assms by (auto simp: can_respond_def)
  let ?t = "responding k b s"
  have t: "can_respond ?t" "\<not> hid_busy ?t INTERFACE_CMD" "tx_report ?t INTERFACE_CMD = None"
    using assms(1-3) b(2) by (simp_all add: responding_def can_respond_def Let_def)
  let ?u = "(sending (n + 6) ?t)\<lparr>raw_hid_tx_cmd_packet := tx_packet (sending (n + 6) ?t)\<rparr>"
  have send: "cmd_packet_send (n + 6) ?t = do {
     s \<leftarrow> usb_send_bytes INTERFACE_CMD Tx_cmd_packet RAW_HID_PACKET_SIZE ?u;
     Some (s\<lparr>raw_hid_tx_seq := raw_hid_tx_seq s + 1\<rparr>)
   }"
    unfolding cmd_packet_send_def sending_def [symmetric]
    by (rule maybe_send_raw_hid_packet_eq) (use t assms(4) in \<open>simp_all add: sending_def can_respond_def\<close>)
  have len: "length (tx_packet (sending (n + 6) ?t)) = RAW_HID_PACKET_SIZE"
    using t(1) by (simp add: tx_packet_def sending_def can_respond_def)
  have u: "can_respond ?u" "\<not> hid_busy ?u INTERFACE_CMD" "tx_report ?u INTERFACE_CMD = None"
    using t len by (simp_all add: can_respond_def sending_def)
  have "\<exists>s1. usb_send_bytes INTERFACE_CMD Tx_cmd_packet RAW_HID_PACKET_SIZE ?u = Some s1 \<and> can_respond s1"
    using u by (auto simp: usb_send_bytes_def usb_tx_pending_def USBD_HID_SendReport_def can_respond_def put_out_def)
  then obtain s1 where s1: "usb_send_bytes INTERFACE_CMD Tx_cmd_packet RAW_HID_PACKET_SIZE ?u = Some s1" "can_respond s1"
    by blast
  let ?s2 = "s1\<lparr>raw_hid_tx_seq := raw_hid_tx_seq s1 + 1\<rparr>"
  obtain s3 where s3: "subsystem_idle_check ?s2 = Some s3" using subsystem_idle_check_total by blast
  have "can_respond ?s2" using s1(2) by (simp add: can_respond_def)
  then have "can_respond s3" using can_respond_idle_check [OF s3] by simp
  then show ?thesis using s3 by (simp add: finish_multi_eq b send s1)
qed

section \<open>The gate, at work\<close>

text \<open>A root page of zeros but for its format: the password of zeros is the right one.\<close>

definition example_login_state :: fw where
  "example_login_state = fw_reset\<lparr>g_device_state := DS_LOGGED_OUT, active_cmd := LOGIN, s_device_system_owner := SIGNET_SUBSYSTEM,
     waiting_for_button_press := True, g_press_pending := True, root_page := splice (zeros 12292) 4 [3, 0]\<rparr>"

lemma example_root_page: "4 < i \<Longrightarrow> i + n \<le> 12292 \<Longrightarrow> slice (splice (zeros 12292) 4 [3, 0]) i n = zeros n"
  by (rule nth_equalityI) (simp_all add: nth_slice nth_splice)

lemma xor_zero_block: "signet_aes_256_encrypt_cbc nettle_xor (zeros 32) 1 None (zeros 16) = zeros 16"
  by (simp add: signet_aes_256_encrypt_def nettle_xor_def xor_cipher_def xor_block_def zeros_def)

lemma example_login_accepts: "login_accepts env_example example_login_state"
proof -
  have "lg_password (d_login example_login_state) = zeros 32"
    "rp_get RP_AUTH_RANDOM 16 example_login_state = zeros 16" "rp_get RP_AUTH_CT 16 example_login_state = zeros 16"
    by (simp_all add: example_login_state_def rp_get_def example_root_page fw_reset_def)
  moreover have "take 16 (zeros 16) = zeros 16" by simp
  ultimately show ?thesis
    unfolding login_accepts_def attempt_login_256_def env_example_simps
    by (simp only: xor_zero_block simp_thms if_False option.distinct)
qed

lemma example_login_press:
  "\<exists>s'. dev_step env_example (Ev_main Ph_press) example_login_state = Some s' \<and> g_device_state s' = DS_LOGGED_IN"
proof -
  let ?s = "end_button_press_wait (END_WORK BUTTON_PRESS_WORK (example_login_state\<lparr>g_press_pending := False\<rparr>))"
  have pending: "g_press_pending example_login_state" "\<not> g_button_state example_login_state"
    "s_device_system_owner example_login_state = SIGNET_SUBSYSTEM" "waiting_for_button_press example_login_state"
    "active_cmd example_login_state = LOGIN"
    by (simp_all add: example_login_state_def fw_reset_def)
  have fmt: "rp_format ?s = ROOT_BLOCK_FORMAT_CURRENT" "lg_gen_token (d_login ?s) = 0"
    by (simp_all add: rp_format_def rd16_def nth_splice example_login_state_def fw_reset_def end_button_press_wait_def
        stop_blinking_def led_off_def put_out_def END_WORK_def)
  have "login_accepts env_example (END_WORK BUTTON_PRESS_WORK (example_login_state\<lparr>g_press_pending := False\<rparr>))"
    using example_login_accepts by (simp add: login_accepts_def rp_get_def END_WORK_def)
  then have "login_accepts env_example ?s" by simp
  then obtain k where k: "attempt_login_256 env_example (lg_password (d_login ?s)) (rp_get RP_AUTH_RANDOM 16 ?s)
      (rp_get RP_AUTH_CT 16 ?s) (rp_get RP_KEYSTORE_CT 32 ?s) = Some k"
    by (auto simp: login_accepts_def)
  have resp: "can_respond (?s\<lparr>g_encrypt_key := k\<rparr>)" "cmd_messages_remaining (?s\<lparr>g_encrypt_key := k\<rparr>) = 0"
    by (simp_all add: can_respond_def example_login_state_def fw_reset_def end_button_press_wait_def
        stop_blinking_def led_off_def put_out_def END_WORK_def)
  then obtain t where t: "finish_command_resp OKAY (?s\<lparr>g_encrypt_key := k\<rparr>) = Some t" using finish_resp_total by blast
  with resp(2) have "active_cmd t \<noteq> GET_PROGRESS" using finish_resp_active(1) [OF t] by simp
  then obtain u where u: "enter_state DS_LOGGED_IN t = Some u" "g_device_state u = DS_LOGGED_IN"
    using enter_state_active [of t DS_LOGGED_IN] by auto
  have "button_press_login env_example ?s = Some u"
    using k t u(1) by (simp add: button_press_login_def fmt)
  then show ?thesis
    using pending u(2)
    by (simp add: main_press_def button_press_def Let_def END_WORK_def BEGIN_WORK_def)
qed

theorem session_gate_witness:
  "\<exists>s'. dev_step env_example (Ev_main Ph_press) example_login_state = Some s' \<and> \<not> closed s'
     \<and> waiting_for_button_press example_login_state \<and> login_accepts env_example example_login_state"
proof -
  obtain s' where s': "dev_step env_example (Ev_main Ph_press) example_login_state = Some s'" "\<not> closed s'"
    using example_login_press by (auto simp: closed_def)
  have "closed example_login_state" by (simp add: closed_def example_login_state_def)
  from session_gate [OF s'(1) this s'(2)] s' show ?thesis
    by (auto simp: example_login_state_def)
qed

section \<open>The right password\<close>

text \<open>The credentials in a root page: the password \<open>pw\<close> opens it and gives the key \<open>k\<close>.\<close>

definition page_login :: "env \<Rightarrow> bytes \<Rightarrow> bytes \<Rightarrow> bytes option" where
  "page_login E pw page =
     attempt_login_256 E pw (slice page RP_AUTH_RANDOM 16) (slice page RP_AUTH_CT 16) (slice page RP_KEYSTORE_CT 32)"

lemma page_login_written:
  assumes "nettle_ok (env_nettle E)" "length pw = 32" "length k = 32" "964 + 16 \<le> length page"
    and "slice page RP_AUTH_CT 16 = signet_aes_256_encrypt_cbc (env_nettle E) pw 1 None (slice page RP_AUTH_RANDOM 16)"
    and "slice page RP_KEYSTORE_CT 32 = signet_aes_256_encrypt_cbc (env_nettle E) pw 2 None k"
  shows "page_login E pw page = Some k"
proof -
  have "signet_aes_256_decrypt_cbc (env_nettle E) pw 2 None (signet_aes_256_encrypt_cbc (env_nettle E) pw 2 None k @ []) = k"
    using cbc_256_inverse [where N = "env_nettle E" and key = pw and iv = None and din = k and n = 2 and rest = "[]"] assms(1-3) by simp
  moreover have "take 16 (slice page RP_AUTH_CT 16) = slice page RP_AUTH_CT 16" using assms(4) by simp
  ultimately show ?thesis
    unfolding page_login_def attempt_login_256_def assms(5,6) by simp
qed

lemma slice_rp_put:
  "off + length d \<le> length (root_page s) \<Longrightarrow> n = length d \<Longrightarrow> slice (root_page (rp_put off d s)) off n = d"
  by (simp add: rp_put_def)

lemma slice_rp_put_other:
  "off + length d \<le> length (root_page s) \<Longrightarrow> o2 + n \<le> off \<or> off + length d \<le> o2 \<Longrightarrow> o2 + n \<le> length (root_page s) \<Longrightarrow>
   slice (root_page (rp_put off d s)) o2 n = slice (root_page s) o2 n"
  by (auto simp: rp_put_def slice_splice_before slice_splice_after)

lemma rp_put_simps [simp]:
  "off + length d \<le> length (root_page s) \<Longrightarrow> length (root_page (rp_put off d s)) = length (root_page s)"
  "d_change (rp_put off d s) = d_change s" "d_init (rp_put off d s) = d_init s" "rnd (rp_put off d s) = rnd s"
  by (simp_all add: rp_put_def)

text \<open>
  C28. Changing the master password keeps the records readable: if the old password of the
  command gives the keystore key \<open>k\<close>, then after the command and its long button press the new
  password gives \<open>k\<close>, and the root block is marked for writing.
\<close>

theorem change_password_keeps_key:
  assumes "nettle_ok (env_nettle E)" "length (root_page s) = ROOT_PAGE_SIZE" "rp_format s = ROOT_BLOCK_FORMAT_CURRENT"
    and "112 \<le> length data" "page_login E (slice data 0 32) (root_page s) = Some k" "length k = 32"
    and "change_master_password_cmd E data 112 s = Some s1" "change_master_password_complete E s1 = Some s2"
  shows "page_login E (slice data 32 32) (root_page s2) = Some k \<and> sync_root_block_pending s2"
proof -
  let ?pw = "slice data 32 32" and ?N = "env_nettle E"
  have "attempt_login_256 E (slice data 0 32) (rp_get RP_AUTH_RANDOM 16 s) (rp_get RP_AUTH_CT 16 s)
      (rp_get RP_KEYSTORE_CT 32 s) = Some k"
    using assms(5) by (simp add: page_login_def rp_get_def)
  then have s1: "root_page s1 = root_page s" "ch_new_key (d_change s1) = ?pw" "ch_keystore_key (d_change s1) = k"
      "length (ch_salt (d_change s1)) = 32" "length (ch_hashfn (d_change s1)) = 16"
    using assms(3,4,7)
    by (auto simp: change_master_password_cmd_def Let_def rp_get_def rp_format_def begin_long_button_press_wait_def
        start_blinking_def led_on_def put_out_def BEGIN_WORK_def)
  have pw: "length ?pw = 32" using assms(4) by simp
  define t where "t = rp_put RP_AUTH_CT (signet_aes_256_encrypt_cbc ?N ?pw 1 None (rp_get RP_AUTH_RANDOM 16 s1)) s1"
  define u where "u = rp_put RP_KEYSTORE_CT (signet_aes_256_encrypt_cbc ?N ?pw 2 None k) t"
  define v where "v = rp_put RP_SALT (ch_salt (d_change s1)) u"
  define w where "w = rp_put RP_HASHFN (ch_hashfn (d_change s1)) v"
  have ct: "length (signet_aes_256_encrypt_cbc ?N ?pw 1 None (rp_get RP_AUTH_RANDOM 16 s1)) = 16"
      "length (signet_aes_256_encrypt_cbc ?N ?pw 2 None k) = 32"
    using length_cbc_256 [where N = ?N and key = ?pw and iv = None and din = "rp_get RP_AUTH_RANDOM 16 s1" and n = 1]
      length_cbc_256 [where N = ?N and key = ?pw and iv = None and din = k and n = 2]
      assms(1,2,6) pw s1(1) by (simp_all add: rp_get_def del: One_nat_def)
  have len: "length (root_page s1) = 12292" "length (root_page t) = 12292" "length (root_page u) = 12292"
      "length (root_page v) = 12292"
    using ct s1 assms(2) by (simp_all add: t_def u_def v_def del: One_nat_def)
  have "slice (root_page w) RP_AUTH_RANDOM 16 = slice (root_page s1) RP_AUTH_RANDOM 16"
    using len ct s1(4,5) by (simp add: w_def v_def u_def t_def slice_rp_put_other del: One_nat_def)
  moreover have "slice (root_page w) RP_AUTH_CT 16 = signet_aes_256_encrypt_cbc ?N ?pw 1 None (rp_get RP_AUTH_RANDOM 16 s1)"
    using len ct s1(4,5) by (simp add: w_def v_def u_def t_def slice_rp_put_other slice_rp_put del: One_nat_def)
  moreover have "slice (root_page w) RP_KEYSTORE_CT 32 = signet_aes_256_encrypt_cbc ?N ?pw 2 None k"
    using len ct s1(4,5) by (simp add: w_def v_def u_def slice_rp_put_other slice_rp_put)
  moreover have "length (root_page w) = 12292" using len(4) s1(5) by (simp add: w_def)
  ultimately have login: "page_login E ?pw (root_page w) = Some k"
    by (intro page_login_written) (use assms(1,6) pw in \<open>simp_all add: rp_get_def\<close>)
  have "rp_format s1 = ROOT_BLOCK_FORMAT_CURRENT" using assms(3) s1(1) by (simp add: rp_format_def)
  then have "s2 = sync_root_block w"
    using assms(8) s1(2,3)
    by (simp add: change_master_password_complete_def Let_def w_def v_def u_def t_def rp_get_def)
  with login show ?thesis
    by (simp add: sync_root_block_def BEGIN_WORK_def sync_root_block_pending_def)
qed

lemma xor_zero_key: "signet_aes_256_decrypt_cbc nettle_xor (zeros 32) 2 None (zeros 32) = zeros 32"
proof -
  have "signet_aes_256_encrypt_cbc nettle_xor (zeros 32) 2 None (zeros 32) = zeros 32"
    by (simp add: numeral_2_eq_2 signet_aes_256_encrypt_def nettle_xor_def xor_cipher_def xor_block_def zeros_def Let_def)
      (simp add: numeral_eq_Suc)
  then show ?thesis
    using cbc_256_inverse [where N = nettle_xor and key = "zeros 32" and iv = None and din = "zeros 32" and n = 2 and rest = "[]"]
      nettle_ok_xor by simp
qed

theorem change_password_keeps_key_witness:
  "\<exists>s1 s2. change_master_password_cmd env_example (zeros 32 @ replicate 32 7 @ zeros 48) 112 example_login_state = Some s1
     \<and> change_master_password_complete env_example s1 = Some s2
     \<and> page_login env_example (replicate 32 7) (root_page s2) = Some (zeros 32)"
proof -
  let ?d = "zeros 32 @ replicate 32 7 @ zeros 48" and ?s = example_login_state
  have page: "root_page ?s = splice (zeros 12292) 4 [3, 0]" by (simp add: example_login_state_def)
  have fmt: "rp_format ?s = ROOT_BLOCK_FORMAT_CURRENT" by (simp add: rp_format_def page rd16_def nth_splice)
  have d: "slice ?d 0 32 = zeros 32" "slice ?d 32 32 = replicate 32 7" by (simp_all add: slice_def)
  have "take 16 (zeros 16) = zeros 16" by simp
  then have old: "page_login env_example (slice ?d 0 32) (root_page ?s) = Some (zeros 32)"
    unfolding page_login_def attempt_login_256_def env_example_simps d page
    by (simp add: example_root_page xor_zero_key xor_zero_block del: One_nat_def signet_aes_256_encrypt_cbc.simps)
  then have "\<exists>s1. change_master_password_cmd env_example ?d 112 ?s = Some s1 \<and> rp_format s1 = ROOT_BLOCK_FORMAT_CURRENT"
    using fmt
    by (simp add: change_master_password_cmd_def page_login_def rp_get_def rp_format_def Let_def begin_long_button_press_wait_def
        start_blinking_def led_on_def put_out_def BEGIN_WORK_def)
  then obtain s1 where s1: "change_master_password_cmd env_example ?d 112 ?s = Some s1"
      "rp_format s1 = ROOT_BLOCK_FORMAT_CURRENT" by blast
  then obtain s2 where s2: "change_master_password_complete env_example s1 = Some s2"
    by (simp add: change_master_password_complete_def Let_def)
  have "page_login env_example (slice ?d 32 32) (root_page s2) = Some (zeros 32)"
    using change_password_keeps_key [of env_example ?s ?d "zeros 32" s1 s2] old fmt s1(1) s2 nettle_ok_xor
    by (simp add: page)
  with s1 s2 show ?thesis by (simp add: d)
qed

section \<open>Tokens\<close>

lemma xor_block_take: "16 \<le> n \<Longrightarrow> xor_block (take n d) iv = xor_block d iv"
  by (simp add: xor_block_def split: option.split)

text \<open>The first block of a cipher text depends on the first block only.\<close>

lemma cbc_256_first:
  assumes "nettle_ok N" "length key = 32" "length d = 32"
  shows "take 16 (signet_aes_256_encrypt_cbc N key 2 None d) = signet_aes_256_encrypt_cbc N key 1 None (take 16 d)"
  using assms signet_aes_256_inverse(1) [of N key "xor_block d None"]
  by (simp add: numeral_2_eq_2 Let_def xor_block_take)

text \<open>
  C29. A token stands for the key of the session it was made in: when a LOGIN that asks for a
  token completes, a later LOGIN_TOKEN with that token is accepted and gives back the keystore
  key, as long as the authentication data of the root page has not changed.
\<close>

theorem token_gives_key:
  assumes "nettle_ok (env_nettle E)" "length (root_page s) = ROOT_PAGE_SIZE" "length (g_encrypt_key s) = 32"
    and "login_cmd_iter E s = Some s1" "lg_authenticated (d_login s)" "8 \<le> rand_avail (rnd s)"
    and "rp_get RP_AUTH_RANDOM 16 t = rp_get RP_AUTH_RANDOM 16 s"
    and "token_auth_rand_cyphertext t = token_auth_rand_cyphertext s1"
    and "token_encrypt_key_cyphertext t = token_encrypt_key_cyphertext s1"
  shows "attempt_login_256 E (lg_token (d_login s1)) (rp_get RP_AUTH_RANDOM 16 t)
      (token_auth_rand_cyphertext t) (token_encrypt_key_cyphertext t) = Some (g_encrypt_key s)"
proof -
  let ?N = "env_nettle E"
  obtain ws r where take: "rand_take 8 (rnd s) = (ws, r)" by fastforce
  define tok where "tok = words_bytes ws"
  let ?u = "(upd_login (\<lambda>l. l\<lparr>lg_token := tok\<rparr>) (s\<lparr>rnd := r\<rparr>))
     \<lparr>token_auth_rand_cyphertext := signet_aes_256_encrypt_cbc ?N tok 2 None (rp_get RP_AUTH_RANDOM 32 s),
      token_encrypt_key_cyphertext := signet_aes_256_encrypt_cbc ?N tok 2 None (g_encrypt_key s)\<rparr>"
  have "length ws = 8" using take length_rand_take [of 8 "rnd s"] by simp
  then have tok: "length tok = 32"
    by (auto simp: tok_def words_bytes_def length_concat o_def sum_list_triv)
  obtain p v where fin: "finish_command OKAY p 32 ?u = Some v" "enter_state DS_LOGGED_IN v = Some s1"
    using assms(4-6) by (auto simp: login_cmd_iter_def take tok_def Let_def rp_get_def upd_login_def bind_eq_Some_conv)
  have s1: "d_login s1 = d_login ?u" "token_auth_rand_cyphertext s1 = token_auth_rand_cyphertext ?u"
      "token_encrypt_key_cyphertext s1 = token_encrypt_key_cyphertext ?u"
    using vdata.view_finish [OF fin(1)] vdata.view_enter_state [OF fin(2)]
      vkeys.view_finish [OF fin(1)] vkeys.view_enter_state [OF fin(2)] by simp_all
  have "signet_aes_256_decrypt_cbc ?N tok 2 None (signet_aes_256_encrypt_cbc ?N tok 2 None (g_encrypt_key s) @ []) = g_encrypt_key s"
    using cbc_256_inverse [where N = ?N and key = tok and iv = None and din = "g_encrypt_key s" and n = 2 and rest = "[]"]
      assms(1,3) tok by simp
  moreover have "take 16 (signet_aes_256_encrypt_cbc ?N tok 2 None (rp_get RP_AUTH_RANDOM 32 s))
      = signet_aes_256_encrypt_cbc ?N tok 1 None (rp_get RP_AUTH_RANDOM 16 s)"
    using cbc_256_first [of ?N tok "rp_get RP_AUTH_RANDOM 32 s"] assms(1,2) tok
    by (simp add: rp_get_def slice_def min_def del: One_nat_def)
  ultimately show ?thesis
    unfolding attempt_login_256_def assms(7-9) s1
    by (simp add: upd_login_def del: One_nat_def)
qed

text \<open>The completion of a LOGIN once the random words are there.\<close>

lemma login_iter_completes:
  assumes "can_respond s" "lg_authenticated (d_login s)" "8 \<le> rand_avail (rnd s)" "active_cmd s = LOGIN"
    and "lg_gen_token (d_login s) + 32 \<le> length (env_low_mem E)"
  shows "\<exists>s'. login_cmd_iter E s = Some s' \<and> g_device_state s' = DS_LOGGED_IN"
proof -
  obtain ws r where take: "rand_take 8 (rnd s) = (ws, r)" by fastforce
  let ?g = "lg_gen_token (d_login s)"
  let ?p = "if ?g = 0 then None else Some (drop ?g (env_low_mem E))"
  let ?u = "(upd_login (\<lambda>l. l\<lparr>lg_token := words_bytes ws\<rparr>) (s\<lparr>rnd := r\<rparr>))
     \<lparr>token_auth_rand_cyphertext := signet_aes_256_encrypt_cbc (env_nettle E) (words_bytes ws) 2 None (rp_get RP_AUTH_RANDOM 32 s),
      token_encrypt_key_cyphertext := signet_aes_256_encrypt_cbc (env_nettle E) (words_bytes ws) 2 None (g_encrypt_key s)\<rparr>"
  have "can_respond ?u" using assms(1) by (simp add: can_respond_def upd_login_def)
  moreover have pay: "32 \<le> length d" if "?p = Some d" for d using that assms(5) by (auto split: if_splits)
  ultimately obtain v where v: "finish_command OKAY ?p 32 ?u = Some v"
    using finish_multi_total [of ?u 32 ?p OKAY 0] pay by (auto simp: finish_command_def)
  have "active_cmd v \<noteq> GET_PROGRESS"
    using finish_multi_active(1) [of OKAY 0 ?p 32 ?u v] v assms(4)
    by (simp add: finish_command_def upd_login_def split: if_splits)
  then obtain w where "enter_state DS_LOGGED_IN v = Some w" "g_device_state w = DS_LOGGED_IN"
    using enter_state_active [of v DS_LOGGED_IN] by auto
  moreover have "login_cmd_iter E s = (finish_command OKAY ?p 32 ?u \<bind> enter_state DS_LOGGED_IN)"
    using assms(2,3) by (simp add: login_cmd_iter_def take Let_def rp_get_def upd_login_def)
  ultimately show ?thesis using v by auto
qed

lemma login_iter_key: "login_cmd_iter E s = Some s' \<Longrightarrow> g_encrypt_key s' = g_encrypt_key s"
  by (auto simp: login_cmd_iter_def Let_def upd_login_def bind_eq_Some_conv split: if_splits prod.splits
      dest!: vkeys.view_finish vkeys.view_enter_state)

definition example_token_state :: fw where
  "example_token_state = fw_reset\<lparr>g_device_state := DS_LOGGED_OUT, active_cmd := LOGIN, g_encrypt_key := replicate 32 9,
     d_login := (d_login fw_reset)\<lparr>lg_authenticated := True\<rparr>,
     rnd := (rnd fw_reset)\<lparr>rng_rand_state := rand_src_0\<lparr>rhead := 8, rlevel := 8\<rparr>, rtc_rand_state := rand_src_0\<lparr>rhead := 8, rlevel := 8\<rparr>\<rparr>\<rparr>"

lemma example_token_simps:
  "can_respond example_token_state" "lg_authenticated (d_login example_token_state)" "8 \<le> rand_avail (rnd example_token_state)"
  "active_cmd example_token_state = LOGIN" "lg_gen_token (d_login example_token_state) = 0"
  "length (root_page example_token_state) = ROOT_PAGE_SIZE" "g_encrypt_key example_token_state = replicate 32 9"
  by (simp_all add: example_token_state_def can_respond_def fw_reset_def rand_avail_def)

theorem token_gives_key_witness:
  "\<exists>s1. login_cmd_iter env_example example_token_state = Some s1
     \<and> attempt_login_256 env_example (lg_token (d_login s1)) (rp_get RP_AUTH_RANDOM 16 example_token_state)
         (token_auth_rand_cyphertext s1) (token_encrypt_key_cyphertext s1) = Some (replicate 32 9)"
proof -
  obtain s1 where s1: "login_cmd_iter env_example example_token_state = Some s1"
    using login_iter_completes [of example_token_state env_example] by (auto simp: example_token_simps)
  have "nettle_ok (env_nettle env_example)" using nettle_ok_xor by simp
  from token_gives_key [OF this example_token_simps(6) _ s1 example_token_simps(2,3),
      of "s1\<lparr>root_page := root_page example_token_state\<rparr>"] s1 show ?thesis
    by (simp add: example_token_simps rp_get_def)
qed

section \<open>The stale flag\<close>

text \<open>
  C30. A session can be opened without a password and without the button. The flag of an accepted
  password is cleared only by the next LOGIN that a logged out device takes. If the flag is still
  set from a LOGIN with a token, the host disconnects, and then sends a LOGIN that announces
  further messages, the device answers INVALID_STATE but keeps LOGIN as the active command; the
  next random word then completes it and the device is logged in with the old key.
\<close>

theorem stale_login_opens_session:
  assumes "g_device_state s = DS_DISCONNECTED" "lg_authenticated (d_login s)"
    and "cmd_packet_buf s ! 2 = 6" "rd16 (cmd_packet_buf s) 0 = 6" "rd16 (cmd_packet_buf s) 3 = 1"
    and "active_cmd s = -1" "s_device_system_owner s = NO_SUBSYSTEM"
    and "can_respond s" "\<not> hid_busy s INTERFACE_CMD" "tx_report s INTERFACE_CMD = None"
    and "lg_gen_token (d_login s) + 32 \<le> length (env_low_mem E)"
    and "rand_push src w (rnd s) = (True, r)" "8 \<le> rand_avail r"
  shows "\<exists>s1 s2. cmd_packet_recv E s = Some s1 \<and> device_rand_push E src w s1 = Some s2
     \<and> g_device_state s2 = DS_LOGGED_IN \<and> g_encrypt_key s2 = g_encrypt_key s"
proof -
  let ?s = "s\<lparr>cmd_iter_count := 0, active_cmd := LOGIN, s_device_system_owner := SIGNET_SUBSYSTEM, cmd_messages_remaining := 1\<rparr>"
  have "can_respond ?s" "\<not> hid_busy ?s INTERFACE_CMD" "tx_report ?s INTERFACE_CMD = None"
    using assms(8-10) by (simp_all add: can_respond_def)
  then obtain t where t: "finish_command_resp INVALID_STATE ?s = Some t" "can_respond t"
    using finish_multi_again [of ?s 0 None INVALID_STATE 0] by (auto simp: finish_command_resp_def finish_command_def)
  have multi: "finish_command_multi INVALID_STATE 0 None 0 ?s = Some t"
    using t(1) by (simp add: finish_command_resp_def finish_command_def)
  have active: "active_cmd t = LOGIN" using finish_resp_active(1) [OF t(1)] by simp
  have owner: "s_device_system_owner t = SIGNET_SUBSYSTEM" using finish_multi_keeps_owner [OF multi] active by simp
  have kept: "d_login t = d_login s" "rnd t = rnd s" "g_device_state t = DS_DISCONNECTED" "g_encrypt_key t = g_encrypt_key s"
    using vdata.view_finish_resp [OF t(1)] vkeys.view_finish_resp [OF t(1)] finish_resp_active(3) [OF t(1)] assms(1)
    by simp_all
  let ?u = "USBD_HID_rx_resume INTERFACE_CMD (t\<lparr>cmd_iter_count := cmd_iter_count t + 1\<rparr>)"
  have "restart_signet_command E (s\<lparr>cmd_iter_count := 0, active_cmd := LOGIN\<rparr>) = Some (0, t\<lparr>cmd_iter_count := cmd_iter_count t + 1\<rparr>)"
    using t(1) assms(1,4,5,7)
    by (simp add: restart_signet_command_def request_device_def packet_data_len_def packet_messages_remaining_def
        run_state_command_def Let_def)
  then have recv: "cmd_packet_recv E s = Some ?u"
    using assms(3,6) by (simp add: cmd_packet_recv_def Let_def)
  let ?v = "?u\<lparr>rnd := r\<rparr>"
  have v: "can_respond ?v" "lg_authenticated (d_login ?v)" "8 \<le> rand_avail (rnd ?v)" "active_cmd ?v = LOGIN"
      "lg_gen_token (d_login ?v) + 32 \<le> length (env_low_mem E)" "g_device_state ?v \<noteq> DS_INITIALIZING"
      "g_encrypt_key ?v = g_encrypt_key s"
    using t(2) kept active assms(2,11,13) by (simp_all add: USBD_HID_rx_resume_def put_out_def can_respond_def)
  obtain s2 where s2: "login_cmd_iter E ?v = Some s2" "g_device_state s2 = DS_LOGGED_IN"
    using login_iter_completes [OF v(1-5)] by blast
  have "device_rand_push E src w ?u = Some s2"
    using s2(1) v(4,6) owner kept(2) assms(12)
    by (simp add: device_rand_push_def USBD_HID_rx_resume_def put_out_def cmd_rand_update_def)
  moreover have "g_encrypt_key s2 = g_encrypt_key s"
    using login_iter_key [OF s2(1)] v(7) by simp
  ultimately show ?thesis using recv s2(2) by blast
qed

definition example_stale_state :: fw where
  "example_stale_state = example_token_state\<lparr>g_device_state := DS_DISCONNECTED, active_cmd := -1,
     cmd_packet_buf := [6, 0, 6, 1, 0] @ zeros 16902\<rparr>"

theorem stale_login_opens_session_witness:
  "\<exists>s1 s2. cmd_packet_recv env_example example_stale_state = Some s1
     \<and> device_rand_push env_example RAND_SRC_RTC 5 s1 = Some s2
     \<and> g_device_state s2 = DS_LOGGED_IN \<and> g_encrypt_key s2 = replicate 32 9"
proof -
  have push: "rand_push RAND_SRC_RTC 5 (rnd example_stale_state)
      = (True, (rnd example_stale_state)\<lparr>rtc_rand_state := snd (rand_src_push 5 (rtc_rand_state (rnd example_stale_state)))\<rparr>)"
    by (simp add: rand_push_def rand_src_push_def example_stale_state_def example_token_state_def fw_reset_def rand_src_0_def Let_def)
  show ?thesis
    using stale_login_opens_session [OF _ _ _ _ _ _ _ _ _ _ _ push, of env_example]
    by (simp add: example_stale_state_def example_token_state_def fw_reset_def rand_avail_def rand_src_push_def rand_src_0_def
        can_respond_def rd16_def Let_def)
qed

end
