(* ===== verification/Db_Refine.thy ===== *)
theory Db_Refine
  imports Db_Blocks
begin

text \<open>
  The database of \<open>db.c\<close> against its contract, a map from the uids to records. \<open>db_view\<close> is
  the map a state stands for: what reading the block of a uid, looking for its entry and
  decrypting its partition gives. \<open>db_ok\<close> is the invariant that ties the tables in memory to
  the blocks on the eMMC. Adding, replacing and deleting a record change the map at that uid
  alone and keep the invariant, and the scan at startup rebuilds the tables from the blocks.
\<close>

section \<open>Storing a record in a block\<close>

lemma allocate_uid_blk_stores:
  fixes s :: fw and sz :: nat
  defines "u \<equiv> d_update s"
  defines "j \<equiv> bi_part_occupancy (up_blk_info u)" and "n \<equiv> SIZE_TO_SUB_BLK_COUNT sz"
  assumes "length (up_block u) = BLK_SIZE" "j \<le> 254" "n * 16 \<le> length (up_entry u)"
    and info: "ent_off j + 6 \<le> get_part (up_blk_info u) j" "get_part (up_blk_info u) j + n * 16 \<le> BLK_SIZE"
    and crypt: "nettle_ok (env_nettle E)" "length (g_encrypt_key s) = 32" "length (up_iv u) = 16"
  obtains b where
    "allocate_uid_blk E uid sz rv s = Some (upd_update (\<lambda>u. u\<lparr>up_blk_info := (up_blk_info u)
        \<lparr>bi_part_occupancy := j + 1, bi_occupied := True, bi_valid := True\<rparr>, up_block := b\<rparr>) s)"
    "length b = BLK_SIZE" "blk_part_size b = blk_part_size (up_block u)"
    "blk_occupancy b = (blk_occupancy (up_block u) + 1) mod 65536"
    "ent b j = (uid mod 4096, rv mod 4, True, sz mod 65536)"
    "\<And>k. k < j \<Longrightarrow> ent b k = ent (up_block u) k"
    "slice b (get_part (up_blk_info u) j) (n * 16)
       = signet_aes_256_encrypt_cbc (env_nettle E) (g_encrypt_key s) n (Some (up_iv u)) (take (n * 16) (up_entry u))"
proof -
  define b0 where "b0 = blk_set_header (blk_part_size (up_block u)) (blk_occupancy (up_block u) + 1) (up_block u)"
  define c where "c = signet_aes_256_encrypt_cbc (env_nettle E) (g_encrypt_key s) n (Some (up_iv u)) (take (n * 16) (up_entry u))"
  define off where "off = get_part (up_blk_info u) j"
  have b0: "length b0 = BLK_SIZE" using assms(4) by (simp add: b0_def)
  have j255: "j \<le> 255" using assms(5) by simp
  obtain b1 where b1: "ent_write j uid sz rv b0 = Some b1" "length b1 = BLK_SIZE"
    "ent b1 j = (uid mod 4096, rv mod 4, True, sz mod 65536)"
    "\<And>k. k \<noteq> j \<Longrightarrow> k \<le> 255 \<Longrightarrow> ent b1 k = ent b0 k"
    "blk_part_size b1 = blk_part_size b0" "blk_occupancy b1 = blk_occupancy b0"
    by (rule ent_write_Some [OF b0 j255, of uid sz rv]) (rule that)
  have c: "length c = n * 16"
    unfolding c_def using length_cbc_256 [of "env_nettle E" "g_encrypt_key s" "Some (up_iv u)" n] crypt assms(6) by simp
  define b where "b = splice b1 off c"
  have j6: "ent_off k + 6 \<le> off" if "k \<le> j" for k
    using info(1) that by (simp add: off_def ent_off_def)
  have fits: "off + length c \<le> length b1" using info(2) b1(2) by (simp add: c off_def)
  have off8: "8 \<le> off" using j6 [of j] by (simp add: ent_off_def)
  have r: "read_from (up_entry u) 0 (n * 16) = Some (take (n * 16) (up_entry u))"
    using assms(6) by (simp add: slice_def)
  have m: "memcpy_to b1 off c = Some b" using fits by (simp add: b_def)
  have "allocate_uid_blk E uid sz rv s = Some (upd_update (\<lambda>u. u\<lparr>up_blk_info := (up_blk_info u)
        \<lparr>bi_part_occupancy := j + 1, bi_occupied := True, bi_valid := True\<rparr>, up_block := b\<rparr>) s)"
    unfolding allocate_uid_blk_def Let_def u_def [symmetric] j_def [symmetric] n_def [symmetric] b0_def [symmetric] b1(1)
      Option.bind.bind_lunit r c_def [symmetric]
    using m assms(5) by (simp add: get_part_def off_def u_def j_def upd_update_def)
  moreover have "length b = BLK_SIZE" using fits b1(2) by (simp add: b_def)
  moreover have "blk_part_size b = blk_part_size (up_block u)" "blk_occupancy b = (blk_occupancy (up_block u) + 1) mod 65536"
    using off8 fits b1(5,6) assms(4) blk_part_size_less [of "up_block u"]
    by (simp_all add: b_def block_simps b0_def)
  moreover have "ent b j = (uid mod 4096, rv mod 4, True, sz mod 65536)"
    unfolding b_def b1(3) [symmetric] by (rule ent_splice) (use j6 [of j] fits b1(2) in simp_all)
  moreover have "ent b k = ent (up_block u) k" if "k < j" for k
  proof -
    have "ent b k = ent b1 k" unfolding b_def by (rule ent_splice) (use j6 [of k] that fits b1(2) in simp_all)
    also have "\<dots> = ent b0 k" using b1(4) [of k] that assms(5) by simp
    also have "\<dots> = ent (up_block u) k" unfolding b0_def by (rule ent_set) (use assms(4,5) that in \<open>simp_all add: ent_off_def\<close>)
    finally show ?thesis .
  qed
  moreover have "slice b off (n * 16) = c" unfolding b_def using fits c by simp
  ultimately show ?thesis using that by (simp add: off_def c_def)
qed

text \<open>What is stored that way is read back.\<close>

lemma decode_uid_stored:
  assumes "nettle_ok (env_nettle E)" "length (g_encrypt_key s) = 32" "length iv = 16"
    and "n = SIZE_TO_SUB_BLK_COUNT sz" "length d = n * 16"
    and "get_part (g_block_info_tbl s i) j + n * 16 \<le> length (block_read_cache s)"
    and "slice (block_read_cache s) (get_part (g_block_info_tbl s i) j) (n * 16)
       = signet_aes_256_encrypt_cbc (env_nettle E) (g_encrypt_key s) n (Some iv) d"
  shows "decode_uid E sz i j 0 iv s = Some d"
  using assms cbc_256_inverse [of "env_nettle E" "g_encrypt_key s" "Some iv" n d "[]"]
  by (simp add: decode_uid_def Let_def)

section \<open>The abstract database\<close>

text \<open>Entry and content of a record in a block, as a read without masking gives it.\<close>

definition block_record :: "env \<Rightarrow> fw \<Rightarrow> nat \<Rightarrow> bytes \<Rightarrow> nat \<Rightarrow> (nat \<times> bytes) option" where
  "block_record E s i b uid =
     (case find (\<lambda>j. ent_uid b j = uid) [0..<bi_part_occupancy (g_block_info_tbl s i)] of
        None \<Rightarrow> None
      | Some j \<Rightarrow> do {
          iv \<leftarrow> derive_iv uid s;
          d \<leftarrow> decode_uid E (ent_sz b j) i j 0 iv (s\<lparr>block_read_cache := b\<rparr>);
          Some (ent_sz b j, d)
        })"

definition data_block :: "nat \<Rightarrow> bool" where
  "data_block i \<longleftrightarrow> MIN_DATA_BLOCK \<le> i \<and> i \<le> MAX_DATA_BLOCK"

definition data_uid :: "nat \<Rightarrow> bool" where
  "data_uid uid \<longleftrightarrow> MIN_UID \<le> uid \<and> uid \<le> MAX_UID"

definition db_view :: "env \<Rightarrow> fw \<Rightarrow> nat \<Rightarrow> (nat \<times> bytes) option" where
  "db_view E s uid =
     (if \<not> data_uid uid \<or> uid_map s uid = INVALID_BLOCK then None
      else block_record E s (uid_map s uid) (emmc s (uid_map s uid)) uid)"

text \<open>
  The invariant of one block: a free block carries the invalid partition size; a used block
  is one partition of 1023 sub-blocks with at most one record, and its checksum is right.
\<close>

definition block_ok :: "env \<Rightarrow> block_info \<Rightarrow> bytes \<Rightarrow> bool" where
  "block_ok E info b \<longleftrightarrow>
     length b = BLK_SIZE
   \<and> (if bi_valid info \<and> bi_occupied info
      then blk_part_size b = MAX_PART_SIZE \<and> bi_part_size info = MAX_PART_SIZE \<and> bi_part_count info = 1
         \<and> bi_part_tbl_offs info = 1 \<and> bi_part_occupancy info \<le> 1 \<and> blk_occupancy b = bi_part_occupancy info
         \<and> block_crc_check E b
         \<and> (bi_part_occupancy info = 1 \<longrightarrow> ent_first b 0 \<and> MIN_UID \<le> ent_uid b 0 \<and> ent_uid b 0 \<le> MAX_UID
              \<and> SIZE_TO_SUB_BLK_COUNT (ent_sz b 0) \<le> MAX_PART_SIZE)
      else if bi_valid info then blk_part_size b = INVALID_PART_SIZE
      else blk_part_size b \<noteq> INVALID_PART_SIZE \<and> \<not> block_crc_check E b)"

text \<open>The block holds the record of \<open>uid\<close>.\<close>

definition block_holds :: "block_info \<Rightarrow> bytes \<Rightarrow> nat \<Rightarrow> bool" where
  "block_holds info b uid \<longleftrightarrow>
     bi_valid info \<and> bi_occupied info \<and> bi_part_occupancy info = 1 \<and> ent_uid b 0 = uid"

definition db_ok :: "env \<Rightarrow> fw \<Rightarrow> bool" where
  "db_ok E s \<longleftrightarrow>
     (\<forall>i. data_block i \<longrightarrow> block_ok E (g_block_info_tbl s i) (emmc s i))
   \<and> (\<forall>uid i. data_uid uid \<longrightarrow> data_block i \<longrightarrow>
        uid_map s uid = i \<longleftrightarrow> block_holds (g_block_info_tbl s i) (emmc s i) uid)
   \<and> (\<forall>uid. data_uid uid \<longrightarrow> uid_map s uid = INVALID_BLOCK \<or> data_block (uid_map s uid))"

text \<open>The cached block, when there is one, is the block on the eMMC.\<close>

definition cache_ok :: "fw \<Rightarrow> bool" where
  "cache_ok s \<longleftrightarrow> (\<forall>i. data_block i \<longrightarrow> block_read_cache_idx s = i \<longrightarrow> block_read_cache s = emmc s i)"

section \<open>What the view depends on\<close>

definition db_core :: "fw \<Rightarrow> (nat \<Rightarrow> block_info) \<times> (nat \<Rightarrow> nat) \<times> (nat \<Rightarrow> bytes) \<times> bytes \<times> bytes" where
  "db_core s = (g_block_info_tbl s, uid_map s, emmc s, root_page s, g_encrypt_key s)"

lemma derive_iv_cong: "root_page s = root_page t \<Longrightarrow> derive_iv uid s = derive_iv uid t"
  by (simp add: derive_iv_def rp_format_def rp_db_format_def rp_get_def Let_def cong: if_cong)

lemma length_derive_iv:
  "derive_iv uid s = Some iv \<Longrightarrow> length (root_page s) = ROOT_PAGE_SIZE \<Longrightarrow> length iv = 16"
  by (auto simp: derive_iv_def rp_get_def Let_def split: if_splits)

lemma block_record_cong:
  assumes "g_block_info_tbl s i = g_block_info_tbl t i" "root_page s = root_page t" "g_encrypt_key s = g_encrypt_key t"
  shows "block_record E s i b uid = block_record E t i b uid"
  unfolding block_record_def decode_uid_def derive_iv_cong [OF assms(2)] using assms
  by (simp add: Let_def cong: option.case_cong)

lemma db_core_cong:
  assumes "db_core s = db_core t"
  shows "db_view E s = db_view E t" "db_ok E s = db_ok E t"
proof -
  have e: "g_block_info_tbl s = g_block_info_tbl t" "uid_map s = uid_map t" "emmc s = emmc t"
    "root_page s = root_page t" "g_encrypt_key s = g_encrypt_key t"
    using assms by (simp_all add: db_core_def)
  show "db_view E s = db_view E t"
    by (rule ext) (simp add: db_view_def e block_record_cong [of s _ t])
  show "db_ok E s = db_ok E t" by (simp add: db_ok_def e)
qed

section \<open>Writing one block\<close>

text \<open>The write of block \<open>i\<close> with the tables updated for it.\<close>

definition wrote_block :: "nat \<Rightarrow> block_info \<Rightarrow> bytes \<Rightarrow> nat \<Rightarrow> nat \<Rightarrow> fw \<Rightarrow> fw \<Rightarrow> bool" where
  "wrote_block i info b uid m s t \<longleftrightarrow>
     db_core t = ((g_block_info_tbl s)(i := info), (uid_map s)(uid := m), (emmc s)(i := b), root_page s, g_encrypt_key s)"

lemma wrote_blockD:
  assumes "wrote_block i info b uid m s t"
  shows "g_block_info_tbl t = (g_block_info_tbl s)(i := info)" "uid_map t = (uid_map s)(uid := m)"
    "emmc t = (emmc s)(i := b)" "root_page t = root_page s" "g_encrypt_key t = g_encrypt_key s"
  using assms by (simp_all add: wrote_block_def db_core_def)

text \<open>Records of other uids are in other blocks.\<close>

lemma wrote_block_others:
  assumes ok: "db_ok E s" and w: "wrote_block i info b uid m s t" and i: "data_block i"
    and alone: "\<And>u. block_holds (g_block_info_tbl s i) (emmc s i) u \<Longrightarrow> u = uid"
    and u: "u \<noteq> uid"
  shows "db_view E t u = db_view E s u"
proof (cases "data_uid u \<and> uid_map s u \<noteq> INVALID_BLOCK")
  case True
  then have d: "data_block (uid_map s u)" using ok by (auto simp: db_ok_def)
  have "uid_map s u \<noteq> i"
  proof
    assume "uid_map s u = i"
    then have "block_holds (g_block_info_tbl s i) (emmc s i) u" using ok True i unfolding db_ok_def by blast
    with alone u show False by blast
  qed
  then show ?thesis
    using True u by (simp add: db_view_def wrote_blockD [OF w] block_record_cong [of t "uid_map s u" s])
next
  case False
  then show ?thesis using u by (auto simp: db_view_def wrote_blockD [OF w])
qed

lemma wrote_block_ok:
  assumes ok: "db_ok E s" and w: "wrote_block i info b uid m s t" and i: "data_block i" and uid: "data_uid uid"
    and alone: "\<And>u. block_holds (g_block_info_tbl s i) (emmc s i) u \<Longrightarrow> u = uid"
    and old: "uid_map s uid = INVALID_BLOCK \<or> uid_map s uid = i"
    and new: "block_ok E info b" "m = INVALID_BLOCK \<or> m = i" "\<And>u. block_holds info b u \<longleftrightarrow> u = uid \<and> m = i"
  shows "db_ok E t"
proof -
  have i0: "i \<noteq> INVALID_BLOCK" using i by (simp add: data_block_def)
  have blocks: "block_ok E (g_block_info_tbl t k) (emmc t k)" if "data_block k" for k
    using ok that new(1) by (auto simp: db_ok_def wrote_blockD [OF w])
  have m: "uid_map t u = k \<longleftrightarrow> block_holds (g_block_info_tbl t k) (emmc t k) u" if u: "data_uid u" "data_block k" for u k
  proof -
    have s: "uid_map s u = k \<longleftrightarrow> block_holds (g_block_info_tbl s k) (emmc s k) u"
      using ok u unfolding db_ok_def by blast
    have k0: "k \<noteq> INVALID_BLOCK" using u(2) by (simp add: data_block_def)
    show ?thesis
    proof (cases "k = i")
      case True
      have "uid_map s u \<noteq> i" if "u \<noteq> uid" using that s alone True by blast
      then show ?thesis using True new(3) i0 by (auto simp: wrote_blockD [OF w])
    next
      case False
      then show ?thesis using s old new(2) k0 by (auto simp: wrote_blockD [OF w])
    qed
  qed
  have r: "uid_map t u = INVALID_BLOCK \<or> data_block (uid_map t u)" if "data_uid u" for u
    using ok that new(2) i by (auto simp: db_ok_def wrote_blockD [OF w])
  from blocks m r show ?thesis by (auto simp: db_ok_def)
qed

section \<open>A block with one new record\<close>

definition one_part :: "nat \<Rightarrow> block_info" where
  "one_part occ = \<lparr>bi_valid = True, bi_occupied = True, bi_part_count = 1, bi_part_occupancy = occ,
                  bi_part_size = MAX_PART_SIZE, bi_part_tbl_offs = 1\<rparr>"

definition stored_block :: "env \<Rightarrow> fw \<Rightarrow> nat \<Rightarrow> nat \<Rightarrow> bytes \<Rightarrow> bytes \<Rightarrow> bytes \<Rightarrow> bool" where
  "stored_block E s uid sz iv d b \<longleftrightarrow>
     length b = BLK_SIZE \<and> blk_part_size b = MAX_PART_SIZE \<and> blk_occupancy b = 1
   \<and> ent_uid b 0 = uid \<and> ent_first b 0 \<and> ent_sz b 0 = sz
   \<and> slice b 16 (SIZE_TO_SUB_BLK_COUNT sz * 16)
      = signet_aes_256_encrypt_cbc (env_nettle E) (g_encrypt_key s) (SIZE_TO_SUB_BLK_COUNT sz) (Some iv) d"

lemma stored_block_crc:
  assumes "stored_block E s uid sz iv d b" "SIZE_TO_SUB_BLK_COUNT sz \<le> MAX_PART_SIZE"
  shows "stored_block E s uid sz iv d (blk_set_crc c b)"
proof -
  have l: "length b = BLK_SIZE" using assms by (simp add: stored_block_def)
  have "ent (blk_set_crc c b) 0 = ent b 0" by (rule ent_set) (simp_all add: l ent_off_def)
  moreover have "slice (blk_set_crc c b) 16 (SIZE_TO_SUB_BLK_COUNT sz * 16) = slice b 16 (SIZE_TO_SUB_BLK_COUNT sz * 16)"
    unfolding blk_set_crc_def using l assms(2) by (intro slice_splice_after) simp_all
  ultimately show ?thesis
    using assms(1) l entD [of "blk_set_crc c b" 0 b 0] by (simp add: stored_block_def block_simps)
qed

lemma stored_block_ok:
  assumes b: "stored_block E s uid sz iv d b" and uid: "data_uid uid" and n: "SIZE_TO_SUB_BLK_COUNT sz \<le> MAX_PART_SIZE"
  shows "block_ok E (one_part 1) (blk_set_crc (block_crc E b) b)"
    and "block_holds (one_part 1) (blk_set_crc (block_crc E b) b) u \<longleftrightarrow> u = uid"
proof -
  note c = stored_block_crc [OF b n, of "block_crc E b"]
  have "block_crc_check E (blk_set_crc (block_crc E b) b)"
    by (rule block_crc_set) (use b in \<open>simp_all add: stored_block_def\<close>)
  then show "block_ok E (one_part 1) (blk_set_crc (block_crc E b) b)"
    using c uid n by (auto simp: block_ok_def one_part_def stored_block_def data_uid_def)
  show "block_holds (one_part 1) (blk_set_crc (block_crc E b) b) u \<longleftrightarrow> u = uid"
    using c by (auto simp: block_holds_def one_part_def stored_block_def)
qed

lemma stored_block_view:
  assumes w: "wrote_block i (one_part 1) b uid i s t" and b: "stored_block E s uid sz iv d b"
    and "data_block i" "data_uid uid" "derive_iv uid s = Some iv" "length iv = 16"
    and "nettle_ok (env_nettle E)" "length (g_encrypt_key s) = 32"
    and n: "SIZE_TO_SUB_BLK_COUNT sz \<le> MAX_PART_SIZE" "length d = SIZE_TO_SUB_BLK_COUNT sz * 16"
  shows "db_view E t uid = Some (sz, d)"
proof -
  have iv: "derive_iv uid t = Some iv" using assms(5) derive_iv_cong [of t s] wrote_blockD(4) [OF w] by simp
  have "decode_uid E sz i 0 0 iv (t\<lparr>block_read_cache := b\<rparr>) = Some d"
    by (rule decode_uid_stored [where n = "SIZE_TO_SUB_BLK_COUNT sz"])
      (use assms b in \<open>simp_all add: wrote_blockD [OF w] stored_block_def get_part_def one_part_def\<close>)
  then show ?thesis
    using assms(3,4) b iv
    by (simp add: db_view_def block_record_def wrote_blockD [OF w] one_part_def stored_block_def data_block_def)
qed

text \<open>\<open>allocate_uid_blk\<close> on an empty partition.\<close>

definition empty_part :: "update_data \<Rightarrow> bool" where
  "empty_part u \<longleftrightarrow>
     length (up_block u) = BLK_SIZE \<and> blk_part_size (up_block u) = MAX_PART_SIZE \<and> blk_occupancy (up_block u) = 0
   \<and> bi_part_occupancy (up_blk_info u) = 0 \<and> bi_part_size (up_blk_info u) = MAX_PART_SIZE
   \<and> bi_part_count (up_blk_info u) = 1 \<and> bi_part_tbl_offs (up_blk_info u) = 1"

lemma allocate_stored:
  assumes empty: "empty_part (d_update s)"
    and "SIZE_TO_SUB_BLK_COUNT sz \<le> MAX_PART_SIZE" "length (up_entry (d_update s)) = BLK_SIZE"
    and "nettle_ok (env_nettle E)" "length (g_encrypt_key s) = 32" "length (up_iv (d_update s)) = 16"
    and "uid \<le> MAX_UID" "sz < 65536"
  obtains b where
    "allocate_uid_blk E uid sz rv s = Some (upd_update (\<lambda>u. u\<lparr>up_blk_info := one_part 1, up_block := b\<rparr>) s)"
    "stored_block E s uid sz (up_iv (d_update s)) (take (SIZE_TO_SUB_BLK_COUNT sz * 16) (up_entry (d_update s))) b"
proof -
  let ?i = "up_blk_info (d_update s)"
  have one: "?i\<lparr>bi_part_occupancy := 0 + 1, bi_occupied := True, bi_valid := True\<rparr> = one_part 1"
    using empty by (cases ?i) (simp add: one_part_def empty_part_def)
  have e: "bi_part_occupancy ?i = 0" using empty by (simp add: empty_part_def)
  obtain b where b: "allocate_uid_blk E uid sz rv s = Some (upd_update (\<lambda>u. u\<lparr>up_blk_info := (up_blk_info u)
        \<lparr>bi_part_occupancy := 0 + 1, bi_occupied := True, bi_valid := True\<rparr>, up_block := b\<rparr>) s)"
    "length b = BLK_SIZE" "blk_part_size b = blk_part_size (up_block (d_update s))"
    "blk_occupancy b = (blk_occupancy (up_block (d_update s)) + 1) mod 65536"
    "ent b 0 = (uid mod 4096, rv mod 4, True, sz mod 65536)"
    "slice b (get_part ?i 0) (SIZE_TO_SUB_BLK_COUNT sz * 16)
       = signet_aes_256_encrypt_cbc (env_nettle E) (g_encrypt_key s) (SIZE_TO_SUB_BLK_COUNT sz) (Some (up_iv (d_update s)))
           (take (SIZE_TO_SUB_BLK_COUNT sz * 16) (up_entry (d_update s)))"
    by (rule allocate_uid_blk_stores [of s sz E uid rv, unfolded e])
      (use assms in \<open>simp_all add: get_part_def ent_off_def empty_part_def\<close>)
  have "allocate_uid_blk E uid sz rv s = Some (upd_update (\<lambda>u. u\<lparr>up_blk_info := one_part 1, up_block := b\<rparr>) s)"
    unfolding b(1) upd_update_def one ..
  moreover have "stored_block E s uid sz (up_iv (d_update s)) (take (SIZE_TO_SUB_BLK_COUNT sz * 16) (up_entry (d_update s))) b"
    using b assms by (simp add: stored_block_def ent_def get_part_def empty_part_def)
  ultimately show ?thesis by (rule that)
qed

section \<open>What \<open>update_uid\<close> prepares\<close>

text \<open>The arguments as \<open>update_uid_cmd\<close> has stored them; \<open>d\<close> is the plain text of the record.\<close>

definition update_args :: "env \<Rightarrow> fw \<Rightarrow> nat \<Rightarrow> nat \<Rightarrow> bytes \<Rightarrow> bool" where
  "update_args E s uid sz d \<longleftrightarrow>
     data_uid uid \<and> sz < 65536 \<and> SIZE_TO_SUB_BLK_COUNT sz \<le> MAX_PART_SIZE
   \<and> length (up_entry (d_update s)) = BLK_SIZE \<and> d = take (SIZE_TO_SUB_BLK_COUNT sz * 16) (up_entry (d_update s))
   \<and> derive_iv uid s = Some (up_iv (d_update s)) \<and> length (up_iv (d_update s)) = 16
   \<and> length (up_block (d_update s)) = BLK_SIZE
   \<and> nettle_ok (env_nettle E) \<and> length (g_encrypt_key s) = 32"

text \<open>The block the record goes to, and whether it has to be in the cache.\<close>

definition update_target :: "fw \<Rightarrow> nat \<Rightarrow> nat option" where
  "update_target s uid =
     (if uid_map s uid \<noteq> INVALID_BLOCK then Some (uid_map s uid)
      else case alloc_exact MAX_PART_SIZE s of
             Some i \<Rightarrow> Some i
           | None \<Rightarrow> (if find_free_block s \<noteq> INVALID_BLOCK then Some (find_free_block s) else None))"

definition target_cached :: "fw \<Rightarrow> nat \<Rightarrow> bool" where
  "target_cached s uid \<longleftrightarrow>
     uid_map s uid = INVALID_BLOCK \<and> alloc_exact MAX_PART_SIZE s = None
   \<or> update_target s uid = Some (block_read_cache_idx s)"

definition alone :: "fw \<Rightarrow> nat \<Rightarrow> nat \<Rightarrow> bool" where
  "alone s i uid \<longleftrightarrow> (\<forall>u. block_holds (g_block_info_tbl s i) (emmc s i) u \<longrightarrow> u = uid)"

lemma get_cached_hit [simp]: "get_cached_data_block (block_read_cache_idx s) s = Some (True, s)"
  by (simp add: get_cached_data_block_def)

lemma get_cached_hit' [simp]: "block_read_cache_idx s = i \<Longrightarrow> get_cached_data_block i s = Some (True, s)"
  by (simp add: get_cached_data_block_def)

lemma upd_update_simps [simp]:
  "d_update (upd_update f s) = f (d_update s)" "uid_map (upd_update f s) = uid_map s"
  "g_block_info_tbl (upd_update f s) = g_block_info_tbl s" "emmc (upd_update f s) = emmc s"
  "root_page (upd_update f s) = root_page s" "g_encrypt_key (upd_update f s) = g_encrypt_key s"
  "block_read_cache (upd_update f s) = block_read_cache s" "block_read_cache_idx (upd_update f s) = block_read_cache_idx s"
  by (simp_all add: upd_update_def)

lemma upd_update_upd [simp]: "upd_update f (upd_update g s) = upd_update (\<lambda>u. f (g u)) s"
  by (simp add: upd_update_def)

lemma mapped_block:
  assumes "db_ok E s" "data_uid uid" "uid_map s uid \<noteq> INVALID_BLOCK"
  shows "data_block (uid_map s uid)" "block_holds (g_block_info_tbl s (uid_map s uid)) (emmc s (uid_map s uid)) uid"
    "g_block_info_tbl s (uid_map s uid) = one_part 1" "alone s (uid_map s uid) uid"
proof -
  let ?i = "uid_map s uid"
  show d: "data_block ?i" using assms by (auto simp: db_ok_def)
  show h: "block_holds (g_block_info_tbl s ?i) (emmc s ?i) uid" using assms d unfolding db_ok_def by blast
  have "block_ok E (g_block_info_tbl s ?i) (emmc s ?i)" using assms d unfolding db_ok_def by blast
  then show "g_block_info_tbl s ?i = one_part 1"
    using h by (cases "g_block_info_tbl s ?i") (simp add: block_ok_def block_holds_def one_part_def)
  show "alone s ?i uid" using h by (simp add: alone_def block_holds_def)
qed

lemma find_uid_mapped:
  assumes "db_ok E s" "cache_ok s" "data_uid uid" "uid_map s uid \<noteq> INVALID_BLOCK" "block_read_cache_idx s = uid_map s uid"
  shows "find_uid uid (upd_update f s) = Some (Find_found 0, uid_map s uid, upd_update f s)"
proof -
  note m = mapped_block [OF assms(1,3,4)]
  have "block_read_cache s = emmc s (uid_map s uid)" using assms(2,5) m(1) by (simp add: cache_ok_def)
  moreover have "ent_uid (emmc s (uid_map s uid)) 0 = uid" using m(2) by (simp add: block_holds_def)
  ultimately show ?thesis
    using assms(3-5) m(3) by (simp add: find_uid_def Let_def data_uid_def one_part_def)
qed

lemma update_uid_replace:
  assumes ok: "db_ok E s" "cache_ok s" and args: "update_args E s uid sz d" and sz: "sz \<noteq> 0"
    and m: "uid_map s uid = i" "i \<noteq> INVALID_BLOCK" "block_read_cache_idx s = i"
  obtains b where
    "update_uid E uid sz s = Some (UPDATE_UID_SUCCESS, i, i, upd_update (\<lambda>u. u\<lparr>up_blk_info := one_part 1, up_block := b\<rparr>) s)"
    "stored_block E s uid sz (up_iv (d_update s)) d b"
proof -
  have uid: "data_uid uid" using args by (simp add: update_args_def)
  note mb = mapped_block [OF ok(1) uid, unfolded m(1), OF m(2)]
  note f = find_uid_mapped [OF ok uid, unfolded m(1), OF m(2,3)]
  have c: "block_read_cache s = emmc s i" using ok(2) mb(1) m(3) by (simp add: cache_ok_def)
  have "block_ok E (one_part 1) (emmc s i)" using ok(1) mb(1,3) unfolding db_ok_def by metis
  then have b: "length (emmc s i) = BLK_SIZE" "blk_part_size (emmc s i) = MAX_PART_SIZE" "blk_occupancy (emmc s i) = 1"
    by (simp_all add: block_ok_def one_part_def)
  let ?b0 = "blk_set_header MAX_PART_SIZE 0 (emmc s i)"
  let ?s0 = "upd_update (\<lambda>u. u\<lparr>up_blk_info := one_part 0, up_block := ?b0\<rparr>) s"
  have de: "deallocate_uid uid False (upd_update (\<lambda>u. u\<lparr>up_blk_info := x, up_block := y\<rparr>) s)
      = Some (UPDATE_UID_SUCCESS, i, ?s0)" for x y
    using b mb(3) by (simp add: deallocate_uid_def f Let_def c) (simp add: one_part_def)
  obtain b' where b': "allocate_uid_blk E uid sz (ent_rev (block_read_cache ?s0) 0) ?s0 =
       Some (upd_update (\<lambda>u. u\<lparr>up_blk_info := one_part 1, up_block := b'\<rparr>) ?s0)"
      "stored_block E ?s0 uid sz (up_iv (d_update ?s0)) (take (SIZE_TO_SUB_BLK_COUNT sz * 16) (up_entry (d_update ?s0))) b'"
    by (rule allocate_stored [of ?s0 sz E uid])
      (use args b in \<open>simp_all add: update_args_def block_simps data_uid_def one_part_def empty_part_def\<close>)
  have "update_uid E uid sz s = Some (UPDATE_UID_SUCCESS, i, i, upd_update (\<lambda>u. u\<lparr>up_blk_info := one_part 1, up_block := b'\<rparr>) s)"
    using f [of id] sz mb(3) de b'(1) by (simp add: update_uid_def Let_def upd_update_def one_part_def)
  moreover have "stored_block E s uid sz (up_iv (d_update s)) d b'"
    using b'(2) args by (simp add: stored_block_def update_args_def)
  ultimately show ?thesis by (rule that)
qed

lemma find_range_Some:
  assumes "find P [a..<b] = Some i"
  shows "P i" "a \<le> i" "i < b"
  using assms by (auto simp: find_Some_iff)

lemma find_free_blockD:
  assumes "find_free_block s \<noteq> INVALID_BLOCK"
  shows "data_block (find_free_block s)" "bi_valid (g_block_info_tbl s (find_free_block s))"
    "\<not> bi_occupied (g_block_info_tbl s (find_free_block s))"
proof -
  obtain i where "find (\<lambda>i. bi_valid (g_block_info_tbl s i) \<and> \<not> bi_occupied (g_block_info_tbl s i))
      [MIN_DATA_BLOCK..<MAX_DATA_BLOCK + 1] = Some i" "find_free_block s = i"
    using assms unfolding find_free_block_def by (metis (no_types, lifting) option.case_eq_if option.collapse)
  note f = this(2) find_range_Some [OF this(1)]
  show "data_block (find_free_block s)" using f by (simp add: data_block_def)
  show "bi_valid (g_block_info_tbl s (find_free_block s))" "\<not> bi_occupied (g_block_info_tbl s (find_free_block s))"
    using f by simp_all
qed

lemma alloc_exactD:
  assumes "db_ok E s" "alloc_exact MAX_PART_SIZE s = Some i"
  shows "data_block i" "g_block_info_tbl s i = one_part 0"
proof -
  note f = find_range_Some [OF assms(2) [unfolded alloc_exact_def]]
  show d: "data_block i" using f by (simp add: data_block_def)
  have "block_ok E (g_block_info_tbl s i) (emmc s i)" using assms(1) d unfolding db_ok_def by blast
  then show "g_block_info_tbl s i = one_part 0"
    using f(1) by (cases "g_block_info_tbl s i") (auto simp: block_ok_def one_part_def Let_def)
qed

lemma update_target_alone:
  assumes "db_ok E s" "data_uid uid" "update_target s uid = Some i"
  shows "data_block i" "alone s i uid" "uid_map s uid = INVALID_BLOCK \<or> uid_map s uid = i"
proof -
  have "data_block i \<and> alone s i uid \<and> (uid_map s uid = INVALID_BLOCK \<or> uid_map s uid = i)"
  proof (cases "uid_map s uid = INVALID_BLOCK")
    case False
    then show ?thesis using mapped_block [OF assms(1,2)] assms(3) by (simp add: update_target_def)
  next
    case True
    show ?thesis
    proof (cases "alloc_exact MAX_PART_SIZE s")
      case None
      then have "find_free_block s = i" "i \<noteq> INVALID_BLOCK"
        using assms(3) True by (auto simp: update_target_def split: if_splits)
      then show ?thesis using find_free_blockD [of s] True by (auto simp: alone_def block_holds_def)
    next
      case (Some k)
      then have "k = i" using assms(3) True by (simp add: update_target_def)
      then show ?thesis
        using alloc_exactD [OF assms(1) Some] True by (simp add: alone_def block_holds_def one_part_def)
    qed
  qed
  then show "data_block i" "alone s i uid" "uid_map s uid = INVALID_BLOCK \<or> uid_map s uid = i" by simp_all
qed

lemma allocate_uid_new:
  assumes ok: "db_ok E s" "cache_ok s" and args: "update_args E s uid sz d"
    and t: "uid_map s uid = INVALID_BLOCK" "update_target s uid = Some i" "target_cached s uid"
  obtains b where
    "allocate_uid E uid sz rv s
       = Some (UPDATE_UID_SUCCESS, i, upd_update (\<lambda>u. u\<lparr>up_blk_info := one_part 1, up_block := b\<rparr>) s)"
    "stored_block E s uid sz (up_iv (d_update s)) d b"
proof -
  have i: "data_block i" "i \<noteq> INVALID_BLOCK"
    using update_target_alone(1) [OF ok(1) _ t(2)] args by (auto simp: update_args_def data_block_def)
  define prep :: "update_data \<Rightarrow> update_data" where "prep =
    (case alloc_exact MAX_PART_SIZE s of
       Some k \<Rightarrow> (\<lambda>u. u\<lparr>up_blk_info := g_block_info_tbl s i, up_block := block_read_cache s\<rparr>)
     | None \<Rightarrow> (\<lambda>u. u\<lparr>up_block := initialize_block MAX_PART_SIZE,
                      up_blk_info := (up_blk_info u)\<lparr>bi_part_occupancy := 0, bi_part_size := MAX_PART_SIZE,
                         bi_part_count := 1, bi_part_tbl_offs := 1\<rparr>\<rparr>))"
  let ?s = "upd_update prep s"
  have run: "allocate_uid E uid sz rv s = map_option (\<lambda>s. (UPDATE_UID_SUCCESS, i, s)) (allocate_uid_blk E uid sz rv ?s)"
  proof (cases "alloc_exact MAX_PART_SIZE s")
    case None
    then have "find_free_block s = i" using t(1,2) by (auto simp: update_target_def split: if_splits)
    then show ?thesis using None i(2) by (simp add: allocate_uid_def Let_def prep_def)
  next
    case (Some k)
    then have "k = i" "block_read_cache_idx s = i"
      using t by (auto simp: update_target_def target_cached_def)
    then show ?thesis using Some i(2) by (simp add: allocate_uid_def Let_def prep_def)
  qed
  have p: "empty_part (prep (d_update s))"
  proof (cases "alloc_exact MAX_PART_SIZE s")
    case None
    then show ?thesis by (simp add: prep_def empty_part_def initialize_block_def block_simps)
  next
    case (Some k)
    then have k: "k = i" "block_read_cache_idx s = i"
      using t by (auto simp: update_target_def target_cached_def)
    have c: "block_read_cache s = emmc s i" using ok(2) i(1) k(2) by (simp add: cache_ok_def)
    have e: "g_block_info_tbl s i = one_part 0" using alloc_exactD(2) [OF ok(1) Some] k(1) by simp
    have "block_ok E (one_part 0) (emmc s i)" using ok(1) i(1) e unfolding db_ok_def by metis
    then show ?thesis by (simp add: prep_def Some e c block_ok_def empty_part_def) (simp add: one_part_def)
  qed
  have q: "up_entry (prep (d_update s)) = up_entry (d_update s)" "up_iv (prep (d_update s)) = up_iv (d_update s)"
    by (simp_all add: prep_def split: option.split)
  obtain b where b: "allocate_uid_blk E uid sz rv ?s = Some (upd_update (\<lambda>u. u\<lparr>up_blk_info := one_part 1, up_block := b\<rparr>) ?s)"
    "stored_block E ?s uid sz (up_iv (d_update ?s)) (take (SIZE_TO_SUB_BLK_COUNT sz * 16) (up_entry (d_update ?s))) b"
    by (rule allocate_stored [of ?s sz E uid rv])
      (use args p q in \<open>simp_all add: update_args_def data_uid_def\<close>)
  have "upd_update (\<lambda>u. u\<lparr>up_blk_info := one_part 1, up_block := b\<rparr>) ?s
      = upd_update (\<lambda>u. u\<lparr>up_blk_info := one_part 1, up_block := b\<rparr>) s"
    by (simp add: upd_update_def prep_def split: option.split)
  then show ?thesis
    using that [of b] run b q args by (simp add: stored_block_def update_args_def)
qed

text \<open>Adding or replacing a record, in one statement.\<close>

lemma update_uid_store:
  assumes "db_ok E s" "cache_ok s" "update_args E s uid sz d" "sz \<noteq> 0"
    and "update_target s uid = Some i" "target_cached s uid"
  obtains b prev where
    "update_uid E uid sz s = Some (UPDATE_UID_SUCCESS, prev, i, upd_update (\<lambda>u. u\<lparr>up_blk_info := one_part 1, up_block := b\<rparr>) s)"
    "prev = INVALID_BLOCK \<or> prev = i" "stored_block E s uid sz (up_iv (d_update s)) d b"
proof (cases "uid_map s uid = INVALID_BLOCK")
  case False
  then have "uid_map s uid = i" "i \<noteq> INVALID_BLOCK" "block_read_cache_idx s = i"
    using assms(5,6) by (auto simp: update_target_def target_cached_def)
  from update_uid_replace [OF assms(1-4) this] that show ?thesis by blast
next
  case True
  then have "find_uid uid s = Some (Find_unmapped, INVALID_BLOCK, s)"
    using assms(3) by (simp add: find_uid_def update_args_def data_uid_def)
  moreover obtain b where "allocate_uid E uid sz 0 s
       = Some (UPDATE_UID_SUCCESS, i, upd_update (\<lambda>u. u\<lparr>up_blk_info := one_part 1, up_block := b\<rparr>) s)"
    "stored_block E s uid sz (up_iv (d_update s)) d b"
    using allocate_uid_new [OF assms(1-3) True assms(5,6)] by metis
  ultimately show ?thesis using that [of INVALID_BLOCK b] assms(4) by (simp add: update_uid_def Let_def)
qed

text \<open>Deleting: the block becomes free.\<close>

definition free_info :: block_info where
  "free_info = (one_part 1)\<lparr>bi_occupied := False\<rparr>"

definition freed_block :: "bytes \<Rightarrow> bytes" where
  "freed_block b = blk_set_crc (-1) (blk_set_header INVALID_PART_SIZE 0 b)"

lemma freed_block_ok:
  "length b = BLK_SIZE \<Longrightarrow> block_ok E free_info (freed_block b)" "\<not> block_holds free_info c u"
  by (simp_all add: block_ok_def block_holds_def free_info_def freed_block_def one_part_def block_simps)

lemma update_uid_delete:
  assumes "db_ok E s" "cache_ok s" "data_uid uid"
    and m: "uid_map s uid = i" "i \<noteq> INVALID_BLOCK" "block_read_cache_idx s = i"
  shows "update_uid E uid 0 s = Some (UPDATE_UID_SUCCESS, INVALID_BLOCK, i,
    upd_update (\<lambda>u. u\<lparr>up_blk_info := free_info, up_block := freed_block (up_block u)\<rparr>) s)"
proof -
  have f: "find_uid uid s = Some (Find_found 0, i, s)"
    using find_uid_mapped [OF assms(1-3), of id] m by (simp add: upd_update_def)
  show ?thesis
    using mapped_block(3) [OF assms(1,3)] m
    by (simp add: update_uid_def deallocate_uid_def f Let_def free_info_def freed_block_def)
      (simp add: one_part_def upd_update_def)
qed

end
