(* ===== verification/Transport.thy ===== *)
theory Transport
  imports Host_Msg Machine
begin

text \<open>
  The transport of requests and responses: both sides cut a message buffer into packets of
  511 bytes with a header byte, and both put the pieces back together. \<open>hid_packet\<close> is the
  common format; the locale \<open>packet_receiver\<close> is what both receivers promise packet by packet, and
  gives the reassembly of a whole message once for the device (\<open>usb_raw_hid_rx\<close>) and for the
  host (\<open>signetdev_priv_process_rx_packet\<close>).
\<close>

section \<open>The packet format\<close>

definition hid_header :: "nat \<Rightarrow> nat \<Rightarrow> u8" where
  "hid_header n k = word_of_nat k OR (if k + 1 = n then 0x80 else 0)"

definition hid_packet :: "bytes \<Rightarrow> nat \<Rightarrow> nat \<Rightarrow> bytes" where
  "hid_packet b n k = hid_header n k # slice b (k * RAW_HID_PAYLOAD_SIZE) RAW_HID_PAYLOAD_SIZE"

lemma byte_top: "unat (drop_bit 7 (w :: u8)) \<noteq> 0 \<longleftrightarrow> bit w 7"
  using drop_bit_eq_zero_iff_not_bit_last [of w] by (simp add: unat_eq_0)
lemma low7:
  assumes "k < 128"
  shows "take_bit 7 (word_of_nat k :: u8) = word_of_nat k" "\<not> bit (word_of_nat k :: u8) 7" 
proof -
  have u: "unat (word_of_nat k :: u8) = k" using assms by (simp add: unat_of_nat)
  show "take_bit 7 (word_of_nat k :: u8) = word_of_nat k"
    unfolding word_unat_eq_iff using assms by (simp add: unsigned_take_bit_eq u take_bit_nat_eq_self)
  have "unat (drop_bit 7 (word_of_nat k :: u8)) = 0"
    unfolding unat_drop_bit_eq u using assms by (simp add: drop_bit_eq_div)
  then show "\<not> bit (word_of_nat k :: u8) 7" using byte_top by blast
qed
lemma hid_header_seq:
  assumes "k < 128"
  shows "unat (hid_header n k AND 0x7f) = k"
proof -
  have "hid_header n k AND 0x7f = take_bit 7 (hid_header n k)"
    by (simp add: take_bit_eq_mask mask_eq_exp_minus_1)
  also have "\<dots> = word_of_nat k" using low7(1) [OF assms] by (simp add: hid_header_def take_bit_or)
  finally show ?thesis using assms by (simp add: unat_of_nat)
qed

lemma hid_header_last:
  assumes "k < 128"
  shows "bit (hid_header n k) 7 \<longleftrightarrow> k + 1 = n" "unat (drop_bit 7 (hid_header n k)) \<noteq> 0 \<longleftrightarrow> k + 1 = n"
  unfolding byte_top using low7(2) [OF assms] by (simp_all add: hid_header_def bit_or_iff)

lemma slice_Cons [simp]: "length xs = n \<Longrightarrow> slice (x # xs) (Suc 0) n = xs" "length xs = n \<Longrightarrow> slice xs 0 n = xs"
  by (simp_all add: slice_def)

lemma take_splice_end: "off + length d \<le> length c \<Longrightarrow> take (off + length d) (splice c off d) = take off c @ d"
  by (simp add: splice_def)

lemma take_slice: "off + n \<le> length b \<Longrightarrow> take (off + n) b = take off b @ slice b off n"
  by (simp add: slice_def take_add)

section \<open>Receivers\<close>

text \<open>The first \<open>m\<close> of the \<open>n\<close> packets of a message buffer arrive in order.\<close>

definition rx_packets :: "(bytes \<Rightarrow> 'r \<Rightarrow> 'r option) \<Rightarrow> bytes \<Rightarrow> nat \<Rightarrow> nat \<Rightarrow> 'r \<Rightarrow> 'r option" where
  "rx_packets rx b n m = run_all (map (\<lambda>k. rx (hid_packet b n k)) [0..<m])"

locale packet_receiver =
  fixes rx :: "bytes \<Rightarrow> 'r \<Rightarrow> 'r option"
    and took :: "bytes \<Rightarrow> nat \<Rightarrow> nat \<Rightarrow> 'r \<Rightarrow> bool"
  assumes rx_step: "took b n k r \<Longrightarrow> k + 1 < n \<Longrightarrow> \<exists>r'. rx (hid_packet b n k) r = Some r' \<and> took b n (k + 1) r'"
begin

lemma rx_prefix: "took b n 0 r \<Longrightarrow> m < n \<Longrightarrow> \<exists>r'. rx_packets rx b n m r = Some r' \<and> took b n m r'"
proof (induction m)
  case 0
  then show ?case by (simp add: rx_packets_def)
next
  case (Suc m)
  then obtain r' where "rx_packets rx b n m r = Some r'" "took b n m r'" by auto
  moreover obtain r2 where "rx (hid_packet b n m) r' = Some r2" "took b n (Suc m) r2"
    using rx_step [OF calculation(2)] Suc.prems by auto
  ultimately show ?case by (auto simp: rx_packets_def run_all_append)
qed

lemma rx_message:
  assumes "took b n 0 r" "0 < n"
  shows "\<exists>r'. took b n (n - 1) r' \<and> rx_packets rx b n n r = rx (hid_packet b n (n - 1)) r'"
proof -
  obtain r' where r': "rx_packets rx b n (n - 1) r = Some r'" "took b n (n - 1) r'"
    using rx_prefix [OF assms(1), of "n - 1"] assms(2) by auto
  have "[0..<n] = [0..<n - 1] @ [n - 1]" using assms(2) by (cases n) simp_all
  then have "rx_packets rx b n n r = rx (hid_packet b n (n - 1)) r'"
    using r'(1) by (simp add: rx_packets_def run_all_append split: option.split)
  with r'(2) show ?thesis by blast
qed

end

section \<open>Device: \<open>usb_raw_hid_rx\<close>\<close>

definition dev_took :: "fw \<Rightarrow> bytes \<Rightarrow> nat \<Rightarrow> nat \<Rightarrow> fw \<Rightarrow> bool" where
  "dev_took s b n k r \<longleftrightarrow>
     length b = CMD_PACKET_BUF_SIZE \<and> n \<le> 33
   \<and> (\<exists>c x. r = s\<lparr>cmd_packet_buf := c, outs := x\<rparr> \<and> length c = CMD_PACKET_BUF_SIZE
        \<and> take (k * RAW_HID_PAYLOAD_SIZE) c = take (k * RAW_HID_PAYLOAD_SIZE) b)"

lemma fw_swap_outs: "s\<lparr>outs := x, cmd_packet_buf := c\<rparr> = s\<lparr>cmd_packet_buf := c, outs := x\<rparr>"
  by (rule fw.equality) simp_all

lemma dev_took_buf:
  assumes "dev_took s b n k (s\<lparr>cmd_packet_buf := c, outs := x\<rparr>)"
  shows "take (k * RAW_HID_PAYLOAD_SIZE) c = take (k * RAW_HID_PAYLOAD_SIZE) b" "length c = CMD_PACKET_BUF_SIZE"
proof -
  obtain c' x' where e: "s\<lparr>cmd_packet_buf := c, outs := x\<rparr> = s\<lparr>cmd_packet_buf := c', outs := x'\<rparr>"
    and b: "length c' = CMD_PACKET_BUF_SIZE" "take (k * RAW_HID_PAYLOAD_SIZE) c' = take (k * RAW_HID_PAYLOAD_SIZE) b"
    using assms unfolding dev_took_def by blast
  have "c' = c" using arg_cong [OF e, of cmd_packet_buf] by simp
  with b show "take (k * RAW_HID_PAYLOAD_SIZE) c = take (k * RAW_HID_PAYLOAD_SIZE) b" "length c = CMD_PACKET_BUF_SIZE"
    by simp_all
qed

lemma dev_took_resume:
  assumes "dev_took s b n k (s\<lparr>cmd_packet_buf := c, outs := x\<rparr>)"
  shows "dev_took s b n k (USBD_HID_rx_resume i (s\<lparr>cmd_packet_buf := c, outs := x\<rparr>))"
proof -
  have "length b = CMD_PACKET_BUF_SIZE \<and> n \<le> 33" using assms unfolding dev_took_def by blast
  then show ?thesis
    unfolding dev_took_def USBD_HID_rx_resume_def put_out_def using dev_took_buf [OF assms]
    by (intro conjI exI [of _ c] exI [of _ "x @ [Out_rx_resume i]"]) simp_all
qed

lemma usb_raw_hid_rx_packet:
  assumes "dev_took s b n k r" "k < n"
  shows "\<exists>c x. usb_raw_hid_rx recv (hid_packet b n k) r =
      (if k + 1 = n then recv (s\<lparr>cmd_packet_buf := c, outs := x\<rparr>)
       else Some (USBD_HID_rx_resume INTERFACE_CMD (s\<lparr>cmd_packet_buf := c, outs := x\<rparr>)))
    \<and> dev_took s b n (k + 1) (s\<lparr>cmd_packet_buf := c, outs := x\<rparr>)"
proof -
  obtain c x where r: "r = s\<lparr>cmd_packet_buf := c, outs := x\<rparr>" "length c = CMD_PACKET_BUF_SIZE"
    "take (k * 511) c = take (k * 511) b" and b: "length b = CMD_PACKET_BUF_SIZE" "n \<le> 33"
    using assms(1) by (auto simp: dev_took_def)
  have k: "k < 128" "k \<le> 32" using assms(2) b(2) by simp_all
  have fits: "k * 511 + 511 \<le> CMD_PACKET_BUF_SIZE" using k(2) by simp
  let ?d = "slice b (k * 511) 511"
  have d: "length ?d = 511" using fits b(1) by simp
  let ?c = "splice c (k * 511) ?d"
  have "take ((k + 1) * 511) ?c = take ((k + 1) * 511) b"
    using take_splice_end [of "k * 511" ?d c] take_slice [of "k * 511" 511 b] fits r(2,3) b(1) d
    by (simp add: algebra_simps)
  then have "dev_took s b n (k + 1) (s\<lparr>cmd_packet_buf := ?c, outs := x\<rparr>)"
    using b r(2) d fits unfolding dev_took_def by (intro conjI exI [of _ ?c] exI [of _ x]) simp_all
  moreover have "usb_raw_hid_rx recv (hid_packet b n k) r =
      (if k + 1 = n then recv (s\<lparr>cmd_packet_buf := ?c, outs := x\<rparr>)
       else Some (USBD_HID_rx_resume INTERFACE_CMD (s\<lparr>cmd_packet_buf := ?c, outs := x\<rparr>)))"
    using k fits d r(2) hid_header_seq [of k n] hid_header_last(1) [of k n]
    by (simp add: usb_raw_hid_rx_def hid_packet_def Let_def r(1) memcpy_to_def fw_swap_outs)
  ultimately show ?thesis by blast
qed

interpretation dev_rx: packet_receiver "usb_raw_hid_rx recv" "dev_took s" for recv s
proof
  fix b n k r assume t: "dev_took s b n k r" "k + 1 < n"
  then have "k < n" by simp
  with t obtain c x where "usb_raw_hid_rx recv (hid_packet b n k) r =
      Some (USBD_HID_rx_resume INTERFACE_CMD (s\<lparr>cmd_packet_buf := c, outs := x\<rparr>))"
    "dev_took s b n (k + 1) (s\<lparr>cmd_packet_buf := c, outs := x\<rparr>)"
    using usb_raw_hid_rx_packet [OF t(1), of recv] by (metis nat_less_le)
  then show "\<exists>r'. usb_raw_hid_rx recv (hid_packet b n k) r = Some r' \<and> dev_took s b n (k + 1) r'"
    using dev_took_resume by blast
qed

lemma nth_splice_in:
  "p \<le> i \<Longrightarrow> i < p + length d \<Longrightarrow> p + length d \<le> length c \<Longrightarrow> splice c p d ! i = d ! (i - p)"
  by (simp add: nth_splice)

text \<open>How many packets a message with \<open>n\<close> bytes of payload takes.\<close>

lemma packet_count:
  assumes "n \<le> CMD_PACKET_PAYLOAD_SIZE"
  shows "0 < (n + 516) div 511" "(n + 516) div 511 \<le> 33" "n + 6 \<le> (n + 516) div 511 * 511"
    "((n + 516) div 511 - 1) * 511 < n + 6"
proof -
  have q: "n + 516 = (n + 516) div 511 * 511 + (n + 516) mod 511" "(n + 516) mod 511 < 511" by simp_all
  show "0 < (n + 516) div 511" by (simp add: div_greater_zero_iff)
  show "(n + 516) div 511 \<le> 33" using div_le_mono [of "n + 516" 16907 511] assms by simp
  show "n + 6 \<le> (n + 516) div 511 * 511" using q by linarith
  show "((n + 516) div 511 - 1) * 511 < n + 6" using q by (simp add: diff_mult_distrib)
qed

section \<open>Host: building and cutting a request\<close>

text \<open>The message buffer of a request: the size, the command, the messages that follow, the payload.\<close>

lemma prepare_message_HC:
  assumes "length pl \<le> MAX_CMD_PACKET_PAYLOAD_SIZE" "length (msg_buf msg0) = MAX_CMD_PACKET_BUF_SIZE"
    and "remaining < 65536"
  obtains b where "signetdev_priv_prepare_message_state SIGNETDEV_DEVICE_HC dcmd remaining (Some pl) (length pl) msg0
      = Some (msg0\<lparr>msg_size := length pl + 6, msg_packet_seq := 0,
                   msg_packet_count := (length pl + 516) div 511, msg_buf := b\<rparr>)"
    "length b = MAX_CMD_PACKET_BUF_SIZE" "rd16 b 0 = length pl + 6" "b ! 2 = word_of_int dcmd" "rd16 b 3 = remaining"
    "slice b 6 (length pl) = pl"
proof -
  let ?n = "length pl" and ?l = "msg_buf msg0"
  let ?h = "?l[0 := word_of_nat (?n + 6), 1 := word_of_nat ((?n + 6) div 256), 2 := word_of_int dcmd,
      3 := word_of_nat remaining, 4 := word_of_nat (remaining div 256)]"
  let ?b = "splice ?h 6 pl"
  have fits: "6 + ?n \<le> length ?h" using assms(1,2) by simp
  have run: "signetdev_priv_prepare_message_state SIGNETDEV_DEVICE_HC dcmd remaining (Some pl) ?n msg0
      = Some (msg0\<lparr>msg_size := ?n + 6, msg_packet_seq := 0, msg_packet_count := (?n + 516) div 511, msg_buf := ?b\<rparr>)"
    using assms(1) fits
    by (simp add: signetdev_priv_prepare_message_state_def signetdev_priv_hid_payload_size_def
        signetdev_priv_hid_packet_size_def to_unsigned_def memcpy_to_def nat_add_distrib Let_def add.commute)
  have nth: "?b ! i = ?h ! i" if "i < 6" for i using that fits by (simp add: nth_splice)
  have "rd16 ?b 0 = rd16 (le16 (?n + 6)) 0"
    by (rule rd16_cong) (use nth [of 0] nth [of 1] assms(2) in \<open>simp_all add: le16_def\<close>)
  then have "rd16 ?b 0 = ?n + 6" using assms(1) by (simp add: rd16_le16)
  moreover have "rd16 ?b 3 = rd16 (le16 remaining) 0"
    by (rule rd16_cong) (use nth [of 3] nth [of 4] assms(2) in \<open>simp_all add: le16_def\<close>)
  then have "rd16 ?b 3 = remaining" using assms(3) by (simp add: rd16_le16)
  moreover have "?b ! 2 = word_of_int dcmd" using nth [of 2] assms(2) by simp
  ultimately show ?thesis using that [OF run] fits assms(2) by simp
qed

lemma advance_message_HC:
  assumes "length (msg_buf msg) = MAX_CMD_PACKET_BUF_SIZE" "length (packet_buf msg) = RAW_HID_PACKET_SIZE + 1"
    and "msg_packet_seq msg < msg_packet_count msg" "msg_packet_count msg \<le> 33"
  shows "signetdev_priv_advance_message_state SIGNETDEV_DEVICE_HC msg
    = Some (msg\<lparr>packet_buf := 0 # hid_packet (msg_buf msg) (msg_packet_count msg) (msg_packet_seq msg),
                msg_packet_seq := msg_packet_seq msg + 1\<rparr>)"
proof -
  have k: "msg_packet_seq msg * 511 + 511 \<le> length (msg_buf msg)" using assms by simp
  then have l: "length (slice (msg_buf msg) (msg_packet_seq msg * 511) 511) = 511" by simp
  have "splice (packet_buf msg) 0 ([0, x] @ slice (msg_buf msg) (msg_packet_seq msg * 511) 511)
      = [0, x] @ slice (msg_buf msg) (msg_packet_seq msg * 511) 511" for x
    by (rule splice_all) (use assms(2) l in simp)
  then show ?thesis
    using k assms(2) l
    by (simp add: signetdev_priv_advance_message_state_def signetdev_priv_hid_payload_size_def
        signetdev_priv_hid_packet_size_def to_unsigned_def Let_def hid_packet_def hid_header_def memcpy_to_def
        read_from_def mult.commute)
qed

text \<open>The packets that successive calls produce.\<close>

fun advance_packets :: "nat \<Rightarrow> tx_message_state \<Rightarrow> bytes list option" where
  "advance_packets 0 msg = Some []"
| "advance_packets (Suc n) msg = do {
     msg \<leftarrow> signetdev_priv_advance_message_state SIGNETDEV_DEVICE_HC msg;
     ps \<leftarrow> advance_packets n msg;
     Some (packet_buf msg # ps)
   }"

lemma advance_packets_HC:
  assumes "msg_packet_count msg \<le> 33" "length (msg_buf msg) = MAX_CMD_PACKET_BUF_SIZE"
  shows "length (packet_buf msg) = RAW_HID_PACKET_SIZE + 1 \<Longrightarrow> msg_packet_seq msg + m = msg_packet_count msg \<Longrightarrow>
    advance_packets m msg = Some (map (\<lambda>k. 0 # hid_packet (msg_buf msg) (msg_packet_count msg) k)
      [msg_packet_seq msg..<msg_packet_count msg])"
  using assms
proof (induction m arbitrary: msg)
  case (Suc m)
  let ?k = "msg_packet_seq msg" and ?n = "msg_packet_count msg"
  let ?m = "msg\<lparr>packet_buf := 0 # hid_packet (msg_buf msg) ?n ?k, msg_packet_seq := ?k + 1\<rparr>"
  have k: "?k * 511 + 511 \<le> length (msg_buf msg)" using Suc.prems by simp
  have "advance_packets m ?m = Some (map (\<lambda>k. 0 # hid_packet (msg_buf ?m) (msg_packet_count ?m) k)
      [msg_packet_seq ?m..<msg_packet_count ?m])"
    by (rule Suc.IH) (use Suc.prems k in \<open>simp_all add: hid_packet_def\<close>)
  moreover have "signetdev_priv_advance_message_state SIGNETDEV_DEVICE_HC msg = Some ?m"
    by (rule advance_message_HC) (use Suc.prems in simp_all)
  moreover have "[?k..<?n] = ?k # [?k + 1..<?n]" using Suc.prems by (simp add: upt_conv_Cons)
  ultimately show ?case by simp
qed simp

text \<open>
  C10. A request arrives as it was sent. The host fills its message buffer and cuts it into
  packets; the device receives them one after the other (without the report number the host
  puts in front). The dispatcher is called exactly once, after the last packet, and then the packet buffer of the
  device holds the length, the command, the number of messages that follow and the payload of
  the request, for every payload that fits; nothing else of the device has changed but its
  resumed endpoint.
\<close>

theorem request_transport:
  assumes "length pl \<le> CMD_PACKET_PAYLOAD_SIZE" "remaining < 65536"
    and "length (msg_buf msg0) = CMD_PACKET_BUF_SIZE" "length (packet_buf msg0) = RAW_HID_PACKET_SIZE + 1"
    and "length (cmd_packet_buf s) = CMD_PACKET_BUF_SIZE"
  shows "\<exists>msg ps c x.
      signetdev_priv_prepare_message_state SIGNETDEV_DEVICE_HC dcmd remaining (Some pl) (length pl) msg0 = Some msg
    \<and> advance_packets (msg_packet_count msg) msg = Some ps
    \<and> run_all (map (\<lambda>p. usb_raw_hid_rx recv (tl p)) ps) s = recv (s\<lparr>cmd_packet_buf := c, outs := x\<rparr>)
    \<and> rd16 c 0 = length pl + CMD_PACKET_HEADER_SIZE \<and> c ! 2 = word_of_int dcmd \<and> rd16 c 3 = remaining
    \<and> slice c CMD_PACKET_HEADER_SIZE (length pl) = pl"
proof -
  let ?n = "(length pl + 516) div 511"
  obtain b where b: "signetdev_priv_prepare_message_state SIGNETDEV_DEVICE_HC dcmd remaining (Some pl) (length pl) msg0
      = Some (msg0\<lparr>msg_size := length pl + 6, msg_packet_seq := 0, msg_packet_count := ?n, msg_buf := b\<rparr>)"
    "length b = MAX_CMD_PACKET_BUF_SIZE" "rd16 b 0 = length pl + 6" "b ! 2 = word_of_int dcmd" "rd16 b 3 = remaining"
    "slice b 6 (length pl) = pl"
    by (rule prepare_message_HC [OF assms(1,3,2)])
  let ?msg = "msg0\<lparr>msg_size := length pl + 6, msg_packet_seq := 0, msg_packet_count := ?n, msg_buf := b\<rparr>"
  have n: "0 < ?n" "?n \<le> 33" "length pl + 6 \<le> ?n * 511"
    using packet_count [of "length pl"] assms(1) by simp_all
  have ps: "advance_packets ?n ?msg = Some (map (\<lambda>k. 0 # hid_packet b ?n k) [0..<?n])"
    using advance_packets_HC [of ?msg ?n] n(2) b(2) assms(4) by simp
  have took: "dev_took s b ?n 0 s"
    unfolding dev_took_def using b(2) n(2) assms(5)
    by (intro conjI exI [of _ "cmd_packet_buf s"] exI [of _ "outs s"]) simp_all
  obtain r where r: "dev_took s b ?n (?n - 1) r"
    "rx_packets (usb_raw_hid_rx recv) b ?n ?n s = usb_raw_hid_rx recv (hid_packet b ?n (?n - 1)) r"
    using dev_rx.rx_message [OF took n(1), of recv] by blast
  obtain c x where c: "usb_raw_hid_rx recv (hid_packet b ?n (?n - 1)) r = recv (s\<lparr>cmd_packet_buf := c, outs := x\<rparr>)"
    "dev_took s b ?n ?n (s\<lparr>cmd_packet_buf := c, outs := x\<rparr>)"
    using usb_raw_hid_rx_packet [OF r(1), of recv] n(1) by auto
  have eq: "take (?n * 511) c = take (?n * 511) b" "length c = CMD_PACKET_BUF_SIZE"
    using dev_took_buf [OF c(2)] by simp_all
  have nth: "c ! i = b ! i" if "i < length pl + 6" for i
    using arg_cong [OF eq(1), of "\<lambda>l. l ! i"] that n(3) by simp
  have "rd16 c 0 = rd16 b 0" "rd16 c 3 = rd16 b 3" by (rule rd16_cong; simp add: nth)+
  moreover have "slice c 6 (length pl) = slice b 6 (length pl)"
    by (rule nth_equalityI) (use eq(2) b(2) assms(1) in \<open>simp_all add: nth_slice nth\<close>)
  moreover have "run_all (map (\<lambda>p. usb_raw_hid_rx recv (tl p)) (map (\<lambda>k. 0 # hid_packet b ?n k) [0..<?n])) s
      = recv (s\<lparr>cmd_packet_buf := c, outs := x\<rparr>)"
    using r(2) c(1) by (simp add: rx_packets_def comp_def)
  ultimately show ?thesis
    using b ps nth [of 2]
    by (intro exI [of _ ?msg] exI [of _ "map (\<lambda>k. 0 # hid_packet b ?n k) [0..<?n]"] exI [of _ c] exI [of _ x]) simp
qed

section \<open>Device: sending a response\<close>

lemma tx_packet_eq:
  assumes "length (raw_hid_tx_cmd_packet s) = RAW_HID_PACKET_SIZE"
    and "raw_hid_tx_seq s * RAW_HID_PAYLOAD_SIZE + RAW_HID_PAYLOAD_SIZE \<le> length (cmd_resp s)"
  shows "tx_packet s = hid_packet (cmd_resp s) (raw_hid_tx_count s) (raw_hid_tx_seq s)"
proof -
  have l: "length (slice (cmd_resp s) (raw_hid_tx_seq s * 511) 511) = 511" using assms(2) by simp
  obtain x xs where "raw_hid_tx_cmd_packet s = x # xs" "length xs = 511"
    using assms(1) by (cases "raw_hid_tx_cmd_packet s") simp_all
  then show ?thesis
    using l by (simp add: tx_packet_def hid_packet_def hid_header_def splice_def or.commute)
qed

text \<open>\<open>k\<close> of \<open>n\<close> packets of the response \<open>b\<close> are with the host, the last of them perhaps still on its way.\<close>

definition dev_sending :: "bytes \<Rightarrow> nat \<Rightarrow> nat \<Rightarrow> fw_out list \<Rightarrow> fw \<Rightarrow> bool" where
  "dev_sending b n k x s \<longleftrightarrow>
     cmd_resp s = b \<and> raw_hid_tx_count s = n \<and> raw_hid_tx_seq s = k \<and> length (raw_hid_tx_cmd_packet s) = RAW_HID_PACKET_SIZE
   \<and> event_mask s = 0 \<and> usb_configured s \<and> tx_report s INTERFACE_CMD = None
   \<and> outs s = x @ map (\<lambda>i. Out_report INTERFACE_CMD (hid_packet b n i)) [0..<k]"

lemma send_one:
  assumes s: "dev_sending b n k x s" "k < n" "n \<le> 33" "\<not> hid_busy s INTERFACE_CMD" and b: "length b = CMD_PACKET_BUF_SIZE"
  shows "\<exists>s'. maybe_send_raw_hid_packet sent s = Some s' \<and> dev_sending b n (k + 1) x s'"
proof -
  have len: "raw_hid_tx_seq s * 511 + 511 \<le> length (cmd_resp s)" using s b by (simp add: dev_sending_def)
  have p: "tx_packet s = hid_packet b n k" using tx_packet_eq [OF _ len] s(1) by (simp add: dev_sending_def)
  have lp: "length (hid_packet b n k) = 512" using s(2,3) b by (simp add: hid_packet_def)
  have "maybe_send_raw_hid_packet sent s = do {
     s \<leftarrow> usb_send_bytes INTERFACE_CMD Tx_cmd_packet RAW_HID_PACKET_SIZE (s\<lparr>raw_hid_tx_cmd_packet := tx_packet s\<rparr>);
     Some (s\<lparr>raw_hid_tx_seq := raw_hid_tx_seq s + 1\<rparr>)
   }"
    by (rule maybe_send_raw_hid_packet_eq) (use s len in \<open>simp_all add: dev_sending_def\<close>)
  then show ?thesis
    using s lp p
    by (simp add: dev_sending_def usb_send_bytes_def usb_tx_pending_def USBD_HID_SendReport_def put_out_def
        txbuf_bytes_def)
qed

lemma send_rest:
  assumes "n \<le> 33" "length b = CMD_PACKET_BUF_SIZE"
  shows "dev_sending b n k x s \<Longrightarrow> k + m \<le> n \<Longrightarrow>
    \<exists>s'. run_all (replicate m (dev_step E (Ev_tx INTERFACE_CMD))) s = Some s' \<and> dev_sending b n (k + m) x s'"
proof (induction m arbitrary: k s)
  case (Suc m)
  let ?s = "s\<lparr>hid_busy := (hid_busy s)(INTERFACE_CMD := False)\<rparr>"
  have "dev_sending b n k x ?s" using Suc.prems(1) by (simp add: dev_sending_def)
  then obtain s1 where s1: "maybe_send_raw_hid_packet (cmd_packet_sent E) ?s = Some s1" "dev_sending b n (k + 1) x s1"
    using send_one [of b n k x ?s "cmd_packet_sent E"] Suc.prems(2) assms by auto
  have "dev_step E (Ev_tx INTERFACE_CMD) s = Some s1"
    using s1(1) Suc.prems(1) by (simp add: USBD_HID_DataIn_def hid_data_in_def dev_sending_def)
  then show ?case using Suc.IH [OF s1(2)] Suc.prems(2) by simp
qed simp

lemma response_sent:
  assumes r: "can_respond s" "usb_configured s" "tx_report s INTERFACE_CMD = None" "\<not> hid_busy s INTERFACE_CMD"
    and len: "n \<le> CMD_PACKET_PAYLOAD_SIZE"
  obtains s1 s2 where "cmd_packet_send (n + CMD_PACKET_HEADER_SIZE) s = Some s1"
    "run_all (replicate ((n + 516) div 511 - 1) (dev_step E (Ev_tx INTERFACE_CMD))) s1 = Some s2"
    "outs s2 = outs s @ map (\<lambda>k. Out_report INTERFACE_CMD (hid_packet (cmd_resp s) ((n + 516) div 511) k)) [0..<(n + 516) div 511]"
proof -
  let ?n = "(n + 516) div 511"
  note c = packet_count [OF len]
  have m: "((n + 6) mod 65536 + 511 - 1) div 511 = ?n" using len by (simp add: add.commute)
  have b: "length (cmd_resp s) = CMD_PACKET_BUF_SIZE" using r(1) by (simp add: can_respond_def)
  have "dev_sending (cmd_resp s) ?n 0 (outs s) (sending (n + 6) s)"
    using r m by (simp add: dev_sending_def sending_def can_respond_def)
  then obtain s1 where s1: "maybe_send_raw_hid_packet (\<lambda>_. None) (sending (n + 6) s) = Some s1"
    "dev_sending (cmd_resp s) ?n 1 (outs s) s1"
    using send_one [of "cmd_resp s" ?n 0 "outs s" "sending (n + 6) s" "\<lambda>_. None"] c(1,2) b r(4) by (auto simp: sending_def)
  obtain s2 where s2: "run_all (replicate (?n - 1) (dev_step E (Ev_tx INTERFACE_CMD))) s1 = Some s2"
    "dev_sending (cmd_resp s) ?n (1 + (?n - 1)) (outs s) s2"
    using send_rest [OF c(2) b s1(2), of "?n - 1" E] c(1) by auto
  have "1 + (?n - 1) = ?n" using c(1) by simp
  with s2(2) have "outs s2 = outs s @ map (\<lambda>k. Out_report INTERFACE_CMD (hid_packet (cmd_resp s) ?n k)) [0..<?n]"
    by (simp only: dev_sending_def)
  moreover have "cmd_packet_send (n + 6) s = Some s1" using s1(1) by (simp add: cmd_packet_send_def sending_def)
  ultimately show ?thesis using that s2(1) by blast
qed

section \<open>Host: \<open>signetdev_priv_process_rx_packet\<close>\<close>

text \<open>
  \<open>b\<close> is the response with its header, cut into \<open>n\<close> packets, to the message \<open>m\<close> with a response
  buffer; \<open>h\<close> is the host before the first packet.
\<close>

definition resp_size :: "bytes \<Rightarrow> nat" where
  "resp_size b = rd16 b 0 - CMD_PACKET_HEADER_SIZE"

definition resp_ok :: "bytes \<Rightarrow> nat \<Rightarrow> send_message_req \<Rightarrow> host \<Rightarrow> bool" where
  "resp_ok b n m h \<longleftrightarrow>
     length b = CMD_PACKET_BUF_SIZE \<and> CMD_PACKET_HEADER_SIZE \<le> rd16 b 0 \<and> resp_size b \<le> CMD_PACKET_PAYLOAD_SIZE
   \<and> n = (resp_size b + 516) div 511 \<and> g_device_type h = SIGNETDEV_DEVICE_HC \<and> get_resp m
   \<and> resp_size b \<le> length (s_async_resp h) \<and> 505 \<le> length (s_async_resp h)"

definition rx_started :: "bytes \<Rightarrow> send_message_req \<Rightarrow> rx_message_state" where
  "rx_started b m = \<lparr>expected_resp_size = resp_size b, expected_messages_remaining = rd16 b 3,
     rx_message = Some (m\<lparr>end_device_state := int (unat (b ! 5))\<rparr>)\<rparr>"

definition host_with :: "bytes \<Rightarrow> bytes \<Rightarrow> host \<Rightarrow> host" where
  "host_with b r h = h\<lparr>s_async_resp := r, s_async_resp_code := int (unat (b ! 2))\<rparr>"

definition host_took :: "send_message_req \<Rightarrow> host \<Rightarrow> bytes \<Rightarrow> nat \<Rightarrow> nat \<Rightarrow> rx_message_state \<times> host \<Rightarrow> bool" where
  "host_took m h b n k sh \<longleftrightarrow>
     resp_ok b n m h
   \<and> (if k = 0 then rx_message (fst sh) = Some m \<and> snd sh = h
      else fst sh = rx_started b m \<and> (\<exists>r. snd sh = host_with b r h \<and> length r = length (s_async_resp h)
        \<and> (\<forall>i. i < resp_size b \<longrightarrow> i + 6 < k * 511 \<longrightarrow> r ! i = b ! (i + 6))))"

text \<open>What the last packet makes of the complete response.\<close>

definition host_deliver :: "bytes \<Rightarrow> bytes \<Rightarrow> send_message_req \<Rightarrow> host \<Rightarrow> (rx_message_state \<times> host) option" where
  "host_deliver g b m h =
     (let m = m\<lparr>end_device_state := int (unat (b ! 5))\<rparr>
      in if rd16 b 3 = 0
         then map_option (\<lambda>h. ((rx_started b m)\<lparr>rx_message := None\<rparr>, h))
                (signetdev_priv_finalize_message g m (int (resp_size b)) h)
         else map_option (\<lambda>h. (rx_started b m, h))
                (signetdev_priv_message_send_resp g m (int (resp_size b)) (rd16 b 3) h))"

lemma rx_started_simps:
  "expected_resp_size (rx_started b m) = resp_size b" "expected_messages_remaining (rx_started b m) = rd16 b 3"
  "rx_message (rx_started b m) = Some (m\<lparr>end_device_state := int (unat (b ! 5))\<rparr>)"
  "rx_started b (m\<lparr>end_device_state := e\<rparr>) = rx_started b m"
  by (simp_all add: rx_started_def)

lemma started:
  "st\<lparr>expected_resp_size := resp_size b, expected_messages_remaining := rd16 b 3,
     rx_message := Some (m\<lparr>end_device_state := int (unat (b ! 5))\<rparr>)\<rparr> = rx_started b m"
  by (cases st) (simp add: rx_started_def)

lemma host_first_packet:
  assumes ok: "resp_ok b n m h" and st: "rx_message st = Some m" and n: "0 < n"
  shows "\<exists>r. signetdev_priv_process_rx_packet g (hid_packet b n 0) (st, h) =
      (if n = 1 then host_deliver g b m (host_with b r h) else Some (rx_started b m, host_with b r h))
    \<and> length r = length (s_async_resp h) \<and> (\<forall>i. i < resp_size b \<longrightarrow> i + 6 < 511 \<longrightarrow> r ! i = b ! (i + 6))"
proof -
  let ?d = "slice b 0 511"
  have b: "length b = CMD_PACKET_BUF_SIZE" and L: "rd16 b 0 = resp_size b + 6" "resp_size b \<le> 16391"
    using ok by (simp_all add: resp_ok_def resp_size_def)
  have d: "?d ! i = b ! i" if "i < 511" for i using nth_slice [of i 511 0 b] that b by simp
  have r0: "rd16 ?d 0 = rd16 b 0" "rd16 ?d 3 = rd16 b 3" by (rule rd16_cong; simp add: d)+
  let ?r = "splice (s_async_resp h) 0 (slice ?d 6 505)"
  have ld: "length (slice ?d 6 505) = 505" using b by simp
  have cp: "memcpy_to (s_async_resp h) 0 (slice ?d 6 505) = Some ?r"
    using ok ld by (simp add: resp_ok_def memcpy_to_def)
  have lr: "length ?r = length (s_async_resp h)" using ok ld by (simp add: resp_ok_def)
  have nth: "?r ! i = b ! (i + 6)" if "i + 6 < 511" for i
    using that ok ld b d [of "i + 6"] by (simp add: nth_splice nth_slice resp_ok_def add.commute)
  have size: "to_unsigned (int (rd16 b 0) - int CMD_PACKET_HEADER_SIZE) = resp_size b"
    using L by (simp add: to_unsigned_def)
  have hdr: "hid_packet b n 0 ! 0 = hid_header n 0" "drop RAW_HID_HEADER_SIZE (hid_packet b n 0) = ?d"
    by (simp_all add: hid_packet_def)
  have q: "unat (hid_header n 0 AND 0x7f) = 0" "(unat (drop_bit 7 (hid_header n 0)) \<noteq> 0) = (n = 1)"
    using hid_header_seq [of 0 n] hid_header_last(2) [of 0 n] by auto
  have p: "nat (signetdev_priv_hid_payload_size (g_device_type h)) = 511" "511 - CMD_PACKET_HEADER_SIZE = 505"
    using ok by (simp_all add: resp_ok_def signetdev_priv_hid_payload_size_def signetdev_priv_hid_packet_size_def)
  have zero_neq: "((0 :: nat) = 0x7f) = False" by simp
  have gr: "(if get_resp (m\<lparr>end_device_state := e\<rparr>) then Some () else None) = Some ()" for e
    using ok by (simp add: resp_ok_def)
  have d5: "?d ! 5 = b ! 5" "?d ! 2 = b ! 2" by (simp_all add: d)
  have L2: "to_signed (resp_size b) = int (resp_size b)" using L(2) by simp
  have "signetdev_priv_process_rx_packet g (hid_packet b n 0) (st, h) =
      (if n = 1 then host_deliver g b m (host_with b ?r h) else Some (rx_started b m, host_with b ?r h))"
    unfolding signetdev_priv_process_rx_packet_def Let_def prod.case hdr q p if_True simp_thms if_False zero_neq st option.case
      gr Option.bind.bind_lunit cp size r0 d5 started rx_started_simps not_not
    by (simp add: host_deliver_def host_with_def Let_def L2 rx_started_simps)
  then show ?thesis using lr nth by blast
qed

lemma host_next_packet:
  assumes ok: "resp_ok b n m h" and k: "0 < k" "k < n" and r: "length r = length (s_async_resp h)"
    and got: "\<And>i. i < resp_size b \<Longrightarrow> i + 6 < k * 511 \<Longrightarrow> r ! i = b ! (i + 6)"
  shows "\<exists>r'. signetdev_priv_process_rx_packet g (hid_packet b n k) (rx_started b m, host_with b r h) =
      (if k + 1 = n then host_deliver g b m (host_with b r' h) else Some (rx_started b m, host_with b r' h))
    \<and> length r' = length (s_async_resp h)
    \<and> (\<forall>i. i < resp_size b \<longrightarrow> i + 6 < (k + 1) * 511 \<longrightarrow> r' ! i = b ! (i + 6))"
proof -
  let ?L = "resp_size b" and ?off = "511 * k - 6" and ?d = "slice b (k * 511) 511"
  have b: "length b = CMD_PACKET_BUF_SIZE" and L: "?L \<le> 16391" and n: "n = (?L + 516) div 511" and h: "?L \<le> length r"
    using ok r by (simp_all add: resp_ok_def)
  have "k \<le> n - 1" using k by simp
  then have "k * 511 \<le> (n - 1) * 511" by simp
  moreover have "(n - 1) * 511 < ?L + 6" using packet_count(4) [OF L] n by simp
  ultimately have kL: "k * 511 < ?L + 6" by simp
  have k32: "k \<le> 32" using k(2) packet_count(2) [OF L] n by simp
  have off: "?off < ?L" "?off + 6 = k * 511" using kL k(1) by (simp_all add: mult.commute)
  define m' where "m' = (if ?off + 511 > ?L then ?L - ?off else 511)"
  have m': "0 < m'" "m' \<le> 511" "?off + m' \<le> ?L" "?off + m' = min ?L (?off + 511)" using off(1) by (auto simp: m'_def)
  have d: "?d ! i = b ! (k * 511 + i)" if "i < 511" for i using nth_slice [of i 511 "k * 511" b] that b k32 by simp
  have dl: "length ?d = 511" using b k32 by simp
  let ?r = "splice r ?off (slice ?d 0 m')"
  have sl: "length (slice ?d 0 m') = m'" using dl m'(2) by simp
  have cp: "memcpy_to r ?off (slice ?d 0 m') = Some ?r" using sl m'(3) h by (simp add: memcpy_to_def)
  have lr: "length ?r = length (s_async_resp h)" using sl m'(3) h r by simp
  have nth: "?r ! i = b ! (i + 6)" if i: "i < ?L" "i + 6 < (k + 1) * 511" for i
  proof (cases "i < ?off")
    case True
    then show ?thesis using got [OF i(1)] off(2) sl m'(3) h i(1) by (simp add: nth_splice)
  next
    case False
    then have j: "?off \<le> i" "i - ?off < m'" "i < ?off + m'" using i off(2) m'(4) by auto
    have "?r ! i = slice ?d 0 m' ! (i - ?off)"
      by (rule nth_splice_in) (use j m'(3) h sl in simp_all)
    also have "\<dots> = ?d ! (i - ?off)" using j(2) m'(2) dl nth_slice [of "i - ?off" m' 0 ?d] by simp
    also have "\<dots> = b ! (i + 6)" using d [of "i - ?off"] j m'(2) off(2) by simp
    finally show ?thesis .
  qed
  have q: "unat (hid_header n k AND 0x7f) = k" "(unat (drop_bit 7 (hid_header n k)) \<noteq> 0) = (k + 1 = n)"
    using hid_header_seq [of k n] hid_header_last(2) [of k n] k32 by auto
  have p: "nat (signetdev_priv_hid_payload_size (g_device_type (host_with b r h))) = 511"
    using ok by (simp add: resp_ok_def host_with_def signetdev_priv_hid_payload_size_def signetdev_priv_hid_packet_size_def)
  have hdr: "hid_packet b n k ! 0 = hid_header n k" "drop RAW_HID_HEADER_SIZE (hid_packet b n k) = ?d"
    by (simp_all add: hid_packet_def)
  have neq: "(k = 0x7f) = False" "(k = 0) = False" using k(1) k32 by simp_all
  have rd: "(if ?off + 511 > ?L then to_unsigned (int ?L - int ?off) else 511) = m'"
    using off(1) L by (simp add: m'_def to_unsigned_def flip: of_nat_diff)
  have big: "(m' = 0) = False" "(m' > 511 \<or> \<not> get_resp (m\<lparr>end_device_state := e\<rparr>)) = False" for e
    using m'(1,2) ok by (simp_all add: resp_ok_def)
  have w: "s_async_resp (host_with b r h) = r" "(host_with b r h)\<lparr>s_async_resp := x\<rparr> = host_with b x h" for x
    by (simp_all add: host_with_def)
  have L2: "to_signed ?L = int ?L" using L by simp
  have "signetdev_priv_process_rx_packet g (hid_packet b n k) (rx_started b m, host_with b r h) =
      (if k + 1 = n then host_deliver g b m (host_with b ?r h) else Some (rx_started b m, host_with b ?r h))"
    unfolding signetdev_priv_process_rx_packet_def Let_def prod.case hdr q p neq if_False rx_started_simps option.case rd big
      w cp Option.bind.bind_lunit
    by (simp add: host_deliver_def Let_def L2 rx_started_simps)
  then show ?thesis using lr nth by blast
qed

lemma host_rx_packet:
  assumes "host_took m h b n k sh" "k < n"
  shows "\<exists>r. signetdev_priv_process_rx_packet g (hid_packet b n k) sh =
      (if k + 1 = n then host_deliver g b m (host_with b r h) else Some (rx_started b m, host_with b r h))
    \<and> host_took m h b n (k + 1) (rx_started b m, host_with b r h)"
proof (cases "k = 0")
  case True
  obtain st where sh: "sh = (st, h)" "rx_message st = Some m" "resp_ok b n m h"
    using assms True by (cases sh) (simp add: host_took_def)
  show ?thesis
    using host_first_packet [OF sh(3,2), of g] assms(2) True sh by (auto simp: host_took_def)
next
  case False
  obtain r where r: "sh = (rx_started b m, host_with b r h)" "length r = length (s_async_resp h)" "resp_ok b n m h"
    "\<And>i. i < resp_size b \<Longrightarrow> i + 6 < k * 511 \<Longrightarrow> r ! i = b ! (i + 6)"
    using assms False by (cases sh) (auto simp: host_took_def)
  show ?thesis
    using host_next_packet [OF r(3) _ assms(2) r(2) r(4), of g] False r(1,3) by (auto simp: host_took_def)
qed

interpretation host_rx: packet_receiver "signetdev_priv_process_rx_packet g" "host_took m h" for g m h
proof
  fix b n k sh assume "host_took m h b n k sh" "k + 1 < n"
  then show "\<exists>sh'. signetdev_priv_process_rx_packet g (hid_packet b n k) sh = Some sh' \<and> host_took m h b n (k + 1) sh'"
    using host_rx_packet [of m h b n k sh g] by auto
qed

section \<open>A response arrives as it was sent\<close>

text \<open>The fields of the response buffer that the device fills.\<close>

lemma response_buf_fields:
  assumes "response_buf resp remaining (Some p) n s = Some b" "length (cmd_resp s) = CMD_PACKET_BUF_SIZE"
    and "n \<le> CMD_PACKET_PAYLOAD_SIZE" "0 \<le> remaining" "remaining < 65536"
  shows "length b = CMD_PACKET_BUF_SIZE" "rd16 b 0 = n + CMD_PACKET_HEADER_SIZE" "unat (b ! 2) = resp_code resp"
    "rd16 b 3 = nat remaining" "unat (b ! 5) = ds_code (g_device_state s)" "slice b CMD_PACKET_HEADER_SIZE n = take n p"
proof -
  let ?f = "n + CMD_PACKET_HEADER_SIZE"
  let ?h = "[word_of_nat ?f, word_of_nat (?f div 256), word_of_nat (resp_code resp), lo8 remaining, hi8 remaining,
      word_of_nat (ds_code (g_device_state s))] :: bytes"
  let ?c = "splice (cmd_resp s) 0 ?h"
  have c: "length ?c = CMD_PACKET_BUF_SIZE" using assms(2) by simp
  have b: "b = splice ?c 6 (take n p)" "n \<le> length p"
    using assms(1) c by (auto simp: response_buf_def slice_def bind_eq_Some_conv)
  have lt: "length (take n p) = n" using b(2) by simp
  show l: "length b = CMD_PACKET_BUF_SIZE" using b c lt assms(3) by simp
  have nth: "b ! i = ?h ! i" if "i < 6" for i
  proof -
    have "b ! i = ?c ! i" unfolding b(1) using that c lt assms(3) by (simp add: nth_splice)
    also have "\<dots> = ?h ! i" using nth_splice_in [of 0 i ?h "cmd_resp s"] that assms(2) by simp
    finally show ?thesis .
  qed
  have "rd16 b 0 = rd16 (le16 ?f) 0" by (rule rd16_cong) (use nth [of 0] nth [of 1] in \<open>simp_all add: le16_def\<close>)
  then show "rd16 b 0 = n + CMD_PACKET_HEADER_SIZE" using assms(3) by (simp add: rd16_le16)
  show "unat (b ! 2) = resp_code resp" using nth [of 2] by (cases resp) (simp_all add: unat_of_nat)
  have "remaining = int (nat remaining)" using assms(4) by simp
  then have "lo8 remaining = word_of_nat (nat remaining)" "hi8 remaining = word_of_nat (nat remaining div 256)"
    unfolding lo8_def hi8_def by (metis of_int_of_nat_eq, metis of_int_of_nat_eq of_nat_numeral zdiv_int)
  then have "rd16 b 3 = rd16 (le16 (nat remaining)) 0"
    by (intro rd16_cong) (use nth [of 3] nth [of 4] in \<open>simp_all add: le16_def\<close>)
  then show "rd16 b 3 = nat remaining" using assms(4,5) by (simp add: rd16_le16)
  show "unat (b ! 5) = ds_code (g_device_state s)"
    using nth [of 5] by (cases "g_device_state s") (simp_all add: unat_of_nat)
  show "slice b CMD_PACKET_HEADER_SIZE n = take n p"
    unfolding b(1) using c lt assms(3) by simp
qed

text \<open>
  C9. A response arrives as the device sent it. The device fills its response buffer and sends
  it in packets, one for each time the host fetches one; the host processes the packets in the
  order they were sent. It then delivers, exactly once and after the last packet, the response
  code, the device state, the number of responses that follow and the payload of the device,
  for every payload that fits.
\<close>

theorem response_transport:
  assumes buf: "response_buf resp remaining (Some p) n s = Some b" "n \<le> CMD_PACKET_PAYLOAD_SIZE" "0 \<le> remaining" "remaining < 65536"
    and dev: "can_respond s" "usb_configured s" "tx_report s INTERFACE_CMD = None" "\<not> hid_busy s INTERFACE_CMD"
    and host: "g_device_type h = SIGNETDEV_DEVICE_HC" "rx_message st = Some m" "get_resp m"
      "n \<le> length (s_async_resp h)" "505 \<le> length (s_async_resp h)"
  shows "\<exists>s1 s2 packets r.
      cmd_packet_send (n + CMD_PACKET_HEADER_SIZE) (s\<lparr>cmd_resp := b\<rparr>) = Some s1
    \<and> run_all (replicate (length packets - 1) (dev_step E (Ev_tx INTERFACE_CMD))) s1 = Some s2
    \<and> outs s2 = outs s @ map (Out_report INTERFACE_CMD) packets
    \<and> run_all (map (signetdev_priv_process_rx_packet g) packets) (st, h) = host_deliver g b m (host_with b r h)
    \<and> unat (b ! 2) = resp_code resp \<and> unat (b ! 5) = ds_code (g_device_state s) \<and> rd16 b 3 = nat remaining
    \<and> resp_size b = n \<and> slice r 0 n = take n p"
proof -
  have cl: "length (cmd_resp s) = CMD_PACKET_BUF_SIZE" using dev(1) by (simp add: can_respond_def)
  note f = response_buf_fields [OF buf(1) cl buf(2-4)]
  have size: "resp_size b = n" using f(2) by (simp add: resp_size_def)
  let ?N = "(n + 516) div 511" and ?s = "s\<lparr>cmd_resp := b\<rparr>"
  let ?ps = "map (hid_packet b ?N) [0..<?N]"
  have N: "0 < ?N" using packet_count(1) [OF buf(2)] .
  have cs: "can_respond ?s" using dev(1) f(1) by (simp add: can_respond_def)
  obtain s1 s2 where s12: "cmd_packet_send (n + CMD_PACKET_HEADER_SIZE) ?s = Some s1"
    "run_all (replicate (?N - 1) (dev_step E (Ev_tx INTERFACE_CMD))) s1 = Some s2"
    "outs s2 = outs ?s @ map (\<lambda>k. Out_report INTERFACE_CMD (hid_packet (cmd_resp ?s) ?N k)) [0..<?N]"
    by (rule response_sent [OF cs _ _ _ buf(2), of E]) (use dev in simp_all)
  have ok: "resp_ok b ?N m h" using f(1,2) size buf(2) host by (simp add: resp_ok_def)
  have took: "host_took m h b ?N 0 (st, h)" using ok host(2) by (simp add: host_took_def)
  obtain sh where sh: "host_took m h b ?N (?N - 1) sh"
    "rx_packets (signetdev_priv_process_rx_packet g) b ?N ?N (st, h) = signetdev_priv_process_rx_packet g (hid_packet b ?N (?N - 1)) sh"
    using host_rx.rx_message [OF took N, of g] by blast
  obtain r where r: "signetdev_priv_process_rx_packet g (hid_packet b ?N (?N - 1)) sh = host_deliver g b m (host_with b r h)"
    "host_took m h b ?N ?N (rx_started b m, host_with b r h)"
    using host_rx_packet [OF sh(1), of g] N by auto
  have run: "run_all (map (signetdev_priv_process_rx_packet g) ?ps) (st, h) = host_deliver g b m (host_with b r h)"
    using sh(2) r(1) by (simp add: rx_packets_def comp_def)
  have "?N \<noteq> 0" using N by simp
  then obtain r' where r': "host_with b r h = host_with b r' h" "length r' = length (s_async_resp h)"
    "\<And>i. i < resp_size b \<Longrightarrow> i + 6 < ?N * 511 \<Longrightarrow> r' ! i = b ! (i + 6)"
    using r(2) by (auto simp: host_took_def)
  have rr: "r = r'" using arg_cong [OF r'(1), of s_async_resp] by (simp add: host_with_def)
  have "slice r 0 n = slice b 6 n"
  proof (rule nth_equalityI)
    show "length (slice r 0 n) = length (slice b 6 n)" using r'(2) rr host(4) f(1) buf(2) by simp
    fix i assume "i < length (slice r 0 n)"
    then have i: "i < n" using r'(2) rr host(4) by simp
    then have "r ! i = b ! (i + 6)" using r'(3) rr size packet_count(3) [OF buf(2)] by simp
    then show "slice r 0 n ! i = slice b 6 n ! i"
      using i r'(2) rr host(4) f(1) buf(2) by (simp add: nth_slice add.commute)
  qed
  then show ?thesis
    using s12 run f size
    by (intro exI [of _ s1] exI [of _ s2] exI [of _ ?ps] exI [of _ r]) (simp add: comp_def)
qed

definition req_example :: send_message_req where
  "req_example = \<lparr>dev_cmd = READ_BLOCK_HC, api_cmd = SIGNETDEV_CMD_READ_BLOCK, payload = None, payload_size = 0,
     messages_remaining = 0, get_resp = True, user = 0, token = 1, interrupt = False, end_device_state = 0\<rparr>"

definition host_example :: host where
  "host_example = \<lparr>g_device_type = SIGNETDEV_DEVICE_HC, token_ctr = 1, s_async_resp = zeros CMD_PACKET_BUF_SIZE,
     s_async_resp_code = 0, issued = [], events = [], has_resp_cb = True, has_event_cb = True\<rparr>"

theorem request_transport_witness:
  "\<exists>c x ps. run_all (map (\<lambda>p. usb_raw_hid_rx Some (tl p)) ps) fw_reset = Some (fw_reset\<lparr>cmd_packet_buf := c, outs := x\<rparr>)
    \<and> rd16 c 0 = 1006 \<and> slice c 6 1000 = replicate 1000 7"
  using request_transport [of "replicate 1000 7" 0 "\<lparr>msg_buf = zeros CMD_PACKET_BUF_SIZE, packet_buf = zeros 513,
      msg_size = 0, msg_packet_seq = 0, msg_packet_count = 0\<rparr>" fw_reset 31 Some]
  by (simp add: fw_reset_def) blast

theorem response_transport_witness:
  "\<exists>packets b r. run_all (map (signetdev_priv_process_rx_packet []) packets)
       (\<lparr>expected_resp_size = 0, expected_messages_remaining = 0, rx_message = Some req_example\<rparr>, host_example)
     = host_deliver [] b req_example (host_with b r host_example)
    \<and> unat (b ! 2) = resp_code OKAY \<and> slice r 0 600 = replicate 600 7"
proof -
  let ?s = "fw_reset\<lparr>usb_configured := True\<rparr>"
  have s: "can_respond ?s" "usb_configured ?s" "tx_report ?s INTERFACE_CMD = None" "\<not> hid_busy ?s INTERFACE_CMD"
    using can_respond_reset by (simp_all add: can_respond_def) (simp_all add: fw_reset_def)
  obtain b where "response_buf OKAY 0 (Some (replicate 600 7)) 600 ?s = Some b"
    using response_buf_total [of ?s 600 "Some (replicate 600 7)" OKAY 0] s(1) by (auto simp: can_respond_def)
  then show ?thesis
    using response_transport [OF _ _ _ _ s, of OKAY 0 "replicate 600 7" 600 b host_example _ req_example env_example "[]",
        where st = "\<lparr>expected_resp_size = 0, expected_messages_remaining = 0, rx_message = Some req_example\<rparr>"]
    by (simp add: host_example_def req_example_def) blast
qed

section \<open>What has been answered\<close>

definition answered :: "command_responses \<Rightarrow> bytes \<Rightarrow> fw \<Rightarrow> bool" where
  "answered resp p s \<longleftrightarrow>
     rd16 (cmd_resp s) 0 = length p + CMD_PACKET_HEADER_SIZE \<and> unat (cmd_resp s ! 2) = resp_code resp
   \<and> slice (cmd_resp s) CMD_PACKET_HEADER_SIZE (length p) = p"

lemma cmd_packet_send_resp:
  assumes "can_respond s" "0 < n" "n < 65536" "cmd_packet_send n s = Some s'"
  shows "cmd_resp s' = cmd_resp s"
proof -
  have "cmd_packet_send n s = do {
     s \<leftarrow> usb_send_bytes INTERFACE_CMD Tx_cmd_packet RAW_HID_PACKET_SIZE
           ((sending n s)\<lparr>raw_hid_tx_cmd_packet := tx_packet (sending n s)\<rparr>);
     Some (s\<lparr>raw_hid_tx_seq := raw_hid_tx_seq s + 1\<rparr>)
   }"
    unfolding cmd_packet_send_def sending_def [symmetric]
    by (rule maybe_send_raw_hid_packet_eq) (use assms(1-3) in \<open>simp_all add: sending_def can_respond_def\<close>)
  then show ?thesis
    using assms(4)
    by (auto simp: usb_send_bytes_def USBD_HID_SendReport_def put_out_def sending_def split: if_splits)
qed

lemma idle_check_resp: "subsystem_idle_check s = Some s' \<Longrightarrow> cmd_resp s' = cmd_resp s"
  by (auto simp: subsystem_idle_check_def release_device_request_def release_device_def put_out_def split: if_splits)

lemma finish_answered:
  assumes "can_respond s" "n \<le> CMD_PACKET_PAYLOAD_SIZE" "n \<le> length p"
  obtains t where "finish_command resp (Some p) n s = Some t" "answered resp (take n p) t"
proof -
  obtain b where b: "response_buf resp 0 (Some p) n s = Some b" "length b = CMD_PACKET_BUF_SIZE"
    using response_buf_total [of s n "Some p" resp 0] assms by (auto simp: can_respond_def)
  have cl: "length (cmd_resp s) = CMD_PACKET_BUF_SIZE" using assms(1) by (simp add: can_respond_def)
  note f = response_buf_fields [OF b(1) cl assms(2)]
  have c: "can_respond (responding 0 b s)" using assms(1) b(2) by (simp add: responding_def can_respond_def Let_def)
  have n6: "0 < n + 6" "n + 6 < 65536" using assms(2) by simp_all
  obtain s1 where s1: "cmd_packet_send (n + 6) (responding 0 b s) = Some s1"
    using cmd_packet_send_total [OF c n6] by blast
  obtain t where t: "subsystem_idle_check s1 = Some t" using subsystem_idle_check_total by blast
  have "cmd_resp t = b"
    using idle_check_resp [OF t] cmd_packet_send_resp [OF c n6 s1] by (simp add: responding_def Let_def)
  moreover have "finish_command resp (Some p) n s = Some t"
    by (simp add: finish_command_def finish_multi_eq b(1) s1 t)
  ultimately show ?thesis using that [of t] f assms(3) by (simp add: answered_def)
qed

lemma finish_resp_answered:
  assumes "can_respond s"
  obtains t where "finish_command_resp resp s = Some t" "answered resp [] t"
proof -
  have e: "response_buf resp 0 None 0 s = response_buf resp 0 (Some []) 0 s"
    using assms by (simp add: response_buf_def can_respond_def memcpy_to_def read_from_def slice_def splice_def)
  have "finish_command_resp resp s = finish_command resp (Some []) 0 s"
    by (simp add: finish_command_resp_def finish_command_def finish_multi_eq e)
  then show ?thesis using finish_answered [OF assms, of 0 "[]" resp] that by auto
qed

end
