(* ===== verification/Db_Commit.thy ===== *)
theory Db_Commit
  imports Db_Refine Transport
begin

text \<open>
  The commands on records from the request to the response: \<open>update_uid_cmd\<close> prepares the
  block, the user confirms it with the button, the block is written to the eMMC, its completion
  updates the tables and answers. Over all of it the abstract database of \<open>Db_Refine\<close>
  changes at the uid of the request alone.
\<close>

interpretation vcore: quiet db_core
  by unfold_locales (simp_all add: db_core_def)

interpretation vtrans: button_frame "\<lambda>s. (db_core s, d_update s, block_read_cache s, block_read_cache_idx s,
    block_read_cache_updating s, g_emmc_user s, g_emmc_user_ready s, g_root_block_sync_state s)"
  by unfold_locales (simp_all add: db_core_def)

text \<open>The device can start a transfer and answer.\<close>

definition io_ready :: "fw \<Rightarrow> bool" where
  "io_ready s \<longleftrightarrow> g_emmc_user s = EMMC_USER_NONE \<and> (\<forall>u. \<not> g_emmc_user_ready s u)
     \<and> \<not> block_read_cache_updating s \<and> g_root_block_sync_state s \<noteq> ROOT_BLOCK_WRITING \<and> can_respond s"

text \<open>The answer of the user, when one is waited for.\<close>

definition confirm :: "env \<Rightarrow> action" where
  "confirm E s =
     (if waiting_for_button_press s then button_press E s
      else if waiting_for_long_button_press s then long_button_press E s
      else Some s)"

text \<open>The transfer ends and \<open>command_idle\<close> sees it.\<close>

definition transfer_done :: "env \<Rightarrow> action" where
  "transfer_done E = run_all [\<lambda>s. Some (mmc_tx_done s), idle_mmc_tx, idle_write_db E]"

section \<open>The write of the block\<close>

definition completed_block :: "env \<Rightarrow> update_data \<Rightarrow> bytes" where
  "completed_block E u =
     (if bi_occupied (up_blk_info u) then blk_set_crc (block_crc E (up_block u)) (up_block u) else up_block u)"

lemma emmc_queue_idle:
  assumes "g_emmc_user s = EMMC_USER_NONE" "\<not> g_emmc_user_ready s EMMC_USER_DB"
  shows "emmc_user_queue EMMC_USER_DB s = Some (emmc_user_db_start
           (s\<lparr>g_emmc_user := EMMC_USER_DB, g_emmc_user_ready := (g_emmc_user_ready s)(EMMC_USER_DB := False)\<rparr>))"
  using assms by (simp add: emmc_user_queue_def emmc_user_schedule_def emmc_take_def)

lemma can_respond_cong:
  assumes "event_mask s = event_mask t" "tx_report s = tx_report t" "hid_busy s = hid_busy t"
    "cmd_resp s = cmd_resp t" "raw_hid_tx_cmd_packet s = raw_hid_tx_cmd_packet t"
  shows "can_respond s = can_respond t"
  using assms by (simp add: can_respond_def)

text \<open>What is left of the state while the block is on its way.\<close>

definition writing_block :: "fw \<Rightarrow> update_data \<Rightarrow> fw \<Rightarrow> bool" where
  "writing_block s u t \<longleftrightarrow>
     db_core t = db_core s \<and> d_update t = u \<and> active_cmd t = active_cmd s \<and> can_respond t
   \<and> g_emmc_user t = EMMC_USER_DB \<and> \<not> g_emmc_user_ready t EMMC_USER_DB
   \<and> g_db_write_idx t = up_block_num u \<and> g_db_write_src t = Buf_update_block
   \<and> g_root_block_sync_state t \<noteq> ROOT_BLOCK_WRITING
   \<and> block_read_cache_idx t \<noteq> up_block_num u
   \<and> (block_read_cache_idx t \<noteq> 65535 \<longrightarrow>
        block_read_cache_idx t = block_read_cache_idx s \<and> block_read_cache t = block_read_cache s)"

lemma update_uid_cmd_complete_writes:
  assumes r: "io_ready s" and i: "data_block (up_block_num (d_update s))"
  obtains t where "update_uid_cmd_complete E s = Some t"
    "writing_block s ((d_update s)\<lparr>up_block := completed_block E (d_update s)\<rparr>) t"
    "waiting_for_button_press t = waiting_for_button_press s" "waiting_for_long_button_press t = waiting_for_long_button_press s"
    "block_read_cache_updating t = block_read_cache_updating s"
proof -
  let ?u = "(d_update s)\<lparr>up_block := completed_block E (d_update s)\<rparr>" and ?i = "up_block_num (d_update s)"
  let ?s0 = "s\<lparr>d_update := ?u\<rparr>"
  let ?s1 = "invalidate_data_block_cache ?i ?s0"
  let ?s2 = "?s1\<lparr>g_db_action := DB_ACTION_WRITE, g_db_write_idx := ?i, g_db_write_src := Buf_update_block\<rparr>"
  let ?t = "emmc_user_db_start
     (?s2\<lparr>g_emmc_user := EMMC_USER_DB, g_emmc_user_ready := (g_emmc_user_ready ?s2)(EMMC_USER_DB := False)\<rparr>)"
  have i0: "?i \<noteq> 0" "?i \<noteq> 65535" using i by (auto simp: data_block_def)
  have s0: "(if bi_occupied (up_blk_info (d_update s))
      then upd_update (\<lambda>u. u\<lparr>up_block := blk_set_crc (block_crc E (up_block u)) (up_block u)\<rparr>) s
      else s) = ?s0"
    by (simp add: completed_block_def upd_update_def)
  have c: "update_uid_cmd_complete E s = Some ?t"
    unfolding update_uid_cmd_complete_def Let_def s0 write_data_block_def
    using i0 r by (simp add: emmc_queue_idle io_ready_def invalidate_data_block_cache_def)
  have "writing_block s ?u ?t"
    using r i0 unfolding writing_block_def io_ready_def
    by (simp add: emmc_user_db_start_def invalidate_data_block_cache_def put_out_def db_core_def can_respond_def)
  moreover have "waiting_for_button_press ?t = waiting_for_button_press s"
    "waiting_for_long_button_press ?t = waiting_for_long_button_press s"
    "block_read_cache_updating ?t = block_read_cache_updating s"
    by (simp_all add: emmc_user_db_start_def invalidate_data_block_cache_def put_out_def)
  ultimately show ?thesis using c by (intro that)
qed

section \<open>The completion\<close>

text \<open>The state in which the response is sent.\<close>

definition tables_updated :: "fw \<Rightarrow> fw" where
  "tables_updated s =
     (let u = d_update s
      in s\<lparr>g_block_info_tbl := (g_block_info_tbl s)(up_block_num u := up_blk_info u),
           uid_map := (uid_map s)(up_uid u := (if up_sz u = 0 then INVALID_BLOCK else up_block_num u))\<rparr>)"

lemma update_written_once:
  assumes "up_write_count (d_update s) = 0" "data_block (up_block_num (d_update s))" "data_uid (up_uid (d_update s))"
    and "up_prev_block_num (d_update s) = INVALID_BLOCK \<or> up_prev_block_num (d_update s) = up_block_num (d_update s)"
  shows "update_uid_cmd_write_finished E s
     = finish_command_resp OKAY (tables_updated (upd_update (\<lambda>u. u\<lparr>up_write_count := 1\<rparr>) s))"
  using assms
  by (auto simp: update_uid_cmd_write_finished_def Let_def set_block_info_def set_uid_map_def tables_updated_def
      data_block_def data_uid_def upd_update_def)

text \<open>The observations that the transaction needs and that the scheduler leaves alone.\<close>

lemma emmc_done_frame [simp]:
  "db_core (emmc_user_done s) = db_core s" "d_update (emmc_user_done s) = d_update s"
  "active_cmd (emmc_user_done s) = active_cmd s" "can_respond (emmc_user_done s) = can_respond s"
  "g_root_block_sync_state (emmc_user_done s) = g_root_block_sync_state s"
  "block_read_cache (emmc_user_done s) = block_read_cache s"
  "block_read_cache_idx (emmc_user_done s) = block_read_cache_idx s"
  by (auto simp: emmc_user_done_def emmc_user_schedule_def emmc_user_db_start_def emmc_take_def put_out_def
      db_core_def can_respond_def split: db_action.split)

lemma transfer_done_eq:
  assumes "g_emmc_user t = EMMC_USER_DB" "g_db_write_src t = Buf_update_block"
    "g_root_block_sync_state t \<noteq> ROOT_BLOCK_WRITING" "active_cmd t = UPDATE_UIDS \<or> active_cmd t = UPDATE_UID"
  obtains x where "transfer_done E t = update_uid_cmd_write_finished E x"
    "db_core x = db_core (t\<lparr>emmc := (emmc t)(g_db_write_idx t := up_block (d_update t))\<rparr>)" "d_update x = d_update t"
    "can_respond x = can_respond t" "block_read_cache x = block_read_cache t" "block_read_cache_idx x = block_read_cache_idx t"
proof -
  let ?y = "BEGIN_WORK WRITE_DB_TX_WORK ((END_WORK MMC_TX_CPLT_WORK
     ((mmc_tx_done t)\<lparr>g_mmc_tx_cplt := False\<rparr>))\<lparr>g_write_db_tx_complete := True\<rparr>)"
  let ?x0 = "END_WORK WRITE_DB_TX_WORK (?y\<lparr>g_write_db_tx_complete := False\<rparr>)"
  let ?x = "emmc_user_done ?x0"
  have m: "mmc_tx_done t = BEGIN_WORK MMC_TX_CPLT_WORK
      (t\<lparr>emmc := (emmc t)(g_db_write_idx t := up_block (d_update t)), g_mmc_tx_cplt := True\<rparr>)"
    using assms by (simp add: mmc_tx_done_def HAL_MMC_TxCpltCallback_def buf_get_def)
  have "idle_mmc_tx (mmc_tx_done t) = Some ?y"
    unfolding m idle_mmc_tx_def using assms(1) by (simp add: BEGIN_WORK_def END_WORK_def)
  moreover have "idle_write_db E ?y = write_block_complete E ?x"
    by (simp add: idle_write_db_def BEGIN_WORK_def [of WRITE_DB_TX_WORK])
  ultimately have tr: "transfer_done E t = write_block_complete E ?x"
    by (simp add: transfer_done_def split: option.split)
  have a: "active_cmd ?x0 = active_cmd t" "g_root_block_sync_state ?x0 = g_root_block_sync_state t"
    unfolding m by (simp_all add: BEGIN_WORK_def END_WORK_def)
  have r: "root_block_synced E ?x = Some ?x" using assms(3) a by (simp add: root_block_synced_def)
  have d: "db3_write_block_complete E ?x = map_option (Pair True) (update_uid_cmd_write_finished E ?x)"
    using assms(4) a by (simp add: db3_write_block_complete_def)
  have "transfer_done E t = update_uid_cmd_write_finished E ?x"
    unfolding tr write_block_complete_def r Option.bind.bind_lunit d by (cases "update_uid_cmd_write_finished E ?x") simp_all
  then show ?thesis
    by (rule that; (simp only: emmc_done_frame)?) (simp_all add: m BEGIN_WORK_def END_WORK_def db_core_def can_respond_def)
qed

lemma transfer_done_written:
  assumes w: "writing_block s u t" and cmd: "active_cmd s = UPDATE_UIDS \<or> active_cmd s = UPDATE_UID"
    and u: "up_write_count u = 0" "data_block (up_block_num u)" "data_uid (up_uid u)"
      "up_prev_block_num u = INVALID_BLOCK \<or> up_prev_block_num u = up_block_num u"
  obtains v where "transfer_done E t = Some v"
    "wrote_block (up_block_num u) (up_blk_info u) (up_block u) (up_uid u)
       (if up_sz u = 0 then INVALID_BLOCK else up_block_num u) s v"
    "cache_ok s \<Longrightarrow> cache_ok v" "answered OKAY [] v"
proof -
  have t: "db_core t = db_core s" "d_update t = u" "g_db_write_idx t = up_block_num u" "can_respond t"
    "block_read_cache_idx t \<noteq> up_block_num u"
    "block_read_cache_idx t \<noteq> 65535 \<Longrightarrow> block_read_cache_idx t = block_read_cache_idx s \<and> block_read_cache t = block_read_cache s"
    using w by (simp_all add: writing_block_def)
  obtain x where x: "transfer_done E t = update_uid_cmd_write_finished E x"
    "db_core x = db_core (t\<lparr>emmc := (emmc t)(g_db_write_idx t := up_block (d_update t))\<rparr>)" "d_update x = d_update t"
    "can_respond x = can_respond t" "block_read_cache x = block_read_cache t" "block_read_cache_idx x = block_read_cache_idx t"
    by (rule transfer_done_eq [of t E]) (use w cmd in \<open>auto simp: writing_block_def\<close>)
  let ?y = "tables_updated (upd_update (\<lambda>u. u\<lparr>up_write_count := 1\<rparr>) x)"
  have "can_respond ?y" using t(4) x(4) by (simp add: tables_updated_def Let_def upd_update_def can_respond_def)
  then obtain v where v: "finish_command_resp OKAY ?y = Some v" "answered OKAY [] v" by (rule finish_resp_answered)
  have done': "transfer_done E t = Some v"
    unfolding x(1) by (subst update_written_once) (use u t x v in simp_all)
  have core: "db_core v = db_core ?y" by (rule vcore.view_finish_resp [OF v(1)])
  have cache: "block_read_cache v = block_read_cache t" "block_read_cache_idx v = block_read_cache_idx t"
    using vdb.view_finish_resp [OF v(1)] x(5,6) by (simp_all add: tables_updated_def Let_def upd_update_def)
  have wrote: "wrote_block (up_block_num u) (up_blk_info u) (up_block u) (up_uid u)
       (if up_sz u = 0 then INVALID_BLOCK else up_block_num u) s v"
    using core x(2,3) t(1-3)
    by (simp add: wrote_block_def db_core_def tables_updated_def Let_def upd_update_def)
  have "cache_ok v" if "cache_ok s"
    unfolding cache_ok_def cache wrote_blockD(3) [OF wrote]
    using that t(5) t(6) by (auto simp: cache_ok_def data_block_def)
  with done' wrote v(2) that show ?thesis by blast
qed

section \<open>The confirmation\<close>

lemma can_respond_wait [simp]:
  "can_respond (begin_button_press_wait s) = can_respond s" "can_respond (begin_long_button_press_wait s) = can_respond s"
  "can_respond (end_button_press_wait s) = can_respond s" "can_respond (end_long_button_press_wait s) = can_respond s"
  by (simp_all add: can_respond_def begin_button_press_wait_def begin_long_button_press_wait_def end_button_press_wait_def
      end_long_button_press_wait_def start_blinking_def stop_blinking_def led_on_def led_off_def put_out_def
      BEGIN_WORK_def END_WORK_def Let_def)

lemma wait_flags [simp]:
  "waiting_for_button_press (begin_button_press_wait s)" "waiting_for_long_button_press (begin_long_button_press_wait s)"
  "waiting_for_button_press (begin_long_button_press_wait s) = waiting_for_button_press s"
  "active_cmd (begin_button_press_wait s) = active_cmd s" "active_cmd (begin_long_button_press_wait s) = active_cmd s"
  "active_cmd (end_button_press_wait s) = active_cmd s" "active_cmd (end_long_button_press_wait s) = active_cmd s"
  by (simp_all add: begin_button_press_wait_def begin_long_button_press_wait_def end_button_press_wait_def
      end_long_button_press_wait_def start_blinking_def stop_blinking_def led_on_def led_off_def put_out_def
      BEGIN_WORK_def END_WORK_def Let_def)

text \<open>Press type 0 writes at once, 1 waits for a press, 2 for a long one.\<close>

definition press_matches :: "nat \<Rightarrow> fw \<Rightarrow> bool" where
  "press_matches press s \<longleftrightarrow>
     press = 0 \<and> active_cmd s = UPDATE_UIDS \<or> press = 1 \<and> active_cmd s = UPDATE_UID
   \<or> press = 2 \<and> active_cmd s = UPDATE_UIDS"

definition begin_confirm :: "env \<Rightarrow> action" where
  "begin_confirm E s =
     (if up_press_type (d_update s) = 0 then update_uid_cmd_complete E s
      else if up_press_type (d_update s) = 1 then Some (begin_button_press_wait s)
      else Some (begin_long_button_press_wait s))"

lemma update_uid_cmd_iter_success:
  assumes "update_uid E (up_uid (d_update s)) (up_entry_sz (d_update s)) s = Some (UPDATE_UID_SUCCESS, prev, nb, t)"
  shows "update_uid_cmd_iter E s = begin_confirm E (upd_update (\<lambda>u. u\<lparr>up_prev_block_num := prev, up_block_num := nb\<rparr>) t)"
  using assms by (simp add: update_uid_cmd_iter_def begin_confirm_def Let_def)

lemma confirm_writes:
  assumes r: "io_ready s" and i: "data_block (up_block_num (d_update s))"
    and p: "press_matches (up_press_type (d_update s)) s"
    and w: "\<not> waiting_for_button_press s" "\<not> waiting_for_long_button_press s"
  obtains s1 t where "begin_confirm E s = Some s1" "confirm E s1 = Some t"
    "writing_block s ((d_update s)\<lparr>up_block := completed_block E (d_update s)\<rparr>) t" "\<not> block_read_cache_updating s1"
proof -
  note goal = that
  have waited: thesis
    if y: "begin_confirm E s = Some s1" "confirm E s1 = update_uid_cmd_complete E y"
      "io_ready y" "db_core y = db_core s" "d_update y = d_update s" "active_cmd y = active_cmd s"
      "block_read_cache y = block_read_cache s" "block_read_cache_idx y = block_read_cache_idx s"
      "\<not> block_read_cache_updating s1" for s1 y
  proof -
    obtain t where "update_uid_cmd_complete E y = Some t"
      "writing_block y ((d_update y)\<lparr>up_block := completed_block E (d_update y)\<rparr>) t"
      using update_uid_cmd_complete_writes [OF y(3), of E] i y(5) by metis
    then show thesis using y by (intro goal [of s1 t]) (simp_all add: writing_block_def)
  qed
  consider "up_press_type (d_update s) = 0" | "up_press_type (d_update s) = 1" "active_cmd s = UPDATE_UID"
    | "up_press_type (d_update s) = 2" "active_cmd s = UPDATE_UIDS"
    using p by (auto simp: press_matches_def)
  then show thesis
  proof cases
    case 1
    obtain t where t: "update_uid_cmd_complete E s = Some t"
      "writing_block s ((d_update s)\<lparr>up_block := completed_block E (d_update s)\<rparr>) t"
      "waiting_for_button_press t = waiting_for_button_press s" "waiting_for_long_button_press t = waiting_for_long_button_press s"
      "block_read_cache_updating t = block_read_cache_updating s"
      by (rule update_uid_cmd_complete_writes [OF r i, of E])
    then show thesis using 1 w r by (intro goal [of t t]) (simp_all add: begin_confirm_def confirm_def io_ready_def)
  next
    case 2
    let ?s1 = "begin_button_press_wait s"
    show thesis
      by (rule waited [of ?s1 "end_button_press_wait ?s1"])
        (use 2 r vtrans.view_button_wait in \<open>simp_all add: begin_confirm_def confirm_def button_press_def Let_def io_ready_def\<close>)
  next
    case 3
    let ?s1 = "begin_long_button_press_wait s"
    show thesis
      by (rule waited [of ?s1 "end_long_button_press_wait ?s1"])
        (use 3 r w vtrans.view_button_wait in \<open>simp_all add: begin_confirm_def confirm_def long_button_press_def Let_def io_ready_def\<close>)
  qed
qed

section \<open>Loading the block\<close>

text \<open>When the block that is needed is not cached, the command waits for its transfer.\<close>

definition block_loaded :: "env \<Rightarrow> action" where
  "block_loaded E s =
     (if block_read_cache_updating s then run_all [\<lambda>s. Some (mmc_rx_done s), idle_mmc_rx, idle_read_db E] s
      else Some s)"

definition loading :: "nat \<Rightarrow> fw \<Rightarrow> fw" where
  "loading i s =
     put_out (Out_mmc_read (emmc_block_addr i) Buf_read_cache)
       (s\<lparr>block_read_cache_idx := i, block_read_cache_updating := True, g_db_action := DB_ACTION_READ,
          g_db_read_idx := i, g_db_read_dest := Buf_read_cache, g_emmc_user := EMMC_USER_DB\<rparr>)"

lemma get_cached_miss:
  assumes "io_ready s" "data_block i" "block_read_cache_idx s \<noteq> i"
  shows "get_cached_data_block i s = Some (False, loading i s)"
proof -
  have r: "(g_emmc_user_ready s)(EMMC_USER_DB := False) = g_emmc_user_ready s"
    using assms(1) by (simp add: io_ready_def fun_eq_iff)
  have i: "i \<noteq> 0" "i mod 65536 = i" using assms(2) by (simp_all add: data_block_def)
  show ?thesis
    using assms i
    by (simp add: get_cached_data_block_def read_data_block_def emmc_queue_idle io_ready_def emmc_user_db_start_def r loading_def)
qed

lemma loading_resumes:
  assumes r: "io_ready s"
  obtains x where "active_cmd s = UPDATE_UIDS \<or> active_cmd s = UPDATE_UID \<Longrightarrow> block_loaded E (loading i s) = update_uid_cmd_iter E x"
    "active_cmd s = READ_UID \<Longrightarrow> block_loaded E (loading i s) = read_uid_cmd_iter E x"
    "db_core x = db_core s" "d_update x = d_update s" "d_read_uid x = d_read_uid s" "active_cmd x = active_cmd s" "io_ready x"
    "block_read_cache_idx x = i" "block_read_cache x = emmc s i"
    "waiting_for_button_press x = waiting_for_button_press s" "waiting_for_long_button_press x = waiting_for_long_button_press s"
proof -
  let ?t = "loading i s"
  let ?r = "mmc_rx_done ?t"
  let ?y = "BEGIN_WORK READ_DB_TX_CPLT_WORK ((END_WORK MMC_RX_CPLT_WORK (?r\<lparr>g_mmc_rx_cplt := False\<rparr>))\<lparr>g_read_db_tx_complete := True\<rparr>)"
  let ?z = "(END_WORK READ_DB_TX_CPLT_WORK (?y\<lparr>g_read_db_tx_complete := False\<rparr>))\<lparr>g_emmc_user := EMMC_USER_NONE\<rparr>"
  let ?x = "?z\<lparr>block_read_cache_updating := False\<rparr>"
  have m: "?r = BEGIN_WORK MMC_RX_CPLT_WORK (?t\<lparr>block_read_cache := emmc s i, g_mmc_rx_cplt := True\<rparr>)"
    by (simp add: mmc_rx_done_def HAL_MMC_RxCpltCallback_def buf_put_def loading_def put_out_def)
  have rd: "idle_mmc_rx ?r = Some ?y"
    unfolding m by (simp add: idle_mmc_rx_def BEGIN_WORK_def END_WORK_def loading_def put_out_def)
  have z: "emmc_user_done (END_WORK READ_DB_TX_CPLT_WORK (?y\<lparr>g_read_db_tx_complete := False\<rparr>)) = ?z"
    unfolding m using r
    by (simp add: emmc_user_done_def emmc_user_schedule_def BEGIN_WORK_def END_WORK_def loading_def put_out_def io_ready_def)
  have zf: "block_read_cache_updating ?z" "active_cmd ?z = active_cmd s"
    unfolding m by (simp_all add: BEGIN_WORK_def END_WORK_def loading_def put_out_def)
  have "idle_read_db E ?y = read_block_complete E ?z"
    unfolding idle_read_db_def z by (simp add: BEGIN_WORK_def [of READ_DB_TX_CPLT_WORK])
  then have b: "block_loaded E ?t = read_block_complete E ?z"
    using rd by (simp add: block_loaded_def loading_def put_out_def split: option.split)
  have c: "read_block_complete E ?z = update_uid_cmd_iter E ?x" if "active_cmd s = UPDATE_UIDS \<or> active_cmd s = UPDATE_UID"
    using zf that by (auto simp: read_block_complete_def db3_read_block_complete_def Let_def option.map_comp split: bind_split)
  have d: "read_block_complete E ?z = read_uid_cmd_iter E ?x" if "active_cmd s = READ_UID"
    using zf that by (auto simp: read_block_complete_def db3_read_block_complete_def Let_def option.map_comp split: bind_split)
  show ?thesis
    by (rule that [of ?x, unfolded b, OF c d]; (assumption | unfold m)?)
      (use r in \<open>simp_all add: BEGIN_WORK_def END_WORK_def loading_def put_out_def db_core_def io_ready_def can_respond_def\<close>)
qed

lemma loading_done:
  assumes r: "io_ready s" and cmd: "active_cmd s = UPDATE_UIDS \<or> active_cmd s = UPDATE_UID"
  obtains x where "block_loaded E (upd_update f (loading i s)) = update_uid_cmd_iter E x"
    "db_core x = db_core s" "d_update x = f (d_update s)" "active_cmd x = active_cmd s" "io_ready x"
    "block_read_cache_idx x = i" "block_read_cache x = emmc s i"
    "waiting_for_button_press x = waiting_for_button_press s" "waiting_for_long_button_press x = waiting_for_long_button_press s"
proof -
  let ?s = "upd_update f s"
  have u: "upd_update f (loading i s) = loading i ?s" by (simp add: loading_def upd_update_def put_out_def)
  have s: "db_core ?s = db_core s" "active_cmd ?s = active_cmd s" "emmc ?s = emmc s" "d_update ?s = f (d_update s)"
    "waiting_for_button_press ?s = waiting_for_button_press s" "waiting_for_long_button_press ?s = waiting_for_long_button_press s"
    by (simp_all add: upd_update_def db_core_def)
  have "io_ready ?s" using r by (simp add: io_ready_def upd_update_def can_respond_def)
  from loading_resumes [OF this, of E i, unfolded s] cmd that show ?thesis unfolding u by metis
qed

section \<open>The whole command\<close>

text \<open>A request the device accepts: sizes as the dispatcher has checked them, device idle.\<close>

definition update_request_ok :: "env \<Rightarrow> fw \<Rightarrow> nat \<Rightarrow> bytes \<Rightarrow> nat \<Rightarrow> nat \<Rightarrow> bool" where
  "update_request_ok E s uid data sz press \<longleftrightarrow>
     data_uid uid \<and> sz < 65536 \<and> length data = SIZE_TO_SUB_BLK_COUNT sz * SUB_BLK_SIZE
   \<and> SIZE_TO_SUB_BLK_COUNT sz \<le> MAX_PART_SIZE
   \<and> nettle_ok (env_nettle E) \<and> length (g_encrypt_key s) = 32
   \<and> length (root_page s) = ROOT_PAGE_SIZE \<and> rp_format s = ROOT_BLOCK_FORMAT_CURRENT
   \<and> (rp_db_format s = DB_FORMAT_CURRENT \<or> rp_db_format s = DB_FORMAT_2)
   \<and> length (up_entry (d_update s)) = BLK_SIZE \<and> length (up_block (d_update s)) = BLK_SIZE
   \<and> io_ready s \<and> \<not> waiting_for_button_press s \<and> \<not> waiting_for_long_button_press s \<and> press_matches press s"

text \<open>There is a record to delete, or a block for the record; the block is in the cache if its content is needed.\<close>

definition update_possible :: "fw \<Rightarrow> nat \<Rightarrow> nat \<Rightarrow> bool" where
  "update_possible s uid sz \<longleftrightarrow>
     (if sz = 0 then uid_map s uid \<noteq> INVALID_BLOCK else update_target s uid \<noteq> None)"

definition update_cached :: "fw \<Rightarrow> nat \<Rightarrow> nat \<Rightarrow> bool" where
  "update_cached s uid sz \<longleftrightarrow>
     (if sz = 0 then block_read_cache_idx s = uid_map s uid else target_cached s uid)"

definition update_set_args :: "nat \<Rightarrow> bytes \<Rightarrow> nat \<Rightarrow> nat \<Rightarrow> bytes \<Rightarrow> update_data \<Rightarrow> update_data" where
  "update_set_args uid data sz press iv u =
     u\<lparr>up_iv := iv, up_uid := uid, up_sz := sz, up_write_count := 0, up_press_type := press,
       up_prev_block_num := INVALID_BLOCK, up_entry := splice (up_entry u) 0 data, up_entry_sz := sz\<rparr>"

lemma update_uid_cmd_eq:
  assumes "update_request_ok E s uid data sz press"
  obtains iv where "update_uid_cmd E uid data sz press s = update_uid_cmd_iter E (upd_update (update_set_args uid data sz press iv) s)"
    "update_args E (upd_update (update_set_args uid data sz press iv) s) uid sz data"
proof -
  have rp: "rp_format s = ROOT_BLOCK_FORMAT_CURRENT" "rp_db_format s = DB_FORMAT_CURRENT \<or> rp_db_format s = DB_FORMAT_2"
    "length (root_page s) = ROOT_PAGE_SIZE"
    using assms by (simp_all add: update_request_ok_def)
  obtain iv where iv: "derive_iv uid s = Some iv" using rp(1,2) by (auto simp: derive_iv_def Let_def)
  have l: "length iv = 16" by (rule length_derive_iv [OF iv rp(3)])
  let ?n = "SIZE_TO_SUB_BLK_COUNT sz"
  have d: "length data = ?n * 16" "?n * 16 \<le> length (up_entry (d_update s))"
    using assms by (simp_all add: update_request_ok_def)
  let ?s = "upd_update (update_set_args uid data sz press iv) s"
  have "update_uid_cmd E uid data sz press s = update_uid_cmd_iter E ?s"
    using d by (simp add: update_uid_cmd_def iv update_set_args_def upd_update_def)
  moreover have "derive_iv uid ?s = derive_iv uid s" by (rule derive_iv_cong) simp
  then have "update_args E ?s uid sz data"
    using assms iv l d by (simp add: update_args_def update_request_ok_def update_set_args_def splice_def)
  ultimately show ?thesis by (rule that)
qed

lemma alloc_upd_update [simp]:
  "alloc_exact p (upd_update f s) = alloc_exact p s" "find_free_block (upd_update f s) = find_free_block s"
  by (simp_all add: alloc_exact_def find_free_block_def)

lemma upd_update_other [simp]:
  "active_cmd (upd_update f s) = active_cmd s" "waiting_for_button_press (upd_update f s) = waiting_for_button_press s"
  "waiting_for_long_button_press (upd_update f s) = waiting_for_long_button_press s"
  by (simp_all add: upd_update_def)

lemma db_upd_update [simp]:
  "db_ok E (upd_update f s) = db_ok E s" "cache_ok (upd_update f s) = cache_ok s"
  "db_view E (upd_update f s) = db_view E s" "update_target (upd_update f s) uid = update_target s uid"
  "target_cached (upd_update f s) uid = target_cached s uid" "io_ready (upd_update f s) = io_ready s"
  "press_matches p (upd_update f s) = press_matches p s"
proof -
  have "db_core (upd_update f s) = db_core s" by (simp add: db_core_def)
  then show "db_ok E (upd_update f s) = db_ok E s" "db_view E (upd_update f s) = db_view E s"
    using db_core_cong by blast+
qed (simp_all add: cache_ok_def update_target_def target_cached_def io_ready_def press_matches_def
       cong: option.case_cong, simp_all add: upd_update_def can_respond_def)

lemma update_upd_update:
  "update_possible (upd_update f s) uid sz = update_possible s uid sz"
  "update_cached (upd_update f s) uid sz = update_cached s uid sz"
  by (simp_all add: update_possible_def update_cached_def)

text \<open>From the prepared block to the end of the command.\<close>

lemma update_commits:
  fixes s :: fw and E :: env and uid i sz prev press :: nat and info :: block_info and b data :: bytes and iv
  defines "s0 \<equiv> upd_update (update_set_args uid data sz press iv) s"
  defines "m \<equiv> if sz = 0 then INVALID_BLOCK else i"
  defines "b' \<equiv> if bi_occupied info then blk_set_crc (block_crc E b) b else b"
  assumes ok: "db_ok E s" "cache_ok s" and req: "update_request_ok E s uid data sz press"
    and run: "update_uid E uid sz s0
      = Some (UPDATE_UID_SUCCESS, prev, i, upd_update (\<lambda>u. u\<lparr>up_blk_info := info, up_block := b\<rparr>) s0)"
    and prev: "prev = INVALID_BLOCK \<or> prev = i" and i: "data_block i" "alone s i uid"
      "uid_map s uid = INVALID_BLOCK \<or> uid_map s uid = i"
    and new: "block_ok E info b'" "\<And>v. block_holds info b' v \<longleftrightarrow> v = uid \<and> m = i"
  obtains s1 s2 s3 where "update_uid_cmd_iter E s0 = Some s1" "confirm E s1 = Some s2" "transfer_done E s2 = Some s3"
    "\<not> block_read_cache_updating s1" "wrote_block i info b' uid m s s3" "db_ok E s3" "cache_ok s3" "answered OKAY [] s3" "\<And>v. v \<noteq> uid \<Longrightarrow> db_view E s3 v = db_view E s v"
proof -
  define T where "T = upd_update (\<lambda>u. u\<lparr>up_prev_block_num := prev, up_block_num := i\<rparr>)
      (upd_update (\<lambda>u. u\<lparr>up_blk_info := info, up_block := b\<rparr>) s0)"
  define U where "U = (d_update T)\<lparr>up_block := completed_block E (d_update T)\<rparr>"
  have uid: "data_uid uid" and cmd: "active_cmd s = UPDATE_UIDS \<or> active_cmd s = UPDATE_UID"
    using req by (auto simp: update_request_ok_def press_matches_def)
  have iter: "update_uid_cmd_iter E s0 = begin_confirm E T"
    unfolding T_def by (rule update_uid_cmd_iter_success) (use run in \<open>simp add: s0_def update_set_args_def\<close>)
  have pre: "io_ready T" "data_block (up_block_num (d_update T))" "press_matches (up_press_type (d_update T)) T"
    "\<not> waiting_for_button_press T" "\<not> waiting_for_long_button_press T"
    unfolding T_def
    using req i(1) by (simp_all add: update_request_ok_def s0_def update_set_args_def)
  obtain s1 s2 where s2: "begin_confirm E T = Some s1" "confirm E s1 = Some s2" "writing_block T U s2"
    "\<not> block_read_cache_updating s1"
    using confirm_writes [OF pre, of E] unfolding U_def by blast
  have t: "active_cmd T = active_cmd s" "db_core T = db_core s" by (simp_all add: T_def s0_def upd_update_def db_core_def)
  have u: "up_write_count U = 0" "up_block_num U = i" "up_uid U = uid" "up_blk_info U = info" "up_block U = b'"
    "up_prev_block_num U = prev" "up_sz U = sz"
    by (simp_all add: U_def T_def s0_def update_set_args_def completed_block_def b'_def)
  have c: "active_cmd T = UPDATE_UIDS \<or> active_cmd T = UPDATE_UID" "data_block (up_block_num U)" "data_uid (up_uid U)"
    "up_prev_block_num U = INVALID_BLOCK \<or> up_prev_block_num U = up_block_num U"
    unfolding u t(1) by (rule cmd i(1) uid prev)+
  obtain s3 where s3: "transfer_done E s2 = Some s3" "wrote_block (up_block_num U) (up_blk_info U) (up_block U) (up_uid U)
      (if up_sz U = 0 then INVALID_BLOCK else up_block_num U) T s3" "cache_ok T \<Longrightarrow> cache_ok s3" "answered OKAY [] s3"
    using transfer_done_written [OF s2(3) c(1) u(1) c(2-4), of E] by blast
  have w: "wrote_block i info b' uid m s s3"
    using s3(2) unfolding u m_def [symmetric] wrote_block_def using t(2) by (simp add: db_core_def)
  have "cache_ok s3" using s3(3) ok(2) by (simp add: T_def s0_def)
  moreover have "db_ok E s3"
    by (rule wrote_block_ok [OF ok(1) w i(1) uid _ i(3) new(1)]) (use i(2) new(2) in \<open>auto simp: alone_def m_def\<close>)
  moreover have "db_view E s3 v = db_view E s v" if "v \<noteq> uid" for v
    by (rule wrote_block_others [OF ok(1) w i(1) _ that]) (use i(2) in \<open>simp add: alone_def\<close>)
  ultimately show ?thesis using that [of s1 s2 s3] iter s2 s3(1,4) w by simp
qed

lemma update_iter_commits:
  fixes s :: fw and E :: env and uid sz press :: nat and data iv :: bytes
  defines "s0 \<equiv> upd_update (update_set_args uid data sz press iv) s"
  assumes ok: "db_ok E s" "cache_ok s" and req: "update_request_ok E s uid data sz press"
    and pos: "update_possible s uid sz" "update_cached s uid sz" and args: "update_args E s0 uid sz data"
  shows "\<exists>s1 s2 s3. update_uid_cmd_iter E s0 = Some s1 \<and> \<not> block_read_cache_updating s1
    \<and> confirm E s1 = Some s2 \<and> transfer_done E s2 = Some s3 \<and> db_ok E s3 \<and> cache_ok s3 \<and> db_view E s3 = (db_view E s)(uid := (if sz = 0 then None else Some (sz, data))) \<and> answered OKAY [] s3"
proof -
  have uid: "data_uid uid" and n: "SIZE_TO_SUB_BLK_COUNT sz \<le> MAX_PART_SIZE"
    using req by (simp_all add: update_request_ok_def)
  have ok0: "db_ok E s0" "cache_ok s0" using ok by (simp_all add: s0_def)
  have iv: "up_iv (d_update s0) = iv" by (simp add: s0_def update_set_args_def)
  show ?thesis
  proof (cases "sz = 0")
    case True
    let ?i = "uid_map s uid" and ?b = "freed_block (up_block (d_update s0))"
    have m: "?i \<noteq> INVALID_BLOCK" "block_read_cache_idx s = ?i" using pos True by (simp_all add: update_possible_def update_cached_def)
    note mb = mapped_block [OF ok(1) uid m(1)]
    have run: "update_uid E uid sz s0 = Some (UPDATE_UID_SUCCESS, INVALID_BLOCK, ?i,
        upd_update (\<lambda>u. u\<lparr>up_blk_info := free_info, up_block := ?b\<rparr>) s0)"
      using update_uid_delete [OF ok0 uid, of ?i] m True by (simp add: s0_def upd_update_def)
    have b: "block_ok E free_info ?b" by (rule freed_block_ok) (use args in \<open>simp add: update_args_def\<close>)
    obtain s1 s2 s3 where "update_uid_cmd_iter E s0 = Some s1" "confirm E s1 = Some s2" "transfer_done E s2 = Some s3"
      "\<not> block_read_cache_updating s1" "wrote_block ?i free_info ?b uid INVALID_BLOCK s s3" "db_ok E s3" "cache_ok s3"
      "answered OKAY [] s3" "\<And>v. v \<noteq> uid \<Longrightarrow> db_view E s3 v = db_view E s v"
      by (rule update_commits [OF ok req run [unfolded s0_def], folded s0_def])
        (use mb b m True freed_block_ok(2) in \<open>simp_all add: free_info_def data_block_def\<close>)
    moreover from this(5) have "db_view E s3 uid = None" by (simp add: db_view_def wrote_blockD)
    ultimately show ?thesis using True by (auto simp: fun_eq_iff)
  next
    case False
    obtain i where t: "update_target s uid = Some i" "target_cached s uid"
      using pos False by (auto simp: update_possible_def update_cached_def)
    note ti = update_target_alone [OF ok(1) uid t(1)]
    obtain b prev where b: "update_uid E uid sz s0 = Some (UPDATE_UID_SUCCESS, prev, i,
        upd_update (\<lambda>u. u\<lparr>up_blk_info := one_part 1, up_block := b\<rparr>) s0)"
      "prev = INVALID_BLOCK \<or> prev = i" "stored_block E s0 uid sz (up_iv (d_update s0)) data b"
      by (rule update_uid_store [OF ok0 args False, of i]) (use t in \<open>simp_all add: s0_def\<close>)
    have st: "stored_block E s uid sz iv data b" using b(3) iv by (simp add: stored_block_def s0_def)
    note new = stored_block_ok [OF st uid n]
    let ?b = "blk_set_crc (block_crc E b) b"
    obtain s1 s2 s3 where r: "update_uid_cmd_iter E s0 = Some s1" "confirm E s1 = Some s2" "transfer_done E s2 = Some s3"
      "\<not> block_read_cache_updating s1" "wrote_block i (one_part 1) ?b uid i s s3" "db_ok E s3" "cache_ok s3"
      "answered OKAY [] s3" "\<And>v. v \<noteq> uid \<Longrightarrow> db_view E s3 v = db_view E s v"
      by (rule update_commits [OF ok req b(1) [unfolded s0_def] b(2) ti, folded s0_def])
        (use False new in \<open>simp_all add: one_part_def\<close>)
    have "derive_iv uid s = Some iv \<and> length iv = 16"
      using args derive_iv_cong [of s s0 uid] iv by (simp add: update_args_def s0_def)
    then have "db_view E s3 uid = Some (sz, data)"
      using stored_block_view [OF r(5) stored_block_crc [OF st n] ti(1) uid] req by (simp add: update_request_ok_def)
    then show ?thesis using r False by (auto simp: fun_eq_iff)
  qed
qed

text \<open>The first round when the block is not cached.\<close>

lemma loading_upd: "loading i (upd_update f s) = upd_update f (loading i s)"
  by (simp add: loading_def upd_update_def put_out_def)

lemma update_uid_loading:
  assumes ok: "db_ok E s" and uid: "data_uid uid" and r: "io_ready s"
    and pos: "update_possible s uid sz" "\<not> update_cached s uid sz"
    and u: "up_uid (d_update s) = uid" "up_entry_sz (d_update s) = sz" "up_prev_block_num (d_update s) = INVALID_BLOCK"
  obtains i info where "data_block i" "update_uid_cmd_iter E s = Some (upd_update
      (\<lambda>u. u\<lparr>up_blk_info := info, up_prev_block_num := INVALID_BLOCK, up_block_num := i\<rparr>) (loading i s))"
    "sz = 0 \<Longrightarrow> uid_map s uid = i" "sz \<noteq> 0 \<Longrightarrow> update_target s uid = Some i"
proof -
  have iter: thesis
    if "data_block i" "update_uid E uid sz s = Some (UPDATE_UID_DATA_LOADING, INVALID_BLOCK, i,
          upd_update (\<lambda>u. u\<lparr>up_blk_info := info\<rparr>) (loading i s))"
      "sz = 0 \<Longrightarrow> uid_map s uid = i" "sz \<noteq> 0 \<Longrightarrow> update_target s uid = Some i" for i info
    by (rule \<open>\<And>i info. data_block i \<Longrightarrow> update_uid_cmd_iter E s = Some (upd_update
      (\<lambda>u. u\<lparr>up_blk_info := info, up_prev_block_num := INVALID_BLOCK, up_block_num := i\<rparr>) (loading i s)) \<Longrightarrow>
      (sz = 0 \<Longrightarrow> uid_map s uid = i) \<Longrightarrow> (sz \<noteq> 0 \<Longrightarrow> update_target s uid = Some i) \<Longrightarrow> thesis\<close> [of i info])
      (use that u in \<open>simp_all add: update_uid_cmd_iter_def upd_update_def\<close>)
  have same: "upd_update (\<lambda>u. u\<lparr>up_blk_info := up_blk_info (d_update s)\<rparr>) (loading i s) = loading i s" for i
    by (simp add: upd_update_def loading_def put_out_def)
  show thesis
  proof (cases "uid_map s uid = INVALID_BLOCK")
    case False
    let ?i = "uid_map s uid"
    have miss: "block_read_cache_idx s \<noteq> ?i" and i: "data_block ?i"
      using False pos mapped_block(1) [OF ok uid False] by (auto simp: update_cached_def target_cached_def update_target_def split: if_splits)
    have f: "find_uid uid s = Some (Find_loading, ?i, loading ?i s)"
      using False uid get_cached_miss [OF r i miss] by (simp add: find_uid_def data_uid_def Let_def)
    show thesis
      by (rule iter [of ?i "up_blk_info (d_update s)"])
        (use i f u False in \<open>simp_all add: same update_uid_def deallocate_uid_def update_target_def\<close>)
  next
    case True
    then have sz: "sz \<noteq> 0" using pos(1) by (auto simp: update_possible_def split: if_splits)
    with pos(2) obtain i where e: "alloc_exact MAX_PART_SIZE s = Some i" "block_read_cache_idx s \<noteq> i"
      using True by (auto simp: update_cached_def target_cached_def update_target_def)
    have i: "data_block i" "i \<noteq> INVALID_BLOCK" using alloc_exactD(1) [OF ok e(1)] by (auto simp: data_block_def)
    let ?s = "upd_update (\<lambda>u. u\<lparr>up_blk_info := g_block_info_tbl s i\<rparr>) s"
    have "get_cached_data_block i ?s = Some (False, loading i ?s)"
      by (rule get_cached_miss) (use r i e(2) in simp_all)
    then have "update_uid E uid sz s = Some (UPDATE_UID_DATA_LOADING, INVALID_BLOCK, i, loading i ?s)"
      using sz True uid e(1) i(2) by (simp add: update_uid_def find_uid_def allocate_uid_def Let_def data_uid_def)
    then show thesis
      by (intro iter [of i "g_block_info_tbl s i"]) (use True sz i e(1) in \<open>simp_all add: loading_upd update_target_def\<close>)
  qed
qed

text \<open>The case in which the block has to be loaded first: the request goes on where it would have gone with the block cached.\<close>

lemma update_uid_uncached:
  assumes "db_ok E s" "cache_ok s" "update_request_ok E s uid data sz press" "update_possible s uid sz"
    and False: "\<not> update_cached s uid sz"
    and iv: "update_uid_cmd E uid data sz press s = update_uid_cmd_iter E (upd_update (update_set_args uid data sz press iv) s)"
    "update_args E (upd_update (update_set_args uid data sz press iv) s) uid sz data"
  shows "\<exists>s0 s1 s2 s3. update_uid_cmd E uid data sz press s = Some s0 \<and> block_loaded E s0 = Some s1
    \<and> confirm E s1 = Some s2 \<and> transfer_done E s2 = Some s3 \<and> db_ok E s3 \<and> cache_ok s3
    \<and> db_view E s3 = (db_view E s)(uid := (if sz = 0 then None else Some (sz, data))) \<and> answered OKAY [] s3"
proof -
  let ?f = "update_set_args uid data sz press iv"
  let ?s0 = "upd_update ?f s"
  have uid: "data_uid uid" and r: "io_ready s" and cmd: "active_cmd s = UPDATE_UIDS \<or> active_cmd s = UPDATE_UID"
    using assms(3) by (auto simp: update_request_ok_def press_matches_def)
  obtain i info where l: "data_block i" "update_uid_cmd_iter E ?s0 = Some (upd_update
      (\<lambda>u. u\<lparr>up_blk_info := info, up_prev_block_num := INVALID_BLOCK, up_block_num := i\<rparr>) (loading i ?s0))"
      "sz = 0 \<Longrightarrow> uid_map s uid = i" "sz \<noteq> 0 \<Longrightarrow> update_target s uid = Some i"
    by (rule update_uid_loading [of E ?s0 uid sz])
      (use assms(1,4) False uid r in \<open>simp_all add: update_upd_update update_set_args_def\<close>)
  let ?g = "\<lambda>u. u\<lparr>up_blk_info := info, up_prev_block_num := INVALID_BLOCK, up_block_num := i\<rparr>"
  obtain x where x: "block_loaded E (upd_update ?g (loading i ?s0)) = update_uid_cmd_iter E x"
    "db_core x = db_core ?s0" "d_update x = ?g (d_update ?s0)" "active_cmd x = active_cmd ?s0" "io_ready x"
    "block_read_cache_idx x = i" "block_read_cache x = emmc ?s0 i"
    "waiting_for_button_press x = waiting_for_button_press ?s0"
    "waiting_for_long_button_press x = waiting_for_long_button_press ?s0"
    by (rule loading_done [of ?s0 E ?g i]) (use r cmd in simp_all)
  have len: "length data \<le> length (up_entry (d_update s))" using assms(3) by (simp add: update_request_ok_def)
  have fix_x: "upd_update ?f x = x"
  proof -
    have "?f (d_update x) = d_update x" using len by (simp add: x(3) update_set_args_def splice_def)
    then show ?thesis by (simp add: upd_update_def)
  qed
  have core: "db_core x = db_core s" using x(2) by (simp add: db_core_def)
  have e: "g_block_info_tbl x = g_block_info_tbl s" "uid_map x = uid_map s" "emmc x = emmc s" "root_page x = root_page s"
    "g_encrypt_key x = g_encrypt_key s"
    using core by (simp_all add: db_core_def)
  have t: "update_target x uid = update_target s uid" "alloc_exact MAX_PART_SIZE x = alloc_exact MAX_PART_SIZE s"
    by (simp_all add: update_target_def alloc_exact_def find_free_block_def e cong: option.case_cong)
  have "db_ok E x" "db_view E x = db_view E s" using db_core_cong [OF core] assms(1) by simp_all
  moreover have "cache_ok x" using x(6,7) e by (simp add: cache_ok_def)
  moreover have "update_request_ok E x uid data sz press"
    using assms(3) x e len
    by (simp add: update_request_ok_def press_matches_def rp_format_def rp_db_format_def update_set_args_def upd_update_def)
  moreover have "update_possible x uid sz" using assms(4) t(1) e by (simp add: update_possible_def)
  moreover have "update_cached x uid sz" using l x(6) t e by (simp add: update_cached_def target_cached_def)
  moreover have "update_args E (upd_update ?f x) uid sz data"
    using iv(2) x(3) e derive_iv_cong [of x ?s0 uid] fix_x by (simp add: update_args_def)
  ultimately have "\<exists>s1 s2 s3. update_uid_cmd_iter E x = Some s1 \<and> confirm E s1 = Some s2 \<and> transfer_done E s2 = Some s3
      \<and> db_ok E s3 \<and> cache_ok s3 \<and> db_view E s3 = (db_view E s)(uid := (if sz = 0 then None else Some (sz, data))) \<and> answered OKAY [] s3"
    using update_iter_commits [of E x uid data sz press iv] unfolding fix_x by auto
  then show ?thesis using l(2) x(1) by (simp add: iv(1))
qed

lemma update_uid_runs:
  assumes "db_ok E s" "cache_ok s" "update_request_ok E s uid data sz press" "update_possible s uid sz"
  shows "\<exists>s0 s1 s2 s3. update_uid_cmd E uid data sz press s = Some s0 \<and> block_loaded E s0 = Some s1
    \<and> confirm E s1 = Some s2 \<and> transfer_done E s2 = Some s3 \<and> db_ok E s3 \<and> cache_ok s3
    \<and> db_view E s3 = (db_view E s)(uid := (if sz = 0 then None else Some (sz, data))) \<and> answered OKAY [] s3"
proof -
  obtain iv where iv: "update_uid_cmd E uid data sz press s = update_uid_cmd_iter E (upd_update (update_set_args uid data sz press iv) s)"
    "update_args E (upd_update (update_set_args uid data sz press iv) s) uid sz data"
    by (rule update_uid_cmd_eq [OF assms(3)])
  show ?thesis
  proof (cases "update_cached s uid sz")
    case True
    from update_iter_commits [OF assms True iv(2)] show ?thesis by (auto simp: iv(1) block_loaded_def)
  qed (rule update_uid_uncached [OF assms _ iv])
qed

text \<open>
  C4. A record command on the database refines its contract. From a state that satisfies the
  database invariant, a request the dispatcher accepts (UPDATE_UID or UPDATE_UIDS, with or
  without the wait for the button) with a block for the record runs through: the command
  prepares the block, the confirmation writes it, the completion of the transfer updates the
  tables and answers OKAY. Afterwards the invariant holds again and the abstract database is the
  old one with the record of that uid replaced by the data of the request, or removed for a
  request of size 0; no other record changes. \<open>update_possible\<close> says that there is a block for the
  record: to remove it, it exists; to store it, its own block or a free one.
\<close>

theorem record_update_refines:
  assumes "db_ok E s" "cache_ok s" "update_request_ok E s uid data sz press" "update_possible s uid sz"
  shows "\<exists>s0 s1 s2 s3. update_uid_cmd E uid data sz press s = Some s0 \<and> block_loaded E s0 = Some s1
    \<and> confirm E s1 = Some s2 \<and> transfer_done E s2 = Some s3 \<and> db_ok E s3 \<and> cache_ok s3
    \<and> db_view E s3 = (db_view E s)(uid := (if sz = 0 then None else Some (sz, data))) \<and> answered OKAY [] s3"
  by (rule update_uid_runs [OF assms])

text \<open>An example: an initialised device with free blocks only.\<close>

definition db_example :: fw where
  "db_example = fw_reset\<lparr>active_cmd := UPDATE_UID,
     root_page := splice (zeros ROOT_PAGE_SIZE) RP_FORMAT (le16 ROOT_BLOCK_FORMAT_CURRENT @ le16 DB_FORMAT_CURRENT),
     g_block_info_tbl := (\<lambda>_. free_info), emmc := (\<lambda>_. blk_set_header INVALID_PART_SIZE 0 (zeros BLK_SIZE))\<rparr>"

lemma db_example_ok:
  "db_ok E db_example" "cache_ok db_example" "io_ready db_example"
  "rp_format db_example = ROOT_BLOCK_FORMAT_CURRENT" "rp_db_format db_example = DB_FORMAT_CURRENT"
  "db_view E db_example uid = None"
proof -
  have b: "block_ok E free_info (blk_set_header INVALID_PART_SIZE 0 (zeros BLK_SIZE))"
    by (simp add: block_ok_def free_info_def one_part_def block_simps)
  have u: "uid_map db_example uid = INVALID_BLOCK" for uid by (simp add: db_example_def fw_reset_def)
  show "db_ok E db_example"
    by (simp add: db_ok_def u) (simp add: db_example_def b freed_block_ok(2) data_block_def)
  show "cache_ok db_example" by (simp add: cache_ok_def data_block_def db_example_def fw_reset_def)
  have "can_respond db_example" by (simp add: db_example_def can_respond_def fw_reset_def)
  then show "io_ready db_example" by (simp add: io_ready_def) (simp add: db_example_def fw_reset_def)
  have "rd16 (root_page db_example) RP_FORMAT = 3" "rd16 (root_page db_example) (RP_FORMAT + 2) = 3"
    using rd16_two [of RP_FORMAT "zeros ROOT_PAGE_SIZE" 3 3] by (simp_all add: db_example_def)
  then show "rp_format db_example = ROOT_BLOCK_FORMAT_CURRENT" "rp_db_format db_example = DB_FORMAT_CURRENT"
    by (simp_all add: rp_format_def rp_db_format_def)
  show "db_view E db_example uid = None" by (simp add: db_view_def u)
qed

lemma find_range_first: "P a \<Longrightarrow> a < b \<Longrightarrow> find P [a..<b] = Some a"
  by (simp add: upt_conv_Cons)

lemma db_example_request:
  "update_request_ok env_example db_example 5 (replicate 16 7) 10 1" "update_possible db_example 5 10"
proof -
  have n: "SIZE_TO_SUB_BLK_COUNT 10 = 1" by (simp add: SIZE_TO_SUB_BLK_COUNT_def)
  show "update_request_ok env_example db_example 5 (replicate 16 7) 10 1"
    unfolding update_request_ok_def
    by (simp add: db_example_ok n nettle_ok_xor data_uid_def press_matches_def)
      (simp add: db_example_def fw_reset_def update_data_0_def)
  have "find_free_block db_example = 1"
    unfolding find_free_block_def
    by (subst find_range_first) (simp_all add: db_example_def free_info_def one_part_def)
  then show "update_possible db_example 5 10"
    by (auto simp: update_possible_def update_target_def split: option.split)
qed

theorem record_update_refines_witness:
  "\<exists>s0 s1 s2 s3. update_uid_cmd env_example 5 (replicate 16 7) 10 1 db_example = Some s0 \<and> block_loaded env_example s0 = Some s1
    \<and> confirm env_example s1 = Some s2 \<and> transfer_done env_example s2 = Some s3
    \<and> db_view env_example s3 5 = Some (10, replicate 16 7) \<and> db_view env_example s3 6 = None \<and> answered OKAY [] s3"
  using record_update_refines [OF db_example_ok(1,2) db_example_request] by (auto simp: db_example_ok)

end
