(* ===== verification/Db_Scan.thy ===== *)
theory Db_Scan
  imports Db_Commit
begin

text \<open>
  The scan at startup. From the blocks on the eMMC alone it rebuilds tables that stand for the
  same database: restarting a device loses no record. One completed transfer of a block takes
  the block into the tables and starts the next one; after 1023 transfers the scan is over.
\<close>

interpretation vstart: quiet "\<lambda>s. (st_resp (d_startup s), db3_startup_scan_running s)"
  by unfold_locales simp_all

section \<open>One block\<close>

text \<open>What the scan finds in a block of a consistent database is what the tables said of it.\<close>

lemma scan_info_ok:
  assumes "block_ok E info b"
  shows "block_ok E (scan_info E b old) b" "block_holds (scan_info E b old) b u \<longleftrightarrow> block_holds info b u"
    "\<not> (bi_valid (scan_info E b old) \<and> bi_occupied (scan_info E b old) \<and> bi_part_size (scan_info E b old) = 0)"
    "bi_valid (scan_info E b old) \<longleftrightarrow> bi_valid info" "bi_valid info \<Longrightarrow> bi_occupied (scan_info E b old) \<longleftrightarrow> bi_occupied info"
    "bi_valid info \<Longrightarrow> bi_occupied info \<Longrightarrow> bi_part_occupancy (scan_info E b old) = bi_part_occupancy info"
  using assms
  by (auto simp: block_ok_def block_holds_def scan_info_def Let_def block_crc_check_def split: if_splits)

text \<open>The entries of a block: with at most one, the map changes at its uid.\<close>

lemma scan_entries_ok:
  assumes "block_ok E info b" "bi_valid info" "bi_occupied info" "data_block i"
  shows "fold (scan_entry b i) [0..<bi_part_occupancy info] m
    = (if bi_part_occupancy info = 1 then m(ent_uid b 0 := i) else m)"
proof -
  have "bi_part_occupancy info = 0 \<or> bi_part_occupancy info = 1"
    using assms(1-3) by (auto simp: block_ok_def)
  then show ?thesis
    using assms by (auto simp: block_ok_def scan_entry_def Let_def data_block_def)
qed

section \<open>The invariant of the scan\<close>

text \<open>The blocks up to \<open>k\<close> are taken in; \<open>s\<close> is the state whose database is on the eMMC.\<close>

definition scanned :: "env \<Rightarrow> fw \<Rightarrow> nat \<Rightarrow> fw \<Rightarrow> bool" where
  "scanned E s k t \<longleftrightarrow>
     (\<forall>i. data_block i \<longrightarrow> i \<le> k \<longrightarrow> (\<exists>old. g_block_info_tbl t i = scan_info E (emmc s i) old))
   \<and> (\<forall>uid. data_uid uid \<longrightarrow> uid_map t uid = (if uid_map s uid \<le> k then uid_map s uid else INVALID_BLOCK))"

lemma scan_block_scanned:
  assumes ok: "db_ok E s" and t: "scanned E s k t" and k: "k < MAX_DATA_BLOCK"
  obtains tbl m where "scan_block E (emmc s (k + 1)) (k + 1) t = Some (t\<lparr>g_block_info_tbl := tbl, uid_map := m\<rparr>)"
    "scanned E s (k + 1) (t\<lparr>g_block_info_tbl := tbl, uid_map := m\<rparr>)"
proof -
  let ?i = "k + 1"
  have i: "data_block ?i" using k by (simp add: data_block_def)
  have b: "block_ok E (g_block_info_tbl s ?i) (emmc s ?i)" using ok i unfolding db_ok_def by blast
  let ?info = "scan_info E (emmc s ?i) (g_block_info_tbl t ?i)"
  note si = scan_info_ok [OF b, of "g_block_info_tbl t ?i"]
  define m where "m = (if bi_valid ?info \<and> bi_occupied ?info
      then fold (scan_entry (emmc s ?i) ?i) [0..<bi_part_occupancy ?info] (uid_map t) else uid_map t)"
  let ?t = "t\<lparr>g_block_info_tbl := (g_block_info_tbl t)(?i := ?info), uid_map := m\<rparr>"
  have run: "scan_block E (emmc s ?i) ?i t = Some ?t"
    unfolding scan_block_def Let_def m_def [symmetric] using k si(3) by simp
  have m_eq: "m = (if block_holds ?info (emmc s ?i) (ent_uid (emmc s ?i) 0)
      then (uid_map t)(ent_uid (emmc s ?i) 0 := ?i) else uid_map t)"
    unfolding m_def using scan_entries_ok [OF si(1) _ _ i, of "uid_map t"] by (auto simp: block_holds_def)
  have map: "m uid = (if uid_map s uid \<le> ?i then uid_map s uid else INVALID_BLOCK)" if u: "data_uid uid" for uid
  proof -
    have h: "uid_map s uid = ?i \<longleftrightarrow> block_holds ?info (emmc s ?i) uid"
      using ok u i si(2) unfolding db_ok_def by metis
    have old: "uid_map t uid = (if uid_map s uid \<le> k then uid_map s uid else INVALID_BLOCK)"
      using t u by (simp add: scanned_def)
    show ?thesis
    proof (cases "uid_map s uid = ?i")
      case True
      with h have "ent_uid (emmc s ?i) 0 = uid" "block_holds ?info (emmc s ?i) uid" by (auto simp: block_holds_def)
      then show ?thesis using True by (simp add: m_eq)
    next
      case False
      with h have "\<not> block_holds ?info (emmc s ?i) uid" by simp
      then have "m uid = uid_map t uid" by (auto simp: m_eq)
      then show ?thesis using old False by auto
    qed
  qed
  have "scanned E s ?i ?t"
    using t map unfolding scanned_def by (auto simp: le_Suc_eq)
  with run show ?thesis by (rule that)
qed

text \<open>At the end the tables satisfy the invariant and stand for the same records.\<close>

lemma scanned_all:
  assumes ok: "db_ok E s" and t: "scanned E s MAX_DATA_BLOCK t" and e: "emmc t = emmc s"
  shows "db_ok E t"
    and "root_page t = root_page s \<Longrightarrow> db_view E (t\<lparr>g_encrypt_key := g_encrypt_key s\<rparr>) = db_view E s"
proof -
  have m: "uid_map t uid = uid_map s uid" if "data_uid uid" for uid
    using t ok that by (auto simp: scanned_def db_ok_def data_block_def)
  have info: "block_ok E (g_block_info_tbl t i) (emmc s i)
      \<and> (\<forall>u. block_holds (g_block_info_tbl t i) (emmc s i) u \<longleftrightarrow> block_holds (g_block_info_tbl s i) (emmc s i) u)"
    if i: "data_block i" for i
  proof -
    obtain old where "g_block_info_tbl t i = scan_info E (emmc s i) old"
      using t i by (auto simp: scanned_def data_block_def)
    moreover have "block_ok E (g_block_info_tbl s i) (emmc s i)" using ok i unfolding db_ok_def by blast
    ultimately show ?thesis using scan_info_ok(1,2) by metis
  qed
  show t_ok: "db_ok E t"
    using ok m info unfolding db_ok_def e by simp
  show "db_view E (t\<lparr>g_encrypt_key := g_encrypt_key s\<rparr>) = db_view E s" if rp: "root_page t = root_page s"
  proof
    fix uid
    show "db_view E (t\<lparr>g_encrypt_key := g_encrypt_key s\<rparr>) uid = db_view E s uid"
    proof (cases "data_uid uid \<and> uid_map s uid \<noteq> INVALID_BLOCK")
      case True
      then have "g_block_info_tbl t (uid_map s uid) = g_block_info_tbl s (uid_map s uid)"
        using mapped_block(3) [OF ok, of uid] mapped_block(3) [OF t_ok, of uid] m by simp
      then show ?thesis
        using True m rp by (simp add: db_view_def e block_record_cong [of "t\<lparr>g_encrypt_key := g_encrypt_key s\<rparr>" _ s])
    next
      case False
      then show ?thesis using m by (auto simp: db_view_def)
    qed
  qed
qed

section \<open>The transfers\<close>

text \<open>A read of the database user ends and \<open>command_idle\<close> sees it.\<close>

definition read_done :: "env \<Rightarrow> action" where
  "read_done E = run_all [\<lambda>s. Some (mmc_rx_done s), idle_mmc_rx, idle_read_db E]"

text \<open>The device between two blocks of the scan of the STARTUP command.\<close>

definition scan_idle :: "fw \<Rightarrow> nat \<Rightarrow> fw \<Rightarrow> bool" where
  "scan_idle s k t \<longleftrightarrow>
     can_respond t \<and> active_cmd t = STARTUP \<and> (\<forall>u. \<not> g_emmc_user_ready t u) \<and> \<not> block_read_cache_updating t
   \<and> db3_startup_scan_blk_num t = k \<and> db3_startup_scan_block_read t = Buf_startup_block
   \<and> emmc t = emmc s \<and> root_page t = root_page s \<and> length (st_resp (d_startup t)) = STARTUP_RESP_SIZE"

definition scan_reading :: "fw \<Rightarrow> nat \<Rightarrow> fw \<Rightarrow> bool" where
  "scan_reading s k t \<longleftrightarrow>
     scan_idle s k t \<and> g_emmc_user t = EMMC_USER_DB \<and> g_db_read_idx t = k \<and> g_db_read_dest t = Buf_startup_block"

lemma read_done_scan:
  assumes r: "scan_reading s k t"
  obtains x where "read_done E t = db3_startup_scan_resume E x" "scan_idle s k x" "g_emmc_user x = EMMC_USER_NONE"
    "buf_get Buf_startup_block x = emmc s k" "g_block_info_tbl x = g_block_info_tbl t" "uid_map x = uid_map t"
proof -
  let ?r = "mmc_rx_done t"
  let ?y = "BEGIN_WORK READ_DB_TX_CPLT_WORK ((END_WORK MMC_RX_CPLT_WORK (?r\<lparr>g_mmc_rx_cplt := False\<rparr>))\<lparr>g_read_db_tx_complete := True\<rparr>)"
  let ?z = "(END_WORK READ_DB_TX_CPLT_WORK (?y\<lparr>g_read_db_tx_complete := False\<rparr>))\<lparr>g_emmc_user := EMMC_USER_NONE\<rparr>"
  have m: "?r = BEGIN_WORK MMC_RX_CPLT_WORK
      (t\<lparr>d_startup := (d_startup t)\<lparr>st_block := emmc s k\<rparr>, g_mmc_rx_cplt := True\<rparr>)"
    using r by (simp add: scan_reading_def scan_idle_def mmc_rx_done_def HAL_MMC_RxCpltCallback_def buf_put_def)
  have rd: "idle_mmc_rx ?r = Some ?y"
    unfolding m using r by (simp add: idle_mmc_rx_def BEGIN_WORK_def END_WORK_def scan_reading_def)
  have z: "emmc_user_done (END_WORK READ_DB_TX_CPLT_WORK (?y\<lparr>g_read_db_tx_complete := False\<rparr>)) = ?z"
    unfolding m using r
    by (simp add: emmc_user_done_def emmc_user_schedule_def BEGIN_WORK_def END_WORK_def scan_reading_def scan_idle_def)
  have "\<not> block_read_cache_updating ?z" "active_cmd ?z = STARTUP"
    unfolding m using r by (simp_all add: BEGIN_WORK_def END_WORK_def scan_reading_def scan_idle_def)
  then have c: "read_block_complete E ?z = db3_startup_scan_resume E ?z"
    by (auto simp: read_block_complete_def db3_read_block_complete_def db3_read_dispatch_def option.map_comp split: bind_split)
  have "idle_read_db E ?y = read_block_complete E ?z"
    unfolding idle_read_db_def z by (simp add: BEGIN_WORK_def [of READ_DB_TX_CPLT_WORK])
  then have "read_done E t = db3_startup_scan_resume E ?z"
    using rd c by (simp add: read_done_def split: option.split)
  then show ?thesis
    by (rule that; unfold m)
      (use r in \<open>simp_all add: BEGIN_WORK_def END_WORK_def scan_reading_def scan_idle_def buf_get_def can_respond_def\<close>)
qed

lemma read_next_scan:
  assumes "scan_idle s j t" "g_emmc_user t = EMMC_USER_NONE" "j \<noteq> 0"
  obtains v where "read_data_block (\<lambda>_. None) j Buf_startup_block t = Some v" "scan_reading s j v"
    "g_block_info_tbl v = g_block_info_tbl t" "uid_map v = uid_map t"
proof -
  let ?v = "emmc_user_db_start (t\<lparr>g_db_action := DB_ACTION_READ, g_db_read_idx := j, g_db_read_dest := Buf_startup_block,
      g_emmc_user := EMMC_USER_DB, g_emmc_user_ready := (g_emmc_user_ready t)(EMMC_USER_DB := False)\<rparr>)"
  have "read_data_block (\<lambda>_. None) j Buf_startup_block t = Some ?v"
    using assms by (simp add: read_data_block_def emmc_queue_idle scan_idle_def)
  then show ?thesis
    by (rule that)
      (use assms in \<open>simp_all add: scan_reading_def scan_idle_def emmc_user_db_start_def put_out_def can_respond_def\<close>)
qed

text \<open>One round takes one block in and requests the next.\<close>

lemma scan_round:
  assumes ok: "db_ok E s" and t: "scan_reading s (k + 1) t" "scanned E s k t" and k: "k + 1 < MAX_DATA_BLOCK"
  obtains v where "read_done E t = Some v" "scan_reading s (k + 2) v" "scanned E s (k + 1) v"
proof -
  obtain x where x: "read_done E t = db3_startup_scan_resume E x" "scan_idle s (k + 1) x" "g_emmc_user x = EMMC_USER_NONE"
    "buf_get Buf_startup_block x = emmc s (k + 1)" "g_block_info_tbl x = g_block_info_tbl t" "uid_map x = uid_map t"
    by (rule read_done_scan [OF t(1)])
  have sx: "scanned E s k x" using t(2) x(5,6) by (simp add: scanned_def)
  obtain tbl m where y: "scan_block E (emmc s (k + 1)) (k + 1) x = Some (x\<lparr>g_block_info_tbl := tbl, uid_map := m\<rparr>)"
    "scanned E s (k + 1) (x\<lparr>g_block_info_tbl := tbl, uid_map := m\<rparr>)"
    by (rule scan_block_scanned [OF ok sx]) (use k in simp, rule that)
  let ?y = "x\<lparr>g_block_info_tbl := tbl, uid_map := m, db3_startup_scan_blk_num := k + 2\<rparr>"
  obtain v where v: "read_data_block (\<lambda>_. None) (k + 2) Buf_startup_block ?y = Some v" "scan_reading s (k + 2) v"
    "g_block_info_tbl v = g_block_info_tbl ?y" "uid_map v = uid_map ?y"
    by (rule read_next_scan [of s "k + 2" ?y]) (use x(2,3) in \<open>simp_all add: scan_idle_def can_respond_def\<close>)
  have i: "db3_startup_scan_blk_num x = k + 1" "db3_startup_scan_block_read x = Buf_startup_block"
    using x(2) by (simp_all add: scan_idle_def)
  have "read_done E t = Some v"
    unfolding x(1) db3_startup_scan_resume_def i x(4) y(1) using v(1) k i by simp
  then show ?thesis
    by (rule that [OF _ v(2)]) (use y(2) v(3,4) in \<open>simp add: scanned_def\<close>)
qed

lemma scan_rounds:
  assumes ok: "db_ok E s" and t: "scan_reading s 1 t" "scanned E s 0 t"
  shows "k < MAX_DATA_BLOCK \<Longrightarrow>
    \<exists>v. run_all (replicate k (read_done E)) t = Some v \<and> scan_reading s (k + 1) v \<and> scanned E s k v"
proof (induction k)
  case 0
  then show ?case using t by simp
next
  case (Suc k)
  then obtain v where v: "run_all (replicate k (read_done E)) t = Some v" "scan_reading s (k + 1) v" "scanned E s k v"
    by auto
  obtain w where "read_done E v = Some w" "scan_reading s (k + 2) w" "scanned E s (k + 1) w"
    by (rule scan_round [OF ok v(2,3)]) (use Suc.prems in simp_all)
  moreover have "replicate (Suc k) (read_done E) = replicate k (read_done E) @ [read_done E]"
    by (simp add: replicate_append_same)
  ultimately show ?case using v(1) by (simp add: run_all_append del: replicate_Suc)
qed

text \<open>The last round ends the scan and the command.\<close>

lemma scan_finishes:
  assumes ok: "db_ok E s" and t: "scan_reading s MAX_DATA_BLOCK t" "scanned E s (MAX_DATA_BLOCK - 1) t"
  obtains v where "read_done E t = Some v" "scanned E s MAX_DATA_BLOCK v" "emmc v = emmc s" "root_page v = root_page s"
    "g_device_state v = DS_LOGGED_OUT" "\<not> db3_startup_scan_running v"
proof -
  obtain x where x: "read_done E t = db3_startup_scan_resume E x" "scan_idle s MAX_DATA_BLOCK x" "g_emmc_user x = EMMC_USER_NONE"
    "buf_get Buf_startup_block x = emmc s MAX_DATA_BLOCK" "g_block_info_tbl x = g_block_info_tbl t" "uid_map x = uid_map t"
    by (rule read_done_scan [OF t(1)])
  have sx: "scanned E s 1022 x" using t(2) x(5,6) by (simp add: scanned_def)
  obtain tbl m where y: "scan_block E (emmc s MAX_DATA_BLOCK) MAX_DATA_BLOCK x = Some (x\<lparr>g_block_info_tbl := tbl, uid_map := m\<rparr>)"
    "scanned E s MAX_DATA_BLOCK (x\<lparr>g_block_info_tbl := tbl, uid_map := m\<rparr>)"
    by (rule scan_block_scanned [OF ok sx, simplified]) (rule that)
  let ?y = "x\<lparr>g_block_info_tbl := tbl, uid_map := m, db3_startup_scan_blk_num := 1024, db3_startup_scan_running := False\<rparr>"
  have y_fields: "active_cmd ?y = STARTUP" "can_respond ?y" "length (st_resp (d_startup ?y)) = STARTUP_RESP_SIZE"
    "emmc ?y = emmc s" "root_page ?y = root_page s"
    using x(2) by (simp_all add: scan_idle_def can_respond_def)
  obtain z where z: "enter_state DS_LOGGED_OUT ?y = Some z" "g_device_state z = DS_LOGGED_OUT" "active_cmd z = STARTUP"
    using enter_state_active [of ?y DS_LOGGED_OUT] y_fields(1) by auto
  have z_resp: "can_respond z" "st_resp (d_startup z) = st_resp (d_startup ?y)"
    using can_respond_entered [OF z(1) [unfolded enter_state_def]] y_fields vstart.view_enter_state [OF z(1)] by simp_all
  let ?z = "z\<lparr>d_startup := (d_startup z)\<lparr>st_resp := (st_resp (d_startup z))[3 := word_of_nat (ds_code (g_device_state z))]\<rparr>\<rparr>"
  have "can_respond ?z" using z_resp(1) by (simp add: can_respond_def)
  then obtain v where v: "finish_command OKAY (Some (st_resp (d_startup ?z))) STARTUP_RESP_SIZE ?z = Some v"
    using finish_multi_total [of ?z STARTUP_RESP_SIZE "Some (st_resp (d_startup ?z))" OKAY 0] y_fields(3) z_resp(2)
    by (auto simp: finish_command_def)
  have i: "db3_startup_scan_blk_num x = MAX_DATA_BLOCK" "db3_startup_scan_block_read x = Buf_startup_block"
    using x(2) by (simp_all add: scan_idle_def)
  have run: "read_done E t = Some v"
    unfolding x(1) db3_startup_scan_resume_def i x(4) y(1) using z v i y_fields(1) by simp
  have core: "db_core v = db_core ?y"
    using vcore.view_enter_state [OF z(1)] vcore.view_finish [OF v] by (simp add: db_core_def)
  have st: "g_device_state v = DS_LOGGED_OUT"
    using vstate.view_finish [OF v] z(2) by simp
  have sr: "db3_startup_scan_running v = db3_startup_scan_running ?y"
    using vstart.view_enter_state [OF z(1)] vstart.view_finish [OF v] by simp
  show ?thesis
    by (rule that [OF run]) (use core st sr y(2) y_fields in \<open>simp_all add: scanned_def db_core_def\<close>)
qed

text \<open>
  C6. Restarting loses no record. Let \<open>s\<close> be any state of a device whose database satisfies its
  invariant, and \<open>t\<close> a device that handles STARTUP with the same eMMC content and root page and
  whatever tables. The scan ends after the 1023 transfers it requests, with the response sent
  and the device logged out; the tables satisfy the invariant again, and with the key of \<open>s\<close>
  they stand for exactly the records of \<open>s\<close>.
\<close>

theorem startup_scan_rebuilds:
  assumes "db_ok E s" "io_ready t" "active_cmd t = STARTUP" "emmc t = emmc s" "root_page t = root_page s"
    and "length (st_resp (d_startup t)) = STARTUP_RESP_SIZE"
  shows "\<exists>t0 v. db3_startup_scan Buf_startup_block t = Some t0
    \<and> run_all (replicate NUM_DATA_BLOCKS (read_done E)) t0 = Some v
    \<and> g_device_state v = DS_LOGGED_OUT \<and> \<not> db3_startup_scan_running v
    \<and> db_ok E v \<and> db_view E (v\<lparr>g_encrypt_key := g_encrypt_key s\<rparr>) = db_view E s"
proof -
  let ?t = "t\<lparr>uid_map := (\<lambda>u. if MIN_UID \<le> u \<and> u \<le> MAX_UID then INVALID_BLOCK else uid_map t u),
      db3_startup_scan_running := True, db3_startup_scan_block_read := Buf_startup_block, db3_startup_scan_blk_num := MIN_DATA_BLOCK\<rparr>"
  obtain t0 where t0: "read_data_block (\<lambda>_. None) 1 Buf_startup_block ?t = Some t0" "scan_reading s 1 t0"
    "g_block_info_tbl t0 = g_block_info_tbl ?t" "uid_map t0 = uid_map ?t"
    by (rule read_next_scan [of s 1 ?t]) (use assms in \<open>simp_all add: scan_idle_def io_ready_def can_respond_def\<close>)
  have s0: "scanned E s 0 t0" using t0(3,4) by (simp add: scanned_def data_block_def data_uid_def)
  obtain u where u: "run_all (replicate 1022 (read_done E)) t0 = Some u" "scan_reading s MAX_DATA_BLOCK u"
    "scanned E s (MAX_DATA_BLOCK - 1) u"
    using scan_rounds [OF assms(1) t0(2) s0, of 1022] by auto
  obtain v where v: "read_done E u = Some v" "scanned E s MAX_DATA_BLOCK v" "emmc v = emmc s" "root_page v = root_page s"
    "g_device_state v = DS_LOGGED_OUT" "\<not> db3_startup_scan_running v"
    by (rule scan_finishes [OF assms(1) u(2,3)])
  have "replicate NUM_DATA_BLOCKS (read_done E) = replicate 1022 (read_done E) @ [read_done E]"
    using replicate_add [of 1022 1 "read_done E"] by simp
  then have "run_all (replicate NUM_DATA_BLOCKS (read_done E)) t0 = Some v"
    by (simp only: run_all_append u(1) option.case run_all.simps v(1))
  moreover have "db3_startup_scan Buf_startup_block t = Some t0" using t0(1) by (simp add: db3_startup_scan_def)
  ultimately show ?thesis using v scanned_all [OF assms(1) v(2,3)] by blast
qed

theorem startup_scan_rebuilds_witness:
  "\<exists>t0 v. db3_startup_scan Buf_startup_block (db_example\<lparr>active_cmd := STARTUP\<rparr>) = Some t0
    \<and> run_all (replicate NUM_DATA_BLOCKS (read_done env_example)) t0 = Some v
    \<and> g_device_state v = DS_LOGGED_OUT \<and> db_ok env_example v"
proof -
  have "io_ready (db_example\<lparr>active_cmd := STARTUP\<rparr>)"
    using db_example_ok(3) by (simp add: io_ready_def)
  moreover have "length (st_resp (d_startup db_example)) = STARTUP_RESP_SIZE"
    by (simp add: db_example_def fw_reset_def)
  ultimately show ?thesis
    using startup_scan_rebuilds [of env_example db_example "db_example\<lparr>active_cmd := STARTUP\<rparr>"] db_example_ok(1) by auto
qed

end
