(* ===== verification/Db_Limits.thy ===== *)
theory Db_Limits
  imports Db_Scan
begin

text \<open>
  The database at its limits: requests that no block can take, records of the largest size the
  dispatcher lets through, and the deletion of a record that does not exist.
\<close>

section \<open>A full database\<close>

text \<open>No search of \<open>allocate_uid\<close> finds a block.\<close>

definition db_full :: "fw \<Rightarrow> bool" where
  "db_full s \<longleftrightarrow> (\<forall>i. data_block i \<longrightarrow>
     (bi_valid (g_block_info_tbl s i) \<longrightarrow> bi_occupied (g_block_info_tbl s i)
        \<and> \<not> bi_part_occupancy (g_block_info_tbl s i) < bi_part_count (g_block_info_tbl s i)))"

lemma db_full_searches:
  assumes "db_full s"
  shows "alloc_exact p s = None" "find_free_block s = INVALID_BLOCK" "alloc_larger p s = INVALID_BLOCK"
proof -
  have i: "data_block i" if "i \<in> set [MIN_DATA_BLOCK..<MAX_DATA_BLOCK + 1]" for i
    using that by (auto simp: data_block_def)
  show "alloc_exact p s = None"
    unfolding alloc_exact_def find_None_iff using assms i by (auto simp: db_full_def Let_def)
  have "find (\<lambda>i. bi_valid (g_block_info_tbl s i) \<and> \<not> bi_occupied (g_block_info_tbl s i)) [MIN_DATA_BLOCK..<MAX_DATA_BLOCK + 1] = None"
    unfolding find_None_iff using assms i unfolding db_full_def by blast
  then show "find_free_block s = INVALID_BLOCK" by (simp add: find_free_block_def)
  have "fold (alloc_larger_step p s) is acc = acc" if "\<forall>i\<in>set is. data_block i" for "is" acc
    using that assms by (induction "is" arbitrary: acc) (auto simp: alloc_larger_step_def db_full_def Let_def split: prod.split)
  then show "alloc_larger p s = INVALID_BLOCK" unfolding alloc_larger_def using i by simp
qed

lemma complete_root_block:
  assumes "up_block_num (d_update s) = ROOT_DATA_BLOCK"
  shows "update_uid_cmd_complete E s = write_root_block E Buf_update_block BLK_SIZE
    (invalidate_data_block_cache ROOT_DATA_BLOCK (s\<lparr>d_update := (d_update s)\<lparr>up_block := completed_block E (d_update s)\<rparr>\<rparr>))"
  using assms by (simp add: update_uid_cmd_complete_def write_data_block_def completed_block_def upd_update_def Let_def)

lemma length_completed_block [simp]:
  "length (up_block u) = BLK_SIZE \<Longrightarrow> length (completed_block E u) = BLK_SIZE"
  by (simp add: completed_block_def)

text \<open>
  C36. A full database is not refused. When no block is free and no partition is left,
  \<open>update_uid\<close> for a new record does not report NO_SPACE: it builds a block out of whatever the
  command data held and reports success for block 0, the invalid block number of the allocator
  but also the number of the root block. The write that completes the command then puts the
  record in the place of the root page copy that is not in use: after 257 rounds of the main
  loop that copy is the record's block, stamped with a right checksum, so that startup takes it
  for a valid root page.
\<close>

theorem full_database_replaces_root_page:
  fixes t :: fw
  defines "v \<equiv> upd_update (\<lambda>u. u\<lparr>up_prev_block_num := INVALID_BLOCK, up_block_num := ROOT_DATA_BLOCK\<rparr>) t"
  assumes "db_full s" "data_uid uid" "uid_map s uid = INVALID_BLOCK" "sz \<noteq> 0"
    and run: "allocate_uid_blk E uid sz 0 s = Some t"
    and t: "length (up_block (d_update t)) = BLK_SIZE" "flash_state t = FLASH_IDLE" "root_page_ptr t = Some p"
  shows "update_uid E uid sz s = Some (UPDATE_UID_SUCCESS, INVALID_BLOCK, ROOT_DATA_BLOCK, t)
    \<and> (\<exists>w1 w2 it. update_uid_cmd_complete E v = Some w1 \<and> flash_steps 257 w1 = Some w2
         \<and> flash_read (crypt_addr (next_crypt_page (Some p))) ROOT_PAGE_SIZE w2
             = take ROOT_PAGE_SIZE (stamp_root_page E it (completed_block E (d_update v)))
         \<and> page_valid E (next_crypt_page (Some p)) w2)"
proof -
  note f = db_full_searches [OF assms(2)]
  have "find_uid uid s = Some (Find_unmapped, INVALID_BLOCK, s)"
    using assms(3,4) by (simp add: find_uid_def data_uid_def)
  then have u: "update_uid E uid sz s = Some (UPDATE_UID_SUCCESS, INVALID_BLOCK, ROOT_DATA_BLOCK, t)"
    using assms(5) run by (simp add: update_uid_def allocate_uid_def f)
  let ?x = "invalidate_data_block_cache ROOT_DATA_BLOCK (v\<lparr>d_update := (d_update v)\<lparr>up_block := completed_block E (d_update v)\<rparr>\<rparr>)"
  have b: "buf_get Buf_update_block ?x = completed_block E (d_update v)"
    by (simp add: buf_get_def invalidate_data_block_cache_def)
  have l: "length (completed_block E (d_update v)) = BLK_SIZE" using t(1) by (simp add: v_def)
  have x: "flash_state ?x = FLASH_IDLE" "root_page_ptr ?x = Some p"
    using t by (simp_all add: invalidate_data_block_cache_def v_def upd_update_def)
  obtain w1 w2 where w: "write_root_block E Buf_update_block BLK_SIZE ?x = Some w1" "flash_steps 257 w1 = Some w2"
    "flash_read (crypt_addr (next_crypt_page (Some p))) ROOT_PAGE_SIZE w2
       = take ROOT_PAGE_SIZE (stamp_root_page E (next_iteration ?x) (completed_block E (d_update v)))"
    using root_write_done [of ?x Buf_update_block 4096 p 256 E] x b l by auto
  moreover have "update_uid_cmd_complete E v = Some w1"
    using w(1) complete_root_block [of v E] by (simp add: v_def)
  moreover have "page_valid E (next_crypt_page (Some p)) w2"
    by (rule stamped_page(1) [OF w(3)]) (use l in simp)
  ultimately show ?thesis using u by blast
qed

lemma db_example_iv: "\<exists>iv. derive_iv uid db_example = Some iv \<and> length iv = 16"
proof -
  obtain iv where "derive_iv uid db_example = Some iv"
    using db_example_ok(4,5) by (auto simp: derive_iv_def Let_def)
  moreover have "length (root_page db_example) = ROOT_PAGE_SIZE" by (simp add: db_example_def)
  ultimately show ?thesis using length_derive_iv by blast
qed

definition full_example :: fw where
  "full_example = db_example\<lparr>g_block_info_tbl := (\<lambda>_. one_part 1), root_page_ptr := Some Crypt_data1,
     d_update := update_data_0\<lparr>up_blk_info := one_part 0\<rparr>\<rparr>"

theorem full_database_replaces_root_page_witness:
  "\<exists>t w1 w2. update_uid env_example 5 10 full_example = Some (UPDATE_UID_SUCCESS, INVALID_BLOCK, ROOT_DATA_BLOCK, t)
     \<and> flash_steps 257 w1 = Some w2 \<and> page_valid env_example Crypt_data2 w2"
proof -
  have n: "SIZE_TO_SUB_BLK_COUNT 10 = 1" by (simp add: SIZE_TO_SUB_BLK_COUNT_def)
  have full: "db_full full_example" by (simp add: db_full_def full_example_def one_part_def)
  obtain b where b: "allocate_uid_blk env_example 5 10 0 full_example = Some (upd_update (\<lambda>u. u\<lparr>up_blk_info := (up_blk_info u)
        \<lparr>bi_part_occupancy := 0 + 1, bi_occupied := True, bi_valid := True\<rparr>, up_block := b\<rparr>) full_example)"
    "length b = BLK_SIZE"
    using allocate_uid_blk_stores [of full_example 10 env_example 5 0]
    by (simp add: full_example_def one_part_def update_data_0_def n get_part_def ent_off_def nettle_ok_xor)
      (auto simp: db_example_def fw_reset_def)
  let ?t = "upd_update (\<lambda>u. u\<lparr>up_blk_info := (up_blk_info u)
        \<lparr>bi_part_occupancy := 0 + 1, bi_occupied := True, bi_valid := True\<rparr>, up_block := b\<rparr>) full_example"
  have "update_uid env_example 5 10 full_example = Some (UPDATE_UID_SUCCESS, INVALID_BLOCK, ROOT_DATA_BLOCK, ?t)
    \<and> (\<exists>w1 w2 it. update_uid_cmd_complete env_example
          (upd_update (\<lambda>u. u\<lparr>up_prev_block_num := INVALID_BLOCK, up_block_num := ROOT_DATA_BLOCK\<rparr>) ?t) = Some w1
        \<and> flash_steps 257 w1 = Some w2
        \<and> flash_read (crypt_addr (next_crypt_page (Some Crypt_data1))) ROOT_PAGE_SIZE w2
            = take ROOT_PAGE_SIZE (stamp_root_page env_example it (completed_block env_example
                (d_update (upd_update (\<lambda>u. u\<lparr>up_prev_block_num := INVALID_BLOCK, up_block_num := ROOT_DATA_BLOCK\<rparr>) ?t))))
        \<and> page_valid env_example (next_crypt_page (Some Crypt_data1)) w2)"
    by (rule full_database_replaces_root_page [OF full _ _ _ b(1)])
      (use b(2) in \<open>simp_all add: data_uid_def\<close>, simp_all add: upd_update_def full_example_def db_example_def fw_reset_def)
  then show ?thesis by (auto simp: next_crypt_page_def)
qed

section \<open>The largest record\<close>

text \<open>
  C37. A record of 1024 sub-blocks is let through and written past its block. The dispatcher
  compares the size with the length of the message only, and the message has room for 16384
  bytes of data; a block has room for 1023 sub-blocks behind its directory. For a new record and
  a free block, handling the request makes the encryption write 16 bytes behind the end of
  the block buffer (the result \<open>None\<close> of the model).
\<close>

theorem largest_record_overflows:
  assumes "rd16 d 0 = uid" "rd16 d 2 = sz" "SIZE_TO_SUB_BLK_COUNT sz = 1024" "length d = 4 + 16384"
    and "data_uid uid" "uid_map s uid = INVALID_BLOCK" "alloc_exact MAX_PART_SIZE s = None" "find_free_block s \<noteq> INVALID_BLOCK"
    and "derive_iv uid s = Some iv" "length iv = 16" "length (up_entry (d_update s)) = BLK_SIZE"
    and "nettle_ok (env_nettle E)" "length (g_encrypt_key s) = 32"
  shows "int (length d) \<le> int CMD_PACKET_PAYLOAD_SIZE \<and> update_uid_request E d (int (length d)) s = None"
proof -
  have data: "length (slice d 4 16384) = 16384" using assms(4) by simp
  let ?s = "\<lambda>press. upd_update (update_set_args uid (slice d 4 16384) sz press iv) s"
  have sz: "sz \<noteq> 0" using assms(3) by (auto simp: SIZE_TO_SUB_BLK_COUNT_def)
  have blk: "allocate_uid_blk E uid sz rv x = None"
    if x: "bi_part_occupancy (up_blk_info (d_update x)) = 0" "bi_part_size (up_blk_info (d_update x)) = MAX_PART_SIZE"
      "bi_part_tbl_offs (up_blk_info (d_update x)) = 1" "length (up_block (d_update x)) = BLK_SIZE"
      "length (up_entry (d_update x)) = BLK_SIZE" "up_iv (d_update x) = iv" "g_encrypt_key x = g_encrypt_key s" for rv x
  proof -
    let ?b = "blk_set_header (blk_part_size (up_block (d_update x))) (blk_occupancy (up_block (d_update x)) + 1) (up_block (d_update x))"
    have lb: "length ?b = BLK_SIZE" using x(4) by simp
    obtain b where b: "ent_write 0 uid sz rv ?b = Some b" "length b = BLK_SIZE"
      by (rule ent_write_Some [OF lb, of 0 uid sz rv]) simp
    have c: "length (signet_aes_256_encrypt_cbc (env_nettle E) (g_encrypt_key s) 1024 (Some iv) (up_entry (d_update x))) = 16384"
      using length_cbc_256 [of "env_nettle E" "g_encrypt_key s" "Some iv" 1024] x(5) assms(10,12,13) by simp
    show ?thesis
      using x b c assms(3)
      by (simp add: allocate_uid_blk_def Let_def get_part_def memcpy_to_def slice_all del: signet_aes_256_encrypt_cbc.simps)
  qed
  have cmd: "update_uid_cmd E uid (slice d 4 16384) sz press s = None" for press
  proof -
    have "update_uid_cmd E uid (slice d 4 16384) sz press s = update_uid_cmd_iter E (?s press)"
      using data assms(9,11) by (simp add: update_uid_cmd_def update_set_args_def upd_update_def)
    moreover have "find_uid uid (?s press) = Some (Find_unmapped, INVALID_BLOCK, ?s press)"
      using assms(5,6) by (simp add: find_uid_def data_uid_def)
    moreover have "allocate_uid E uid sz 0 (?s press) = None"
      using assms(7,8,11) data
      by (simp add: allocate_uid_def Let_def) (rule blk; simp add: update_set_args_def)
    ultimately show ?thesis
      using sz by (simp add: update_uid_cmd_iter_def update_uid_def update_set_args_def)
  qed
  have "update_uid_request E d (int (length d)) s = None"
    using assms(1-5) cmd by (simp add: update_uid_request_def Let_def data_uid_def)
  then show ?thesis using assms(4) by simp
qed

theorem largest_record_overflows_witness:
  "update_uid_request env_example (le16 5 @ le16 14336 @ replicate 16384 7) 16388 db_example = None"
proof -
  let ?d = "le16 5 @ le16 14336 @ replicate 16384 (7 :: u8)"
  obtain iv where iv: "derive_iv 5 db_example = Some iv" "length iv = 16" using db_example_iv by blast
  have "rd16 ?d 0 = rd16 (le16 5) 0" by (rule rd16_cong) (simp_all add: nth_append)
  then have r0: "rd16 ?d 0 = 5" by (simp add: rd16_le16)
  have "rd16 ?d 2 = rd16 (le16 14336) 0" by (rule rd16_cong) (simp_all add: nth_append)
  then have r2: "rd16 ?d 2 = 14336" by (simp add: rd16_le16)
  have free: "find_free_block db_example \<noteq> INVALID_BLOCK"
    unfolding find_free_block_def by (subst find_range_first) (simp_all add: db_example_def free_info_def one_part_def)
  have exact: "alloc_exact MAX_PART_SIZE db_example = None"
    by (simp add: alloc_exact_def find_None_iff db_example_def free_info_def one_part_def Let_def)
  have s: "uid_map db_example 5 = INVALID_BLOCK" "length (up_entry (d_update db_example)) = BLK_SIZE"
    "length (g_encrypt_key db_example) = 32"
    by (simp_all add: db_example_def fw_reset_def update_data_0_def)
  show ?thesis
    using largest_record_overflows [OF r0 r2 _ _ _ s(1) exact free iv s(2) _ s(3), of env_example]
    by (simp add: SIZE_TO_SUB_BLK_COUNT_def data_uid_def nettle_ok_xor)
qed

section \<open>Deleting what is not there\<close>

text \<open>
  C38. Deleting a record that does not exist is never answered. The status INVALID of
  \<open>update_uid\<close> is not handled by its caller: the request leaves everything but the command data
  as it was, so no response is sent, no button is waited for and no transfer is started, and
  the command stays the active one.
\<close>

theorem delete_missing_never_answered:
  assumes "data_uid uid" "uid_map s uid = INVALID_BLOCK" "derive_iv uid s = Some iv"
  shows "\<exists>u. update_uid_cmd E uid [] 0 press s = Some (s\<lparr>d_update := u\<rparr>)"
proof -
  let ?s = "upd_update (update_set_args uid [] 0 press iv) s"
  have "update_uid_cmd E uid [] 0 press s = update_uid_cmd_iter E ?s"
    using assms(3) by (simp add: update_uid_cmd_def update_set_args_def upd_update_def)
  moreover have "find_uid uid ?s = Some (Find_unmapped, INVALID_BLOCK, ?s)"
    using assms(1,2) by (simp add: find_uid_def data_uid_def)
  ultimately show ?thesis
    by (simp add: update_uid_cmd_iter_def update_uid_def deallocate_uid_def update_set_args_def) (auto simp: upd_update_def)
qed

theorem delete_missing_never_answered_witness:
  "\<exists>u. update_uid_cmd env_example 5 [] 0 1 db_example = Some (db_example\<lparr>d_update := u\<rparr>)"
proof -
  have "uid_map db_example 5 = INVALID_BLOCK" by (simp add: db_example_def fw_reset_def)
  moreover obtain iv where "derive_iv 5 db_example = Some iv" using db_example_iv by blast
  ultimately show ?thesis using delete_missing_never_answered [of 5 db_example iv] by (simp add: data_uid_def)
qed

end
