(* ===== verification/Db_Read.thy ===== *)
theory Db_Read
  imports Db_Limits Transport
begin

text \<open>
  Reading a record: what READ_UID sends is the record of the abstract database, and what a host
  stored with its codec is what it gets back.
\<close>

section \<open>READ_UID\<close>

text \<open>The view of a record whose block is mapped.\<close>

lemma db_view_mapped:
  assumes ok: "db_ok E s" and uid: "data_uid uid" "uid_map s uid = i" "i \<noteq> INVALID_BLOCK" and iv: "derive_iv uid s = Some iv"
  obtains d where "db_view E s uid = Some (ent_sz (emmc s i) 0, d)" "SIZE_TO_SUB_BLK_COUNT (ent_sz (emmc s i) 0) \<le> MAX_PART_SIZE"
    "\<And>t. block_read_cache t = emmc s i \<Longrightarrow> g_block_info_tbl t i = g_block_info_tbl s i \<Longrightarrow> g_encrypt_key t = g_encrypt_key s \<Longrightarrow>
      decode_uid E (ent_sz (emmc s i) 0) i 0 masked iv t
        = Some (if masked \<noteq> 0 then mask_uid_data d (SIZE_TO_SUB_BLK_COUNT (ent_sz (emmc s i) 0)) else d)"
proof -
  note m = mapped_block [OF ok uid(1), unfolded uid(2), OF uid(3)]
  have "block_ok E (g_block_info_tbl s i) (emmc s i)" using ok m(1) unfolding db_ok_def by blast
  then have b: "length (emmc s i) = BLK_SIZE" "SIZE_TO_SUB_BLK_COUNT (ent_sz (emmc s i) 0) \<le> MAX_PART_SIZE"
    by (simp_all add: block_ok_def m(3)) (simp_all add: one_part_def)
  have e: "ent_uid (emmc s i) 0 = uid" using m(2) by (simp add: block_holds_def)
  define d where "d = signet_aes_256_decrypt_cbc (env_nettle E) (g_encrypt_key s) (SIZE_TO_SUB_BLK_COUNT (ent_sz (emmc s i) 0)) (Some iv)
      (slice (emmc s i) 16 (SIZE_TO_SUB_BLK_COUNT (ent_sz (emmc s i) 0) * 16))"
  have dec: "decode_uid E (ent_sz (emmc s i) 0) i 0 mk iv t
        = Some (if mk \<noteq> 0 then mask_uid_data d (SIZE_TO_SUB_BLK_COUNT (ent_sz (emmc s i) 0)) else d)"
    if "block_read_cache t = emmc s i" "g_block_info_tbl t i = g_block_info_tbl s i" "g_encrypt_key t = g_encrypt_key s" for t mk
    using that b by (simp add: decode_uid_def d_def m(3) get_part_def one_part_def Let_def)
  have "db_view E s uid = Some (ent_sz (emmc s i) 0, d)"
    using uid iv e dec [of "s\<lparr>block_read_cache := emmc s i\<rparr>" 0]
    by (simp add: db_view_def block_record_def m(3)) (simp add: one_part_def)
  then show ?thesis using that b(2) dec by blast
qed

lemma upd_read_simps [simp]:
  "d_read_uid (upd_read f s) = f (d_read_uid s)" "uid_map (upd_read f s) = uid_map s"
  "g_block_info_tbl (upd_read f s) = g_block_info_tbl s" "emmc (upd_read f s) = emmc s"
  "root_page (upd_read f s) = root_page s" "g_encrypt_key (upd_read f s) = g_encrypt_key s"
  "block_read_cache (upd_read f s) = block_read_cache s" "block_read_cache_idx (upd_read f s) = block_read_cache_idx s"
  "active_cmd (upd_read f s) = active_cmd s" "io_ready (upd_read f s) = io_ready s" "can_respond (upd_read f s) = can_respond s"
  "db_core (upd_read f s) = db_core s" "block_read_cache_updating (upd_read f s) = block_read_cache_updating s"
  "waiting_for_button_press (upd_read f s) = waiting_for_button_press s"
  "waiting_for_long_button_press (upd_read f s) = waiting_for_long_button_press s"
  by (simp_all add: upd_read_def io_ready_def can_respond_def db_core_def)

lemma length_decrypt_cbc [simp]: "length (signet_aes_256_decrypt_cbc N k n (Some iv) din) = 16 * n"
  by (induction N k n "Some iv" din arbitrary: iv rule: signet_aes_256_decrypt_cbc.induct)
    (simp_all add: Let_def xor_block_def)

lemma length_mask_uid_data [simp]: "length (mask_uid_data d c) = length d"
  by (simp add: mask_uid_data_fold)

text \<open>The response for a record of the database.\<close>

definition record_response :: "nat \<Rightarrow> nat \<times> bytes \<Rightarrow> bytes" where
  "record_response masked rec =
     le16 (fst rec) @ (if masked \<noteq> 0 then mask_uid_data (snd rec) (SIZE_TO_SUB_BLK_COUNT (fst rec)) else snd rec)"

text \<open>The command data of a read whose record has been found.\<close>

definition read_found :: "fw \<Rightarrow> nat \<Rightarrow> nat \<Rightarrow> bytes \<Rightarrow> bool" where
  "read_found s uid masked iv \<longleftrightarrow>
     ru_ent (d_read_uid s) = Some 0 \<and> ru_index (d_read_uid s) = 0 \<and> ru_block_num (d_read_uid s) = uid_map s uid
   \<and> ru_masked (d_read_uid s) = masked \<and> ru_iv (d_read_uid s) = iv \<and> length (ru_block (d_read_uid s)) = BLK_SIZE"

lemma read_uid_cmd_complete_answers:
  assumes ok: "db_ok E s" "cache_ok s" and uid: "data_uid uid" "uid_map s uid \<noteq> INVALID_BLOCK"
    and c: "block_read_cache_idx s = uid_map s uid" "can_respond s" and iv: "derive_iv uid s = Some iv"
    and r: "read_found s uid masked iv"
  obtains rec t where "db_view E s uid = Some rec" "read_uid_cmd_complete E s = Some t"
    "answered OKAY (record_response masked rec) t" "db_core t = db_core s" "block_read_cache_updating t = block_read_cache_updating s"
    "waiting_for_button_press t = waiting_for_button_press s" "waiting_for_long_button_press t = waiting_for_long_button_press s"
proof -
  define i where "i = uid_map s uid"
  define sz where "sz = ent_sz (emmc s i) 0"
  let ?n = "SIZE_TO_SUB_BLK_COUNT sz"
  obtain d where d: "db_view E s uid = Some (sz, d)" "?n \<le> MAX_PART_SIZE"
    "\<And>t. block_read_cache t = emmc s i \<Longrightarrow> g_block_info_tbl t i = g_block_info_tbl s i \<Longrightarrow> g_encrypt_key t = g_encrypt_key s \<Longrightarrow>
      decode_uid E sz i 0 masked iv t = Some (if masked \<noteq> 0 then mask_uid_data d ?n else d)"
    unfolding sz_def by (rule db_view_mapped [OF ok(1) uid(1) i_def [symmetric] _ iv]) (use uid(2) i_def in auto)
  define e where "e = (if masked \<noteq> 0 then mask_uid_data d ?n else d)"
  have blk: "block_read_cache s = emmc s i"
    using ok(2) mapped_block(1) [OF ok(1) uid] c(1) by (simp add: cache_ok_def i_def)
  have "decode_uid E sz i 0 masked iv s = Some e" using d(3) [of s] blk by (simp add: e_def)
  then have le: "length e = 16 * ?n" by (auto simp: decode_uid_def Let_def bind_eq_Some_conv)
  define b1 where "b1 = splice (ru_block (d_read_uid s)) 0 (le16 sz)"
  define b2 where "b2 = splice b1 2 e"
  have l: "length b1 = BLK_SIZE" "length b2 = BLK_SIZE" using r le d(2) by (simp_all add: b1_def b2_def read_found_def)
  have b: "memcpy_to (ru_block (d_read_uid s)) 0 (le16 sz) = Some b1" "memcpy_to b1 2 e = Some b2"
    using r le d(2) l by (simp_all add: b1_def b2_def memcpy_to_def read_found_def)
  have pay: "take (?n * 16 + 2) b2 = record_response masked (sz, d)"
  proof -
    have "take (?n * 16 + 2) b2 = take 2 b1 @ e"
      using le d(2) l(1) by (simp add: b2_def splice_def mult.commute numeral_2_eq_2)
    also have "take 2 b1 = le16 sz" using r by (simp add: b1_def splice_def read_found_def)
    finally show ?thesis by (simp add: record_response_def e_def)
  qed
  let ?s = "upd_read (\<lambda>r. r\<lparr>ru_waiting_for_button_press := False, ru_block := b1\<rparr>) s"
  let ?t = "upd_read (\<lambda>r. r\<lparr>ru_block := b2\<rparr>) ?s"
  have dec: "decode_uid E sz i 0 masked iv ?s = Some e"
    using d(3) [of ?s] blk by (simp add: e_def)
  obtain t where t: "finish_command OKAY (Some b2) (?n * 16 + 2) ?t = Some t" "answered OKAY (take (?n * 16 + 2) b2) t"
    using finish_answered [of ?t "?n * 16 + 2" b2 OKAY] c(2) d(2) l(2) by auto
  have u: "upd_read f (upd_read g s) = upd_read (f \<circ> g) s" for f g by (simp add: upd_read_def)
  have "read_uid_cmd_complete E s = Some t"
    using r b dec t(1) c(1) blk
    by (simp add: read_uid_cmd_complete_def read_found_def Let_def i_def [symmetric] sz_def [symmetric] u comp_def)
  moreover have "db_core t = db_core s" "block_read_cache_updating t = block_read_cache_updating s"
    using vcore.view_finish [OF t(1)] vdb.view_finish [OF t(1)] by simp_all
  moreover have "waiting_for_button_press t = waiting_for_button_press s" "waiting_for_long_button_press t = waiting_for_long_button_press s"
    using vwait.view_finish [OF t(1)] by simp_all
  ultimately show ?thesis using that [OF d(1) _ t(2) [unfolded pay]] by blast
qed

text \<open>A read command whose request has been taken in.\<close>

definition reading :: "fw \<Rightarrow> nat \<Rightarrow> nat \<Rightarrow> bytes \<Rightarrow> bool" where
  "reading s uid masked iv \<longleftrightarrow>
     active_cmd s = READ_UID \<and> io_ready s \<and> \<not> waiting_for_button_press s \<and> \<not> waiting_for_long_button_press s
   \<and> derive_iv uid s = Some iv \<and> ru_uid (d_read_uid s) = uid \<and> ru_masked (d_read_uid s) = masked
   \<and> ru_iv (d_read_uid s) = iv \<and> length (ru_block (d_read_uid s)) = BLK_SIZE"

interpretation vread: button_frame "\<lambda>s. (db_core s, d_read_uid s, block_read_cache s, block_read_cache_idx s, block_read_cache_updating s)"
  by unfold_locales (simp_all add: db_core_def)

lemma read_uid_cmd_iter_answers:
  assumes ok: "db_ok E s" "cache_ok s" and uid: "data_uid uid" "uid_map s uid \<noteq> INVALID_BLOCK"
    and c: "block_read_cache_idx s = uid_map s uid" and r: "reading s uid masked iv"
  obtains rec s1 t where "read_uid_cmd_iter E s = Some s1" "\<not> block_read_cache_updating s1" "confirm E s1 = Some t"
    "db_view E s uid = Some rec" "answered OKAY (record_response masked rec) t" "db_core t = db_core s"
proof -
  let ?s = "upd_read (\<lambda>d. d\<lparr>ru_block_num := uid_map s uid, ru_ent := Some 0, ru_index := 0,
    ru_waiting_for_button_press := (ru_masked d = 0)\<rparr>) s"
  have "upd_update id s = s" by (simp add: upd_update_def)
  then have f: "find_uid uid s = Some (Find_found 0, uid_map s uid, s)"
    using find_uid_mapped [OF ok uid c, of id] by simp
  have u: "upd_read f (upd_read g s) = upd_read (f \<circ> g) s" for f g by (simp add: upd_read_def)
  have iter: "read_uid_cmd_iter E s = (if masked = 0 then Some (begin_button_press_wait ?s) else read_uid_cmd_complete E ?s)"
    using r f by (simp add: read_uid_cmd_iter_def reading_def u comp_def)
  have idle: "\<not> block_read_cache_updating s" "can_respond s" using r by (simp_all add: reading_def io_ready_def)
  have answers: "\<exists>rec t. read_uid_cmd_complete E y = Some t \<and> db_view E s uid = Some rec
      \<and> answered OKAY (record_response masked rec) t \<and> db_core t = db_core s \<and> \<not> block_read_cache_updating t
      \<and> waiting_for_button_press t = waiting_for_button_press y \<and> waiting_for_long_button_press t = waiting_for_long_button_press y"
    if y: "db_core y = db_core s" "block_read_cache y = block_read_cache s" "block_read_cache_idx y = block_read_cache_idx s"
      "\<not> block_read_cache_updating y" "can_respond y" "d_read_uid y = d_read_uid ?s" for y
  proof -
    have e: "uid_map y = uid_map s" "root_page y = root_page s" "emmc y = emmc s" using y(1) by (simp_all add: db_core_def)
    have "db_ok E y" "db_view E y = db_view E s" using db_core_cong [OF y(1)] ok(1) by simp_all
    moreover have "cache_ok y" using ok(2) y(2,3) e by (simp add: cache_ok_def)
    moreover have "uid_map y uid \<noteq> INVALID_BLOCK" "block_read_cache_idx y = uid_map y uid" using uid(2) c y(3) e by simp_all
    moreover have "derive_iv uid y = Some iv" using r derive_iv_cong [OF e(2)] by (simp add: reading_def)
    moreover have "read_found y uid masked iv" using r y(6) e by (simp add: read_found_def reading_def)
    ultimately show ?thesis using read_uid_cmd_complete_answers [of E y uid iv masked] uid(1) y(1,4,5) by metis
  qed
  show ?thesis
  proof (cases "masked = 0")
    case True
    let ?s1 = "begin_button_press_wait ?s"
    let ?y = "end_button_press_wait ?s1"
    obtain rec t where t: "read_uid_cmd_complete E ?y = Some t" "db_view E s uid = Some rec"
      "answered OKAY (record_response masked rec) t" "db_core t = db_core s"
      using answers [of ?y] idle vread.view_button_wait by auto
    have "active_cmd ?y = READ_UID" using r by (simp add: reading_def)
    then have "confirm E ?s1 = Some t" using t(1) by (simp add: confirm_def button_press_def Let_def)
    moreover have "\<not> block_read_cache_updating ?s1" using idle vread.view_button_wait by simp
    ultimately show ?thesis using that t True iter by simp
  next
    case False
    obtain rec t where t: "read_uid_cmd_complete E ?s = Some t" "db_view E s uid = Some rec"
      "answered OKAY (record_response masked rec) t" "db_core t = db_core s" "\<not> block_read_cache_updating t"
      "\<not> waiting_for_button_press t" "\<not> waiting_for_long_button_press t"
      using answers [of ?s] idle r by (auto simp: reading_def)
    then show ?thesis using that [of t t rec] False iter by (simp add: confirm_def)
  qed
qed

lemma loading_read:
  assumes "io_ready s" "active_cmd s = READ_UID"
  obtains x where "block_loaded E (loading i s) = read_uid_cmd_iter E x"
    "db_core x = db_core s" "d_read_uid x = d_read_uid s" "active_cmd x = active_cmd s" "io_ready x"
    "block_read_cache_idx x = i" "block_read_cache x = emmc s i"
    "waiting_for_button_press x = waiting_for_button_press s" "waiting_for_long_button_press x = waiting_for_long_button_press s"
  using loading_resumes [OF assms(1), of E i] assms(2) that by metis

text \<open>A read request that an idle device has taken from the dispatcher.\<close>

definition read_request_ok :: "fw \<Rightarrow> nat \<Rightarrow> bool" where
  "read_request_ok s uid \<longleftrightarrow>
     data_uid uid \<and> active_cmd s = READ_UID \<and> io_ready s
   \<and> \<not> waiting_for_button_press s \<and> \<not> waiting_for_long_button_press s
   \<and> rp_format s = ROOT_BLOCK_FORMAT_CURRENT \<and> (rp_db_format s = DB_FORMAT_CURRENT \<or> rp_db_format s = DB_FORMAT_2)
   \<and> length (ru_block (d_read_uid s)) = BLK_SIZE"

lemma derive_iv_Some:
  "read_request_ok s uid \<Longrightarrow> \<exists>iv. derive_iv uid s = Some iv"
  by (auto simp: read_request_ok_def derive_iv_def Let_def)

lemma read_uid_loads:
  assumes ok: "db_ok E s" and uid: "data_uid uid" and r: "reading s uid masked iv" "io_ready s"
    and c: "uid_map s uid \<noteq> INVALID_BLOCK" "block_read_cache_idx s \<noteq> uid_map s uid"
  obtains rec s0 s1 t where "read_uid_cmd_iter E s = Some s0" "block_loaded E s0 = Some s1" "confirm E s1 = Some t"
    "db_view E s uid = Some rec" "answered OKAY (record_response masked rec) t" "db_core t = db_core s"
proof -
  define i where "i = uid_map s uid"
  have "data_block i" using mapped_block(1) [OF ok uid c(1)] by (simp add: i_def)
  then have "get_cached_data_block i s = Some (False, loading i s)"
    using get_cached_miss [of s i] r(2) c(2) by (simp add: i_def)
  then have f: "find_uid uid s = Some (Find_loading, i, loading i s)"
    using c(1) uid by (simp add: find_uid_def data_uid_def i_def Let_def)
  let ?y = "upd_read (\<lambda>d. d\<lparr>ru_block_num := i\<rparr>) s"
  have "upd_read (\<lambda>d. d\<lparr>ru_block_num := i\<rparr>) (loading i s) = loading i ?y"
    by (simp add: upd_read_def loading_def put_out_def)
  then have y: "read_uid_cmd_iter E s = Some (loading i ?y)"
    using f r by (simp add: read_uid_cmd_iter_def reading_def)
  have yr: "io_ready ?y" "active_cmd ?y = READ_UID" using r by (simp_all add: reading_def)
  obtain x where x: "block_loaded E (loading i ?y) = read_uid_cmd_iter E x"
    "db_core x = db_core ?y" "d_read_uid x = d_read_uid ?y" "active_cmd x = active_cmd ?y" "io_ready x"
    "block_read_cache_idx x = i" "block_read_cache x = emmc ?y i"
    "waiting_for_button_press x = waiting_for_button_press ?y" "waiting_for_long_button_press x = waiting_for_long_button_press ?y"
    by (rule loading_read [OF yr])
  have cx: "db_core x = db_core s" using x(2) by simp
  then have e: "uid_map x = uid_map s" "emmc x = emmc s" "root_page x = root_page s" by (simp_all add: db_core_def)
  have xr: "reading x uid masked iv"
    using r x(3,4,5,8,9) derive_iv_cong [of x s uid] e by (simp add: reading_def)
  have xo: "db_ok E x" "db_view E x = db_view E s" "cache_ok x"
    using db_core_cong [OF cx] ok x(6,7) e by (simp_all add: cache_ok_def)
  have xc: "uid_map x uid \<noteq> INVALID_BLOCK" "block_read_cache_idx x = uid_map x uid" using c(1) x(6) e by (simp_all add: i_def)
  obtain rec s1 t where "read_uid_cmd_iter E x = Some s1" "\<not> block_read_cache_updating s1" "confirm E s1 = Some t"
    "db_view E s uid = Some rec" "answered OKAY (record_response masked rec) t" "db_core t = db_core s"
    by (rule read_uid_cmd_iter_answers [OF xo(1,3) uid xc xr, unfolded xo(2) cx])
  then show ?thesis using that x(1) y by metis
qed

lemma read_uid_runs:
  assumes "db_ok E s" "cache_ok s" "read_request_ok s uid"
  shows "\<exists>s0 s1 s2. read_uid_cmd E uid masked s = Some s0 \<and> block_loaded E s0 = Some s1 \<and> confirm E s1 = Some s2
    \<and> (case db_view E s uid of None \<Rightarrow> answered ID_INVALID [] s2 | Some rec \<Rightarrow> answered OKAY (record_response masked rec) s2)
    \<and> db_view E s2 = db_view E s"
proof -
  obtain iv where iv: "derive_iv uid s = Some iv" using derive_iv_Some [OF assms(3)] by blast
  let ?s = "upd_read (\<lambda>r. r\<lparr>ru_uid := uid, ru_masked := masked, ru_waiting_for_button_press := False, ru_iv := iv\<rparr>) s"
  have cmd: "read_uid_cmd E uid masked s = read_uid_cmd_iter E ?s" by (simp add: read_uid_cmd_def iv)
  have uid: "data_uid uid" and io: "io_ready s" using assms(3) by (simp_all add: read_request_ok_def)
  have core: "db_core ?s = db_core s" by simp
  have r: "reading ?s uid masked iv"
    using assms(3) iv derive_iv_cong [of ?s s uid] by (simp add: reading_def read_request_ok_def)
  have ok: "db_ok E ?s" "db_view E ?s = db_view E s" "cache_ok ?s"
    using db_core_cong [OF core] assms(1,2) by (simp_all add: cache_ok_def)
  consider "uid_map s uid = INVALID_BLOCK" | "uid_map s uid \<noteq> INVALID_BLOCK" "block_read_cache_idx s = uid_map s uid"
    | "uid_map s uid \<noteq> INVALID_BLOCK" "block_read_cache_idx s \<noteq> uid_map s uid" by blast
  then show ?thesis
  proof cases
    case 1
    let ?x = "upd_read (\<lambda>d. d\<lparr>ru_block_num := INVALID_BLOCK\<rparr>) ?s"
    have "can_respond ?x" using io by (simp add: io_ready_def)
    then obtain t where t: "finish_command_resp ID_INVALID ?x = Some t" "answered ID_INVALID [] t"
      by (rule finish_resp_answered)
    have "find_uid uid ?s = Some (Find_unmapped, INVALID_BLOCK, ?s)"
      using 1 uid by (simp add: find_uid_def data_uid_def)
    then have "read_uid_cmd E uid masked s = Some t" using t(1) by (simp add: cmd read_uid_cmd_iter_def)
    moreover have "block_loaded E t = Some t" "confirm E t = Some t"
      using vdb.view_finish_resp [OF t(1)] vwait.view_finish_resp [OF t(1)] assms(3)
      by (simp_all add: block_loaded_def confirm_def read_request_ok_def io_ready_def)
    moreover have "db_view E t = db_view E s"
      using vcore.view_finish_resp [OF t(1)] db_core_cong(2) [of t s E] db_core_cong(1) [of t s E] by simp
    moreover have "db_view E s uid = None" using 1 by (simp add: db_view_def)
    ultimately show ?thesis using t(2) by simp
  next
    case 2
    then have c: "uid_map ?s uid \<noteq> INVALID_BLOCK" "block_read_cache_idx ?s = uid_map ?s uid" by simp_all
    obtain rec s1 t where "read_uid_cmd_iter E ?s = Some s1" "\<not> block_read_cache_updating s1" "confirm E s1 = Some t"
      "db_view E s uid = Some rec" "answered OKAY (record_response masked rec) t" "db_core t = db_core s"
      by (rule read_uid_cmd_iter_answers [OF ok(1,3) uid c r, unfolded ok(2) core])
    then show ?thesis using db_core_cong(1) [of t s E] by (simp add: cmd block_loaded_def)
  next
    case 3
    then have c: "uid_map ?s uid \<noteq> INVALID_BLOCK" "block_read_cache_idx ?s \<noteq> uid_map ?s uid" by simp_all
    have ior: "io_ready ?s" using io by simp
    obtain rec s0 s1 t where "read_uid_cmd_iter E ?s = Some s0" "block_loaded E s0 = Some s1" "confirm E s1 = Some t"
      "db_view E s uid = Some rec" "answered OKAY (record_response masked rec) t" "db_core t = db_core s"
      by (rule read_uid_loads [OF ok(1) uid r ior c, unfolded ok(2) core])
    then show ?thesis using db_core_cong(1) [of t s E] by (simp add: cmd)
  qed
qed

text \<open>
  C5. Reading returns what the database holds. For any uid of the data range, READ_UID of an
  idle device, after the transfer of the block when it is not cached and the button press that
  an unmasked read asks for, has answered with the size and the content of the record that the
  abstract database has at that uid, the hidden bytes blanked out if the request says so; if
  the database has no such record, the answer is ID_INVALID. The database stays as it was.
\<close>

theorem read_uid_returns_record:
  assumes "db_ok E s" "cache_ok s" "read_request_ok s uid"
  shows "\<exists>s0 s1 s2. read_uid_cmd E uid masked s = Some s0 \<and> block_loaded E s0 = Some s1 \<and> confirm E s1 = Some s2
    \<and> (case db_view E s uid of None \<Rightarrow> answered ID_INVALID [] s2 | Some rec \<Rightarrow> answered OKAY (record_response masked rec) s2)
    \<and> db_view E s2 = db_view E s"
  by (rule read_uid_runs [OF assms])

text \<open>A device with one record, about to read it.\<close>

lemma read_example:
  obtains s where "db_ok env_example s" "cache_ok s" "read_request_ok s 5" "db_view env_example s 5 = Some (10, replicate 16 7)"
proof -
  let ?E = "env_example"
  have n: "SIZE_TO_SUB_BLK_COUNT 10 = 1" by (simp add: SIZE_TO_SUB_BLK_COUNT_def)
  obtain iv where iv: "derive_iv 5 db_example = Some iv" "length iv = 16" using db_example_iv by blast
  define s where "s = db_example\<lparr>d_update := update_data_0\<lparr>up_iv := iv, up_entry := replicate 16 7 @ zeros (BLK_SIZE - 16),
    up_block := initialize_block MAX_PART_SIZE, up_blk_info := one_part 0\<rparr>\<rparr>"
  have k: "nettle_ok (env_nettle ?E)" "length (g_encrypt_key s) = 32"
    by (simp_all add: nettle_ok_xor s_def) (simp add: db_example_def fw_reset_def)
  have h: "blk_part_size (initialize_block MAX_PART_SIZE) = MAX_PART_SIZE" "blk_occupancy (initialize_block MAX_PART_SIZE) = 0"
    by (simp_all add: initialize_block_def block_simps)
  obtain b where b: "stored_block ?E s 5 10 iv (replicate 16 7) b"
    using allocate_stored [of s 10 ?E 5 0] k iv(2)
    by (auto simp: s_def n empty_part_def one_part_def h)
  define B where "B = blk_set_crc (block_crc ?E b) b"
  define t where "t = db_example\<lparr>active_cmd := READ_UID, g_block_info_tbl := (g_block_info_tbl db_example)(1 := one_part 1),
     uid_map := (uid_map db_example)(5 := 1), emmc := (emmc db_example)(1 := B)\<rparr>"
  have w: "wrote_block 1 (one_part 1) B 5 1 s t" by (simp add: wrote_block_def db_core_def s_def t_def)
  have core: "db_core s = db_core db_example" by (simp add: db_core_def s_def)
  have i: "data_block 1" "data_uid 5" by (simp_all add: data_block_def data_uid_def)
  note o = stored_block_ok [OF b i(2), folded B_def]
  have m: "uid_map s 5 = INVALID_BLOCK" "\<not> block_holds (g_block_info_tbl s 1) (emmc s 1) u" for u
    by (simp_all add: s_def db_example_def fw_reset_def block_holds_def free_info_def one_part_def)
  have "db_ok ?E t"
    by (rule wrote_block_ok [OF _ w i]) (use db_core_cong(2) [OF core] db_example_ok(1) m o n in simp_all)
  moreover have "db_view ?E t 5 = Some (10, replicate 16 7)"
    by (rule stored_block_view [OF w _ i, where d = "replicate 16 7" and iv = iv])
      (use stored_block_crc [OF b, of "block_crc ?E b"] iv k n derive_iv_cong [of s db_example] in \<open>simp_all add: B_def s_def\<close>)
  moreover have "cache_ok t" using i by (simp add: cache_ok_def t_def db_example_def fw_reset_def data_block_def)
  moreover have "read_request_ok t 5"
  proof -
    have "io_ready t" using db_example_ok(3) by (simp add: io_ready_def can_respond_def t_def)
    moreover have "rp_format t = ROOT_BLOCK_FORMAT_CURRENT" "rp_db_format t = DB_FORMAT_CURRENT"
      using db_example_ok(4,5) by (simp_all add: rp_format_def rp_db_format_def t_def)
    moreover have "active_cmd t = READ_UID" "\<not> waiting_for_button_press t" "\<not> waiting_for_long_button_press t"
      "length (ru_block (d_read_uid t)) = BLK_SIZE"
      by (simp_all add: t_def) (simp_all add: db_example_def fw_reset_def read_data_0_def)
    ultimately show ?thesis using i by (simp add: read_request_ok_def)
  qed
  ultimately show ?thesis using that by blast
qed

theorem read_uid_returns_record_witness:
  "\<exists>s s0 s1 s2. read_uid_cmd env_example 5 0 s = Some s0 \<and> block_loaded env_example s0 = Some s1 \<and> confirm env_example s1 = Some s2
     \<and> answered OKAY (le16 10 @ replicate 16 7) s2"
proof -
  obtain s where "db_ok env_example s" "cache_ok s" "read_request_ok s 5" "db_view env_example s 5 = Some (10, replicate 16 7)"
    by (rule read_example)
  then show ?thesis
    using read_uid_returns_record [of env_example s 5 0] by (auto simp: record_response_def)
qed

end
