(* ===== verification/Record_Path.thy ===== *)
theory Record_Path
  imports Db_Read Host_Api
begin

text \<open>
  The way of a record from one application to the next: \<open>signetdev_update_uid\<close> encodes it, the
  dispatcher of the device takes the request to the database, which writes it to the eMMC; a later
  READ_UID is answered from there and \<open>signetdev_priv_handle_command_resp\<close> decodes the answer
  for the callback of the reading application.
\<close>

section \<open>The dispatcher\<close>

text \<open>
  A request with payload \<open>pl\<close> is in the packet buffer of a device with an open session that no
  other subsystem owns: \<open>request_transport\<close> of \<open>Transport\<close> ends in such a buffer.
\<close>

definition request_taken :: "int \<Rightarrow> bytes \<Rightarrow> fw \<Rightarrow> bool" where
  "request_taken c pl s \<longleftrightarrow>
     length (cmd_packet_buf s) = CMD_PACKET_BUF_SIZE \<and> length pl \<le> CMD_PACKET_PAYLOAD_SIZE
   \<and> rd16 (cmd_packet_buf s) 0 = length pl + CMD_PACKET_HEADER_SIZE \<and> rd16 (cmd_packet_buf s) 3 = 0
   \<and> slice (cmd_packet_buf s) CMD_PACKET_HEADER_SIZE (length pl) = pl
   \<and> active_cmd s = c \<and> g_device_state s = DS_LOGGED_IN
   \<and> (s_device_system_owner s = NO_SUBSYSTEM \<or> s_device_system_owner s = SIGNET_SUBSYSTEM)"

definition owned :: "fw \<Rightarrow> fw" where
  "owned s = s\<lparr>s_device_system_owner := SIGNET_SUBSYSTEM, cmd_messages_remaining := 0\<rparr>"

lemma owned_simps [simp]:
  "db_core (owned s) = db_core s" "active_cmd (owned s) = active_cmd s" "d_update (owned s) = d_update s"
  "d_read_uid (owned s) = d_read_uid s" "cmd_packet_buf (owned s) = cmd_packet_buf s"
  "root_page (owned s) = root_page s" "g_encrypt_key (owned s) = g_encrypt_key s" "uid_map (owned s) = uid_map s"
  "g_block_info_tbl (owned s) = g_block_info_tbl s" "emmc (owned s) = emmc s" "g_device_state (owned s) = g_device_state s"
  "block_read_cache (owned s) = block_read_cache s" "block_read_cache_idx (owned s) = block_read_cache_idx s"
  "waiting_for_button_press (owned s) = waiting_for_button_press s"
  "waiting_for_long_button_press (owned s) = waiting_for_long_button_press s"
  "io_ready (owned s) = io_ready s"
  by (simp_all add: owned_def db_core_def io_ready_def can_respond_def)

lemma owned_target [simp]: "update_target (owned s) uid = update_target s uid"
proof -
  have "alloc_exact MAX_PART_SIZE (owned s) = alloc_exact MAX_PART_SIZE s" "find_free_block (owned s) = find_free_block s"
    by (simp_all add: alloc_exact_def find_free_block_def)
  then show ?thesis by (simp add: update_target_def cong: option.case_cong)
qed

lemma restart_session_command:
  assumes r: "request_taken c pl s" and c: "c = UPDATE_UID \<or> c = READ_UID"
    and l: "logged_in_state E (drop CMD_PACKET_HEADER_SIZE (cmd_packet_buf s)) (int (length pl)) (owned s) = handled (Some t)"
  shows "restart_signet_command E s = Some (0, t)"
proof -
  have o: "request_device SIGNET_SUBSYSTEM s = (True, s\<lparr>s_device_system_owner := SIGNET_SUBSYSTEM\<rparr>)"
    using r by (auto simp: request_device_def request_taken_def)
  have n: "packet_data_len s = int (length pl)" "packet_messages_remaining s = 0" "\<not> int (length pl) > int CMD_PACKET_PAYLOAD_SIZE"
    using r by (simp_all add: packet_data_len_def packet_messages_remaining_def request_taken_def)
  have a: "active_cmd (owned s) = c" "g_device_state (owned s) = DS_LOGGED_IN" using r by (simp_all add: request_taken_def)
  have "run_state_command E (drop CMD_PACKET_HEADER_SIZE (cmd_packet_buf s)) (int (length pl)) (owned s) = Some (0, t)"
    using l a by (simp add: run_state_command_def handled_def)
  moreover have "active_cmd (owned s) \<noteq> STARTUP" "active_cmd (owned s) \<noteq> GET_DEVICE_STATE" "active_cmd (owned s) \<noteq> CANCEL_BUTTON_PRESS"
    using a c by auto
  ultimately show ?thesis
    using n unfolding restart_signet_command_def Let_def o by (simp add: owned_def)
qed

lemma taken_bytes:
  assumes "request_taken c pl s" "i + n \<le> length pl"
  shows "slice (drop CMD_PACKET_HEADER_SIZE (cmd_packet_buf s)) i n = slice pl i n"
    "i < length pl \<Longrightarrow> drop CMD_PACKET_HEADER_SIZE (cmd_packet_buf s) ! i = pl ! i"
    "i + 2 \<le> length pl \<Longrightarrow> rd16 (drop CMD_PACKET_HEADER_SIZE (cmd_packet_buf s)) i = rd16 pl i"
proof -
  let ?d = "drop CMD_PACKET_HEADER_SIZE (cmd_packet_buf s)"
  have t: "take (length pl) ?d = pl" using assms(1) by (simp add: request_taken_def slice_def)
  have nth: "?d ! j = pl ! j" if "j < length pl" for j
    using arg_cong [OF t, of "\<lambda>l. l ! j"] that by simp
  have "n \<le> length pl - i" using assms(2) by simp
  then show "slice ?d i n = slice pl i n"
    using assms(2) arg_cong [OF t, of "\<lambda>l. slice l i n"] by (simp add: slice_def drop_take min_def)
  show "i < length pl \<Longrightarrow> ?d ! i = pl ! i" by (rule nth)
  show "i + 2 \<le> length pl \<Longrightarrow> rd16 ?d i = rd16 pl i" by (intro rd16_cong nth) simp_all
qed

lemma update_dispatched:
  assumes r: "request_taken UPDATE_UID pl s" and uid: "data_uid uid"
    and pl: "4 \<le> length pl" "rd16 pl 0 = uid" "rd16 pl 2 = sz" "length pl = 4 + SIZE_TO_SUB_BLK_COUNT sz * SUB_BLK_SIZE"
    and u: "update_uid_cmd E uid (drop 4 pl) sz 1 (owned s) = Some t"
  shows "restart_signet_command E s = Some (0, t)"
proof (rule restart_session_command [OF r])
  have a: "active_cmd (owned s) = UPDATE_UID" using r by (simp add: request_taken_def)
  have b: "slice (drop 6 (cmd_packet_buf s)) 4 (length pl - 4) = drop 4 pl"
    using taken_bytes(1) [OF r, of 4 "length pl - 4"] pl(1) by (simp add: slice_def)
  have n: "nat (int (length pl) - 4) = length pl - 4" "int (length pl) - 4 = int (SIZE_TO_SUB_BLK_COUNT sz * SUB_BLK_SIZE)"
    using pl(1,4) by simp_all
  have "update_uid_request E (drop 6 (cmd_packet_buf s)) (int (length pl)) (owned s) = Some t"
    unfolding update_uid_request_def Let_def
    using taken_bytes(3) [OF r, of 0 2] taken_bytes(3) [OF r, of 2 2] pl(1-3) uid u a n b by (simp add: data_uid_def)
  then show "logged_in_state E (drop 6 (cmd_packet_buf s)) (int (length pl)) (owned s) = handled (Some t)"
    using a by (simp add: logged_in_state_def)
qed simp

lemma read_dispatched:
  assumes r: "request_taken READ_UID pl s" and uid: "data_uid uid"
    and pl: "length pl = 3" "rd16 pl 0 = uid" and u: "read_uid_cmd E uid (unat (pl ! 2)) (owned s) = Some t"
  shows "restart_signet_command E s = Some (0, t)"
proof (rule restart_session_command [OF r])
  have a: "active_cmd (owned s) = READ_UID" using r by (simp add: request_taken_def)
  have "read_uid_request E (drop 6 (cmd_packet_buf s)) (int (length pl)) (owned s) = Some t"
    unfolding read_uid_request_def Let_def
    using taken_bytes(3) [OF r, of 0 2] taken_bytes(2) [OF r, of 2 1] pl uid u by (simp add: data_uid_def)
  then show "logged_in_state E (drop 6 (cmd_packet_buf s)) (int (length pl)) (owned s) = handled (Some t)"
    using a by (simp add: logged_in_state_def)
qed simp

section \<open>The host\<close>

text \<open>
  The callback of READ_UID gets the record: size \<open>sz\<close>, the bytes of \<open>data\<close> (zero for the hidden
  ones of a masked read) and the mask bits of \<open>msk\<close>, from a response \<open>p\<close> at the start of the
  response buffer, whatever that buffer and the result structure on the stack held before.
\<close>

definition host_gets_record :: "bool \<Rightarrow> nat \<Rightarrow> bytes \<Rightarrow> bytes \<Rightarrow> bytes \<Rightarrow> bool" where
  "host_gets_record masked sz data msk p \<longleftrightarrow>
     (\<forall>q h g resp. dev_cmd q = READ_UID \<longrightarrow> g_device_type h = SIGNETDEV_DEVICE_HC
        \<longrightarrow> length resp = CMD_PACKET_BUF_SIZE \<longrightarrow> take (length p) resp = p \<longrightarrow> length p \<le> length g
        \<longrightarrow> (\<exists>d m. signetdev_priv_handle_command_resp g q (int (resp_code OKAY)) resp (length p) 0 h
                = Some (call_resp_cb q (int (resp_code OKAY)) 0 (RD_uid sz d m) h)
              \<and> (\<forall>i < sz. d ! i = (if masked \<and> bit (msk ! (i div 8)) (i mod 8) then 0 else data ! i)
                     \<and> bit (m ! (i div 8)) (i mod 8) = bit (msk ! (i div 8)) (i mod 8))))"

text \<open>The sub-blocks \<open>e\<close> hold the record \<open>data\<close> with the mask \<open>msk\<close>.\<close>

definition encodes :: "nat \<Rightarrow> bytes \<Rightarrow> bytes \<Rightarrow> bytes \<Rightarrow> bool" where
  "encodes sz data msk e \<longleftrightarrow>
     length e = SIZE_TO_SUB_BLK_COUNT sz * SUB_BLK_SIZE
   \<and> (\<forall>i < sz. e ! data_idx i = data ! i \<and> bit (e ! mask_idx i) (i mod 14 mod 8) = bit (msk ! (i div 8)) (i mod 8))"

lemma idx_in_blocks: "i < sz \<Longrightarrow> data_idx i < SIZE_TO_SUB_BLK_COUNT sz * 16 \<and> mask_idx i < SIZE_TO_SUB_BLK_COUNT sz * 16"
  using sub_blk_bound data_idx_bound mask_idx_bound by blast

lemma encodes_masked:
  assumes "encodes sz data msk e"
  shows "encodes sz (map (\<lambda>i. if bit (msk ! (i div 8)) (i mod 8) then 0 else data ! i) [0..<sz]) msk
    (mask_uid_data e (SIZE_TO_SUB_BLK_COUNT sz))"
proof -
  let ?c = "SIZE_TO_SUB_BLK_COUNT sz"
  have b: "\<forall>k<14 * ?c. data_idx k < length e"
  proof (intro allI impI)
    fix k assume "k < 14 * ?c"
    then have "k div 14 < ?c" by (simp add: div_less_iff_less_mult mult.commute)
    then show "data_idx k < length e" using data_idx_bound assms by (simp add: encodes_def)
  qed
  note m = mask_fold_spec [OF b, folded mask_uid_data_fold]
  have "i < 14 * ?c" if "i < sz" for i using that size_le_blocks [of sz] by simp
  then show ?thesis using assms m by (auto simp: encodes_def)
qed

lemma uid_message_encodes:
  assumes "uid_message g uid sz data msk = Some (Inl pl)"
  shows "take 4 pl = le16 uid @ le16 sz" "encodes sz data msk (drop 4 pl)"
    "length pl = 4 + SIZE_TO_SUB_BLK_COUNT sz * SUB_BLK_SIZE" "length pl < CMD_PACKET_PAYLOAD_SIZE"
proof -
  let ?n = "SIZE_TO_SUB_BLK_COUNT sz * SUB_BLK_SIZE"
  obtain body where e: "encode_entry_data sz data msk (drop 4 g) (MAX_CMD_PACKET_PAYLOAD_SIZE - 4) = (body, int ?n)"
    and pl: "pl = le16 uid @ le16 sz @ take ?n body" and g: "length g = MAX_CMD_PACKET_PAYLOAD_SIZE"
    using assms nat_int [of ?n]
    by (auto simp: uid_message_def encode_entry_data_def SIGNET_ERROR_OVERFLOW_def Let_def split: if_splits)
  have "MAX_CMD_PACKET_PAYLOAD_SIZE - 4 \<le> length (drop 4 g)" using g by simp
  note b = encode_entry_data_Some [OF e this]
  have l: "length (take ?n body) = ?n" using b(2,3) g by simp
  show "take 4 pl = le16 uid @ le16 sz" "length pl = 4 + ?n" "length pl < CMD_PACKET_PAYLOAD_SIZE"
    using l pl b(2) by (simp_all add: le16_def)
  have "drop 4 pl = take ?n body" using pl by (simp add: le16_def)
  then show "encodes sz data msk (drop 4 pl)"
    using l b(4) idx_in_blocks [of _ sz] by (simp add: encodes_def)
qed

text \<open>
  The response of \<open>c\<close> sub-blocks makes \<open>decode_id\<close> read up to \<open>data_idx (16 * c - 1)\<close>: for at most
  924 of them, records of up to 12936 bytes, that is inside the response buffer.
\<close>

lemma overread_fits: "0 < c \<Longrightarrow> c \<le> 924 \<Longrightarrow> data_idx (16 * c - 1) < CMD_PACKET_BUF_SIZE - 2"
proof -
  assume "0 < c" "c \<le> 924"
  then have "16 * c - 1 \<le> 14783" by simp
  from data_idx_mono [OF this] show ?thesis by (simp add: data_idx_def)
qed

lemma decoded_record:
  assumes e: "encodes sz data msk e" and c: "0 < sz" "SIZE_TO_SUB_BLK_COUNT sz \<le> 924"
  shows "host_gets_record (masked \<noteq> 0) sz data msk (record_response masked (sz, e))"
proof -
  let ?c = "SIZE_TO_SUB_BLK_COUNT sz" and ?hide = "\<lambda>i. masked \<noteq> 0 \<and> bit (msk ! (i div 8)) (i mod 8)"
  define D where "D = map (\<lambda>i. if ?hide i then 0 else data ! i) [0..<sz]"
  define f where "f = (if masked \<noteq> 0 then mask_uid_data e ?c else e)"
  have f: "encodes sz D msk f"
    using e encodes_masked [OF e] by (simp add: D_def f_def) (simp add: encodes_def)
  have lf: "length f = ?c * 16" using f by (simp add: encodes_def)
  have p: "record_response masked (sz, e) = le16 sz @ f" by (simp add: record_response_def f_def)
  have c0: "0 < ?c" using c(1) sub_blk_bound [of 0 sz] by simp
  have sz: "sz < 65536" "sz \<le> ?c * 16" using size_le_blocks [of sz] c(2) by linarith+
  have "\<exists>d m. signetdev_priv_handle_command_resp g q (int (resp_code OKAY)) resp (?c * 16 + 2) 0 h
                = Some (call_resp_cb q (int (resp_code OKAY)) 0 (RD_uid sz d m) h)
              \<and> (\<forall>i < sz. d ! i = (if ?hide i then 0 else data ! i)
                     \<and> bit (m ! (i div 8)) (i mod 8) = bit (msk ! (i div 8)) (i mod 8))"
    if q: "dev_cmd q = READ_UID" "g_device_type h = SIGNETDEV_DEVICE_HC" and l: "length resp = CMD_PACKET_BUF_SIZE"
      and r: "take (?c * 16 + 2) resp = le16 sz @ f" and g: "?c * 16 + 2 \<le> length g" for q h g resp
  proof -
    have pay: "signetdev_priv_cmd_payload_size (g_device_type h) = 16391"
      using q(2) by (simp add: signetdev_priv_cmd_payload_size_def signetdev_device_block_size_def)
    have n: "SUB_BLK_COUNT (?c * 16) = ?c" by (simp add: SUB_BLK_COUNT_def)
    have g8: "(?c * 16 - 1) div 8 < length g" using g c0 by linarith
    obtain d m where d: "decode_id 16391 (drop 2 resp) (?c * 16) g g = Some (0, d, m)"
      using decode_id_defined [of "?c * 16" 16391 "drop 2 resp" g g] c0 c(2) n l g g8 overread_fits [OF c0 c(2)]
      by (auto simp: mult.commute)
    have nth: "resp ! i = (le16 sz @ f) ! i" if "i < ?c * 16 + 2" for i
      using arg_cong [OF r, of "\<lambda>l. l ! i"] that by simp
    have "rd16 resp 0 = rd16 (le16 sz) 0"
      by (rule rd16_cong) (use nth [of 0] nth [of 1] in \<open>simp_all add: le16_def\<close>)
    then have "rd16 resp 0 = sz" using sz(1) by (simp add: rd16_le16)
    moreover have "drop 2 resp ! i = f ! i" if "i < ?c * 16" for i
      using nth [of "i + 2"] that l c(2) by (simp add: le16_def)
    moreover have "dev_cmd q \<noteq> x" if "x \<noteq> READ_UID" for x using q(1) that by simp
    ultimately show ?thesis
      using d q pay decode_id_Some [OF d] f sz(2) idx_in_blocks [of _ sz] c0
      by (intro exI [of _ d] exI [of _ m])
        (simp add: signetdev_priv_handle_command_resp_def Let_def encodes_def D_def)
  qed
  then show ?thesis using lf by (simp add: host_gets_record_def p add.commute)
qed

section \<open>From update to read\<close>

text \<open>
  A later state of the device reads the record back: the database is the one of \<open>t\<close>, the session
  is open, and READ_UID for \<open>uid\<close>, masked or not, has been received.
\<close>

definition reads_back :: "env \<Rightarrow> fw \<Rightarrow> nat \<Rightarrow> nat \<Rightarrow> bytes \<Rightarrow> bytes \<Rightarrow> bool" where
  "reads_back E t uid sz data msk \<longleftrightarrow>
     (\<forall>r masked. db_core r = db_core t \<longrightarrow> cache_ok r \<longrightarrow> read_request_ok r uid
        \<longrightarrow> request_taken READ_UID [lo8 (int uid), hi8 (int uid), masked] r
        \<longrightarrow> (\<exists>r1 r2 r3 p. restart_signet_command E r = Some (0, r1) \<and> block_loaded E r1 = Some r2 \<and> confirm E r2 = Some r3
              \<and> answered OKAY p r3 \<and> host_gets_record (masked \<noteq> 0) sz data msk p))"

lemma view_reads_back:
  assumes ok: "db_ok E t" and v: "db_view E t uid = Some (sz, e)" and uid: "data_uid uid"
    and e: "encodes sz data msk e" and c: "0 < sz" "SIZE_TO_SUB_BLK_COUNT sz \<le> 924"
  shows "reads_back E t uid sz data msk"
  unfolding reads_back_def
proof (intro allI impI)
  fix r masked
  assume core: "db_core r = db_core t" and r: "cache_ok r" "read_request_ok r uid"
    and req: "request_taken READ_UID [lo8 (int uid), hi8 (int uid), masked] r"
  let ?pl = "[lo8 (int uid), hi8 (int uid), masked]" and ?m = "unat masked"
  have o: "db_ok E (owned r)" "db_view E (owned r) = db_view E t"
    using db_core_cong [of "owned r" t] core ok by simp_all
  have "cache_ok (owned r)" "read_request_ok (owned r) uid"
    using r by (simp_all add: cache_ok_def read_request_ok_def rp_format_def rp_db_format_def)
  then obtain r1 r2 r3 where run: "read_uid_cmd E uid ?m (owned r) = Some r1" "block_loaded E r1 = Some r2" "confirm E r2 = Some r3"
    "answered OKAY (record_response ?m (sz, e)) r3"
    using read_uid_runs [OF o(1), of uid ?m] v by (auto simp: o(2))
  have "lo8 (int uid) = le16 uid ! 0" "hi8 (int uid) = le16 uid ! 1"
    unfolding lo8_def hi8_def le16_def by (simp, metis One_nat_def nth_Cons_0 nth_Cons_Suc of_int_of_nat_eq of_nat_numeral zdiv_int)
  then have "rd16 ?pl 0 = rd16 (le16 uid) 0" by (simp add: rd16_def)
  then have "rd16 ?pl 0 = uid" using uid by (simp add: rd16_le16 data_uid_def)
  then have "restart_signet_command E r = Some (0, r1)"
    by (intro read_dispatched [OF req uid]) (simp_all add: run(1))
  moreover have "(?m \<noteq> 0) = (masked \<noteq> 0)" by (simp add: unat_eq_0)
  then have "host_gets_record (masked \<noteq> 0) sz data msk (record_response ?m (sz, e))"
    using decoded_record [OF e c, of ?m] by simp
  ultimately show "\<exists>r1 r2 r3 p. restart_signet_command E r = Some (0, r1) \<and> block_loaded E r1 = Some r2 \<and> confirm E r2 = Some r3
      \<and> answered OKAY p r3 \<and> host_gets_record (masked \<noteq> 0) sz data msk p"
    using run(2-4) by blast
qed

text \<open>
  C3. What an application saves is what the next one reads, end to end. \<open>signetdev_update_uid\<close>
  encodes a record, up to the 12936 bytes whose response the host can decode; an idle device with
  an open session that has received the request dispatches it, waits for the button, writes the
  block and answers. From then on, whenever its database is unchanged, READ_UID for that uid, with
  the button press for an unmasked read, is answered so that the callback of the reader gets
  the size, every byte and every mask bit that was saved, except that the hidden bytes of
  a masked read are zero.
\<close>

theorem saved_entry_read_back:
  assumes "uid_message g uid sz data msk = Some (Inl pl)" "0 < sz" "SIZE_TO_SUB_BLK_COUNT sz \<le> 924"
    and "request_taken UPDATE_UID pl s" "db_ok E s" "cache_ok s"
    and "update_request_ok E s uid (drop 4 pl) sz 1" "update_possible s uid sz"
  shows "\<exists>s1 s2 s3 s4. restart_signet_command E s = Some (0, s1) \<and> block_loaded E s1 = Some s2 \<and> confirm E s2 = Some s3
    \<and> transfer_done E s3 = Some s4 \<and> reads_back E s4 uid sz data msk"
proof -
  note m = uid_message_encodes [OF assms(1)]
  have uid: "data_uid uid" "sz < 65536" using assms(7) by (simp_all add: update_request_ok_def)
  have nth: "pl ! i = (le16 uid @ le16 sz) ! i" if "i < 4" for i
    using arg_cong [OF m(1), of "\<lambda>l. l ! i"] that by simp
  have "rd16 pl 0 = rd16 (le16 uid) 0" "rd16 pl 2 = rd16 (le16 sz) 0"
    by (rule rd16_cong; simp add: nth le16_def)+
  then have pl: "rd16 pl 0 = uid" "rd16 pl 2 = sz" using uid by (simp_all add: rd16_le16 data_uid_def)
  have o: "db_ok E (owned s)" "db_view E (owned s) = db_view E s"
    using db_core_cong [of "owned s" s] assms(5) by simp_all
  have "cache_ok (owned s)" "update_request_ok E (owned s) uid (drop 4 pl) sz 1" "update_possible (owned s) uid sz"
    using assms(6-8)
    by (simp_all add: cache_ok_def update_request_ok_def rp_format_def rp_db_format_def press_matches_def update_possible_def)
  then obtain s1 s2 s3 s4 where run: "update_uid_cmd E uid (drop 4 pl) sz 1 (owned s) = Some s1" "block_loaded E s1 = Some s2"
    "confirm E s2 = Some s3" "transfer_done E s3 = Some s4" "db_ok E s4" "db_view E s4 uid = Some (sz, drop 4 pl)"
    using update_uid_runs [OF o(1)] assms(2) by fastforce
  have "restart_signet_command E s = Some (0, s1)"
    by (rule update_dispatched [OF assms(4) uid(1) _ pl m(3) run(1)]) (simp add: m(3))
  then show ?thesis using run view_reads_back [OF run(5,6) uid(1) m(2) assms(2,3)] by blast
qed

text \<open>An example: the device of \<open>record_update_refines_witness\<close> with the request in its packet buffer.\<close>

definition holding :: "bytes \<Rightarrow> fw" where
  "holding pl = db_example\<lparr>g_device_state := DS_LOGGED_IN,
     cmd_packet_buf := splice (zeros CMD_PACKET_BUF_SIZE) 0 (le16 (length pl + 6) @ [31, 0, 0, 0] @ pl)\<rparr>"

lemma holding_taken:
  assumes "length pl \<le> CMD_PACKET_PAYLOAD_SIZE"
  shows "request_taken UPDATE_UID pl (holding pl)"
proof -
  let ?b = "splice (zeros CMD_PACKET_BUF_SIZE) 0 (le16 (length pl + 6) @ [31, 0, 0, 0] @ pl)"
  have nth: "?b ! i = (le16 (length pl + 6) @ [31, 0, 0, 0] @ pl) ! i" if "i < length pl + 6" for i
    using that assms by (simp add: nth_splice)
  have "rd16 ?b 0 = rd16 (le16 (length pl + 6)) 0"
    by (rule rd16_cong) (use nth [of 0] nth [of 1] in \<open>simp_all add: le16_def\<close>)
  then have "rd16 ?b 0 = length pl + 6" using assms by (simp add: rd16_le16)
  moreover have "rd16 ?b 3 = 0" using nth [of 3] nth [of 4] by (simp add: rd16_def le16_def)
  moreover have "slice ?b 6 (length pl) = pl"
    by (rule nth_equalityI) (use assms nth in \<open>simp_all add: nth_slice le16_def\<close>)
  moreover have "active_cmd db_example = UPDATE_UID" "s_device_system_owner db_example = NO_SUBSYSTEM"
    by (simp_all add: db_example_def fw_reset_def)
  ultimately show ?thesis using assms by (simp add: request_taken_def holding_def)
qed

theorem saved_entry_read_back_witness:
  "\<exists>pl s s1 s2 s3 s4. uid_message (zeros 16391) 5 10 (replicate 10 7) [2, 0] = Some (Inl pl) \<and> request_taken UPDATE_UID pl s
    \<and> restart_signet_command env_example s = Some (0, s1) \<and> block_loaded env_example s1 = Some s2
    \<and> confirm env_example s2 = Some s3 \<and> transfer_done env_example s3 = Some s4
    \<and> reads_back env_example s4 5 10 (replicate 10 7) [2, 0]"
proof -
  have n: "SIZE_TO_SUB_BLK_COUNT 10 = 1" by (simp add: SIZE_TO_SUB_BLK_COUNT_def)
  obtain pl where pl: "uid_message (zeros 16391) 5 10 (replicate 10 7) [2, 0] = Some (Inl pl)"
    by (simp add: uid_message_def encode_entry_data_def n)
  note m = uid_message_encodes [OF pl]
  let ?s = "holding pl"
  have core: "db_core ?s = db_core db_example" by (simp add: holding_def db_core_def)
  have ok: "db_ok env_example ?s" "cache_ok ?s"
    using db_core_cong [OF core] db_example_ok(1,2) by (simp_all add: holding_def cache_ok_def)
  have io: "io_ready ?s" using db_example_ok(3) by (simp add: holding_def io_ready_def can_respond_def)
  have req: "update_request_ok env_example ?s 5 (drop 4 pl) 10 1"
    using db_example_request(1) m(3) io
    by (simp add: update_request_ok_def n press_matches_def rp_format_def rp_db_format_def) (simp add: holding_def)
  have t: "alloc_exact MAX_PART_SIZE ?s = alloc_exact MAX_PART_SIZE db_example" "find_free_block ?s = find_free_block db_example"
    "uid_map ?s = uid_map db_example"
    by (simp_all add: holding_def alloc_exact_def find_free_block_def)
  have "update_target ?s 5 = update_target db_example 5" unfolding update_target_def t ..
  then have pos: "update_possible ?s 5 10"
    using db_example_request(2) by (simp add: update_possible_def)
  have taken: "request_taken UPDATE_UID pl ?s" using m(4) by (intro holding_taken) simp
  have "\<exists>s1 s2 s3 s4. restart_signet_command env_example ?s = Some (0, s1) \<and> block_loaded env_example s1 = Some s2
    \<and> confirm env_example s2 = Some s3 \<and> transfer_done env_example s3 = Some s4
    \<and> reads_back env_example s4 5 10 (replicate 10 7) [2, 0]"
    by (rule saved_entry_read_back [OF pl _ _ taken ok req pos]) (simp_all add: n)
  with pl taken show ?thesis by blast
qed

end
