(* ===== verification/Typing.thy ===== *)
theory Typing
  imports Host_Keymap Transport
begin

text \<open>
  Typing a text from the call of \<open>signetdev_type_w\<close> to the reports of the device's keyboard.
\<close>

section \<open>The message of the host\<close>

text \<open>The strokes of a key: none, one or two physical keys.\<close>

definition key_strokes :: "signetdev_key \<Rightarrow> signetdev_phy_key list" where
  "key_strokes k =
     (if scancode (phy_key0 k) = 0 then [] else if scancode (phy_key1 k) = 0 then [phy_key0 k] else [phy_key0 k, phy_key1 k])"

definition text_strokes :: "(nat \<Rightarrow> signetdev_key) \<Rightarrow> u16 list \<Rightarrow> signetdev_phy_key list" where
  "text_strokes kinv keys = concat (map (\<lambda>c. key_strokes (kinv (unat c))) keys)"

text \<open>Two reports for a stroke: the key goes down, all keys are up.\<close>

definition stroke_reports :: "signetdev_phy_key list \<Rightarrow> bytes list" where
  "stroke_reports ps = concat (map (\<lambda>p. [[modifier p, scancode p], [0, 0]]) ps)"

lemma stroke_reports_simps [simp]:
  "stroke_reports [] = []" "stroke_reports (p # ps) = [modifier p, scancode p] # [0, 0] # stroke_reports ps"
  "stroke_reports (ps @ qs) = stroke_reports ps @ stroke_reports qs"
  "length (stroke_reports ps) = 2 * length ps"
proof -
  show "length (stroke_reports ps) = 2 * length ps" by (induction ps) (simp_all add: stroke_reports_def)
qed (simp_all add: stroke_reports_def)

lemma length_stroke_bytes: "length (concat (stroke_reports ps)) = 4 * length ps"
  by (induction ps) auto

lemma type_loop_strokes:
  "length msg < MAX_CMD_PACKET_PAYLOAD_SIZE \<Longrightarrow>
   type_loop kinv (map unat keys) msg =
     (let all = msg @ concat (stroke_reports (text_strokes kinv keys))
      in if length all < MAX_CMD_PACKET_PAYLOAD_SIZE then Inl all else Inr ())"
proof (induction keys arbitrary: msg)
  case (Cons c keys)
  then show ?case by (auto simp: text_strokes_def key_strokes_def Let_def)
qed (simp add: text_strokes_def Let_def)

lemma type_w_sends:
  assumes "4 * length (text_strokes kinv keys) < MAX_CMD_PACKET_PAYLOAD_SIZE"
  shows "signetdev_type_w kinv usr keys h =
     Some (0, token_ctr h, h\<lparr>token_ctr := token_ctr h + 1, issued := issued h @
       [\<lparr>dev_cmd = TYPE_CMD, api_cmd = SIGNETDEV_CMD_TYPE, payload = Some (concat (stroke_reports (text_strokes kinv keys))),
         payload_size = 4 * length (text_strokes kinv keys), messages_remaining = 0, get_resp = True, user = usr,
         token = token_ctr h, interrupt = False, end_device_state = 0\<rparr>]\<rparr>)"
  using assms length_stroke_bytes [of "text_strokes kinv keys"]
  by (simp add: signetdev_type_w_def type_loop_strokes api_message_def get_cmd_token_def signetdev_priv_send_message_def Let_def)

lemma type_w_refuses:
  assumes "MAX_CMD_PACKET_PAYLOAD_SIZE \<le> 4 * length (text_strokes kinv keys)"
  shows "signetdev_type_w kinv usr keys h = Some (SIGNET_ERROR_OVERFLOW, token_ctr h, h\<lparr>token_ctr := token_ctr h + 1\<rparr>)"
  using assms length_stroke_bytes [of "text_strokes kinv keys"]
  by (simp add: signetdev_type_w_def type_loop_strokes api_fail_def get_cmd_token_def Let_def)

section \<open>The keyboard of the device\<close>

text \<open>The reports that went out on the keyboard interface.\<close>

definition keyboard_report :: "fw_out \<Rightarrow> bytes list" where
  "keyboard_report e = (case e of Out_report i b \<Rightarrow> if i = INTERFACE_KEYBOARD then [b] else [] | _ \<Rightarrow> [])"

definition keyboard_reports :: "fw \<Rightarrow> bytes list" where
  "keyboard_reports s = concat (map keyboard_report (outs s))"

text \<open>
  The host fetches the report, time goes by, and the main loop comes to the keyboard: one round
  for each report.
\<close>

definition typing_events :: "nat list \<Rightarrow> event list" where
  "typing_events ds = concat (map (\<lambda>d. [Ev_tx INTERFACE_KEYBOARD, Ev_tick d, Ev_main Ph_keyboard]) ds)"

lemma typing_events_simps [simp]:
  "typing_events [] = []"
  "typing_events (d # ds) = [Ev_tx INTERFACE_KEYBOARD, Ev_tick d, Ev_main Ph_keyboard] @ typing_events ds"
  by (simp_all add: typing_events_def)

definition type_ready :: "fw \<Rightarrow> bool" where
  "type_ready s \<longleftrightarrow> active_cmd s = TYPE_CMD \<and> \<not> g_typing s \<and> can_respond s \<and> usb_configured s
     \<and> \<not> hid_busy s INTERFACE_KEYBOARD \<and> tx_report s INTERFACE_KEYBOARD = None \<and> length (d_chars s) = CMD_PACKET_PAYLOAD_SIZE"

text \<open>\<open>j\<close> of \<open>m\<close> reports are out, and the host has not yet fetched the last of them.\<close>

definition typing :: "nat \<Rightarrow> nat \<Rightarrow> fw \<Rightarrow> bool" where
  "typing j m s \<longleftrightarrow> g_typing s \<and> kb_char_pos s = j \<and> kb_n_chars s = m \<and> kb_chars s = Buf_chars \<and> char_pos_to_type s = -1
     \<and> ms_type s \<le> now s \<and> active_cmd s = TYPE_CMD \<and> can_respond s \<and> usb_configured s
     \<and> hid_busy s INTERFACE_KEYBOARD \<and> tx_report s INTERFACE_KEYBOARD = None"

text \<open>A response leaves the keyboard alone.\<close>

lemma send_keyboard:
  assumes "can_respond s" "0 < n" "n < 65536" "cmd_packet_send n s = Some s'"
  shows "keyboard_reports s' = keyboard_reports s" "g_typing s' = g_typing s"
proof -
  have "cmd_packet_send n s = do {
     s \<leftarrow> usb_send_bytes INTERFACE_CMD Tx_cmd_packet RAW_HID_PACKET_SIZE
           ((sending n s)\<lparr>raw_hid_tx_cmd_packet := tx_packet (sending n s)\<rparr>);
     Some (s\<lparr>raw_hid_tx_seq := raw_hid_tx_seq s + 1\<rparr>)
   }"
    unfolding cmd_packet_send_def sending_def [symmetric]
    by (rule maybe_send_raw_hid_packet_eq) (use assms(1-3) in \<open>simp_all add: sending_def can_respond_def\<close>)
  then show "keyboard_reports s' = keyboard_reports s" "g_typing s' = g_typing s"
    using assms(4)
    by (auto simp: usb_send_bytes_def USBD_HID_SendReport_def put_out_def sending_def keyboard_reports_def keyboard_report_def
        split: if_splits)
qed

lemma idle_check_keyboard:
  "subsystem_idle_check s = Some s' \<Longrightarrow> keyboard_reports s' = keyboard_reports s"
  "subsystem_idle_check s = Some s' \<Longrightarrow> g_typing s' = g_typing s"
  by (auto simp: subsystem_idle_check_def release_device_request_def release_device_def put_out_def keyboard_reports_def
      keyboard_report_def split: if_splits)

lemma finish_keyboard:
  assumes c: "can_respond s"
  obtains t where "finish_command_resp r s = Some t" "answered r [] t" "keyboard_reports t = keyboard_reports s"
    "g_typing t = g_typing s"
proof -
  obtain t where t: "finish_command_resp r s = Some t" "answered r [] t" by (rule finish_resp_answered [OF c])
  then obtain b s1 where b: "response_buf r 0 None 0 s = Some b" "cmd_packet_send 6 (responding 0 b s) = Some s1"
      "subsystem_idle_check s1 = Some t"
    by (auto simp: finish_command_resp_def finish_command_def finish_multi_eq bind_eq_Some_conv)
  have "length b = CMD_PACKET_BUF_SIZE"
    using response_buf_total [of s 0 None r 0] b(1) c by (auto simp: can_respond_def)
  then have "can_respond (responding 0 b s)" using c by (simp add: responding_def can_respond_def Let_def)
  note send = send_keyboard [OF this _ _ b(2)]
  show ?thesis
    by (rule that [OF t]) (use send idle_check_keyboard [OF b(3)] in \<open>simp_all add: responding_def keyboard_reports_def Let_def\<close>)
qed

lemma typing_round:
  assumes "typing j m s" "j < m" "m < 256" "25 < d"
  obtains t where "run_all (map (dev_step E) (typing_events [d])) s = Some t" "typing (Suc j) m t" "d_chars t = d_chars s"
    "keyboard_reports t = keyboard_reports s @ [slice (d_chars s) (4 * j) 2]"
proof -
  let ?t = "put_out (Out_report INTERFACE_KEYBOARD (slice (d_chars s) (4 * j) 2))
     (s\<lparr>hid_busy := (hid_busy s)(INTERFACE_KEYBOARD := True), now := now s + int d, ms_type := now s + int d, char_pos_to_type := -1,
        kb_char_pos := Suc j\<rparr>)"
  have "run_all (map (dev_step E) (typing_events [d])) s = Some ?t"
    using assms
    by (simp add: typing_def hid_data_in_def USBD_HID_DataIn_def usb_tx_keyboard_def usb_keyboard_idle_def usb_send_bytes_def
        usb_tx_pending_def USBD_HID_SendReport_def txbuf_bytes_def buf_get_def slice_def put_out_def mult.commute Let_def fun_upd_def)
  moreover have "typing (Suc j) m ?t" using assms by (simp add: typing_def put_out_def can_respond_def)
  moreover have "keyboard_reports ?t = keyboard_reports s @ [slice (d_chars s) (4 * j) 2]"
    by (simp add: keyboard_reports_def put_out_def keyboard_report_def)
  ultimately show ?thesis by (intro that) (simp_all add: put_out_def)
qed

lemma typing_end:
  assumes "typing m m s"
  obtains t where "run_all (map (dev_step E) (typing_events [d])) s = Some t" "answered OKAY [] t" "\<not> g_typing t"
    "keyboard_reports t = keyboard_reports s"
proof -
  let ?s = "END_WORK KEYBOARD_WORK (s\<lparr>hid_busy := (hid_busy s)(INTERFACE_KEYBOARD := False), g_typing := False\<rparr>)"
  have "can_respond ?s" using assms by (simp add: typing_def END_WORK_def can_respond_def)
  then obtain t where t: "finish_command_resp OKAY ?s = Some t" "answered OKAY [] t" "keyboard_reports t = keyboard_reports ?s"
      "g_typing t = g_typing ?s"
    by (rule finish_keyboard)
  let ?t = "if g_device_state t = DS_DISCONNECTED then t\<lparr>cleartext_pass_typing := False\<rparr> else t"
  have "\<not> g_typing ?t" using t(4) by (simp add: END_WORK_def)
  moreover have "run_all (map (dev_step E) (typing_events [d])) s = Some (?t\<lparr>now := now ?t + int d\<rparr>)"
    using assms t(1,4)
    by (simp add: typing_def hid_data_in_def USBD_HID_DataIn_def usb_tx_keyboard_def usb_keyboard_typing_done_def END_WORK_def
        usb_keyboard_idle_def Let_def)
  ultimately show ?thesis
    using t by (intro that [of "?t\<lparr>now := now ?t + int d\<rparr>"]) (simp_all add: answered_def keyboard_reports_def END_WORK_def)
qed

lemma typing_run:
  assumes "typing j m s" "m < 256" "length ds = Suc (m - j)" "\<forall>d \<in> set ds. 25 < d" "j \<le> m"
  shows "\<exists>t. run_all (map (dev_step E) (typing_events ds)) s = Some t \<and> answered OKAY [] t \<and> \<not> g_typing t
    \<and> keyboard_reports t = keyboard_reports s @ map (\<lambda>i. slice (d_chars s) (4 * i) 2) [j..<m]"
  using assms
proof (induction ds arbitrary: j s)
  case (Cons d ds)
  show ?case
  proof (cases "j = m")
    case True
    obtain t where "run_all (map (dev_step E) (typing_events [d])) s = Some t" "answered OKAY [] t" "\<not> g_typing t"
        "keyboard_reports t = keyboard_reports s"
      by (rule typing_end) (use Cons.prems(1) True in simp)
    then show ?thesis using Cons.prems(3) True by simp
  next
    case False
    then have j: "j < m" using Cons.prems(5) by simp
    obtain t where t: "run_all (map (dev_step E) (typing_events [d])) s = Some t" "typing (Suc j) m t" "d_chars t = d_chars s"
        "keyboard_reports t = keyboard_reports s @ [slice (d_chars s) (4 * j) 2]"
      using typing_round [OF Cons.prems(1) j Cons.prems(2), of d E] Cons.prems(4) by auto
    have len: "length ds = Suc (m - Suc j)" "\<forall>d \<in> set ds. 25 < d" "Suc j \<le> m" using Cons.prems(3,4) j by auto
    obtain t' where "run_all (map (dev_step E) (typing_events ds)) t = Some t'" "answered OKAY [] t'" "\<not> g_typing t'"
        "keyboard_reports t' = keyboard_reports t @ map (\<lambda>i. slice (d_chars t) (4 * i) 2) [Suc j..<m]"
      using Cons.IH [OF t(2) Cons.prems(2) len] by blast
    moreover have "typing_events (d # ds) = typing_events [d] @ typing_events ds" by simp
    ultimately show ?thesis using t by (simp only: map_append run_all_append) (simp add: upt_conv_Cons [OF j])
  qed
qed simp

section \<open>The TYPE command\<close>

lemma type_chars:
  "concat (map (\<lambda>i. [concat (stroke_reports ps) ! (2 * i), concat (stroke_reports ps) ! (2 * i + 1), 0, 0])
     [0..<2 * length ps]) = concat (map (\<lambda>r. r @ [0, 0]) (stroke_reports ps))"
proof (induction ps)
  case (Cons p ps)
  have "[0..<2 * length ps + 2] = 0 # 1 # [2..<2 * length ps + 2]"
    by (simp add: upt_conv_Cons numeral_2_eq_2 del: upt_Suc)
  then have u: "[0..<2 * length (p # ps)] = 0 # 1 # map (\<lambda>i. i + 2) [0..<2 * length ps]"
    using map_add_upt [of 2 "2 * length ps"] by (simp del: upt_Suc)
  show ?case using Cons.IH unfolding u by (simp add: comp_def)
qed simp

lemma drop_eight: "drop (8 + k) (a0 # a1 # a2 # a3 # a4 # a5 # a6 # a7 # xs) = drop k xs"
  by (simp add: numeral_eq_Suc)

lemma stroke_slice:
  "j < 2 * length ps \<Longrightarrow> slice (concat (map (\<lambda>r. r @ [0, 0]) (stroke_reports ps)) @ rest) (4 * j) 2 = stroke_reports ps ! j"
proof (induction ps arbitrary: j)
  case (Cons p ps)
  consider "j = 0" | "j = 1" | i where "j = i + 2" by (metis add_2_eq_Suc' not0_implies_Suc One_nat_def)
  then show ?case
  proof cases
    case 3
    then show ?thesis using Cons.IH [of i] Cons.prems by (simp add: slice_def drop_eight del: drop_append take_append)
  qed (simp_all add: slice_def)
qed simp

lemma strokes_unsigned: "k < 5000 \<Longrightarrow> to_unsigned (int (2 * k) * 4) = 8 * k"
  by simp

lemma type_cmd_typing:
  fixes ps :: "signetdev_phy_key list"
  defines "msg \<equiv> concat (stroke_reports ps)"
  assumes s: "type_ready s" and len: "8 * length ps \<le> CMD_PACKET_PAYLOAD_SIZE"
    and ds: "length ds = 2 * length ps mod 256" "\<forall>d \<in> set ds. 25 < d"
  shows "\<exists>s0 s1. type_cmd msg (int (length msg)) s = Some s0
    \<and> run_all (map (dev_step E) (typing_events ds)) s0 = Some s1 \<and> answered OKAY [] s1 \<and> \<not> g_typing s1
    \<and> keyboard_reports s1 = keyboard_reports s @ take (length ds) (stroke_reports ps)"
proof -
  let ?c = "splice (d_chars s) 0 (concat (map (\<lambda>r. r @ [0, 0]) (stroke_reports ps)))"
  let ?m = "2 * length ps mod 256" and ?s = "s\<lparr>d_chars := ?c\<rparr>"
  have n: "int (length msg) div 2 = int (2 * length ps)" unfolding msg_def length_stroke_bytes by simp
  have cl: "length (concat (map (\<lambda>r. r @ [0, 0]) (stroke_reports ps))) = 8 * length ps" by (induction ps) auto
  have small: "length ps < 5000" using len by simp
  have run: "type_cmd msg (int (length msg)) s = usb_keyboard_type Buf_chars (2 * length ps) ?s"
    unfolding type_cmd_def n Let_def nat_int unfolding msg_def type_chars strokes_unsigned [OF small]
    using len s by (simp add: memcpy_to_def cl type_ready_def)
  have sl: "slice ?c (4 * j) 2 = stroke_reports ps ! j" if "j < 2 * length ps" for j
    using stroke_slice [OF that] by (simp add: splice_def)
  show ?thesis
  proof (cases "?m = 0")
    case True
    have "can_respond ?s" using s by (simp add: type_ready_def can_respond_def)
    then obtain t where t: "finish_command_resp OKAY ?s = Some t" "answered OKAY [] t" "keyboard_reports t = keyboard_reports ?s"
        "g_typing t = g_typing ?s"
      by (rule finish_keyboard)
    let ?t = "if g_device_state t = DS_DISCONNECTED then t\<lparr>cleartext_pass_typing := False\<rparr> else t"
    have "type_cmd msg (int (length msg)) s = Some ?t"
      using s t(1) True unfolding run by (simp add: usb_keyboard_type_def usb_keyboard_typing_done_def type_ready_def)
    moreover have "answered OKAY [] ?t" "\<not> g_typing ?t" "keyboard_reports ?t = keyboard_reports s"
      using t s by (simp_all add: answered_def keyboard_reports_def type_ready_def)
    ultimately show ?thesis using ds(1) True by auto
  next
    case False
    let ?t = "put_out (Out_report INTERFACE_KEYBOARD (slice ?c 0 2))
       ((BEGIN_WORK KEYBOARD_WORK (?s\<lparr>kb_n_chars := ?m, kb_chars := Buf_chars, kb_char_pos := 0, g_typing := True\<rparr>))
        \<lparr>hid_busy := (hid_busy s)(INTERFACE_KEYBOARD := True), ms_type := now s, char_pos_to_type := -1, kb_char_pos := 1\<rparr>)"
    have t: "usb_keyboard_type Buf_chars (2 * length ps) ?s = Some ?t"
      using s False
      by (simp add: usb_keyboard_type_def type_ready_def usb_send_bytes_def usb_tx_pending_def USBD_HID_SendReport_def
          txbuf_bytes_def buf_get_def slice_def put_out_def BEGIN_WORK_def Let_def)
    have "typing 1 ?m ?t" using s by (simp add: typing_def type_ready_def put_out_def BEGIN_WORK_def can_respond_def)
    moreover have "d_chars ?t = ?c" by (simp add: put_out_def BEGIN_WORK_def)
    moreover have "keyboard_reports ?t = keyboard_reports s @ [slice ?c 0 2]"
      by (simp add: keyboard_reports_def put_out_def keyboard_report_def BEGIN_WORK_def)
    ultimately obtain s1 where s1: "run_all (map (dev_step E) (typing_events ds)) ?t = Some s1" "answered OKAY [] s1"
        "\<not> g_typing s1" "keyboard_reports s1 = keyboard_reports s @ [slice ?c 0 2] @ map (\<lambda>i. slice ?c (4 * i) 2) [1..<?m]"
      using typing_run [of 1 ?m ?t ds E] ds False by auto
    have "[slice ?c 0 2] @ map (\<lambda>i. slice ?c (4 * i) 2) [1..<?m] = map (\<lambda>i. slice ?c (4 * i) 2) [0..<?m]"
      using False by (simp add: upt_conv_Cons)
    also have "\<dots> = take ?m (stroke_reports ps)"
      by (rule nth_equalityI) (use sl mod_less_eq_dividend [of "2 * length ps" 256] in auto)
    finally show ?thesis using s1 t ds(1) unfolding run by auto
  qed
qed

lemma type_cmd_refused:
  assumes "type_ready s" "CMD_PACKET_PAYLOAD_SIZE < 8 * length ps" "4 * length ps < MAX_CMD_PACKET_PAYLOAD_SIZE"
  shows "\<exists>s0. type_cmd (concat (stroke_reports ps)) (int (length (concat (stroke_reports ps)))) s = Some s0
    \<and> answered INVALID_INPUT [] s0 \<and> keyboard_reports s0 = keyboard_reports s"
proof -
  have "can_respond s" using assms(1) by (simp add: type_ready_def)
  then obtain t where "finish_command_resp INVALID_INPUT s = Some t" "answered INVALID_INPUT [] t" "keyboard_reports t = keyboard_reports s"
    by (rule finish_keyboard)
  moreover have "int (4 * length ps) div 2 = int (2 * length ps)" by simp
  then have "type_cmd (concat (stroke_reports ps)) (int (length (concat (stroke_reports ps)))) s = finish_command_resp INVALID_INPUT s"
    unfolding type_cmd_def length_stroke_bytes Let_def
    using strokes_unsigned [of "length ps"] assms(2,3) by (simp only: if_True)
  ultimately show ?thesis by auto
qed

text \<open>
  C26. A text typed through the device, from the call of the host library to the reports of the
  keyboard. Let \<open>n\<close> be the number of strokes of the text. If \<open>4 * n\<close> bytes do not fit the payload
  of a request, \<open>signetdev_type_w\<close> returns the overflow error and sends nothing. Otherwise it sends
  one request. A logged in device whose keyboard is idle refuses it with INVALID_INPUT, typing nothing,
  if the strokes do not fit its buffer. Else, as long as the host fetches each report and the main
  loop comes around more than 25 ms later, the device presses and releases the first keys of the text
  in their order, ends and answers OKAY. It sends \<open>2 * n mod 256\<close> reports, because
  \<open>usb_keyboard_type\<close> takes their number as a \<open>u8\<close>: a text of fewer than 128 strokes is typed in full,
  of a longer one only a part, or nothing for 128 strokes, and the answer is OKAY all the same.
\<close>

theorem type_w_typed:
  assumes "type_ready s" "\<forall>d \<in> set ds. 25 < d" "length ds = 2 * length (text_strokes kinv keys) mod 256"
  shows "if MAX_CMD_PACKET_PAYLOAD_SIZE \<le> 4 * length (text_strokes kinv keys)
    then signetdev_type_w kinv usr keys h = Some (SIGNET_ERROR_OVERFLOW, token_ctr h, h\<lparr>token_ctr := token_ctr h + 1\<rparr>)
    else \<exists>h' req msg s0. signetdev_type_w kinv usr keys h = Some (0, token_ctr h, h') \<and> issued h' = issued h @ [req]
      \<and> dev_cmd req = TYPE_CMD \<and> payload req = Some msg \<and> payload_size req = length msg
      \<and> logged_in_state E msg (int (length msg)) s = Some (0, s0)
      \<and> (if CMD_PACKET_PAYLOAD_SIZE < 8 * length (text_strokes kinv keys)
         then answered INVALID_INPUT [] s0 \<and> keyboard_reports s0 = keyboard_reports s
         else \<exists>s1. run_all (map (dev_step E) (typing_events ds)) s0 = Some s1 \<and> answered OKAY [] s1 \<and> \<not> g_typing s1
           \<and> keyboard_reports s1 = keyboard_reports s @
               take (2 * length (text_strokes kinv keys) mod 256)
                 (concat (map (\<lambda>p. [[modifier p, scancode p], [0, 0]]) (text_strokes kinv keys))))"
proof (cases "MAX_CMD_PACKET_PAYLOAD_SIZE \<le> 4 * length (text_strokes kinv keys)")
  case False
  let ?ps = "text_strokes kinv keys"
  let ?msg = "concat (stroke_reports ?ps)"
  have l: "logged_in_state E ?msg (int (length ?msg)) s = handled (type_cmd ?msg (int (length ?msg)) s)"
    using assms(1) by (simp add: logged_in_state_def type_ready_def)
  note w = type_w_sends [of kinv keys usr h] length_stroke_bytes [of ?ps]
  show ?thesis
  proof (cases "CMD_PACKET_PAYLOAD_SIZE < 8 * length ?ps")
    case True
    then show ?thesis
      using type_cmd_refused [OF assms(1) True] False w l by (auto simp: handled_def)
  next
    case fit: False
    then have "8 * length ?ps \<le> CMD_PACKET_PAYLOAD_SIZE" by simp
    from type_cmd_typing [OF assms(1) this assms(3,2), of E] obtain s0 s1 where
      t: "type_cmd ?msg (int (length ?msg)) s = Some s0" "run_all (map (dev_step E) (typing_events ds)) s0 = Some s1"
        "answered OKAY [] s1" "\<not> g_typing s1" "keyboard_reports s1 = keyboard_reports s @ take (length ds) (stroke_reports ?ps)"
      by blast
    then have "logged_in_state E ?msg (int (length ?msg)) s = Some (0, s0)" unfolding l by (simp add: handled_def)
    then show ?thesis
      using False fit w t(2-5) unfolding assms(3) by (auto simp: stroke_reports_def)
  qed
qed (simp add: type_w_refuses)

text \<open>A text of two letters, and one of 128 letters of which nothing is typed.\<close>

definition typing_example :: fw where
  "typing_example = fw_reset\<lparr>usb_configured := True, active_cmd := TYPE_CMD\<rparr>"

theorem type_w_typed_witness:
  "(\<exists>msg s0 s1. logged_in_state env_example msg (int (length msg)) typing_example = Some (0, s0)
      \<and> run_all (map (dev_step env_example) (typing_events [26, 30, 40, 1000])) s0 = Some s1 \<and> answered OKAY [] s1
      \<and> keyboard_reports s1 = [[0, 4], [0, 0], [2, 4], [0, 0]])
   \<and> (\<exists>h' req msg s0. signetdev_type_w kinv_example 0 (replicate 128 97) host_example = Some (0, 1, h') \<and> issued h' = [req]
      \<and> payload req = Some msg \<and> logged_in_state env_example msg (int (length msg)) typing_example = Some (0, s0)
      \<and> answered OKAY [] s0 \<and> keyboard_reports s0 = [])"
proof -
  have r: "type_ready typing_example" "keyboard_reports typing_example = []"
    using can_respond_reset by (simp_all add: type_ready_def typing_example_def can_respond_def keyboard_reports_def)
      (simp_all add: fw_reset_def)
  have k: "key_strokes (kinv_example 97) = [\<lparr>scancode = 4, modifier = 0\<rparr>]" "key_strokes (kinv_example 65) = [\<lparr>scancode = 4, modifier = 2\<rparr>]"
    by (simp_all add: key_strokes_def kinv_example_def en_us_key_def)
  have two: "text_strokes kinv_example [97, 65] = [\<lparr>scancode = 4, modifier = 0\<rparr>, \<lparr>scancode = 4, modifier = 2\<rparr>]"
    by (simp add: text_strokes_def k)
  have "length (concat (replicate n [x])) = n" for n and x :: signetdev_phy_key by (induction n) simp_all
  then have many: "length (text_strokes kinv_example (replicate 128 97)) = 128" by (simp add: text_strokes_def k)
  have h: "token_ctr host_example = 1" "issued host_example = []" by (simp_all add: host_example_def)
  show ?thesis
    using type_w_typed [OF r(1), of "[26, 30, 40, 1000]" kinv_example "[97, 65]" 0 host_example env_example]
      type_w_typed [OF r(1), of "[]" kinv_example "replicate 128 97" 0 host_example env_example]
    unfolding many two r(2) h by (auto simp: r(2) simp del: typing_events_simps(2))
qed

end
