(* ===== verification/Buffer_Fifo.thy ===== *)
theory Buffer_Fifo
  imports Prelude
begin

text \<open>
  \<open>buffer_manager.c\<close>: the ring of buffers through which the mass storage code moves data, with
  up to four stages (USB, eMMC, cipher) that each work on one buffer at a time. The stages run
  in the background and report their end in any order. The contract: every buffer passes every
  stage, in order and with what the stage before left in it, no stage overwrites a buffer that
  a later stage has still to read, the pipeline never gets stuck, and the end is reported once.

  A stage's function starts the hardware and returns, it does not call back into the FIFO; so an
  operation returns, beside the new state, the calls it makes, in their order. Buffers are named
  by their index. Disabling interrupts makes each operation one step.
\<close>

section \<open>State and operations\<close>

record 'st bufferFIFO =
  maxBufferSize :: nat
  bufferCount :: nat
  numStages :: nat
  processStage :: "nat \<Rightarrow> 'st"
  bf_bufferSize :: "nat \<Rightarrow> int"
  bf_bufferData :: "nat \<Rightarrow> u32"
  bf_stageWriteIndex :: "nat \<Rightarrow> nat"
  bf_stageReadIndex :: "nat \<Rightarrow> nat"
  bf_stalled :: "nat \<Rightarrow> bool"
  bf_stageProcessing :: "nat \<Rightarrow> bool"
  bf_processing :: bool
  bf_stall_index :: nat

text \<open>A call of a stage: its function, size and data of the buffer to read, the buffers to read and write, the stage.\<close>

datatype 'st fifo_call =
  Call_stage 'st int u32 nat nat nat
| Call_complete

definition bufferFIFO_execStage :: "nat \<Rightarrow> 'st bufferFIFO \<Rightarrow> 'st fifo_call list \<times> 'st bufferFIFO" where
  "bufferFIFO_execStage stageIdx bf =
     (let readBufferIdx = bf_stageReadIndex bf stageIdx mod bufferCount bf;
          writeBufferIdx = bf_stageWriteIndex bf stageIdx mod bufferCount bf;
          bf = bf\<lparr>bf_stageProcessing := (bf_stageProcessing bf)(stageIdx := True)\<rparr>
      in ([Call_stage (processStage bf stageIdx) (bf_bufferSize bf readBufferIdx) (bf_bufferData bf readBufferIdx)
             readBufferIdx writeBufferIdx stageIdx], bf))"

definition bufferFIFO_stageStalled :: "nat \<Rightarrow> 'st bufferFIFO \<Rightarrow> bool" where
  "bufferFIFO_stageStalled stage bf =
     (if bf_stageProcessing bf stage \<or> bf_stalled bf stage then True
      else if stage \<noteq> 0 then bf_stageReadIndex bf stage = bf_stageWriteIndex bf (stage - 1)
      else bf_stageWriteIndex bf 0 = bf_stageReadIndex bf (numStages bf - 1) + bufferCount bf)"

definition bufferFIFO_stallStage :: "nat \<Rightarrow> 'st bufferFIFO \<Rightarrow> 'st bufferFIFO" where
  "bufferFIFO_stallStage stageIdx bf =
     bf\<lparr>bf_stageProcessing := (bf_stageProcessing bf)(stageIdx := False), bf_stalled := (bf_stalled bf)(stageIdx := True)\<rparr>"

definition start_unless_stalled :: "nat \<Rightarrow> 'st bufferFIFO \<Rightarrow> 'st fifo_call list \<times> 'st bufferFIFO" where
  "start_unless_stalled stage bf = (if bufferFIFO_stageStalled stage bf then ([], bf) else bufferFIFO_execStage stage bf)"

text \<open>The loop that advances \<open>_stall_index\<close> over the stages that are through.\<close>

function stall_loop :: "'st bufferFIFO \<Rightarrow> nat \<Rightarrow> nat" where
  "stall_loop bf i =
     (if i < numStages bf then
        (if bf_stageProcessing bf i \<or> \<not> bf_stalled bf i then i else stall_loop bf (i + 1))
      else i)"
  by pat_completeness auto
termination by (relation "measure (\<lambda>(bf, i). numStages bf - i)") auto

declare stall_loop.simps [simp del]

definition bufferFIFO_processingComplete ::
    "nat \<Rightarrow> int \<Rightarrow> u32 \<Rightarrow> 'st bufferFIFO \<Rightarrow> 'st fifo_call list \<times> 'st bufferFIFO" where
  "bufferFIFO_processingComplete stageIdx writeLen bufferData bf =
     (let i = bf_stageWriteIndex bf stageIdx mod bufferCount bf;
          bf = (if 0 \<le> writeLen
                then bf\<lparr>bf_bufferSize := (bf_bufferSize bf)(i := writeLen), bf_bufferData := (bf_bufferData bf)(i := bufferData)\<rparr>
                else bf);
          nextStageIdx = (stageIdx + 1) mod numStages bf;
          bf = bf\<lparr>bf_stageProcessing := (bf_stageProcessing bf)(stageIdx := False),
                  bf_stageWriteIndex := (bf_stageWriteIndex bf)(stageIdx := bf_stageWriteIndex bf stageIdx + 1),
                  bf_stageReadIndex := (bf_stageReadIndex bf)(stageIdx := bf_stageReadIndex bf stageIdx + 1)\<rparr>;
          (c1, bf) = start_unless_stalled stageIdx bf;
          (c2, bf) = start_unless_stalled nextStageIdx bf
      in if bf_processing bf then
           (let bf = bf\<lparr>bf_stall_index := stall_loop bf (bf_stall_index bf)\<rparr>
            in if bf_stall_index bf = numStages bf then (c1 @ c2 @ [Call_complete], bf\<lparr>bf_processing := False\<rparr>)
               else (c1 @ c2, bf))
         else (c1 @ c2, bf))"

definition start_read_index :: "nat \<Rightarrow> nat \<Rightarrow> nat" where
  "start_read_index n i = (if i = 0 then n - 2 else if i = n - 1 then 0 else n - 2 - i + 1)"

definition start_write_index :: "nat \<Rightarrow> nat \<Rightarrow> nat" where
  "start_write_index n i = (if i = 0 then n - 2 else if i = n - 1 then 0 else n - 2 - i)"

definition bufferFIFO_start :: "int \<Rightarrow> 'st bufferFIFO \<Rightarrow> 'st fifo_call list \<times> 'st bufferFIFO" where
  "bufferFIFO_start firstBufferSize bf =
     (let n = numStages bf;
          bf = bf\<lparr>bf_processing := True, bf_stall_index := 0,
                  bf_bufferSize := (\<lambda>i. if i < bufferCount bf then 0 else bf_bufferSize bf i),
                  bf_stageProcessing := (\<lambda>i. if i < n then False else bf_stageProcessing bf i),
                  bf_stalled := (\<lambda>i. if i < n then False else bf_stalled bf i),
                  bf_stageReadIndex := (\<lambda>i. if i < n \<and> 2 < n then start_read_index n i
                                            else if i < n \<and> n = 2 then 0 else bf_stageReadIndex bf i),
                  bf_stageWriteIndex := (\<lambda>i. if i < n \<and> 2 < n then start_write_index n i
                                             else if i < n \<and> n = 2 then 0 else bf_stageWriteIndex bf i)\<rparr>;
          bf = bf\<lparr>bf_bufferSize := (bf_bufferSize bf)(bf_stageWriteIndex bf 0 := firstBufferSize)\<rparr>
      in bufferFIFO_execStage 0 bf)"

section \<open>The invariant\<close>

text \<open>The distance of the indices of a stage from the number of buffers it is through with.\<close>

definition read_off :: "nat \<Rightarrow> nat \<Rightarrow> nat" where
  "read_off n k = (if k = 0 then n - 2 else n - 1 - k)"

definition write_off :: "nat \<Rightarrow> nat \<Rightarrow> nat" where
  "write_off n k = (if k = n - 1 then 0 else n - 2 - k)"

lemma stage_offsets:
  "2 \<le> n \<Longrightarrow> read_off n (n - 1) = 0" "0 < k \<Longrightarrow> k < n \<Longrightarrow> write_off n (k - 1) = read_off n k"
  "2 \<le> n \<Longrightarrow> write_off n 0 = n - 2"
  by (auto simp: read_off_def write_off_def)

text \<open>
  With \<open>c k\<close> buffers through stage \<open>k\<close>, of \<open>N\<close> in all: the indices, who is stalled, and that a
  stage works exactly when it has something to do and room for it.
\<close>

definition stage_ready :: "nat \<Rightarrow> nat \<Rightarrow> nat \<Rightarrow> (nat \<Rightarrow> nat) \<Rightarrow> nat \<Rightarrow> bool" where
  "stage_ready n C N c k \<longleftrightarrow> c k < N \<and> (if k = 0 then write_off n 0 + c 0 < c (n - 1) + C else c k < c (k - 1))"

definition fifo_index :: "nat \<Rightarrow> nat \<Rightarrow> nat \<Rightarrow> (nat \<Rightarrow> nat) \<Rightarrow> 'st bufferFIFO \<Rightarrow> bool" where
  "fifo_index n C N c bf \<longleftrightarrow>
     2 \<le> n \<and> n \<le> C + 1 \<and> numStages bf = n \<and> bufferCount bf = C
   \<and> (\<forall>k < n. c k \<le> N) \<and> (\<forall>k. 0 < k \<longrightarrow> k < n \<longrightarrow> c k \<le> c (k - 1)) \<and> write_off n 0 + c 0 \<le> c (n - 1) + C
   \<and> (\<forall>k < n. bf_stageReadIndex bf k = read_off n k + c k
         \<and> bf_stageWriteIndex bf k = write_off n k + c k
         \<and> (bf_stalled bf k \<longleftrightarrow> c k = N))"

definition fifo_inv :: "nat \<Rightarrow> nat \<Rightarrow> nat \<Rightarrow> (nat \<Rightarrow> nat) \<Rightarrow> 'st bufferFIFO \<Rightarrow> bool" where
  "fifo_inv n C N c bf \<longleftrightarrow>
     fifo_index n C N c bf \<and> (\<forall>k < n. bf_stageProcessing bf k \<longleftrightarrow> stage_ready n C N c k)
   \<and> bf_stall_index bf \<le> n \<and> (\<forall>k < bf_stall_index bf. c k = N)
   \<and> (bf_processing bf \<longleftrightarrow> \<not> (\<forall>k < n. c k = N))"

lemma stage_index_start:
  "2 < n \<Longrightarrow> k < n \<Longrightarrow> start_read_index n k = read_off n k"
  "2 < n \<Longrightarrow> k < n \<Longrightarrow> start_write_index n k = write_off n k"
  by (auto simp: start_read_index_def start_write_index_def read_off_def write_off_def)

lemma fifo_inv_start:
  assumes "2 \<le> numStages bf" "numStages bf \<le> bufferCount bf + 1" "0 < N"
  shows "fifo_inv (numStages bf) (bufferCount bf) N (\<lambda>_. 0) (snd (bufferFIFO_start sz bf))"
  using assms exI [of "\<lambda>k. k < numStages bf" 0]
  by (auto simp: fifo_inv_def fifo_index_def bufferFIFO_start_def bufferFIFO_execStage_def Let_def stage_index_start stage_ready_def stage_offsets)
    (auto simp: read_off_def write_off_def)?

lemma stall_loop_eq:
  assumes "i \<le> numStages bf"
  shows "i \<le> stall_loop bf i \<and> stall_loop bf i \<le> numStages bf
    \<and> (\<forall>j. i \<le> j \<longrightarrow> j < stall_loop bf i \<longrightarrow> \<not> bf_stageProcessing bf j \<and> bf_stalled bf j)
    \<and> (stall_loop bf i < numStages bf \<longrightarrow> bf_stageProcessing bf (stall_loop bf i) \<or> \<not> bf_stalled bf (stall_loop bf i))"
  using assms
proof (induction bf i rule: stall_loop.induct)
  case (1 bf i)
  show ?case
  proof (cases "i < numStages bf \<and> \<not> bf_stageProcessing bf i \<and> bf_stalled bf i")
    case True
    then have e: "stall_loop bf i = stall_loop bf (Suc i)" by (subst stall_loop.simps) simp
    have "Suc i \<le> stall_loop bf (Suc i) \<and> stall_loop bf (Suc i) \<le> numStages bf
      \<and> (\<forall>j. Suc i \<le> j \<longrightarrow> j < stall_loop bf (Suc i) \<longrightarrow> \<not> bf_stageProcessing bf j \<and> bf_stalled bf j)
      \<and> (stall_loop bf (Suc i) < numStages bf \<longrightarrow> bf_stageProcessing bf (stall_loop bf (Suc i)) \<or> \<not> bf_stalled bf (stall_loop bf (Suc i)))"
      using 1 True by simp
    then show ?thesis using True unfolding e by (metis Suc_leD Suc_leI le_neq_implies_less)
  next
    case False
    then have "stall_loop bf i = i" by (subst stall_loop.simps) auto
    then show ?thesis using False 1(2) by auto
  qed
qed

lemma index_order: "fifo_index n C N c bf \<Longrightarrow> 0 < k \<Longrightarrow> k < n \<Longrightarrow> c k \<le> c (k - 1)"
  by (simp add: fifo_index_def)

lemma stageStalled_iff:
  assumes "fifo_index n C N c bf" "k < n"
  shows "bufferFIFO_stageStalled k bf \<longleftrightarrow> bf_stageProcessing bf k \<or> \<not> stage_ready n C N c k"
proof (cases "k = 0")
  case True
  have n: "2 \<le> n" using assms by (simp add: fifo_index_def)
  have "bf_stageWriteIndex bf 0 = write_off n 0 + c 0" "bf_stageReadIndex bf (n - 1) = c (n - 1)" "c 0 \<le> N"
    "bf_stalled bf 0 \<longleftrightarrow> c 0 = N" "write_off n 0 + c 0 \<le> c (n - 1) + C" "numStages bf = n" "bufferCount bf = C"
    using assms stage_offsets(1) [OF n] by (auto simp: fifo_index_def)
  then show ?thesis using True by (auto simp: bufferFIFO_stageStalled_def stage_ready_def)
next
  case False
  have "k - 1 < n" "write_off n (k - 1) = read_off n k" using False assms(2) stage_offsets(2) by auto
  then have "bf_stageReadIndex bf k = read_off n k + c k" "bf_stageWriteIndex bf (k - 1) = read_off n k + c (k - 1)"
    "c k \<le> c (k - 1)" "c k \<le> N" "bf_stalled bf k \<longleftrightarrow> c k = N"
    using assms False by (simp_all add: fifo_index_def)
  then show ?thesis using False by (auto simp: bufferFIFO_stageStalled_def stage_ready_def)
qed

lemma fifo_index_processing:
  "fifo_index n C N c (bf\<lparr>bf_stageProcessing := p\<rparr>) = fifo_index n C N c bf"
  "fifo_index n C N c (bf\<lparr>bf_bufferSize := z\<rparr>) = fifo_index n C N c bf"
  "fifo_index n C N c (bf\<lparr>bf_bufferData := d\<rparr>) = fifo_index n C N c bf"
  "fifo_index n C N c (bf\<lparr>bf_stall_index := i\<rparr>) = fifo_index n C N c bf"
  "fifo_index n C N c (bf\<lparr>bf_processing := b\<rparr>) = fifo_index n C N c bf"
  by (simp_all add: fifo_index_def)

text \<open>The call that starts stage \<open>k\<close>.\<close>

definition start_call :: "'st bufferFIFO \<Rightarrow> nat \<Rightarrow> 'st fifo_call" where
  "start_call bf k =
     (let r = bf_stageReadIndex bf k mod bufferCount bf; w = bf_stageWriteIndex bf k mod bufferCount bf
      in Call_stage (processStage bf k) (bf_bufferSize bf r) (bf_bufferData bf r) r w k)"

lemma start_unless_stalled_eq:
  assumes "fifo_index n C N c bf" "k < n"
  shows "start_unless_stalled k bf =
    (if \<not> bf_stageProcessing bf k \<and> stage_ready n C N c k
     then ([start_call bf k], bf\<lparr>bf_stageProcessing := (bf_stageProcessing bf)(k := True)\<rparr>) else ([], bf))"
  using stageStalled_iff [OF assms] by (simp add: start_unless_stalled_def bufferFIFO_execStage_def start_call_def Let_def)

text \<open>The end of a stage's work, with the stall of a stage that is through.\<close>

definition stage_done :: "nat \<Rightarrow> int \<Rightarrow> u32 \<Rightarrow> bool \<Rightarrow> 'st bufferFIFO \<Rightarrow> 'st fifo_call list \<times> 'st bufferFIFO" where
  "stage_done k len dat through bf =
     bufferFIFO_processingComplete k len dat (if through then bufferFIFO_stallStage k bf else bf)"

lemma stage_ready_other:
  assumes "k < n" "j < n" "j \<noteq> k" "j \<noteq> (k + 1) mod n"
  shows "stage_ready n C N (c(k := c k + 1)) j = stage_ready n C N c j"
proof -
  have "j \<noteq> 0 \<Longrightarrow> j - 1 \<noteq> k" using assms by (cases "k + 1 = n") auto
  moreover have "j = 0 \<Longrightarrow> n - 1 \<noteq> k" using assms by (cases "k + 1 = n") auto
  ultimately show ?thesis using assms(3) by (auto simp: stage_ready_def)
qed

lemma stage_ready_next:
  assumes "2 \<le> n" "k < n" "stage_ready n C N c ((k + 1) mod n)"
  shows "stage_ready n C N (c(k := c k + 1)) ((k + 1) mod n)"
  using assms by (cases "k + 1 = n") (auto simp: stage_ready_def)

lemma fifo_index_done:
  assumes inv: "fifo_inv n C N c bf" and k: "k < n" "bf_stageProcessing bf k"
  defines "bf1 \<equiv> if c k + 1 = N then bufferFIFO_stallStage k bf else bf"
  shows "fifo_index n C N (c(k := c k + 1)) (bf1
    \<lparr>bf_stageProcessing := p, bf_stageWriteIndex := (bf_stageWriteIndex bf1)(k := bf_stageWriteIndex bf1 k + 1),
     bf_stageReadIndex := (bf_stageReadIndex bf1)(k := bf_stageReadIndex bf1 k + 1)\<rparr>)"
proof -
  have r: "stage_ready n C N c k" using inv k by (simp add: fifo_inv_def)
  have i: "fifo_index n C N c bf" using inv by (simp add: fifo_inv_def)
  have b: "numStages bf1 = n" "bufferCount bf1 = C" "2 \<le> n" "n \<le> C + 1"
    using i by (simp_all add: bf1_def bufferFIFO_stallStage_def fifo_index_def)
  have c: "\<forall>j < n. (c(k := c k + 1)) j \<le> N" using i r by (auto simp: fifo_index_def stage_ready_def)
  have m: "(c(k := c k + 1)) j \<le> (c(k := c k + 1)) (j - 1)" if "0 < j" "j < n" for j
  proof (cases "j = k")
    case True
    then show ?thesis using r that by (simp add: stage_ready_def)
  next
    case False
    moreover have "c j \<le> c (j - 1)" using i that by (simp add: fifo_index_def)
    ultimately show ?thesis by (cases "j - 1 = k") auto
  qed
  have w: "write_off n 0 + (c(k := c k + 1)) 0 \<le> (c(k := c k + 1)) (n - 1) + C"
    using i r by (auto simp: fifo_index_def stage_ready_def)
  have x: "bf_stageReadIndex bf1 = bf_stageReadIndex bf" "bf_stageWriteIndex bf1 = bf_stageWriteIndex bf"
    "bf_stalled bf1 = (if c k + 1 = N then (bf_stalled bf)(k := True) else bf_stalled bf)"
    by (simp_all add: bf1_def bufferFIFO_stallStage_def)
  have s: "\<forall>j < n. bf_stageReadIndex bf j = read_off n j + c j \<and> bf_stageWriteIndex bf j = write_off n j + c j \<and> (bf_stalled bf j \<longleftrightarrow> c j = N)"
    using i by (simp add: fifo_index_def)
  have "c k < N" using r by (simp add: stage_ready_def)
  then show ?thesis
    unfolding fifo_index_def using b c m w s k(1) by (simp add: x)
qed

text \<open>The stages that the end of stage \<open>k\<close> starts.\<close>

definition started :: "nat \<Rightarrow> nat \<Rightarrow> nat \<Rightarrow> (nat \<Rightarrow> nat) \<Rightarrow> nat \<Rightarrow> nat \<Rightarrow> bool" where
  "started n C N c k j \<longleftrightarrow>
     stage_ready n C N (c(k := c k + 1)) j \<and> (j = k \<or> j = (k + 1) mod n \<and> \<not> stage_ready n C N c j)"

lemma fifo_done:
  assumes inv: "fifo_inv n C N c bf" and k: "k < n" "bf_stageProcessing bf k" and len: "0 \<le> len"
  obtains bf' where
    "stage_done k len dat (c k + 1 = N) bf = (map (start_call bf') (filter (started n C N c k) [k, (k + 1) mod n])
        @ (if \<forall>j < n. (c(k := c k + 1)) j = N then [Call_complete] else []), bf')"
    "fifo_inv n C N (c(k := c k + 1)) bf'"
    "bf_bufferSize bf' = (bf_bufferSize bf)(bf_stageWriteIndex bf k mod C := len)" "processStage bf' = processStage bf"
proof -
  let ?c = "c(k := c k + 1)"
  define x where "x = (k + 1) mod n"
  define bf1 where "bf1 = (if c k + 1 = N then bufferFIFO_stallStage k bf else bf)"
  define w where "w = bf_stageWriteIndex bf k mod C"
  define bf2 where "bf2 = bf1\<lparr>bf_bufferSize := (bf_bufferSize bf1)(w := len), bf_bufferData := (bf_bufferData bf1)(w := dat),
     bf_stageProcessing := (bf_stageProcessing bf1)(k := False),
     bf_stageWriteIndex := (bf_stageWriteIndex bf1)(k := bf_stageWriteIndex bf1 k + 1),
     bf_stageReadIndex := (bf_stageReadIndex bf1)(k := bf_stageReadIndex bf1 k + 1)\<rparr>"
  have n: "2 \<le> n" "numStages bf = n" "bufferCount bf = C" using inv by (simp_all add: fifo_inv_def fifo_index_def)
  have x: "x < n" "x \<noteq> k" using n(1) k(1) by (auto simp: x_def mod_Suc)
  have st: "started n C N c k k \<longleftrightarrow> stage_ready n C N ?c k"
    "started n C N c k x \<longleftrightarrow> stage_ready n C N ?c x \<and> \<not> stage_ready n C N c x"
    using x(2) by (auto simp: started_def x_def)
  have i2: "fifo_index n C N ?c bf2"
    using fifo_index_done [OF inv k, folded bf1_def, of "(bf_stageProcessing bf1)(k := False)"]
    by (simp add: bf2_def fifo_index_def)
  have p2: "bf_stageProcessing bf2 j \<longleftrightarrow> j \<noteq> k \<and> stage_ready n C N c j" if "j < n" for j
    using inv that by (auto simp: bf2_def bf1_def bufferFIFO_stallStage_def fifo_inv_def)
  define bf3 where "bf3 = bf2\<lparr>bf_stageProcessing := (bf_stageProcessing bf2)(k := stage_ready n C N ?c k)\<rparr>"
  define bf4 where "bf4 = bf3\<lparr>bf_stageProcessing := (bf_stageProcessing bf3)(x := stage_ready n C N ?c x)\<rparr>"
  have i3: "fifo_index n C N ?c bf3" "fifo_index n C N ?c bf4" using i2 by (simp_all add: bf3_def bf4_def fifo_index_processing)
  have s1: "start_unless_stalled k bf2 = (if started n C N c k k then [start_call bf2 k] else [], bf3)"
    using start_unless_stalled_eq [OF i2 k(1)] p2 [OF k(1)] by (auto simp: st bf3_def fun_upd_idem)
  have p3: "bf_stageProcessing bf3 x \<longleftrightarrow> stage_ready n C N c x" using p2 [OF x(1)] x(2) by (simp add: bf3_def)
  have s2: "start_unless_stalled x bf3 = (if started n C N c k x then [start_call bf3 x] else [], bf4)"
    using start_unless_stalled_eq [OF i3(1) x(1)] p3 x(2) stage_ready_next [OF n(1) k(1), of C N c, folded x_def]
    by (auto simp: st bf4_def fun_upd_idem)
  have ready: "bf_stageProcessing bf4 j \<longleftrightarrow> stage_ready n C N ?c j" if "j < n" for j
    using that p2 [OF that] stage_ready_other [OF k(1) that, of C N c, folded x_def] by (auto simp: bf4_def bf3_def)
  define i where "i = stall_loop bf4 (bf_stall_index bf4)"
  define bf5 where "bf5 = bf4\<lparr>bf_stall_index := i, bf_processing := (i \<noteq> n)\<rparr>"
  have idem: "bf_processing y \<Longrightarrow> y\<lparr>bf_processing := True\<rparr> = y" for y :: "'a bufferFIFO" by (cases y) simp
  have b4: "numStages bf4 = n" "bufferCount bf4 = C" "bf_processing bf4 = bf_processing bf" "bf_stall_index bf4 = bf_stall_index bf"
    using n by (simp_all add: bf4_def bf3_def bf2_def bf1_def bufferFIFO_stallStage_def)
  have il: "stall_loop bf4 (bf_stall_index bf) = i" by (simp add: i_def b4)
  have run: "bf_processing bf" "c k < N"
    using inv k by (auto simp: fifo_inv_def stage_ready_def)
  have through: "bf_stalled bf4 j \<and> \<not> bf_stageProcessing bf4 j \<longleftrightarrow> ?c j = N" if "j < n" for j
    using ready [OF that] i3(2) that by (auto simp: fifo_index_def stage_ready_def)
  have si: "bf_stall_index bf \<le> n" "\<forall>j < bf_stall_index bf. ?c j = N"
    using inv run(2) by (auto simp: fifo_inv_def)
  note l = stall_loop_eq [of "bf_stall_index bf" bf4, unfolded b4, OF si(1)]
  have i: "i \<le> n" "\<forall>j < i. ?c j = N" "i < n \<Longrightarrow> ?c i \<noteq> N"
    using l si through unfolding i_def b4 by (metis dual_order.strict_trans1 not_le_imp_less order_less_le_trans)+
  then have all: "i = n \<longleftrightarrow> (\<forall>j < n. ?c j = N)" by (metis le_neq_implies_less)
  have e1: "bf_stageWriteIndex bf1 = bf_stageWriteIndex bf" "bufferCount bf1 = C" "numStages bf1 = n"
    using n by (simp_all add: bf1_def bufferFIFO_stallStage_def)
  have sd: "stage_done k len dat (c k + 1 = N) bf = bufferFIFO_processingComplete k len dat bf1"
    by (simp only: stage_done_def bf1_def)
  have pc: "bufferFIFO_processingComplete k len dat bf1 =
     (let (c1, bf) = start_unless_stalled k bf2; (c2, bf) = start_unless_stalled x bf
      in if bf_processing bf then
           (let bf = bf\<lparr>bf_stall_index := stall_loop bf (bf_stall_index bf)\<rparr>
            in if bf_stall_index bf = numStages bf then (c1 @ c2 @ [Call_complete], bf\<lparr>bf_processing := False\<rparr>)
               else (c1 @ c2, bf))
         else (c1 @ c2, bf))"
    using len by (simp add: bufferFIFO_processingComplete_def Let_def bf2_def w_def e1 x_def)
  have "stage_done k len dat (c k + 1 = N) bf = ((if started n C N c k k then [start_call bf2 k] else [])
      @ (if started n C N c k x then [start_call bf3 x] else []) @ (if i = n then [Call_complete] else []), bf5)"
    unfolding sd pc s1 using b4 run(1) il idem by (simp add: s2 Let_def bf5_def)
  moreover have "start_call bf2 k = start_call bf5 k" "start_call bf3 x = start_call bf5 x"
    by (simp_all add: bf3_def bf4_def bf5_def start_call_def)
  moreover have "fifo_inv n C N ?c bf5"
    using i3(2) ready i all by (auto simp: fifo_inv_def bf5_def fifo_index_processing)
  moreover have "bf_bufferSize bf5 = (bf_bufferSize bf)(w := len)" "processStage bf5 = processStage bf"
    by (simp_all add: bf5_def bf4_def bf3_def bf2_def bf1_def bufferFIFO_stallStage_def)
  ultimately show ?thesis using that [of bf5] all unfolding w_def x_def by simp
qed

section \<open>The data in the buffers\<close>

text \<open>
  What the stages do, from outside: stage 0 fills a buffer with the next piece \<open>src i\<close> of data, the
  stages between apply their function to a buffer, the last one takes the data out. A stage that
  is through with piece \<open>N - 1\<close> stalls itself.
\<close>

record ('st, 'd) fifo_run =
  run_bf :: "'st bufferFIFO"
  run_mem :: "nat \<Rightarrow> 'd"
  run_out :: "'d list"
  run_calls :: "'st fifo_call list"

definition run_stage ::
    "(nat \<Rightarrow> 'd) \<Rightarrow> (nat \<Rightarrow> nat \<Rightarrow> 'd \<Rightarrow> 'd) \<Rightarrow> (nat \<Rightarrow> int) \<Rightarrow> nat \<Rightarrow> nat \<Rightarrow> ('st, 'd) fifo_run \<Rightarrow> ('st, 'd) fifo_run" where
  "run_stage src f len N k r =
     (let bf = run_bf r; n = numStages bf; C = bufferCount bf;
          i = bf_stageReadIndex bf k - read_off n k;
          d = (if k = 0 then src i else f k i (run_mem r (bf_stageReadIndex bf k mod C)));
          (calls, bf') = stage_done k (len i) 0 (i + 1 = N) bf
      in \<lparr>run_bf = bf',
          run_mem = (if k = n - 1 then run_mem r else (run_mem r)(bf_stageWriteIndex bf k mod C := d)),
          run_out = (if k = n - 1 then run_out r @ [d] else run_out r),
          run_calls = run_calls r @ calls\<rparr>)"

text \<open>The stages end in any order; only a stage that works can end.\<close>

inductive fifo_reach ::
    "(nat \<Rightarrow> 'd) \<Rightarrow> (nat \<Rightarrow> nat \<Rightarrow> 'd \<Rightarrow> 'd) \<Rightarrow> (nat \<Rightarrow> int) \<Rightarrow> nat \<Rightarrow> ('st, 'd) fifo_run \<Rightarrow> nat \<Rightarrow> ('st, 'd) fifo_run \<Rightarrow> bool"
  for src f len N r0 where
  start: "fifo_reach src f len N r0 0 r0"
| stage: "fifo_reach src f len N r0 m r \<Longrightarrow> k < numStages (run_bf r) \<Longrightarrow> bf_stageProcessing (run_bf r) k \<Longrightarrow>
    fifo_reach src f len N r0 (Suc m) (run_stage src f len N k r)"

definition fifo_started :: "int \<Rightarrow> (nat \<Rightarrow> 'd) \<Rightarrow> 'st bufferFIFO \<Rightarrow> ('st, 'd) fifo_run" where
  "fifo_started sz mem bf =
     (let (calls, bf') = bufferFIFO_start sz bf in \<lparr>run_bf = bf', run_mem = mem, run_out = [], run_calls = calls\<rparr>)"

text \<open>Piece \<open>j\<close> after stage \<open>k\<close>.\<close>

fun pipe :: "(nat \<Rightarrow> 'd) \<Rightarrow> (nat \<Rightarrow> nat \<Rightarrow> 'd \<Rightarrow> 'd) \<Rightarrow> nat \<Rightarrow> nat \<Rightarrow> 'd" where
  "pipe src f 0 j = src j"
| "pipe src f (Suc k) j = f (Suc k) j (pipe src f k j)"

text \<open>The pieces that wait in front of stage \<open>m\<close>, and the index of their buffers.\<close>

definition waiting :: "nat \<Rightarrow> (nat \<Rightarrow> nat) \<Rightarrow> nat \<Rightarrow> nat \<Rightarrow> bool" where
  "waiting n c m j \<longleftrightarrow> 0 < m \<and> m < n \<and> c m \<le> j \<and> j < c (m - 1)"

definition fifo_data :: "(nat \<Rightarrow> 'd) \<Rightarrow> (nat \<Rightarrow> nat \<Rightarrow> 'd \<Rightarrow> 'd) \<Rightarrow> (nat \<Rightarrow> int) \<Rightarrow> nat \<Rightarrow> nat \<Rightarrow> (nat \<Rightarrow> nat) \<Rightarrow>
    'st bufferFIFO \<Rightarrow> (nat \<Rightarrow> 'd) \<Rightarrow> bool" where
  "fifo_data src f len n C c bf mem \<longleftrightarrow>
     (\<forall>m j. waiting n c m j \<longrightarrow> mem ((read_off n m + j) mod C) = pipe src f (m - 1) j
         \<and> bf_bufferSize bf ((read_off n m + j) mod C) = len j)"

definition run_inv :: "(nat \<Rightarrow> 'd) \<Rightarrow> (nat \<Rightarrow> nat \<Rightarrow> 'd \<Rightarrow> 'd) \<Rightarrow> (nat \<Rightarrow> int) \<Rightarrow> nat \<Rightarrow> nat \<Rightarrow> nat \<Rightarrow> (nat \<Rightarrow> nat) \<Rightarrow> ('st, 'd) fifo_run \<Rightarrow> bool" where
  "run_inv src f len n C N c r \<longleftrightarrow>
     fifo_inv n C N c (run_bf r)
   \<and> fifo_data src f len n C c (run_bf r) (run_mem r)
   \<and> run_out r = map (pipe src f (n - 1)) [0..<c (n - 1)]
   \<and> length (filter (\<lambda>x. x = Call_complete) (run_calls r)) = (if \<forall>k < n. c k = N then 1 else 0)"

text \<open>The buffers in use are different ones.\<close>

lemma mod_window:
  fixes a b :: nat
  assumes "l \<le> a" "a < l + C" "l \<le> b" "b < l + C" "a mod C = b mod C"
  shows "a = b"
proof -
  have "a = b" if "a \<le> b" "b < a + C" "a mod C = b mod C" for a b :: nat
  proof -
    have "C dvd b - a" using that by (metis mod_eq_dvd_iff_nat)
    then show ?thesis using that by (auto dest: dvd_imp_le)
  qed
  from this [of a b] this [of b a] show ?thesis using assms by linarith
qed

lemma write_decreases:
  assumes "fifo_index n C N c bf" "i \<le> k" "k \<le> n - 2"
  shows "write_off n k + c k + (k - i) \<le> write_off n i + c i"
  using assms(2,3)
proof (induction k rule: dec_induct)
  case (step k)
  have n: "2 \<le> n" using assms(1) by (simp add: fifo_index_def)
  have "c (Suc k) \<le> c k" using index_order [OF assms(1), of "Suc k"] step.prems n by simp
  moreover have "write_off n (Suc k) + 1 \<le> write_off n k" using step.prems n by (auto simp: write_off_def)
  ultimately show ?case using step by simp
qed simp

lemma waiting_window:
  assumes inv: "fifo_index n C N c bf" and w: "waiting n c m j"
  defines "a \<equiv> read_off n m + j"
  shows "c (n - 1) \<le> a" "a < c (n - 1) + C" "m = n - 1 \<or> c (n - 1) < a"
    and "k \<le> n - 2 \<Longrightarrow> a \<noteq> write_off n k + c k"
proof -
  have n: "2 \<le> n" "0 < m" "m < n" "c m \<le> j" "j < c (m - 1)" using inv w by (simp_all add: fifo_index_def waiting_def)
  have c: "write_off n 0 + c 0 \<le> c (n - 1) + C" "c (n - 1) \<le> c (n - 2)"
    using inv index_order [OF inv, of "n - 1"] n(1) by (simp_all add: fifo_index_def diff_diff_eq [symmetric] numeral_2_eq_2)
  have r: "read_off n m = write_off n (m - 1)" using stage_offsets(2) [of m n] n by simp
  note W = write_decreases [OF inv]
  have mn: "m - 1 \<le> n - 2" using n by linarith
  have up: "a < write_off n (m - 1) + c (m - 1)" using n by (simp add: a_def r)
  have "write_off n (m - 1) + c (m - 1) \<le> write_off n 0 + c 0" using W [of 0 "m - 1"] mn by simp
  with up c show "a < c (n - 1) + C" by simp
  have low: "m = n - 1 \<and> read_off n m = 0 \<or> m \<le> n - 2 \<and> read_off n m = write_off n m + 1"
    using n by (auto simp: read_off_def write_off_def)
  have last: "write_off n (n - 2) = 0" by (simp add: write_off_def)
  show "m = n - 1 \<or> c (n - 1) < a" "c (n - 1) \<le> a"
    using low W [of m "n - 2"] last c(2) n by (auto simp: a_def)
  show "a \<noteq> write_off n k + c k" if k: "k \<le> n - 2"
  proof (cases "k < m")
    case True
    then have km: "k \<le> m - 1" by linarith
    then have "write_off n (m - 1) + c (m - 1) \<le> write_off n k + c k" using W [OF km mn] by linarith
    with up show ?thesis by simp
  next
    case False
    then have "write_off n k + c k \<le> write_off n m + c m" "m \<le> n - 2" using W [of m k] k by simp_all
    with low show ?thesis using n by (auto simp: a_def)
  qed
qed

lemma write_window:
  assumes inv: "fifo_index n C N c bf" and k: "k \<le> n - 2" "stage_ready n C N c k"
  shows "c (n - 1) \<le> write_off n k + c k" "write_off n k + c k < c (n - 1) + C"
proof -
  have n: "2 \<le> n" using inv by (simp add: fifo_index_def)
  have c: "write_off n 0 + c 0 \<le> c (n - 1) + C" "c (n - 1) \<le> c (n - 2)"
    using inv index_order [OF inv, of "n - 1"] n by (simp_all add: fifo_index_def diff_diff_eq [symmetric] numeral_2_eq_2)
  have "write_off n (n - 2) = 0" by (simp add: write_off_def)
  then show "c (n - 1) \<le> write_off n k + c k" using write_decreases [OF inv, of k "n - 2"] k(1) c(2) by simp
  show "write_off n k + c k < c (n - 1) + C"
    using k(2) write_decreases [OF inv, of 0 k] c(1) k(1) by (cases "k = 0") (auto simp: stage_ready_def)
qed

lemma waiting_done:
  assumes "fifo_index n C N c bf" "stage_ready n C N c k" "k < n" "waiting n (c(k := c k + 1)) m j"
  shows "waiting n c m j \<or> m = k + 1 \<and> j = c k"
  using assms(4) by (auto simp: waiting_def split: if_splits)

text \<open>The buffer a stage writes is none of those that wait, before and after.\<close>

lemma slot_free:
  assumes ix: "fifo_index n C N c bf" and k: "k \<le> n - 2" "stage_ready n C N c k" and j: "waiting n c m j"
  shows "(read_off n m + j) mod C \<noteq> (write_off n k + c k) mod C"
proof
  assume "(read_off n m + j) mod C = (write_off n k + c k) mod C"
  note win = waiting_window [OF ix j]
  have "read_off n m + j = write_off n k + c k"
    by (rule mod_window [OF win(1,2) write_window [OF ix k]]) fact
  with win(4) [OF k(1)] show False by simp
qed

lemma slot_free_last:
  assumes ix: "fifo_index n C N c bf" and j: "waiting n c m j" "waiting n (c(n - 1 := c (n - 1) + 1)) m j"
  shows "(read_off n m + j) mod C \<noteq> c (n - 1) mod C"
proof
  assume e: "(read_off n m + j) mod C = c (n - 1) mod C"
  note win = waiting_window [OF ix j(1)]
  have "0 < C" using ix by (auto simp: fifo_index_def)
  then have "read_off n m + j = c (n - 1)" by (intro mod_window [OF win(1,2)]) (use e in simp_all)
  moreover have "c (n - 1) < read_off n m + j" using win(3) j(2) by (auto simp: waiting_def)
  ultimately show False by simp
qed

lemma fifo_data_done:
  assumes f: "fifo_inv n C N c bf" and k: "k < n" "bf_stageProcessing bf k" and d: "fifo_data src f len n C c bf mem"
    and sz: "bf_bufferSize bf' = (bf_bufferSize bf)(bf_stageWriteIndex bf k mod C := len (c k))"
    and same: "\<And>i. i \<noteq> bf_stageWriteIndex bf k mod C \<Longrightarrow> mem' i = mem i"
    and new: "k < n - 1 \<Longrightarrow> mem' (bf_stageWriteIndex bf k mod C) = pipe src f k (c k)"
  shows "fifo_data src f len n C (c(k := c k + 1)) bf' mem'"
  unfolding fifo_data_def
proof (intro allI impI)
  fix m j assume j: "waiting n (c(k := c k + 1)) m j"
  have ix: "fifo_index n C N c bf" and ready: "stage_ready n C N c k" using f k by (simp_all add: fifo_inv_def)
  have w: "bf_stageWriteIndex bf k = write_off n k + c k" using ix k(1) by (simp add: fifo_index_def)
  have slot: "(read_off n m + j) mod C \<noteq> bf_stageWriteIndex bf k mod C" if o: "waiting n c m j"
  proof (cases "k = n - 1")
    case True
    then show ?thesis using slot_free_last [OF ix o] j w by (simp add: write_off_def)
  next
    case False
    then have "k \<le> n - 2" using k(1) by linarith
    then show ?thesis using slot_free [OF ix _ ready o] by (simp add: w)
  qed
  show "mem' ((read_off n m + j) mod C) = pipe src f (m - 1) j \<and> bf_bufferSize bf' ((read_off n m + j) mod C) = len j"
    using waiting_done [OF ix ready k(1) j]
  proof
    assume o: "waiting n c m j"
    then show ?thesis using slot [OF o] same d by (simp add: fifo_data_def sz)
  next
    assume o: "m = k + 1 \<and> j = c k"
    then have "k < n - 1" "(read_off n m + j) mod C = bf_stageWriteIndex bf k mod C"
      using j stage_offsets(2) [of m n] by (auto simp: waiting_def w)
    then show ?thesis using o new by (simp add: sz)
  qed
qed

lemma run_stage_inv:
  assumes inv: "run_inv src f len n C N c r" and k: "k < n" "bf_stageProcessing (run_bf r) k" and len: "\<And>j. 0 \<le> len j"
  shows "run_inv src f len n C N (c(k := c k + 1)) (run_stage src f len N k r)"
proof -
  let ?bf = "run_bf r" and ?c = "c(k := c k + 1)"
  have f: "fifo_inv n C N c ?bf" and dat: "fifo_data src f len n C c ?bf (run_mem r)" using inv by (simp_all add: run_inv_def)
  then have ix: "fifo_index n C N c ?bf" and ready: "stage_ready n C N c k" using k by (simp_all add: fifo_inv_def)
  have n: "2 \<le> n" "numStages ?bf = n" "bufferCount ?bf = C" using ix by (simp_all add: fifo_index_def)
  have idx: "bf_stageReadIndex ?bf k = read_off n k + c k" "bf_stageWriteIndex ?bf k = write_off n k + c k"
    using ix k(1) by (simp_all add: fifo_index_def)
  define w where "w = (write_off n k + c k) mod C"
  define d where "d = pipe src f k (c k)"
  obtain bf' where b: "stage_done k (len (c k)) 0 (c k + 1 = N) ?bf =
      (map (start_call bf') (filter (started n C N c k) [k, (k + 1) mod n])
        @ (if \<forall>j < n. ?c j = N then [Call_complete] else []), bf')"
    "fifo_inv n C N ?c bf'" "bf_bufferSize bf' = (bf_bufferSize ?bf)(bf_stageWriteIndex ?bf k mod C := len (c k))"
    by (rule fifo_done [OF f k len])
  have wait: "waiting n c k (c k)" if "k \<noteq> 0" using ready k(1) that by (simp add: stage_ready_def waiting_def)
  have dk: "(if k = 0 then src (c k) else f k (c k) (run_mem r ((read_off n k + c k) mod C))) = d"
  proof (cases k)
    case (Suc k')
    then show ?thesis using dat wait by (simp add: fifo_data_def d_def)
  qed (simp add: d_def)
  have rs: "run_stage src f len N k r = \<lparr>run_bf = bf',
     run_mem = (if k = n - 1 then run_mem r else (run_mem r)(w := d)),
     run_out = (if k = n - 1 then run_out r @ [d] else run_out r),
     run_calls = run_calls r @ map (start_call bf') (filter (started n C N c k) [k, (k + 1) mod n])
        @ (if \<forall>j < n. ?c j = N then [Call_complete] else [])\<rparr>"
    unfolding run_stage_def Let_def n idx add_diff_cancel_left' dk b(1) prod.case w_def by simp
  have data: "fifo_data src f len n C ?c bf' (run_mem (run_stage src f len N k r))"
    by (rule fifo_data_done [OF f k dat b(3)]) (simp_all add: rs idx w_def d_def)
  have nc: "filter (\<lambda>x. x = Call_complete) (map (start_call bf') xs) = []" for xs
    by (auto simp: filter_empty_conv start_call_def Let_def)
  have "\<not> (\<forall>j < n. c j = N)" using ready k(1) by (auto simp: stage_ready_def)
  moreover have "length (filter (\<lambda>x. x = Call_complete) (run_calls r)) = (if \<forall>j < n. c j = N then 1 else 0)"
    using inv by (simp add: run_inv_def)
  ultimately have prev: "filter (\<lambda>x. x = Call_complete) (run_calls r) = []" by (metis length_0_conv)
  have calls: "length (filter (\<lambda>x. x = Call_complete) (run_calls (run_stage src f len N k r))) = (if \<forall>j < n. ?c j = N then 1 else 0)"
    unfolding rs fifo_run.select_convs filter_append nc prev by (simp only: if_distrib [of "filter _"] filter.simps) simp
  have out: "run_out (run_stage src f len N k r) = map (pipe src f (n - 1)) [0..<?c (n - 1)]"
    using inv by (auto simp: rs run_inv_def d_def)
  show ?thesis
    unfolding run_inv_def using b(2) data out calls by (simp add: rs)
qed

section \<open>Order, progress and end\<close>

lemma fifo_not_stuck:
  assumes inv: "fifo_inv n C N c bf" and k: "k < n" "c k < N"
  shows "\<exists>k < n. bf_stageProcessing bf k"
proof (rule ccontr)
  assume none: "\<not> ?thesis"
  have ix: "fifo_index n C N c bf" using inv by (simp add: fifo_inv_def)
  have n: "2 \<le> n" "n \<le> C + 1" using ix by (simp_all add: fifo_index_def)
  have idle: "\<not> stage_ready n C N c j" if "j < n" for j
    using none inv that by (auto simp: fifo_inv_def)
  have eq: "c j = c 0" if "j < n" for j
    using that
  proof (induction j)
    case (Suc j)
    have "c (Suc j) \<le> c j" "c j \<le> N" using index_order [OF ix, of "Suc j"] ix Suc.prems by (simp_all add: fifo_index_def)
    then have "c (Suc j) = c j" using idle [OF Suc.prems] by (auto simp: stage_ready_def)
    with Suc show ?case by simp
  qed simp
  have "c 0 < N" using eq [of k] k by simp
  then have "stage_ready n C N c 0" using n eq [of "n - 1"] by (simp add: stage_ready_def write_off_def)
  then show False using idle [of 0] n by simp
qed

lemma run_inv_start:
  assumes "2 \<le> numStages bf" "numStages bf \<le> bufferCount bf + 1" "0 < N"
  shows "run_inv src f len (numStages bf) (bufferCount bf) N (\<lambda>_. 0) (fifo_started sz mem bf)"
proof -
  have "\<exists>k. k < numStages bf" using assms(1) by (intro exI [of _ 0]) simp
  moreover have "run_bf (fifo_started sz mem bf) = snd (bufferFIFO_start sz bf)"
    "run_out (fifo_started sz mem bf) = []"
    "length (filter (\<lambda>x. x = Call_complete) (run_calls (fifo_started sz mem bf))) = 0"
    by (simp_all add: fifo_started_def bufferFIFO_start_def bufferFIFO_execStage_def Let_def)
  ultimately show ?thesis
    using fifo_inv_start [OF assms, of sz] assms(3) by (auto simp: run_inv_def fifo_data_def waiting_def)
qed

lemma fifo_reach_inv:
  assumes "fifo_reach src f len N (fifo_started sz mem bf) m r"
    and "2 \<le> numStages bf" "numStages bf \<le> bufferCount bf + 1" "0 < N" "\<And>j. 0 \<le> len j"
  obtains c where "run_inv src f len (numStages bf) (bufferCount bf) N c r" "(\<Sum>k < numStages bf. c k) = m"
  using assms(1)
proof (induction arbitrary: thesis)
  case start
  show ?case by (rule start.prems [OF run_inv_start [OF assms(2-4)]]) simp
next
  case (stage m r k)
  obtain c where c: "run_inv src f len (numStages bf) (bufferCount bf) N c r" "(\<Sum>k < numStages bf. c k) = m"
    by (rule stage.IH)
  have k: "k < numStages bf" using stage.hyps c(1) by (simp add: run_inv_def fifo_inv_def fifo_index_def)
  have "(\<Sum>j < numStages bf. (c(k := c k + 1)) j) = (\<Sum>j < numStages bf. c j) + 1"
    using k by (simp add: sum.remove [of "{..<numStages bf}" k])
  then show ?case
    using stage.prems [OF run_stage_inv [OF c(1) k stage.hyps(3) assms(5)]] c(2) by simp
qed

lemma fifo_counts:
  assumes "fifo_index n C N c bf"
  shows "(\<forall>k < n. c k = N) \<longleftrightarrow> c (n - 1) = N" "c (n - 1) \<le> N"
proof -
  have n: "2 \<le> n" using assms by (simp add: fifo_index_def)
  have le: "c (n - 1) \<le> c k" if "k < n" for k
    using that
  proof (induction "n - 1 - k" arbitrary: k)
    case 0
    then have "k = n - 1" by linarith
    then show ?case by simp
  next
    case (Suc d)
    then have "c (n - 1) \<le> c (Suc k)" by simp
    also have "\<dots> \<le> c k" using index_order [OF assms, of "Suc k"] Suc by simp
    finally show ?case .
  qed
  have "c k \<le> N" if "k < n" for k using assms that by (simp add: fifo_index_def)
  with le n show "(\<forall>k < n. c k = N) \<longleftrightarrow> c (n - 1) = N" "c (n - 1) \<le> N"
    by (auto intro!: antisym)
qed

lemma fifo_progress:
  assumes f: "fifo_inv n C N c bf" and m: "(\<Sum>k < n. c k) < n * N"
  shows "\<exists>k < n. bf_stageProcessing bf k"
proof -
  have "\<exists>k < n. c k \<noteq> N"
  proof (rule ccontr)
    assume "\<not> (\<exists>k < n. c k \<noteq> N)"
    then have "(\<Sum>k < n. c k) = n * N" by simp
    with m show False by simp
  qed
  moreover have "c k \<le> N" if "k < n" for k using f that by (simp add: fifo_inv_def fifo_index_def)
  ultimately show ?thesis using fifo_not_stuck [OF f] by (metis le_neq_implies_less)
qed

text \<open>There are schedules of every length up to the last.\<close>

lemma fifo_run_exists:
  assumes "2 \<le> numStages bf" "numStages bf \<le> bufferCount bf + 1" "0 < N" "\<And>j. 0 \<le> len j" "m \<le> numStages bf * N"
  shows "\<exists>r. fifo_reach src f len N (fifo_started sz mem bf) m r"
  using assms(5)
proof (induction m)
  case 0
  show ?case using fifo_reach.start by blast
next
  case (Suc m)
  then obtain r where r: "fifo_reach src f len N (fifo_started sz mem bf) m r" by auto
  obtain c where c: "run_inv src f len (numStages bf) (bufferCount bf) N c r" "(\<Sum>k < numStages bf. c k) = m"
    by (rule fifo_reach_inv [OF r assms(1-4)])
  then have f: "fifo_inv (numStages bf) (bufferCount bf) N c (run_bf r)" by (simp add: run_inv_def)
  have "\<exists>k < numStages bf. bf_stageProcessing (run_bf r) k" using fifo_progress [OF f] c(2) Suc.prems by simp
  moreover have "numStages (run_bf r) = numStages bf" using f by (simp add: fifo_inv_def fifo_index_def)
  ultimately show ?case using fifo_reach.stage [OF r] by auto
qed

text \<open>
  C17. The pipeline keeps the order and the content of the data. Whatever the order in which the
  stages report their ends, what the last stage has taken out is a prefix of the pieces in
  their order, each one having passed the function of every stage once; and the completion is
  reported at the moment the last of \<open>N\<close> pieces is out, and not before.
\<close>

theorem fifo_delivers_in_order:
  assumes "2 \<le> numStages bf" "numStages bf \<le> bufferCount bf + 1" "0 < N" "\<And>j. 0 \<le> len j"
    and "fifo_reach src f len N (fifo_started sz mem bf) m r"
  shows "run_out r = map (pipe src f (numStages bf - 1)) [0..<length (run_out r)] \<and> length (run_out r) \<le> N
    \<and> (Call_complete \<in> set (run_calls r) \<longleftrightarrow> length (run_out r) = N)"
proof -
  obtain c where c: "run_inv src f len (numStages bf) (bufferCount bf) N c r"
    by (rule fifo_reach_inv [OF assms(5,1-4)])
  then have ix: "fifo_index (numStages bf) (bufferCount bf) N c (run_bf r)" by (simp add: run_inv_def fifo_inv_def)
  have out: "run_out r = map (pipe src f (numStages bf - 1)) [0..<c (numStages bf - 1)]" using c by (simp add: run_inv_def)
  have "Call_complete \<in> set (run_calls r) \<longleftrightarrow> length (filter (\<lambda>x. x = Call_complete) (run_calls r)) \<noteq> 0"
    by (auto simp: filter_empty_conv)
  then show ?thesis using c out fifo_counts [OF ix] by (auto simp: run_inv_def)
qed

text \<open>Three stages and four buffers, as for an encrypted volume.\<close>

definition fifo_example :: "nat bufferFIFO" where
  "fifo_example =
     \<lparr>maxBufferSize = 16384, bufferCount = 4, numStages = 3, processStage = (\<lambda>k. k),
      bf_bufferSize = (\<lambda>_. 0), bf_bufferData = (\<lambda>_. 0), bf_stageWriteIndex = (\<lambda>_. 0), bf_stageReadIndex = (\<lambda>_. 0),
      bf_stalled = (\<lambda>_. False), bf_stageProcessing = (\<lambda>_. False), bf_processing = False, bf_stall_index = 0\<rparr>"

theorem fifo_delivers_in_order_witness:
  "\<exists>r. fifo_reach (\<lambda>i. [i]) (\<lambda>k j d. k # d) (\<lambda>_. 512) 2 (fifo_started 512 (\<lambda>_. []) fifo_example) 6 r
     \<and> run_out r = map (pipe (\<lambda>i. [i]) (\<lambda>k j d. k # d) 2) [0..<length (run_out r)]
     \<and> pipe (\<lambda>i. [i]) (\<lambda>k j d. k # d) 2 7 = [2, 1, 7]"
proof -
  have n: "numStages fifo_example = 3" "bufferCount fifo_example = 4" by (simp_all add: fifo_example_def)
  obtain r where r: "fifo_reach (\<lambda>i. [i]) (\<lambda>k j d. k # d) (\<lambda>_. 512) 2 (fifo_started 512 (\<lambda>_. []) fifo_example) 6 r"
    using fifo_run_exists [of fifo_example 2 "\<lambda>_. 512" 6 "\<lambda>i. [i]" "\<lambda>k j d. k # d" 512 "\<lambda>_. []"] by (auto simp: n)
  show ?thesis
    using fifo_delivers_in_order [OF _ _ _ _ r] r by (auto simp: n numeral_2_eq_2)
qed

text \<open>
  C18. The pipeline always gets to its end. For \<open>N\<close> pieces and \<open>n\<close> stages, every schedule consists
  of exactly \<open>n * N\<close> ends of stages: before that some stage is at work (there is no state in which
  all wait for each other), after that none is, all pieces are out and the completion has been
  reported exactly once.
\<close>

theorem fifo_always_ends:
  assumes "2 \<le> numStages bf" "numStages bf \<le> bufferCount bf + 1" "0 < N" "\<And>j. 0 \<le> len j"
    and "fifo_reach src f len N (fifo_started sz mem bf) m r"
  shows "m \<le> numStages bf * N
    \<and> (m < numStages bf * N \<longrightarrow> (\<exists>k < numStages bf. bf_stageProcessing (run_bf r) k))
    \<and> (m = numStages bf * N \<longrightarrow> (\<forall>k < numStages bf. \<not> bf_stageProcessing (run_bf r) k) \<and> length (run_out r) = N
         \<and> length (filter (\<lambda>x. x = Call_complete) (run_calls r)) = 1)"
proof -
  let ?n = "numStages bf"
  obtain c where c: "run_inv src f len ?n (bufferCount bf) N c r" "(\<Sum>k < ?n. c k) = m"
    by (rule fifo_reach_inv [OF assms(5,1-4)])
  have f: "fifo_inv ?n (bufferCount bf) N c (run_bf r)" using c(1) by (simp add: run_inv_def)
  have le: "c k \<le> N" if "k < ?n" for k using f that by (simp add: fifo_inv_def fifo_index_def)
  have "m \<le> ?n * N" using sum_bounded_above [of "{..<?n}" c N] le c(2) by simp
  moreover have "m < ?n * N \<Longrightarrow> \<exists>k < ?n. bf_stageProcessing (run_bf r) k"
    by (rule fifo_progress [OF f]) (simp add: c(2))
  moreover have "\<forall>k < ?n. c k = N" if "m = ?n * N"
  proof (rule ccontr)
    assume "\<not> (\<forall>k < ?n. c k = N)"
    then have "\<exists>k \<in> {..<?n}. c k < N" using le by (auto simp: order.strict_iff_order)
    then have "(\<Sum>k < ?n. c k) < (\<Sum>k < ?n. N)" using le by (intro sum_strict_mono_ex1) simp_all
    with c(2) that show False by simp
  qed
  ultimately show ?thesis using c(1) f assms(1) by (auto simp: run_inv_def fifo_inv_def stage_ready_def)
qed

theorem fifo_always_ends_witness:
  "\<exists>r. fifo_reach (\<lambda>i. [i]) (\<lambda>k j d. k # d) (\<lambda>_. 512) 2 (fifo_started 512 (\<lambda>_. []) fifo_example) 6 r
     \<and> length (run_out r) = 2 \<and> (\<forall>k < 3. \<not> bf_stageProcessing (run_bf r) k)"
proof -
  have n: "numStages fifo_example = 3" "bufferCount fifo_example = 4" by (simp_all add: fifo_example_def)
  obtain r where r: "fifo_reach (\<lambda>i. [i]) (\<lambda>k j d. k # d) (\<lambda>_. 512) 2 (fifo_started 512 (\<lambda>_. []) fifo_example) 6 r"
    using fifo_run_exists [of fifo_example 2 "\<lambda>_. 512" 6 "\<lambda>i. [i]" "\<lambda>k j d. k # d" 512 "\<lambda>_. []"] by (auto simp: n)
  show ?thesis
    using fifo_always_ends [OF _ _ _ _ r] r by (auto simp: n)
qed

end
