(* ===== verification/Scsi_State.thy ===== *)
theory Scsi_State
  imports Buffer_Fifo Fw_Base
begin

text \<open>
  The state of the mass storage side: the bulk-only transport (\<open>usbd_msc.h\<close>, \<open>usbd_msc_bot.h\<close>),
  the volumes and the transfer variables of \<open>usbd_msc_scsi.c\<close>, the FIFO between them, and what
  the code asks of the USB core, the card and the cipher, in order. Buffers of the FIFO are
  named by their index. The variables of type \<open>int\<close> are integers; lengths and addresses that the
  code keeps in 64 bits are natural numbers, they stay far below the limit.
\<close>

section \<open>Transport\<close>

datatype bot_state = BOT_IDLE | BOT_DATA_OUT | BOT_DATA_IN | BOT_LAST_DATA_IN | BOT_SEND_DATA | BOT_NO_DATA

datatype bot_status = BOT_STATUS_NORMAL | BOT_STATUS_RECOVERY | BOT_STATUS_ERROR

datatype csw_status = CSW_CMD_PASSED | CSW_CMD_FAILED

text \<open>Command and status wrapper.\<close>

record msc_cbw =
  cbw_dSignature :: u32
  cbw_dTag :: u32
  cbw_dDataLength :: u32
  cbw_bmFlags :: u8
  cbw_bLUN :: u8
  cbw_bCBLength :: u8
  cbw_CB :: bytes

record msc_csw =
  csw_dSignature :: u32
  csw_dTag :: u32
  csw_dDataResidue :: u32
  csw_bStatus :: csw_status

abbreviation (input) USBD_BOT_CBW_SIGNATURE :: u32 where "USBD_BOT_CBW_SIGNATURE \<equiv> 0x43425355"
abbreviation (input) USBD_BOT_CSW_SIGNATURE :: u32 where "USBD_BOT_CSW_SIGNATURE \<equiv> 0x53425355"
abbreviation (input) USBD_BOT_CBW_LENGTH :: nat where "USBD_BOT_CBW_LENGTH \<equiv> 31"

section \<open>Sense data\<close>

abbreviation (input) SENSE_LIST_DEEPTH :: nat where "SENSE_LIST_DEEPTH \<equiv> 4"
abbreviation (input) REQUEST_SENSE_DATA_LEN :: nat where "REQUEST_SENSE_DATA_LEN \<equiv> 18"
abbreviation (input) NOT_READY :: u8 where "NOT_READY \<equiv> 2"
abbreviation (input) ILLEGAL_REQUEST :: u8 where "ILLEGAL_REQUEST \<equiv> 5"
abbreviation (input) INVALID_CDB :: u8 where "INVALID_CDB \<equiv> 0x20"
abbreviation (input) INVALID_FIELED_IN_COMMAND :: u8 where "INVALID_FIELED_IN_COMMAND \<equiv> 0x24"
abbreviation (input) ADDRESS_OUT_OF_RANGE :: u8 where "ADDRESS_OUT_OF_RANGE \<equiv> 0x21"
abbreviation (input) MEDIUM_NOT_PRESENT :: u8 where "MEDIUM_NOT_PRESENT \<equiv> 0x3A"
abbreviation (input) WRITE_PROTECTED :: u8 where "WRITE_PROTECTED \<equiv> 0x27"

record sense_item =
  Skey :: u8
  ASC :: u8
  ASCQ :: u8

section \<open>Volumes\<close>

abbreviation (input) MAX_SCSI_VOLUMES :: nat where "MAX_SCSI_VOLUMES \<equiv> 2"
abbreviation (input) STORAGE_REGION_SIZE :: nat where "STORAGE_REGION_SIZE \<equiv> 33554432"
abbreviation (input) EMMC_STORAGE_FIRST_BLOCK :: nat where "EMMC_STORAGE_FIRST_BLOCK \<equiv> 1065"
abbreviation (input) SUB_BLOCKS_PER_BLOCK :: nat where "SUB_BLOCKS_PER_BLOCK \<equiv> 32"

abbreviation (input) HC_VOLUME_FLAG_VALID :: u32 where "HC_VOLUME_FLAG_VALID \<equiv> 1"
abbreviation (input) HC_VOLUME_FLAG_READ_ONLY :: u32 where "HC_VOLUME_FLAG_READ_ONLY \<equiv> 2"
abbreviation (input) HC_VOLUME_FLAG_HIDDEN :: u32 where "HC_VOLUME_FLAG_HIDDEN \<equiv> 16"
abbreviation (input) HC_VOLUME_FLAG_VISIBLE_ON_UNLOCK :: u32 where "HC_VOLUME_FLAG_VISIBLE_ON_UNLOCK \<equiv> 32"
abbreviation (input) HC_VOLUME_FLAG_ENCRYPTED :: u32 where "HC_VOLUME_FLAG_ENCRYPTED \<equiv> 256"

record scsi_volume =
  vol_nr :: int
  vol_flags :: u32
  vol_region_start :: u32
  vol_n_regions :: u32
  vol_started :: bool
  vol_visible :: bool
  vol_writable :: bool

definition has_flag :: "u32 \<Rightarrow> scsi_volume \<Rightarrow> bool" where
  "has_flag f v \<longleftrightarrow> and (vol_flags v) f \<noteq> 0"

section \<open>Stages and effects\<close>

text \<open>The functions that are stages of the FIFO, and its two completion callbacks.\<close>

datatype stage_fn =
  processMMCReadBuffer | processDecryptReadBuffer | processUSBReadBuffer
| processUSBWriteBuffer | processEncryptWriteBuffer | processMMCWriteBuffer

datatype complete_fn = readProcessingComplete | writeProcessingComplete

datatype msc_out =
  Msc_transmit bytes                      \<comment> \<open>data on the IN endpoint\<close>
| Msc_transmit_csw msc_csw                \<comment> \<open>the status wrapper on the IN endpoint\<close>
| Msc_receive_cbw                         \<comment> \<open>the OUT endpoint waits for a command\<close>
| Msc_receive nat nat                     \<comment> \<open>it waits for data: buffer, length\<close>
| Msc_flush_in | Msc_flush_out | Msc_stall_in | Msc_stall_out
| Msc_emmc_queue                          \<comment> \<open>\<open>emmc_user_queue(EMMC_USER_STORAGE)\<close>\<close>
| Msc_emmc_done                           \<comment> \<open>\<open>emmc_user_done\<close>\<close>
| Msc_mmc_read nat u32 u32                \<comment> \<open>buffer, card address, number of blocks\<close>
| Msc_mmc_write nat u32 u32
| Msc_mmc_cont
| Msc_crypt bool bytes bytes nat nat nat  \<comment> \<open>encrypt?, key, IV, buffer read, buffer written, offset\<close>

record msc =
  max_lun :: nat
  bot_data :: bytes
  bot_data_length :: nat
  bot_state :: bot_state
  bot_status :: bot_status
  h_stageIdx :: nat
  h_writeBuffer :: nat
  h_writeLen :: int
  cbw :: msc_cbw
  csw :: msc_csw
  scsi_sense :: "sense_item list"
  scsi_sense_head :: nat
  scsi_sense_tail :: nat
  scsi_blk_size :: u16
  scsi_blk_nbr :: u32
  scsi_blk_addr :: nat
  scsi_blk_len :: nat
  g_num_scsi_volumes :: nat
  g_scsi_num_regions :: u32
  g_scsi_region_size_blocks :: u32
  g_scsi_volume :: "nat \<Rightarrow> scsi_volume"
  mmcStageIdx :: nat
  mmcReadLen :: int
  mmcBufferRead :: nat
  mmcBufferWrite :: nat
  mmcBlockAddr :: int
  mmcDataToTransfer :: int
  mmcBlocksToTransfer :: int
  mmcDataTransferred :: int
  g_cryptStageIdx :: nat
  g_cryptTxLen :: int
  g_cryptDataToTransfer :: int
  g_scsi_cur_aes_sector :: u32
  g_scsi_num_aes_sector :: u32
  g_scsi_aes_encrypt :: bool
  g_scsi_aes_read :: "nat \<times> nat"
  g_scsi_aes_write :: "nat \<times> nat"
  g_scsi_aes_key :: bytes
  g_scsi_cur_aes_iv :: bytes
  g_cryptOutInt :: bool
  g_usb_transmitting :: bool
  capacity_resp :: bytes
  sense_data :: bytes
  usbBulkBufferFIFO :: "stage_fn bufferFIFO"
  fifo_on_complete :: complete_fn
  buffers :: "nat \<Rightarrow> bytes"
  card_BlockNbr :: u32
  card_BlockSize :: u32
  msc_outs :: "msc_out list"

definition msc_put :: "msc_out \<Rightarrow> msc \<Rightarrow> msc" where
  "msc_put x m = m\<lparr>msc_outs := msc_outs m @ [x]\<rparr>"

type_synonym msc_action = "msc \<Rightarrow> msc option"

end
