(* ===== verification/Scsi.thy ===== *)
theory Scsi
  imports Scsi_State
begin

text \<open>
  \<open>usbd_msc_scsi.c\<close>, \<open>usbd_msc_ops.c\<close> and \<open>usbd_msc_bot.c\<close>: the volumes and their visibility, the
  SCSI commands, the data path through the FIFO and the bulk-only transport. A SCSI command
  answers with a status, negative for a failure, as in the code. The functions that need the
  key and the initialisation vectors take the state \<open>s\<close> of the rest of the device.
\<close>

section \<open>Volumes: \<open>usbd_msc_scsi.c\<close>, \<open>usbd_msc_ops.c\<close>\<close>

definition locked_state :: "device_state \<Rightarrow> bool" where
  "locked_state d \<longleftrightarrow>
     d \<in> {DS_LOGGED_OUT, DS_ERASING_PAGES, DS_WIPING, DS_INITIALIZING, DS_UNINITIALIZED, DS_DISCONNECTED,
          DS_RESTORING_DEVICE, DS_BOOTLOADER}"

text \<open>The condition \<open>!v->flags & HC_VOLUME_FLAG_VALID\<close> negates the flags before the mask.\<close>

definition volume_state_change :: "device_state \<Rightarrow> scsi_volume \<Rightarrow> scsi_volume" where
  "volume_state_change state v =
     (if and (if vol_flags v = 0 then 1 else 0) HC_VOLUME_FLAG_VALID \<noteq> 0
      then v\<lparr>vol_visible := False, vol_writable := False\<rparr>
      else
        (let v = (if has_flag HC_VOLUME_FLAG_READ_ONLY v \<and> has_flag HC_VOLUME_FLAG_VISIBLE_ON_UNLOCK v
                  then v\<lparr>vol_writable := \<not> locked_state state\<rparr> else v)
         in if has_flag HC_VOLUME_FLAG_HIDDEN v \<and> has_flag HC_VOLUME_FLAG_VISIBLE_ON_UNLOCK v
            then v\<lparr>vol_visible := \<not> locked_state state\<rparr> else v))"

definition usbd_scsi_device_state_change :: "device_state \<Rightarrow> msc \<Rightarrow> msc" where
  "usbd_scsi_device_state_change state m =
     m\<lparr>g_scsi_volume := (\<lambda>i. if i < g_num_scsi_volumes m then volume_state_change state (g_scsi_volume m i)
                              else g_scsi_volume m i)\<rparr>"

definition usbd_scsi_init :: "msc \<Rightarrow> msc" where
  "usbd_scsi_init m =
     (let nr_blocks = card_BlockNbr m - of_nat (EMMC_STORAGE_FIRST_BLOCK * SUB_BLOCKS_PER_BLOCK);
          region = of_nat STORAGE_REGION_SIZE div card_BlockSize m;
          num_regions = nr_blocks div region;
          v0 = (g_scsi_volume m 0)\<lparr>vol_nr := 2, vol_flags := HC_VOLUME_FLAG_VALID, vol_region_start := 0,
                  vol_n_regions := 256, vol_started := False, vol_visible := True, vol_writable := True\<rparr>;
          v1 = (g_scsi_volume m 1)\<lparr>vol_nr := 2,
                  vol_flags := or (or (or HC_VOLUME_FLAG_VALID HC_VOLUME_FLAG_ENCRYPTED) HC_VOLUME_FLAG_HIDDEN)
                                  HC_VOLUME_FLAG_VISIBLE_ON_UNLOCK,
                  vol_region_start := vol_n_regions v0, vol_n_regions := num_regions - vol_n_regions v0,
                  vol_started := False, vol_visible := False, vol_writable := True\<rparr>
      in m\<lparr>g_scsi_region_size_blocks := region, g_num_scsi_volumes := 2, g_scsi_num_regions := num_regions,
           g_scsi_volume := (g_scsi_volume m)(0 := v0, 1 := v1)\<rparr>)"

definition STORAGE_GetCapacity :: "nat \<Rightarrow> msc \<Rightarrow> (u32 \<times> u16) option" where
  "STORAGE_GetCapacity lun m =
     (if lun < g_num_scsi_volumes m \<and> vol_visible (g_scsi_volume m lun)
      then Some (vol_n_regions (g_scsi_volume m lun) * g_scsi_region_size_blocks m, ucast (card_BlockSize m))
      else None)"

definition STORAGE_IsReady :: "nat \<Rightarrow> msc \<Rightarrow> bool" where
  "STORAGE_IsReady lun m \<longleftrightarrow> lun < g_num_scsi_volumes m \<and> vol_visible (g_scsi_volume m lun)"

definition STORAGE_IsWriteProtected :: "nat \<Rightarrow> msc \<Rightarrow> bool" where
  "STORAGE_IsWriteProtected lun m \<longleftrightarrow> \<not> (lun < g_num_scsi_volumes m \<and> vol_writable (g_scsi_volume m lun))"

definition STORAGE_GetMaxLun :: nat where
  "STORAGE_GetMaxLun = MAX_SCSI_VOLUMES - 1"

definition STORAGE_Inquirydata :: bytes where
  "STORAGE_Inquirydata =
     [0x00, 0x80, 0x02, 0x02, 31, 0x00, 0x00, 0x00]
     @ map (\<lambda>c. of_nat (of_char c)) (''NTHDIM  '' @ ''Signet HC       '' @ ''0.01'')"

definition MSC_Page00_Inquiry_Data :: bytes where
  "MSC_Page00_Inquiry_Data = [0x00, 0x00, 0x00, 3, 0x00, 0x80, 0x83]"

section \<open>Sense codes\<close>

definition SCSI_SenseCode :: "u8 \<Rightarrow> u8 \<Rightarrow> u8 \<Rightarrow> msc \<Rightarrow> msc" where
  "SCSI_SenseCode sKey asc ascq m =
     (let t = scsi_sense_tail m + 1
      in m\<lparr>scsi_sense := (scsi_sense m)[scsi_sense_tail m := \<lparr>Skey = sKey, ASC = asc, ASCQ = ascq\<rparr>],
           scsi_sense_tail := (if t = SENSE_LIST_DEEPTH then 0 else t)\<rparr>)"

definition no_data :: "msc \<Rightarrow> msc" where
  "no_data m = m\<lparr>bot_data_length := 0, bot_state := BOT_NO_DATA\<rparr>"

text \<open>The failure of a command: sense code, no data, status -1.\<close>

definition scsi_fail :: "u8 \<Rightarrow> u8 \<Rightarrow> msc \<Rightarrow> int \<times> msc" where
  "scsi_fail sKey asc m = (-1, no_data (SCSI_SenseCode sKey asc 0 m))"

text \<open>A reply that a command sends itself.\<close>

definition scsi_reply :: "bytes \<Rightarrow> nat \<Rightarrow> msc \<Rightarrow> int \<times> msc" where
  "scsi_reply d len m =
     (let length = min (unat (cbw_dDataLength (cbw m))) len mod 65536
      in (0, msc_put (Msc_transmit (take length d))
             (m\<lparr>csw := (csw m)\<lparr>csw_dDataResidue := csw_dDataResidue (csw m) - of_nat length, csw_bStatus := CSW_CMD_PASSED\<rparr>,
                bot_state := BOT_SEND_DATA, bot_data_length := 0\<rparr>)))"

section \<open>Commands without data transfer\<close>

definition SCSI_TestUnitReady :: "nat \<Rightarrow> msc \<Rightarrow> int \<times> msc" where
  "SCSI_TestUnitReady lun m =
     (if cbw_dDataLength (cbw m) \<noteq> 0 then (-1, SCSI_SenseCode ILLEGAL_REQUEST INVALID_CDB 0 m)
      else if \<not> STORAGE_IsReady lun m then scsi_fail NOT_READY MEDIUM_NOT_PRESENT m
      else (0, m\<lparr>bot_data_length := 0\<rparr>))"

definition SCSI_Inquiry :: "bytes \<Rightarrow> msc \<Rightarrow> int \<times> msc" where
  "SCSI_Inquiry params m =
     (if and (params ! 1) 1 \<noteq> 0
      then (0, m\<lparr>bot_data_length := 7, bot_data := splice (bot_data m) 0 MSC_Page00_Inquiry_Data\<rparr>)
      else
        (let len = unat (STORAGE_Inquirydata ! 4) + 5;
             len = (if unat (params ! 4) \<le> len then unat (params ! 4) else len)
         in (0, m\<lparr>bot_data_length := len, bot_data := splice (bot_data m) 0 (take len STORAGE_Inquirydata)\<rparr>)))"

definition be32 :: "u32 \<Rightarrow> bytes" where
  "be32 w = [ucast (drop_bit 24 w), ucast (drop_bit 16 w), ucast (drop_bit 8 w), ucast w]"

definition SCSI_ReadCapacity10 :: "nat \<Rightarrow> msc \<Rightarrow> int \<times> msc" where
  "SCSI_ReadCapacity10 lun m =
     (case STORAGE_GetCapacity lun m of
        None \<Rightarrow> (-1, no_data (msc_put Msc_stall_in (SCSI_SenseCode NOT_READY MEDIUM_NOT_PRESENT 0 m)))
      | Some (nbr, bsz) \<Rightarrow>
          (let resp = be32 (nbr - 1) @ be32 (ucast bsz)
           in scsi_reply resp 8 (m\<lparr>scsi_blk_nbr := nbr, scsi_blk_size := bsz, capacity_resp := resp\<rparr>)))"

definition SCSI_ReadFormatCapacity :: "nat \<Rightarrow> msc \<Rightarrow> int \<times> msc" where
  "SCSI_ReadFormatCapacity lun m =
     (let m = m\<lparr>bot_data := splice (bot_data m) 0 (replicate 12 0)\<rparr>
      in case STORAGE_GetCapacity lun m of
           None \<Rightarrow> (-1, no_data (msc_put Msc_stall_in (SCSI_SenseCode NOT_READY MEDIUM_NOT_PRESENT 0 m)))
         | Some (nbr, bsz) \<Rightarrow>
             (let bsz = ucast bsz :: u32
              in (0, m\<lparr>bot_data_length := 12,
                   bot_data := splice (bot_data m) 0
                     ([0, 0, 0, 8] @ be32 (nbr - 1) @ [2, ucast (drop_bit 16 bsz), ucast (drop_bit 8 bsz), ucast bsz])\<rparr>)))"

definition SCSI_ModeSense6 :: "msc \<Rightarrow> int \<times> msc" where
  "SCSI_ModeSense6 m = scsi_reply (replicate 8 0) 8 m"

definition SCSI_ModeSense10 :: "msc \<Rightarrow> int \<times> msc" where
  "SCSI_ModeSense10 m = scsi_reply [0, 6, 0, 0, 0, 0, 0, 0] 8 m"

definition SCSI_RequestSense :: "bytes \<Rightarrow> msc \<Rightarrow> int \<times> msc" where
  "SCSI_RequestSense params m =
     (if bot_state m = BOT_IDLE then
        (let d = (replicate REQUEST_SENSE_DATA_LEN 0)[0 := 0x70, 7 := 10];
             (d, m) = (if scsi_sense_head m \<noteq> scsi_sense_tail m
                       then (let x = scsi_sense m ! scsi_sense_head m; h = scsi_sense_head m + 1
                             in (d[2 := Skey x, 12 := ASC x, 13 := ASCQ x],
                                 m\<lparr>scsi_sense_head := (if h = SENSE_LIST_DEEPTH then 0 else h)\<rparr>))
                       else (d, m));
             len = (if unat (params ! 4) \<le> REQUEST_SENSE_DATA_LEN then unat (params ! 4) else REQUEST_SENSE_DATA_LEN)
         in scsi_reply d len (m\<lparr>sense_data := d\<rparr>))
      else (0, m))"

definition SCSI_StartStopUnit :: "msc \<Rightarrow> int \<times> msc" where
  "SCSI_StartStopUnit m = (0, m\<lparr>bot_data_length := 0\<rparr>)"

text \<open>The sum is one of 32 bits.\<close>

definition SCSI_CheckAddressRange :: "u32 \<Rightarrow> u32 \<Rightarrow> msc \<Rightarrow> int \<times> msc" where
  "SCSI_CheckAddressRange blk_offset blk_nbr m =
     (if blk_offset + blk_nbr > scsi_blk_nbr m then scsi_fail ILLEGAL_REQUEST ADDRESS_OUT_OF_RANGE m else (0, m))"

definition SCSI_Verify10 :: "bytes \<Rightarrow> msc \<Rightarrow> int \<times> msc" where
  "SCSI_Verify10 params m =
     (if and (params ! 1) 2 = 2 then scsi_fail ILLEGAL_REQUEST INVALID_FIELED_IN_COMMAND m
      else (let (r, m) = SCSI_CheckAddressRange (of_nat (scsi_blk_addr m)) (of_nat (scsi_blk_len m)) m
            in if r < 0 then (-1, no_data m) else (0, m\<lparr>bot_data_length := 0\<rparr>)))"

section \<open>The stages\<close>

text \<open>Lengths passed to the hardware are those of the variables; \<open>int\<close> values are taken as unsigned there.\<close>

definition processUSBReadBuffer_fn :: "int \<Rightarrow> nat \<Rightarrow> nat \<Rightarrow> msc \<Rightarrow> msc" where
  "processUSBReadBuffer_fn readSize bufferWrite stageIdx m =
     msc_put (Msc_transmit (take (nat readSize) (buffers m bufferWrite)))
       (m\<lparr>g_usb_transmitting := True, h_stageIdx := stageIdx, h_writeBuffer := bufferWrite, h_writeLen := readSize\<rparr>)"

definition processMMCReadBuffer_fn :: "nat \<Rightarrow> nat \<Rightarrow> msc \<Rightarrow> msc" where
  "processMMCReadBuffer_fn bufferWrite stageIdx m =
     (let mx = int (maxBufferSize (usbBulkBufferFIFO m));
          len = (if mmcDataToTransfer m \<le> mx then mmcDataToTransfer m else mx)
      in msc_put Msc_emmc_queue (m\<lparr>mmcBufferRead := bufferWrite, mmcStageIdx := stageIdx, mmcReadLen := len\<rparr>))"

text \<open>\<open>set_crypt_config\<close>: the vector of the current sector and the first half of the key.\<close>

definition set_crypt_config :: "fw \<Rightarrow> msc_action" where
  "set_crypt_config s m = do {
     iv \<leftarrow> derive_iv (unat (g_scsi_cur_aes_sector m)) s;
     Some (m\<lparr>g_scsi_cur_aes_iv := iv, g_scsi_aes_key := take 16 (g_encrypt_key s)\<rparr>)
   }"

text \<open>One sector through the cipher; source and destination advance together.\<close>

definition aes_sector :: "msc \<Rightarrow> msc" where
  "aes_sector m =
     msc_put (Msc_crypt (g_scsi_aes_encrypt m) (g_scsi_aes_key m) (g_scsi_cur_aes_iv m)
       (fst (g_scsi_aes_read m)) (fst (g_scsi_aes_write m)) (snd (g_scsi_aes_read m))) m"

definition process_crypt :: "bool \<Rightarrow> fw \<Rightarrow> int \<Rightarrow> nat \<Rightarrow> nat \<Rightarrow> nat \<Rightarrow> msc_action" where
  "process_crypt enc s readLen bufferRead bufferWrite stageIdx m =
     (if readLen mod 512 \<noteq> 0 then None
      else map_option aes_sector
             (set_crypt_config s
               (m\<lparr>g_cryptStageIdx := stageIdx, g_cryptTxLen := readLen,
                  g_scsi_num_aes_sector := of_int (readLen div 512), g_scsi_aes_read := (bufferRead, 0),
                  g_scsi_aes_write := (bufferWrite, 0), g_scsi_aes_encrypt := enc\<rparr>)))"

definition processDecryptReadBuffer_fn :: "fw \<Rightarrow> int \<Rightarrow> nat \<Rightarrow> nat \<Rightarrow> nat \<Rightarrow> msc_action" where
  "processDecryptReadBuffer_fn = process_crypt False"

definition processEncryptWriteBuffer_fn :: "fw \<Rightarrow> int \<Rightarrow> nat \<Rightarrow> nat \<Rightarrow> nat \<Rightarrow> msc_action" where
  "processEncryptWriteBuffer_fn = process_crypt True"

definition processUSBWriteBuffer_fn :: "nat \<Rightarrow> nat \<Rightarrow> msc \<Rightarrow> msc" where
  "processUSBWriteBuffer_fn bufferWrite stageIdx m =
     (let mx = maxBufferSize (usbBulkBufferFIFO m);
          len = (if scsi_blk_len m \<le> mx then scsi_blk_len m else mx)
      in msc_put (Msc_receive bufferWrite len)
           (m\<lparr>h_stageIdx := stageIdx, h_writeBuffer := bufferWrite, h_writeLen := int len\<rparr>))"

definition processMMCWriteBuffer_fn :: "int \<Rightarrow> nat \<Rightarrow> nat \<Rightarrow> msc \<Rightarrow> msc" where
  "processMMCWriteBuffer_fn readLen bufferRead stageIdx m =
     msc_put Msc_emmc_queue (m\<lparr>mmcStageIdx := stageIdx, mmcReadLen := readLen, mmcBufferWrite := bufferRead\<rparr>)"

section \<open>The end of a command\<close>

definition MSC_BOT_SendCSW :: "csw_status \<Rightarrow> msc \<Rightarrow> msc" where
  "MSC_BOT_SendCSW status m =
     (let c = (csw m)\<lparr>csw_dSignature := USBD_BOT_CSW_SIGNATURE, csw_bStatus := status\<rparr>
      in msc_put Msc_receive_cbw (msc_put (Msc_transmit_csw c) (m\<lparr>csw := c, bot_state := BOT_IDLE\<rparr>)))"

text \<open>Both callbacks check that the card has transferred everything.\<close>

definition readProcessingComplete_fn :: msc_action where
  "readProcessingComplete_fn m = (if mmcDataToTransfer m = 0 then Some (MSC_BOT_SendCSW CSW_CMD_PASSED m) else None)"

definition writeProcessingComplete_fn :: msc_action where
  "writeProcessingComplete_fn m = (if mmcDataToTransfer m = 0 then Some (MSC_BOT_SendCSW CSW_CMD_PASSED m) else None)"

text \<open>The calls that an operation of the FIFO makes.\<close>

fun fifo_call :: "fw \<Rightarrow> stage_fn fifo_call \<Rightarrow> msc_action" where
  "fifo_call s (Call_stage f readSize readData rb wb stageIdx) m =
     (case f of
        processMMCReadBuffer \<Rightarrow> Some (processMMCReadBuffer_fn wb stageIdx m)
      | processDecryptReadBuffer \<Rightarrow> processDecryptReadBuffer_fn s readSize rb wb stageIdx m
      | processUSBReadBuffer \<Rightarrow> Some (processUSBReadBuffer_fn readSize wb stageIdx m)
      | processUSBWriteBuffer \<Rightarrow> Some (processUSBWriteBuffer_fn wb stageIdx m)
      | processEncryptWriteBuffer \<Rightarrow> processEncryptWriteBuffer_fn s readSize rb wb stageIdx m
      | processMMCWriteBuffer \<Rightarrow> Some (processMMCWriteBuffer_fn readSize rb stageIdx m))"
| "fifo_call s Call_complete m =
     (case fifo_on_complete m of
        readProcessingComplete \<Rightarrow> readProcessingComplete_fn m
      | writeProcessingComplete \<Rightarrow> writeProcessingComplete_fn m)"

fun fifo_calls :: "fw \<Rightarrow> stage_fn fifo_call list \<Rightarrow> msc_action" where
  "fifo_calls s [] m = Some m"
| "fifo_calls s (c # cs) m = do { m \<leftarrow> fifo_call s c m; fifo_calls s cs m }"

definition fifo_op :: "fw \<Rightarrow> (stage_fn bufferFIFO \<Rightarrow> stage_fn fifo_call list \<times> stage_fn bufferFIFO) \<Rightarrow> msc_action" where
  "fifo_op s f m =
     (let (calls, bf) = f (usbBulkBufferFIFO m) in fifo_calls s calls (m\<lparr>usbBulkBufferFIFO := bf\<rparr>))"

text \<open>A stage that is through with its data stalls itself before it reports its end.\<close>

definition stall_and_complete :: "fw \<Rightarrow> bool \<Rightarrow> nat \<Rightarrow> int \<Rightarrow> msc_action" where
  "stall_and_complete s through stageIdx len = fifo_op s (stage_done stageIdx len 0 through)"

section \<open>The ends of the stages\<close>

text \<open>\<open>SCSI_ProcessRead\<close> and \<open>SCSI_ProcessWrite\<close>: the USB transfer of a buffer is over. The length is compared in 64 bits unsigned.\<close>

definition usb_buffer_done :: "fw \<Rightarrow> msc_action" where
  "usb_buffer_done s m =
     (let len = (if h_writeLen m < 0 then scsi_blk_len m else min (scsi_blk_len m) (nat (h_writeLen m)));
          m = m\<lparr>scsi_blk_addr := scsi_blk_addr m + len, scsi_blk_len := scsi_blk_len m - len,
                csw := (csw m)\<lparr>csw_dDataResidue := csw_dDataResidue (csw m) - of_nat len\<rparr>\<rparr>
      in stall_and_complete s (scsi_blk_len m = 0) (h_stageIdx m) (int len) m)"

definition SCSI_ProcessRead :: "fw \<Rightarrow> msc_action" where
  "SCSI_ProcessRead s m =
     (if g_usb_transmitting m then usb_buffer_done s (m\<lparr>g_usb_transmitting := False\<rparr>) else Some m)"

definition SCSI_ProcessWrite :: "fw \<Rightarrow> msc_action" where
  "SCSI_ProcessWrite = usb_buffer_done"

definition mmc_advance :: "msc \<Rightarrow> msc" where
  "mmc_advance m =
     m\<lparr>mmcDataToTransfer := mmcDataToTransfer m - mmcReadLen m, mmcDataTransferred := mmcDataTransferred m + mmcReadLen m,
       mmcBlockAddr := mmcBlockAddr m + mmcReadLen m div 512, mmcBlocksToTransfer := mmcBlocksToTransfer m - mmcReadLen m div 512\<rparr>"

definition mmc_stage_done :: "fw \<Rightarrow> msc_action" where
  "mmc_stage_done s m =
     stall_and_complete s (mmcDataToTransfer m = 0) (mmcStageIdx m) (mmcReadLen m) (msc_put Msc_emmc_done m)"

definition emmc_user_read_storage_rx_complete :: "fw \<Rightarrow> msc_action" where
  "emmc_user_read_storage_rx_complete s m = mmc_stage_done s (mmc_advance m)"

definition emmc_user_write_storage_tx_dma_complete :: "msc \<Rightarrow> msc" where
  "emmc_user_write_storage_tx_dma_complete m = msc_put Msc_mmc_cont (mmc_advance m)"

definition emmc_user_write_storage_tx_complete :: "fw \<Rightarrow> msc_action" where
  "emmc_user_write_storage_tx_complete = mmc_stage_done"

text \<open>\<open>usbd_scsi_idle\<close> after the interrupt of the cipher.\<close>

definition HAL_CRYP_OutCpltCallback :: "msc \<Rightarrow> msc" where
  "HAL_CRYP_OutCpltCallback m = m\<lparr>g_cryptOutInt := True\<rparr>"

definition usbd_scsi_idle :: "fw \<Rightarrow> msc_action" where
  "usbd_scsi_idle s m =
     (if g_cryptOutInt m then
        (let m = m\<lparr>g_cryptOutInt := False, g_scsi_cur_aes_sector := g_scsi_cur_aes_sector m + 1,
                   g_scsi_num_aes_sector := g_scsi_num_aes_sector m - 1,
                   g_scsi_aes_read := (fst (g_scsi_aes_read m), snd (g_scsi_aes_read m) + 512),
                   g_scsi_aes_write := (fst (g_scsi_aes_write m), snd (g_scsi_aes_write m) + 512)\<rparr>
         in if g_scsi_num_aes_sector m = 0 then
              (let m = m\<lparr>g_cryptDataToTransfer := g_cryptDataToTransfer m - g_cryptTxLen m\<rparr>
               in stall_and_complete s (g_cryptDataToTransfer m = 0) (g_cryptStageIdx m) (g_cryptTxLen m) m)
            else map_option aes_sector (set_crypt_config s m))
      else Some m)"

text \<open>
  \<open>emmc_user_storage_start\<close>: the card is free for the storage user. The address is computed
  in 32 bits, and nothing is compared with the bounds of the volume here.
\<close>

definition storage_card_addr :: "msc \<Rightarrow> u32" where
  "storage_card_addr m =
     of_int (mmcBlockAddr m) + of_nat (EMMC_STORAGE_FIRST_BLOCK * SUB_BLOCKS_PER_BLOCK)
     + vol_region_start (g_scsi_volume m (unat (cbw_bLUN (cbw m)))) * g_scsi_region_size_blocks m"

definition emmc_user_storage_start :: "msc \<Rightarrow> msc" where
  "emmc_user_storage_start m =
     (let n = of_int (mmcReadLen m div 512)
      in if bot_state m = BOT_DATA_IN then msc_put (Msc_mmc_read (mmcBufferRead m) (storage_card_addr m) n) m
         else if bot_state m = BOT_DATA_OUT then msc_put (Msc_mmc_write (mmcBufferWrite m) (storage_card_addr m) n) m
         else m)"

section \<open>READ10 and WRITE10\<close>

definition cdb_addr :: "bytes \<Rightarrow> nat" where
  "cdb_addr p = unat (p ! 2) * 2 ^ 24 + unat (p ! 3) * 2 ^ 16 + unat (p ! 4) * 2 ^ 8 + unat (p ! 5)"

definition cdb_len :: "bytes \<Rightarrow> nat" where
  "cdb_len p = unat (p ! 7) * 2 ^ 8 + unat (p ! 8)"

text \<open>The variables of a transfer, its stages, and the start of the FIFO.\<close>

definition read_stages :: "bool \<Rightarrow> (nat \<Rightarrow> stage_fn) \<Rightarrow> nat \<Rightarrow> stage_fn" where
  "read_stages crypt old =
     (if crypt then old(0 := processMMCReadBuffer, 1 := processDecryptReadBuffer, 2 := processUSBReadBuffer)
      else old(0 := processMMCReadBuffer, 1 := processUSBReadBuffer))"

definition write_stages :: "bool \<Rightarrow> (nat \<Rightarrow> stage_fn) \<Rightarrow> nat \<Rightarrow> stage_fn" where
  "write_stages crypt old =
     (if crypt then old(0 := processUSBWriteBuffer, 1 := processEncryptWriteBuffer, 2 := processMMCWriteBuffer)
      else old(0 := processUSBWriteBuffer, 1 := processMMCWriteBuffer))"

definition start_transfer ::
    "fw \<Rightarrow> (bool \<Rightarrow> (nat \<Rightarrow> stage_fn) \<Rightarrow> nat \<Rightarrow> stage_fn) \<Rightarrow> complete_fn \<Rightarrow> nat \<Rightarrow> nat \<Rightarrow> nat \<Rightarrow> msc \<Rightarrow> (int \<times> msc) option" where
  "start_transfer s stages fin lun blk_addr blk_len m =
     (let crypt = has_flag HC_VOLUME_FLAG_ENCRYPTED (g_scsi_volume m lun);
          len = min (scsi_blk_len m) (maxBufferSize (usbBulkBufferFIFO m));
          m = m\<lparr>mmcDataToTransfer := to_signed (scsi_blk_len m mod 2 ^ 32), mmcBlocksToTransfer := int blk_len,
                mmcBlockAddr := to_signed blk_addr, mmcDataTransferred := 0\<rparr>;
          m = (if crypt then m\<lparr>g_cryptDataToTransfer := to_signed (scsi_blk_len m mod 2 ^ 32),
                              g_scsi_cur_aes_sector := of_nat blk_addr\<rparr> else m);
          bf = usbBulkBufferFIFO m;
          m = m\<lparr>usbBulkBufferFIFO := bf\<lparr>numStages := (if crypt then 3 else 2), processStage := stages crypt (processStage bf)\<rparr>,
                fifo_on_complete := fin\<rparr>
      in map_option (Pair 0) (fifo_op s (bufferFIFO_start (int len)) m))"

definition SCSI_Read10 :: "fw \<Rightarrow> nat \<Rightarrow> bytes \<Rightarrow> msc \<Rightarrow> (int \<times> msc) option" where
  "SCSI_Read10 s lun params m =
     (if bot_state m = BOT_IDLE then
        (if and (cbw_bmFlags (cbw m)) 0x80 \<noteq> 0x80 then Some (scsi_fail ILLEGAL_REQUEST INVALID_CDB m)
         else if \<not> STORAGE_IsReady lun m then Some (scsi_fail NOT_READY MEDIUM_NOT_PRESENT m)
         else
           (let blk_addr = cdb_addr params; blk_len = cdb_len params;
                (r, m) = SCSI_CheckAddressRange (of_nat blk_addr) (of_nat blk_len) m
            in if r < 0 then Some (-1, m)
               else
                 (let m = m\<lparr>scsi_blk_addr := blk_addr * unat (scsi_blk_size m),
                            scsi_blk_len := blk_len * unat (scsi_blk_size m), bot_state := BOT_DATA_IN\<rparr>
                  in if unat (cbw_dDataLength (cbw m)) \<noteq> scsi_blk_len m then Some (scsi_fail ILLEGAL_REQUEST INVALID_CDB m)
                     else start_transfer s read_stages readProcessingComplete lun blk_addr blk_len m)))
      else map_option (Pair 0) (SCSI_ProcessRead s m))"

definition SCSI_Write10 :: "fw \<Rightarrow> nat \<Rightarrow> bytes \<Rightarrow> msc \<Rightarrow> (int \<times> msc) option" where
  "SCSI_Write10 s lun params m =
     (if bot_state m = BOT_IDLE then
        (if and (cbw_bmFlags (cbw m)) 0x80 = 0x80 then Some (scsi_fail ILLEGAL_REQUEST INVALID_CDB m)
         else if \<not> STORAGE_IsReady lun m then Some (scsi_fail NOT_READY MEDIUM_NOT_PRESENT m)
         else if STORAGE_IsWriteProtected lun m then Some (scsi_fail NOT_READY WRITE_PROTECTED m)
         else
           (let blk_addr = cdb_addr params; blk_len = cdb_len params;
                m = m\<lparr>scsi_blk_addr := blk_addr, scsi_blk_len := blk_len\<rparr>;
                (r, m) = SCSI_CheckAddressRange (of_nat blk_addr) (of_nat blk_len) m
            in if r < 0 then Some (-1, m)
               else
                 (let m = m\<lparr>scsi_blk_addr := blk_addr * unat (scsi_blk_size m),
                            scsi_blk_len := blk_len * unat (scsi_blk_size m)\<rparr>
                  in if unat (cbw_dDataLength (cbw m)) \<noteq> scsi_blk_len m then Some (scsi_fail ILLEGAL_REQUEST INVALID_CDB m)
                     else start_transfer s write_stages writeProcessingComplete lun blk_addr blk_len
                            (m\<lparr>bot_state := BOT_DATA_OUT\<rparr>))))
      else map_option (Pair 0) (SCSI_ProcessWrite s m))"

section \<open>The command switch\<close>

definition SCSI_ProcessCmd :: "fw \<Rightarrow> nat \<Rightarrow> bytes \<Rightarrow> msc \<Rightarrow> (int \<times> msc) option" where
  "SCSI_ProcessCmd s lun cmd m =
     (let op = cmd ! 0
      in if op = 0x00 then Some (SCSI_TestUnitReady lun m)
         else if op = 0x03 then Some (SCSI_RequestSense cmd m)
         else if op = 0x12 then Some (SCSI_Inquiry cmd m)
         else if op = 0x1B \<or> op = 0x1E then Some (SCSI_StartStopUnit m)
         else if op = 0x1A then Some (SCSI_ModeSense6 m)
         else if op = 0x5A then Some (SCSI_ModeSense10 m)
         else if op = 0x23 then Some (SCSI_ReadFormatCapacity lun m)
         else if op = 0x25 then Some (SCSI_ReadCapacity10 lun m)
         else if op = 0x28 then SCSI_Read10 s lun cmd m
         else if op = 0x2A then SCSI_Write10 s lun cmd m
         else if op = 0x2F then Some (SCSI_Verify10 cmd m)
         else Some (scsi_fail ILLEGAL_REQUEST INVALID_CDB m))"

end
