(* ===== verification/Msc_Bot.thy ===== *)
theory Msc_Bot
  imports Scsi
begin

text \<open>
  \<open>usbd_msc_bot.c\<close>: the bulk-only transport that takes command wrappers, runs the SCSI commands
  and sends status wrappers, and the events that drive the mass storage side.
\<close>

section \<open>Transport: \<open>usbd_msc_bot.c\<close>\<close>

definition MSC_BOT_Init :: "msc \<Rightarrow> msc" where
  "MSC_BOT_Init m =
     msc_put Msc_receive_cbw (msc_put Msc_flush_in (msc_put Msc_flush_out
       (m\<lparr>bot_state := BOT_IDLE, bot_status := BOT_STATUS_NORMAL, scsi_sense_tail := 0, scsi_sense_head := 0\<rparr>)))"

definition MSC_BOT_Reset :: "msc \<Rightarrow> msc" where
  "MSC_BOT_Reset m = msc_put Msc_receive_cbw (m\<lparr>bot_state := BOT_IDLE, bot_status := BOT_STATUS_RECOVERY\<rparr>)"

definition MSC_BOT_DeInit :: "msc \<Rightarrow> msc" where
  "MSC_BOT_DeInit m = m\<lparr>bot_state := BOT_IDLE\<rparr>"

definition MSC_BOT_Abort :: "msc \<Rightarrow> msc" where
  "MSC_BOT_Abort m =
     (let m = (if cbw_bmFlags (cbw m) = 0 \<and> cbw_dDataLength (cbw m) \<noteq> 0 \<and> bot_status m = BOT_STATUS_NORMAL
               then msc_put Msc_stall_out m else m);
          m = msc_put Msc_stall_in m
      in if bot_status m = BOT_STATUS_ERROR then msc_put Msc_receive_cbw m else m)"

text \<open>The residue is reduced by the length of the data, also when less is sent.\<close>

definition MSC_BOT_SendData :: "bytes \<Rightarrow> nat \<Rightarrow> msc \<Rightarrow> msc" where
  "MSC_BOT_SendData pbuf len m =
     (let length = min (unat (cbw_dDataLength (cbw m))) len mod 65536
      in msc_put (Msc_transmit (take length pbuf))
           (m\<lparr>csw := (csw m)\<lparr>csw_dDataResidue := csw_dDataResidue (csw m) - of_nat len, csw_bStatus := CSW_CMD_PASSED\<rparr>,
              bot_state := BOT_SEND_DATA\<rparr>))"

text \<open>Run the command of the wrapper; a failure is answered at once.\<close>

definition run_or_fail :: "fw \<Rightarrow> msc_action" where
  "run_or_fail s m = do {
     (r, m) \<leftarrow> SCSI_ProcessCmd s (unat (cbw_bLUN (cbw m))) (cbw_CB (cbw m)) m;
     Some (if r < 0 then MSC_BOT_SendCSW CSW_CMD_FAILED m else m)
   }"

definition MSC_BOT_DataIn :: "fw \<Rightarrow> msc_action" where
  "MSC_BOT_DataIn s m =
     (case bot_state m of
        BOT_DATA_IN \<Rightarrow> run_or_fail s m
      | BOT_SEND_DATA \<Rightarrow> Some (MSC_BOT_SendCSW CSW_CMD_PASSED m)
      | BOT_LAST_DATA_IN \<Rightarrow> Some (MSC_BOT_SendCSW CSW_CMD_PASSED m)
      | BOT_NO_DATA \<Rightarrow> Some (MSC_BOT_SendCSW CSW_CMD_PASSED m)
      | _ \<Rightarrow> Some m)"

text \<open>\<open>MSC_BOT_CBW_Decode\<close> of a wrapper of \<open>rx\<close> bytes.\<close>

definition cbw_valid :: "nat \<Rightarrow> msc_cbw \<Rightarrow> bool" where
  "cbw_valid rx c \<longleftrightarrow>
     rx = USBD_BOT_CBW_LENGTH \<and> cbw_dSignature c = USBD_BOT_CBW_SIGNATURE \<and> unat (cbw_bLUN c) < MAX_SCSI_VOLUMES
   \<and> 1 \<le> cbw_bCBLength c \<and> cbw_bCBLength c \<le> 16"

definition MSC_BOT_CBW_Decode :: "fw \<Rightarrow> nat \<Rightarrow> msc_action" where
  "MSC_BOT_CBW_Decode s rx m =
     (let m = m\<lparr>csw := (csw m)\<lparr>csw_dTag := cbw_dTag (cbw m), csw_dDataResidue := cbw_dDataLength (cbw m)\<rparr>\<rparr>
      in if \<not> cbw_valid rx (cbw m)
         then Some (MSC_BOT_Abort ((SCSI_SenseCode ILLEGAL_REQUEST INVALID_CDB 0 m)\<lparr>bot_status := BOT_STATUS_ERROR\<rparr>))
         else do {
           (r, m) \<leftarrow> SCSI_ProcessCmd s (unat (cbw_bLUN (cbw m))) (cbw_CB (cbw m)) m;
           Some (if r < 0 then
                   (if bot_state m = BOT_NO_DATA then MSC_BOT_SendCSW CSW_CMD_FAILED m else MSC_BOT_Abort m)
                 else if bot_state m \<notin> {BOT_DATA_IN, BOT_DATA_OUT, BOT_LAST_DATA_IN, BOT_SEND_DATA} then
                   (if 0 < bot_data_length m then MSC_BOT_SendData (bot_data m) (bot_data_length m) m
                    else MSC_BOT_SendCSW CSW_CMD_PASSED m)
                 else m)
         })"

definition MSC_BOT_DataOut :: "fw \<Rightarrow> nat \<Rightarrow> msc_action" where
  "MSC_BOT_DataOut s rx m =
     (case bot_state m of
        BOT_IDLE \<Rightarrow> MSC_BOT_CBW_Decode s rx m
      | BOT_DATA_OUT \<Rightarrow> run_or_fail s m
      | _ \<Rightarrow> Some m)"

definition MSC_BOT_CplClrFeature :: "u8 \<Rightarrow> msc \<Rightarrow> msc" where
  "MSC_BOT_CplClrFeature epnum m =
     (if bot_status m = BOT_STATUS_ERROR then (msc_put Msc_stall_in m)\<lparr>bot_status := BOT_STATUS_NORMAL\<rparr>
      else if and epnum 0x80 = 0x80 \<and> bot_status m \<noteq> BOT_STATUS_RECOVERY then MSC_BOT_SendCSW CSW_CMD_FAILED m
      else m)"

section \<open>Events\<close>

text \<open>
  The parts outside: \<open>card\<close> is the content of the eMMC by blocks of 512 bytes; \<open>cipher\<close> is the
  hardware's AES in CBC mode, for encryption or decryption, with key, vector and one sector.
\<close>

type_synonym card = "u32 \<Rightarrow> bytes"
type_synonym cipher = "bool \<Rightarrow> bytes \<Rightarrow> bytes \<Rightarrow> bytes \<Rightarrow> bytes"

fun card_read :: "card \<Rightarrow> u32 \<Rightarrow> nat \<Rightarrow> bytes" where
  "card_read c a 0 = []"
| "card_read c a (Suc n) = c a @ card_read c (a + 1) n"

fun card_write :: "card \<Rightarrow> u32 \<Rightarrow> nat \<Rightarrow> bytes \<Rightarrow> card" where
  "card_write c a 0 d = c"
| "card_write c a (Suc n) d = card_write (c(a := take 512 d)) (a + 1) n (drop 512 d)"

text \<open>
  A command wrapper arrives; the host has taken what was sent; it has sent the data of a write;
  the card has read or written what the storage user had asked for; the cipher is through with
  a sector; the device changes its state; the host clears a stalled endpoint or resets.
\<close>

datatype msc_event =
  Ev_cbw msc_cbw nat
| Ev_in
| Ev_out bytes
| Ev_card_read
| Ev_card_write
| Ev_crypt
| Ev_state device_state
| Ev_clear u8
| Ev_bot_reset

record msc_world =
  w_msc :: msc
  w_card :: card
  w_state :: device_state

fun msc_step :: "fw \<Rightarrow> cipher \<Rightarrow> msc_event \<Rightarrow> msc_world \<Rightarrow> msc_world option" where
  "msc_step s aes (Ev_cbw c rx) w =
     (if bot_state (w_msc w) = BOT_IDLE
      then map_option (\<lambda>m. w\<lparr>w_msc := m\<rparr>) (MSC_BOT_DataOut s rx ((w_msc w)\<lparr>cbw := c\<rparr>)) else Some w)"
| "msc_step s aes Ev_in w = map_option (\<lambda>m. w\<lparr>w_msc := m\<rparr>) (MSC_BOT_DataIn s (w_msc w))"
| "msc_step s aes (Ev_out d) w =
     (if bot_state (w_msc w) = BOT_DATA_OUT
      then (let m = w_msc w; b = h_writeBuffer m
            in map_option (\<lambda>m. w\<lparr>w_msc := m\<rparr>)
                 (MSC_BOT_DataOut s (length d) (m\<lparr>buffers := (buffers m)(b := d @ drop (length d) (buffers m b))\<rparr>)))
      else Some w)"
| "msc_step s aes Ev_card_read w =
     (let m = emmc_user_storage_start (w_msc w); b = mmcBufferRead m; n = nat (mmcReadLen m div 512);
          d = card_read (w_card w) (storage_card_addr m) n
      in map_option (\<lambda>m. w\<lparr>w_msc := m\<rparr>)
           (emmc_user_read_storage_rx_complete s (m\<lparr>buffers := (buffers m)(b := d @ drop (length d) (buffers m b))\<rparr>)))"
| "msc_step s aes Ev_card_write w =
     (let m = emmc_user_storage_start (w_msc w); n = nat (mmcReadLen m div 512);
          c = card_write (w_card w) (storage_card_addr m) n (buffers m (mmcBufferWrite m))
      in map_option (\<lambda>m. w\<lparr>w_msc := m, w_card := c\<rparr>)
           (emmc_user_write_storage_tx_complete s (emmc_user_write_storage_tx_dma_complete m)))"
| "msc_step s aes Ev_crypt w =
     (let m = w_msc w; (rb, ro) = g_scsi_aes_read m; (wb, wo) = g_scsi_aes_write m;
          d = aes (g_scsi_aes_encrypt m) (g_scsi_aes_key m) (g_scsi_cur_aes_iv m) (slice (buffers m rb) ro 512)
      in map_option (\<lambda>m. w\<lparr>w_msc := m\<rparr>)
           (usbd_scsi_idle s (HAL_CRYP_OutCpltCallback (m\<lparr>buffers := (buffers m)(wb := splice (buffers m wb) wo d)\<rparr>))))"
| "msc_step s aes (Ev_state d) w = Some (w\<lparr>w_msc := usbd_scsi_device_state_change d (w_msc w), w_state := d\<rparr>)"
| "msc_step s aes (Ev_clear ep) w = Some (w\<lparr>w_msc := MSC_BOT_CplClrFeature ep (w_msc w)\<rparr>)"
| "msc_step s aes Ev_bot_reset w = Some (w\<lparr>w_msc := MSC_BOT_Reset (w_msc w)\<rparr>)"

end
