(* ===== verification/Scsi_Safety.thy ===== *)
theory Scsi_Safety
  imports Msc_Bot Db_Refine
begin

text \<open>
  What the mass storage side gives access to: the device states in which the encrypted volume is out of
  reach, and what becomes of the check of the address range.
\<close>

section \<open>The volumes change with the device state only\<close>

definition vols :: "msc \<Rightarrow> nat \<times> (nat \<Rightarrow> scsi_volume) \<times> u32" where
  "vols m = (g_num_scsi_volumes m, g_scsi_volume m, g_scsi_region_size_blocks m)"

named_theorems vols_simps \<open>operations that leave the volumes alone\<close>

lemma vols_update [vols_simps]:
  "vols (msc_put x m) = vols m" "vols (SCSI_SenseCode a b c m) = vols m" "vols (no_data m) = vols m"
  "vols (m\<lparr>usbBulkBufferFIFO := f\<rparr>) = vols m" "vols (m\<lparr>csw := c'\<rparr>) = vols m" "vols (m\<lparr>cbw := c''\<rparr>) = vols m"
  "vols (m\<lparr>bot_state := z\<rparr>) = vols m" "vols (m\<lparr>buffers := bu\<rparr>) = vols m"
  by (simp_all add: vols_def msc_put_def SCSI_SenseCode_def no_data_def Let_def)

lemma vols_MSC_BOT_SendCSW [vols_simps]: "vols (MSC_BOT_SendCSW st m) = vols m"
  by (simp add: MSC_BOT_SendCSW_def Let_def vols_def msc_put_def)

lemma vols_process_crypt: "process_crypt e s n rb wb k m = Some m' \<Longrightarrow> vols m' = vols m"
  by (auto simp: process_crypt_def set_crypt_config_def aes_sector_def vols_def msc_put_def bind_eq_Some_conv split: if_splits)

lemma vols_fifo_call: "fifo_call s c m = Some m' \<Longrightarrow> vols m' = vols m"
  by (cases c)
    (auto simp: processMMCReadBuffer_fn_def processUSBReadBuffer_fn_def processUSBWriteBuffer_fn_def processMMCWriteBuffer_fn_def
      processDecryptReadBuffer_fn_def processEncryptWriteBuffer_fn_def readProcessingComplete_fn_def writeProcessingComplete_fn_def
      MSC_BOT_SendCSW_def Let_def vols_simps vols_def msc_put_def
      dest!: vols_process_crypt split: stage_fn.splits complete_fn.splits if_splits)

lemma vols_fifo_calls: "fifo_calls s cs m = Some m' \<Longrightarrow> vols m' = vols m"
  by (induction cs arbitrary: m) (auto simp: bind_eq_Some_conv dest: vols_fifo_call)

lemma vols_fifo_op: "fifo_op s f m = Some m' \<Longrightarrow> vols m' = vols m"
  by (auto simp: fifo_op_def vols_simps split: prod.splits dest!: vols_fifo_calls)

lemma vols_usb_done: "usb_buffer_done s m = Some m' \<Longrightarrow> vols m' = vols m"
  by (auto simp: usb_buffer_done_def stall_and_complete_def Let_def dest!: vols_fifo_op) (simp_all add: vols_def split: if_splits)

lemma vols_scsi_reply: "scsi_reply d n m = (r, m') \<Longrightarrow> vols m' = vols m"
  by (auto simp: scsi_reply_def Let_def vols_def msc_put_def)

lemma vols_start_transfer: "start_transfer s st fin lun a n m = Some (r, m') \<Longrightarrow> vols m' = vols m"
  by (auto simp: start_transfer_def Let_def dest!: vols_fifo_op) (simp_all add: vols_def split: if_splits)

lemma vols_range: "SCSI_CheckAddressRange a n m = (r, m') \<Longrightarrow> vols m' = vols m"
  by (auto simp: SCSI_CheckAddressRange_def scsi_fail_def vols_simps split: if_splits)

lemma vols_read_write:
  "SCSI_Read10 s lun p m = Some (r, m') \<Longrightarrow> vols m' = vols m"
  "SCSI_Write10 s lun p m = Some (r, m') \<Longrightarrow> vols m' = vols m"
proof -
  assume "SCSI_Read10 s lun p m = Some (r, m')"
  then show "vols m' = vols m"
    by (auto simp: SCSI_Read10_def SCSI_ProcessRead_def scsi_fail_def Let_def vols_simps
        split: if_splits prod.splits dest!: vols_range vols_start_transfer vols_usb_done) (simp_all add: vols_def)
next
  assume "SCSI_Write10 s lun p m = Some (r, m')"
  then show "vols m' = vols m"
    by (auto simp: SCSI_Write10_def SCSI_ProcessWrite_def scsi_fail_def Let_def vols_simps
        split: if_splits prod.splits dest!: vols_range vols_start_transfer vols_usb_done) (simp_all add: vols_def)
qed

lemma vols_other_cmds:
  "SCSI_TestUnitReady lun m = (r, m') \<Longrightarrow> vols m' = vols m" "SCSI_RequestSense p m = (r, m') \<Longrightarrow> vols m' = vols m"
  "SCSI_Inquiry p m = (r, m') \<Longrightarrow> vols m' = vols m" "SCSI_StartStopUnit m = (r, m') \<Longrightarrow> vols m' = vols m"
  "SCSI_ModeSense6 m = (r, m') \<Longrightarrow> vols m' = vols m" "SCSI_ModeSense10 m = (r, m') \<Longrightarrow> vols m' = vols m"
  "SCSI_ReadFormatCapacity lun m = (r, m') \<Longrightarrow> vols m' = vols m" "SCSI_ReadCapacity10 lun m = (r, m') \<Longrightarrow> vols m' = vols m"
  "SCSI_Verify10 p m = (r, m') \<Longrightarrow> vols m' = vols m"
  by (auto simp: SCSI_TestUnitReady_def SCSI_RequestSense_def SCSI_Inquiry_def SCSI_StartStopUnit_def SCSI_ModeSense6_def
      SCSI_ModeSense10_def SCSI_ReadFormatCapacity_def SCSI_ReadCapacity10_def SCSI_Verify10_def scsi_fail_def Let_def vols_simps
      split: if_splits option.splits prod.splits dest!: vols_scsi_reply vols_range) (simp_all add: vols_def)

lemma vols_ProcessCmd: "SCSI_ProcessCmd s lun p m = Some (r, m') \<Longrightarrow> vols m' = vols m"
  by (auto simp: SCSI_ProcessCmd_def scsi_fail_def Let_def vols_simps split: if_splits dest: vols_other_cmds vols_read_write)

lemma vols_bot:
  "MSC_BOT_DataIn s m = Some m' \<Longrightarrow> vols m' = vols m" "MSC_BOT_DataOut s rx m = Some m' \<Longrightarrow> vols m' = vols m"
  "vols (MSC_BOT_CplClrFeature ep m) = vols m" "vols (MSC_BOT_Reset m) = vols m"
proof -
  have a: "vols (MSC_BOT_Abort m) = vols m" "vols (MSC_BOT_SendData d n m) = vols m" "vols (m\<lparr>bot_status := st\<rparr>) = vols m" for m d n st
    by (simp_all add: MSC_BOT_Abort_def MSC_BOT_SendData_def Let_def vols_def msc_put_def)
  have r: "run_or_fail s m = Some m' \<Longrightarrow> vols m' = vols m" for m
    by (auto simp: run_or_fail_def bind_eq_Some_conv vols_simps dest!: vols_ProcessCmd)
  show "MSC_BOT_DataIn s m = Some m' \<Longrightarrow> vols m' = vols m"
    by (auto simp: MSC_BOT_DataIn_def vols_simps split: bot_state.splits dest!: r)
  show "MSC_BOT_DataOut s rx m = Some m' \<Longrightarrow> vols m' = vols m"
    by (auto simp: MSC_BOT_DataOut_def MSC_BOT_CBW_Decode_def bind_eq_Some_conv vols_simps a Let_def
        split: bot_state.splits if_splits dest!: r vols_ProcessCmd)
  show "vols (MSC_BOT_CplClrFeature ep m) = vols m" "vols (MSC_BOT_Reset m) = vols m"
    by (simp_all add: MSC_BOT_CplClrFeature_def MSC_BOT_Reset_def vols_simps a)
qed

lemma vols_stage_done:
  "mmc_stage_done s m = Some m' \<Longrightarrow> vols m' = vols m" "usbd_scsi_idle s m = Some m' \<Longrightarrow> vols m' = vols m"
  "vols (emmc_user_storage_start m) = vols m" "vols (mmc_advance m) = vols m" "vols (HAL_CRYP_OutCpltCallback m) = vols m"
  by (auto simp: mmc_stage_done_def stall_and_complete_def usbd_scsi_idle_def set_crypt_config_def aes_sector_def bind_eq_Some_conv
      emmc_user_storage_start_def mmc_advance_def HAL_CRYP_OutCpltCallback_def Let_def vols_simps split: if_splits dest!: vols_fifo_op)
    (simp_all add: vols_def msc_put_def)

section \<open>The state at reset\<close>

text \<open>The FIFO is set up in \<open>main\<close>: four buffers of 16384 bytes.\<close>

definition msc_fifo_0 :: "stage_fn bufferFIFO" where
  "msc_fifo_0 =
     \<lparr>maxBufferSize = 16384, bufferCount = 4, numStages = 0, processStage = (\<lambda>_. processMMCReadBuffer),
      bf_bufferSize = (\<lambda>_. 0), bf_bufferData = (\<lambda>_. 0), bf_stageWriteIndex = (\<lambda>_. 0), bf_stageReadIndex = (\<lambda>_. 0),
      bf_stalled = (\<lambda>_. False), bf_stageProcessing = (\<lambda>_. False), bf_processing = False, bf_stall_index = 0\<rparr>"

definition msc_reset :: "u32 \<Rightarrow> msc" where
  "msc_reset blocks =
     \<lparr>max_lun = 0, bot_data = replicate 256 0, bot_data_length = 0, bot_state = BOT_IDLE, bot_status = BOT_STATUS_NORMAL,
      h_stageIdx = 0, h_writeBuffer = 0, h_writeLen = 0,
      cbw = \<lparr>cbw_dSignature = 0, cbw_dTag = 0, cbw_dDataLength = 0, cbw_bmFlags = 0, cbw_bLUN = 0, cbw_bCBLength = 0, cbw_CB = replicate 16 0\<rparr>,
      csw = \<lparr>csw_dSignature = 0, csw_dTag = 0, csw_dDataResidue = 0, csw_bStatus = CSW_CMD_PASSED\<rparr>,
      scsi_sense = replicate 4 \<lparr>Skey = 0, ASC = 0, ASCQ = 0\<rparr>, scsi_sense_head = 0, scsi_sense_tail = 0,
      scsi_blk_size = 0, scsi_blk_nbr = 0, scsi_blk_addr = 0, scsi_blk_len = 0, g_num_scsi_volumes = 0, g_scsi_num_regions = 0,
      g_scsi_region_size_blocks = 0,
      g_scsi_volume = (\<lambda>_. \<lparr>vol_nr = 0, vol_flags = 0, vol_region_start = 0, vol_n_regions = 0, vol_started = False,
        vol_visible = False, vol_writable = False\<rparr>),
      mmcStageIdx = 0, mmcReadLen = 0, mmcBufferRead = 0, mmcBufferWrite = 0, mmcBlockAddr = -1, mmcDataToTransfer = 0,
      mmcBlocksToTransfer = 0, mmcDataTransferred = 0, g_cryptStageIdx = 0, g_cryptTxLen = 0, g_cryptDataToTransfer = 0,
      g_scsi_cur_aes_sector = 0, g_scsi_num_aes_sector = 0, g_scsi_aes_encrypt = False, g_scsi_aes_read = (0, 0),
      g_scsi_aes_write = (0, 0), g_scsi_aes_key = [], g_scsi_cur_aes_iv = [], g_cryptOutInt = False, g_usb_transmitting = False,
      capacity_resp = replicate 8 0, sense_data = replicate 18 0, usbBulkBufferFIFO = msc_fifo_0,
      fifo_on_complete = readProcessingComplete, buffers = (\<lambda>_. replicate 16384 0), card_BlockNbr = blocks, card_BlockSize = 512,
      msc_outs = []\<rparr>"

definition world_0 :: "u32 \<Rightarrow> msc_world" where
  "world_0 blocks = \<lparr>w_msc = usbd_scsi_init (msc_reset blocks), w_card = (\<lambda>_. replicate 512 0), w_state = DS_UNINITIALIZED\<rparr>"

section \<open>The hidden volume\<close>

inductive msc_reach :: "fw \<Rightarrow> cipher \<Rightarrow> msc_world \<Rightarrow> msc_world \<Rightarrow> bool" for s aes w0 where
  start: "msc_reach s aes w0 w0"
| step: "msc_reach s aes w0 w \<Longrightarrow> msc_step s aes e w = Some w' \<Longrightarrow> msc_reach s aes w0 w'"

definition booted :: "msc_world \<Rightarrow> bool" where
  "booted w \<longleftrightarrow> (\<exists>m. w_msc w = usbd_scsi_init m) \<and> locked_state (w_state w)"

definition volumes_ok :: "msc_world \<Rightarrow> bool" where
  "volumes_ok w \<longleftrightarrow>
     g_num_scsi_volumes (w_msc w) = 2 \<and> vol_flags (g_scsi_volume (w_msc w) 0) = HC_VOLUME_FLAG_VALID
   \<and> vol_visible (g_scsi_volume (w_msc w) 0) \<and> vol_flags (g_scsi_volume (w_msc w) 1) = 305
   \<and> (vol_visible (g_scsi_volume (w_msc w) 1) \<longleftrightarrow> \<not> locked_state (w_state w))"

lemma booted_volumes: "booted w \<Longrightarrow> volumes_ok w"
  by (auto simp: booted_def volumes_ok_def usbd_scsi_init_def Let_def)

lemma volumes_ok_cong: "volumes_ok w \<Longrightarrow> vols (w_msc w') = vols (w_msc w) \<Longrightarrow> w_state w' = w_state w \<Longrightarrow> volumes_ok w'"
  by (simp add: volumes_ok_def vols_def)

lemma volumes_state_change:
  "volumes_ok w \<Longrightarrow> volumes_ok (w\<lparr>w_msc := usbd_scsi_device_state_change d (w_msc w), w_state := d\<rparr>)"
  by (simp add: volumes_ok_def usbd_scsi_device_state_change_def volume_state_change_def has_flag_def Let_def)

lemma volumes_step: "volumes_ok w \<Longrightarrow> msc_step s aes e w = Some w' \<Longrightarrow> volumes_ok w'"
proof (cases e)
  case (Ev_state d)
  then show "volumes_ok w \<Longrightarrow> msc_step s aes e w = Some w' \<Longrightarrow> volumes_ok w'" using volumes_state_change by auto
qed (auto simp: Let_def vols_simps vols_stage_done emmc_user_read_storage_rx_complete_def emmc_user_write_storage_tx_complete_def
      emmc_user_write_storage_tx_dma_complete_def elim!: volumes_ok_cong split: if_splits prod.splits
      dest!: vols_bot(1,2) vols_stage_done(1,2) simp: vols_bot)

lemma volumes_reach: "msc_reach s aes w0 w \<Longrightarrow> booted w0 \<Longrightarrow> volumes_ok w"
  by (induction rule: msc_reach.induct) (auto intro: booted_volumes volumes_step)

lemma read_write_not_ready:
  assumes "bot_state m = BOT_IDLE" "\<not> STORAGE_IsReady lun m" "cmd ! 0 = 0x28 \<or> cmd ! 0 = 0x2A"
  shows "\<exists>k a. SCSI_ProcessCmd s lun cmd m = Some (scsi_fail k a m)"
  using assms by (auto simp: SCSI_ProcessCmd_def SCSI_Read10_def SCSI_Write10_def Let_def)

lemma locked_refused:
  assumes "volumes_ok w" "locked_state (w_state w)" "bot_state (w_msc w) = BOT_IDLE"
    and "cbw_valid rx c" "cbw_bLUN c = 1" "cbw_CB c ! 0 = 0x28 \<or> cbw_CB c ! 0 = 0x2A"
  shows "\<exists>w' st. msc_step s aes (Ev_cbw c rx) w = Some w'
    \<and> msc_outs (w_msc w') = msc_outs (w_msc w) @ [Msc_transmit_csw st, Msc_receive_cbw]
    \<and> csw_bStatus st = CSW_CMD_FAILED \<and> csw_dTag st = cbw_dTag c \<and> bot_state (w_msc w') = BOT_IDLE
    \<and> w_card w' = w_card w \<and> usbBulkBufferFIFO (w_msc w') = usbBulkBufferFIFO (w_msc w)"
proof -
  let ?m = "(w_msc w)\<lparr>cbw := c, csw := (csw (w_msc w))\<lparr>csw_dTag := cbw_dTag c, csw_dDataResidue := cbw_dDataLength c\<rparr>\<rparr>"
  have "\<not> STORAGE_IsReady 1 ?m" using assms(1,2) by (simp add: volumes_ok_def STORAGE_IsReady_def)
  then obtain k a where k: "SCSI_ProcessCmd s 1 (cbw_CB c) ?m = Some (scsi_fail k a ?m)"
    using read_write_not_ready [of ?m 1 "cbw_CB c" s] assms(3,6) by auto
  have "MSC_BOT_DataOut s rx ((w_msc w)\<lparr>cbw := c\<rparr>)
      = Some (MSC_BOT_SendCSW CSW_CMD_FAILED (no_data (SCSI_SenseCode k a 0 ?m)))"
    using assms(3-5) k
    by (simp add: MSC_BOT_DataOut_def MSC_BOT_CBW_Decode_def scsi_fail_def no_data_def Let_def)
  then show ?thesis
    using assms(3) by (auto simp: MSC_BOT_SendCSW_def no_data_def SCSI_SenseCode_def msc_put_def Let_def)
qed

text \<open>
  C15. The device states that hide the encrypted volume. From startup on, through any sequence of
  commands, transfers, resets and changes of the device state: in the eight states in which
  \<open>usbd_scsi_device_state_change\<close> makes the volume invisible (disconnected, uninitialized,
  initializing, wiping, erasing pages, logged out, restoring, bootloader), a READ10 or WRITE10 for
  the volume, however formed, is answered with a failed status and the tag of its wrapper at once;
  nothing is asked of the card, no data goes out and the FIFO is not touched. In every other state
  the volume is ready to be read and written: when logged in, and in the states of a firmware update
  and of a backup. The state of a backup is no login: a device that is logged out accepts
  BACKUP_DEVICE and enters it after a long button press.
\<close>

theorem hidden_volume_locked:
  assumes "booted w0" "msc_reach s aes w0 w" "bot_state (w_msc w) = BOT_IDLE"
    and "cbw_valid rx c" "cbw_bLUN c = 1" "cbw_CB c ! 0 = 0x28 \<or> cbw_CB c ! 0 = 0x2A"
  shows "if w_state w \<in> {DS_DISCONNECTED, DS_UNINITIALIZED, DS_INITIALIZING, DS_WIPING, DS_ERASING_PAGES, DS_LOGGED_OUT,
        DS_RESTORING_DEVICE, DS_BOOTLOADER}
    then \<exists>w' st. msc_step s aes (Ev_cbw c rx) w = Some w'
      \<and> msc_outs (w_msc w') = msc_outs (w_msc w) @ [Msc_transmit_csw st, Msc_receive_cbw]
      \<and> csw_bStatus st = CSW_CMD_FAILED \<and> csw_dTag st = cbw_dTag c \<and> bot_state (w_msc w') = BOT_IDLE
      \<and> w_card w' = w_card w \<and> usbBulkBufferFIFO (w_msc w') = usbBulkBufferFIFO (w_msc w)
    else STORAGE_IsReady 1 (w_msc w)"
proof -
  have v: "volumes_ok w" using volumes_reach assms(1,2) by blast
  have refused: "\<exists>w' st. msc_step s aes (Ev_cbw c rx) w = Some w'
      \<and> msc_outs (w_msc w') = msc_outs (w_msc w) @ [Msc_transmit_csw st, Msc_receive_cbw]
      \<and> csw_bStatus st = CSW_CMD_FAILED \<and> csw_dTag st = cbw_dTag c \<and> bot_state (w_msc w') = BOT_IDLE
      \<and> w_card w' = w_card w \<and> usbBulkBufferFIFO (w_msc w') = usbBulkBufferFIFO (w_msc w)"
    if "locked_state (w_state w)"
    by (rule locked_refused [OF v that assms(3-6)])
  show ?thesis using refused v by (auto simp: locked_state_def volumes_ok_def STORAGE_IsReady_def)
qed

definition cbw_example :: "u8 \<Rightarrow> u8 \<Rightarrow> u32 \<Rightarrow> bytes \<Rightarrow> msc_cbw" where
  "cbw_example lun flags len cb =
     \<lparr>cbw_dSignature = USBD_BOT_CBW_SIGNATURE, cbw_dTag = 77, cbw_dDataLength = len, cbw_bmFlags = flags, cbw_bLUN = lun,
      cbw_bCBLength = 10, cbw_CB = cb\<rparr>"

theorem hidden_volume_locked_witness:
  "\<exists>w' st. msc_step fw_reset (\<lambda>_ _ _ d. d) (Ev_cbw (cbw_example 1 0x80 512 [0x28, 0, 0, 0, 0, 0, 0, 0, 1, 0]) 31) (world_0 30000000) = Some w'
     \<and> msc_outs (w_msc w') = [Msc_transmit_csw st, Msc_receive_cbw] \<and> csw_bStatus st = CSW_CMD_FAILED \<and> csw_dTag st = 77"
proof -
  have "booted (world_0 30000000)" by (auto simp: booted_def world_0_def locked_state_def)
  moreover have "cbw_valid 31 (cbw_example 1 0x80 512 [0x28, 0, 0, 0, 0, 0, 0, 0, 1, 0])"
    by (simp add: cbw_valid_def cbw_example_def)
  moreover have "msc_outs (w_msc (world_0 30000000)) = []" "bot_state (w_msc (world_0 30000000)) = BOT_IDLE"
    "w_state (world_0 30000000) = DS_UNINITIALIZED"
    by (simp_all add: world_0_def usbd_scsi_init_def msc_reset_def Let_def locked_state_def)
  ultimately show ?thesis
    using hidden_volume_locked [OF _ msc_reach.start, of "world_0 30000000" 31 "cbw_example 1 0x80 512 [0x28, 0, 0, 0, 0, 0, 0, 0, 1, 0]"
        fw_reset "\<lambda>_ _ _ d. d"]
    by (auto simp: cbw_example_def)
qed

section \<open>The address range\<close>

lemma chunk_start:
  assumes "bufferFIFO_start len bf = (calls, bf')" "2 \<le> numStages bf"
  shows "calls = [start_call bf' 0]" "maxBufferSize bf' = maxBufferSize bf"
    "processStage bf' = processStage bf"
  using assms by (auto simp: bufferFIFO_start_def bufferFIFO_execStage_def start_call_def Let_def)

text \<open>
  C16. The check of the address range wraps around. With the capacity of a volume known to the
  transport, a READ10 of the plain volume at \<open>2^32 - d\<close> for \<open>d\<close> blocks passes the check, because the
  32-bit sum of the two is 0; the card is then read \<open>d\<close> blocks in front of the volume. For every
  data block of the password database there is such a command, whose first transfer is exactly
  that block: the host reads the database area with no login and no button press.
\<close>

theorem address_range_wraps:
  fixes d :: nat
  assumes i: "data_block i" and d: "d = 34080 - emmc_block_addr i"
    and p: "cdb_addr params = 2 ^ 32 - d" "cdb_len params = d"
    and m: "bot_state m = BOT_IDLE" "STORAGE_IsReady 0 m" "\<not> has_flag HC_VOLUME_FLAG_ENCRYPTED (g_scsi_volume m 0)"
      "vol_region_start (g_scsi_volume m 0) = 0" "scsi_blk_size m = 512" "maxBufferSize (usbBulkBufferFIFO m) = 16384"
    and c: "cbw_bLUN (cbw m) = 0" "and (cbw_bmFlags (cbw m)) 0x80 = 0x80" "unat (cbw_dDataLength (cbw m)) = d * 512"
  shows "\<exists>m' b. SCSI_Read10 s 0 params m = Some (0, m')
    \<and> msc_outs (emmc_user_storage_start m') = msc_outs m @ [Msc_emmc_queue, Msc_mmc_read b (of_nat (emmc_block_addr i)) 32]"
proof -
  have e: "emmc_block_addr i = (i + 36) * 32" "1 \<le> i" "i \<le> 1023" using i by (auto simp: data_block_def emmc_block_addr_def)
  then have d': "192 \<le> d" "d \<le> 32896" "emmc_block_addr i + d = 34080" using d by auto
  have w: "(of_nat (4294967296 - d) :: u32) = - of_nat d" "(of_nat (4294967296 - d) :: u32) + of_nat d = 0"
  proof -
    have "(of_nat (4294967296 - d) :: u32) = of_nat 4294967296 - of_nat d" using d' by (intro of_nat_diff) simp
    then show "(of_nat (4294967296 - d) :: u32) = - of_nat d" "(of_nat (4294967296 - d) :: u32) + of_nat d = 0" by simp_all
  qed
  have sg: "to_signed (4294967296 - d) = - int d" using d' by (simp add: to_signed_def of_nat_diff)
  have range: "SCSI_CheckAddressRange (of_nat (4294967296 - d)) (of_nat d) m = (0, m)"
    unfolding SCSI_CheckAddressRange_def w(2) by simp
  let ?m1 = "m\<lparr>scsi_blk_addr := (4294967296 - d) * 512, scsi_blk_len := d * 512, bot_state := BOT_DATA_IN\<rparr>"
  have r: "SCSI_Read10 s 0 params m = start_transfer s read_stages readProcessingComplete 0 (4294967296 - d) d ?m1"
    using m c p range by (simp add: SCSI_Read10_def Let_def)
  let ?bf = "(usbBulkBufferFIFO m)\<lparr>numStages := 2, processStage := read_stages False (processStage (usbBulkBufferFIFO m))\<rparr>"
  let ?m2 = "?m1\<lparr>mmcDataToTransfer := int (d * 512), mmcBlocksToTransfer := int d, mmcBlockAddr := - int d, mmcDataTransferred := 0,
     fifo_on_complete := readProcessingComplete\<rparr>"
  obtain calls bf' where bf: "bufferFIFO_start 16384 ?bf = (calls, bf')" by fastforce
  note ch = chunk_start [OF bf, simplified]
  have st: "processStage bf' 0 = processMMCReadBuffer" using ch by (simp add: read_stages_def)
  have len: "min (d * 512) 16384 = 16384" using d' by simp
  have ts: "to_signed (d * 512 mod 4294967296) = int d * 512" using d' by simp
  have "start_transfer s read_stages readProcessingComplete 0 (4294967296 - d) d ?m1
      = map_option (Pair 0) (fifo_calls s calls (?m2\<lparr>usbBulkBufferFIFO := bf'\<rparr>))"
    using m bf by (simp add: start_transfer_def fifo_op_def Let_def sg ts len)
  moreover have "fifo_calls s calls (?m2\<lparr>usbBulkBufferFIFO := bf'\<rparr>)
      = Some (processMMCReadBuffer_fn (bf_stageWriteIndex bf' 0 mod bufferCount bf') 0 (?m2\<lparr>usbBulkBufferFIFO := bf'\<rparr>))"
    by (simp add: ch(1) start_call_def Let_def st)
  moreover have "storage_card_addr (processMMCReadBuffer_fn b 0 (?m2\<lparr>usbBulkBufferFIFO := bf'\<rparr>)) = of_nat (emmc_block_addr i)" for b
  proof -
    have "(of_nat (emmc_block_addr i) :: u32) + of_nat d = 34080" unfolding of_nat_add [symmetric] d'(3) by simp
    then have "(of_nat (emmc_block_addr i) :: u32) = 34080 - of_nat d" by (simp add: algebra_simps)
    then show ?thesis using m c by (simp add: storage_card_addr_def processMMCReadBuffer_fn_def Let_def msc_put_def)
  qed
  ultimately show ?thesis
    using d' m(6) by (auto simp: r emmc_user_storage_start_def processMMCReadBuffer_fn_def ch(2) Let_def msc_put_def)
qed

theorem address_range_wraps_witness:
  "\<exists>m' b. SCSI_Read10 fw_reset 0 [0x28, 0, 0xFF, 0xFF, 0x7F, 0x80, 0, 0x80, 0x80, 0]
       ((w_msc (world_0 30000000))\<lparr>scsi_blk_size := 512, cbw := cbw_example 0 0x80 16842752 []\<rparr>) = Some (0, m')
     \<and> msc_outs (emmc_user_storage_start m') = [Msc_emmc_queue, Msc_mmc_read b 1184 32]"
proof -
  let ?m = "(w_msc (world_0 30000000))\<lparr>scsi_blk_size := 512, cbw := cbw_example 0 0x80 16842752 []\<rparr>"
  have a: "emmc_block_addr (Suc 0) = 1184" by (simp add: emmc_block_addr_def)
  have m: "bot_state ?m = BOT_IDLE" "STORAGE_IsReady 0 ?m" "\<not> has_flag HC_VOLUME_FLAG_ENCRYPTED (g_scsi_volume ?m 0)"
    "vol_region_start (g_scsi_volume ?m 0) = 0" "scsi_blk_size ?m = 512" "maxBufferSize (usbBulkBufferFIFO ?m) = 16384"
    "msc_outs ?m = []"
    by (simp_all add: world_0_def usbd_scsi_init_def msc_reset_def msc_fifo_0_def STORAGE_IsReady_def has_flag_def Let_def)
  have p: "cdb_addr [0x28, 0, 0xFF, 0xFF, 0x7F, 0x80, 0, 0x80, 0x80, 0] = 2 ^ 32 - 32896"
    "cdb_len [0x28, 0, 0xFF, 0xFF, 0x7F, 0x80, 0, 0x80, 0x80, 0] = 32896"
    by (simp_all add: cdb_addr_def cdb_len_def)
  show ?thesis
    using address_range_wraps [of 1 32896 "[0x28, 0, 0xFF, 0xFF, 0x7F, 0x80, 0, 0x80, 0x80, 0]" ?m fw_reset, OF _ _ p m(1-6)]
    using m(7) by (simp add: a data_block_def cbw_example_def)
qed

end
