(* ===== verification/Scsi_Pieces.thy ===== *)
theory Scsi_Pieces
  imports Scsi_Safety
begin

text \<open>
  What READ10 and WRITE10 move. A transfer is cut into pieces of up to 32 blocks, one buffer each:
  read from the card or sent by the host, through the cipher for the encrypted volume, and out on
  the other side. Here is what each stage makes of a piece, and what all of them come to.
\<close>

section \<open>Pieces of a transfer\<close>

text \<open>
  A transfer: its direction, what the host sends if it is a write, whether it passes the cipher, its
  volume, its address and number of blocks, the card address of its first block, the card as it was
  before, the volumes and their measures, and the parts outside that stay as they are.
\<close>

record transfer =
  t_write :: bool
  t_data :: bytes
  t_crypt :: bool
  t_lun :: nat
  t_addr :: nat
  t_blocks :: nat
  t_base :: u32
  t_card :: card
  t_volumes :: "(nat \<Rightarrow> scsi_volume) \<times> nat \<times> u32 \<times> u32 \<times> u16"
  t_fw :: fw
  t_aes :: cipher

definition stages :: "transfer \<Rightarrow> nat" where
  "stages t = (if t_crypt t then 3 else 2)"

definition last_stage :: "transfer \<Rightarrow> nat" where
  "last_stage t = (if t_crypt t then 2 else 1)"

definition usb_stage :: "transfer \<Rightarrow> nat" where
  "usb_stage t = (if t_write t then 0 else last_stage t)"

definition mmc_stage :: "transfer \<Rightarrow> nat" where
  "mmc_stage t = (if t_write t then last_stage t else 0)"

lemma stages_last [simp]:
  "stages t - Suc 0 = last_stage t" "0 < last_stage t" "last_stage t < stages t" "2 \<le> stages t" "Suc 0 < stages t" "0 < stages t"
  "last_stage t \<noteq> 0" "stages t \<noteq> 0" "stages t \<le> 5" "usb_stage t < stages t" "mmc_stage t < stages t"
  "usb_stage t \<noteq> mmc_stage t" "mmc_stage t \<noteq> usb_stage t"
  by (simp_all add: stages_def last_stage_def usb_stage_def mmc_stage_def)

lemma stages_crypt: "t_crypt t \<Longrightarrow> stages t = 3 \<and> last_stage t = 2 \<and> usb_stage t \<noteq> 1 \<and> mmc_stage t \<noteq> 1"
  by (simp add: stages_def last_stage_def usb_stage_def mmc_stage_def)

text \<open>The stages of a transfer.\<close>

lemma stage_cases:
  assumes "k < stages t"
  obtains "k = mmc_stage t" | "k = usb_stage t" | "t_crypt t" "k = 1"
proof -
  have "k < 3 \<longleftrightarrow> k = 0 \<or> k = 1 \<or> k = 2" "k < 2 \<longleftrightarrow> k = 0 \<or> k = 1" by auto
  then have "k = mmc_stage t \<or> k = usb_stage t \<or> t_crypt t \<and> k = 1"
    using assms by (auto simp: stages_def last_stage_def mmc_stage_def usb_stage_def split: if_splits)
  then show ?thesis using that by blast
qed

definition pieces :: "transfer \<Rightarrow> nat" where
  "pieces t = (t_blocks t + 31) div 32"

text \<open>Blocks in the first \<open>j\<close> pieces, and in piece \<open>j\<close>.\<close>

definition blocks_done :: "transfer \<Rightarrow> nat \<Rightarrow> nat" where
  "blocks_done t j = min (t_blocks t) (32 * j)"

definition piece_blocks :: "transfer \<Rightarrow> nat \<Rightarrow> nat" where
  "piece_blocks t j = min 32 (t_blocks t - 32 * j)"

definition piece_len :: "transfer \<Rightarrow> nat \<Rightarrow> int" where
  "piece_len t j = int (piece_blocks t j * 512)"

lemma nat_piece_len: "nat (piece_len t j) = 512 * piece_blocks t j"
  unfolding piece_len_def nat_int by simp

lemma piece_blocks_bounds: "j < pieces t \<Longrightarrow> 0 < piece_blocks t j" "piece_blocks t j \<le> 32"
  by (auto simp: piece_blocks_def pieces_def)

lemma blocks_done_0 [simp]: "blocks_done t 0 = 0"
  by (simp add: blocks_done_def)

lemma blocks_done_Suc: "blocks_done t (Suc j) = blocks_done t j + piece_blocks t j"
  by (auto simp: blocks_done_def piece_blocks_def)

lemma blocks_done_less: "j < pieces t \<Longrightarrow> blocks_done t j = 32 * j \<and> 32 * j < t_blocks t"
  by (auto simp: blocks_done_def pieces_def)

lemma blocks_done_all: "blocks_done t j = t_blocks t \<longleftrightarrow> pieces t \<le> j"
  by (auto simp: blocks_done_def pieces_def)

lemma blocks_done_le: "blocks_done t j \<le> t_blocks t"
  by (simp add: blocks_done_def)

lemma blocks_left:
  assumes "c < pieces t"
  shows "512 * (t_blocks t - blocks_done t c) = 512 * piece_blocks t c + 512 * (t_blocks t - blocks_done t (Suc c))"
    "t_blocks t - blocks_done t (Suc c) = 0 \<longleftrightarrow> Suc c = pieces t"
proof -
  have "blocks_done t c + piece_blocks t c \<le> t_blocks t" using blocks_done_le [of t "Suc c"] by (simp add: blocks_done_Suc)
  then show "512 * (t_blocks t - blocks_done t c) = 512 * piece_blocks t c + 512 * (t_blocks t - blocks_done t (Suc c))"
    by (simp add: blocks_done_Suc)
  have "t_blocks t - blocks_done t (Suc c) = 0 \<longleftrightarrow> blocks_done t (Suc c) = t_blocks t" using blocks_done_le [of t "Suc c"] by auto
  then show "t_blocks t - blocks_done t (Suc c) = 0 \<longleftrightarrow> Suc c = pieces t" using assms by (auto simp: blocks_done_all)
qed

section \<open>Blocks\<close>

definition sector_iv :: "transfer \<Rightarrow> nat \<Rightarrow> bytes" where
  "sector_iv t i = (case derive_iv (unat (of_nat (t_addr t) + of_nat i :: u32)) (t_fw t) of Some iv \<Rightarrow> iv | None \<Rightarrow> [])"

text \<open>Block \<open>i\<close> through the cipher: decrypted by a read, encrypted by a write.\<close>

definition crypt_block :: "transfer \<Rightarrow> nat \<Rightarrow> bytes \<Rightarrow> bytes" where
  "crypt_block t i b = t_aes t (t_write t) (take 16 (g_encrypt_key (t_fw t))) (sector_iv t i) b"

definition card_block :: "transfer \<Rightarrow> nat \<Rightarrow> bytes" where
  "card_block t i = t_card t (t_base t + of_nat i)"

definition source_block :: "transfer \<Rightarrow> nat \<Rightarrow> bytes" where
  "source_block t i = (if t_write t then slice (t_data t) (512 * i) 512 else card_block t i)"

text \<open>Block \<open>i\<close> as it arrives.\<close>

definition moved_block :: "transfer \<Rightarrow> nat \<Rightarrow> bytes" where
  "moved_block t i = (if t_crypt t then crypt_block t i (source_block t i) else source_block t i)"

definition all_moved :: "transfer \<Rightarrow> nat \<Rightarrow> bytes" where
  "all_moved t n = concat (map (moved_block t) [0..<n])"

text \<open>The parts outside work with blocks of 512 bytes, and there is a vector for every sector.\<close>

definition transfer_ok :: "transfer \<Rightarrow> bool" where
  "transfer_ok t \<longleftrightarrow>
     (\<forall>a. length (t_card t a) = 512) \<and> (t_write t \<longrightarrow> length (t_data t) = 512 * t_blocks t)
   \<and> 0 < t_blocks t \<and> t_blocks t < 65536
   \<and> (t_crypt t \<longrightarrow> (\<forall>e k iv b. length b = 512 \<longrightarrow> length (t_aes t e k iv b) = 512)
        \<and> rp_format (t_fw t) = ROOT_BLOCK_FORMAT_CURRENT
        \<and> (rp_db_format (t_fw t) = DB_FORMAT_CURRENT \<or> rp_db_format (t_fw t) = DB_FORMAT_2))"

lemma pieces_pos: "transfer_ok t \<Longrightarrow> 0 < pieces t"
  using div_le_mono [of 32 "t_blocks t + 31" 32] by (simp add: transfer_ok_def pieces_def)

lemma sector_iv_Some:
  "transfer_ok t \<Longrightarrow> t_crypt t \<Longrightarrow> derive_iv (unat (of_nat (t_addr t) + of_nat i :: u32)) (t_fw t) = Some (sector_iv t i)"
  by (auto simp: transfer_ok_def sector_iv_def derive_iv_def Let_def)

section \<open>The pieces on their way\<close>

definition source_piece :: "transfer \<Rightarrow> nat \<Rightarrow> bytes" where
  "source_piece t j = concat (map (\<lambda>i. source_block t (32 * j + i)) [0..<piece_blocks t j])"

text \<open>The first \<open>n\<close> blocks of a piece through the cipher.\<close>

definition crypt_blocks :: "transfer \<Rightarrow> nat \<Rightarrow> bytes \<Rightarrow> nat \<Rightarrow> bytes" where
  "crypt_blocks t j d n = concat (map (\<lambda>i. crypt_block t (32 * j + i) (slice d (512 * i) 512)) [0..<n])"

lemma crypt_blocks_Suc:
  "crypt_blocks t j d (Suc n) = crypt_blocks t j d n @ crypt_block t (32 * j + n) (slice d (512 * n) 512)"
  by (simp add: crypt_blocks_def)

definition stage_fun :: "transfer \<Rightarrow> nat \<Rightarrow> nat \<Rightarrow> bytes \<Rightarrow> bytes" where
  "stage_fun t k j d = (if t_crypt t \<and> k = 1 then crypt_blocks t j d (piece_blocks t j) else d)"

abbreviation (input) piece_at :: "transfer \<Rightarrow> nat \<Rightarrow> nat \<Rightarrow> bytes" where
  "piece_at t \<equiv> pipe (source_piece t) (stage_fun t)"

lemma length_concat_const: "(\<And>x. x \<in> set xs \<Longrightarrow> length (f x) = n) \<Longrightarrow> length (concat (map f xs)) = n * length xs"
  by (induction xs) auto

lemma upt_split: "i < k \<Longrightarrow> [0..<k] = [0..<i] @ i # [Suc i..<k]"
  using upt_add_eq_append [of 0 i "k - i"] upt_conv_Cons [of i k] by simp

lemma slice_concat_const:
  assumes "\<And>i. i < k \<Longrightarrow> length (f i) = n" "i < k"
  shows "slice (concat (map f [0..<k])) (n * i) n = f i"
proof -
  have "length (concat (map f [0..<i])) = n * i"
    using length_concat_const [of "[0..<i]" f n] assms by simp
  then show ?thesis unfolding upt_split [OF assms(2)] slice_def using assms by simp
qed

lemma length_source_block: "transfer_ok t \<Longrightarrow> i < t_blocks t \<Longrightarrow> length (source_block t i) = 512"
  by (auto simp: transfer_ok_def source_block_def card_block_def slice_def)

lemma length_moved_block: "transfer_ok t \<Longrightarrow> i < t_blocks t \<Longrightarrow> length (moved_block t i) = 512"
  using length_source_block [of t i] by (auto simp: moved_block_def crypt_block_def transfer_ok_def)

lemma piece_block_index: "i < piece_blocks t j \<Longrightarrow> 32 * j + i < t_blocks t"
  by (auto simp: piece_blocks_def)

lemma length_source_piece: "transfer_ok t \<Longrightarrow> length (source_piece t j) = 512 * piece_blocks t j"
  unfolding source_piece_def
  by (subst length_concat_const [where n = 512]) (simp_all add: length_source_block piece_block_index)

lemma source_piece_slice: "transfer_ok t \<Longrightarrow> i < piece_blocks t j \<Longrightarrow> slice (source_piece t j) (512 * i) 512 = source_block t (32 * j + i)"
  unfolding source_piece_def by (rule slice_concat_const) (simp_all add: length_source_block piece_block_index)

lemma piece_at_last:
  assumes "transfer_ok t"
  shows "piece_at t (last_stage t) j = concat (map (\<lambda>i. moved_block t (32 * j + i)) [0..<piece_blocks t j])"
proof (cases "t_crypt t")
  case True
  have "crypt_blocks t j (source_piece t j) (piece_blocks t j)
      = concat (map (\<lambda>i. moved_block t (32 * j + i)) [0..<piece_blocks t j])"
    unfolding crypt_blocks_def using source_piece_slice [OF assms] True
    by (intro arg_cong [of _ _ concat] map_cong) (simp_all add: moved_block_def)
  then show ?thesis using True by (simp add: last_stage_def stage_fun_def numeral_2_eq_2)
next
  case False
  then show ?thesis by (simp add: last_stage_def stage_fun_def source_piece_def moved_block_def)
qed

text \<open>Piece \<open>j\<close> of what consists of blocks.\<close>

lemma concat_piece:
  assumes "j < pieces t"
  shows "concat (map f [0..<blocks_done t (Suc j)])
    = concat (map f [0..<blocks_done t j]) @ concat (map (\<lambda>i. f (32 * j + i)) [0..<piece_blocks t j])"
proof -
  have b: "blocks_done t j = 32 * j" using blocks_done_less [OF assms] by simp
  have m: "map (\<lambda>i. f (32 * j + i)) [0..<piece_blocks t j] = map f [32 * j..<32 * j + piece_blocks t j]"
    by (rule nth_equalityI) simp_all
  have u: "[0..<32 * j + piece_blocks t j] = [0..<32 * j] @ [32 * j..<32 * j + piece_blocks t j]"
    by (rule upt_add_eq_append) simp
  show ?thesis unfolding blocks_done_Suc b m u map_append concat_append ..
qed

lemma moved_piece:
  "transfer_ok t \<Longrightarrow> j < pieces t \<Longrightarrow> all_moved t (blocks_done t (Suc j)) = all_moved t (blocks_done t j) @ piece_at t (last_stage t) j"
  unfolding all_moved_def concat_piece by (simp add: piece_at_last)

lemma concat_pieces:
  assumes "transfer_ok t" "j \<le> pieces t"
  shows "concat (map (piece_at t (last_stage t)) [0..<j]) = all_moved t (blocks_done t j)"
  using assms(2)
proof (induction j)
  case (Suc j)
  then show ?case using moved_piece [OF assms(1), of j] by simp
qed (simp add: all_moved_def)

lemma length_all_moved: "transfer_ok t \<Longrightarrow> n \<le> t_blocks t \<Longrightarrow> length (all_moved t n) = 512 * n"
  unfolding all_moved_def by (subst length_concat_const [where n = 512]) (simp_all add: length_moved_block)

section \<open>The card\<close>

lemma card_read_eq: "card_read c a n = concat (map (\<lambda>i. c (a + of_nat i)) [0..<n])"
proof (induction n arbitrary: a)
  case (Suc n)
  have "[0..<Suc n] = 0 # map Suc [0..<n]" by (simp add: map_Suc_upt upt_conv_Cons)
  then show ?case using Suc by (simp add: comp_def ac_simps del: upt_Suc)
qed simp

lemma card_read_piece:
  "j < pieces t \<Longrightarrow> \<not> t_write t
    \<Longrightarrow> card_read (t_card t) (t_base t + of_nat (blocks_done t j)) (piece_blocks t j) = source_piece t j"
  using blocks_done_less [of j t] by (simp add: card_read_eq source_piece_def source_block_def card_block_def add.assoc)

lemma card_write_append:
  "length d = 512 * n \<Longrightarrow> card_write c a (n + k) (d @ e) = card_write (card_write c a n d) (a + of_nat n) k e"
proof (induction n arbitrary: c a d)
  case (Suc n)
  then have "length (drop 512 d) = 512 * n" "take 512 (d @ e) = take 512 d" "drop 512 (d @ e) = drop 512 d @ e" by simp_all
  moreover have "a + 1 + of_nat n = a + of_nat (Suc n)" by simp
  ultimately show ?case using Suc.IH [of "drop 512 d"] unfolding add_Suc card_write.simps by metis
qed simp

lemma card_write_other: "(\<And>i. i < n \<Longrightarrow> x \<noteq> a + of_nat i) \<Longrightarrow> card_write c a n d x = c x"
proof (induction n arbitrary: c a d)
  case (Suc n)
  have "x \<noteq> a + 1 + of_nat i" if "i < n" for i using Suc.prems [of "Suc i"] that by (simp add: ac_simps)
  then show ?case using Suc.IH Suc.prems [of 0] by simp
qed simp

lemma card_write_block:
  assumes "length d = 512 * n" "n \<le> 2 ^ 32" "i < n"
  shows "card_write c a n d (a + of_nat i) = slice d (512 * i) 512"
proof -
  define e where "e = take (512 * i) d"
  have d: "d = e @ drop (512 * i) d" "length e = 512 * i" using assms by (simp_all add: e_def)
  obtain k where k: "n = i + Suc k" using assms(3) less_imp_Suc_add by auto
  have o: "a + of_nat i \<noteq> a + of_nat i + 1 + of_nat j" if "j < k" for j
  proof
    assume "a + of_nat i = a + of_nat i + 1 + of_nat j"
    then have "(of_nat (Suc j) :: u32) = 0" by (simp add: algebra_simps)
    then have "2 ^ 32 dvd Suc j" unfolding word_of_nat_eq_0_iff by simp
    then show False using dvd_imp_le [of "2 ^ 32" "Suc j"] that k assms(2) by simp
  qed
  have "card_write c a n (e @ drop (512 * i) d) (a + of_nat i)
      = card_write (card_write c a i e) (a + of_nat i) (Suc k) (drop (512 * i) d) (a + of_nat i)"
    unfolding k by (subst card_write_append [OF d(2)]) (rule refl)
  also have "\<dots> = take 512 (drop (512 * i) d)"
    unfolding card_write.simps by (subst card_write_other [OF o]) simp_all
  finally show ?thesis unfolding d(1) [symmetric] slice_def .
qed

text \<open>The card with \<open>j\<close> pieces through its stage.\<close>

definition card_at :: "transfer \<Rightarrow> nat \<Rightarrow> card" where
  "card_at t j = (if t_write t then card_write (t_card t) (t_base t) (blocks_done t j) (all_moved t (blocks_done t j)) else t_card t)"

lemma card_at_0 [simp]: "card_at t 0 = t_card t"
  by (simp add: card_at_def)

lemma take_card_write: "card_write c a n d = card_write c a n (take (512 * n) d)"
proof (induction n arbitrary: c a d)
  case (Suc n)
  have "drop 512 (take (512 * Suc n) d) = take (512 * n) (drop 512 d)" by (simp add: drop_take)
  moreover have "take 512 (take (512 * Suc n) d) = take 512 d" by simp
  ultimately show ?case using Suc.IH unfolding card_write.simps by metis
qed simp

lemma card_at_Suc:
  assumes "transfer_ok t" "t_write t" "j < pieces t" "take (512 * piece_blocks t j) d = piece_at t (last_stage t) j"
  shows "card_write (card_at t j) (t_base t + of_nat (blocks_done t j)) (piece_blocks t j) d = card_at t (Suc j)"
proof -
  have "card_at t (Suc j) = card_write (t_card t) (t_base t) (blocks_done t j + piece_blocks t j)
      (all_moved t (blocks_done t j) @ piece_at t (last_stage t) j)"
    using moved_piece [OF assms(1,3)] assms(2) by (simp add: card_at_def blocks_done_Suc)
  also have "\<dots> = card_write (card_at t j) (t_base t + of_nat (blocks_done t j)) (piece_blocks t j) (piece_at t (last_stage t) j)"
    using length_all_moved [OF assms(1) blocks_done_le] assms(2) by (subst card_write_append) (simp_all add: card_at_def)
  finally show ?thesis unfolding assms(4) [symmetric] by (simp add: take_card_write [symmetric])
qed

text \<open>What the host still has to send, with \<open>j\<close> pieces sent.\<close>

definition host_rest :: "transfer \<Rightarrow> nat \<Rightarrow> bytes" where
  "host_rest t j = drop (512 * blocks_done t j) (t_data t)"

lemma concat_slices: "length d = 512 * n \<Longrightarrow> concat (map (\<lambda>i. slice d (512 * i) 512) [0..<n]) = d"
proof (induction n arbitrary: d)
  case (Suc n)
  have "concat (map (\<lambda>i. slice d (512 * i) 512) [0..<n]) = concat (map (\<lambda>i. slice (take (512 * n) d) (512 * i) 512) [0..<n])"
    by (intro arg_cong [of _ _ concat] map_cong) (auto simp: slice_def drop_take min_def)
  also have "\<dots> = take (512 * n) d" using Suc by simp
  finally show ?case using Suc.prems by (simp add: slice_def)
qed simp

lemma host_piece:
  assumes "transfer_ok t" "t_write t" "j < pieces t"
  shows "take (512 * piece_blocks t j) (host_rest t j) = source_piece t j"
    "drop (512 * piece_blocks t j) (host_rest t j) = host_rest t (Suc j)"
proof -
  let ?d = "take (512 * piece_blocks t j) (host_rest t j)"
  have b: "blocks_done t j = 32 * j" using blocks_done_less [OF assms(3)] by simp
  have l: "length (t_data t) = 512 * t_blocks t" using assms by (simp add: transfer_ok_def)
  have "32 * j + piece_blocks t j \<le> t_blocks t" using blocks_done_le [of t "Suc j"] by (simp add: blocks_done_Suc b)
  then have "length ?d = 512 * piece_blocks t j" using l by (simp add: host_rest_def b)
  then have "?d = concat (map (\<lambda>i. slice ?d (512 * i) 512) [0..<piece_blocks t j])" by (rule concat_slices [symmetric])
  also have "\<dots> = source_piece t j"
    unfolding source_piece_def source_block_def using assms(2)
    by (intro arg_cong [of _ _ concat] map_cong) (auto simp: slice_def host_rest_def b drop_take min_def add.commute)
  finally show "?d = source_piece t j" .
  show "drop (512 * piece_blocks t j) (host_rest t j) = host_rest t (Suc j)"
    by (simp add: host_rest_def blocks_done_Suc add.commute)
qed

end
