(* ===== verification/Scsi_Inv.thy ===== *)
theory Scsi_Inv
  imports Scsi_Pieces
begin

text \<open>
  The invariant of a transfer: the card, the cipher and the USB side work on up to four buffers at
  the same time. Every stage that starts finds what it needs, and the end of a stage, once its own
  variables are up to date, leads to the invariant again or to the status of the command.
\<close>

section \<open>The invariant\<close>

text \<open>What has been sent: data and status wrappers.\<close>

definition sent :: "msc_out list \<Rightarrow> bytes list" where
  "sent xs = concat (map (\<lambda>x. case x of Msc_transmit d \<Rightarrow> [d] | _ \<Rightarrow> []) xs)"

definition statuses :: "msc_out list \<Rightarrow> msc_csw list" where
  "statuses xs = concat (map (\<lambda>x. case x of Msc_transmit_csw c \<Rightarrow> [c] | _ \<Rightarrow> []) xs)"

lemma sent_simps [simp]:
  "sent [] = []" "sent (x # xs) = (case x of Msc_transmit d \<Rightarrow> [d] | _ \<Rightarrow> []) @ sent xs" "sent (xs @ ys) = sent xs @ sent ys"
  "statuses [] = []" "statuses (x # xs) = (case x of Msc_transmit_csw c \<Rightarrow> [c] | _ \<Rightarrow> []) @ statuses xs"
  "statuses (xs @ ys) = statuses xs @ statuses ys"
  by (simp_all add: sent_def statuses_def)

text \<open>What does not change during the transfer.\<close>

definition volumes :: "msc \<Rightarrow> (nat \<Rightarrow> scsi_volume) \<times> nat \<times> u32 \<times> u32 \<times> u16" where
  "volumes m = (g_scsi_volume m, g_num_scsi_volumes m, g_scsi_region_size_blocks m, scsi_blk_nbr m, scsi_blk_size m)"

definition xfer_static :: "transfer \<Rightarrow> u32 \<Rightarrow> msc \<Rightarrow> bool" where
  "xfer_static t tag m \<longleftrightarrow>
     volumes m = t_volumes t \<and> maxBufferSize (usbBulkBufferFIFO m) = 16384
   \<and> fifo_on_complete m = (if t_write t then writeProcessingComplete else readProcessingComplete)
   \<and> processStage (usbBulkBufferFIFO m) (mmc_stage t) = (if t_write t then processMMCWriteBuffer else processMMCReadBuffer)
   \<and> processStage (usbBulkBufferFIFO m) (usb_stage t) = (if t_write t then processUSBWriteBuffer else processUSBReadBuffer)
   \<and> (t_crypt t \<longrightarrow> processStage (usbBulkBufferFIFO m) 1 = (if t_write t then processEncryptWriteBuffer else processDecryptReadBuffer))
   \<and> (\<forall>i < 4. length (buffers m i) = 16384)
   \<and> bot_state m = (if t_write t then BOT_DATA_OUT else BOT_DATA_IN)
   \<and> cbw_CB (cbw m) ! 0 = (if t_write t then 0x2A else 0x28) \<and> csw_dTag (csw m) = tag"

definition slot_data :: "msc \<Rightarrow> nat \<Rightarrow> bytes" where
  "slot_data m i = take (nat (bf_bufferSize (usbBulkBufferFIFO m) i)) (buffers m i)"

text \<open>The counters of the card, the cipher and the USB side, with \<open>c k\<close> pieces through stage \<open>k\<close>.\<close>

definition xfer_counters :: "transfer \<Rightarrow> (nat \<Rightarrow> nat) \<Rightarrow> msc \<Rightarrow> bool" where
  "xfer_counters t c m \<longleftrightarrow>
     mmcDataToTransfer m = int (512 * (t_blocks t - blocks_done t (c (mmc_stage t))))
   \<and> storage_card_addr m = t_base t + of_nat (blocks_done t (c (mmc_stage t)))
   \<and> scsi_blk_len m = 512 * (t_blocks t - blocks_done t (c (usb_stage t)))
   \<and> csw_dDataResidue (csw m) = of_nat (512 * (t_blocks t - blocks_done t (c (usb_stage t))))
   \<and> (t_crypt t \<longrightarrow> g_cryptDataToTransfer m = int (512 * (t_blocks t - blocks_done t (c 1))))"

text \<open>The variables of the stages in \<open>P\<close>, which are at work, and the sector the cipher is at.\<close>

definition mmc_regs :: "transfer \<Rightarrow> (nat \<Rightarrow> nat) \<Rightarrow> msc \<Rightarrow> bool" where
  "mmc_regs t c m \<longleftrightarrow>
     mmcStageIdx m = mmc_stage t \<and> mmcReadLen m = piece_len t (c (mmc_stage t))
   \<and> (if t_write t then mmcBufferWrite m = bf_stageReadIndex (usbBulkBufferFIFO m) (mmc_stage t) mod 4
      else mmcBufferRead m = bf_stageWriteIndex (usbBulkBufferFIFO m) (mmc_stage t) mod 4)"

definition usb_regs :: "transfer \<Rightarrow> (nat \<Rightarrow> nat) \<Rightarrow> msc \<Rightarrow> bool" where
  "usb_regs t c m \<longleftrightarrow>
     h_stageIdx m = usb_stage t \<and> h_writeLen m = piece_len t (c (usb_stage t))
   \<and> (if t_write t then h_writeBuffer m = bf_stageWriteIndex (usbBulkBufferFIFO m) (usb_stage t) mod 4 else g_usb_transmitting m)"

definition crypt_regs :: "transfer \<Rightarrow> (nat \<Rightarrow> nat) \<Rightarrow> nat \<Rightarrow> msc \<Rightarrow> bool" where
  "crypt_regs t c i m \<longleftrightarrow>
     i < piece_blocks t (c 1) \<and> g_cryptStageIdx m = 1 \<and> g_cryptTxLen m = piece_len t (c 1) \<and> g_scsi_aes_encrypt m = t_write t
   \<and> g_scsi_num_aes_sector m = of_nat (piece_blocks t (c 1) - i)
   \<and> g_scsi_aes_read m = (bf_stageReadIndex (usbBulkBufferFIFO m) 1 mod 4, 512 * i)
   \<and> g_scsi_aes_write m = (bf_stageWriteIndex (usbBulkBufferFIFO m) 1 mod 4, 512 * i)
   \<and> g_scsi_aes_key m = take 16 (g_encrypt_key (t_fw t)) \<and> g_scsi_cur_aes_iv m = sector_iv t (32 * c 1 + i)
   \<and> take (512 * i) (buffers m (bf_stageWriteIndex (usbBulkBufferFIFO m) 1 mod 4)) = crypt_blocks t (c 1) (piece_at t 0 (c 1)) i"

definition xfer_regs :: "transfer \<Rightarrow> (nat \<Rightarrow> nat) \<Rightarrow> nat set \<Rightarrow> nat \<Rightarrow> msc \<Rightarrow> bool" where
  "xfer_regs t c P i m \<longleftrightarrow>
     (mmc_stage t \<in> P \<longrightarrow> mmc_regs t c m) \<and> (usb_stage t \<in> P \<longrightarrow> usb_regs t c m)
   \<and> (t_crypt t \<longrightarrow> 1 \<in> P \<longrightarrow> crypt_regs t c i m)
   \<and> (t_crypt t \<longrightarrow> g_scsi_cur_aes_sector m = of_nat (t_addr t) + of_nat (blocks_done t (c 1) + (if 1 \<in> P then i else 0)))"

text \<open>A read sends a piece as soon as its last stage starts.\<close>

definition pieces_out :: "transfer \<Rightarrow> (nat \<Rightarrow> nat) \<Rightarrow> nat set \<Rightarrow> bytes list" where
  "pieces_out t c P =
     (if t_write t then []
      else map (piece_at t (last_stage t)) [0..<c (usb_stage t) + (if usb_stage t \<in> P then 1 else 0)])"

definition xfer_core :: "transfer \<Rightarrow> u32 \<Rightarrow> bytes list \<Rightarrow> msc_csw list \<Rightarrow> (nat \<Rightarrow> nat) \<Rightarrow> nat set \<Rightarrow> nat \<Rightarrow> msc \<Rightarrow> bool" where
  "xfer_core t tag d0 s0 c P i m \<longleftrightarrow>
     xfer_static t tag m \<and> fifo_inv (stages t) 4 (pieces t) c (usbBulkBufferFIFO m)
   \<and> fifo_data (source_piece t) (stage_fun t) (piece_len t) (stages t) 4 c (usbBulkBufferFIFO m) (slot_data m)
   \<and> xfer_counters t c m \<and> xfer_regs t c P i m
   \<and> sent (msc_outs m) = d0 @ pieces_out t c P
   \<and> statuses (msc_outs m) = s0"

text \<open>Starting a stage touches its own variables and the output only.\<close>

definition xfer_frame :: "msc \<Rightarrow> _" where
  "xfer_frame m =
     (usbBulkBufferFIFO m, buffers m, fifo_on_complete m, bot_state m, cbw m, csw m, mmcDataToTransfer m, storage_card_addr m,
      scsi_blk_len m, g_cryptDataToTransfer m, volumes m)"

lemma xfer_frameD:
  assumes "xfer_frame m' = xfer_frame m"
  shows "xfer_static t tag m' = xfer_static t tag m" "xfer_counters t c m' = xfer_counters t c m" "slot_data m' = slot_data m"
    "usbBulkBufferFIFO m' = usbBulkBufferFIFO m" "buffers m' = buffers m"
  using assms by (simp_all add: xfer_frame_def xfer_static_def xfer_counters_def slot_data_def fun_eq_iff)

lemma xfer_core_frame:
  assumes "xfer_core t tag d0 s0 c P i m" "xfer_frame m' = xfer_frame m" "xfer_regs t c P' i' m'"
    and "sent (msc_outs m') = d0 @ pieces_out t c P'" and "statuses (msc_outs m') = statuses (msc_outs m)"
  shows "xfer_core t tag d0 s0 c P' i' m'"
  using assms by (simp add: xfer_core_def xfer_frameD [OF assms(2)])

lemmas frame_simps = xfer_frame_def volumes_def storage_card_addr_def msc_put_def

section \<open>The start of a stage\<close>

lemma start_call_eq:
  "bufferCount bf = 4 \<Longrightarrow> start_call bf k = Call_stage (processStage bf k) (bf_bufferSize bf (bf_stageReadIndex bf k mod 4))
     (bf_bufferData bf (bf_stageReadIndex bf k mod 4)) (bf_stageReadIndex bf k mod 4) (bf_stageWriteIndex bf k mod 4) k"
  by (simp add: start_call_def Let_def)

lemma xfer_core_fifo:
  assumes "xfer_core t tag d0 s0 c P i m"
  shows "fifo_inv (stages t) 4 (pieces t) c (usbBulkBufferFIFO m)" "bufferCount (usbBulkBufferFIFO m) = 4"
    "fifo_index (stages t) 4 (pieces t) c (usbBulkBufferFIFO m)"
  using assms by (simp_all add: xfer_core_def fifo_inv_def fifo_index_def)

text \<open>The piece in front of a stage that is ready.\<close>

lemma front_piece:
  assumes r: "xfer_core t tag d0 s0 c P i m" and k: "0 < k" "k < stages t" "stage_ready (stages t) 4 (pieces t) c k"
  shows "bf_bufferSize (usbBulkBufferFIFO m) (bf_stageReadIndex (usbBulkBufferFIFO m) k mod 4) = piece_len t (c k)"
    "slot_data m (bf_stageReadIndex (usbBulkBufferFIFO m) k mod 4) = piece_at t (k - 1) (c k)"
proof -
  have "bf_stageReadIndex (usbBulkBufferFIFO m) k = read_off (stages t) k + c k"
    using xfer_core_fifo(3) [OF r] k by (simp add: fifo_index_def)
  moreover have "waiting (stages t) c k (c k)" using k by (simp add: waiting_def stage_ready_def)
  ultimately show "bf_bufferSize (usbBulkBufferFIFO m) (bf_stageReadIndex (usbBulkBufferFIFO m) k mod 4) = piece_len t (c k)"
    "slot_data m (bf_stageReadIndex (usbBulkBufferFIFO m) k mod 4) = piece_at t (k - 1) (c k)"
    using r by (simp_all add: xfer_core_def fifo_data_def)
qed

lemma start_mmc:
  assumes r: "xfer_core t tag d0 s0 c P i m" and k: "stage_ready (stages t) 4 (pieces t) c (mmc_stage t)" "mmc_stage t \<notin> P"
  obtains m' where "fifo_call (t_fw t) (start_call (usbBulkBufferFIFO m) (mmc_stage t)) m = Some m'"
    "xfer_core t tag d0 s0 c (insert (mmc_stage t) P) i m'" "usbBulkBufferFIFO m' = usbBulkBufferFIFO m"
proof -
  let ?bf = "usbBulkBufferFIFO m" and ?k = "mmc_stage t"
  let ?r = "bf_stageReadIndex ?bf ?k mod 4" and ?w = "bf_stageWriteIndex ?bf ?k mod 4"
  have st: "processStage ?bf ?k = (if t_write t then processMMCWriteBuffer else processMMCReadBuffer)" "maxBufferSize ?bf = 16384"
    using r by (simp_all add: xfer_core_def xfer_static_def)
  have ck: "c ?k < pieces t" using k(1) by (simp add: stage_ready_def split: if_splits)
  have d: "mmcDataToTransfer m = int (512 * (t_blocks t - blocks_done t (c ?k)))" using r by (simp add: xfer_core_def xfer_counters_def)
  have len: "(if mmcDataToTransfer m \<le> 16384 then mmcDataToTransfer m else 16384) = piece_len t (c ?k)"
    using blocks_done_less [OF ck] by (auto simp: d piece_len_def piece_blocks_def)
  have sz: "bf_bufferSize ?bf ?r = piece_len t (c ?k)" if "t_write t"
    using front_piece [OF r _ _ k(1)] that by (simp add: mmc_stage_def)
  let ?m = "msc_put Msc_emmc_queue (if t_write t then m\<lparr>mmcStageIdx := ?k, mmcReadLen := piece_len t (c ?k), mmcBufferWrite := ?r\<rparr>
     else m\<lparr>mmcBufferRead := ?w, mmcStageIdx := ?k, mmcReadLen := piece_len t (c ?k)\<rparr>)"
  have "fifo_call (t_fw t) (start_call ?bf ?k) m = Some ?m"
    using len sz by (simp add: start_call_eq [OF xfer_core_fifo(2) [OF r]] st processMMCReadBuffer_fn_def processMMCWriteBuffer_fn_def Let_def)
  moreover have "xfer_core t tag d0 s0 c (insert ?k P) i ?m"
    by (rule xfer_core_frame [OF r])
      (use r stages_crypt [of t] in \<open>auto simp: xfer_core_def frame_simps xfer_regs_def mmc_regs_def usb_regs_def crypt_regs_def pieces_out_def\<close>)
  moreover have "usbBulkBufferFIFO ?m = ?bf" by (simp add: msc_put_def)
  ultimately show ?thesis by (rule that)
qed

lemma start_usb:
  assumes r: "xfer_core t tag d0 s0 c P i m" and k: "stage_ready (stages t) 4 (pieces t) c (usb_stage t)" "usb_stage t \<notin> P"
  obtains m' where "fifo_call (t_fw t) (start_call (usbBulkBufferFIFO m) (usb_stage t)) m = Some m'"
    "xfer_core t tag d0 s0 c (insert (usb_stage t) P) i m'" "usbBulkBufferFIFO m' = usbBulkBufferFIFO m"
proof (cases "t_write t")
  case True
  let ?bf = "usbBulkBufferFIFO m"
  let ?w = "bf_stageWriteIndex ?bf 0 mod 4" and ?len = "piece_len t (c 0)"
  have u: "usb_stage t = 0" "mmc_stage t \<noteq> 0" using True by (simp_all add: usb_stage_def mmc_stage_def)
  have st: "processStage ?bf 0 = processUSBWriteBuffer" "maxBufferSize ?bf = 16384"
    using r True u by (simp_all add: xfer_core_def xfer_static_def)
  have c0: "c 0 < pieces t" using k(1) u by (simp add: stage_ready_def)
  have d: "scsi_blk_len m = 512 * (t_blocks t - blocks_done t (c 0))"
    using r u unfolding xfer_core_def xfer_counters_def by simp
  have len: "int (if scsi_blk_len m \<le> 16384 then scsi_blk_len m else 16384) = ?len"
    using blocks_done_less [OF c0] by (auto simp: d piece_len_def piece_blocks_def)
  let ?m = "msc_put (Msc_receive ?w (if scsi_blk_len m \<le> 16384 then scsi_blk_len m else 16384))
     (m\<lparr>h_stageIdx := 0, h_writeBuffer := ?w, h_writeLen := ?len\<rparr>)"
  have "fifo_call (t_fw t) (start_call ?bf 0) m = Some ?m"
    by (simp only: start_call_eq [OF xfer_core_fifo(2) [OF r]] st processUSBWriteBuffer_fn_def len [symmetric] Let_def fifo_call.simps stage_fn.case)
  moreover have "xfer_core t tag d0 s0 c (insert 0 P) i ?m"
    by (rule xfer_core_frame [OF r])
      (use r k(2) stages_crypt [of t] True in \<open>auto simp: xfer_core_def frame_simps xfer_regs_def mmc_regs_def usb_regs_def crypt_regs_def pieces_out_def u\<close>)
  moreover have "usbBulkBufferFIFO ?m = ?bf" by (simp add: msc_put_def)
  ultimately show ?thesis using that u by metis
next
  case False
  let ?bf = "usbBulkBufferFIFO m" and ?k = "usb_stage t"
  let ?r = "bf_stageReadIndex ?bf ?k mod 4" and ?w = "bf_stageWriteIndex ?bf ?k mod 4"
  have u: "?k = last_stage t" using False by (simp add: usb_stage_def)
  have st: "processStage ?bf ?k = processUSBReadBuffer" using r False by (simp add: xfer_core_def xfer_static_def)
  have rw: "?r = ?w" using xfer_core_fifo(3) [OF r] by (simp add: u fifo_index_def read_off_def write_off_def)
  have kn: "0 < ?k" "?k < stages t" by (simp_all add: u)
  note f = front_piece [OF r kn k(1)]
  have data: "take (nat (piece_len t (c ?k))) (buffers m ?w) = piece_at t (?k - 1) (c ?k)"
    using f by (simp add: slot_data_def rw)
  have last: "piece_at t (?k - 1) (c ?k) = piece_at t (last_stage t) (c ?k)"
    by (auto simp: u last_stage_def stage_fun_def numeral_2_eq_2)
  let ?m = "msc_put (Msc_transmit (piece_at t (last_stage t) (c ?k)))
     (m\<lparr>g_usb_transmitting := True, h_stageIdx := ?k, h_writeBuffer := ?w, h_writeLen := piece_len t (c ?k)\<rparr>)"
  have "fifo_call (t_fw t) (start_call ?bf ?k) m = Some ?m"
    using f data last by (simp add: start_call_eq [OF xfer_core_fifo(2) [OF r]] st processUSBReadBuffer_fn_def)
  moreover have "xfer_core t tag d0 s0 c (insert ?k P) i ?m"
    by (rule xfer_core_frame [OF r])
      (use r k(2) stages_crypt [of t] False in \<open>auto simp: xfer_core_def frame_simps xfer_regs_def mmc_regs_def
         usb_regs_def crypt_regs_def pieces_out_def\<close>)
  moreover have "usbBulkBufferFIFO ?m = ?bf" by (simp add: msc_put_def)
  ultimately show ?thesis by (rule that)
qed

lemma start_crypt:
  assumes r: "xfer_core t tag d0 s0 c P i m" and t: "transfer_ok t" "t_crypt t"
    and k: "stage_ready (stages t) 4 (pieces t) c 1" "1 \<notin> P"
  obtains m' where "fifo_call (t_fw t) (start_call (usbBulkBufferFIFO m) 1) m = Some m'"
    "xfer_core t tag d0 s0 c (insert 1 P) 0 m'" "usbBulkBufferFIFO m' = usbBulkBufferFIFO m"
proof -
  let ?bf = "usbBulkBufferFIFO m"
  let ?r = "bf_stageReadIndex ?bf 1 mod 4" and ?w = "bf_stageWriteIndex ?bf 1 mod 4" and ?n = "piece_blocks t (c 1)"
  have st: "processStage ?bf 1 = (if t_write t then processEncryptWriteBuffer else processDecryptReadBuffer)"
    using r t(2) by (simp add: xfer_core_def xfer_static_def)
  have c1: "c 1 < pieces t" using k(1) by (simp add: stage_ready_def)
  have b: "blocks_done t (c 1) = 32 * c 1" "0 < ?n" using blocks_done_less [OF c1] piece_blocks_bounds(1) [OF c1] by simp_all
  have sz: "bf_bufferSize ?bf ?r = piece_len t (c 1)" using front_piece [OF r _ _ k(1)] by simp
  have len: "piece_len t (c 1) mod 512 = 0" "(of_int (piece_len t (c 1) div 512) :: u32) = of_nat ?n"
    by (simp_all add: piece_len_def)
  have sec: "g_scsi_cur_aes_sector m = of_nat (t_addr t) + of_nat (32 * c 1)"
    using r t(2) k(2) b by (simp add: xfer_core_def xfer_regs_def)
  note iv = sector_iv_Some [OF t, of "32 * c 1"]
  let ?m = "aes_sector (m\<lparr>g_cryptStageIdx := 1, g_cryptTxLen := piece_len t (c 1), g_scsi_num_aes_sector := of_nat ?n,
     g_scsi_aes_read := (?r, 0), g_scsi_aes_write := (?w, 0), g_scsi_aes_encrypt := t_write t,
     g_scsi_cur_aes_iv := sector_iv t (32 * c 1), g_scsi_aes_key := take 16 (g_encrypt_key (t_fw t))\<rparr>)"
  have "fifo_call (t_fw t) (start_call ?bf 1) m = Some ?m"
    using iv sec sz len st
    by (simp add: start_call_eq [OF xfer_core_fifo(2) [OF r]] processDecryptReadBuffer_fn_def processEncryptWriteBuffer_fn_def
        process_crypt_def set_crypt_config_def)
  moreover have "xfer_core t tag d0 s0 c (insert 1 P) 0 ?m"
  proof (rule xfer_core_frame [OF r])
    have "xfer_regs t c P i m" using r by (simp add: xfer_core_def)
    then have "mmc_stage t \<in> P \<Longrightarrow> mmc_regs t c m" "usb_stage t \<in> P \<Longrightarrow> usb_regs t c m" by (simp_all add: xfer_regs_def)
    moreover have "mmc_regs t c ?m = mmc_regs t c m" "usb_regs t c ?m = usb_regs t c m"
      by (simp_all add: mmc_regs_def usb_regs_def msc_put_def aes_sector_def)
    moreover have "crypt_regs t c 0 ?m" using b(2) by (simp add: crypt_regs_def msc_put_def aes_sector_def crypt_blocks_def)
    moreover have "g_scsi_cur_aes_sector ?m = of_nat (t_addr t) + of_nat (blocks_done t (c 1))"
      unfolding b(1) sec [symmetric] by (simp add: msc_put_def aes_sector_def)
    ultimately show "xfer_regs t c (insert 1 P) 0 ?m"
      using stages_crypt [OF t(2)] by (simp add: xfer_regs_def)
    show "sent (msc_outs ?m) = d0 @ pieces_out t c (insert 1 P)"
      using r stages_crypt [OF t(2)] by (simp add: xfer_core_def msc_put_def aes_sector_def pieces_out_def)
  qed (simp_all add: frame_simps aes_sector_def)
  moreover have "usbBulkBufferFIFO ?m = ?bf" by (simp add: msc_put_def aes_sector_def)
  ultimately show ?thesis by (rule that)
qed

text \<open>Starting several stages.\<close>

definition sector_pos :: "transfer \<Rightarrow> nat set \<Rightarrow> nat \<Rightarrow> nat" where
  "sector_pos t S i = (if t_crypt t \<and> 1 \<in> S then 0 else i)"

lemma sector_pos_other: "sector_pos t {mmc_stage t} i = i" "sector_pos t {usb_stage t} i = i"
  using stages_crypt [of t] by (auto simp: sector_pos_def)

lemma start_stage:
  assumes r: "xfer_core t tag d0 s0 c P i m" and t: "transfer_ok t"
    and k: "k < stages t" "stage_ready (stages t) 4 (pieces t) c k" "k \<notin> P"
  obtains m' where "fifo_call (t_fw t) (start_call (usbBulkBufferFIFO m) k) m = Some m'"
    "xfer_core t tag d0 s0 c (insert k P) (sector_pos t {k} i) m'" "usbBulkBufferFIFO m' = usbBulkBufferFIFO m"
  using k(1)
proof (cases rule: stage_cases)
  case 1
  obtain m' where "fifo_call (t_fw t) (start_call (usbBulkBufferFIFO m) (mmc_stage t)) m = Some m'"
    "xfer_core t tag d0 s0 c (insert (mmc_stage t) P) i m'" "usbBulkBufferFIFO m' = usbBulkBufferFIFO m"
    by (rule start_mmc [OF r k(2,3) [unfolded 1]])
  then show ?thesis using that [of m'] by (simp add: 1 sector_pos_other)
next
  case 2
  obtain m' where "fifo_call (t_fw t) (start_call (usbBulkBufferFIFO m) (usb_stage t)) m = Some m'"
    "xfer_core t tag d0 s0 c (insert (usb_stage t) P) i m'" "usbBulkBufferFIFO m' = usbBulkBufferFIFO m"
    by (rule start_usb [OF r k(2,3) [unfolded 2]])
  then show ?thesis using that [of m'] by (simp add: 2 sector_pos_other)
next
  case 3
  obtain m' where "fifo_call (t_fw t) (start_call (usbBulkBufferFIFO m) 1) m = Some m'"
    "xfer_core t tag d0 s0 c (insert 1 P) 0 m'" "usbBulkBufferFIFO m' = usbBulkBufferFIFO m"
    by (rule start_crypt [OF r t 3(1) k(2,3) [unfolded 3(2)]])
  then show ?thesis using that [of m'] by (simp add: 3 sector_pos_def)
qed

lemma start_list:
  assumes "xfer_core t tag d0 s0 c P i m" "transfer_ok t" "distinct ks"
    and "\<forall>k \<in> set ks. k < stages t \<and> stage_ready (stages t) 4 (pieces t) c k \<and> k \<notin> P"
  shows "\<exists>m'. fifo_calls (t_fw t) (map (start_call (usbBulkBufferFIFO m)) ks) m = Some m'
    \<and> xfer_core t tag d0 s0 c (P \<union> set ks) (sector_pos t (set ks) i) m'"
  using assms
proof (induction ks arbitrary: P i m)
  case Nil
  then show ?case by (simp add: sector_pos_def)
next
  case (Cons k ks)
  have k: "k < stages t" "stage_ready (stages t) 4 (pieces t) c k" "k \<notin> P" using Cons.prems(4) by simp_all
  obtain m1 where m1: "fifo_call (t_fw t) (start_call (usbBulkBufferFIFO m) k) m = Some m1"
    "xfer_core t tag d0 s0 c (insert k P) (sector_pos t {k} i) m1" "usbBulkBufferFIFO m1 = usbBulkBufferFIFO m"
    by (rule start_stage [OF Cons.prems(1,2) k])
  obtain m2 where m2: "fifo_calls (t_fw t) (map (start_call (usbBulkBufferFIFO m)) ks) m1 = Some m2"
    "xfer_core t tag d0 s0 c (insert k P \<union> set ks) (sector_pos t (set ks) (sector_pos t {k} i)) m2"
    using Cons.IH [OF m1(2) Cons.prems(2)] Cons.prems(3,4) m1(3) by auto
  have "sector_pos t (set ks) (sector_pos t {k} i) = sector_pos t (set (k # ks)) i" by (auto simp: sector_pos_def)
  with m1(1) m2 show ?case by (intro exI [of _ m2]) simp
qed

lemma fifo_calls_append: "fifo_calls s (xs @ ys) m = fifo_calls s xs m \<bind> fifo_calls s ys"
  by (induction xs arbitrary: m) (simp_all split: bind_splits)

section \<open>The end of a stage\<close>

definition at_work :: "transfer \<Rightarrow> (nat \<Rightarrow> nat) \<Rightarrow> nat set" where
  "at_work t c = {k. k < stages t \<and> stage_ready (stages t) 4 (pieces t) c k}"

text \<open>The number of sectors of the current piece that the cipher is through with.\<close>

definition sector_at :: "transfer \<Rightarrow> (nat \<Rightarrow> nat) \<Rightarrow> nat \<Rightarrow> nat" where
  "sector_at t c i = (if t_crypt t \<and> 1 \<in> at_work t c then i else 0)"

text \<open>Between two events: the stages at work are those that have something to do.\<close>

definition xfer_inv :: "transfer \<Rightarrow> u32 \<Rightarrow> bytes list \<Rightarrow> msc_csw list \<Rightarrow> (nat \<Rightarrow> nat) \<Rightarrow> nat \<Rightarrow> msc \<Rightarrow> bool" where
  "xfer_inv t tag d0 s0 c i m \<longleftrightarrow> xfer_core t tag d0 s0 c (at_work t c) i m"

text \<open>After the last one.\<close>

definition xfer_finished :: "transfer \<Rightarrow> u32 \<Rightarrow> bytes list \<Rightarrow> msc_csw list \<Rightarrow> msc \<Rightarrow> bool" where
  "xfer_finished t tag d0 s0 m \<longleftrightarrow>
     bot_state m = BOT_IDLE \<and> volumes m = t_volumes t
   \<and> sent (msc_outs m) = d0 @ (if t_write t then [] else map (piece_at t (last_stage t)) [0..<pieces t])
   \<and> (\<exists>st. statuses (msc_outs m) = s0 @ [st] \<and> csw_bStatus st = CSW_CMD_PASSED \<and> csw_dTag st = tag
        \<and> csw_dSignature st = USBD_BOT_CSW_SIGNATURE \<and> csw_dDataResidue st = 0)
   \<and> maxBufferSize (usbBulkBufferFIFO m) = 16384 \<and> bufferCount (usbBulkBufferFIFO m) = 4 \<and> (\<forall>i < 4. length (buffers m i) = 16384)
   \<and> numStages (usbBulkBufferFIFO m) = stages t \<and> (\<forall>k < stages t. \<not> bf_stageProcessing (usbBulkBufferFIFO m) k)"

lemma stage_done_maxBufferSize: "maxBufferSize (snd (stage_done k len dat th bf)) = maxBufferSize bf"
proof -
  have s: "maxBufferSize (snd (start_unless_stalled j bf)) = maxBufferSize bf" for j and bf :: "'a bufferFIFO"
    by (simp add: start_unless_stalled_def bufferFIFO_execStage_def Let_def)
  have "maxBufferSize (snd (bufferFIFO_processingComplete k len dat bf)) = maxBufferSize bf" for bf :: "'a bufferFIFO"
    by (simp add: bufferFIFO_processingComplete_def Let_def case_prod_beta s)
  then show ?thesis by (simp add: stage_done_def bufferFIFO_stallStage_def)
qed

lemma at_work_started:
  assumes "k \<in> at_work t c"
  defines "c' \<equiv> c(k := c k + 1)"
  defines "ks \<equiv> filter (started (stages t) 4 (pieces t) c k) [k, (k + 1) mod stages t]"
  shows "at_work t c' = (at_work t c - {k}) \<union> set ks" "distinct ks"
    "\<forall>j \<in> set ks. j < stages t \<and> stage_ready (stages t) 4 (pieces t) c' j \<and> j \<notin> at_work t c - {k}"
proof -
  have k: "k < stages t" "stage_ready (stages t) 4 (pieces t) c k" using assms(1) by (simp_all add: at_work_def)
  define x where "x = (k + 1) mod stages t"
  have x: "x < stages t" "x \<noteq> k" using k(1) stages_last(4) [of t] by (auto simp: x_def mod_Suc simp del: stages_last)
  have xe: "Suc k mod stages t = x" by (simp add: x_def)
  show "distinct ks" using x(2) unfolding ks_def x_def [symmetric] by simp
  show "\<forall>j \<in> set ks. j < stages t \<and> stage_ready (stages t) 4 (pieces t) c' j \<and> j \<notin> at_work t c - {k}"
    using x k(1) unfolding ks_def x_def [symmetric] by (auto simp: started_def x_def [symmetric] c'_def at_work_def)
  show "at_work t c' = (at_work t c - {k}) \<union> set ks"
  proof (rule set_eqI)
    fix j
    show "j \<in> at_work t c' \<longleftrightarrow> j \<in> (at_work t c - {k}) \<union> set ks"
    proof (cases "j < stages t \<and> j \<noteq> k \<and> j \<noteq> x")
      case True
      then show ?thesis
        using stage_ready_other [OF k(1), of j 4 "pieces t" c, folded x_def]
        by (auto simp: at_work_def c'_def ks_def xe started_def)
    next
      case False
      then show ?thesis
        using x k stage_ready_next [OF _ k(1), of 4 "pieces t" c, folded x_def]
        by (auto simp: at_work_def c'_def ks_def xe started_def)
    qed
  qed
qed

lemma xfer_inv_core: "xfer_inv t tag d0 s0 c i m \<Longrightarrow> xfer_core t tag d0 s0 c (at_work t c) i m"
  by (simp add: xfer_inv_def)

lemma at_work_processing:
  "xfer_inv t tag d0 s0 c i m \<Longrightarrow> k < stages t \<Longrightarrow> bf_stageProcessing (usbBulkBufferFIFO m) k \<longleftrightarrow> k \<in> at_work t c"
  by (simp add: xfer_inv_def xfer_core_def fifo_inv_def at_work_def)

lemma xfer_regs_fifo:
  assumes "xfer_regs t c P i m"
    and "\<And>j. j \<in> P \<Longrightarrow> bf_stageReadIndex bf j = bf_stageReadIndex (usbBulkBufferFIFO m) j
      \<and> bf_stageWriteIndex bf j = bf_stageWriteIndex (usbBulkBufferFIFO m) j"
  shows "xfer_regs t c P i (m\<lparr>usbBulkBufferFIFO := bf\<rparr>)"
  using assms by (simp add: xfer_regs_def mmc_regs_def usb_regs_def crypt_regs_def)

text \<open>When the last piece is through, the completion sends the status.\<close>

lemma xfer_complete:
  assumes r: "xfer_inv t tag d0 s0 c i m" and "\<forall>k < stages t. c k = pieces t"
  shows "\<exists>m'. fifo_calls (t_fw t) [Call_complete] m = Some m' \<and> xfer_finished t tag d0 s0 m'"
proof -
  have c: "c (mmc_stage t) = pieces t" "c (usb_stage t) = pieces t" using assms(2) by simp_all
  have none: "at_work t c = {}" using assms(2) by (auto simp: at_work_def stage_ready_def)
  have b: "blocks_done t (pieces t) = t_blocks t" by (simp add: blocks_done_all)
  have m: "mmcDataToTransfer m = 0" "csw_dDataResidue (csw m) = 0" "csw_dTag (csw m) = tag" "volumes m = t_volumes t"
    "fifo_on_complete m = (if t_write t then writeProcessingComplete else readProcessingComplete)"
    "sent (msc_outs m) = d0 @ (if t_write t then [] else map (piece_at t (last_stage t)) [0..<pieces t])" "statuses (msc_outs m) = s0"
    "maxBufferSize (usbBulkBufferFIFO m) = 16384" "\<forall>i < 4. length (buffers m i) = 16384"
    using r c b by (simp_all add: xfer_inv_def xfer_core_def none xfer_counters_def xfer_static_def pieces_out_def)
  have "\<forall>k < stages t. \<not> bf_stageProcessing (usbBulkBufferFIFO m) k" using at_work_processing [OF r] none by simp
  moreover have "numStages (usbBulkBufferFIFO m) = stages t" "bufferCount (usbBulkBufferFIFO m) = 4"
    using xfer_core_fifo(2,3) [OF xfer_inv_core [OF r]] by (simp_all add: fifo_index_def)
  ultimately show ?thesis
    using m by (auto simp: readProcessingComplete_fn_def writeProcessingComplete_fn_def xfer_finished_def MSC_BOT_SendCSW_def msc_put_def
        volumes_def Let_def)
qed

text \<open>Either of the two, with \<open>x\<close> sectors of a piece through the cipher.\<close>

definition xfer_next :: "transfer \<Rightarrow> u32 \<Rightarrow> bytes list \<Rightarrow> msc_csw list \<Rightarrow> (nat \<Rightarrow> nat) \<Rightarrow> nat \<Rightarrow> msc \<Rightarrow> bool" where
  "xfer_next t tag d0 s0 c x m \<longleftrightarrow>
     (if \<forall>k < stages t. c k = pieces t then xfer_finished t tag d0 s0 m
      else \<exists>i. xfer_inv t tag d0 s0 c i m \<and> sector_at t c i = x)"

text \<open>
  The end of a stage, once its own variables are up to date (\<open>m1\<close>): the FIFO takes over, and the
  stages it starts find what they need.
\<close>

lemma xfer_stage_end:
  assumes r: "xfer_inv t tag d0 s0 c i m" and t: "transfer_ok t" and k: "k < stages t" "k \<in> at_work t c"
  defines "c' \<equiv> c(k := c k + 1)"
  assumes m1: "xfer_static t tag m1" "usbBulkBufferFIFO m1 = usbBulkBufferFIFO m"
    "xfer_counters t c' m1" "xfer_regs t c' (at_work t c - {k}) i m1"
    "sent (msc_outs m1) = sent (msc_outs m)" "statuses (msc_outs m1) = s0"
    and same: "\<And>j. j \<noteq> bf_stageWriteIndex (usbBulkBufferFIFO m) k mod 4 \<Longrightarrow> buffers m1 j = buffers m j"
    and new: "k < last_stage t \<Longrightarrow> take (nat (piece_len t (c k))) (buffers m1 (bf_stageWriteIndex (usbBulkBufferFIFO m) k mod 4))
       = piece_at t k (c k)"
  shows "\<exists>m'. stall_and_complete (t_fw t) (c k + 1 = pieces t) k (piece_len t (c k)) m1 = Some m'
    \<and> xfer_next t tag d0 s0 c' (if k = 1 then 0 else sector_at t c i) m'"
proof -
  let ?bf = "usbBulkBufferFIFO m"
  note core = r [unfolded xfer_inv_def]
  have f: "fifo_inv (stages t) 4 (pieces t) c ?bf" using xfer_core_fifo [OF core] by simp
  have p: "bf_stageProcessing ?bf k" using at_work_processing [OF r k(1)] k(2) by simp
  have pl: "0 \<le> piece_len t (c k)" by (simp add: piece_len_def)
  define ks where "ks = filter (started (stages t) 4 (pieces t) c k) [k, (k + 1) mod stages t]"
  obtain bf' where b: "stage_done k (piece_len t (c k)) 0 (c k + 1 = pieces t) ?bf = (map (start_call bf') ks
        @ (if \<forall>j < stages t. c' j = pieces t then [Call_complete] else []), bf')"
    "fifo_inv (stages t) 4 (pieces t) c' bf'"
    "bf_bufferSize bf' = (bf_bufferSize ?bf)(bf_stageWriteIndex ?bf k mod 4 := piece_len t (c k))" "processStage bf' = processStage ?bf"
    unfolding c'_def ks_def by (rule fifo_done [OF f k(1) p pl])
  have mx: "maxBufferSize bf' = maxBufferSize ?bf"
    using stage_done_maxBufferSize [of k "piece_len t (c k)" 0 "c k + 1 = pieces t" ?bf] b(1) by simp
  let ?m2 = "m1\<lparr>usbBulkBufferFIFO := bf'\<rparr>"
  have idx: "bf_stageReadIndex bf' j = bf_stageReadIndex ?bf j" "bf_stageWriteIndex bf' j = bf_stageWriteIndex ?bf j"
    if "j < stages t" "j \<noteq> k" for j
    using f b(2) that by (simp_all add: fifo_inv_def fifo_index_def c'_def)
  have d: "fifo_data (source_piece t) (stage_fun t) (piece_len t) (stages t) 4 c ?bf (slot_data m)" using core by (simp add: xfer_core_def)
  have data: "fifo_data (source_piece t) (stage_fun t) (piece_len t) (stages t) 4 c' bf' (slot_data ?m2)"
    unfolding c'_def
  proof (rule fifo_data_done [OF f k(1) p d b(3)])
    show "slot_data ?m2 j = slot_data m j" if "j \<noteq> bf_stageWriteIndex ?bf k mod 4" for j
      using same [OF that] that by (simp add: slot_data_def b(3))
    show "slot_data ?m2 (bf_stageWriteIndex ?bf k mod 4) = piece_at t k (c k)" if "k < stages t - 1"
      using new that by (simp add: slot_data_def b(3))
  qed
  have regs: "xfer_regs t c' (at_work t c - {k}) i ?m2"
    by (rule xfer_regs_fifo [OF m1(4)]) (use idx m1(2) in \<open>auto simp: at_work_def\<close>)
  have out: "sent (msc_outs m) = d0 @ pieces_out t c' (at_work t c - {k})"
  proof -
    have "sent (msc_outs m) = d0 @ pieces_out t c (at_work t c)" using core unfolding xfer_core_def by blast
    then show ?thesis using k(2) by (cases "usb_stage t = k") (simp_all add: pieces_out_def c'_def)
  qed
  have static: "xfer_static t tag ?m2" using m1(1) by (simp add: xfer_static_def volumes_def b(4) mx m1(2))
  have counters: "xfer_counters t c' ?m2" using m1(3) by (simp add: xfer_counters_def storage_card_addr_def)
  have core2: "xfer_core t tag d0 s0 c' (at_work t c - {k}) i ?m2"
    unfolding xfer_core_def using regs static counters b(2) data by (simp add: m1(5,6) out)
  have ws: "at_work t c' = (at_work t c - {k}) \<union> set ks" "distinct ks"
    "\<forall>j \<in> set ks. j < stages t \<and> stage_ready (stages t) 4 (pieces t) c' j \<and> j \<notin> at_work t c - {k}"
    using at_work_started [OF k(2), folded ks_def c'_def] by blast+
  obtain m3 where m3: "fifo_calls (t_fw t) (map (start_call bf') ks) ?m2 = Some m3"
    "xfer_inv t tag d0 s0 c' (sector_pos t (set ks) i) m3"
    using start_list [OF core2 t ws(2,3)] ws(1) by (auto simp: xfer_inv_def)
  have op: "stall_and_complete (t_fw t) (c k + 1 = pieces t) k (piece_len t (c k)) m1
      = fifo_calls (t_fw t) (if \<forall>j < stages t. c' j = pieces t then [Call_complete] else []) m3"
    unfolding stall_and_complete_def fifo_op_def m1(2) b(1) Let_def prod.case fifo_calls_append m3(1) by simp
  show ?thesis
  proof (cases "\<forall>j < stages t. c' j = pieces t")
    case True
    then show ?thesis unfolding op xfer_next_def using xfer_complete [OF m3(2) True] by auto
  next
    case False
    have "sector_at t c' (sector_pos t (set ks) i) = (if k = 1 then 0 else sector_at t c i)"
      using ws(1,3) by (auto simp: sector_at_def sector_pos_def)
    then show ?thesis unfolding op xfer_next_def if_not_P [OF False] using m3(2) by auto
  qed
qed

end
