(* ===== verification/Scsi_Ends.thy ===== *)
theory Scsi_Ends
  imports Scsi_Inv
begin

text \<open>
  The events of a transfer: the card, the cipher and the USB side report the end of what they were
  asked for, in any order; every one of them keeps the invariant of \<open>Scsi_Inv\<close>.
\<close>

section \<open>The ends of the stages\<close>

lemma at_workD: "k \<in> at_work t c \<Longrightarrow> k < stages t \<and> c k < pieces t"
  by (simp add: at_work_def stage_ready_def split: if_splits)

lemma xfer_parts:
  assumes "xfer_inv t tag d0 s0 c i m"
  shows "xfer_static t tag m" "xfer_counters t c m" "xfer_regs t c (at_work t c) i m" "statuses (msc_outs m) = s0"
  using assms by (simp_all add: xfer_inv_def xfer_core_def)

lemma sector_at_end: "(if mmc_stage t = 1 then 0 else sector_at t c i) = sector_at t c i"
  "(if usb_stage t = 1 then 0 else sector_at t c i) = sector_at t c i"
  by (auto simp: sector_at_def mmc_stage_def usb_stage_def last_stage_def)

text \<open>The buffers that the first stage and the cipher write are different ones.\<close>

lemma write_slots_differ:
  assumes r: "xfer_core t tag d0 s0 c P i m" and t: "t_crypt t" and w: "0 \<in> at_work t c" "1 \<in> at_work t c"
  shows "bf_stageWriteIndex (usbBulkBufferFIFO m) 0 mod 4 \<noteq> bf_stageWriteIndex (usbBulkBufferFIFO m) 1 mod 4"
proof
  let ?bf = "usbBulkBufferFIFO m"
  assume e: "bf_stageWriteIndex ?bf 0 mod 4 = bf_stageWriteIndex ?bf 1 mod 4"
  have n: "stages t = 3" using stages_crypt [OF t] by simp
  note ix = xfer_core_fifo(3) [OF r, unfolded n]
  have s: "stage_ready 3 4 (pieces t) c 0" "stage_ready 3 4 (pieces t) c 1" using w by (simp_all add: at_work_def n)
  have i: "bf_stageWriteIndex ?bf 0 = write_off 3 0 + c 0" "bf_stageWriteIndex ?bf 1 = write_off 3 1 + c 1"
    using ix by (simp_all add: fifo_index_def)
  have "write_off 3 0 + c 0 = write_off 3 1 + c 1"
    by (rule mod_window [of "c (3 - 1)" _ 4]) (use write_window [OF ix _ s(1)] write_window [OF ix _ s(2)] e i in simp_all)
  moreover have "c 1 < c 0" using s(2) by (simp add: stage_ready_def)
  ultimately show False by (simp add: write_off_def)
qed

text \<open>What stages write may go into the buffer of their piece only; the cipher keeps its own.\<close>

definition written_by :: "transfer \<Rightarrow> (nat \<Rightarrow> nat) \<Rightarrow> nat \<Rightarrow> msc \<Rightarrow> (nat \<Rightarrow> bytes) \<Rightarrow> bool" where
  "written_by t c k m B \<longleftrightarrow>
     (\<forall>j < 4. length (B j) = 16384)
   \<and> (if k < last_stage t
      then (\<forall>j. j \<noteq> bf_stageWriteIndex (usbBulkBufferFIFO m) k mod 4 \<longrightarrow> B j = buffers m j)
         \<and> take (512 * piece_blocks t (c k)) (B (bf_stageWriteIndex (usbBulkBufferFIFO m) k mod 4)) = piece_at t k (c k)
      else B = buffers m)"

lemma written_nothing: "xfer_static t tag m \<Longrightarrow> written_by t c (last_stage t) m (buffers m)"
  by (simp add: written_by_def xfer_static_def)

lemma written_first:
  assumes "transfer_ok t" "xfer_static t tag m"
  shows "written_by t c 0 m ((buffers m)(bf_stageWriteIndex (usbBulkBufferFIFO m) 0 mod 4 :=
     source_piece t (c 0) @ drop (length (source_piece t (c 0))) (buffers m (bf_stageWriteIndex (usbBulkBufferFIFO m) 0 mod 4))))"
  using length_source_piece [OF assms(1), of "c 0"] piece_blocks_bounds(2) [of t "c 0"] assms(2)
  by (simp add: written_by_def xfer_static_def)

lemma written_crypt:
  assumes w: "written_by t c k m B" and r: "xfer_inv t tag d0 s0 c i m" and k: "k \<in> at_work t c" "k = 0 \<or> k = last_stage t"
    and c: "t_crypt t" "1 \<in> at_work t c"
  shows "B (bf_stageWriteIndex (usbBulkBufferFIFO m) 1 mod 4) = buffers m (bf_stageWriteIndex (usbBulkBufferFIFO m) 1 mod 4)"
proof (cases "k = last_stage t")
  case False
  then have "bf_stageWriteIndex (usbBulkBufferFIFO m) k mod 4 \<noteq> bf_stageWriteIndex (usbBulkBufferFIFO m) 1 mod 4"
    using write_slots_differ [OF xfer_inv_core [OF r] c(1)] k c(2) by auto
  then show ?thesis using w False k(2) by (simp add: written_by_def)
qed (use w in \<open>simp add: written_by_def\<close>)

text \<open>The card is through with a piece.\<close>

lemma mmc_end:
  assumes r: "xfer_inv t tag d0 s0 c i m" and t: "transfer_ok t" and k: "mmc_stage t \<in> at_work t c"
    and B: "written_by t c (mmc_stage t) m B" and out: "sent xs = sent (msc_outs m)" "statuses xs = statuses (msc_outs m)"
  defines "c' \<equiv> c(mmc_stage t := c (mmc_stage t) + 1)"
  shows "\<exists>m'. mmc_stage_done (t_fw t) (mmc_advance (m\<lparr>buffers := B, msc_outs := xs\<rparr>)) = Some m' \<and> xfer_next t tag d0 s0 c' (sector_at t c i) m'"
proof -
  let ?k = "mmc_stage t"
  let ?n = "piece_blocks t (c ?k)"
  have ck: "c ?k < pieces t" "?k < stages t" using at_workD [OF k] by simp_all
  note st = xfer_parts [OF r]
  have m: "mmcStageIdx m = ?k" "mmcReadLen m = piece_len t (c ?k)" using st(3) k by (simp_all add: xfer_regs_def mmc_regs_def)
  have n: "piece_len t (c ?k) div 512 = int ?n" by (simp add: piece_len_def)
  define e where "e = msc_put Msc_emmc_done (mmc_advance (m\<lparr>buffers := B, msc_outs := xs\<rparr>))"
  have left: "mmcDataToTransfer e = int (512 * (t_blocks t - blocks_done t (Suc (c ?k))))"
    using st(2) m blocks_left(1) [OF ck(1)] by (simp add: xfer_counters_def e_def mmc_advance_def msc_put_def piece_len_def)
  have thr: "(mmcDataToTransfer e = 0) = (c ?k + 1 = pieces t)" using blocks_left(2) [OF ck(1)] by (simp add: left)
  have fin: "mmc_stage_done (t_fw t) (mmc_advance (m\<lparr>buffers := B, msc_outs := xs\<rparr>))
      = stall_and_complete (t_fw t) (c ?k + 1 = pieces t) ?k (piece_len t (c ?k)) e"
    unfolding thr [symmetric] using m by (simp add: e_def mmc_stage_done_def mmc_advance_def msc_put_def)
  have e: "usbBulkBufferFIFO e = usbBulkBufferFIFO m" "buffers e = B" "sent (msc_outs e) = sent (msc_outs m)"
    "statuses (msc_outs e) = s0" "g_scsi_cur_aes_sector e = g_scsi_cur_aes_sector m" "scsi_blk_len e = scsi_blk_len m" "csw e = csw m"
    "g_cryptDataToTransfer e = g_cryptDataToTransfer m"
    using st(4) out by (simp_all add: e_def mmc_advance_def msc_put_def)
  have static: "xfer_static t tag e"
    using st(1) B by (simp add: xfer_static_def written_by_def e_def mmc_advance_def msc_put_def volumes_def)
  have other: "usb_stage t \<noteq> ?k" "t_crypt t \<Longrightarrow> 1 \<noteq> ?k" using stages_crypt [of t] by auto
  then have c1: "t_crypt t \<Longrightarrow> c' 1 = c 1" by (simp add: c'_def)
  have counters: "xfer_counters t c' e"
  proof -
    have "storage_card_addr e = storage_card_addr m + of_nat ?n"
      using m n by (simp add: e_def mmc_advance_def msc_put_def storage_card_addr_def ac_simps)
    then have "storage_card_addr e = t_base t + of_nat (blocks_done t (Suc (c ?k)))"
      using st(2) by (simp add: xfer_counters_def blocks_done_Suc)
    then show ?thesis using st(2) left other by (simp add: xfer_counters_def c'_def e(6-8))
  qed
  have crypt: "crypt_regs t c' i e" if "t_crypt t" "1 \<in> at_work t c"
  proof -
    have "crypt_regs t c i m" using st(3) that by (simp add: xfer_regs_def)
    moreover have "B (bf_stageWriteIndex (usbBulkBufferFIFO m) 1 mod 4) = buffers m (bf_stageWriteIndex (usbBulkBufferFIFO m) 1 mod 4)"
      by (rule written_crypt [OF B r k _ that]) (simp add: mmc_stage_def)
    ultimately show ?thesis using other(2) [OF that(1)] by (simp add: crypt_regs_def e_def mmc_advance_def msc_put_def c'_def)
  qed
  have usb: "usb_regs t c' e = usb_regs t c m" using other by (simp add: usb_regs_def e_def mmc_advance_def msc_put_def c'_def)
  have regs: "xfer_regs t c' (at_work t c - {?k}) i e"
    using st(3) crypt other c1 by (auto simp: xfer_regs_def usb e(5))
  have same: "buffers e j = buffers m j" if "j \<noteq> bf_stageWriteIndex (usbBulkBufferFIFO m) ?k mod 4" for j
    using B that by (cases "?k < last_stage t") (simp_all add: written_by_def e(2))
  have new: "take (nat (piece_len t (c ?k))) (buffers e (bf_stageWriteIndex (usbBulkBufferFIFO m) ?k mod 4)) = piece_at t ?k (c ?k)"
    if "?k < last_stage t"
    using B that by (simp add: written_by_def e(2) nat_piece_len)
  show ?thesis
    unfolding fin
    using xfer_stage_end [OF r t ck(2) k static e(1) counters [unfolded c'_def] regs [unfolded c'_def] e(3,4) same new]
    unfolding sector_at_end c'_def .
qed

text \<open>The USB side is through with a piece.\<close>

lemma usb_end:
  assumes r: "xfer_inv t tag d0 s0 c i m" and t: "transfer_ok t" and k: "usb_stage t \<in> at_work t c"
    and B: "written_by t c (usb_stage t) m B"
  defines "c' \<equiv> c(usb_stage t := c (usb_stage t) + 1)"
  shows "\<exists>m'. usb_buffer_done (t_fw t) (m\<lparr>buffers := B, g_usb_transmitting := x\<rparr>) = Some m' \<and> xfer_next t tag d0 s0 c' (sector_at t c i) m'"
proof -
  let ?k = "usb_stage t"
  let ?n = "512 * piece_blocks t (c ?k)"
  have ck: "c ?k < pieces t" "?k < stages t" using at_workD [OF k] by simp_all
  note st = xfer_parts [OF r]
  have m: "h_stageIdx m = ?k" "h_writeLen m = piece_len t (c ?k)" using st(3) k by (simp_all add: xfer_regs_def usb_regs_def)
  have bl: "scsi_blk_len m = 512 * (t_blocks t - blocks_done t (c ?k))"
    "csw_dDataResidue (csw m) = of_nat (512 * (t_blocks t - blocks_done t (c ?k)))"
    using st(2) by (simp_all only: xfer_counters_def)
  have len: "\<not> h_writeLen m < 0" "min (scsi_blk_len m) (nat (h_writeLen m)) = ?n" "int ?n = piece_len t (c ?k)"
    using blocks_left(1) [OF ck(1)] by (simp_all add: m bl piece_len_def)
  define e where "e = m\<lparr>buffers := B, g_usb_transmitting := x, scsi_blk_addr := scsi_blk_addr m + ?n, scsi_blk_len := scsi_blk_len m - ?n,
     csw := (csw m)\<lparr>csw_dDataResidue := csw_dDataResidue (csw m) - of_nat ?n\<rparr>\<rparr>"
  have left: "scsi_blk_len e = 512 * (t_blocks t - blocks_done t (Suc (c ?k)))"
    "csw_dDataResidue (csw e) = of_nat (512 * (t_blocks t - blocks_done t (Suc (c ?k))))"
    using blocks_left(1) [OF ck(1)] by (simp_all add: bl e_def)
  have thr: "(scsi_blk_len e = 0) = (c ?k + 1 = pieces t)" using blocks_left(2) [OF ck(1)] by (simp only: left) simp
  have fin: "usb_buffer_done (t_fw t) (m\<lparr>buffers := B, g_usb_transmitting := x\<rparr>)
      = stall_and_complete (t_fw t) (c ?k + 1 = pieces t) ?k (piece_len t (c ?k)) e"
    unfolding thr [symmetric] using len m(1) by (simp add: usb_buffer_done_def e_def Let_def)
  have e: "usbBulkBufferFIFO e = usbBulkBufferFIFO m" "buffers e = B" "msc_outs e = msc_outs m"
    "g_scsi_cur_aes_sector e = g_scsi_cur_aes_sector m" "mmcDataToTransfer e = mmcDataToTransfer m"
    "storage_card_addr e = storage_card_addr m" "g_cryptDataToTransfer e = g_cryptDataToTransfer m"
    by (simp_all add: e_def storage_card_addr_def)
  have static: "xfer_static t tag e" using st(1) B by (simp add: xfer_static_def written_by_def e_def volumes_def)
  have other: "mmc_stage t \<noteq> ?k" "t_crypt t \<Longrightarrow> 1 \<noteq> ?k" using stages_crypt [of t] by auto
  then have c1: "t_crypt t \<Longrightarrow> c' 1 = c 1" by (simp add: c'_def)
  have counters: "xfer_counters t c' e"
    using st(2) left other by (simp add: xfer_counters_def e(5-7) c'_def)
  have crypt: "crypt_regs t c' i e" if "t_crypt t" "1 \<in> at_work t c"
  proof -
    have "crypt_regs t c i m" using st(3) that by (simp add: xfer_regs_def)
    moreover have "B (bf_stageWriteIndex (usbBulkBufferFIFO m) 1 mod 4) = buffers m (bf_stageWriteIndex (usbBulkBufferFIFO m) 1 mod 4)"
      by (rule written_crypt [OF B r k _ that]) (simp add: usb_stage_def)
    ultimately show ?thesis using other(2) [OF that(1)] by (simp add: crypt_regs_def e_def c'_def)
  qed
  have mmc: "mmc_regs t c' e = mmc_regs t c m" using other by (simp add: mmc_regs_def e_def c'_def)
  have regs: "xfer_regs t c' (at_work t c - {?k}) i e"
    using st(3) crypt other c1 by (auto simp: xfer_regs_def mmc e(4))
  have same: "buffers e j = buffers m j" if "j \<noteq> bf_stageWriteIndex (usbBulkBufferFIFO m) ?k mod 4" for j
    using B that by (cases "?k < last_stage t") (simp_all add: written_by_def e(2))
  have new: "take (nat (piece_len t (c ?k))) (buffers e (bf_stageWriteIndex (usbBulkBufferFIFO m) ?k mod 4)) = piece_at t ?k (c ?k)"
    if "?k < last_stage t"
    using B that by (simp add: written_by_def e(2) nat_piece_len)
  have out: "sent (msc_outs e) = sent (msc_outs m)" "statuses (msc_outs e) = s0" using st(4) by (simp_all add: e(3))
  show ?thesis
    unfolding fin
    using xfer_stage_end [OF r t ck(2) k static e(1) counters [unfolded c'_def] regs [unfolded c'_def] out same new]
    unfolding sector_at_end c'_def .
qed

section \<open>The events of a read\<close>

lemma card_read_end:
  assumes r: "xfer_inv t tag d0 s0 c i (w_msc w)" and t: "transfer_ok t" "\<not> t_write t" and k: "mmc_stage t \<in> at_work t c"
    and w: "w_card w = t_card t"
  shows "\<exists>m'. msc_step (t_fw t) (t_aes t) Ev_card_read w = Some (w\<lparr>w_msc := m'\<rparr>)
    \<and> xfer_next t tag d0 s0 (c(mmc_stage t := c (mmc_stage t) + 1)) (sector_at t c i) m'"
proof -
  let ?m = "w_msc w"
  let ?b = "bf_stageWriteIndex (usbBulkBufferFIFO ?m) 0 mod 4" and ?d = "source_piece t (c 0)"
  note st = xfer_parts [OF r]
  have u: "mmc_stage t = 0" using t(2) by (simp add: mmc_stage_def)
  have c0: "c 0 < pieces t" using at_workD [OF k] by (simp add: u)
  have m: "mmcReadLen ?m = piece_len t (c 0)" "mmcBufferRead ?m = ?b"
    using st(3) k t(2) by (simp_all add: xfer_regs_def mmc_regs_def u)
  have n: "nat (piece_len t (c 0) div 512) = piece_blocks t (c 0)" by (simp add: piece_len_def)
  have rd: "card_read (t_card t) (storage_card_addr ?m) (piece_blocks t (c 0)) = ?d"
    using st(2) card_read_piece [OF c0 t(2)] by (simp add: xfer_counters_def u)
  define xs where "xs = msc_outs ?m @ [Msc_mmc_read ?b (storage_card_addr ?m) (of_int (piece_len t (c 0) div 512))]"
  define B where "B = (buffers ?m)(?b := ?d @ drop (length ?d) (buffers ?m ?b))"
  have m0: "emmc_user_storage_start ?m = ?m\<lparr>msc_outs := xs\<rparr>"
    using st(1) t(2) unfolding emmc_user_storage_start_def Let_def m xfer_static_def by (simp add: msc_put_def xs_def)
  have step: "msc_step (t_fw t) (t_aes t) Ev_card_read w
      = map_option (\<lambda>m. w\<lparr>w_msc := m\<rparr>) (mmc_stage_done (t_fw t) (mmc_advance (?m\<lparr>buffers := B, msc_outs := xs\<rparr>)))"
  proof -
    have sw: "?m\<lparr>msc_outs := xs, buffers := X\<rparr> = ?m\<lparr>buffers := X, msc_outs := xs\<rparr>" for X by simp
    show ?thesis
      using m rd n w by (simp add: m0 sw Let_def emmc_user_read_storage_rx_complete_def storage_card_addr_def B_def)
  qed
  obtain m' where "mmc_stage_done (t_fw t) (mmc_advance (?m\<lparr>buffers := B, msc_outs := xs\<rparr>)) = Some m'"
    "xfer_next t tag d0 s0 (c(mmc_stage t := c (mmc_stage t) + 1)) (sector_at t c i) m'"
    using mmc_end [OF r t(1) k, of B xs] written_first [OF t(1) st(1), of c] by (auto simp: u B_def xs_def)
  then show ?thesis unfolding step by (intro exI [of _ m']) simp
qed

lemma usb_in_end:
  assumes r: "xfer_inv t tag d0 s0 c i (w_msc w)" and t: "transfer_ok t" "\<not> t_write t" and k: "usb_stage t \<in> at_work t c"
  shows "\<exists>m'. msc_step (t_fw t) (t_aes t) Ev_in w = Some (w\<lparr>w_msc := m'\<rparr>)
    \<and> xfer_next t tag d0 s0 (c(usb_stage t := c (usb_stage t) + 1)) (sector_at t c i) m'"
proof -
  let ?m = "w_msc w"
  note st = xfer_parts [OF r]
  have b: "bot_state ?m = BOT_DATA_IN" "cbw_CB (cbw ?m) ! 0 = 0x28" "g_usb_transmitting ?m"
    using st(1,3) k t(2) by (simp_all add: xfer_static_def xfer_regs_def usb_regs_def)
  let ?r = "usb_buffer_done (t_fw t) (?m\<lparr>buffers := buffers ?m, g_usb_transmitting := False\<rparr>)"
  have "SCSI_ProcessCmd (t_fw t) lun (cbw_CB (cbw ?m)) ?m = map_option (Pair 0) ?r" for lun
    using b by (simp add: SCSI_ProcessCmd_def SCSI_Read10_def SCSI_ProcessRead_def)
  then have step: "msc_step (t_fw t) (t_aes t) Ev_in w = map_option (\<lambda>m. w\<lparr>w_msc := m\<rparr>) ?r"
    using b(1) by (cases ?r) (simp_all add: MSC_BOT_DataIn_def run_or_fail_def)
  have "written_by t c (usb_stage t) ?m (buffers ?m)"
    using written_nothing [OF st(1)] t(2) by (simp add: usb_stage_def)
  then obtain m' where "?r = Some m'" "xfer_next t tag d0 s0 (c(usb_stage t := c (usb_stage t) + 1)) (sector_at t c i) m'"
    using usb_end [OF r t(1) k] by blast
  then show ?thesis unfolding step by (intro exI [of _ m']) simp
qed

section \<open>The events of a write\<close>

lemma usb_out_end:
  assumes r: "xfer_inv t tag d0 s0 c i (w_msc w)" and t: "transfer_ok t" "t_write t" and k: "usb_stage t \<in> at_work t c"
    and d: "d = source_piece t (c (usb_stage t))"
  shows "\<exists>m'. msc_step (t_fw t) (t_aes t) (Ev_out d) w = Some (w\<lparr>w_msc := m'\<rparr>)
    \<and> xfer_next t tag d0 s0 (c(usb_stage t := c (usb_stage t) + 1)) (sector_at t c i) m'"
proof -
  let ?m = "w_msc w"
  let ?b = "bf_stageWriteIndex (usbBulkBufferFIFO ?m) 0 mod 4"
  note st = xfer_parts [OF r]
  have u: "usb_stage t = 0" using t(2) by (simp add: usb_stage_def)
  have b: "bot_state ?m = BOT_DATA_OUT" "cbw_CB (cbw ?m) ! 0 = 0x2A" "h_writeBuffer ?m = ?b"
    using st(1,3) k t(2) u by (simp_all add: xfer_static_def xfer_regs_def usb_regs_def)
  define B where "B = (buffers ?m)(?b := d @ drop (length d) (buffers ?m ?b))"
  let ?r = "usb_buffer_done (t_fw t) (?m\<lparr>buffers := B, g_usb_transmitting := g_usb_transmitting ?m\<rparr>)"
  have "SCSI_ProcessCmd (t_fw t) lun (cbw_CB (cbw ?m)) (?m\<lparr>buffers := B\<rparr>) = map_option (Pair 0) ?r" for lun
    using b by (simp add: SCSI_ProcessCmd_def SCSI_Write10_def SCSI_ProcessWrite_def)
  then have step: "msc_step (t_fw t) (t_aes t) (Ev_out d) w = map_option (\<lambda>m. w\<lparr>w_msc := m\<rparr>) ?r"
    using b by (cases ?r) (simp_all add: MSC_BOT_DataOut_def run_or_fail_def B_def Let_def)
  obtain m' where "?r = Some m'" "xfer_next t tag d0 s0 (c(usb_stage t := c (usb_stage t) + 1)) (sector_at t c i) m'"
    using usb_end [OF r t(1) k, of B] written_first [OF t(1) st(1), of c] unfolding B_def d u by blast
  then show ?thesis unfolding step by (intro exI [of _ m']) simp
qed

text \<open>What the card gets is what the stage before has left in the buffer.\<close>

lemma mmc_source:
  assumes r: "xfer_inv t tag d0 s0 c i m" and t: "t_write t" and k: "mmc_stage t \<in> at_work t c"
  shows "take (512 * piece_blocks t (c (mmc_stage t))) (buffers m (mmcBufferWrite m)) = piece_at t (last_stage t) (c (mmc_stage t))"
proof -
  have k': "0 < mmc_stage t" "mmc_stage t < stages t" "stage_ready (stages t) 4 (pieces t) c (mmc_stage t)"
    using k t by (simp_all add: at_work_def mmc_stage_def)
  have "mmcBufferWrite m = bf_stageReadIndex (usbBulkBufferFIFO m) (mmc_stage t) mod 4"
    using xfer_parts(3) [OF r] k t by (simp add: xfer_regs_def mmc_regs_def)
  then have "take (512 * piece_blocks t (c (mmc_stage t))) (buffers m (mmcBufferWrite m)) = piece_at t (mmc_stage t - 1) (c (mmc_stage t))"
    using front_piece [OF xfer_inv_core [OF r] k'] by (simp add: slot_data_def nat_piece_len)
  also have "\<dots> = piece_at t (last_stage t) (c (mmc_stage t))"
    using t by (auto simp: mmc_stage_def last_stage_def stage_fun_def numeral_2_eq_2)
  finally show ?thesis .
qed

lemma card_write_end:
  assumes r: "xfer_inv t tag d0 s0 c i (w_msc w)" and t: "transfer_ok t" "t_write t" and k: "mmc_stage t \<in> at_work t c"
    and w: "w_card w = card_at t (c (mmc_stage t))"
  shows "\<exists>m'. msc_step (t_fw t) (t_aes t) Ev_card_write w = Some (w\<lparr>w_msc := m', w_card := card_at t (Suc (c (mmc_stage t)))\<rparr>)
    \<and> xfer_next t tag d0 s0 (c(mmc_stage t := c (mmc_stage t) + 1)) (sector_at t c i) m'"
proof -
  let ?m = "w_msc w" and ?k = "mmc_stage t"
  note st = xfer_parts [OF r]
  have ck: "c ?k < pieces t" using at_workD [OF k] by simp
  have m: "mmcReadLen ?m = piece_len t (c ?k)" using st(3) k by (simp add: xfer_regs_def mmc_regs_def)
  have n: "nat (piece_len t (c ?k) div 512) = piece_blocks t (c ?k)" by (simp add: piece_len_def)
  define xs where "xs = msc_outs ?m @ [Msc_mmc_write (mmcBufferWrite ?m) (storage_card_addr ?m) (of_int (piece_len t (c ?k) div 512)), Msc_mmc_cont]"
  have q: "emmc_user_storage_start ?m
      = msc_put (Msc_mmc_write (mmcBufferWrite ?m) (storage_card_addr ?m) (of_int (piece_len t (c ?k) div 512))) ?m"
    using st(1) t(2) unfolding emmc_user_storage_start_def Let_def m xfer_static_def by simp
  have card: "card_write (w_card w) (storage_card_addr ?m) (piece_blocks t (c ?k)) (buffers ?m (mmcBufferWrite ?m)) = card_at t (Suc (c ?k))"
    using card_at_Suc [OF t ck mmc_source [OF r t(2) k]] st(2) by (simp add: w xfer_counters_def)
  let ?r = "mmc_stage_done (t_fw t) (mmc_advance (?m\<lparr>buffers := buffers ?m, msc_outs := xs\<rparr>))"
  have dma: "emmc_user_write_storage_tx_dma_complete (emmc_user_storage_start ?m) = mmc_advance (?m\<lparr>buffers := buffers ?m, msc_outs := xs\<rparr>)"
    by (simp add: q emmc_user_write_storage_tx_dma_complete_def mmc_advance_def msc_put_def xs_def)
  have s: "mmcReadLen (emmc_user_storage_start ?m) = piece_len t (c ?k)" "storage_card_addr (emmc_user_storage_start ?m) = storage_card_addr ?m"
    "buffers (emmc_user_storage_start ?m) = buffers ?m" "mmcBufferWrite (emmc_user_storage_start ?m) = mmcBufferWrite ?m"
    by (simp_all add: q m msc_put_def storage_card_addr_def)
  have step: "msc_step (t_fw t) (t_aes t) Ev_card_write w = map_option (\<lambda>m. w\<lparr>w_msc := m, w_card := card_at t (Suc (c ?k))\<rparr>) ?r"
    unfolding msc_step.simps Let_def s n card dma emmc_user_write_storage_tx_complete_def ..
  have "written_by t c ?k ?m (buffers ?m)"
    using written_nothing [OF st(1)] t(2) by (simp add: mmc_stage_def)
  then obtain m' where "?r = Some m'" "xfer_next t tag d0 s0 (c(?k := c ?k + 1)) (sector_at t c i) m'"
    using mmc_end [OF r t(1) k, of "buffers ?m" xs] by (auto simp: xs_def)
  then show ?thesis unfolding step by (intro exI [of _ m']) simp
qed

section \<open>The cipher\<close>

lemma read_slot:
  assumes r: "xfer_core t tag d0 s0 c P i m" and t: "transfer_ok t" and k: "0 < k" "k < stages t" "stage_ready (stages t) 4 (pieces t) c k"
    and n: "n < piece_blocks t (c k)"
  shows "slice (buffers m (bf_stageReadIndex (usbBulkBufferFIFO m) k mod 4)) (512 * n) 512 = slice (piece_at t (k - 1) (c k)) (512 * n) 512"
proof -
  have e: "take (nat (piece_len t (c k))) (buffers m (bf_stageReadIndex (usbBulkBufferFIFO m) k mod 4)) = piece_at t (k - 1) (c k)"
    using front_piece [OF r k] by (simp add: slot_data_def)
  have "512 * n + 512 \<le> nat (piece_len t (c k))" using n by (simp add: piece_len_def)
  then show ?thesis unfolding e [symmetric] by (simp add: slice_def drop_take min_def)
qed

lemma fifo_data_write:
  assumes d: "fifo_data src f len n C c bf mem" and ix: "fifo_index n C N c bf" and k: "k \<le> n - 2" "stage_ready n C N c k"
    and same: "\<And>j. j \<noteq> bf_stageWriteIndex bf k mod C \<Longrightarrow> mem' j = mem j"
  shows "fifo_data src f len n C c bf mem'"
  unfolding fifo_data_def
proof (intro allI impI)
  fix m j assume w: "waiting n c m j"
  have "k < n" using ix k(1) by (auto simp: fifo_index_def)
  then have "bf_stageWriteIndex bf k = write_off n k + c k" using ix by (simp add: fifo_index_def)
  then have "(read_off n m + j) mod C \<noteq> bf_stageWriteIndex bf k mod C" using slot_free [OF ix k w] by simp
  from same [OF this] show "mem' ((read_off n m + j) mod C) = pipe src f (m - 1) j \<and> bf_bufferSize bf ((read_off n m + j) mod C) = len j"
    using d w by (simp add: fifo_data_def)
qed

text \<open>The cipher is through with a sector: the buffers, and the registers of the next sector.\<close>

definition crypt_written :: "transfer \<Rightarrow> (nat \<Rightarrow> nat) \<Rightarrow> nat \<Rightarrow> msc \<Rightarrow> nat \<Rightarrow> bytes" where
  "crypt_written t c i m =
     (let w = bf_stageWriteIndex (usbBulkBufferFIFO m) 1 mod 4
      in (buffers m)(w := splice (buffers m w) (512 * i) (crypt_block t (32 * c 1 + i) (slice (source_piece t (c 1)) (512 * i) 512))))"

lemma crypt_written_slot:
  assumes t: "transfer_ok t" "t_crypt t" and st: "xfer_static t tag m" "crypt_regs t c i m"
  defines "w \<equiv> bf_stageWriteIndex (usbBulkBufferFIFO m) 1 mod 4"
  shows "take (512 * Suc i) (crypt_written t c i m w) = crypt_blocks t (c 1) (source_piece t (c 1)) (Suc i)"
    "length (crypt_written t c i m w) = 16384" "j \<noteq> w \<Longrightarrow> crypt_written t c i m j = buffers m j"
proof -
  let ?d = "crypt_block t (32 * c 1 + i) (slice (source_piece t (c 1)) (512 * i) 512)"
  have i: "i < piece_blocks t (c 1)" "take (512 * i) (buffers m w) = crypt_blocks t (c 1) (source_piece t (c 1)) i"
    using st(2) by (simp_all add: crypt_regs_def w_def)
  have l: "length (buffers m w) = 16384" "512 * Suc i \<le> 16384"
    using st(1) i(1) piece_blocks_bounds(2) [of t "c 1"] by (simp_all add: xfer_static_def w_def)
  have "length (slice (source_piece t (c 1)) (512 * i) 512) = 512"
    using length_source_piece [OF t(1), of "c 1"] i(1) by (simp add: slice_def)
  then have d: "length ?d = 512" using t by (simp add: crypt_block_def transfer_ok_def)
  have e: "crypt_written t c i m w = take (512 * i) (buffers m w) @ ?d @ drop (512 * i + 512) (buffers m w)"
    unfolding crypt_written_def Let_def w_def [symmetric] fun_upd_same splice_def d ..
  show "take (512 * Suc i) (crypt_written t c i m w) = crypt_blocks t (c 1) (source_piece t (c 1)) (Suc i)"
    unfolding e crypt_blocks_Suc i(2) [symmetric] using l d by simp
  show "length (crypt_written t c i m w) = 16384" unfolding e using l d by simp
  show "crypt_written t c i m j = buffers m j" if "j \<noteq> w" using that by (simp add: crypt_written_def w_def Let_def)
qed

definition crypt_after :: "transfer \<Rightarrow> (nat \<Rightarrow> nat) \<Rightarrow> nat \<Rightarrow> msc \<Rightarrow> msc" where
  "crypt_after t c i m =
     m\<lparr>buffers := crypt_written t c i m, g_cryptOutInt := False, g_scsi_cur_aes_sector := g_scsi_cur_aes_sector m + 1,
       g_scsi_num_aes_sector := of_nat (piece_blocks t (c 1) - Suc i),
       g_scsi_aes_read := (bf_stageReadIndex (usbBulkBufferFIFO m) 1 mod 4, 512 * i + 512),
       g_scsi_aes_write := (bf_stageWriteIndex (usbBulkBufferFIFO m) 1 mod 4, 512 * i + 512)\<rparr>"

lemma crypt_working:
  assumes r: "xfer_core t tag d0 s0 c (at_work t c) i m" and t: "t_crypt t" and k: "1 \<in> at_work t c"
  shows "1 < stages t" "stage_ready (stages t) 4 (pieces t) c 1" "c 1 < pieces t" "crypt_regs t c i m"
    "g_scsi_cur_aes_sector m = of_nat (t_addr t) + of_nat (32 * c 1 + i)" "i < piece_blocks t (c 1)"
    "xfer_static t tag m" "xfer_counters t c m" "xfer_regs t c (at_work t c) i m" "statuses (msc_outs m) = s0"
proof -
  show w: "1 < stages t" "stage_ready (stages t) 4 (pieces t) c 1" "c 1 < pieces t"
    using k by (simp_all add: at_work_def stage_ready_def)
  show "xfer_static t tag m" "xfer_counters t c m" and rg: "xfer_regs t c (at_work t c) i m" and "statuses (msc_outs m) = s0"
    using r by (simp_all add: xfer_core_def)
  show cr: "crypt_regs t c i m" using rg t k by (simp add: xfer_regs_def)
  then show "i < piece_blocks t (c 1)" by (simp add: crypt_regs_def)
  have "blocks_done t (c 1) = 32 * c 1" using blocks_done_less [OF w(3)] by simp
  then show "g_scsi_cur_aes_sector m = of_nat (t_addr t) + of_nat (32 * c 1 + i)" using rg t k by (simp add: xfer_regs_def)
qed

lemma crypt_step:
  assumes core: "xfer_core t tag d0 s0 c (at_work t c) i (w_msc w)" and t: "transfer_ok t" "t_crypt t" and k: "1 \<in> at_work t c"
  defines "m \<equiv> w_msc w" and "y \<equiv> piece_blocks t (c 1) - Suc i"
  shows "msc_step (t_fw t) (t_aes t) Ev_crypt w = map_option (\<lambda>m. w\<lparr>w_msc := m\<rparr>)
     (if y = 0 then stall_and_complete (t_fw t) (g_cryptDataToTransfer m - piece_len t (c 1) = 0) 1 (piece_len t (c 1))
         ((crypt_after t c i m)\<lparr>g_cryptDataToTransfer := g_cryptDataToTransfer m - piece_len t (c 1)\<rparr>)
      else map_option aes_sector (set_crypt_config (t_fw t) (crypt_after t c i m)))"
proof -
  let ?rb = "bf_stageReadIndex (usbBulkBufferFIFO m) 1 mod 4" and ?wb = "bf_stageWriteIndex (usbBulkBufferFIFO m) 1 mod 4"
  note wk = crypt_working [OF core [folded m_def] t(2) k]
  have y: "piece_blocks t (c 1) - i = Suc y" using wk(6) by (simp add: y_def)
  have "y < 32" using piece_blocks_bounds(2) [of t "c 1"] wk(6) by (simp add: y_def)
  then have y0: "(of_nat y :: u32) = 0 \<longleftrightarrow> y = 0" by (auto simp: word_of_nat_eq_0_iff dest: dvd_imp_le)
  have rs: "slice (buffers m ?rb) (512 * i) 512 = slice (source_piece t (c 1)) (512 * i) 512"
    using read_slot [OF core [folded m_def] t(1) _ wk(1,2,6)] by simp
  have b: "(buffers m)(?wb := splice (buffers m ?wb) (512 * i)
      (t_aes t (t_write t) (take 16 (g_encrypt_key (t_fw t))) (sector_iv t (32 * c 1 + i)) (slice (buffers m ?rb) (512 * i) 512))) = crypt_written t c i m"
    by (simp only: crypt_written_def Let_def crypt_block_def rs)
  have "g_scsi_aes_read m = (?rb, 512 * i)" "g_scsi_aes_write m = (?wb, 512 * i)" "g_scsi_aes_encrypt m = t_write t"
    "g_scsi_aes_key m = take 16 (g_encrypt_key (t_fw t))" "g_scsi_cur_aes_iv m = sector_iv t (32 * c 1 + i)"
    "g_scsi_num_aes_sector m = of_nat (Suc y)" "g_cryptTxLen m = piece_len t (c 1)" "g_cryptStageIdx m = 1"
    using wk(4) unfolding crypt_regs_def y by (simp_all only:)
  then have x: "g_scsi_aes_read m = (?rb, 512 * i)" "g_scsi_aes_write m = (?wb, 512 * i)" "g_scsi_aes_encrypt m = t_write t"
    "g_scsi_aes_key m = take 16 (g_encrypt_key (t_fw t))" "g_scsi_cur_aes_iv m = sector_iv t (32 * c 1 + i)"
    "g_scsi_num_aes_sector m = of_nat y + 1" "g_cryptTxLen m = piece_len t (c 1)" "g_cryptStageIdx m = 1"
    by simp_all
  have st: "msc_step (t_fw t) (t_aes t) Ev_crypt w = map_option (\<lambda>m. w\<lparr>w_msc := m\<rparr>)
     (usbd_scsi_idle (t_fw t) (HAL_CRYP_OutCpltCallback (m\<lparr>buffers := crypt_written t c i m\<rparr>)))"
    unfolding msc_step.simps m_def [symmetric] Let_def x prod.case b [symmetric] by (simp add: x)
  show ?thesis
    unfolding st usbd_scsi_idle_def HAL_CRYP_OutCpltCallback_def crypt_after_def y_def [symmetric]
    by (cases "y = 0") (simp_all add: Let_def x y0)
qed

lemma crypt_after_static:
  assumes t: "transfer_ok t" "t_crypt t" and st: "xfer_static t tag m" "crypt_regs t c i m"
  shows "xfer_static t tag ((crypt_after t c i m)\<lparr>g_cryptDataToTransfer := z\<rparr>)" "xfer_static t tag (crypt_after t c i m)"
proof -
  note wr = crypt_written_slot [OF t st]
  have "length (crypt_written t c i m j) = 16384" if "j < 4" for j
    using wr(2,3) st(1) that
    by (cases "j = bf_stageWriteIndex (usbBulkBufferFIFO m) 1 mod 4") (simp_all add: xfer_static_def)
  then show "xfer_static t tag ((crypt_after t c i m)\<lparr>g_cryptDataToTransfer := z\<rparr>)" "xfer_static t tag (crypt_after t c i m)"
    using st(1) by (simp_all add: xfer_static_def crypt_after_def volumes_def)
qed

lemma crypt_next_sector:
  assumes core: "xfer_core t tag d0 s0 c (at_work t c) i m" and t: "transfer_ok t" "t_crypt t"
    and k: "1 \<in> at_work t c" "Suc i < piece_blocks t (c 1)"
  shows "\<exists>q. map_option aes_sector (set_crypt_config (t_fw t) (crypt_after t c i m)) = Some q \<and> xfer_inv t tag d0 s0 c (Suc i) q"
proof -
  note wk = crypt_working [OF core t(2) k(1)]
  note wr = crypt_written_slot [OF t wk(7,4)]
  define q where "q = aes_sector ((crypt_after t c i m)\<lparr>g_scsi_cur_aes_iv := sector_iv t (32 * c 1 + Suc i), g_scsi_aes_key := take 16 (g_encrypt_key (t_fw t))\<rparr>)"
  have sec: "g_scsi_cur_aes_sector (crypt_after t c i m) = of_nat (t_addr t) + of_nat (32 * c 1 + Suc i)" using wk(5) by (simp add: crypt_after_def)
  have cfg: "map_option aes_sector (set_crypt_config (t_fw t) (crypt_after t c i m)) = Some q"
    unfolding set_crypt_config_def sec sector_iv_Some [OF t] q_def by simp
  have b1: "blocks_done t (c 1) = 32 * c 1" using blocks_done_less [OF wk(3)] by simp
  have e: "usbBulkBufferFIFO q = usbBulkBufferFIFO m" "buffers q = crypt_written t c i m"
    "sent (msc_outs q) = sent (msc_outs m)" "statuses (msc_outs q) = statuses (msc_outs m)"
    "g_scsi_cur_aes_sector q = of_nat (t_addr t) + of_nat (blocks_done t (c 1) + Suc i)"
    using sec b1 unfolding q_def by (simp_all add: aes_sector_def msc_put_def) (simp_all add: crypt_after_def)
  have "slot_data q j = slot_data m j" if "j \<noteq> bf_stageWriteIndex (usbBulkBufferFIFO m) 1 mod 4" for j
    using wr(3) that by (simp add: slot_data_def e(1,2))
  moreover have "fifo_data (source_piece t) (stage_fun t) (piece_len t) (stages t) 4 c (usbBulkBufferFIFO m) (slot_data m)"
    using core by (simp add: xfer_core_def)
  moreover have "1 \<le> stages t - 2" using stages_crypt [OF t(2)] by simp
  ultimately have data: "fifo_data (source_piece t) (stage_fun t) (piece_len t) (stages t) 4 c (usbBulkBufferFIFO m) (slot_data q)"
    using fifo_data_write [OF _ xfer_core_fifo(3) [OF core] _ wk(2)] by blast
  have same: "xfer_static t tag q = xfer_static t tag (crypt_after t c i m)" "xfer_counters t c q = xfer_counters t c m"
    "mmc_regs t c q = mmc_regs t c m" "usb_regs t c q = usb_regs t c m"
    unfolding q_def
    by (simp_all add: crypt_after_def xfer_static_def xfer_counters_def mmc_regs_def usb_regs_def volumes_def storage_card_addr_def aes_sector_def msc_put_def)
  have "crypt_regs t c (Suc i) q"
    unfolding crypt_regs_def e(1,2) using wr(1) wk(4) k(2)
    by (simp add: crypt_regs_def q_def crypt_after_def aes_sector_def msc_put_def)
  then have "xfer_regs t c (at_work t c) (Suc i) q"
    using wk(9) k(1) by (simp add: xfer_regs_def same e(5))
  then have "xfer_inv t tag d0 s0 c (Suc i) q"
    using core crypt_after_static(2) [OF t wk(7,4)] data unfolding xfer_inv_def xfer_core_def same e(1,3,4)
    by (elim conjE, intro conjI) assumption+
  with cfg show ?thesis by blast
qed

lemma crypt_piece_end:
  assumes r: "xfer_inv t tag d0 s0 c i m" and t: "transfer_ok t" "t_crypt t"
    and k: "1 \<in> at_work t c" and n: "Suc i = piece_blocks t (c 1)"
  defines "c' \<equiv> c(1 := c 1 + 1)"
  shows "\<exists>m'. stall_and_complete (t_fw t) (g_cryptDataToTransfer m - piece_len t (c 1) = 0) 1 (piece_len t (c 1))
      ((crypt_after t c i m)\<lparr>g_cryptDataToTransfer := g_cryptDataToTransfer m - piece_len t (c 1)\<rparr>) = Some m'
    \<and> xfer_next t tag d0 s0 c' 0 m'"
proof -
  note core = xfer_inv_core [OF r]
  note wk = crypt_working [OF core t(2) k]
  note wr = crypt_written_slot [OF t wk(7,4)]
  define q where "q = (crypt_after t c i m)\<lparr>g_cryptDataToTransfer := g_cryptDataToTransfer m - piece_len t (c 1)\<rparr>"
  have left: "g_cryptDataToTransfer q = int (512 * (t_blocks t - blocks_done t (Suc (c 1))))"
    using wk(8) t(2) blocks_left(1) [OF wk(3)] by (simp add: q_def xfer_counters_def piece_len_def)
  have thr: "(g_cryptDataToTransfer m - piece_len t (c 1) = 0) = (c 1 + 1 = pieces t)"
    using blocks_left(2) [OF wk(3)] left by (simp add: q_def)
  have c': "c' (mmc_stage t) = c (mmc_stage t)" "c' (usb_stage t) = c (usb_stage t)" "c' 1 = Suc (c 1)"
    using stages_crypt [OF t(2)] by (simp_all add: c'_def)
  have b: "blocks_done t (Suc (c 1)) = 32 * c 1 + i + 1" unfolding blocks_done_Suc using n blocks_done_less [OF wk(3)] by linarith
  have "g_scsi_cur_aes_sector q = of_nat (t_addr t) + of_nat (blocks_done t (Suc (c 1)))"
    unfolding b using wk(5) by (simp add: q_def crypt_after_def)
  then have q: "usbBulkBufferFIFO q = usbBulkBufferFIFO m" "buffers q = crypt_written t c i m" "xfer_static t tag q" "msc_outs q = msc_outs m"
    "g_scsi_cur_aes_sector q = of_nat (t_addr t) + of_nat (blocks_done t (Suc (c 1)))"
    "mmcDataToTransfer q = mmcDataToTransfer m" "storage_card_addr q = storage_card_addr m" "scsi_blk_len q = scsi_blk_len m" "csw q = csw m"
    "mmc_regs t c' q = mmc_regs t c m" "usb_regs t c' q = usb_regs t c m"
    using crypt_after_static(1) [OF t wk(7,4)] c'(1,2) unfolding q_def
    by (simp_all add: crypt_after_def mmc_regs_def usb_regs_def storage_card_addr_def)
  have counters: "xfer_counters t c' q"
    using wk(8) left q(6-9) unfolding xfer_counters_def c' by simp
  have regs: "xfer_regs t c' (at_work t c - {1}) i q"
    using wk(9) q(5,10,11) unfolding xfer_regs_def c' by simp
  have new: "take (nat (piece_len t (c 1))) (buffers q (bf_stageWriteIndex (usbBulkBufferFIFO m) 1 mod 4)) = piece_at t 1 (c 1)"
    using wr(1) t(2) unfolding n q(2) nat_piece_len by (simp add: stage_fun_def)
  have "\<exists>m'. stall_and_complete (t_fw t) (c 1 + 1 = pieces t) 1 (piece_len t (c 1)) q = Some m' \<and> xfer_next t tag d0 s0 c' 0 m'"
    using xfer_stage_end [OF r t(1) wk(1) k q(3,1) counters [unfolded c'_def] regs [unfolded c'_def], folded c'_def] wr(3) new wk(10)
    by (auto simp: q(2,4))
  then show ?thesis unfolding thr q_def [symmetric] .
qed

lemma crypt_end:
  assumes r: "xfer_inv t tag d0 s0 c i (w_msc w)" and t: "transfer_ok t" "t_crypt t" and k: "1 \<in> at_work t c"
  defines "c' \<equiv> c(1 := c 1 + 1)"
  shows "\<exists>m'. msc_step (t_fw t) (t_aes t) Ev_crypt w = Some (w\<lparr>w_msc := m'\<rparr>)
    \<and> (if Suc i < piece_blocks t (c 1) then xfer_inv t tag d0 s0 c (Suc i) m' else xfer_next t tag d0 s0 c' 0 m')"
proof (cases "Suc i < piece_blocks t (c 1)")
  case True
  then obtain q where q: "map_option aes_sector (set_crypt_config (t_fw t) (crypt_after t c i (w_msc w))) = Some q" "xfer_inv t tag d0 s0 c (Suc i) q"
    using crypt_next_sector [OF xfer_inv_core [OF r] t k] by blast
  have "piece_blocks t (c 1) - Suc i \<noteq> 0" using True by simp
  then show ?thesis
    unfolding crypt_step [OF xfer_inv_core [OF r] t k] if_P [OF True] q(1) using q(2) by (intro exI [of _ q]) simp
next
  case False
  then have n: "Suc i = piece_blocks t (c 1)" using crypt_working(6) [OF xfer_inv_core [OF r] t(2) k] by simp
  obtain m' where "stall_and_complete (t_fw t) (g_cryptDataToTransfer (w_msc w) - piece_len t (c 1) = 0) 1 (piece_len t (c 1))
      ((crypt_after t c i (w_msc w))\<lparr>g_cryptDataToTransfer := g_cryptDataToTransfer (w_msc w) - piece_len t (c 1)\<rparr>) = Some m'"
    "xfer_next t tag d0 s0 c' 0 m'"
    using crypt_piece_end [OF r t k n] unfolding c'_def by blast
  then show ?thesis
    using False n unfolding crypt_step [OF xfer_inv_core [OF r] t k] by (intro exI [of _ m']) simp
qed

end
