(* ===== verification/Scsi_Transfer.thy ===== *)
theory Scsi_Transfer
  imports Scsi_Ends
begin

text \<open>
  A READ10 or WRITE10 as a whole: from the command wrapper through any order of the events to the
  status.
\<close>

declare msc_step.simps [simp del]

section \<open>Runs\<close>

text \<open>
  Which stages an event ends, and when it can come: the stage is at work, and what the host sends is
  as much as the device waits for of the bytes \<open>d\<close> that it still has to send.
\<close>

fun reports :: "msc_event \<Rightarrow> stage_fn \<Rightarrow> bool" where
  "reports Ev_card_read f \<longleftrightarrow> f = processMMCReadBuffer"
| "reports Ev_card_write f \<longleftrightarrow> f = processMMCWriteBuffer"
| "reports Ev_in f \<longleftrightarrow> f = processUSBReadBuffer"
| "reports (Ev_out d) f \<longleftrightarrow> f = processUSBWriteBuffer"
| "reports Ev_crypt f \<longleftrightarrow> f = processDecryptReadBuffer \<or> f = processEncryptWriteBuffer"
| "reports _ f \<longleftrightarrow> False"

definition reported :: "msc_event \<Rightarrow> msc \<Rightarrow> bool" where
  "reported e m \<longleftrightarrow> (let bf = usbBulkBufferFIFO m in \<exists>k < numStages bf. bf_stageProcessing bf k \<and> reports e (processStage bf k))"

definition due :: "msc_event \<Rightarrow> msc_world \<Rightarrow> bytes \<Rightarrow> bool" where
  "due e w d \<longleftrightarrow> reported e (w_msc w) \<and> (case e of Ev_out x \<Rightarrow> x = take (nat (h_writeLen (w_msc w))) d | _ \<Rightarrow> True)"

fun host_left :: "msc_event \<Rightarrow> bytes \<Rightarrow> bytes" where
  "host_left (Ev_out x) d = drop (length x) d"
| "host_left _ d = d"

inductive transfer_run :: "fw \<Rightarrow> cipher \<Rightarrow> msc_world \<Rightarrow> bytes \<Rightarrow> nat \<Rightarrow> msc_world \<Rightarrow> bytes \<Rightarrow> bool" for s aes w0 d0 where
  start: "transfer_run s aes w0 d0 0 w0 d0"
| step: "transfer_run s aes w0 d0 n w d \<Longrightarrow> due e w d \<Longrightarrow> msc_step s aes e w = Some w'
    \<Longrightarrow> transfer_run s aes w0 d0 (Suc n) w' (host_left e d)"

text \<open>The number of events: two for each piece, and one for each sector through the cipher.\<close>

definition transfer_events :: "transfer \<Rightarrow> nat" where
  "transfer_events t = 2 * pieces t + (if t_crypt t then t_blocks t else 0)"

definition events_done :: "transfer \<Rightarrow> (nat \<Rightarrow> nat) \<Rightarrow> nat \<Rightarrow> nat" where
  "events_done t c x = c (mmc_stage t) + c (usb_stage t) + (if t_crypt t then blocks_done t (c 1) + x else 0)"

text \<open>The card and the host, with \<open>c k\<close> pieces through stage \<open>k\<close>.\<close>

definition outside_at :: "transfer \<Rightarrow> (nat \<Rightarrow> nat) \<Rightarrow> msc_world \<Rightarrow> bytes \<Rightarrow> bool" where
  "outside_at t c w d \<longleftrightarrow> w_card w = card_at t (c (mmc_stage t)) \<and> (t_write t \<longrightarrow> d = host_rest t (c (usb_stage t)))"

definition xfer_state :: "transfer \<Rightarrow> u32 \<Rightarrow> bytes list \<Rightarrow> msc_csw list \<Rightarrow> nat \<Rightarrow> msc_world \<Rightarrow> bytes \<Rightarrow> bool" where
  "xfer_state t tag d0 s0 n w d \<longleftrightarrow>
     xfer_finished t tag d0 s0 (w_msc w) \<and> outside_at t (\<lambda>_. pieces t) w d \<and> n = transfer_events t
   \<or> (\<exists>c i. xfer_inv t tag d0 s0 c i (w_msc w) \<and> outside_at t c w d \<and> n = events_done t c (sector_at t c i)
        \<and> c (last_stage t) < pieces t)"

lemma xfer_state_cases:
  assumes "xfer_state t tag d0 s0 n w d"
  obtains "xfer_finished t tag d0 s0 (w_msc w)" "outside_at t (\<lambda>_. pieces t) w d" "n = transfer_events t"
  | c i where "xfer_inv t tag d0 s0 c i (w_msc w)" "outside_at t c w d" "n = events_done t c (sector_at t c i)" "c (last_stage t) < pieces t"
  using assms unfolding xfer_state_def by blast

lemma xfer_inv_counts:
  assumes "xfer_inv t tag d0 s0 c i m"
  shows "(\<forall>k < stages t. c k = pieces t) \<longleftrightarrow> c (last_stage t) = pieces t" "c (last_stage t) \<le> pieces t" "k < stages t \<Longrightarrow> c k \<le> pieces t"
proof -
  note ix = xfer_core_fifo(3) [OF xfer_inv_core [OF assms]]
  show "(\<forall>k < stages t. c k = pieces t) \<longleftrightarrow> c (last_stage t) = pieces t" "c (last_stage t) \<le> pieces t"
    using fifo_counts [OF ix] by simp_all
  show "k < stages t \<Longrightarrow> c k \<le> pieces t" using ix by (simp add: fifo_index_def)
qed

lemma sector_at_bound:
  assumes "xfer_inv t tag d0 s0 c i m" "t_crypt t"
  shows "blocks_done t (c 1) + sector_at t c i \<le> t_blocks t"
proof (cases "1 \<in> at_work t c")
  case True
  then have "i < piece_blocks t (c 1)" using xfer_parts(3) [OF assms(1)] assms(2) by (simp add: xfer_regs_def crypt_regs_def)
  then show ?thesis using blocks_done_le [of t "Suc (c 1)"] by (simp add: sector_at_def blocks_done_Suc)
qed (simp add: sector_at_def blocks_done_le)

text \<open>An event is through, and \<open>Suc n\<close> events are.\<close>

lemma xfer_next_state:
  assumes r: "xfer_next t tag d0 s0 c x (w_msc w)" and w: "outside_at t c w d"
    and x: "t_crypt t \<Longrightarrow> c 1 = pieces t \<Longrightarrow> x = 0"
  shows "xfer_state t tag d0 s0 (events_done t c x) w d"
proof (cases "\<forall>k < stages t. c k = pieces t")
  case True
  have c: "c (mmc_stage t) = pieces t" "c (usb_stage t) = pieces t" "t_crypt t \<Longrightarrow> c 1 = pieces t" using True by simp_all
  then have "events_done t c x = transfer_events t"
    using x blocks_done_all [of t "pieces t"] by (simp add: events_done_def transfer_events_def)
  moreover have "outside_at t (\<lambda>_. pieces t) w d" using w c by (simp add: outside_at_def)
  ultimately show ?thesis using r True by (simp add: xfer_next_def xfer_state_def)
next
  case False
  then obtain i where i: "xfer_inv t tag d0 s0 c i (w_msc w)" "sector_at t c i = x" using r unfolding xfer_next_def if_not_P [OF False] by blast
  then have "c (last_stage t) < pieces t" using xfer_inv_counts(1,2) [OF i(1)] False le_neq_implies_less by blast
  then show ?thesis using i w by (auto simp: xfer_state_def)
qed

text \<open>What an event in the middle of a transfer can be.\<close>

lemma due_at_work:
  assumes r: "xfer_inv t tag d0 s0 c i (w_msc w)" and e: "due e w d"
  obtains "e = (if t_write t then Ev_card_write else Ev_card_read)" "mmc_stage t \<in> at_work t c"
  | "\<not> t_write t" "e = Ev_in" "usb_stage t \<in> at_work t c"
  | "t_write t" "e = Ev_out (take (512 * piece_blocks t (c (usb_stage t))) d)" "usb_stage t \<in> at_work t c"
  | "e = Ev_crypt" "t_crypt t" "1 \<in> at_work t c"
proof -
  let ?bf = "usbBulkBufferFIFO (w_msc w)"
  note st = xfer_parts [OF r]
  have n: "numStages ?bf = stages t" using xfer_core_fifo(3) [OF xfer_inv_core [OF r]] by (simp add: fifo_index_def)
  obtain k where k: "k < stages t" "bf_stageProcessing ?bf k" "reports e (processStage ?bf k)"
    using e unfolding due_def reported_def Let_def n by blast
  then have a: "k \<in> at_work t c" using at_work_processing [OF r] by simp
  from k(1) show ?thesis
  proof (cases rule: stage_cases)
    case 1
    then have "e = (if t_write t then Ev_card_write else Ev_card_read)" using k(3) st(1) by (cases e) (auto simp: xfer_static_def split: if_splits)
    then show ?thesis using that(1) a 1 by simp
  next
    case 2
    show ?thesis
    proof (cases "t_write t")
      case True
      then obtain x where x: "e = Ev_out x" using k(3) st(1) 2 by (cases e) (auto simp: xfer_static_def split: if_splits)
      have "h_writeLen (w_msc w) = piece_len t (c (usb_stage t))" using st(3) a 2 by (simp add: xfer_regs_def usb_regs_def)
      then have "x = take (512 * piece_blocks t (c (usb_stage t))) d" using e x by (simp add: due_def nat_piece_len)
      then show ?thesis using that(3) a 2 True x by simp
    next
      case False
      then have "e = Ev_in" using k(3) st(1) 2 by (cases e) (auto simp: xfer_static_def split: if_splits)
      then show ?thesis using that(2) a 2 False by simp
    qed
  next
    case 3
    then have "e = Ev_crypt" using k(3) st(1) by (cases e) (auto simp: xfer_static_def split: if_splits)
    then show ?thesis using that(4) a 3 by simp
  qed
qed

text \<open>A stage other than the cipher counts one event more.\<close>

lemma step_counted:
  assumes n: "n = events_done t c (sector_at t c i)" and k: "k = mmc_stage t \<or> k = usb_stage t"
    and r: "xfer_next t tag d0 s0 (c(k := c k + 1)) (sector_at t c i) (w_msc w)" and w: "outside_at t (c(k := c k + 1)) w d"
  shows "xfer_state t tag d0 s0 (Suc n) w d"
proof -
  let ?c = "c(k := c k + 1)"
  have other: "t_crypt t \<Longrightarrow> ?c 1 = c 1" using k stages_crypt [of t] by auto
  then have "events_done t ?c (sector_at t c i) = Suc n" using k by (auto simp: n events_done_def)
  moreover have "sector_at t c i = 0" if "t_crypt t" "?c 1 = pieces t"
    using that other at_workD [of 1 t c] by (auto simp: sector_at_def)
  ultimately show ?thesis using xfer_next_state [OF r w] by simp
qed

lemma xfer_state_crypt:
  assumes i: "xfer_inv t tag d0 s0 c i (w_msc w)" "outside_at t c w d" "n = events_done t c (sector_at t c i)" "c (last_stage t) < pieces t"
    and t: "transfer_ok t" and k: "t_crypt t" "1 \<in> at_work t c"
  shows "\<exists>w'. msc_step (t_fw t) (t_aes t) Ev_crypt w = Some w' \<and> xfer_state t tag d0 s0 (Suc n) w' d"
proof -
  let ?c = "c(1 := c 1 + 1)"
  have u: "mmc_stage t \<noteq> 1" "usb_stage t \<noteq> 1" "sector_at t c i = i" using stages_crypt [OF k(1)] k by (simp_all add: sector_at_def)
  obtain m' where m': "msc_step (t_fw t) (t_aes t) Ev_crypt w = Some (w\<lparr>w_msc := m'\<rparr>)"
    "if Suc i < piece_blocks t (c 1) then xfer_inv t tag d0 s0 c (Suc i) m' else xfer_next t tag d0 s0 ?c 0 m'"
    using crypt_end [OF i(1) t k] by blast
  have "xfer_state t tag d0 s0 (Suc n) (w\<lparr>w_msc := m'\<rparr>) d"
  proof (cases "Suc i < piece_blocks t (c 1)")
    case True
    have "n = events_done t c i" "sector_at t c (Suc i) = Suc i" using i(3) u k by (simp_all add: sector_at_def)
    then show ?thesis
      using m'(2) True i(2,4) k(1) by (auto simp: xfer_state_def events_done_def outside_at_def intro!: exI [of _ c] exI [of _ "Suc i"])
  next
    case False
    have "Suc i = piece_blocks t (c 1)" using xfer_parts(3) [OF i(1)] k False by (simp add: xfer_regs_def crypt_regs_def)
    then have "events_done t ?c 0 = Suc n" using u k(1) by (simp add: i(3) events_done_def blocks_done_Suc)
    moreover have "outside_at t ?c (w\<lparr>w_msc := m'\<rparr>) d" using i(2) u by (simp add: outside_at_def)
    ultimately show ?thesis using xfer_next_state [of t tag d0 s0 ?c 0 "w\<lparr>w_msc := m'\<rparr>" d] m'(2) False by simp
  qed
  then show ?thesis using m'(1) by blast
qed

lemma xfer_state_step:
  assumes r: "xfer_state t tag d0 s0 n w d" and t: "transfer_ok t" and e: "due e w d"
  shows "\<exists>w'. msc_step (t_fw t) (t_aes t) e w = Some w' \<and> xfer_state t tag d0 s0 (Suc n) w' (host_left e d)"
  using r
proof (cases rule: xfer_state_cases)
  case 1
  then have False using e by (auto simp: xfer_finished_def due_def reported_def Let_def)
  then show ?thesis ..
next
  case (2 c i)
  let ?m = "mmc_stage t" and ?u = "usb_stage t"
  have w: "w_card w = card_at t (c ?m)" "t_write t \<Longrightarrow> d = host_rest t (c ?u)" using 2(2) by (simp_all add: outside_at_def)
  from 2(1) e show ?thesis
  proof (cases rule: due_at_work)
    case 1
    have "\<exists>w'. msc_step (t_fw t) (t_aes t) e w = Some w' \<and> xfer_next t tag d0 s0 (c(?m := c ?m + 1)) (sector_at t c i) (w_msc w')
      \<and> w_card w' = card_at t (Suc (c ?m))"
    proof (cases "t_write t")
      case True
      then show ?thesis using card_write_end [OF 2(1) t True 1(2) w(1)] 1(1) by auto
    next
      case False
      then have "w_card w = t_card t" "card_at t (Suc (c ?m)) = t_card t" using w(1) by (simp_all add: card_at_def)
      then show ?thesis using card_read_end [OF 2(1) t False 1(2)] 1(1) False by auto
    qed
    then obtain w' where w': "msc_step (t_fw t) (t_aes t) e w = Some w'"
      "xfer_next t tag d0 s0 (c(?m := c ?m + 1)) (sector_at t c i) (w_msc w')" "w_card w' = card_at t (Suc (c ?m))" by blast
    have "outside_at t (c(?m := c ?m + 1)) w' d" using w w'(3) by (simp add: outside_at_def)
    moreover have "host_left e d = d" using 1(1) by simp
    ultimately show ?thesis using step_counted [OF 2(3) _ w'(2)] w'(1) by auto
  next
    case two: 2
    obtain m' where m': "msc_step (t_fw t) (t_aes t) e w = Some (w\<lparr>w_msc := m'\<rparr>)"
      "xfer_next t tag d0 s0 (c(?u := c ?u + 1)) (sector_at t c i) m'"
      using usb_in_end [OF 2(1) t two(1,3)] two(2) by blast
    have "outside_at t (c(?u := c ?u + 1)) (w\<lparr>w_msc := m'\<rparr>) d" using w two(1) by (simp add: outside_at_def)
    then show ?thesis using step_counted [OF 2(3), of ?u tag d0 s0 "w\<lparr>w_msc := m'\<rparr>" d] m' two(2) by simp
  next
    case 3
    have cu: "c ?u < pieces t" using at_workD [OF 3(3)] by simp
    note h = host_piece [OF t 3(1) cu]
    have x: "e = Ev_out (source_piece t (c ?u))" "host_left e d = host_rest t (Suc (c ?u))"
      using 3(2) w(2) [OF 3(1)] h length_source_piece [OF t, of "c ?u"] by simp_all
    obtain m' where m': "msc_step (t_fw t) (t_aes t) e w = Some (w\<lparr>w_msc := m'\<rparr>)"
      "xfer_next t tag d0 s0 (c(?u := c ?u + 1)) (sector_at t c i) m'"
      using usb_out_end [OF 2(1) t 3(1,3) refl] x(1) by blast
    have "outside_at t (c(?u := c ?u + 1)) (w\<lparr>w_msc := m'\<rparr>) (host_left e d)" using w x(2) by (simp add: outside_at_def)
    then show ?thesis using step_counted [OF 2(3), of ?u tag d0 s0 "w\<lparr>w_msc := m'\<rparr>"] m' by simp
  next
    case 4
    then show ?thesis using xfer_state_crypt [OF 2 t 4(2,3)] by simp
  qed
qed

lemma xfer_state_due:
  assumes r: "xfer_state t tag d0 s0 n w d" and n: "n < transfer_events t"
  shows "\<exists>e. due e w d"
proof -
  obtain c i where i: "xfer_inv t tag d0 s0 c i (w_msc w)" "c (last_stage t) < pieces t"
    using r n by (auto simp: xfer_state_def)
  let ?bf = "usbBulkBufferFIFO (w_msc w)"
  note ix = xfer_core_fifo [OF xfer_inv_core [OF i(1)]]
  note st = xfer_parts(1) [OF i(1)]
  obtain k where k: "k < stages t" "bf_stageProcessing ?bf k" using fifo_not_stuck [OF ix(1) _ i(2) [folded stages_last(1)]] by auto
  have N: "numStages ?bf = stages t" using ix(3) by (simp add: fifo_index_def)
  have "due e w d" if "reports e (processStage ?bf k)" "\<And>x. e = Ev_out x \<Longrightarrow> x = take (nat (h_writeLen (w_msc w))) d" for e
    using k that by (auto simp: due_def reported_def Let_def N split: msc_event.split)
  moreover have "\<exists>e. reports e (processStage ?bf k) \<and> (\<forall>x. e = Ev_out x \<longrightarrow> x = take (nat (h_writeLen (w_msc w))) d)"
    using k(1)
  proof (cases rule: stage_cases)
    case 1
    then show ?thesis using st by (intro exI [of _ "if t_write t then Ev_card_write else Ev_card_read"]) (simp add: xfer_static_def)
  next
    case 2
    then show ?thesis
      using st by (intro exI [of _ "if t_write t then Ev_out (take (nat (h_writeLen (w_msc w))) d) else Ev_in"]) (simp add: xfer_static_def)
  next
    case 3
    then show ?thesis using st by (intro exI [of _ Ev_crypt]) (simp add: xfer_static_def)
  qed
  ultimately show ?thesis by blast
qed

lemma xfer_state_bound:
  assumes r: "xfer_state t tag d0 s0 n w d"
  shows "n \<le> transfer_events t" "n = transfer_events t \<Longrightarrow> xfer_finished t tag d0 s0 (w_msc w) \<and> outside_at t (\<lambda>_. pieces t) w d"
    "n < transfer_events t \<Longrightarrow> statuses (msc_outs (w_msc w)) = s0"
proof -
  have "(n < transfer_events t \<and> statuses (msc_outs (w_msc w)) = s0)
    \<or> (xfer_finished t tag d0 s0 (w_msc w) \<and> outside_at t (\<lambda>_. pieces t) w d) \<and> n = transfer_events t"
    using r
  proof (cases rule: xfer_state_cases)
    case (2 c i)
    have "c (mmc_stage t) \<le> pieces t" "c (usb_stage t) \<le> pieces t" using xfer_inv_counts(3) [OF 2(1)] by simp_all
    moreover have "c (mmc_stage t) < pieces t \<or> c (usb_stage t) < pieces t" using 2(4) by (auto simp: mmc_stage_def usb_stage_def)
    moreover have "t_crypt t \<Longrightarrow> blocks_done t (c 1) + sector_at t c i \<le> t_blocks t" using sector_at_bound [OF 2(1)] .
    ultimately have "n < transfer_events t"
      by (cases "t_crypt t") (auto simp: 2(3) events_done_def transfer_events_def)
    then show ?thesis using xfer_parts(4) [OF 2(1)] by simp
  qed simp
  then show "n \<le> transfer_events t" "n = transfer_events t \<Longrightarrow> xfer_finished t tag d0 s0 (w_msc w) \<and> outside_at t (\<lambda>_. pieces t) w d"
    "n < transfer_events t \<Longrightarrow> statuses (msc_outs (w_msc w)) = s0" by auto
qed

text \<open>What has gone out, or is on the card, is the beginning of what is to move.\<close>

lemma xfer_state_sent:
  assumes r: "xfer_state t tag d0 s0 n w d" and t: "transfer_ok t"
  shows "\<exists>j \<le> t_blocks t. concat (sent (msc_outs (w_msc w))) = concat d0 @ (if t_write t then [] else all_moved t j)"
    "n = transfer_events t \<Longrightarrow> concat (sent (msc_outs (w_msc w))) = concat d0 @ (if t_write t then [] else all_moved t (t_blocks t))"
proof -
  have p: "\<exists>j \<le> t_blocks t. concat (d0 @ (if t_write t then [] else map (piece_at t (last_stage t)) [0..<k]))
      = concat d0 @ (if t_write t then [] else all_moved t j)" if "k \<le> pieces t" for k
    using concat_pieces [OF t that] blocks_done_le by auto
  show "n = transfer_events t \<Longrightarrow> concat (sent (msc_outs (w_msc w))) = concat d0 @ (if t_write t then [] else all_moved t (t_blocks t))"
    using xfer_state_bound(2) [OF r] concat_pieces [OF t, of "pieces t"] blocks_done_all [of t "pieces t"] by (simp add: xfer_finished_def)
  from r show "\<exists>j \<le> t_blocks t. concat (sent (msc_outs (w_msc w))) = concat d0 @ (if t_write t then [] else all_moved t j)"
  proof (cases rule: xfer_state_cases)
    case 1
    then show ?thesis using p [of "pieces t"] by (simp add: xfer_finished_def)
  next
    case (2 c i)
    let ?k = "c (usb_stage t) + (if usb_stage t \<in> at_work t c then 1 else 0)"
    have s: "sent (msc_outs (w_msc w)) = d0 @ pieces_out t c (at_work t c)"
      using 2(1) unfolding xfer_inv_def xfer_core_def by blast
    have "?k \<le> pieces t" using xfer_inv_counts(3) [OF 2(1), of "usb_stage t"] at_workD [of "usb_stage t" t c] by auto
    from p [OF this] show ?thesis unfolding s pieces_out_def .
  qed
qed

definition stored :: "transfer \<Rightarrow> nat \<Rightarrow> card \<Rightarrow> bool" where
  "stored t j x \<longleftrightarrow>
     (\<forall>i < j. x (t_base t + of_nat i) = moved_block t i)
   \<and> (\<forall>a. (\<forall>i < j. a \<noteq> t_base t + of_nat i) \<longrightarrow> x a = t_card t a)"

lemma card_at_stored:
  assumes "transfer_ok t" "t_write t"
  shows "stored t (blocks_done t k) (card_at t k)"
proof -
  let ?j = "blocks_done t k"
  have l: "length (all_moved t ?j) = 512 * ?j" by (rule length_all_moved [OF assms(1) blocks_done_le])
  have j: "?j \<le> 2 ^ 32" using blocks_done_le [of t k] assms(1) by (simp add: transfer_ok_def)
  have "card_at t k (t_base t + of_nat i) = moved_block t i" if "i < ?j" for i
  proof -
    have "slice (all_moved t ?j) (512 * i) 512 = moved_block t i"
      unfolding all_moved_def
      by (rule slice_concat_const [OF _ that]) (use length_moved_block [OF assms(1)] blocks_done_le [of t k] in simp)
    then show ?thesis using card_write_block [OF l j that] assms(2) by (simp add: card_at_def)
  qed
  then show ?thesis using card_write_other assms(2) by (auto simp: stored_def card_at_def)
qed

lemma xfer_state_stored:
  assumes r: "xfer_state t tag d0 s0 n w d" and t: "transfer_ok t" "t_write t"
  shows "\<exists>j \<le> t_blocks t. stored t j (w_card w)"
    "n = transfer_events t \<Longrightarrow> stored t (t_blocks t) (w_card w) \<and> d = []"
proof -
  note s = card_at_stored [OF t]
  have all: "blocks_done t (pieces t) = t_blocks t" by (simp add: blocks_done_all)
  show "\<exists>j \<le> t_blocks t. stored t j (w_card w)"
    using r by (cases rule: xfer_state_cases) (use s blocks_done_le in \<open>auto simp: outside_at_def\<close>)
  show "stored t (t_blocks t) (w_card w) \<and> d = []" if "n = transfer_events t"
    using xfer_state_bound(2) [OF r that] s [of "pieces t"] t by (simp add: outside_at_def all host_rest_def transfer_ok_def)
qed

lemma xfer_state_run:
  assumes "transfer_run (t_fw t) (t_aes t) w0 e0 n w d" "xfer_state t tag d0 s0 0 w0 e0" "transfer_ok t"
  shows "xfer_state t tag d0 s0 n w d"
  using assms
proof (induction rule: transfer_run.induct)
  case (step n w d e w')
  then have "xfer_state t tag d0 s0 n w d" by simp
  from xfer_state_step [OF this assms(3) step.hyps(2)] show ?case using step.hyps(3) by auto
qed

text \<open>A transfer can always be brought to its end.\<close>

lemma transfer_ends:
  assumes "xfer_state t tag d0 s0 0 w0 e0" "transfer_ok t" "n \<le> transfer_events t"
  shows "\<exists>w d. transfer_run (t_fw t) (t_aes t) w0 e0 n w d"
  using assms(3)
proof (induction n)
  case 0
  show ?case using transfer_run.start by blast
next
  case (Suc n)
  then obtain w d where r: "transfer_run (t_fw t) (t_aes t) w0 e0 n w d" by auto
  note st = xfer_state_run [OF r assms(1,2)]
  obtain e where e: "due e w d" using xfer_state_due [OF st] Suc.prems by auto
  obtain w' where "msc_step (t_fw t) (t_aes t) e w = Some w'" using xfer_state_step [OF st assms(2) e] by blast
  then show ?case using transfer_run.step [OF r e] by blast
qed

section \<open>The start\<close>

text \<open>What a READ10 or WRITE10 command means in the state it meets; \<open>d\<close> is what the host is to send.\<close>

definition transfer_of :: "bool \<Rightarrow> bytes \<Rightarrow> fw \<Rightarrow> cipher \<Rightarrow> msc_world \<Rightarrow> msc_cbw \<Rightarrow> transfer" where
  "transfer_of wr d s aes w c =
     (let m = w_msc w; lun = unat (cbw_bLUN c); v = g_scsi_volume m lun; a = cdb_addr (cbw_CB c)
      in \<lparr>t_write = wr, t_data = d, t_crypt = has_flag HC_VOLUME_FLAG_ENCRYPTED v, t_lun = lun, t_addr = a, t_blocks = cdb_len (cbw_CB c),
          t_base = of_nat a + of_nat (EMMC_STORAGE_FIRST_BLOCK * SUB_BLOCKS_PER_BLOCK) + vol_region_start v * g_scsi_region_size_blocks m,
          t_card = w_card w, t_volumes = volumes m, t_fw = s, t_aes = aes\<rparr>)"

text \<open>
  A well formed command for a volume that is visible, within the range, when no other command runs;
  for a write the volume is writable.
\<close>

definition transfer_request :: "bool \<Rightarrow> msc_world \<Rightarrow> msc_cbw \<Rightarrow> bool" where
  "transfer_request wr w c \<longleftrightarrow>
     (let m = w_msc w; a = cdb_addr (cbw_CB c); n = cdb_len (cbw_CB c); lun = unat (cbw_bLUN c)
      in bot_state m = BOT_IDLE \<and> maxBufferSize (usbBulkBufferFIFO m) = 16384 \<and> bufferCount (usbBulkBufferFIFO m) = 4
       \<and> (\<forall>i < 4. length (buffers m i) = 16384) \<and> scsi_blk_size m = 512
       \<and> cbw_valid USBD_BOT_CBW_LENGTH c \<and> STORAGE_IsReady lun m \<and> a + n \<le> unat (scsi_blk_nbr m)
       \<and> 0 < n \<and> unat (cbw_dDataLength c) = n * 512
       \<and> (if wr then cbw_CB c ! 0 = 0x2A \<and> and (cbw_bmFlags c) 0x80 \<noteq> 0x80 \<and> \<not> STORAGE_IsWriteProtected lun m
          else cbw_CB c ! 0 = 0x28 \<and> and (cbw_bmFlags c) 0x80 = 0x80))"

lemma cdb_bounds: "cdb_addr p < 2 ^ 32" "cdb_len p < 65536"
proof -
  have u: "unat (x :: u8) \<le> 255" for x using unsigned_less [of x, where ?'a = nat] by simp
  show "cdb_addr p < 2 ^ 32" using u [of "p ! 2"] u [of "p ! 3"] u [of "p ! 4"] u [of "p ! 5"] by (simp add: cdb_addr_def)
  show "cdb_len p < 65536" using u [of "p ! 7"] u [of "p ! 8"] by (simp add: cdb_len_def)
qed

lemma to_signed_u32: "n < 2 ^ 32 \<Longrightarrow> (of_int (to_signed n) :: u32) = of_nat n"
  by (auto simp: to_signed_def)

abbreviation (input) xfer_stages :: "bool \<Rightarrow> bool \<Rightarrow> (nat \<Rightarrow> stage_fn) \<Rightarrow> nat \<Rightarrow> stage_fn" where
  "xfer_stages wr \<equiv> (if wr then write_stages else read_stages)"

abbreviation (input) xfer_complete_fn :: "bool \<Rightarrow> complete_fn" where
  "xfer_complete_fn wr \<equiv> (if wr then writeProcessingComplete else readProcessingComplete)"

text \<open>The state in which the stages start.\<close>

definition xfer_first :: "transfer \<Rightarrow> u32 \<Rightarrow> msc \<Rightarrow> bool" where
  "xfer_first t tag m \<longleftrightarrow>
     volumes m = t_volumes t \<and> fifo_on_complete m = xfer_complete_fn (t_write t) \<and> (\<forall>i < 4. length (buffers m i) = 16384)
   \<and> bot_state m = (if t_write t then BOT_DATA_OUT else BOT_DATA_IN)
   \<and> cbw_CB (cbw m) ! 0 = (if t_write t then 0x2A else 0x28) \<and> csw_dTag (csw m) = tag
   \<and> mmcDataToTransfer m = int (512 * t_blocks t) \<and> storage_card_addr m = t_base t \<and> scsi_blk_len m = 512 * t_blocks t
   \<and> csw_dDataResidue (csw m) = of_nat (512 * t_blocks t)
   \<and> (t_crypt t \<longrightarrow> g_cryptDataToTransfer m = int (512 * t_blocks t) \<and> g_scsi_cur_aes_sector m = of_nat (t_addr t))"

lemma xfer_core_start:
  assumes t: "transfer_ok t" and n: "numStages bf = stages t" "bufferCount bf = 4" "maxBufferSize bf = 16384"
    "processStage bf = xfer_stages (t_write t) (t_crypt t) old" and bf: "snd (bufferFIFO_start len bf) = bf'"
    and m: "usbBulkBufferFIFO m = bf'" "xfer_first t tag m"
  shows "\<exists>m'. fifo_calls (t_fw t) [start_call bf' 0] m = Some m'
    \<and> (\<exists>i. xfer_inv t tag (sent (msc_outs m)) (statuses (msc_outs m)) (\<lambda>_. 0) i m')"
proof -
  let ?c = "\<lambda>_ :: nat. 0 :: nat"
  have N: "0 < pieces t" by (rule pieces_pos [OF t])
  have st: "bufferFIFO_start len bf = ([start_call bf' 0], bf')" "maxBufferSize bf' = 16384"
    "processStage bf' = xfer_stages (t_write t) (t_crypt t) old"
    using chunk_start [of len bf "fst (bufferFIFO_start len bf)" bf'] n bf by (auto simp: prod_eq_iff)
  have inv: "fifo_inv (stages t) 4 (pieces t) ?c bf'"
    using fifo_inv_start [of bf "pieces t" len] N bf n(1,2) by simp
  have static: "xfer_static t tag m"
    using m st(2,3) unfolding xfer_static_def xfer_first_def
    by (simp add: read_stages_def write_stages_def usb_stage_def mmc_stage_def last_stage_def)
  have counters: "xfer_counters t ?c m" using m(2) by (simp add: xfer_counters_def xfer_first_def)
  have regs: "xfer_regs t ?c {} 0 m" using m(2) by (simp add: xfer_regs_def xfer_first_def)
  have data: "fifo_data (source_piece t) (stage_fun t) (piece_len t) (stages t) 4 ?c bf' (slot_data m)"
    by (simp add: fifo_data_def waiting_def)
  have core: "xfer_core t tag (sent (msc_outs m)) (statuses (msc_outs m)) ?c {} 0 m"
    unfolding xfer_core_def m(1) using static counters regs data inv by (simp add: pieces_out_def)
  have w: "at_work t ?c = {0}"
    using N by (auto simp: at_work_def stage_ready_def write_off_def stages_def)
  then have "stage_ready (stages t) 4 (pieces t) ?c 0" by (auto simp: at_work_def)
  then obtain m' where m': "fifo_call (t_fw t) (start_call bf' 0) m = Some m'"
    "xfer_core t tag (sent (msc_outs m)) (statuses (msc_outs m)) ?c {0} (sector_pos t {0} 0) m'"
    using start_stage [OF core t, of 0] m(1) by auto
  then have "xfer_inv t tag (sent (msc_outs m)) (statuses (msc_outs m)) ?c (sector_pos t {0} 0) m'" by (simp add: xfer_inv_def w)
  then show ?thesis using m'(1) by auto
qed

lemma range_ok:
  assumes "a + n \<le> unat (scsi_blk_nbr m)"
  shows "SCSI_CheckAddressRange (of_nat a) (of_nat n) m = (0, m)"
proof -
  have "a + n < 2 ^ 32" using assms unsigned_less [of "scsi_blk_nbr m", where ?'a = nat] by simp
  then have "unat (of_nat (a + n) :: u32) = a + n" by (simp add: unsigned_of_nat take_bit_nat_eq_self del: of_nat_add)
  then show ?thesis using assms by (simp add: SCSI_CheckAddressRange_def word_less_nat_alt)
qed

text \<open>The checks of the command pass, and the variables of the transfer are set.\<close>

definition request_state :: "bool \<Rightarrow> msc_cbw \<Rightarrow> msc \<Rightarrow> msc" where
  "request_state wr c m = m\<lparr>cbw := c, csw := (csw m)\<lparr>csw_dTag := cbw_dTag c, csw_dDataResidue := cbw_dDataLength c\<rparr>,
     scsi_blk_addr := cdb_addr (cbw_CB c) * 512, scsi_blk_len := cdb_len (cbw_CB c) * 512,
     bot_state := (if wr then BOT_DATA_OUT else BOT_DATA_IN)\<rparr>"

lemma request_runs:
  assumes q: "transfer_request wr w c"
  defines "m \<equiv> w_msc w" and "lun \<equiv> unat (cbw_bLUN c)"
  shows "SCSI_ProcessCmd s lun (cbw_CB c) (m\<lparr>cbw := c, csw := (csw m)\<lparr>csw_dTag := cbw_dTag c, csw_dDataResidue := cbw_dDataLength c\<rparr>\<rparr>)
    = start_transfer s (xfer_stages wr) (xfer_complete_fn wr) lun (cdb_addr (cbw_CB c)) (cdb_len (cbw_CB c)) (request_state wr c m)"
proof -
  define a n where "a = cdb_addr (cbw_CB c)" and "n = cdb_len (cbw_CB c)"
  have rq: "bot_state m = BOT_IDLE" "scsi_blk_size m = 512" "STORAGE_IsReady lun m" "a + n \<le> unat (scsi_blk_nbr m)"
    "unat (cbw_dDataLength c) = n * 512"
    using q by (simp_all add: transfer_request_def Let_def lun_def a_def n_def m_def)
  show ?thesis
  proof (cases wr)
    case True
    have "cbw_CB c ! 0 = 0x2A" "and (cbw_bmFlags c) 0x80 \<noteq> 0x80" "\<not> STORAGE_IsWriteProtected lun m"
      using q True by (simp_all add: transfer_request_def Let_def lun_def m_def)
    then show ?thesis
      using True rq range_ok [of a n] unfolding SCSI_ProcessCmd_def SCSI_Write10_def a_def [symmetric] n_def [symmetric]
      by (simp add: Let_def request_state_def STORAGE_IsReady_def STORAGE_IsWriteProtected_def a_def n_def)
  next
    case False
    have "cbw_CB c ! 0 = 0x28" "and (cbw_bmFlags c) 0x80 = 0x80"
      using q False by (simp_all add: transfer_request_def Let_def)
    then show ?thesis
      using False rq range_ok [of a n] unfolding SCSI_ProcessCmd_def SCSI_Read10_def a_def [symmetric] n_def [symmetric]
      by (simp add: Let_def request_state_def STORAGE_IsReady_def a_def n_def)
  qed
qed

lemma start_transfer_runs:
  assumes q: "transfer_request wr w c" and t: "t = transfer_of wr d s aes w c" "transfer_ok t"
  defines "m \<equiv> w_msc w"
  shows "\<exists>m' i. start_transfer s (xfer_stages wr) (xfer_complete_fn wr) (t_lun t) (t_addr t) (t_blocks t) (request_state wr c m) = Some (0, m')
    \<and> xfer_inv t (cbw_dTag c) (sent (msc_outs m)) (statuses (msc_outs m)) (\<lambda>_. 0) i m'"
proof -
  let ?m1 = "request_state wr c m"
  have tf: "t_write t = wr" "t_crypt t \<longleftrightarrow> has_flag HC_VOLUME_FLAG_ENCRYPTED (g_scsi_volume m (t_lun t))" "t_lun t = unat (cbw_bLUN c)"
    "t_addr t = cdb_addr (cbw_CB c)" "t_blocks t = cdb_len (cbw_CB c)" "t_fw t = s" "t_volumes t = volumes m"
    "t_base t = of_nat (t_addr t) + 34080 + vol_region_start (g_scsi_volume m (t_lun t)) * g_scsi_region_size_blocks m"
    by (simp_all add: t(1) transfer_of_def Let_def m_def)
  have rq: "maxBufferSize (usbBulkBufferFIFO m) = 16384" "bufferCount (usbBulkBufferFIFO m) = 4" "\<forall>i < 4. length (buffers m i) = 16384"
    "unat (cbw_dDataLength c) = t_blocks t * 512" "cbw_CB c ! 0 = (if wr then 0x2A else 0x28)"
    using q by (simp_all add: transfer_request_def Let_def tf m_def split: if_splits)
  have n: "t_blocks t < 65536" "t_addr t < 2 ^ 32" using cdb_bounds by (simp_all add: tf)
  define bf where "bf = (usbBulkBufferFIFO m)\<lparr>numStages := stages t, processStage := xfer_stages wr (t_crypt t) (processStage (usbBulkBufferFIFO m))\<rparr>"
  define len where "len = int (min (t_blocks t * 512) 16384)"
  define bf' where "bf' = snd (bufferFIFO_start len bf)"
  define m2 where "m2 = (let m = ?m1\<lparr>mmcDataToTransfer := int (512 * t_blocks t), mmcBlocksToTransfer := int (t_blocks t),
       mmcBlockAddr := to_signed (t_addr t), mmcDataTransferred := 0\<rparr>
     in (if t_crypt t then m\<lparr>g_cryptDataToTransfer := int (512 * t_blocks t), g_scsi_cur_aes_sector := of_nat (t_addr t)\<rparr> else m)
       \<lparr>fifo_on_complete := xfer_complete_fn wr, usbBulkBufferFIFO := bf'\<rparr>)"
  have ts: "to_signed (t_blocks t * 512 mod 2 ^ 32) = int (512 * t_blocks t)" using n(1) by simp
  have bs: "bufferFIFO_start len bf = ([start_call bf' 0], bf')"
    using chunk_start [of len bf "fst (bufferFIFO_start len bf)" bf'] by (simp add: bf'_def bf_def prod_eq_iff)
  have st: "start_transfer s (xfer_stages wr) (xfer_complete_fn wr) (t_lun t) (t_addr t) (t_blocks t) ?m1
      = map_option (Pair 0) (fifo_calls s [start_call bf' 0] m2)"
    using bs ts tf(2) rq(1)
    by (cases "t_crypt t")
      (simp_all add: start_transfer_def fifo_op_def Let_def request_state_def m2_def len_def bf_def stages_def tf(5) [symmetric])
  have "cbw_dDataLength c = of_nat (512 * t_blocks t)"
  proof -
    have "(of_nat (unat (cbw_dDataLength c)) :: u32) = cbw_dDataLength c" by simp
    then show ?thesis unfolding rq(4) by (simp add: mult.commute)
  qed
  then have "xfer_first t (cbw_dTag c) m2"
    using n(2) rq(3,5) tf
    by (simp add: xfer_first_def m2_def request_state_def Let_def storage_card_addr_def to_signed_u32 volumes_def)
  moreover have o2: "msc_outs m2 = msc_outs m" "usbBulkBufferFIFO m2 = bf'" by (simp_all add: m2_def request_state_def Let_def)
  moreover have "numStages bf = stages t" "bufferCount bf = 4" "maxBufferSize bf = 16384"
    "processStage bf = xfer_stages (t_write t) (t_crypt t) (processStage (usbBulkBufferFIFO m))"
    using rq(1,2) tf(1) by (simp_all add: bf_def)
  ultimately have "\<exists>m'. fifo_calls (t_fw t) [start_call bf' 0] m2 = Some m'
    \<and> (\<exists>i. xfer_inv t (cbw_dTag c) (sent (msc_outs m)) (statuses (msc_outs m)) (\<lambda>_. 0) i m')"
    using xfer_core_start [OF t(2), of bf _ len bf' m2 "cbw_dTag c"] unfolding bf'_def by simp
  then show ?thesis unfolding st tf(6) by auto
qed

lemma transfer_started:
  assumes q: "transfer_request wr w c" and t: "t = transfer_of wr d s aes w c" "transfer_ok t"
  shows "\<exists>w1. msc_step s aes (Ev_cbw c 31) w = Some w1
    \<and> xfer_state t (cbw_dTag c) (sent (msc_outs (w_msc w))) (statuses (msc_outs (w_msc w))) 0 w1 d"
proof -
  let ?m = "w_msc w"
  have tf: "t_lun t = unat (cbw_bLUN c)" "t_addr t = cdb_addr (cbw_CB c)" "t_blocks t = cdb_len (cbw_CB c)" "t_card t = w_card w" "t_data t = d"
    by (simp_all add: t(1) transfer_of_def Let_def)
  obtain m' i where m': "start_transfer s (xfer_stages wr) (xfer_complete_fn wr) (t_lun t) (t_addr t) (t_blocks t) (request_state wr c ?m) = Some (0, m')"
    "xfer_inv t (cbw_dTag c) (sent (msc_outs ?m)) (statuses (msc_outs ?m)) (\<lambda>_. 0) i m'"
    using start_transfer_runs [OF q t] by blast
  have cmd: "SCSI_ProcessCmd s (unat (cbw_bLUN c)) (cbw_CB c)
      (?m\<lparr>cbw := c, csw := (csw ?m)\<lparr>csw_dTag := cbw_dTag c, csw_dDataResidue := cbw_dDataLength c\<rparr>\<rparr>) = Some (0, m')"
    using request_runs [OF q, of s] m'(1) unfolding tf by (rule trans)
  have "bot_state m' \<in> {BOT_DATA_IN, BOT_DATA_OUT}" using xfer_parts(1) [OF m'(2)] by (simp add: xfer_static_def)
  then have "msc_step s aes (Ev_cbw c 31) w = Some (w\<lparr>w_msc := m'\<rparr>)"
    using q cmd by (auto simp: msc_step.simps transfer_request_def MSC_BOT_DataOut_def MSC_BOT_CBW_Decode_def Let_def)
  moreover have "xfer_state t (cbw_dTag c) (sent (msc_outs ?m)) (statuses (msc_outs ?m)) 0 (w\<lparr>w_msc := m'\<rparr>) d"
  proof -
    have "sector_at t (\<lambda>_. 0) i = 0" by (simp add: sector_at_def at_work_def stage_ready_def)
    then have "events_done t (\<lambda>_. 0) (sector_at t (\<lambda>_. 0) i) = 0" by (simp add: events_done_def)
    moreover have "outside_at t (\<lambda>_. 0) (w\<lparr>w_msc := m'\<rparr>) d" using tf by (simp add: outside_at_def host_rest_def)
    ultimately show ?thesis
      using m'(2) pieces_pos [OF t(2)] by (auto simp: xfer_state_def intro!: exI [of _ "\<lambda>_. 0"] exI [of _ i])
  qed
  ultimately show ?thesis by blast
qed

end
