(* ===== verification/Scsi_Read.thy ===== *)
theory Scsi_Read
  imports Scsi_Transfer
begin

text \<open>
  READ10 and WRITE10 from end to end: what a read sends is the content of the volume, what a write
  leaves on the card is what the host has sent, and a read after a write gives it back.
\<close>

section \<open>READ10\<close>

lemma transfer_of_ok:
  assumes q: "transfer_request wr w c" and card: "\<And>a. length (w_card w a) = 512"
    and cipher: "\<And>e k iv b. length b = 512 \<Longrightarrow> length (aes e k iv b) = 512"
    and fmt: "rp_format s = ROOT_BLOCK_FORMAT_CURRENT" "rp_db_format s = DB_FORMAT_CURRENT \<or> rp_db_format s = DB_FORMAT_2"
    and d: "wr \<Longrightarrow> length d = 512 * cdb_len (cbw_CB c)"
  shows "transfer_ok (transfer_of wr d s aes w c)"
  using q card cipher fmt d cdb_bounds(2) by (simp add: transfer_ok_def transfer_of_def transfer_request_def Let_def)

lemma transfer_correct:
  assumes q: "transfer_request wr w c" and ok: "transfer_ok (transfer_of wr d s aes w c)"
  obtains w1 where "msc_step s aes (Ev_cbw c 31) w = Some w1"
    "xfer_state (transfer_of wr d s aes w c) (cbw_dTag c) (sent (msc_outs (w_msc w))) (statuses (msc_outs (w_msc w))) 0 w1 d"
    "\<And>n w2 e. transfer_run s aes w1 d n w2 e
       \<Longrightarrow> xfer_state (transfer_of wr d s aes w c) (cbw_dTag c) (sent (msc_outs (w_msc w))) (statuses (msc_outs (w_msc w))) n w2 e"
proof -
  obtain w1 where w1: "msc_step s aes (Ev_cbw c 31) w = Some w1"
    "xfer_state (transfer_of wr d s aes w c) (cbw_dTag c) (sent (msc_outs (w_msc w))) (statuses (msc_outs (w_msc w))) 0 w1 d"
    using transfer_started [OF q refl ok] by blast
  moreover have "t_fw (transfer_of wr d s aes w c) = s" "t_aes (transfer_of wr d s aes w c) = aes" by (simp_all add: transfer_of_def Let_def)
  ultimately show ?thesis using that xfer_state_run [OF _ w1(2) ok] by simp
qed

text \<open>The status after a transfer.\<close>

lemma transfer_status:
  assumes "xfer_state t tag d0 s0 n w d" "n = transfer_events t"
  shows "bot_state (w_msc w) = BOT_IDLE" "\<exists>st. statuses (msc_outs (w_msc w)) = s0 @ [st] \<and> csw_bStatus st = CSW_CMD_PASSED \<and> csw_dTag st = tag
    \<and> csw_dDataResidue st = 0"
  using xfer_state_bound(2) [OF assms] by (auto simp: xfer_finished_def)

text \<open>
  C14. A READ10 delivers the blocks of the volume. For a well formed command for a visible volume,
  whatever the order in which the card, the cipher and the USB side report their ends: what has
  gone out at any moment is a prefix of the blocks asked for, as the card holds them, decrypted
  with the key and the vector of their sector if the volume is encrypted; no report fails; the
  transfer never gets stuck before its last event, no status is sent before, and after it all
  blocks have gone out, followed by one status: passed, with the tag of the command and
  residue 0, and the transport is idle. The number of events is known beforehand.
\<close>

theorem scsi_read_delivers:
  assumes q: "transfer_request False w c" and card: "\<And>a. length (w_card w a) = 512"
    and cipher: "\<And>e k iv b. length b = 512 \<Longrightarrow> length (aes e k iv b) = 512"
    and fmt: "rp_format s = ROOT_BLOCK_FORMAT_CURRENT" "rp_db_format s = DB_FORMAT_CURRENT \<or> rp_db_format s = DB_FORMAT_2"
  defines "t \<equiv> transfer_of False [] s aes w c"
  defines "out \<equiv> \<lambda>w. concat (sent (msc_outs (w_msc w)))" and "status \<equiv> \<lambda>w. statuses (msc_outs (w_msc w))"
  shows "\<exists>w1. msc_step s aes (Ev_cbw c USBD_BOT_CBW_LENGTH) w = Some w1
    \<and> (\<forall>n w2 d. transfer_run s aes w1 [] n w2 d \<longrightarrow>
         n \<le> transfer_events t
       \<and> (\<exists>j \<le> t_blocks t. out w2 = out w @ concat (map (moved_block t) [0..<j]))
       \<and> (\<forall>e. due e w2 d \<longrightarrow> (\<exists>w3. msc_step s aes e w2 = Some w3))
       \<and> (n < transfer_events t \<longrightarrow> (\<exists>e. due e w2 d) \<and> status w2 = status w)
       \<and> (n = transfer_events t \<longrightarrow> out w2 = out w @ concat (map (moved_block t) [0..<t_blocks t]) \<and> bot_state (w_msc w2) = BOT_IDLE
            \<and> (\<exists>st. status w2 = status w @ [st] \<and> csw_bStatus st = CSW_CMD_PASSED \<and> csw_dTag st = cbw_dTag c
                 \<and> csw_dDataResidue st = 0)))"
proof -
  have tf: "t_fw t = s" "t_aes t = aes" "\<not> t_write t" by (simp_all add: t_def transfer_of_def Let_def)
  have ok: "transfer_ok t" unfolding t_def by (rule transfer_of_ok [OF q card cipher fmt]) simp_all
  obtain w1 where w1: "msc_step s aes (Ev_cbw c 31) w = Some w1"
    and run: "\<And>n w2 d. transfer_run s aes w1 [] n w2 d
      \<Longrightarrow> xfer_state t (cbw_dTag c) (sent (msc_outs (w_msc w))) (statuses (msc_outs (w_msc w))) n w2 d"
    using transfer_correct [OF q ok [unfolded t_def]] unfolding t_def by metis
  show ?thesis
  proof (rule exI [of _ w1], intro conjI allI impI)
    show "msc_step s aes (Ev_cbw c 31) w = Some w1" by (fact w1)
  next
    fix n w2 d assume r: "transfer_run s aes w1 [] n w2 d"
    note st = run [OF r]
    show "n \<le> transfer_events t" using xfer_state_bound(1) [OF st] .
    show "\<exists>j \<le> t_blocks t. out w2 = out w @ concat (map (moved_block t) [0..<j])"
      using xfer_state_sent(1) [OF st ok] tf(3) by (simp add: out_def all_moved_def)
    show "\<exists>w3. msc_step s aes e w2 = Some w3" if "due e w2 d" for e
      using xfer_state_step [OF st ok that] by (auto simp: tf)
    show "\<exists>e. due e w2 d" "status w2 = status w" if "n < transfer_events t"
      using xfer_state_due [OF st that] xfer_state_bound(3) [OF st that] by (simp_all add: status_def)
    assume n: "n = transfer_events t"
    show "out w2 = out w @ concat (map (moved_block t) [0..<t_blocks t])"
      using xfer_state_sent(2) [OF st ok n] tf(3) by (simp add: out_def all_moved_def)
    show "bot_state (w_msc w2) = BOT_IDLE"
      "\<exists>st. status w2 = status w @ [st] \<and> csw_bStatus st = CSW_CMD_PASSED \<and> csw_dTag st = cbw_dTag c \<and> csw_dDataResidue st = 0"
      using transfer_status [OF st n] by (simp_all add: status_def)
  qed
qed

text \<open>A logged in device, a command for 33 blocks of the encrypted volume from address 5 on.\<close>

definition scsi_example_fw :: fw where
  "scsi_example_fw = fw_reset\<lparr>root_page := splice (zeros ROOT_PAGE_SIZE) RP_FORMAT (le16 ROOT_BLOCK_FORMAT_CURRENT @ le16 DB_FORMAT_CURRENT)\<rparr>"

definition scsi_example_world :: msc_world where
  "scsi_example_world =
     (let w = world_0 30000000
      in w\<lparr>w_msc := (usbd_scsi_device_state_change DS_LOGGED_IN (w_msc w))\<lparr>scsi_blk_size := 512, scsi_blk_nbr := 1000000\<rparr>, w_state := DS_LOGGED_IN\<rparr>)"

definition scsi_example_cbw :: msc_cbw where
  "scsi_example_cbw = cbw_example 1 0x80 16896 [0x28, 0, 0, 0, 0, 5, 0, 0, 33, 0]"

definition scsi_example_aes :: cipher where
  "scsi_example_aes e k iv d = map (\<lambda>x. if e then x - 1 else x + 1) d"

definition scsi_example_wcbw :: msc_cbw where
  "scsi_example_wcbw = cbw_example 1 0 16896 [0x2A, 0, 0, 0, 0, 5, 0, 0, 33, 0]"

lemma concat_replicate_const: "concat (map (\<lambda>_. replicate n x) [0..<k]) = replicate (n * k) x"
  by (induction k) (simp_all add: replicate_add [symmetric] add.commute)

lemma scsi_example_simps:
  "unat (cbw_bLUN scsi_example_cbw) = 1" "unat (cbw_bLUN scsi_example_wcbw) = 1"
  "has_flag HC_VOLUME_FLAG_ENCRYPTED (g_scsi_volume (w_msc scsi_example_world) 1)"
  "cdb_addr (cbw_CB scsi_example_cbw) = 5" "cdb_len (cbw_CB scsi_example_cbw) = 33"
  "cdb_addr (cbw_CB scsi_example_wcbw) = 5" "cdb_len (cbw_CB scsi_example_wcbw) = 33"
  "msc_outs (w_msc scsi_example_world) = []" "w_card scsi_example_world a = replicate 512 0"
  by (simp_all add: scsi_example_cbw_def scsi_example_wcbw_def cbw_example_def cdb_addr_def cdb_len_def scsi_example_world_def world_0_def
      usbd_scsi_init_def msc_reset_def usbd_scsi_device_state_change_def volume_state_change_def has_flag_def locked_state_def Let_def)

lemma scsi_example_request: "transfer_request False scsi_example_world scsi_example_cbw" "transfer_request True scsi_example_world scsi_example_wcbw"
proof -
  let ?m = "w_msc scsi_example_world"
  have "vol_visible (g_scsi_volume ?m 1)" "vol_writable (g_scsi_volume ?m 1)" "g_num_scsi_volumes ?m = 2"
    by (simp_all add: scsi_example_world_def world_0_def usbd_scsi_init_def msc_reset_def usbd_scsi_device_state_change_def
        volume_state_change_def has_flag_def locked_state_def Let_def)
  then have v: "STORAGE_IsReady 1 ?m" "\<not> STORAGE_IsWriteProtected 1 ?m" by (simp_all add: STORAGE_IsReady_def STORAGE_IsWriteProtected_def)
  have w: "bot_state ?m = BOT_IDLE" "maxBufferSize (usbBulkBufferFIFO ?m) = 16384"
    "bufferCount (usbBulkBufferFIFO ?m) = 4" "length (buffers ?m i) = 16384" "scsi_blk_size ?m = 512" "scsi_blk_nbr ?m = 1000000" for i
    by (simp_all add: scsi_example_world_def world_0_def usbd_scsi_init_def msc_reset_def msc_fifo_0_def
        usbd_scsi_device_state_change_def Let_def)
  show "transfer_request False scsi_example_world scsi_example_cbw"
    using v by (simp add: transfer_request_def w scsi_example_simps)
      (simp add: scsi_example_cbw_def cbw_example_def cbw_valid_def)
  show "transfer_request True scsi_example_world scsi_example_wcbw"
    using v by (simp add: transfer_request_def w scsi_example_simps)
      (simp add: scsi_example_wcbw_def cbw_example_def cbw_valid_def)
qed

lemma scsi_example_format: "rp_format scsi_example_fw = ROOT_BLOCK_FORMAT_CURRENT" "rp_db_format scsi_example_fw = DB_FORMAT_CURRENT"
  using rd16_two [of RP_FORMAT "zeros ROOT_PAGE_SIZE" 3 3] by (simp_all add: scsi_example_fw_def rp_format_def rp_db_format_def)

lemma scsi_example_length: "length (scsi_example_aes e k iv d) = length d"
  by (simp add: scsi_example_aes_def)

theorem scsi_read_delivers_witness:
  "\<exists>w1. msc_step scsi_example_fw scsi_example_aes (Ev_cbw scsi_example_cbw 31) scsi_example_world = Some w1
     \<and> (\<forall>n w2 d. transfer_run scsi_example_fw scsi_example_aes w1 [] n w2 d \<longrightarrow>
          n \<le> 37 \<and> (n < 37 \<longrightarrow> (\<exists>e. due e w2 d)) \<and> (n = 37 \<longrightarrow> concat (sent (msc_outs (w_msc w2))) = replicate 16896 1))"
proof -
  let ?t = "transfer_of False [] scsi_example_fw scsi_example_aes scsi_example_world scsi_example_cbw"
  have t: "t_crypt ?t" "t_blocks ?t = 33" "t_card ?t a = replicate 512 0" "t_aes ?t = scsi_example_aes" "\<not> t_write ?t" for a
    using scsi_example_simps(3) by (simp_all add: transfer_of_def Let_def scsi_example_simps)
  have ev: "transfer_events ?t = 37" by (simp add: transfer_events_def pieces_def t)
  have vb: "moved_block ?t = (\<lambda>_. replicate 512 1)"
    by (rule ext) (simp add: moved_block_def crypt_block_def source_block_def card_block_def t scsi_example_aes_def map_replicate_const)
  have all: "concat (map (moved_block ?t) [0..<t_blocks ?t]) = replicate 16896 1" unfolding vb t concat_replicate_const by simp
  show ?thesis
    using scsi_read_delivers [OF scsi_example_request(1), of scsi_example_aes scsi_example_fw] scsi_example_format scsi_example_simps(9)
      scsi_example_length
    unfolding ev all by (auto simp: scsi_example_simps(8))
qed

section \<open>WRITE10\<close>

text \<open>
  C13. A WRITE10 stores what the host sends. For a well formed command for a visible, writable
  volume and as many bytes as it asks for, whatever the order in which the card, the cipher and
  the host report or send: the card holds at any moment the first blocks of the range, encrypted
  with the key and the vector of their sector if the volume is encrypted, and is unchanged
  everywhere else; no report fails; the transfer never gets stuck before its last event, no
  status is sent before, and after it all blocks of the range are there, the host has sent
  everything, one status has gone out: passed, with the tag of the command and residue 0, and
  the transport is idle.
\<close>

theorem scsi_write_stores:
  assumes q: "transfer_request True w c" and data: "length data = 512 * cdb_len (cbw_CB c)" and card: "\<And>a. length (w_card w a) = 512"
    and cipher: "\<And>e k iv b. length b = 512 \<Longrightarrow> length (aes e k iv b) = 512"
    and fmt: "rp_format s = ROOT_BLOCK_FORMAT_CURRENT" "rp_db_format s = DB_FORMAT_CURRENT \<or> rp_db_format s = DB_FORMAT_2"
  defines "t \<equiv> transfer_of True data s aes w c"
  defines "status \<equiv> \<lambda>w. statuses (msc_outs (w_msc w))"
  shows "\<exists>w1. msc_step s aes (Ev_cbw c USBD_BOT_CBW_LENGTH) w = Some w1
    \<and> (\<forall>n w2 d. transfer_run s aes w1 data n w2 d \<longrightarrow>
         n \<le> transfer_events t
       \<and> (\<exists>j \<le> t_blocks t. stored t j (w_card w2))
       \<and> (\<forall>e. due e w2 d \<longrightarrow> (\<exists>w3. msc_step s aes e w2 = Some w3))
       \<and> (n < transfer_events t \<longrightarrow> (\<exists>e. due e w2 d) \<and> status w2 = status w)
       \<and> (n = transfer_events t \<longrightarrow> stored t (t_blocks t) (w_card w2) \<and> d = [] \<and> bot_state (w_msc w2) = BOT_IDLE
            \<and> (\<exists>st. status w2 = status w @ [st] \<and> csw_bStatus st = CSW_CMD_PASSED \<and> csw_dTag st = cbw_dTag c
                 \<and> csw_dDataResidue st = 0)))"
proof -
  have tf: "t_fw t = s" "t_aes t = aes" "t_write t" by (simp_all add: t_def transfer_of_def Let_def)
  have ok: "transfer_ok t" unfolding t_def by (rule transfer_of_ok [OF q card cipher fmt]) (simp_all add: data)
  obtain w1 where w1: "msc_step s aes (Ev_cbw c 31) w = Some w1"
    and run: "\<And>n w2 d. transfer_run s aes w1 data n w2 d
      \<Longrightarrow> xfer_state t (cbw_dTag c) (sent (msc_outs (w_msc w))) (statuses (msc_outs (w_msc w))) n w2 d"
    using transfer_correct [OF q ok [unfolded t_def]] unfolding t_def by metis
  show ?thesis
  proof (rule exI [of _ w1], intro conjI allI impI)
    show "msc_step s aes (Ev_cbw c 31) w = Some w1" by (fact w1)
  next
    fix n w2 d assume r: "transfer_run s aes w1 data n w2 d"
    note st = run [OF r]
    show "n \<le> transfer_events t" using xfer_state_bound(1) [OF st] .
    show "\<exists>j \<le> t_blocks t. stored t j (w_card w2)" by (rule xfer_state_stored(1) [OF st ok tf(3)])
    show "\<exists>w3. msc_step s aes e w2 = Some w3" if "due e w2 d" for e
      using xfer_state_step [OF st ok that] by (auto simp: tf)
    show "\<exists>e. due e w2 d" "status w2 = status w" if "n < transfer_events t"
      using xfer_state_due [OF st that] xfer_state_bound(3) [OF st that] by (simp_all add: status_def)
    assume n: "n = transfer_events t"
    show "stored t (t_blocks t) (w_card w2)" "d = []" using xfer_state_stored(2) [OF st ok tf(3) n] by simp_all
    show "bot_state (w_msc w2) = BOT_IDLE"
      "\<exists>st. status w2 = status w @ [st] \<and> csw_bStatus st = CSW_CMD_PASSED \<and> csw_dTag st = cbw_dTag c \<and> csw_dDataResidue st = 0"
      using transfer_status [OF st n] by (simp_all add: status_def)
  qed
qed

theorem scsi_write_stores_witness:
  "\<exists>w1. msc_step scsi_example_fw scsi_example_aes (Ev_cbw scsi_example_wcbw 31) scsi_example_world = Some w1
     \<and> (\<forall>n w2 d. transfer_run scsi_example_fw scsi_example_aes w1 (replicate 16896 7) n w2 d \<longrightarrow>
          n \<le> 37 \<and> (n < 37 \<longrightarrow> (\<exists>e. due e w2 d)) \<and> (n = 37 \<longrightarrow> d = []))"
proof -
  let ?t = "transfer_of True (replicate 16896 7) scsi_example_fw scsi_example_aes scsi_example_world scsi_example_wcbw"
  have t: "t_crypt ?t" "t_blocks ?t = 33"
    using scsi_example_simps(3) by (simp_all add: transfer_of_def Let_def scsi_example_simps)
  have ev: "transfer_events ?t = 37" by (simp add: transfer_events_def pieces_def t)
  show ?thesis
    using scsi_write_stores [OF scsi_example_request(2), of "replicate 16896 7" scsi_example_aes scsi_example_fw] scsi_example_format
      scsi_example_simps(7,9) scsi_example_length
    unfolding ev by auto
qed

section \<open>A read after a write\<close>

text \<open>Two commands for the same blocks of the same volume.\<close>

definition same_range :: "msc_cbw \<Rightarrow> msc_cbw \<Rightarrow> bool" where
  "same_range c c' \<longleftrightarrow> cbw_bLUN c' = cbw_bLUN c \<and> cdb_addr (cbw_CB c') = cdb_addr (cbw_CB c) \<and> cdb_len (cbw_CB c') = cdb_len (cbw_CB c)"

definition read_command :: "msc_cbw \<Rightarrow> bool" where
  "read_command c \<longleftrightarrow> cbw_valid USBD_BOT_CBW_LENGTH c \<and> cbw_CB c ! 0 = 0x28 \<and> and (cbw_bmFlags c) 0x80 = 0x80
     \<and> unat (cbw_dDataLength c) = cdb_len (cbw_CB c) * 512"

lemma request_after_write:
  assumes q: "transfer_request True w c" and c': "same_range c c'" "read_command c'"
    and fin: "xfer_finished t tag d0 s0 (w_msc w2)" "t_volumes t = volumes (w_msc w)"
  shows "transfer_request False w2 c'"
proof -
  have v: "g_scsi_volume (w_msc w2) = g_scsi_volume (w_msc w)" "g_num_scsi_volumes (w_msc w2) = g_num_scsi_volumes (w_msc w)"
    "scsi_blk_nbr (w_msc w2) = scsi_blk_nbr (w_msc w)" "scsi_blk_size (w_msc w2) = scsi_blk_size (w_msc w)"
    using fin by (simp_all add: xfer_finished_def volumes_def)
  show ?thesis
    using q c' fin(1)
    by (simp add: transfer_request_def read_command_def same_range_def Let_def v STORAGE_IsReady_def) (simp add: xfer_finished_def)
qed

lemma read_back:
  assumes t: "transfer_ok (transfer_of True data s aes w c)" and c': "same_range c c'"
    and vol: "volumes (w_msc w2) = volumes (w_msc w)"
    and st: "stored (transfer_of True data s aes w c) (cdb_len (cbw_CB c)) (w_card w2)"
    and inverse: "\<And>k iv b. length b = 512 \<Longrightarrow> aes False k iv (aes True k iv b) = b"
  shows "concat (map (moved_block (transfer_of False [] s aes w2 c')) [0..<cdb_len (cbw_CB c)]) = data"
proof -
  define tw tr where "tw = transfer_of True data s aes w c" and "tr = transfer_of False [] s aes w2 c'"
  have tw: "t_write tw" "t_data tw = data" "t_blocks tw = cdb_len (cbw_CB c)" "t_aes tw = aes" "t_fw tw = s"
    by (simp_all add: tw_def transfer_of_def Let_def)
  have tr: "\<not> t_write tr" "t_crypt tr = t_crypt tw" "t_addr tr = t_addr tw" "t_base tr = t_base tw" "t_card tr = w_card w2" "t_fw tr = s" "t_aes tr = aes"
    using c' vol by (simp_all add: tr_def tw_def transfer_of_def same_range_def volumes_def Let_def)
  have iv: "sector_iv tr i = sector_iv tw i" for i by (simp add: sector_iv_def tr tw)
  have "moved_block tr i = slice data (512 * i) 512" if "i < cdb_len (cbw_CB c)" for i
  proof -
    have c: "card_block tr i = moved_block tw i" using st that by (simp add: card_block_def tr stored_def tw_def [symmetric])
    have l: "length (source_block tw i) = 512" using length_source_block [of tw i] t that tw by (simp add: tw_def [symmetric])
    show ?thesis
      using inverse [OF l] tw tr by (auto simp: moved_block_def [of tr] source_block_def [of tr] crypt_block_def c iv)
        (auto simp: moved_block_def source_block_def crypt_block_def)
  qed
  moreover have "length data = 512 * cdb_len (cbw_CB c)" using t tw by (simp add: transfer_ok_def tw_def [symmetric])
  ultimately show ?thesis
    unfolding tr_def [symmetric] by (subst concat_slices [symmetric]) (auto intro!: arg_cong [of _ _ concat] map_cong)
qed

lemma read_after_write:
  assumes q: "transfer_request True w c" and c': "same_range c c'" "read_command c'" and card: "\<And>a. length (w_card w a) = 512"
    and cipher: "\<And>e k iv b. length b = 512 \<Longrightarrow> length (aes e k iv b) = 512"
    and inverse: "\<And>k iv b. length b = 512 \<Longrightarrow> aes False k iv (aes True k iv b) = b"
    and fmt: "rp_format s = ROOT_BLOCK_FORMAT_CURRENT" "rp_db_format s = DB_FORMAT_CURRENT \<or> rp_db_format s = DB_FORMAT_2"
    and t: "t = transfer_of True data s aes w c" "transfer_ok t" and n: "n = transfer_events t"
    and st: "xfer_state t tag d0 s0 n w2 d"
  shows "\<exists>w3. msc_step s aes (Ev_cbw c' 31) w2 = Some w3 \<and> (\<exists>w4 d. transfer_run s aes w3 [] n w4 d)
    \<and> (\<forall>w4 d. transfer_run s aes w3 [] n w4 d \<longrightarrow> concat (sent (msc_outs (w_msc w4))) = concat (sent (msc_outs (w_msc w2))) @ data)"
proof -
  define u where "u = transfer_of False [] s aes w2 c'"
  have tf: "t_write t" "t_volumes t = volumes (w_msc w)" "t_blocks t = cdb_len (cbw_CB c)" "t_card t = w_card w"
    by (simp_all add: t(1) transfer_of_def Let_def)
  note fin = xfer_state_bound(2) [OF st n, THEN conjunct1]
  have sd: "stored t (t_blocks t) (w_card w2)" using xfer_state_stored(2) [OF st t(2) tf(1) n] by simp
  have q2: "transfer_request False w2 c'" by (rule request_after_write [OF q c' fin tf(2)])
  have vol: "volumes (w_msc w2) = volumes (w_msc w)" using fin tf(2) by (simp add: xfer_finished_def)
  have uf: "t_fw u = s" "t_aes u = aes" "\<not> t_write u" "t_blocks u = t_blocks t" "t_crypt u = t_crypt t"
    using c'(1) vol by (simp_all add: u_def t(1) transfer_of_def same_range_def volumes_def Let_def)
  have "length (w_card w2 a) = 512" for a
    using sd length_moved_block [OF t(2)] card tf(4) unfolding stored_def by metis
  then have ok: "transfer_ok u" unfolding u_def by (rule transfer_of_ok [OF q2 _ cipher fmt]) simp_all
  have nu: "n = transfer_events u" unfolding n by (simp add: transfer_events_def pieces_def uf)
  obtain w3 where w3: "msc_step s aes (Ev_cbw c' 31) w2 = Some w3"
    "xfer_state u (cbw_dTag c') (sent (msc_outs (w_msc w2))) (statuses (msc_outs (w_msc w2))) 0 w3 []"
    and run: "\<And>n w4 d. transfer_run s aes w3 [] n w4 d
      \<Longrightarrow> xfer_state u (cbw_dTag c') (sent (msc_outs (w_msc w2))) (statuses (msc_outs (w_msc w2))) n w4 d"
    using transfer_correct [OF q2 ok [unfolded u_def]] unfolding u_def by metis
  have "\<exists>w4 d. transfer_run s aes w3 [] n w4 d" using transfer_ends [OF w3(2) ok] by (simp add: uf nu)
  moreover have "concat (sent (msc_outs (w_msc w4))) = concat (sent (msc_outs (w_msc w2))) @ data"
    if "transfer_run s aes w3 [] n w4 d'" for w4 d'
    using xfer_state_sent(2) [OF run [OF that] ok nu] read_back [OF t(2) [unfolded t(1)] c'(1) vol _ inverse] sd uf(3,4) tf(3)
    by (simp add: all_moved_def u_def [symmetric] t(1) [symmetric])
  ultimately show ?thesis using w3(1) by blast
qed

text \<open>
  C12. What a WRITE10 has stored, a READ10 of the same blocks gives back. The write can be
  brought to its end, and whichever way it ends, the read is accepted, can be brought to its
  end, and whichever way that ends, what has gone out is what the host had sent - on the
  encrypted volume as on the plain one, if the cipher undoes its encryption with the same key
  and vector.
\<close>

theorem scsi_write_then_read:
  assumes q: "transfer_request True w c" and data: "length data = 512 * cdb_len (cbw_CB c)" and c': "same_range c c'" "read_command c'"
    and card: "\<And>a. length (w_card w a) = 512"
    and cipher: "\<And>e k iv b. length b = 512 \<Longrightarrow> length (aes e k iv b) = 512"
    and inverse: "\<And>k iv b. length b = 512 \<Longrightarrow> aes False k iv (aes True k iv b) = b"
    and fmt: "rp_format s = ROOT_BLOCK_FORMAT_CURRENT" "rp_db_format s = DB_FORMAT_CURRENT \<or> rp_db_format s = DB_FORMAT_2"
  defines "n \<equiv> transfer_events (transfer_of True data s aes w c)" and "out \<equiv> \<lambda>w. concat (sent (msc_outs (w_msc w)))"
  shows "\<exists>w1. msc_step s aes (Ev_cbw c USBD_BOT_CBW_LENGTH) w = Some w1 \<and> (\<exists>w2 d. transfer_run s aes w1 data n w2 d)
    \<and> (\<forall>w2 d. transfer_run s aes w1 data n w2 d \<longrightarrow>
         (\<exists>w3. msc_step s aes (Ev_cbw c' USBD_BOT_CBW_LENGTH) w2 = Some w3 \<and> (\<exists>w4 d. transfer_run s aes w3 [] n w4 d)
             \<and> (\<forall>w4 d. transfer_run s aes w3 [] n w4 d \<longrightarrow> out w4 = out w2 @ data)))"
proof -
  define t where "t = transfer_of True data s aes w c"
  have tf: "t_fw t = s" "t_aes t = aes" "t_write t" by (simp_all add: t_def transfer_of_def Let_def)
  have ok: "transfer_ok t" unfolding t_def by (rule transfer_of_ok [OF q card cipher fmt]) (simp_all add: data)
  obtain w1 where w1: "msc_step s aes (Ev_cbw c 31) w = Some w1"
    "xfer_state t (cbw_dTag c) (sent (msc_outs (w_msc w))) (statuses (msc_outs (w_msc w))) 0 w1 data"
    and run: "\<And>n w2 d. transfer_run s aes w1 data n w2 d
      \<Longrightarrow> xfer_state t (cbw_dTag c) (sent (msc_outs (w_msc w))) (statuses (msc_outs (w_msc w))) n w2 d"
    using transfer_correct [OF q ok [unfolded t_def]] unfolding t_def by metis
  have e1: "\<exists>w2 d. transfer_run s aes w1 data n w2 d" using transfer_ends [OF w1(2) ok] by (simp add: tf n_def t_def [symmetric])
  have "\<exists>w3. msc_step s aes (Ev_cbw c' 31) w2 = Some w3 \<and> (\<exists>w4 d. transfer_run s aes w3 [] n w4 d)
      \<and> (\<forall>w4 d. transfer_run s aes w3 [] n w4 d \<longrightarrow> out w4 = out w2 @ data)"
    if r: "transfer_run s aes w1 data n w2 d" for w2 d
    unfolding out_def
    by (rule read_after_write [OF q c' card cipher inverse fmt t_def ok _ run [OF r]]) (simp_all add: n_def t_def)
  then show ?thesis using w1(1) e1 by blast
qed

theorem scsi_write_then_read_witness:
  "\<exists>w1. msc_step scsi_example_fw scsi_example_aes (Ev_cbw scsi_example_wcbw 31) scsi_example_world = Some w1
     \<and> (\<exists>w2 d. transfer_run scsi_example_fw scsi_example_aes w1 (replicate 16896 7) 37 w2 d)
     \<and> (\<forall>w2 d. transfer_run scsi_example_fw scsi_example_aes w1 (replicate 16896 7) 37 w2 d \<longrightarrow>
          (\<exists>w3. msc_step scsi_example_fw scsi_example_aes (Ev_cbw scsi_example_cbw 31) w2 = Some w3
             \<and> (\<exists>w4 d. transfer_run scsi_example_fw scsi_example_aes w3 [] 37 w4 d)
             \<and> (\<forall>w4 d. transfer_run scsi_example_fw scsi_example_aes w3 [] 37 w4 d \<longrightarrow>
                  concat (sent (msc_outs (w_msc w4))) = concat (sent (msc_outs (w_msc w2))) @ replicate 16896 7)))"
proof -
  let ?t = "transfer_of True (replicate 16896 7) scsi_example_fw scsi_example_aes scsi_example_world scsi_example_wcbw"
  have t: "t_crypt ?t" "t_blocks ?t = 33"
    using scsi_example_simps(3) by (simp_all add: transfer_of_def Let_def scsi_example_simps)
  have ev: "transfer_events ?t = 37" by (simp add: transfer_events_def pieces_def t)
  have c: "same_range scsi_example_wcbw scsi_example_cbw" "read_command scsi_example_cbw"
    by (simp_all add: same_range_def read_command_def scsi_example_simps)
      (simp_all add: scsi_example_cbw_def scsi_example_wcbw_def cbw_example_def cbw_valid_def)
  have "scsi_example_aes False k iv (scsi_example_aes True k iv b) = b" for k iv b
    by (simp add: scsi_example_aes_def comp_def)
  then show ?thesis
    using scsi_write_then_read [OF scsi_example_request(2) _ c, of "replicate 16896 7" scsi_example_aes scsi_example_fw] scsi_example_format
      scsi_example_simps(7,9) scsi_example_length
    unfolding ev by simp
qed

end
