(* ===== verification/Legacy_State.thy ===== *)
theory Legacy_State
  imports Signet_Common Signet_Aes Db
begin

text \<open>
  The state of the firmware of the original Signet (\<open>src/firmware\<close>, as its Makefile builds it:
  \<open>FIRMWARE\<close>, neither \<open>SIGNET_HC\<close> nor the test and factory options). It is an older program
  than \<open>firmware-hc\<close>: records of several sizes share blocks of 2 KiB in memory mapped flash,
  and there is no cache and no second copy of the root page. The record \<open>lfw\<close> has one
  field per global variable, with the C name after \<open>l_\<close>; as in \<open>Fw_State\<close> pointers into static
  buffers are names of buffers and the members of the union \<open>cmd_data\<close> are fields of their own.
  The layout of blocks and directory entries is that of \<open>Db\<close>.
\<close>

section \<open>Sizes\<close>

abbreviation (input) L_BLK_SIZE :: nat where "L_BLK_SIZE \<equiv> 2048"
abbreviation (input) L_NUM_STORAGE_BLOCKS :: nat where "L_NUM_STORAGE_BLOCKS \<equiv> 96"
abbreviation (input) L_MAX_DATA_BLOCK :: nat where "L_MAX_DATA_BLOCK \<equiv> 95"
abbreviation (input) L_NUM_DATA_BLOCKS :: nat where "L_NUM_DATA_BLOCKS \<equiv> 95"
abbreviation (input) L_RAW_HID_PACKET_SIZE :: nat where "L_RAW_HID_PACKET_SIZE \<equiv> 64"
abbreviation (input) L_RAW_HID_PAYLOAD_SIZE :: nat where "L_RAW_HID_PAYLOAD_SIZE \<equiv> 63"
abbreviation (input) L_CMD_PACKET_PAYLOAD_SIZE :: nat where "L_CMD_PACKET_PAYLOAD_SIZE \<equiv> 2055"
abbreviation (input) L_CMD_PACKET_BUF_SIZE :: nat where "L_CMD_PACKET_BUF_SIZE \<equiv> 2123"
abbreviation (input) L_INIT_WORDS :: nat where "L_INIT_WORDS \<equiv> 20"
abbreviation (input) CLEARTEXT_PASS_NAME_SIZE :: nat where "CLEARTEXT_PASS_NAME_SIZE \<equiv> 64"
abbreviation (input) NUM_CLEARTEXT_PASS :: nat where "NUM_CLEARTEXT_PASS \<equiv> 4"

abbreviation (input) FLASH_MEM_BASE_ADDR :: nat where "FLASH_MEM_BASE_ADDR \<equiv> 0x8000000"
abbreviation (input) FLASH_MEM_END_ADDR :: nat where "FLASH_MEM_END_ADDR \<equiv> 0x803FFFF"
abbreviation (input) L_FLASH_PAGE_SIZE :: nat where "L_FLASH_PAGE_SIZE \<equiv> 2048"
abbreviation (input) L_FLASH_PAGES :: nat where "L_FLASH_PAGES \<equiv> 128"

lemma l_derived_sizes:
  "L_NUM_STORAGE_BLOCKS = 192 div 2"
  "L_CMD_PACKET_PAYLOAD_SIZE = L_BLK_SIZE + CMD_PACKET_HEADER_SIZE + 1"
  "L_CMD_PACKET_BUF_SIZE = L_CMD_PACKET_PAYLOAD_SIZE + CMD_PACKET_HEADER_SIZE + L_RAW_HID_PAYLOAD_SIZE - 1"
  "FLASH_MEM_END_ADDR = FLASH_MEM_BASE_ADDR + 2 ^ 18 - 1" "L_FLASH_PAGES = 2 ^ 18 div L_FLASH_PAGE_SIZE"
  "L_INIT_WORDS = INIT_RAND_DATA_SZ div 4"
  by simp_all

text \<open>
  The packed \<open>struct root_page\<close>: signature, then \<open>header.v2\<close>. It has 1205 bytes; the flash is
  written in double words, so the RAM copy is kept with the three bytes behind it that
  the last double word also reads.
\<close>

abbreviation (input) L_ROOT_PAGE_SIZE :: nat where "L_ROOT_PAGE_SIZE \<equiv> 1205"
abbreviation (input) LR_DB_VERSION :: nat where "LR_DB_VERSION \<equiv> 20"
abbreviation (input) LR_AUTH_RAND :: nat where "LR_AUTH_RAND \<equiv> 21"
abbreviation (input) LR_AUTH_RAND_CT :: nat where "LR_AUTH_RAND_CT \<equiv> 53"
abbreviation (input) LR_ENCRYPT_KEY_CT :: nat where "LR_ENCRYPT_KEY_CT \<equiv> 85"
abbreviation (input) LR_CBC_IV :: nat where "LR_CBC_IV \<equiv> 117"
abbreviation (input) LR_SALT :: nat where "LR_SALT \<equiv> 133"
abbreviation (input) LR_HASHFN :: nat where "LR_HASHFN \<equiv> 165"
abbreviation (input) LR_CLEARTEXT :: nat where "LR_CLEARTEXT \<equiv> 181"

lemma l_root_page_layout:
  "LR_DB_VERSION = 16 + 4" "LR_AUTH_RAND = LR_DB_VERSION + 1" "LR_AUTH_RAND_CT = LR_AUTH_RAND + 32"
  "LR_ENCRYPT_KEY_CT = LR_AUTH_RAND_CT + 32" "LR_CBC_IV = LR_ENCRYPT_KEY_CT + 32" "LR_SALT = LR_CBC_IV + 16"
  "LR_HASHFN = LR_SALT + 32" "LR_CLEARTEXT = LR_HASHFN + 16" "L_ROOT_PAGE_SIZE = LR_CLEARTEXT + 4 * CLEARTEXT_PASS_SIZE"
  by simp_all

section \<open>Data\<close>

text \<open>Buffers that flash writes take their data from; \<open>LB_packet k\<close> is \<open>cmd_packet_buf + k\<close>.\<close>

datatype lbuf = LB_root_page | LB_init_block | LB_startup_block | LB_update_block | LB_packet nat

datatype l_kb_buf = LK_chars | LK_cleartext

datatype l_evbuf = LE_null | LE_timeout_secs

datatype l_out =
  LOut_hid bytes
| LOut_keyboard bytes
| LOut_led bool
| LOut_usb_mobile
| LOut_usb_reconnect
| LOut_reset

record l_erase_data =
  le_index :: nat
  le_num_pages :: nat
  le_pages :: bytes

record l_init_data =
  li_started :: bool
  li_rand_avail_init :: int
  li_random_data_gathered :: int
  li_root_block_finalized :: bool
  li_blocks_written :: nat
  li_passwd :: bytes
  li_hashfn :: bytes
  li_salt :: bytes
  li_rand :: bytes
  li_block :: bytes
  li_blk_info :: block_info

record l_change_data =
  lc_new_key :: bytes
  lc_cyphertext :: bytes
  lc_hashfn :: bytes
  lc_salt :: bytes

record l_login_data =
  ll_password :: bytes
  ll_authenticated :: bool
  ll_gen_token :: nat
  ll_token :: bytes

record l_update_data =
  lu_iv :: bytes
  lu_uid :: nat
  lu_sz :: nat
  lu_write_count :: nat
  lu_block_num :: nat
  lu_prev_block_num :: nat
  lu_blk_info :: block_info
  lu_block :: bytes

text \<open>\<open>ent\<close> points into the directory of a block in flash: block and position.\<close>

record l_read_data =
  lr_iv :: bytes
  lr_uid :: nat
  lr_block_num :: nat
  lr_index :: nat
  lr_ent :: "(nat \<times> nat) option"
  lr_masked :: nat
  lr_block :: bytes

record l_read_all_data =
  la_iv :: bytes
  la_uid :: nat
  la_expected_remaining :: int
  la_masked :: nat
  la_block :: bytes

record l_rand_data =
  lg_sz :: nat
  lg_block :: bytes

text \<open>The collectors of \<open>rtc_rand.c\<close> and \<open>rng_driver.c\<close>: a ring of 1024 words each.\<close>

record l_rand_src =
  lrnd_level :: int
  lrnd_buf :: "nat \<Rightarrow> u32"
  lrnd_head :: nat
  lrnd_tail :: nat

record lfw =
  \<comment> \<open>\<open>commands.c\<close>\<close>
  l_active_cmd :: int
  l_cmd_iter_count :: nat
  l_cmd_messages_remaining :: nat
  l_device_state :: device_state
  l_cmd_packet_buf :: bytes
  l_cmd_resp :: bytes
  l_encrypt_key :: bytes
  l_token_auth_rand_ct :: bytes
  l_token_encrypt_key_ct :: bytes
  l_header_version :: nat
  l_db_version :: nat
  l_root_page :: bytes
  l_backup_prev_state :: device_state
  l_n_progress_components :: nat
  l_progress_level :: "nat \<Rightarrow> int"
  l_progress_maximum :: "nat \<Rightarrow> int"
  l_progress_check :: int
  l_progress_target_state :: int
  l_waiting_for_button_press :: bool
  l_waiting_for_long_button_press :: bool
  l_cleartext_pass_index :: int
  l_cleartext_type_buf :: bytes
  l_cleartext_pass_typing :: bool
  \<comment> \<open>\<open>cmd_data\<close>\<close>
  l_erase :: l_erase_data
  l_chars :: bytes
  l_init :: l_init_data
  l_startup_block :: bytes
  l_startup_info :: block_info
  l_wipe_block :: nat
  l_change :: l_change_data
  l_login :: l_login_data
  l_login_token :: bytes
  l_update :: l_update_data
  l_names_block :: bytes
  l_read :: l_read_data
  l_read_all :: l_read_all_data
  l_rand_bits :: l_rand_data
  l_write_cleartext_idx :: nat
  l_write_cleartext_data :: bytes
  l_read_cleartext_idx :: nat
  \<comment> \<open>\<open>db.c\<close>, \<open>flash_l443xc.c\<close>; the flash as pages of 2048 bytes\<close>
  l_block_info_tbl :: "nat \<Rightarrow> block_info"
  l_uid_map :: "nat \<Rightarrow> nat"
  l_flash_state :: flash_state
  l_flash_write_data :: "(lbuf \<times> nat) option"
  l_flash_write_addr :: nat
  l_flash_write_count :: nat
  l_flash :: "nat \<Rightarrow> bytes"
  \<comment> \<open>\<open>usb_raw_hid.c\<close>, \<open>usb_keyboard.c\<close>, the busy flags of \<open>usb_fs_driver.c\<close>\<close>
  l_raw_hid_tx_data :: bool
  l_raw_hid_tx_seq :: nat
  l_raw_hid_tx_count :: nat
  l_raw_hid_tx_cmd_packet :: bytes
  l_raw_hid_tx_event_packet :: bytes
  l_event_mask :: u8
  l_event_data :: "nat \<Rightarrow> l_evbuf"
  l_event_data_len :: "nat \<Rightarrow> nat"
  l_hid_tx_pending :: bool
  l_keyboard_tx_pending :: bool
  l_typing :: bool
  l_n_chars :: nat
  l_kb_chars :: l_kb_buf
  l_char_pos :: nat
  l_ms_type :: int
  l_char_pos_to_type :: int
  \<comment> \<open>\<open>main_l443xc.c\<close>\<close>
  l_ms_count :: int
  l_ms_last_pressed :: int
  l_blink_state :: int
  l_blink_start :: int
  l_blink_period :: int
  l_blink_duration :: int
  l_blink_paused :: bool
  l_pause_start :: int
  l_timeout_event_secs :: nat
  l_button_state :: bool
  l_press_pending :: bool
  l_timer_target :: int
  \<comment> \<open>\<open>rtc_rand.c\<close>, \<open>rng_driver.c\<close>\<close>
  l_rtc :: l_rand_src
  l_rng :: l_rand_src
  l_rndtemp :: u32
  l_rndtemp_i :: nat
  l_outs :: "l_out list"

text \<open>
  The surroundings: Nettle; the CRC unit of the chip, its value after a reset and the effect of a
  word written to its data register; the memory at the addresses 0 to 287, which
  \<open>login_cmd_iter\<close> reads; and the programming of a double word at an
  offset of a page, with the page afterwards and whether the status register shows no error.
\<close>

record lenv =
  le_nettle :: nettle
  le_crc_reset :: u32
  le_crc_feed :: "u32 \<Rightarrow> u32 \<Rightarrow> u32"
  le_low_mem :: bytes
  le_program :: "bytes \<Rightarrow> nat \<Rightarrow> bytes \<Rightarrow> bytes \<times> bool"

type_synonym laction = "lfw \<Rightarrow> lfw option"

text \<open>
  What the data sheet says of programming: an aligned double word of erased flash takes the
  value without error.
\<close>

definition program_ok :: "lenv \<Rightarrow> bool" where
  "program_ok L \<longleftrightarrow>
     (\<forall>pg off d. length pg = L_FLASH_PAGE_SIZE \<longrightarrow> length d = 8 \<longrightarrow> off mod 8 = 0 \<longrightarrow> off + 8 \<le> L_FLASH_PAGE_SIZE
        \<longrightarrow> slice pg off 8 = replicate 8 0xff \<longrightarrow> le_program L pg off d = (splice pg off d, True))"

definition put_lout :: "l_out \<Rightarrow> lfw \<Rightarrow> lfw" where
  "put_lout x s = s\<lparr>l_outs := l_outs s @ [x]\<rparr>"

section \<open>Buffers and storage\<close>

definition lbuf_get :: "lbuf \<Rightarrow> lfw \<Rightarrow> bytes" where
  "lbuf_get b s =
     (case b of
        LB_root_page \<Rightarrow> l_root_page s
      | LB_init_block \<Rightarrow> li_block (l_init s)
      | LB_startup_block \<Rightarrow> l_startup_block s
      | LB_update_block \<Rightarrow> lu_block (l_update s)
      | LB_packet k \<Rightarrow> drop k (l_cmd_packet_buf s))"

text \<open>The linker script puts the storage, block 0 the root page, behind the first 64 KiB of flash.\<close>

definition BLOCK_ADDR :: "nat \<Rightarrow> nat" where
  "BLOCK_ADDR i = FLASH_MEM_BASE_ADDR + 0x10000 + L_BLK_SIZE * i"

definition l_block :: "nat \<Rightarrow> lfw \<Rightarrow> bytes" where
  "l_block i s = l_flash s (32 + i)"

lemma block_page: "(BLOCK_ADDR i - FLASH_MEM_BASE_ADDR) div L_FLASH_PAGE_SIZE = 32 + i"
  by (simp add: BLOCK_ADDR_def)

section \<open>Random numbers\<close>

definition l_rand_src_get :: "l_rand_src \<Rightarrow> u32 \<times> l_rand_src" where
  "l_rand_src_get r =
     (if lrnd_head r = lrnd_tail r then (0, r)
      else (lrnd_buf r (lrnd_tail r), r\<lparr>lrnd_tail := (lrnd_tail r + 1) mod 1024, lrnd_level := lrnd_level r - 1\<rparr>))"

text \<open>
  The word goes to \<open>buf[head++]\<close>, and \<open>head\<close> is then advanced once more. The second number says
  whether the ring was full.
\<close>

definition l_rand_src_put :: "u32 \<Rightarrow> l_rand_src \<Rightarrow> l_rand_src" where
  "l_rand_src_put w r =
     (let b = (lrnd_buf r)(lrnd_head r := lrnd_buf r (lrnd_head r) XOR w);
          h = (lrnd_head r + 1 + 1) mod 1024;
          r = r\<lparr>lrnd_buf := b, lrnd_head := h\<rparr>
      in if h = lrnd_tail r then r\<lparr>lrnd_tail := (lrnd_tail r + 1) mod 1024\<rparr>
         else r\<lparr>lrnd_level := lrnd_level r + 1\<rparr>)"

definition l_rand_avail :: "lfw \<Rightarrow> int" where
  "l_rand_avail s = (if lrnd_level (l_rtc s) > lrnd_level (l_rng s) then lrnd_level (l_rng s) else lrnd_level (l_rtc s))"

definition l_rand_get :: "lfw \<Rightarrow> u32 \<times> lfw" where
  "l_rand_get s =
     (let (a, rtc) = l_rand_src_get (l_rtc s); (b, rng) = l_rand_src_get (l_rng s)
      in (a XOR b, s\<lparr>l_rtc := rtc, l_rng := rng\<rparr>))"

text \<open>\<open>rtc_wakeup\<close>: five bits of the system timer make one random bit.\<close>

definition rtc_bit :: "u32 \<Rightarrow> u32" where
  "rtc_bit clk = (clk XOR drop_bit 1 clk XOR drop_bit 2 clk XOR drop_bit 3 clk XOR drop_bit 4 clk) AND 1"

definition rtc_wakeup :: "laction \<Rightarrow> u32 \<Rightarrow> laction" where
  "rtc_wakeup rand_update clk s =
     (let t = push_bit 1 (l_rndtemp s) OR rtc_bit clk; i = l_rndtemp_i s + 1; s = s\<lparr>l_rndtemp := t, l_rndtemp_i := i\<rparr>
      in if i \<ge> 32 then rand_update (s\<lparr>l_rndtemp_i := 0, l_rtc := l_rand_src_put t (l_rtc s)\<rparr>) else Some s)"

text \<open>\<open>rng_handler\<close> with a word ready.\<close>

definition rng_handler :: "laction \<Rightarrow> u32 \<Rightarrow> laction" where
  "rng_handler rand_update r s = rand_update (s\<lparr>l_rng := l_rand_src_put r (l_rng s)\<rparr>)"

text \<open>\<open>n\<close> calls of \<open>rand_get\<close>, the words in the order they were taken.\<close>

fun l_rand_words :: "nat \<Rightarrow> lfw \<Rightarrow> u32 list \<times> lfw" where
  "l_rand_words 0 s = ([], s)"
| "l_rand_words (Suc n) s = (let (w, s) = l_rand_get s; (ws, s) = l_rand_words n s in (w # ws, s))"

section \<open>AES and CRC\<close>

definition stm_aes_128_encrypt :: "nettle \<Rightarrow> bytes \<Rightarrow> bytes \<Rightarrow> bytes" where
  "stm_aes_128_encrypt N key din = aes128_encrypt N (take AES_128_KEY_SIZE key) (take AES_BLK_SIZE din)"

definition stm_aes_256_encrypt :: "nettle \<Rightarrow> bytes \<Rightarrow> bytes \<Rightarrow> bytes" where
  "stm_aes_256_encrypt N key din = aes256_encrypt N (take AES_256_KEY_SIZE key) (take AES_BLK_SIZE din)"

definition stm_aes_128_decrypt :: "nettle \<Rightarrow> bytes \<Rightarrow> bytes \<Rightarrow> bytes" where
  "stm_aes_128_decrypt N key din = aes128_decrypt N (take AES_128_KEY_SIZE key) (take AES_BLK_SIZE din)"

definition stm_aes_256_decrypt :: "nettle \<Rightarrow> bytes \<Rightarrow> bytes \<Rightarrow> bytes" where
  "stm_aes_256_decrypt N key din = aes256_decrypt N (take AES_256_KEY_SIZE key) (take AES_BLK_SIZE din)"

definition l_xor_block :: "bytes \<Rightarrow> bytes option \<Rightarrow> bytes" where
  "l_xor_block src_block msk =
     (case msk of
        Some m \<Rightarrow> map (\<lambda>i. (src_block ! i) XOR (m ! i)) [0..<AES_BLK_SIZE]
      | None \<Rightarrow> take AES_BLK_SIZE src_block)"

fun stm_aes_128_encrypt_cbc :: "nettle \<Rightarrow> bytes \<Rightarrow> nat \<Rightarrow> bytes option \<Rightarrow> bytes \<Rightarrow> bytes" where
  "stm_aes_128_encrypt_cbc N key 0 iv din = []"
| "stm_aes_128_encrypt_cbc N key (Suc n_blocks) iv din =
     (let dout = stm_aes_128_encrypt N key (l_xor_block din iv)
      in dout @ stm_aes_128_encrypt_cbc N key n_blocks (Some dout) (drop AES_BLK_SIZE din))"

fun stm_aes_256_encrypt_cbc :: "nettle \<Rightarrow> bytes \<Rightarrow> nat \<Rightarrow> bytes option \<Rightarrow> bytes \<Rightarrow> bytes" where
  "stm_aes_256_encrypt_cbc N key 0 iv din = []"
| "stm_aes_256_encrypt_cbc N key (Suc n_blocks) iv din =
     (let dout = stm_aes_256_encrypt N key (l_xor_block din iv)
      in dout @ stm_aes_256_encrypt_cbc N key n_blocks (Some dout) (drop AES_BLK_SIZE din))"

fun stm_aes_128_decrypt_cbc :: "nettle \<Rightarrow> bytes \<Rightarrow> nat \<Rightarrow> bytes option \<Rightarrow> bytes \<Rightarrow> bytes" where
  "stm_aes_128_decrypt_cbc N key 0 iv din = []"
| "stm_aes_128_decrypt_cbc N key (Suc n_blocks) iv din =
     l_xor_block (stm_aes_128_decrypt N key din) iv
     @ stm_aes_128_decrypt_cbc N key n_blocks (Some (take AES_BLK_SIZE din)) (drop AES_BLK_SIZE din)"

fun stm_aes_256_decrypt_cbc :: "nettle \<Rightarrow> bytes \<Rightarrow> nat \<Rightarrow> bytes option \<Rightarrow> bytes \<Rightarrow> bytes" where
  "stm_aes_256_decrypt_cbc N key 0 iv din = []"
| "stm_aes_256_decrypt_cbc N key (Suc n_blocks) iv din =
     l_xor_block (stm_aes_256_decrypt N key din) iv
     @ stm_aes_256_decrypt_cbc N key n_blocks (Some (take AES_BLK_SIZE din)) (drop AES_BLK_SIZE din)"

text \<open>
  \<open>crc_32\<close> of \<open>crc.c\<close>. The loop does not advance \<open>din\<close>: it feeds the first word \<open>count\<close> times.
\<close>

definition l_crc_32 :: "lenv \<Rightarrow> bytes \<Rightarrow> nat \<Rightarrow> u32" where
  "l_crc_32 L din count = ((\<lambda>c. le_crc_feed L c (word_of_nat (rd32 din 0))) ^^ count) (le_crc_reset L)"

end
