(* ===== verification/Legacy_Io.thy ===== *)
theory Legacy_Io
  imports Legacy_State
begin

text \<open>
  The lower layers of the original Signet: packets (\<open>usb_raw_hid.c\<close> on the endpoint flags of
  \<open>usb_fs_driver.c\<close>), the keyboard (\<open>usb_keyboard.c\<close>), the LED (\<open>main_l443xc.c\<close>) and the flash
  (\<open>flash_l443xc.c\<close>). Functions of \<open>commands.c\<close> that these call are arguments.
\<close>

section \<open>Endpoints\<close>

text \<open>\<open>usb_send_bytes\<close> drops what is sent while the endpoint is busy.\<close>

definition l_send_hid :: "bytes \<Rightarrow> lfw \<Rightarrow> lfw" where
  "l_send_hid pkt s =
     (if l_hid_tx_pending s then s else put_lout (LOut_hid pkt) (s\<lparr>l_hid_tx_pending := True\<rparr>))"

definition l_send_keyboard :: "bytes \<Rightarrow> lfw \<Rightarrow> lfw" where
  "l_send_keyboard pkt s =
     (if l_keyboard_tx_pending s then s else put_lout (LOut_keyboard pkt) (s\<lparr>l_keyboard_tx_pending := True\<rparr>))"

section \<open>Packets\<close>

definition l_next_event :: "u8 \<Rightarrow> nat option" where
  "l_next_event m = find (\<lambda>i. bit m i) [0..<8]"

definition l_evbuf_bytes :: "l_evbuf \<Rightarrow> nat \<Rightarrow> lfw \<Rightarrow> bytes option" where
  "l_evbuf_bytes e len s =
     (case e of
        LE_null \<Rightarrow> None
      | LE_timeout_secs \<Rightarrow> (if len \<le> 1 then Some (take len [word_of_nat (l_timeout_event_secs s)]) else None))"

definition l_maybe_send_raw_hid_event :: "lfw \<Rightarrow> (bool \<times> lfw) option" where
  "l_maybe_send_raw_hid_event s =
     (if l_event_mask s = 0 then Some (False, s)
      else if l_hid_tx_pending s then Some (False, s)
      else case l_next_event (l_event_mask s) of
             None \<Rightarrow> Some (True, s)
           | Some i \<Rightarrow> do {
               let s = s\<lparr>l_event_mask := l_event_mask s AND NOT (push_bit i 1)\<rparr>;
               let pkt = (l_raw_hid_tx_event_packet s)[0 := 0xff, RAW_HID_HEADER_SIZE := word_of_nat i];
               pkt \<leftarrow> (if l_event_data s i \<noteq> LE_null then do {
                          d \<leftarrow> l_evbuf_bytes (l_event_data s i) (l_event_data_len s i) s;
                          memcpy_to (pkt[RAW_HID_HEADER_SIZE + 1 := word_of_nat (l_event_data_len s i)])
                            (RAW_HID_HEADER_SIZE + 2) d
                        } else Some (pkt[RAW_HID_HEADER_SIZE + 1 := 0]));
               Some (True, l_send_hid pkt (s\<lparr>l_raw_hid_tx_event_packet := pkt\<rparr>))
             })"

text \<open>\<open>sent\<close> is \<open>cmd_packet_sent\<close>; \<open>raw_hid_tx_data\<close> points to \<open>cmd_resp\<close> or is null.\<close>

definition l_maybe_send_raw_hid_packet :: "laction \<Rightarrow> laction" where
  "l_maybe_send_raw_hid_packet sent s = do {
     (ev, s) \<leftarrow> l_maybe_send_raw_hid_event s;
     if ev then Some s
     else if l_raw_hid_tx_seq s \<noteq> l_raw_hid_tx_count s then do {
       let lst = (if l_raw_hid_tx_seq s + 1 = l_raw_hid_tx_count s then 1 else 0 :: u8);
       chunk \<leftarrow> read_from (l_cmd_resp s) (l_raw_hid_tx_seq s * L_RAW_HID_PAYLOAD_SIZE) L_RAW_HID_PAYLOAD_SIZE;
       pkt \<leftarrow> memcpy_to ((l_raw_hid_tx_cmd_packet s)[0 := push_bit 7 lst OR word_of_nat (l_raw_hid_tx_seq s)])
                RAW_HID_HEADER_SIZE chunk;
       let s = l_send_hid pkt (s\<lparr>l_raw_hid_tx_cmd_packet := pkt\<rparr>);
       Some (s\<lparr>l_raw_hid_tx_seq := l_raw_hid_tx_seq s + 1\<rparr>)
     } else do {
       let s = s\<lparr>l_raw_hid_tx_seq := 0, l_raw_hid_tx_count := 0\<rparr>;
       if l_raw_hid_tx_data s then sent (s\<lparr>l_raw_hid_tx_data := False\<rparr>) else Some s
     }
   }"

text \<open>A response has a header, so the branch with \<open>cmd_packet_sent\<close> is not taken from here.\<close>

definition l_cmd_packet_send :: "nat \<Rightarrow> laction" where
  "l_cmd_packet_send len s =
     l_maybe_send_raw_hid_packet (\<lambda>_. None)
       (s\<lparr>l_raw_hid_tx_count := (len mod 65536 + L_RAW_HID_PAYLOAD_SIZE - 1) div L_RAW_HID_PAYLOAD_SIZE,
          l_raw_hid_tx_seq := 0, l_raw_hid_tx_data := True\<rparr>)"

definition l_cmd_event_send :: "nat \<Rightarrow> l_evbuf \<Rightarrow> nat \<Rightarrow> laction" where
  "l_cmd_event_send n d len s =
     map_option snd
       (l_maybe_send_raw_hid_event
          (s\<lparr>l_event_mask := l_event_mask s OR push_bit n 1,
             l_event_data := (l_event_data s)(n := d),
             l_event_data_len := (l_event_data_len s)(n := len)\<rparr>))"

text \<open>
  \<open>usb_raw_hid_rx\<close>, whose result says whether the endpoint takes the next packet; \<open>recv\<close> is
  \<open>cmd_packet_recv\<close>. A packet beyond the buffer is refused.
\<close>

definition l_usb_raw_hid_rx :: "laction \<Rightarrow> bytes \<Rightarrow> lfw \<Rightarrow> (bool \<times> lfw) option" where
  "l_usb_raw_hid_rx recv data s = do {
     let seq = unat (data ! 0 AND 0x7f);
     let last = bit (data ! 0) 7;
     let index = seq * L_RAW_HID_PAYLOAD_SIZE;
     if index + L_RAW_HID_PAYLOAD_SIZE > L_CMD_PACKET_BUF_SIZE then Some (last, s)
     else do {
       b \<leftarrow> memcpy_to (l_cmd_packet_buf s) index (slice data RAW_HID_HEADER_SIZE L_RAW_HID_PAYLOAD_SIZE);
       let s = s\<lparr>l_cmd_packet_buf := b\<rparr>;
       if last then map_option (Pair True) (recv s) else Some (True, s)
     }
   }"

text \<open>The host has fetched a packet: the endpoint is free again and \<open>usb_raw_hid_tx\<close> runs.\<close>

definition l_hid_tx_done :: "laction \<Rightarrow> laction" where
  "l_hid_tx_done sent s = l_maybe_send_raw_hid_packet sent (s\<lparr>l_hid_tx_pending := False\<rparr>)"

section \<open>Keyboard\<close>

definition l_kb_bytes :: "l_kb_buf \<Rightarrow> lfw \<Rightarrow> bytes" where
  "l_kb_bytes b s = (case b of LK_chars \<Rightarrow> l_chars s | LK_cleartext \<Rightarrow> l_cleartext_type_buf s)"

text \<open>\<open>finished\<close> is \<open>usb_keyboard_typing_done\<close>; the number of strokes is a \<open>u8\<close>.\<close>

definition l_usb_keyboard_type :: "laction \<Rightarrow> l_kb_buf \<Rightarrow> nat \<Rightarrow> laction" where
  "l_usb_keyboard_type finished b n s =
     (if l_typing s then Some s
      else if n mod 256 = 0 then finished s
      else do {
        let s = s\<lparr>l_n_chars := n mod 256, l_kb_chars := b, l_char_pos := 0, l_typing := True\<rparr>;
        k \<leftarrow> read_from (l_kb_bytes b s) 0 2;
        let s = l_send_keyboard k s;
        Some (s\<lparr>l_ms_type := l_ms_count s, l_char_pos_to_type := -1, l_char_pos := 1\<rparr>)
      })"

definition l_usb_keyboard_idle :: laction where
  "l_usb_keyboard_idle s =
     (if l_typing s \<and> l_char_pos_to_type s \<ge> 0 \<and> l_ms_count s > l_ms_type s + 15 then do {
        k \<leftarrow> read_from (l_kb_bytes (l_kb_chars s) s) (nat (l_char_pos_to_type s) * 2) 2;
        let s = l_send_keyboard k s;
        Some (s\<lparr>l_ms_type := l_ms_count s, l_char_pos_to_type := -1, l_char_pos := (l_char_pos s + 1) mod 256\<rparr>)
      } else Some s)"

definition l_usb_tx_keyboard :: "laction \<Rightarrow> laction" where
  "l_usb_tx_keyboard finished s =
     (if l_typing s then
        (if l_char_pos s = l_n_chars s then finished (s\<lparr>l_typing := False\<rparr>)
         else Some (s\<lparr>l_char_pos_to_type := int (l_char_pos s)\<rparr>))
      else Some s)"

section \<open>LED and timer\<close>

definition l_led_on :: "lfw \<Rightarrow> lfw" where "l_led_on s = put_lout (LOut_led True) (s\<lparr>l_blink_state := 1\<rparr>)"

definition l_led_off :: "lfw \<Rightarrow> lfw" where "l_led_off s = put_lout (LOut_led False) (s\<lparr>l_blink_state := 0\<rparr>)"

definition l_start_blinking :: "int \<Rightarrow> int \<Rightarrow> lfw \<Rightarrow> lfw" where
  "l_start_blinking period duration s =
     l_led_on (s\<lparr>l_blink_start := l_ms_count s, l_blink_period := period, l_blink_duration := duration,
                 l_timeout_event_secs := nat ((duration + 999) div 1000) mod 256\<rparr>)"

definition l_stop_blinking :: "lfw \<Rightarrow> lfw" where
  "l_stop_blinking s = l_led_off (s\<lparr>l_blink_period := 0, l_blink_paused := False\<rparr>)"

definition l_pause_blinking :: "lfw \<Rightarrow> lfw" where
  "l_pause_blinking s = (let s = l_led_off s in s\<lparr>l_blink_paused := True, l_pause_start := l_ms_count s\<rparr>)"

text \<open>\<open>timeout\<close> is \<open>blink_timeout\<close>.\<close>

definition l_blink_idle :: "laction \<Rightarrow> laction" where
  "l_blink_idle timeout s =
     (if l_blink_period s > 0 \<and> \<not> l_blink_paused s then do {
        let nxt = ((l_ms_count s - l_blink_start s) sdiv (l_blink_period s sdiv 2)) smod 2;
        let s = (if nxt \<noteq> l_blink_state s then (if nxt \<noteq> 0 then l_led_off s else l_led_on s) else s);
        let s = s\<lparr>l_blink_state := nxt\<rparr>;
        let msecs = l_blink_duration s - (l_ms_count s - l_blink_start s);
        let secs = (msecs + 999) sdiv 1000;
        s \<leftarrow> (if msecs \<le> 0 \<and> l_blink_duration s > 0
              then timeout (l_led_off (s\<lparr>l_blink_period := 0\<rparr>)) else Some s);
        if secs \<noteq> int (l_timeout_event_secs s) then do {
          let s = s\<lparr>l_timeout_event_secs := nat (secs mod 256)\<rparr>;
          if l_device_state s \<noteq> DS_DISCONNECTED \<and> l_device_state s \<noteq> DS_RESET
          then l_cmd_event_send 2 LE_timeout_secs 1 s else Some s
        } else Some s
      } else Some s)"

definition l_resume_blinking :: "laction \<Rightarrow> laction" where
  "l_resume_blinking timeout s =
     (if l_blink_paused s
      then l_blink_idle timeout
             (s\<lparr>l_blink_start := l_blink_start s + (l_ms_count s - l_pause_start s), l_blink_paused := False\<rparr>)
      else Some s)"

definition l_timer_start :: "int \<Rightarrow> lfw \<Rightarrow> lfw" where
  "l_timer_start ms s = s\<lparr>l_timer_target := l_ms_count s + ms\<rparr>"

definition l_timer_stop :: "lfw \<Rightarrow> lfw" where
  "l_timer_stop s = s\<lparr>l_timer_target := 0\<rparr>"

section \<open>Flash\<close>

text \<open>
  A write first erases its page; the erase ends in the interrupt \<open>flash_handler\<close>. Without data
  the write is then complete, else the main loop writes up to 32 double words per round.
  A request while another is being worked on is ignored.
\<close>

definition l_flash_write_page :: "nat \<Rightarrow> lbuf option \<Rightarrow> int \<Rightarrow> lfw \<Rightarrow> lfw" where
  "l_flash_write_page dest src count s =
     (if l_flash_state s = FLASH_IDLE then
        s\<lparr>l_flash_write_data := map_option (\<lambda>b. (b, 0)) src, l_flash_write_addr := dest,
          l_flash_write_count := nat ((count + 7) sdiv 8) mod 65536,
          l_flash := (l_flash s)((dest - FLASH_MEM_BASE_ADDR) div L_FLASH_PAGE_SIZE := replicate L_FLASH_PAGE_SIZE 0xff),
          l_flash_state := FLASH_ERASING\<rparr>
      else s)"

definition l_flash_write :: "nat \<Rightarrow> lbuf \<Rightarrow> int \<Rightarrow> lfw \<Rightarrow> lfw" where
  "l_flash_write dest src count s =
     (if l_flash_state s = FLASH_IDLE then
        s\<lparr>l_flash_write_data := Some (src, 0), l_flash_write_addr := dest,
          l_flash_write_count := nat ((count + 7) sdiv 8) mod 65536, l_flash_state := FLASH_WRITING\<rparr>
      else s)"

text \<open>\<open>complete\<close> and \<open>failed\<close> are \<open>flash_write_complete\<close> and \<open>flash_write_failed\<close>; \<open>ok\<close> is the EOP flag.\<close>

definition l_flash_handler :: "laction \<Rightarrow> laction \<Rightarrow> bool \<Rightarrow> laction" where
  "l_flash_handler complete failed ok s =
     (if l_flash_state s = FLASH_ERASING then
        (if ok then
           (if l_flash_write_data s \<noteq> None then Some (s\<lparr>l_flash_state := FLASH_WRITING\<rparr>)
            else complete (s\<lparr>l_flash_state := FLASH_IDLE\<rparr>))
         else failed (s\<lparr>l_flash_state := FLASH_IDLE\<rparr>))
      else Some s)"

definition l_flash_program :: "lenv \<Rightarrow> lfw \<Rightarrow> (bool \<times> lfw) option" where
  "l_flash_program L s = do {
     (b, off) \<leftarrow> l_flash_write_data s;
     d \<leftarrow> read_from (lbuf_get b s) off 8;
     let a = l_flash_write_addr s - FLASH_MEM_BASE_ADDR;
     let (pg, ok) = le_program L (l_flash s (a div L_FLASH_PAGE_SIZE)) (a mod L_FLASH_PAGE_SIZE) d;
     if l_flash_write_addr s < FLASH_MEM_BASE_ADDR \<or> a div L_FLASH_PAGE_SIZE \<ge> L_FLASH_PAGES then None
     else Some (ok, s\<lparr>l_flash := (l_flash s)(a div L_FLASH_PAGE_SIZE := pg),
                      l_flash_write_data := Some (b, off + 8), l_flash_write_addr := l_flash_write_addr s + 8\<rparr>)
   }"

text \<open>The loop of \<open>flash_write_state\<close>: the result says whether it ran to its end.\<close>

fun l_flash_write_loop :: "lenv \<Rightarrow> nat \<Rightarrow> lfw \<Rightarrow> (bool \<times> lfw) option" where
  "l_flash_write_loop L 0 s = Some (True, s)"
| "l_flash_write_loop L (Suc n) s =
     (if l_flash_write_count s = 0 then Some (True, s)
      else do {
        (ok, s) \<leftarrow> l_flash_program L s;
        if \<not> ok then Some (False, s)
        else l_flash_write_loop L n (s\<lparr>l_flash_write_count := l_flash_write_count s - 1\<rparr>)
      })"

definition l_flash_write_state :: "lenv \<Rightarrow> laction \<Rightarrow> laction \<Rightarrow> laction" where
  "l_flash_write_state L complete failed s = do {
     (ok, s) \<leftarrow> l_flash_write_loop L 32 s;
     if \<not> ok then failed (s\<lparr>l_flash_state := FLASH_IDLE\<rparr>)
     else if l_flash_write_count s = 0 then complete (s\<lparr>l_flash_state := FLASH_IDLE\<rparr>)
     else Some s
   }"

definition l_flash_idle :: "lenv \<Rightarrow> laction \<Rightarrow> laction \<Rightarrow> laction" where
  "l_flash_idle L complete failed s =
     (if l_flash_state s = FLASH_WRITING then l_flash_write_state L complete failed s else Some s)"

end
