(* ===== verification/Legacy_Rand.thy ===== *)
theory Legacy_Rand
  imports Legacy_Io
begin

text \<open>
  The random words of the original Signet: what the collectors leave in their rings, and so
  what the consumers of \<open>rand_get\<close> draw.
\<close>

definition l_rand_reset :: l_rand_src where
  "l_rand_reset = \<lparr>lrnd_level = 0, lrnd_buf = (\<lambda>_. 0), lrnd_head = 0, lrnd_tail = 0\<rparr>"

text \<open>The rings that words coming in and words taken out can lead to.\<close>

inductive l_ring :: "l_rand_src \<Rightarrow> bool" where
  ring_reset: "l_ring l_rand_reset"
| ring_put: "l_ring r \<Longrightarrow> l_ring (l_rand_src_put w r)"
| ring_get: "l_ring r \<Longrightarrow> l_ring (snd (l_rand_src_get r))"

lemma mod_even: "even (m mod 1024) \<longleftrightarrow> even (m :: nat)"
  by (rule dvd_mod_iff) simp

lemma l_ring_odd_zero:
  assumes "l_ring r"
  shows "even (lrnd_head r)" "odd i \<Longrightarrow> lrnd_buf r i = 0"
  using assms
proof induction
  case (ring_put r w)
  { case 1 from ring_put show ?case using mod_even [of "Suc (Suc (lrnd_head r))"] by (auto simp: l_rand_src_put_def Let_def) }
  { case 2 with ring_put show ?case by (auto simp: l_rand_src_put_def Let_def) }
qed (auto simp: l_rand_reset_def l_rand_src_get_def)

text \<open>An empty ring, or one whose tail has parity \<open>p\<close>.\<close>

definition l_phase :: "bool \<Rightarrow> l_rand_src \<Rightarrow> bool" where
  "l_phase p r \<longleftrightarrow> lrnd_head r = lrnd_tail r \<or> odd (lrnd_tail r) = p"

lemma l_phase_get:
  assumes "l_ring r" "l_phase p r"
  shows "l_phase (\<not> p) (snd (l_rand_src_get r))" "p \<Longrightarrow> fst (l_rand_src_get r) = 0"
  using assms l_ring_odd_zero(2) [OF assms(1), of "lrnd_tail r"]
  by (auto simp: l_phase_def l_rand_src_get_def mod_even)

lemma l_rand_words_phase:
  assumes "l_ring (l_rtc s)" "l_ring (l_rng s)" "l_phase p (l_rtc s)" "l_phase p (l_rng s)" "i < n" "odd i \<noteq> p"
  shows "fst (l_rand_words n s) ! i = 0"
  using assms
proof (induction n arbitrary: s p i)
  case (Suc n)
  define s1 where "s1 = snd (l_rand_get s)"
  have s1: "l_rtc s1 = snd (l_rand_src_get (l_rtc s))" "l_rng s1 = snd (l_rand_src_get (l_rng s))"
    by (simp_all add: s1_def l_rand_get_def split: prod.splits)
  have step: "fst (l_rand_words (Suc n) s) = fst (l_rand_get s) # fst (l_rand_words n s1)"
    by (simp add: s1_def split: prod.splits)
  show ?case
  proof (cases i)
    case 0
    with Suc.prems(6) have "fst (l_rand_src_get (l_rtc s)) = 0" "fst (l_rand_src_get (l_rng s)) = 0"
      using l_phase_get(2) [of "l_rtc s" p] l_phase_get(2) [of "l_rng s" p] Suc.prems(1-4) by simp_all
    then show ?thesis using 0 unfolding step by (auto simp: l_rand_get_def split: prod.splits)
  next
    case (Suc j)
    have "fst (l_rand_words n s1) ! j = 0"
    proof (rule Suc.IH [where p = "\<not> p"])
      show "l_ring (l_rtc s1)" "l_ring (l_rng s1)" unfolding s1 by (intro ring_get Suc.prems(1,2))+
      show "l_phase (\<not> p) (l_rtc s1)" "l_phase (\<not> p) (l_rng s1)"
        unfolding s1 by (intro l_phase_get(1) Suc.prems(1-4))+
      show "j < n" "odd j \<noteq> (\<not> p)" using Suc.prems(5,6) Suc by auto
    qed
    then show ?thesis using Suc unfolding step by simp
  qed
qed simp

lemma l_two_words:
  assumes "l_ring r"
  shows "fst (l_rand_src_get r) = 0 \<or> fst (l_rand_src_get (snd (l_rand_src_get r))) = 0"
  using l_phase_get [OF assms, of "odd (lrnd_tail r)"] l_phase_get(2) [OF ring_get [OF assms], of "\<not> odd (lrnd_tail r)"]
  by (auto simp: l_phase_def)

text \<open>
  Both rings as they are used: a word comes into one of them while it has room for two slots, or
  \<open>rand_get\<close> takes a word from each after \<open>rand_avail\<close> has found one.
\<close>

definition l_used :: "l_rand_src \<Rightarrow> nat" where
  "l_used r = (lrnd_head r + 1024 - lrnd_tail r) mod 1024"

inductive l_rings :: "l_rand_src \<Rightarrow> l_rand_src \<Rightarrow> bool" where
  rings_reset: "l_rings l_rand_reset l_rand_reset"
| rings_rtc: "l_rings a b \<Longrightarrow> l_used a + 2 < 1024 \<Longrightarrow> l_rings (l_rand_src_put w a) b"
| rings_rng: "l_rings a b \<Longrightarrow> l_used b + 2 < 1024 \<Longrightarrow> l_rings a (l_rand_src_put w b)"
| rings_get: "l_rings a b \<Longrightarrow> 1 \<le> lrnd_level a \<Longrightarrow> 1 \<le> lrnd_level b \<Longrightarrow>
    l_rings (snd (l_rand_src_get a)) (snd (l_rand_src_get b))"

text \<open>A word counted in the level occupies at least one slot of the ring.\<close>

definition l_level_ok :: "l_rand_src \<Rightarrow> bool" where
  "l_level_ok r \<longleftrightarrow> lrnd_head r < 1024 \<and> lrnd_tail r < 1024 \<and> lrnd_level r \<le> int (l_used r)"

lemma used_eq: "h < 1024 \<Longrightarrow> t < 1024 \<Longrightarrow> (h + 1024 - t) mod 1024 = (if t \<le> h then h - t else h + 1024 - t)"
  for h t :: nat
  by (auto simp: mod_if)

lemma used_put:
  fixes h t :: nat
  assumes "t < 1024" "(h + 1024 - t) mod 1024 + 2 < 1024"
  shows "(Suc (Suc h) mod 1024 + 1024 - t) mod 1024 = (h + 1024 - t) mod 1024 + 2"
proof -
  have "(Suc (Suc h) mod 1024 + 1024 - t) mod 1024 = (Suc (Suc h) mod 1024 + (1024 - t)) mod 1024" using assms(1) by simp
  also have "\<dots> = (Suc (Suc h) + (1024 - t)) mod 1024" by (rule mod_add_left_eq)
  also have "Suc (Suc h) + (1024 - t) = (h + 1024 - t) + 2" using assms(1) by simp
  also have "((h + 1024 - t) + 2) mod 1024 = ((h + 1024 - t) mod 1024 + 2) mod 1024" by (rule mod_add_left_eq [symmetric])
  also have "\<dots> = (h + 1024 - t) mod 1024 + 2" using assms(2) by (rule mod_less)
  finally show ?thesis .
qed

lemma used_get:
  fixes h t :: nat
  assumes "h < 1024" "t < 1024" "h \<noteq> t"
  shows "Suc ((h + 1024 - Suc t mod 1024) mod 1024) = (h + 1024 - t) mod 1024"
proof (cases "t = 1023")
  case True
  then have "Suc t mod 1024 = 0" "h < 1023" using assms by simp_all
  then show ?thesis using used_eq [OF assms(1,2)] used_eq [OF assms(1), of 0] True by simp
next
  case False
  then have "Suc t mod 1024 = Suc t" "Suc t < 1024" using assms(2) by simp_all
  then show ?thesis using used_eq [OF assms(1,2)] used_eq [OF assms(1), of "Suc t"] assms(3) by (cases "t \<le> h") simp_all
qed

lemma l_level_put:
  assumes "l_level_ok r" "l_used r + 2 < 1024"
  shows "l_level_ok (l_rand_src_put w r)" "lrnd_tail (l_rand_src_put w r) = lrnd_tail r"
proof -
  have h: "lrnd_head r < 1024" "lrnd_tail r < 1024" "lrnd_level r \<le> int (l_used r)"
    using assms(1) by (simp_all add: l_level_ok_def)
  let ?h = "Suc (Suc (lrnd_head r)) mod 1024"
  have u: "(?h + 1024 - lrnd_tail r) mod 1024 = l_used r + 2"
    unfolding l_used_def by (rule used_put) (use h assms(2) in \<open>simp_all add: l_used_def\<close>)
  have ne: "?h \<noteq> lrnd_tail r" using u by auto
  show "l_level_ok (l_rand_src_put w r)" "lrnd_tail (l_rand_src_put w r) = lrnd_tail r"
    using h u ne by (simp_all add: l_rand_src_put_def l_level_ok_def l_used_def Let_def)
qed

lemma l_level_get:
  assumes "l_level_ok r" "1 \<le> lrnd_level r"
  shows "l_level_ok (snd (l_rand_src_get r))" "odd (lrnd_tail (snd (l_rand_src_get r))) \<longleftrightarrow> even (lrnd_tail r)"
proof -
  have h: "lrnd_head r < 1024" "lrnd_tail r < 1024" "lrnd_level r \<le> int (l_used r)"
    using assms(1) by (simp_all add: l_level_ok_def)
  then have ne: "lrnd_head r \<noteq> lrnd_tail r" using assms(2) by (auto simp: l_used_def)
  have u: "Suc ((lrnd_head r + 1024 - Suc (lrnd_tail r) mod 1024) mod 1024) = l_used r"
    unfolding l_used_def by (rule used_get [OF h(1,2) ne])
  show "l_level_ok (snd (l_rand_src_get r))" "odd (lrnd_tail (snd (l_rand_src_get r))) \<longleftrightarrow> even (lrnd_tail r)"
    using h u ne by (simp_all add: l_rand_src_get_def l_level_ok_def l_used_def mod_even)
qed

lemma l_rings_level: "l_rings a b \<Longrightarrow> l_level_ok a \<and> l_level_ok b \<and> (odd (lrnd_tail a) \<longleftrightarrow> odd (lrnd_tail b))"
proof (induction rule: l_rings.induct)
  case rings_reset
  then show ?case by (simp add: l_level_ok_def l_rand_reset_def l_used_def)
next
  case (rings_get a b)
  then show ?case using l_level_get [of a] l_level_get [of b] by auto
qed (simp_all add: l_level_put)

text \<open>
  C39. The random words of the original Signet. \<open>rtc_wakeup\<close> and \<open>rng_handler\<close> advance the head of
  their ring by two for each word they store, so the slots with odd numbers are never written.
  Whatever words have come into the rings and gone out of them since the reset (\<open>l_ring\<close>): of two
  words taken one after the other from the same ring one is 0. \<open>rand_get\<close> combines a word of each
  ring. When both tails have the same parity, every second of the \<open>n\<close> words that it hands out next
  is 0. That is so as long as words are taken only after \<open>rand_avail\<close> has found them in both rings and
  neither ring has run full, with 512 words put in and not taken out (\<open>l_rings\<close>); afterwards the
  parities can differ, and then nothing is said of the combined words.
\<close>

theorem legacy_rand_half:
  assumes "l_ring (l_rtc s)" and "l_ring (l_rng s)"
  shows "(fst (l_rand_src_get (l_rtc s)) = 0 \<or> fst (l_rand_src_get (snd (l_rand_src_get (l_rtc s)))) = 0)
    \<and> (fst (l_rand_src_get (l_rng s)) = 0 \<or> fst (l_rand_src_get (snd (l_rand_src_get (l_rng s)))) = 0)
    \<and> (odd (lrnd_tail (l_rtc s)) = odd (lrnd_tail (l_rng s)) \<or> l_rings (l_rtc s) (l_rng s)
        \<longrightarrow> (\<forall>i < n. odd (lrnd_tail (l_rtc s) + i) \<longrightarrow> fst (l_rand_words n s) ! i = 0))"
proof (intro conjI l_two_words assms impI allI)
  fix i
  assume "odd (lrnd_tail (l_rtc s)) = odd (lrnd_tail (l_rng s)) \<or> l_rings (l_rtc s) (l_rng s)"
    "i < n" "odd (lrnd_tail (l_rtc s) + i)"
  then show "fst (l_rand_words n s) ! i = 0"
    using l_rings_level [of "l_rtc s" "l_rng s"]
    by (intro l_rand_words_phase [OF assms, where p = "odd (lrnd_tail (l_rtc s))"]) (auto simp: l_phase_def)
qed


theorem legacy_rand_half_witness:
  "\<forall>s. let s = s\<lparr>l_rtc := l_rand_src_put 7 (l_rand_src_put 5 l_rand_reset), l_rng := l_rand_src_put 2 (l_rand_src_put 3 l_rand_reset)\<rparr>
       in fst (l_rand_words 2 s) ! 0 = 6 \<and> fst (l_rand_words 2 s) ! 1 = 0"
proof
  fix s :: lfw
  define s2 where "s2 = s\<lparr>l_rtc := l_rand_src_put 7 (l_rand_src_put 5 l_rand_reset), l_rng := l_rand_src_put 2 (l_rand_src_put 3 l_rand_reset)\<rparr>"
  have tl: "lrnd_tail (l_rtc s2) = 0" "lrnd_tail (l_rng s2) = 0"
    by (simp_all add: s2_def l_rand_src_put_def l_rand_reset_def)
  have "fst (l_rand_words 2 s2) ! 1 = 0"
  proof -
    have "l_ring (l_rtc s2)" "l_ring (l_rng s2)" by (auto simp: s2_def intro: l_ring.intros)
    from legacy_rand_half [OF this, of 2] tl show ?thesis by (simp del: One_nat_def)
  qed
  moreover have "fst (l_rand_words 2 s2) ! 0 = 6"
    by (simp add: s2_def numeral_2_eq_2 l_rand_get_def l_rand_src_get_def l_rand_src_put_def l_rand_reset_def Let_def split: prod.splits)
  ultimately show "let s = s2 in fst (l_rand_words 2 s) ! 0 = 6 \<and> fst (l_rand_words 2 s) ! 1 = 0" by simp
qed

end
