(* ===== verification/Legacy_Base.thy ===== *)
theory Legacy_Base
  imports Legacy_Io
begin

text \<open>
  The lower half of \<open>commands.c\<close> of the original Signet: responses, progress, states of the
  device, the wait for the button, and the vector of a record.
\<close>

section \<open>Responses\<close>

text \<open>A null \<open>payload\<close> still counts with its length, the bytes sent are then stale.\<close>

definition l_finish_command_multi :: "command_responses \<Rightarrow> int \<Rightarrow> bytes option \<Rightarrow> nat \<Rightarrow> laction" where
  "l_finish_command_multi resp messages_remaining pl payload_len s = do {
     let full_length = payload_len + CMD_PACKET_HEADER_SIZE;
     let b = (l_cmd_resp s)[0 := word_of_nat full_length, 1 := word_of_nat (full_length div 256),
               2 := word_of_nat (resp_code resp), 3 := lo8 messages_remaining, 4 := hi8 messages_remaining,
               5 := word_of_nat (ds_code (l_device_state s))];
     b \<leftarrow> (case pl of
             None \<Rightarrow> Some b
           | Some p \<Rightarrow> do { d \<leftarrow> read_from p 0 payload_len; memcpy_to b CMD_PACKET_HEADER_SIZE d });
     let s = s\<lparr>l_cmd_resp := b\<rparr>;
     let s = (if messages_remaining = 0 \<and> l_cmd_messages_remaining s = 0 then s\<lparr>l_active_cmd := -1\<rparr> else s);
     l_cmd_packet_send full_length s
   }"

definition l_finish_command :: "command_responses \<Rightarrow> bytes option \<Rightarrow> nat \<Rightarrow> laction" where
  "l_finish_command resp = l_finish_command_multi resp 0"

definition l_finish_command_resp :: "command_responses \<Rightarrow> laction" where
  "l_finish_command_resp resp = l_finish_command resp None 0"

section \<open>Progress and states\<close>

definition l_get_total_progress :: "lfw \<Rightarrow> int" where
  "l_get_total_progress s = sum_list (map (l_progress_level s) [0..<l_n_progress_components s])"

definition l_get_total_progress_maximum :: "lfw \<Rightarrow> int" where
  "l_get_total_progress_maximum s = sum_list (map (l_progress_maximum s) [0..<l_n_progress_components s])"

definition l_get_progress_check :: laction where
  "l_get_progress_check s =
     (if l_active_cmd s = GET_PROGRESS then
        (let total = l_get_total_progress s; total_max = l_get_total_progress_maximum s;
             pair = (\<lambda>a b. [lo8 a, hi8 a, lo8 b, hi8 b])
         in if l_progress_target_state s = int (ds_code (l_device_state s)) \<and> total > l_progress_check s
            then l_finish_command OKAY
                   (Some (pair total total_max
                          @ concat (map (\<lambda>i. pair (l_progress_level s i) (l_progress_maximum s i))
                              [0..<l_n_progress_components s])))
                   ((l_n_progress_components s + 1) * 4) s
            else if l_progress_target_state s \<noteq> int (ds_code (l_device_state s))
            then l_finish_command_resp INVALID_STATE s
            else Some s)
      else Some s)"

definition l_enter_progressing_state :: "device_state \<Rightarrow> int list \<Rightarrow> laction" where
  "l_enter_progressing_state st mx s =
     l_get_progress_check
       (s\<lparr>l_device_state := st, l_progress_check := 0, l_n_progress_components := length mx,
          l_progress_level := (\<lambda>i. if i < length mx then 0 else l_progress_level s i),
          l_progress_maximum := (\<lambda>i. if i < length mx then mx ! i else l_progress_maximum s i)\<rparr>)"

definition l_enter_state :: "device_state \<Rightarrow> laction" where
  "l_enter_state st = l_enter_progressing_state st []"

section \<open>Waiting for the button\<close>

definition l_begin_button_press_wait :: "lfw \<Rightarrow> lfw" where
  "l_begin_button_press_wait s = l_start_blinking 500 10000 (s\<lparr>l_waiting_for_button_press := True\<rparr>)"

definition l_begin_long_button_press_wait :: "lfw \<Rightarrow> lfw" where
  "l_begin_long_button_press_wait s = l_start_blinking 1000 10000 (s\<lparr>l_waiting_for_long_button_press := True\<rparr>)"

definition l_end_button_press_wait :: "lfw \<Rightarrow> lfw" where
  "l_end_button_press_wait s = l_stop_blinking (s\<lparr>l_waiting_for_button_press := False\<rparr>)"

definition l_end_long_button_press_wait :: "lfw \<Rightarrow> lfw" where
  "l_end_long_button_press_wait s = l_stop_blinking (s\<lparr>l_waiting_for_long_button_press := False\<rparr>)"

definition l_blink_timeout :: laction where
  "l_blink_timeout s =
     (if l_waiting_for_button_press s \<or> l_waiting_for_long_button_press s
      then l_finish_command_resp BUTTON_PRESS_TIMEOUT (l_end_long_button_press_wait (l_end_button_press_wait s))
      else Some s)"

section \<open>The root page\<close>

definition l_signature0 :: "lfw \<Rightarrow> nat" where
  "l_signature0 s = unat (l_root_page s ! 0)"

definition l_rp_get :: "nat \<Rightarrow> nat \<Rightarrow> lfw \<Rightarrow> bytes" where
  "l_rp_get off n s = slice (l_root_page s) off n"

definition l_rp_put :: "nat \<Rightarrow> bytes \<Rightarrow> lfw \<Rightarrow> lfw" where
  "l_rp_put off d s = s\<lparr>l_root_page := splice (l_root_page s) off d\<rparr>"

text \<open>\<open>derive_iv\<close>: for an unknown format the buffer \<open>iv\<close> keeps what it held, plus the uid.\<close>

definition l_derive_iv :: "nat \<Rightarrow> bytes \<Rightarrow> lfw \<Rightarrow> bytes" where
  "l_derive_iv uid iv s =
     (let iv = (if l_signature0 s = 2 then l_rp_get LR_CBC_IV AES_BLK_SIZE s else iv)
      in iv[AES_BLK_SIZE - 1 := iv ! (AES_BLK_SIZE - 1) + word_of_nat uid])"

end
