(* ===== verification/Legacy_Db.thy ===== *)
theory Legacy_Db
  imports Legacy_Base
begin

text \<open>
  \<open>firmware/db.c\<close>, the database of the original Signet. A block of 2 KiB holds records whose
  partitions have one of eleven sizes; the blocks are read where they are, in flash. An
  update of a record whose size class changes moves it to another block: two writes, the new
  copy first.
\<close>

section \<open>Blocks\<close>

definition l_block_crc :: "lenv \<Rightarrow> bytes \<Rightarrow> u32" where
  "l_block_crc L b = l_crc_32 L (drop 4 b) (L_BLK_SIZE div 4 - 1)"

definition l_block_crc_check :: "lenv \<Rightarrow> bytes \<Rightarrow> bool" where
  "l_block_crc_check L b =
     (if blk_part_size b = INVALID_PART_SIZE then False else unat (l_block_crc L b) = rd32 b 0)"

definition l_block_header_size :: "nat \<Rightarrow> nat" where
  "l_block_header_size part_count = SUB_BLK_COUNT (8 + 6 * part_count)"

fun l_part_count_loop :: "nat \<Rightarrow> nat \<Rightarrow> nat" where
  "l_part_count_loop part_size 0 = 0"
| "l_part_count_loop part_size (Suc c) =
     (if l_block_header_size (Suc c) + Suc c * part_size > 128 then l_part_count_loop part_size c else Suc c)"

definition l_get_part_count :: "nat \<Rightarrow> nat" where
  "l_get_part_count part_size = l_part_count_loop part_size (128 div part_size)"

definition l_get_part :: "block_info \<Rightarrow> nat \<Rightarrow> nat" where
  "l_get_part info n = (bi_part_tbl_offs info + bi_part_size info * n) * SUB_BLK_SIZE"

definition part_sizes :: "nat list" where
  "part_sizes = [1, 2, 3, 4, 6, 7, 12, 15, 31, 63, 127]"

text \<open>The smallest partition size that fits; 0 if none does.\<close>

definition target_part_size :: "nat \<Rightarrow> nat" where
  "target_part_size data_bytes =
     (case find (\<lambda>p. p \<ge> SIZE_TO_SUB_BLK_COUNT data_bytes) part_sizes of Some p \<Rightarrow> p | None \<Rightarrow> 0)"

definition l_initialize_block :: "nat \<Rightarrow> bytes" where
  "l_initialize_block part_size = blk_set_header part_size 0 (replicate L_BLK_SIZE 0)"

text \<open>\<open>db2_initialize_block\<close>: the first eleven blocks get one partition size each, the others none.\<close>

definition db2_initialize_block :: "lenv \<Rightarrow> nat \<Rightarrow> bytes option" where
  "db2_initialize_block L block_num =
     (if block_num - MIN_DATA_BLOCK < length part_sizes
      then (let b = l_initialize_block (part_sizes ! (block_num - MIN_DATA_BLOCK))
            in Some (blk_set_crc (l_block_crc L b) b))
      else None)"

section \<open>Finding and freeing\<close>

definition l_find_free_block :: "lfw \<Rightarrow> nat" where
  "l_find_free_block s =
     (case find (\<lambda>i. bi_valid (l_block_info_tbl s i) \<and> \<not> bi_occupied (l_block_info_tbl s i))
             [MIN_DATA_BLOCK..<L_MAX_DATA_BLOCK + 1] of
        Some i \<Rightarrow> i | None \<Rightarrow> INVALID_BLOCK)"

text \<open>\<open>find_uid\<close>: the block of the record and its position there, or null.\<close>

definition l_find_uid :: "nat \<Rightarrow> lfw \<Rightarrow> (nat \<times> nat) option" where
  "l_find_uid uid s =
     (let block_num = l_uid_map s uid in
      if block_num = INVALID_BLOCK then None
      else map_option (Pair block_num)
             (find (\<lambda>j. ent_uid (l_block block_num s) j = uid) [0..<bi_part_occupancy (l_block_info_tbl s block_num)]))"

text \<open>
  \<open>deallocate_uid\<close> works on a scratch block and block info; the result is the number of the block, or
  null if the record does not exist, and both scratch variables.
\<close>

definition l_remove_entry :: "nat \<Rightarrow> block_info \<Rightarrow> bytes \<Rightarrow> (bytes \<times> block_info) option" where
  "l_remove_entry index info b = do {
     let info = info\<lparr>bi_part_occupancy := (bi_part_occupancy info + 255) mod 256\<rparr>;
     let occ = (blk_occupancy b + 65535) mod 65536;
     let b = blk_set_header (blk_part_size b) occ b;
     b \<leftarrow> (if occ \<noteq> 0 then do {
             p \<leftarrow> read_from b (l_get_part info (bi_part_occupancy info)) (bi_part_size info * SUB_BLK_SIZE);
             b \<leftarrow> memcpy_to b (l_get_part info index) p;
             e \<leftarrow> read_from b (ent_off (bi_part_occupancy info)) 6;
             memcpy_to b (ent_off index) e
           } else Some b);
     Some (b, info)
   }"

definition l_deallocate_uid :: "nat \<Rightarrow> bool \<Rightarrow> bytes \<Rightarrow> block_info \<Rightarrow> lfw \<Rightarrow> (nat \<times> bytes \<times> block_info) option" where
  "l_deallocate_uid uid deallocate_block block_temp info_temp s =
     (case l_find_uid uid s of
        None \<Rightarrow> Some (INVALID_BLOCK, block_temp, info_temp)
      | Some (block_num, index) \<Rightarrow>
          (let info = l_block_info_tbl s block_num in
           if bi_part_occupancy info = 1 \<and> deallocate_block
           then Some (block_num, blk_set_crc (-1) (blk_set_header INVALID_PART_SIZE 0 block_temp),
                      info\<lparr>bi_valid := True, bi_occupied := False\<rparr>)
           else map_option (Pair block_num) (l_remove_entry index info (l_block block_num s))))"

section \<open>Allocation\<close>

definition l_allocate_uid_blk ::
  "lenv \<Rightarrow> nat \<Rightarrow> bytes \<Rightarrow> nat \<Rightarrow> nat \<Rightarrow> bytes \<Rightarrow> bytes \<Rightarrow> block_info \<Rightarrow> lfw \<Rightarrow> (bytes \<times> block_info) option" where
  "l_allocate_uid_blk L uid data sz rv iv b info s = do {
     let index = bi_part_occupancy info;
     let info = info\<lparr>bi_part_occupancy := (index + 1) mod 256, bi_occupied := True, bi_valid := True\<rparr>;
     let b = blk_set_header (blk_part_size b) (blk_occupancy b + 1) b;
     b \<leftarrow> ent_write index uid sz rv b;
     let blk_count = SIZE_TO_SUB_BLK_COUNT sz;
     din \<leftarrow> read_from data 0 (blk_count * SUB_BLK_SIZE);
     b \<leftarrow> memcpy_to b (l_get_part info index)
            (stm_aes_256_encrypt_cbc (le_nettle L) (l_encrypt_key s) blk_count (Some iv) din);
     Some (b, info)
   }"

text \<open>The first block with partitions of the right size and a free one.\<close>

definition l_alloc_exact :: "nat \<Rightarrow> lfw \<Rightarrow> nat option" where
  "l_alloc_exact part_size s =
     find (\<lambda>i. let b = l_block_info_tbl s i in
             bi_valid b \<and> bi_occupied b \<and> bi_part_size b = part_size \<and> bi_part_occupancy b < bi_part_count b)
       [MIN_DATA_BLOCK..<L_MAX_DATA_BLOCK + 1]"

text \<open>The last resort: the block with the smallest partitions that are large enough.\<close>

definition l_alloc_larger_step :: "nat \<Rightarrow> lfw \<Rightarrow> nat \<Rightarrow> nat \<times> nat \<Rightarrow> nat \<times> nat" where
  "l_alloc_larger_step part_size s i acc =
     (let (block_num, found_part_size) = acc; b = l_block_info_tbl s i
      in if bi_valid b \<and> bi_occupied b \<and> bi_part_size b \<ge> part_size \<and> bi_part_size b < found_part_size
            \<and> bi_part_occupancy b < bi_part_count b
         then (i, bi_part_size b) else acc)"

definition l_alloc_larger :: "nat \<Rightarrow> lfw \<Rightarrow> nat" where
  "l_alloc_larger part_size s =
     fst (fold (l_alloc_larger_step part_size s) [MIN_DATA_BLOCK..<L_MAX_DATA_BLOCK + 1] (INVALID_BLOCK, L_BLK_SIZE))"

definition l_new_info :: "nat \<Rightarrow> block_info \<Rightarrow> block_info" where
  "l_new_info part_size info =
     info\<lparr>bi_part_occupancy := 0, bi_part_size := part_size,
          bi_part_count := l_get_part_count part_size mod 256,
          bi_part_tbl_offs := l_block_header_size (l_get_part_count part_size mod 256)\<rparr>"

text \<open>The block for a new record, with the scratch variables as the search leaves them.\<close>

definition l_choose_block :: "nat \<Rightarrow> bytes \<Rightarrow> block_info \<Rightarrow> lfw \<Rightarrow> nat \<times> bytes \<times> block_info" where
  "l_choose_block part_size block_temp info_temp s =
     (case l_alloc_exact part_size s of
        Some i \<Rightarrow> (i, l_block i s, l_block_info_tbl s i)
      | None \<Rightarrow>
          (let i = l_find_free_block s in
           if i \<noteq> INVALID_BLOCK then (i, l_initialize_block part_size, l_new_info part_size info_temp)
           else (let i = l_alloc_larger part_size s in
                 if i \<noteq> INVALID_BLOCK then (i, l_block i s, l_block_info_tbl s i)
                 else (INVALID_BLOCK, block_temp, info_temp))))"

definition l_allocate_uid ::
  "lenv \<Rightarrow> nat \<Rightarrow> bytes \<Rightarrow> nat \<Rightarrow> nat \<Rightarrow> bytes \<Rightarrow> bytes \<Rightarrow> block_info \<Rightarrow> lfw \<Rightarrow> (nat \<times> bytes \<times> block_info) option" where
  "l_allocate_uid L uid data sz rv iv block_temp info_temp s =
     (let part_size = target_part_size sz in
      if part_size = 0 then Some (INVALID_BLOCK, block_temp, info_temp)
      else let (i, b, info) = l_choose_block part_size block_temp info_temp s in
        if i = INVALID_BLOCK then Some (INVALID_BLOCK, b, info)
        else map_option (Pair i) (l_allocate_uid_blk L uid data sz rv iv b info s))"

section \<open>Updating a record\<close>

text \<open>
  \<open>update_uid\<close>. The result: the block to write or \<open>INVALID_BLOCK\<close>, the block that held the record
  before (\<open>*prev_block_num\<close>, which a deletion leaves alone), and the scratch variables.
\<close>

definition l_update_uid ::
  "lenv \<Rightarrow> nat \<Rightarrow> bytes \<Rightarrow> nat \<Rightarrow> nat \<Rightarrow> bytes \<Rightarrow> bytes \<Rightarrow> block_info \<Rightarrow> lfw \<Rightarrow> (nat \<times> nat \<times> bytes \<times> block_info) option" where
  "l_update_uid L uid data sz prev iv block_temp info_temp s =
     (if sz = 0 then do {
        (i, b, info) \<leftarrow> l_deallocate_uid uid True block_temp info_temp s;
        Some (i, prev, b, info)
      } else case l_find_uid uid s of
        None \<Rightarrow> do {
          (i, b, info) \<leftarrow> l_allocate_uid L uid data sz 0 iv block_temp info_temp s;
          Some (i, INVALID_BLOCK, b, info)
        }
      | Some (block_num, index) \<Rightarrow>
          (let part_size = target_part_size sz; info = l_block_info_tbl s block_num;
               rv = ent_rev (l_block block_num s) index
           in if part_size = 0 then Some (INVALID_BLOCK, prev, block_temp, info_temp)
              else if bi_part_size info = part_size then do {
                (_, b, info) \<leftarrow> l_deallocate_uid uid False (l_block block_num s) info s;
                (b, info) \<leftarrow> l_allocate_uid_blk L uid data sz rv iv b info s;
                Some (block_num, block_num, b, info)
              } else do {
                (i, b, info) \<leftarrow> l_allocate_uid L uid data sz ((rv + 1) mod 4) iv block_temp info s;
                Some (i, block_num, b, info)
              }))"

definition l_upd_update :: "(l_update_data \<Rightarrow> l_update_data) \<Rightarrow> lfw \<Rightarrow> lfw" where
  "l_upd_update f s = s\<lparr>l_update := f (l_update s)\<rparr>"

definition l_update_uid_cmd_complete :: "lenv \<Rightarrow> lfw \<Rightarrow> lfw" where
  "l_update_uid_cmd_complete L s =
     (let u = l_update s;
          s = (if bi_occupied (lu_blk_info u)
               then l_upd_update (\<lambda>u. u\<lparr>lu_block := blk_set_crc (l_block_crc L (lu_block u)) (lu_block u)\<rparr>) s else s)
      in l_flash_write_page (BLOCK_ADDR (lu_block_num u)) (Some LB_update_block) (int L_BLK_SIZE) s)"

definition l_update_uid_cmd :: "lenv \<Rightarrow> nat \<Rightarrow> bytes \<Rightarrow> nat \<Rightarrow> nat \<Rightarrow> laction" where
  "l_update_uid_cmd L uid data sz press_type s = do {
     let s = l_upd_update (\<lambda>u. u\<lparr>lu_iv := l_derive_iv uid (lu_iv u) s, lu_uid := uid, lu_sz := sz,
                lu_write_count := 0, lu_prev_block_num := INVALID_BLOCK\<rparr>) s;
     let u = l_update s;
     (i, prev, b, info) \<leftarrow> l_update_uid L uid data sz INVALID_BLOCK (lu_iv u) (lu_block u) (lu_blk_info u) s;
     let s = l_upd_update (\<lambda>u. u\<lparr>lu_block_num := i, lu_prev_block_num := prev, lu_block := b, lu_blk_info := info\<rparr>) s;
     if i = INVALID_BLOCK then l_finish_command_resp NOT_ENOUGH_SPACE s
     else if press_type = 0 then Some (l_update_uid_cmd_complete L s)
     else if press_type = 1 then Some (l_begin_button_press_wait s)
     else Some (l_begin_long_button_press_wait s)
   }"

definition l_update_uid_cmd_write_finished :: "lenv \<Rightarrow> laction" where
  "l_update_uid_cmd_write_finished L s = do {
     let s = l_upd_update (\<lambda>u. u\<lparr>lu_write_count := lu_write_count u + 1\<rparr>) s;
     let u = l_update s;
     if lu_write_count u = 1 then do {
       let s = s\<lparr>l_block_info_tbl := (l_block_info_tbl s)(lu_block_num u := lu_blk_info u)\<rparr>;
       if lu_prev_block_num u \<noteq> lu_block_num u \<and> lu_prev_block_num u \<noteq> INVALID_BLOCK then do {
         (_, b, info) \<leftarrow> l_deallocate_uid (lu_uid u) True (lu_block u) (lu_blk_info u) s;
         let b = blk_set_crc (l_block_crc L b) b;
         Some (l_flash_write_page (BLOCK_ADDR (lu_prev_block_num u)) (Some LB_update_block) (int L_BLK_SIZE)
                (l_upd_update (\<lambda>u. u\<lparr>lu_block := b, lu_blk_info := info\<rparr>) s))
       } else
         l_finish_command_resp OKAY
           (s\<lparr>l_uid_map := (l_uid_map s)(lu_uid u := (if lu_sz u = 0 then INVALID_BLOCK else lu_block_num u mod 256))\<rparr>)
     } else
       l_finish_command_resp OKAY
         (s\<lparr>l_block_info_tbl := (l_block_info_tbl s)(lu_prev_block_num u := lu_blk_info u),
            l_uid_map := (l_uid_map s)(lu_uid u := lu_block_num u mod 256)\<rparr>)
   }"

section \<open>Reading records\<close>

text \<open>\<open>mask_uid_data\<close> is the same function as in \<open>firmware-hc\<close>.\<close>

definition l_mask_uid_data :: "bytes \<Rightarrow> nat \<Rightarrow> bytes" where
  "l_mask_uid_data data blk_count =
     fold (\<lambda>i d. fold (\<lambda>j d. mask_byte d (i * SUB_BLK_SIZE) j) [0..<SUB_BLK_DATA_SIZE] d) [0..<blk_count] data"

definition l_decode_uid :: "lenv \<Rightarrow> nat \<Rightarrow> nat \<Rightarrow> nat \<Rightarrow> nat \<Rightarrow> bytes \<Rightarrow> lfw \<Rightarrow> bytes option" where
  "l_decode_uid L sz block_num index masked iv s = do {
     let blk_count = SIZE_TO_SUB_BLK_COUNT sz;
     din \<leftarrow> read_from (l_block block_num s) (l_get_part (l_block_info_tbl s block_num) index) (blk_count * SUB_BLK_SIZE);
     let d = stm_aes_256_decrypt_cbc (le_nettle L) (l_encrypt_key s) blk_count (Some iv) din;
     Some (if masked \<noteq> 0 then l_mask_uid_data d blk_count else d)
   }"

definition l_upd_read :: "(l_read_data \<Rightarrow> l_read_data) \<Rightarrow> lfw \<Rightarrow> lfw" where
  "l_upd_read f s = s\<lparr>l_read := f (l_read s)\<rparr>"

definition l_read_uid_cmd_complete :: "lenv \<Rightarrow> laction" where
  "l_read_uid_cmd_complete L s = do {
     let r = l_read s;
     (i, j) \<leftarrow> lr_ent r;
     let sz = ent_sz (l_block i s) j;
     b \<leftarrow> memcpy_to (lr_block r) 0 (le16 sz);
     d \<leftarrow> l_decode_uid L sz (lr_block_num r) (lr_index r) (lr_masked r) (lr_iv r) s;
     b \<leftarrow> memcpy_to b 2 d;
     l_finish_command OKAY (Some b) (SIZE_TO_SUB_BLK_COUNT sz * SUB_BLK_SIZE + 2)
       (l_upd_read (\<lambda>r. r\<lparr>lr_block := b\<rparr>) s)
   }"

definition l_read_uid_cmd :: "lenv \<Rightarrow> nat \<Rightarrow> nat \<Rightarrow> laction" where
  "l_read_uid_cmd L uid masked s =
     (let e = l_find_uid uid s;
          s = l_upd_read (\<lambda>r. r\<lparr>lr_uid := uid, lr_masked := masked, lr_ent := e, lr_block_num := l_uid_map s uid,
                lr_index := (case e of Some (_, j) \<Rightarrow> j | None \<Rightarrow> lr_index r), lr_iv := l_derive_iv uid (lr_iv r) s\<rparr>) s
      in if e = None then l_finish_command_resp ID_INVALID s
         else if masked = 0 then Some (l_begin_button_press_wait s)
         else l_read_uid_cmd_complete L s)"

text \<open>
  The loop that looks for the next record. As in \<open>firmware-hc\<close> its condition also reads
  \<open>uid_map[4096]\<close> before it tests the bound; the value read does not matter.
\<close>

definition l_next_mapped_uid :: "nat \<Rightarrow> lfw \<Rightarrow> nat" where
  "l_next_mapped_uid uid s =
     (if uid > MAX_UID then uid
      else case find (\<lambda>u. l_uid_map s u \<noteq> INVALID_BLOCK) [uid..<MAX_UID + 1] of Some u \<Rightarrow> u | None \<Rightarrow> MAX_UID + 1)"

definition l_upd_read_all :: "(l_read_all_data \<Rightarrow> l_read_all_data) \<Rightarrow> lfw \<Rightarrow> lfw" where
  "l_upd_read_all f s = s\<lparr>l_read_all := f (l_read_all s)\<rparr>"

text \<open>
  The loop around \<open>find_uid\<close> tests the mapped uid again when its block does not hold it: it
  then never ends, which is the value null.
\<close>

definition l_read_all_uids_cmd_iter :: "lenv \<Rightarrow> laction" where
  "l_read_all_uids_cmd_iter L s = do {
     let uid = l_next_mapped_uid (la_uid (l_read_all s) + 1) s;
     let s = l_upd_read_all (\<lambda>r. r\<lparr>la_uid := uid\<rparr>) s;
     if uid > MAX_UID then do {
       b \<leftarrow> memcpy_to (la_block (l_read_all s)) 0 (le16 uid);
       l_finish_command_multi ID_INVALID 0 (Some b) 2 (l_upd_read_all (\<lambda>r. r\<lparr>la_block := b\<rparr>) s)
     } else do {
       (i, j) \<leftarrow> l_find_uid uid s;
       let s = l_upd_read_all (\<lambda>r. r\<lparr>la_expected_remaining := la_expected_remaining r - 1,
                 la_iv := l_derive_iv uid (la_iv r) s\<rparr>) s;
       let r = l_read_all s;
       let sz = ent_sz (l_block i s) j;
       b \<leftarrow> memcpy_to (la_block r) 0 (le16 uid @ le16 sz);
       d \<leftarrow> l_decode_uid L sz i j (la_masked r) (la_iv r) s;
       b \<leftarrow> memcpy_to b 4 d;
       l_finish_command_multi OKAY (la_expected_remaining r) (Some b) (SIZE_TO_SUB_BLK_COUNT sz * SUB_BLK_SIZE + 4)
         (l_upd_read_all (\<lambda>r. r\<lparr>la_block := b\<rparr>) s)
     }
   }"

definition l_read_all_uids_cmd :: "lenv \<Rightarrow> nat \<Rightarrow> laction" where
  "l_read_all_uids_cmd L masked s =
     (let n = length (filter (\<lambda>i. l_uid_map s i \<noteq> INVALID_BLOCK) [MIN_UID..<MAX_UID + 1]);
          s = l_upd_read_all (\<lambda>r. r\<lparr>la_uid := 0, la_masked := masked, la_expected_remaining := int n\<rparr>) s
      in if masked = 0 then Some (l_begin_long_button_press_wait s) else l_read_all_uids_cmd_iter L s)"

section \<open>The scan at startup\<close>

definition l_scan_info :: "lenv \<Rightarrow> bytes \<Rightarrow> block_info \<Rightarrow> block_info" where
  "l_scan_info L b old =
     (let psz = blk_part_size b;
          info = old\<lparr>bi_part_size := psz,
                     bi_valid := (l_block_crc_check L b \<or> psz = INVALID_PART_SIZE),
                     bi_occupied := (psz \<noteq> INVALID_PART_SIZE)\<rparr>
      in if bi_valid info \<and> bi_occupied info
         then info\<lparr>bi_part_occupancy := blk_occupancy b mod 256,
                   bi_part_count := l_get_part_count psz mod 256,
                   bi_part_tbl_offs := l_block_header_size (l_get_part_count psz mod 256)\<rparr>
         else info)"

text \<open>
  The scan stops at the first record it sees twice, which is what a move interrupted between its
  two writes leaves behind: the older copy is taken out of its block, the write of which
  runs the scan again. \<open>temp\<close> names the scratch block of the command that scans.
\<close>

definition l_temp_info :: "lbuf \<Rightarrow> lfw \<Rightarrow> block_info" where
  "l_temp_info temp s = (if temp = LB_startup_block then l_startup_info s else li_blk_info (l_init s))"

definition l_put_temp :: "lbuf \<Rightarrow> bytes \<Rightarrow> block_info \<Rightarrow> lfw \<Rightarrow> lfw" where
  "l_put_temp temp b info s =
     (if temp = LB_startup_block then s\<lparr>l_startup_block := b, l_startup_info := info\<rparr>
      else s\<lparr>l_init := (l_init s)\<lparr>li_block := b, li_blk_info := info\<rparr>\<rparr>)"

definition l_resolve_collision :: "lenv \<Rightarrow> nat \<Rightarrow> nat \<Rightarrow> nat \<Rightarrow> lbuf \<Rightarrow> laction" where
  "l_resolve_collision L uid i j temp s = do {
     (pb, pj) \<leftarrow> l_find_uid uid s;
     let s = (if (ent_rev (l_block i s) j + 1) mod 4 = ent_rev (l_block pb s) pj
              then s\<lparr>l_uid_map := (l_uid_map s)(uid := i)\<rparr> else s);
     (nb, b, info) \<leftarrow> l_deallocate_uid uid True (lbuf_get temp s) (l_temp_info temp s) s;
     let b = (if nb \<noteq> INVALID_BLOCK \<and> bi_occupied info then blk_set_crc (l_block_crc L b) b else b);
     let s = l_put_temp temp b info s;
     Some (if nb \<noteq> INVALID_BLOCK then l_flash_write_page (BLOCK_ADDR nb) (Some temp) (int L_BLK_SIZE) s else s)
   }"

fun l_scan_entries :: "lenv \<Rightarrow> lbuf \<Rightarrow> nat \<Rightarrow> nat list \<Rightarrow> lfw \<Rightarrow> (bool \<times> lfw) option" where
  "l_scan_entries L temp i [] s = Some (True, s)"
| "l_scan_entries L temp i (j # js) s =
     (let b = l_block i s; uid = ent_uid b j in
      if uid \<ge> MIN_UID \<and> uid \<le> MAX_UID \<and> ent_first b j then
        (if l_uid_map s uid \<noteq> INVALID_BLOCK then map_option (Pair False) (l_resolve_collision L uid i j temp s)
         else l_scan_entries L temp i js (s\<lparr>l_uid_map := (l_uid_map s)(uid := i)\<rparr>))
      else l_scan_entries L temp i js s)"

fun l_scan_blocks :: "lenv \<Rightarrow> lbuf \<Rightarrow> nat list \<Rightarrow> lfw \<Rightarrow> (bool \<times> lfw) option" where
  "l_scan_blocks L temp [] s = Some (True, s)"
| "l_scan_blocks L temp (i # is) s = do {
     let info = l_scan_info L (l_block i s) (l_block_info_tbl s i);
     if bi_valid info \<and> bi_occupied info \<and> bi_part_size info = 0 then None
     else do {
       let s = s\<lparr>l_block_info_tbl := (l_block_info_tbl s)(i := info)\<rparr>;
       (fin, s) \<leftarrow> (if bi_valid info \<and> bi_occupied info
                     then l_scan_entries L temp i [0..<bi_part_occupancy info] s else Some (True, s));
       if fin then l_scan_blocks L temp is s else Some (False, s)
     }
   }"

definition db2_startup_scan :: "lenv \<Rightarrow> lbuf \<Rightarrow> lfw \<Rightarrow> (bool \<times> lfw) option" where
  "db2_startup_scan L temp s =
     l_scan_blocks L temp [MIN_DATA_BLOCK..<L_MAX_DATA_BLOCK + 1]
       (s\<lparr>l_uid_map := (\<lambda>u. if MIN_UID \<le> u \<and> u \<le> MAX_UID then INVALID_BLOCK else l_uid_map s u)\<rparr>)"

end
