(* ===== verification/Legacy_Blocks.thy ===== *)
theory Legacy_Blocks
  imports Legacy_Db Db_Blocks
begin

text \<open>
  The blocks of the original Signet as maps: \<open>blk_recs\<close> is the map from uids to sizes and
  encrypted contents that a block stands for. Adding an entry with \<open>l_allocate_uid_blk\<close> is an
  update of that map, removing one with \<open>l_remove_entry\<close> a restriction, for every partition size.
\<close>

section \<open>Geometry\<close>

lemma l_part_count_loop_fits:
  "0 < l_part_count_loop p n \<Longrightarrow> l_block_header_size (l_part_count_loop p n) + l_part_count_loop p n * p \<le> 128"
  by (induction n) (auto split: if_splits)

lemma l_part_count_loop_le: "l_part_count_loop p n \<le> n"
  by (induction n) auto

lemma l_part_count_le: "l_get_part_count p \<le> 128"
  unfolding l_get_part_count_def by (rule order_trans [OF l_part_count_loop_le]) (simp add: div_le_dividend)

lemma l_header_holds_directory: "j < c \<Longrightarrow> ent_off j + 6 \<le> 16 * l_block_header_size c"
  unfolding ent_off_def l_block_header_size_def SUB_BLK_COUNT_def by linarith

text \<open>What the cached info says about the layout.\<close>

definition geometry :: "block_info \<Rightarrow> bool" where
  "geometry info \<longleftrightarrow>
     0 < bi_part_size info \<and> bi_part_size info \<le> 127 \<and> bi_part_count info = l_get_part_count (bi_part_size info)
   \<and> bi_part_tbl_offs info = l_block_header_size (bi_part_count info) \<and> bi_part_occupancy info \<le> bi_part_count info"

definition part_len :: "block_info \<Rightarrow> nat" where
  "part_len info = bi_part_size info * SUB_BLK_SIZE"

lemma part_in_block:
  assumes "geometry info" "j < bi_part_count info"
  shows "l_get_part info j + part_len info \<le> L_BLK_SIZE" "k < bi_part_count info \<Longrightarrow> ent_off k + 6 \<le> l_get_part info j"
proof -
  let ?c = "bi_part_count info" and ?p = "bi_part_size info"
  have fits: "l_block_header_size ?c + ?c * ?p \<le> 128"
    using assms l_part_count_loop_fits [of ?p "128 div ?p"] by (simp add: geometry_def l_get_part_count_def)
  have "Suc j * ?p \<le> ?c * ?p" using assms(2) by (intro mult_le_mono1) simp
  then have "l_block_header_size ?c + (?p * j + ?p) \<le> 128" using fits by (simp add: mult.commute)
  then show "l_get_part info j + part_len info \<le> L_BLK_SIZE"
    using assms(1) by (simp add: l_get_part_def part_len_def geometry_def)
  show "ent_off k + 6 \<le> l_get_part info j" if "k < ?c"
    using l_header_holds_directory [OF that] assms(1) by (simp add: l_get_part_def geometry_def)
qed

lemma parts_apart:
  assumes "j \<noteq> k"
  shows "l_get_part info j + part_len info \<le> l_get_part info k \<or> l_get_part info k + part_len info \<le> l_get_part info j"
proof -
  have "i < n \<Longrightarrow> l_get_part info i + part_len info \<le> l_get_part info n" for i n
  proof -
    assume "i < n"
    then have "bi_part_size info * Suc i \<le> bi_part_size info * n" by (intro mult_le_mono2) simp
    then show ?thesis by (simp add: l_get_part_def part_len_def)
  qed
  then show ?thesis using assms by (cases j k rule: linorder_cases) auto
qed

lemma l_get_part_cong:
  "bi_part_tbl_offs a = bi_part_tbl_offs b \<Longrightarrow> bi_part_size a = bi_part_size b \<Longrightarrow> l_get_part a j = l_get_part b j"
  by (simp add: l_get_part_def)

lemma ent_in_block: "j < bi_part_count info \<Longrightarrow> geometry info \<Longrightarrow> ent_off j + 6 \<le> L_BLK_SIZE"
  using part_in_block(1) [of info j] part_in_block(2) [of info j j] by simp

section \<open>The records of a block\<close>

definition blk_find :: "nat \<Rightarrow> block_info \<Rightarrow> bytes \<Rightarrow> nat option" where
  "blk_find uid info b = find (\<lambda>j. ent_uid b j = uid) [0..<bi_part_occupancy info]"

definition blk_rec :: "block_info \<Rightarrow> bytes \<Rightarrow> nat \<Rightarrow> nat \<times> bytes" where
  "blk_rec info b j = (ent_sz b j, slice b (l_get_part info j) (SIZE_TO_SUB_BLK_COUNT (ent_sz b j) * SUB_BLK_SIZE))"

definition blk_recs :: "block_info \<Rightarrow> bytes \<Rightarrow> nat \<Rightarrow> (nat \<times> bytes) option" where
  "blk_recs info b uid = map_option (blk_rec info b) (blk_find uid info b)"

definition in_use :: "block_info \<Rightarrow> bool" where
  "in_use info \<longleftrightarrow> bi_valid info \<and> bi_occupied info"

text \<open>A block that is in use: info and header agree, and its entries are of different records that fit.\<close>

definition used_ok :: "block_info \<Rightarrow> bytes \<Rightarrow> bool" where
  "used_ok info b \<longleftrightarrow>
     length b = L_BLK_SIZE \<and> geometry info \<and> blk_part_size b = bi_part_size info \<and> blk_occupancy b = bi_part_occupancy info
   \<and> (\<forall>j<bi_part_occupancy info. MIN_UID \<le> ent_uid b j \<and> SIZE_TO_SUB_BLK_COUNT (ent_sz b j) \<le> bi_part_size info
        \<and> (\<forall>k<bi_part_occupancy info. ent_uid b j = ent_uid b k \<longrightarrow> j = k))"

lemma find_upt_Some:
  "find P [0..<n] = Some j \<Longrightarrow> j < n \<and> P j" "find P [0..<n] = None \<Longrightarrow> i < n \<Longrightarrow> \<not> P i"
  by (auto simp: find_Some_iff find_None_iff) 

lemma blk_find_unique:
  assumes "used_ok info b" "j < bi_part_occupancy info" "ent_uid b j = uid"
  shows "blk_find uid info b = Some j"
proof (cases "blk_find uid info b")
  case None
  then show ?thesis using assms find_upt_Some(2) unfolding blk_find_def by blast
next
  case (Some k)
  then have "k < bi_part_occupancy info" "ent_uid b k = uid" using find_upt_Some(1) unfolding blk_find_def by blast+
  then show ?thesis using assms Some unfolding used_ok_def by blast
qed

lemma blk_find_eq:
  assumes "used_ok info b"
  shows "blk_find uid info b = Some j \<longleftrightarrow> j < bi_part_occupancy info \<and> ent_uid b j = uid"
proof
  assume "blk_find uid info b = Some j"
  then show "j < bi_part_occupancy info \<and> ent_uid b j = uid"
    using find_upt_Some(1) [of "\<lambda>j. ent_uid b j = uid"] unfolding blk_find_def by blast
qed (use blk_find_unique [OF assms] in blast)

lemma blk_find_None:
  assumes "used_ok info b"
  shows "blk_find uid info b = None \<longleftrightarrow> (\<forall>j<bi_part_occupancy info. ent_uid b j \<noteq> uid)"
  using blk_find_eq [OF assms, of uid] by (metis not_None_eq)

text \<open>Blocks with the same entries, up to their positions, have the same records.\<close>

lemma blk_recs_eqI:
  assumes "used_ok info b" "used_ok info' b'"
    and "\<And>j. j < bi_part_occupancy info \<Longrightarrow> \<exists>k<bi_part_occupancy info'. ent_uid b' k = ent_uid b j \<and> blk_rec info' b' k = blk_rec info b j"
    and "\<And>k. k < bi_part_occupancy info' \<Longrightarrow> \<exists>j<bi_part_occupancy info. ent_uid b j = ent_uid b' k"
  shows "blk_recs info' b' = blk_recs info b"
proof
  fix uid
  show "blk_recs info' b' uid = blk_recs info b uid"
  proof (cases "blk_find uid info b")
    case None
    then have "blk_find uid info' b' = None"
      using assms(4) unfolding blk_find_None [OF assms(1)] blk_find_None [OF assms(2)] by metis
    with None show ?thesis by (simp add: blk_recs_def)
  next
    case (Some j)
    then have j: "j < bi_part_occupancy info" "ent_uid b j = uid" using blk_find_eq [OF assms(1)] by blast+
    obtain k where "k < bi_part_occupancy info'" "ent_uid b' k = uid" "blk_rec info' b' k = blk_rec info b j"
      using assms(3) [OF j(1)] j(2) by metis
    then have "blk_find uid info' b' = Some k" "blk_rec info' b' k = blk_rec info b j" using blk_find_eq [OF assms(2)] by blast+
    with Some show ?thesis by (simp add: blk_recs_def)
  qed
qed

section \<open>Single accesses\<close>

lemma slice_splice_prefix: "off + length d \<le> length b \<Longrightarrow> n \<le> length d \<Longrightarrow> slice (splice b off d) off n = take n d"
  by (simp add: slice_def splice_def)

lemma take_slice_le: "n \<le> m \<Longrightarrow> take n (slice b off m) = slice b off n"
  by (simp add: slice_def)

lemma slice_splice_apart:
  assumes "off + length d \<le> length b" "off + length d \<le> o2 \<or> o2 + n \<le> off" "o2 + n \<le> length b"
  shows "slice (splice b off d) o2 n = slice b o2 n"
  using assms by (metis slice_splice_after slice_splice_before)

lemma ent_copy:
  assumes "ent_off j + 6 \<le> length b" "ent_off k + 6 \<le> length b"
  shows "ent (splice b (ent_off j) (slice b (ent_off k) 6)) j = ent b k"
proof -
  let ?b = "splice b (ent_off j) (slice b (ent_off k) 6)"
  have nth: "?b ! (ent_off j + i) = b ! (ent_off k + i)" if "i < 6" for i
    using that assms by (simp add: nth_splice nth_slice)
  have "rd16 ?b (ent_off j) = rd16 b (ent_off k)" "rd16 ?b (ent_off j + 2) = rd16 b (ent_off k + 2)"
    by (rule rd16_cong; use nth [of 0] nth [of 1] nth [of 2] nth [of 3] in \<open>simp add: numeral_3_eq_3\<close>)+
  then show ?thesis by (simp add: ent_def ent_uid_def ent_rev_def ent_first_def ent_sz_def)
qed

lemma blk_rec_cong:
  assumes "ent_sz b' k = ent_sz b j"
    and "slice b' (l_get_part info' k) (SIZE_TO_SUB_BLK_COUNT (ent_sz b j) * SUB_BLK_SIZE)
       = slice b (l_get_part info j) (SIZE_TO_SUB_BLK_COUNT (ent_sz b j) * SUB_BLK_SIZE)"
  shows "blk_rec info' b' k = blk_rec info b j"
  using assms by (simp add: blk_rec_def)

lemma used_ent:
  assumes "used_ok info b" "j < bi_part_occupancy info"
  shows "j < bi_part_count info" "ent_off j + 6 \<le> L_BLK_SIZE" "MIN_UID \<le> ent_uid b j"
    "SIZE_TO_SUB_BLK_COUNT (ent_sz b j) * SUB_BLK_SIZE \<le> part_len info"
proof -
  show "j < bi_part_count info" using assms by (simp add: used_ok_def geometry_def)
  then show "ent_off j + 6 \<le> L_BLK_SIZE" using ent_in_block assms(1) by (simp add: used_ok_def)
  show "MIN_UID \<le> ent_uid b j" "SIZE_TO_SUB_BLK_COUNT (ent_sz b j) * SUB_BLK_SIZE \<le> part_len info"
    using assms by (simp_all add: used_ok_def part_len_def)
qed

section \<open>Removing an entry\<close>

lemma remove_last:
  assumes u: "used_ok info b" and j: "bi_part_occupancy info = Suc 0"
  obtains b' where "l_remove_entry 0 info b = Some (b', info\<lparr>bi_part_occupancy := 0\<rparr>)"
    "used_ok (info\<lparr>bi_part_occupancy := 0\<rparr>) b'" "blk_recs (info\<lparr>bi_part_occupancy := 0\<rparr>) b' = Map.empty"
proof -
  let ?b = "blk_set_header (blk_part_size b) 0 b"
  have r: "l_remove_entry 0 info b = Some (?b, info\<lparr>bi_part_occupancy := 0\<rparr>)"
    using u j by (simp add: l_remove_entry_def used_ok_def)
  have "used_ok (info\<lparr>bi_part_occupancy := 0\<rparr>) ?b"
    using u by (simp add: used_ok_def geometry_def block_simps)
  then show ?thesis using that [OF r] by (simp add: blk_recs_def blk_find_def fun_eq_iff)
qed

text \<open>The general case, \<open>m\<close> the position of the last entry: it moves to the place of the removed one.\<close>

lemma remove_moves:
  assumes u: "used_ok info b" and j: "j < bi_part_occupancy info" and m: "bi_part_occupancy info = Suc m" "0 < m"
  obtains b' where "l_remove_entry j info b = Some (b', info\<lparr>bi_part_occupancy := m\<rparr>)" "length b' = L_BLK_SIZE"
    "blk_part_size b' = blk_part_size b" "blk_occupancy b' = m"
    "\<And>k. k < m \<Longrightarrow> ent b' k = ent b (if k = j then m else k)
      \<and> blk_rec (info\<lparr>bi_part_occupancy := m\<rparr>) b' k = blk_rec info b (if k = j then m else k)"
proof -
  let ?info = "info\<lparr>bi_part_occupancy := m\<rparr>" and ?n = "part_len info"
  have g: "geometry info" and b: "length b = L_BLK_SIZE" using u by (simp_all add: used_ok_def)
  have cnt: "k < bi_part_count info" if "k \<le> m" for k using used_ent(1) [OF u, of k] m that by simp
  have par: "l_get_part ?info k = l_get_part info k" for k by (simp add: l_get_part_def)
  have inb: "l_get_part info k + ?n \<le> L_BLK_SIZE" "ent_off i + 6 \<le> l_get_part info k" "ent_off i + 6 \<le> L_BLK_SIZE"
    if "k \<le> m" "i \<le> m" for i k
    using part_in_block(1) [OF g cnt [OF that(1)]] part_in_block(2) [OF g cnt [OF that(1)], of i] cnt [OF that(2)] ent_in_block [OF _ g, of i]
    by simp_all
  have m256: "m < 256" using cnt [of m] l_part_count_le [of "bi_part_size info"] g by (simp add: geometry_def)
  define b1 where "b1 = blk_set_header (blk_part_size b) m b"
  define b2 where "b2 = splice b1 (l_get_part info j) (slice b1 (l_get_part info m) ?n)"
  define b3 where "b3 = splice b2 (ent_off j) (slice b2 (ent_off m) 6)"
  have jm: "j \<le> m" using j m by simp
  have l1: "length b1 = L_BLK_SIZE" using b by (simp add: b1_def)
  have d2: "length (slice b1 (l_get_part info m) ?n) = ?n" using inb(1) [of m m] l1 by simp
  have l2: "length b2 = L_BLK_SIZE" using inb(1) [OF jm jm] l1 d2 by (simp add: b2_def)
  have d3: "length (slice b2 (ent_off m) 6) = 6" using inb(3) [of m m] l2 by simp
  have l3: "length b3 = L_BLK_SIZE" using inb(3) [OF jm jm] l2 d3 by (simp add: b3_def)
  have occ: "blk_occupancy b = Suc m" using u m by (simp add: used_ok_def)
  have r: "l_remove_entry j info b = Some (b3, ?info)"
    using m m256 occ inb(1) [of m m] inb(1) [OF jm jm] inb(3) [of m m] inb(3) [OF jm jm] l1 l2 d2 d3
    by (simp add: l_remove_entry_def Let_def par b1_def b2_def b3_def part_len_def)
  have p8: "8 \<le> l_get_part info j" using inb(2) [OF jm jm] ent_off_ge [of j] by linarith
  have h1: "blk_part_size b1 = blk_part_size b" "blk_occupancy b1 = m"
    using b m256 blk_part_size_less [of b] by (simp_all add: b1_def block_simps)
  have h2: "blk_part_size b2 = blk_part_size b" "blk_occupancy b2 = m"
    unfolding b2_def using l1 d2 p8 inb(1) [OF jm jm] h1 by (simp_all add: block_simps)
  have h: "blk_part_size b3 = blk_part_size b" "blk_occupancy b3 = m"
    unfolding b3_def using l2 d3 inb(3) [OF jm jm] h2 by (simp_all add: block_simps)
  have e2: "ent b2 k = ent b k" if "k \<le> m" for k
  proof -
    have "ent b2 k = ent b1 k"
      unfolding b2_def using inb(2) [OF jm that] inb(1) [OF jm jm] inb(3) [OF jm that] l1 d2 by (intro ent_splice) simp_all
    then show ?thesis using b inb(3) [OF jm that] by (simp add: b1_def block_simps)
  qed
  have e3: "ent b3 k = ent b (if k = j then m else k)" if "k < m" for k
  proof (cases "k = j")
    case True
    then show ?thesis
      using ent_copy [of j b2 m] inb(3) [OF jm jm] inb(3) [of m m] l2 e2 [of m] by (simp add: b3_def)
  next
    case False
    have "ent b3 k = ent b2 k"
      unfolding b3_def using ent_off_other [OF False] inb(3) [OF jm jm] inb(3) [OF jm, of k] that l2 d3
      by (intro ent_splice) auto
    with False that e2 [of k] show ?thesis by simp
  qed
  have part: "slice b3 (l_get_part info k) n = slice b (l_get_part info (if k = j then m else k)) n"
    if "k < m" "n \<le> ?n" for k n
  proof -
    have i: "l_get_part info k + n \<le> L_BLK_SIZE" "l_get_part info m + n \<le> L_BLK_SIZE"
      using inb(1) [of k m] inb(1) [of m m] that by simp_all
    have b13: "slice b1 (l_get_part info i) n = slice b (l_get_part info i) n" if "i \<le> m" for i
      unfolding b1_def blk_set_header_def using b inb(1) [OF that, of m] inb(2) [OF that, of 0] \<open>n \<le> ?n\<close>
      by (intro slice_splice_after) (simp_all add: ent_off_def)
    have "slice b3 (l_get_part info k) n = slice b2 (l_get_part info k) n"
      unfolding b3_def using l2 d3 i inb(2) [of k j] inb(3) [OF jm jm] jm that by (intro slice_splice_apart) simp_all
    also have "\<dots> = slice b1 (l_get_part info (if k = j then m else k)) n"
    proof (cases "k = j")
      case True
      then show ?thesis
        using d2 l1 inb(1) [OF jm jm] that(2) by (simp add: b2_def slice_splice_prefix take_slice_le)
    next
      case False
      then show ?thesis
        unfolding b2_def using parts_apart [OF False, of info] d2 l1 i inb(1) [OF jm jm] that
        by simp (rule slice_splice_apart; auto)
    qed
    also have "\<dots> = slice b (l_get_part info (if k = j then m else k)) n" using that b13 by simp
    finally show ?thesis .
  qed
  have "blk_rec ?info b3 k = blk_rec info b (if k = j then m else k)" if "k < m" for k
  proof (rule blk_rec_cong)
    show "ent_sz b3 k = ent_sz b (if k = j then m else k)" by (rule entD(4) [OF e3 [OF that]])
    show "slice b3 (l_get_part ?info k) (SIZE_TO_SUB_BLK_COUNT (ent_sz b (if k = j then m else k)) * SUB_BLK_SIZE)
        = slice b (l_get_part info (if k = j then m else k)) (SIZE_TO_SUB_BLK_COUNT (ent_sz b (if k = j then m else k)) * SUB_BLK_SIZE)"
      unfolding par by (rule part [OF that]) (use used_ent(4) [OF u, of "if k = j then m else k"] m that in simp)
  qed
  then show ?thesis using that [OF r l3 h] e3 by blast
qed

lemma used_uid_inj:
  assumes "used_ok info b" "i < bi_part_occupancy info" "k < bi_part_occupancy info" "ent_uid b i = ent_uid b k"
  shows "i = k"
  using assms unfolding used_ok_def by blast

lemma remove_entry:
  assumes u: "used_ok info b" and j: "j < bi_part_occupancy info"
  defines "info' \<equiv> info\<lparr>bi_part_occupancy := bi_part_occupancy info - 1\<rparr>"
  obtains b' where "l_remove_entry j info b = Some (b', info')" "used_ok info' b'"
    "blk_recs info' b' = (blk_recs info b)(ent_uid b j := None)"
proof (cases "bi_part_occupancy info = Suc 0")
  case True
  have j0: "j = 0" using j True by simp
  obtain b' where b: "l_remove_entry 0 info b = Some (b', info\<lparr>bi_part_occupancy := 0\<rparr>)"
    "used_ok (info\<lparr>bi_part_occupancy := 0\<rparr>) b'" "blk_recs (info\<lparr>bi_part_occupancy := 0\<rparr>) b' = Map.empty"
    by (rule remove_last [OF u True])
  have "blk_recs info b uid = None" if "uid \<noteq> ent_uid b 0" for uid
    using that True by (simp add: blk_recs_def blk_find_def)
  then have "(blk_recs info b)(ent_uid b 0 := None) = Map.empty" by (simp add: fun_eq_iff)
  with b True j0 show ?thesis using that [of b'] by (simp add: info'_def)
next
  case False
  then obtain m where m: "bi_part_occupancy info = Suc m" "0 < m" using j by (cases "bi_part_occupancy info") auto
  let ?s = "\<lambda>k. if k = j then m else k"
  have info': "info' = info\<lparr>bi_part_occupancy := m\<rparr>" by (simp add: info'_def m)
  obtain b' where b: "l_remove_entry j info b = Some (b', info')" "length b' = L_BLK_SIZE"
    "blk_part_size b' = blk_part_size b" "blk_occupancy b' = m"
    "\<And>k. k < m \<Longrightarrow> ent b' k = ent b (?s k) \<and> blk_rec info' b' k = blk_rec info b (?s k)"
    unfolding info' by (rule remove_moves [OF u j m]) blast
  have e: "ent_uid b' k = ent_uid b (?s k)" "ent_sz b' k = ent_sz b (?s k)" if "k < m" for k
    using entD(1,4) b(5) [OF that] by blast+
  have sm: "?s k < Suc m" "?s k \<noteq> j" if "k < m" for k using that j m by auto
  have uid: "MIN_UID \<le> ent_uid b (?s k)" "SIZE_TO_SUB_BLK_COUNT (ent_sz b (?s k)) \<le> bi_part_size info" if "k < m" for k
    using u sm(1) [OF that] unfolding used_ok_def m(1) by blast+
  have inj: "k = i" if "k < m" "i < m" "ent_uid b' k = ent_uid b' i" for k i
  proof -
    have "ent_uid b (?s k) = ent_uid b (?s i)" using e(1) that by simp
    from used_uid_inj [OF u _ _ this] have "?s k = ?s i" using sm(1) that m(1) by simp
    then show ?thesis using that j m by (auto split: if_splits)
  qed
  have ok: "used_ok info' b'"
    unfolding used_ok_def
    using b(2-4) u uid e inj m unfolding info' by (auto simp: used_ok_def geometry_def)
  have "blk_recs info' b' uid = ((blk_recs info b)(ent_uid b j := None)) uid" for uid
  proof (cases "blk_find uid info' b'")
    case None
    then have n: "\<forall>k<m. ent_uid b' k \<noteq> uid" using blk_find_None [OF ok] by (simp add: info')
    have "blk_find uid info b = None" if ne: "uid \<noteq> ent_uid b j"
      unfolding blk_find_None [OF u]
    proof (intro allI impI)
      fix k assume k: "k < bi_part_occupancy info"
      show "ent_uid b k \<noteq> uid"
      proof (cases "k = m")
        case True
        show ?thesis
        proof (cases "j = m")
          case False
          then have "j < m" using j m by simp
          then show ?thesis using n e(1) [of j] True by auto
        qed (use ne True in simp)
      next
        case False
        then show ?thesis using k m n e(1) [of k] ne by (cases "k = j") auto
      qed
    qed
    with None show ?thesis by (simp add: blk_recs_def)
  next
    case (Some k)
    then have k: "k < m" "ent_uid b' k = uid" using blk_find_eq [OF ok] by (simp_all add: info')
    then have "blk_find uid info b = Some (?s k)" using blk_find_eq [OF u] e(1) sm(1) m by simp
    moreover have "uid \<noteq> ent_uid b j"
    proof
      assume "uid = ent_uid b j"
      then have "ent_uid b (?s k) = ent_uid b j" using e(1) [OF k(1)] k(2) by simp
      from used_uid_inj [OF u _ j this] have "?s k = j" using sm(1) [OF k(1)] m(1) by simp
      then show False using sm(2) [OF k(1)] by simp
    qed
    ultimately show ?thesis using Some b(5) [OF k(1)] by (simp add: blk_recs_def)
  qed
  then show ?thesis using that [OF b(1) ok] by blast
qed

section \<open>Adding an entry\<close>

lemma length_stm_encrypt_cbc:
  assumes "nettle_ok N" "length key \<ge> 32" "length iv = 16" "length d = 16 * n"
  shows "length (stm_aes_256_encrypt_cbc N key n (Some iv) d) = 16 * n"
  using assms
proof (induction n arbitrary: iv d)
  case (Suc n)
  have "length (l_xor_block d (Some iv)) = 16" by (simp add: l_xor_block_def)
  then have "length (stm_aes_256_encrypt N key (l_xor_block d (Some iv))) = 16"
    using Suc.prems by (simp add: stm_aes_256_encrypt_def nettle_ok_def)
  with Suc.IH [of "stm_aes_256_encrypt N key (l_xor_block d (Some iv))" "drop 16 d"] Suc.prems show ?case
    by (simp add: Let_def)
qed simp

text \<open>A new entry at the end leaves the others and their parts alone.\<close>

lemma add_entry_raw:
  assumes u: "used_ok info b" and room: "bi_part_occupancy info < bi_part_count info"
    and uid: "uid \<le> MAX_UID"
    and sz: "sz < 65536" "SIZE_TO_SUB_BLK_COUNT sz \<le> bi_part_size info" "length data = SIZE_TO_SUB_BLK_COUNT sz * SUB_BLK_SIZE"
    and key: "nettle_ok (le_nettle L)" "length (l_encrypt_key s) = 32" "length iv = 16"
  defines "info' \<equiv> info\<lparr>bi_part_occupancy := bi_part_occupancy info + 1, bi_occupied := True, bi_valid := True\<rparr>"
  defines "enc \<equiv> stm_aes_256_encrypt_cbc (le_nettle L) (l_encrypt_key s) (SIZE_TO_SUB_BLK_COUNT sz) (Some iv) data"
  obtains b' where "l_allocate_uid_blk L uid data sz rv iv b info s = Some (b', info')"
    "length b' = L_BLK_SIZE" "blk_part_size b' = bi_part_size info" "blk_occupancy b' = bi_part_occupancy info + 1"
    "\<And>k. k < bi_part_occupancy info \<Longrightarrow> ent b' k = ent b k"
    "\<And>k. k < bi_part_occupancy info \<Longrightarrow> blk_rec info' b' k = blk_rec info b k"
    "ent_uid b' (bi_part_occupancy info) = uid" "ent_sz b' (bi_part_occupancy info) = sz"
    "blk_rec info' b' (bi_part_occupancy info) = (sz, enc)"
proof -
  define m where "m = bi_part_occupancy info"
  have g: "geometry info" and b: "length b = L_BLK_SIZE" "blk_part_size b = bi_part_size info" "blk_occupancy b = m"
    using u by (simp_all add: used_ok_def m_def)
  have cnt: "bi_part_count info \<le> 128" using g l_part_count_le by (simp add: geometry_def)
  have m: "m < bi_part_count info" "m < 128" using room cnt by (simp_all add: m_def)
  have le: "length enc = SIZE_TO_SUB_BLK_COUNT sz * 16" "length enc \<le> part_len info"
    using length_stm_encrypt_cbc [OF key(1) _ key(3), of "l_encrypt_key s" data] key(2) sz
    by (simp_all add: enc_def part_len_def mult.commute)
  have eo: "ent_off k + 6 \<le> L_BLK_SIZE" "ent_off k + 6 \<le> l_get_part info i" "l_get_part info i + part_len info \<le> L_BLK_SIZE"
    if "k \<le> m" "i \<le> m" for k i
    using ent_in_block [OF _ g, of k] part_in_block(1) [OF g, of i] part_in_block(2) [OF g, of i k] that m by simp_all
  have par: "l_get_part info' k = l_get_part info k" for k by (simp add: l_get_part_def info'_def)
  define b1 where "b1 = blk_set_header (blk_part_size b) (m + 1) b"
  have l1: "length b1 = L_BLK_SIZE" using b by (simp add: b1_def)
  obtain b2 where b2: "ent_write m uid sz rv b1 = Some b2" "length b2 = length b1"
    "ent b2 m = (uid mod 4096, rv mod 4, True, sz mod 65536)" "\<And>k. k \<noteq> m \<Longrightarrow> ent_off k + 6 \<le> length b1 \<Longrightarrow> ent b2 k = ent b1 k"
    "blk_part_size b2 = blk_part_size b1" "blk_occupancy b2 = blk_occupancy b1"
    "\<And>o2 n. ent_off m + 6 \<le> o2 \<Longrightarrow> o2 + n \<le> length b1 \<Longrightarrow> slice b2 o2 n = slice b1 o2 n"
    by (rule ent_write_any [of m b1 uid sz rv]) (use eo(1) [of m m] l1 in simp, blast)
  define b3 where "b3 = splice b2 (l_get_part info m) enc"
  have l3: "length b3 = L_BLK_SIZE" using b2(2) l1 le eo(3) [of m m] by (simp add: b3_def)
  have p8: "8 \<le> l_get_part info m" using eo(2) [of m m] ent_off_ge [of m] by linarith
  have r: "l_allocate_uid_blk L uid data sz rv iv b info s = Some (b3, info')"
    using b2(1,2) l1 sz(3) le eo(3) [of m m] m b
    by (simp add: l_allocate_uid_blk_def Let_def b1_def [symmetric] m_def [symmetric] info'_def enc_def [symmetric] b3_def)
      (simp add: b1_def enc_def b3_def l_get_part_def)
  have h: "blk_part_size b3 = bi_part_size info" "blk_occupancy b3 = m + 1"
    using b m(2) b2(2,5,6) l1 le eo(3) [of m m] p8 blk_part_size_less [of b] g
    by (simp_all add: b3_def b1_def block_simps geometry_def)
  have e3: "ent b3 k = ent b2 k" if "k \<le> m" for k
    unfolding b3_def using eo(1,2) [of k m] eo(3) [of m m] that b2(2) l1 le by (intro ent_splice) simp_all
  have new: "ent_uid b3 m = uid" "ent_sz b3 m = sz"
    using e3 [of m] b2(3) uid sz(1) by (simp_all add: ent_def)
  have old: "ent b3 k = ent b k" if "k < m" for k
  proof -
    have "ent b2 k = ent b1 k" using b2(4) [of k] eo(1) [of k m] that l1 by simp
    moreover have "ent b1 k = ent b k" using b eo(1) [of k m] that by (simp add: b1_def block_simps)
    ultimately show ?thesis using e3 [of k] that by simp
  qed
  have recm: "blk_rec info' b3 m = (sz, enc)"
    using new le b2(2) l1 eo(3) [of m m] by (simp add: blk_rec_def par b3_def)
  have rec: "blk_rec info' b3 k = blk_rec info b k" if k: "k < m" for k
  proof (rule blk_rec_cong)
    show "ent_sz b3 k = ent_sz b k" by (rule entD(4) [OF old [OF k]])
    let ?n = "SIZE_TO_SUB_BLK_COUNT (ent_sz b k) * SUB_BLK_SIZE"
    have n: "?n \<le> part_len info" using used_ent(4) [OF u, of k] k by (simp add: m_def)
    have i: "l_get_part info k + ?n \<le> L_BLK_SIZE" using n eo(3) [of k k] k by simp
    have "slice b3 (l_get_part info k) ?n = slice b2 (l_get_part info k) ?n"
      unfolding b3_def using parts_apart [of k m info] k le n i b2(2) l1 eo(3) [of m m]
      by (intro slice_splice_apart) auto
    also have "\<dots> = slice b1 (l_get_part info k) ?n" using eo(2) [of m k] k i l1 by (intro b2(7)) simp_all
    also have "\<dots> = slice b (l_get_part info k) ?n"
      unfolding b1_def blk_set_header_def using b i eo(2) [of 0 k] k
      by (intro slice_splice_after) (simp_all add: ent_off_def)
    finally show "slice b3 (l_get_part info' k) ?n = slice b (l_get_part info k) ?n" by (simp add: par)
  qed
  have oldb: "ent b3 k = ent b k" if "k < bi_part_occupancy info" for k using old [of k] that by (simp add: m_def)
  have recb: "blk_rec info' b3 k = blk_rec info b k" if "k < bi_part_occupancy info" for k using rec [of k] that by (simp add: m_def)
  show ?thesis
    by (rule that [OF r l3 h(1) _ oldb recb]) (use h(2) new recm in \<open>simp_all add: m_def\<close>)
qed

lemma add_entry:
  assumes u: "used_ok info b" and room: "bi_part_occupancy info < bi_part_count info"
    and uid: "MIN_UID \<le> uid" "uid \<le> MAX_UID" "blk_recs info b uid = None"
    and sz: "sz < 65536" "SIZE_TO_SUB_BLK_COUNT sz \<le> bi_part_size info" "length data = SIZE_TO_SUB_BLK_COUNT sz * SUB_BLK_SIZE"
    and key: "nettle_ok (le_nettle L)" "length (l_encrypt_key s) = 32" "length iv = 16"
  defines "info' \<equiv> info\<lparr>bi_part_occupancy := bi_part_occupancy info + 1, bi_occupied := True, bi_valid := True\<rparr>"
  obtains b' where "l_allocate_uid_blk L uid data sz rv iv b info s = Some (b', info')" "used_ok info' b'"
    "blk_recs info' b' = (blk_recs info b)(uid \<mapsto>
       (sz, stm_aes_256_encrypt_cbc (le_nettle L) (l_encrypt_key s) (SIZE_TO_SUB_BLK_COUNT sz) (Some iv) data))"
proof -
  define m where "m = bi_part_occupancy info"
  define enc where "enc = stm_aes_256_encrypt_cbc (le_nettle L) (l_encrypt_key s) (SIZE_TO_SUB_BLK_COUNT sz) (Some iv) data"
  obtain b3 where r: "l_allocate_uid_blk L uid data sz rv iv b info s = Some (b3, info')"
    and l3: "length b3 = L_BLK_SIZE" and h: "blk_part_size b3 = bi_part_size info" "blk_occupancy b3 = m + 1"
    and old: "\<And>k. k < m \<Longrightarrow> ent b3 k = ent b k" and rec: "\<And>k. k < m \<Longrightarrow> blk_rec info' b3 k = blk_rec info b k"
    and new: "ent_uid b3 m = uid" "ent_sz b3 m = sz" and recm: "blk_rec info' b3 m = (sz, enc)"
    unfolding m_def enc_def info'_def by (rule add_entry_raw [OF u room uid(2) sz key, where rv = rv]) blast
  have g: "geometry info" and m: "m < bi_part_count info" using u room by (simp_all add: used_ok_def m_def)
  have absent: "ent_uid b k \<noteq> uid" if "k < m" for k
    using uid(3) that blk_find_None [OF u, of uid] by (simp add: blk_recs_def m_def)
  have olduid: "ent_uid b3 k = ent_uid b k" "ent_sz b3 k = ent_sz b k" if "k < m" for k
    using entD(1,4) [OF old [OF that]] by simp_all
  have ents: "MIN_UID \<le> ent_uid b3 k \<and> SIZE_TO_SUB_BLK_COUNT (ent_sz b3 k) \<le> bi_part_size info" if "k < m + 1" for k
    using that u new uid sz olduid unfolding used_ok_def m_def [symmetric] by (cases "k = m") auto
  have inj: "k = i" if "k < m + 1" "i < m + 1" "ent_uid b3 k = ent_uid b3 i" for k i
  proof (cases "k = m \<or> i = m")
    case True
    have a: "ent_uid b3 x \<noteq> ent_uid b3 m" if "x < m" for x
      using absent [OF that] olduid(1) [OF that] new(1) by simp
    show ?thesis
    proof (rule ccontr)
      assume "k \<noteq> i"
      then show False using True that a [of k] a [of i] by (cases "k = m") simp_all
    qed
  next
    case False
    then have lt: "k < m" "i < m" using that(1,2) by linarith+
    have "ent_uid b k = ent_uid b i" using that(3) olduid(1) [OF lt(1)] olduid(1) [OF lt(2)] by metis
    then show ?thesis by (rule used_uid_inj [OF u lt [unfolded m_def]])
  qed
  have ok: "used_ok info' b3"
    unfolding used_ok_def using l3 h g ents inj m unfolding info'_def m_def [symmetric] by (auto simp: geometry_def)
  have "blk_recs info' b3 v = ((blk_recs info b)(uid \<mapsto> (sz, enc))) v" for v
  proof (cases "v = uid")
    case True
    have "blk_find uid info' b3 = Some m" using blk_find_eq [OF ok] new by (simp add: info'_def m_def)
    then show ?thesis using recm True by (simp add: blk_recs_def)
  next
    case False
    have "blk_find v info' b3 = blk_find v info b"
    proof (cases "blk_find v info b")
      case None
      then have "\<forall>k<m. ent_uid b k \<noteq> v" using blk_find_None [OF u] by (simp add: m_def)
      then show ?thesis
        unfolding None blk_find_None [OF ok] using olduid new False by (auto simp: info'_def m_def [symmetric] less_Suc_eq)
    next
      case (Some k)
      then have k: "k < m" "ent_uid b k = v" using blk_find_eq [OF u] by (simp_all add: m_def)
      then have "blk_find v info' b3 = Some k"
        unfolding blk_find_eq [OF ok] using olduid(1) [OF k(1)] by (simp add: info'_def m_def)
      then show ?thesis using Some by (rule trans [OF _ sym])
    qed
    moreover have "k < m" if "blk_find v info b = Some k" for k using that blk_find_eq [OF u] by (simp add: m_def)
    ultimately show ?thesis using rec False by (cases "blk_find v info b") (simp_all add: blk_recs_def)
  qed
  then show ?thesis using that [OF r ok] by (auto simp: enc_def fun_eq_iff)
qed

end
