(* ===== verification/Legacy_Update.thy ===== *)
theory Legacy_Update
  imports Legacy_Blocks
begin

text \<open>
  The database of the original Signet as a map: \<open>l_view\<close> is what its blocks and tables stand for,
  \<open>l_db_ok\<close> the invariant under which they do. The functions of \<open>db.c\<close> that plan an update, block by
  block.
\<close>

section \<open>CBC\<close>

lemma l_xor_block: "l_xor_block = xor_block"
  by (simp add: fun_eq_iff l_xor_block_def xor_block_def)

lemma stm_aes_256_cbc:
  "stm_aes_256_encrypt_cbc N key n iv d = signet_aes_256_encrypt_cbc N key n iv d"
  "stm_aes_256_decrypt_cbc N key n iv d = signet_aes_256_decrypt_cbc N key n iv d"
  by (induction n arbitrary: iv d)
    (simp_all add: l_xor_block stm_aes_256_encrypt_def signet_aes_256_encrypt_def stm_aes_256_decrypt_def
      signet_aes_256_decrypt_def Let_def)

section \<open>The checksum\<close>

lemma part_after_header: "geometry info \<Longrightarrow> 8 \<le> l_get_part info j"
  by (auto simp: geometry_def l_get_part_def l_block_header_size_def SUB_BLK_COUNT_def)

lemma blk_set_crc_recs:
  assumes "used_ok info b"
  shows "used_ok info (blk_set_crc c b)" "blk_recs info (blk_set_crc c b) = blk_recs info b"
proof -
  have b: "length b = L_BLK_SIZE" "geometry info" using assms by (simp_all add: used_ok_def)
  have len: "length (le32 (unat c)) = 4" for c :: u32 by simp
  have e: "ent (blk_set_crc c b) j = ent b j" if "j < bi_part_occupancy info" for j
    using b ent_in_block [of j info] that by (intro ent_set(2)) (auto simp: geometry_def)
  have f: "ent_uid (blk_set_crc c b) j = ent_uid b j" "ent_sz (blk_set_crc c b) j = ent_sz b j"
    if "j < bi_part_occupancy info" for j
    using entD(1,4) [OF e [OF that]] by simp_all
  show ok: "used_ok info (blk_set_crc c b)"
    using assms b f unfolding used_ok_def by (simp add: block_simps)
  have find: "blk_find uid info (blk_set_crc c b) = blk_find uid info b" for uid
    unfolding blk_find_def by (rule find_cong) (use f in auto)
  have "blk_rec info (blk_set_crc c b) j = blk_rec info b j" if "j < bi_part_occupancy info" for j
  proof (rule blk_rec_cong)
    have "l_get_part info j + SIZE_TO_SUB_BLK_COUNT (ent_sz b j) * SUB_BLK_SIZE \<le> L_BLK_SIZE"
      using used_ent(4) [OF assms that] part_in_block(1) [OF b(2), of j] that b(2) by (simp add: geometry_def)
    then show "slice (blk_set_crc c b) (l_get_part info j) (SIZE_TO_SUB_BLK_COUNT (ent_sz b j) * SUB_BLK_SIZE)
      = slice b (l_get_part info j) (SIZE_TO_SUB_BLK_COUNT (ent_sz b j) * SUB_BLK_SIZE)"
      unfolding blk_set_crc_def using b part_after_header [OF b(2), of j] by (intro slice_splice_after) simp_all
  qed (use f that in simp)
  then show "blk_recs info (blk_set_crc c b) = blk_recs info b"
    using blk_find_eq [OF assms] by (auto simp: fun_eq_iff blk_recs_def find split: option.splits intro!: map_option_cong)
qed

section \<open>The records of the database\<close>

definition l_brecs :: "lfw \<Rightarrow> nat \<Rightarrow> nat \<Rightarrow> (nat \<times> bytes) option" where
  "l_brecs s i = (if in_use (l_block_info_tbl s i) then blk_recs (l_block_info_tbl s i) (l_block i s) else Map.empty)"

definition data_block :: "nat \<Rightarrow> bool" where
  "data_block i \<longleftrightarrow> MIN_DATA_BLOCK \<le> i \<and> i \<le> L_MAX_DATA_BLOCK"

definition uid_ok :: "nat \<Rightarrow> bool" where
  "uid_ok uid \<longleftrightarrow> MIN_UID \<le> uid \<and> uid \<le> MAX_UID"

text \<open>The blocks in use are well formed, and \<open>uid_map\<close> names the one block that has a record.\<close>

definition l_db_ok :: "lfw \<Rightarrow> bool" where
  "l_db_ok s \<longleftrightarrow>
     (\<forall>i. data_block i \<longrightarrow> in_use (l_block_info_tbl s i) \<longrightarrow> used_ok (l_block_info_tbl s i) (l_block i s))
   \<and> (\<forall>i. data_block i \<longrightarrow> length (l_block i s) = L_BLK_SIZE)
   \<and> (\<forall>uid. uid_ok uid \<longrightarrow> l_uid_map s uid \<le> L_MAX_DATA_BLOCK)
   \<and> (\<forall>i uid. data_block i \<longrightarrow> uid_ok uid \<longrightarrow> (l_brecs s i uid \<noteq> None \<longleftrightarrow> l_uid_map s uid = i))"

definition l_view :: "lfw \<Rightarrow> nat \<Rightarrow> (nat \<times> bytes) option" where
  "l_view s uid = (if uid_ok uid \<and> l_uid_map s uid \<noteq> INVALID_BLOCK then l_brecs s (l_uid_map s uid) uid else None)"

lemma l_db_okD:
  assumes "l_db_ok s"
  shows "data_block i \<Longrightarrow> in_use (l_block_info_tbl s i) \<Longrightarrow> used_ok (l_block_info_tbl s i) (l_block i s)"
    and "data_block i \<Longrightarrow> length (l_block i s) = L_BLK_SIZE"
    and "uid_ok uid \<Longrightarrow> l_uid_map s uid \<noteq> INVALID_BLOCK \<Longrightarrow> data_block (l_uid_map s uid)"
    and "data_block i \<Longrightarrow> uid_ok uid \<Longrightarrow> l_brecs s i uid \<noteq> None \<longleftrightarrow> l_uid_map s uid = i"
  using assms by (auto simp: l_db_ok_def data_block_def)

text \<open>A step that touches one record keeps the invariant and the other records.\<close>

lemma l_db_step:
  assumes ok: "l_db_ok s" and uid: "uid_ok uid"
    and used: "\<And>i. data_block i \<Longrightarrow> in_use (l_block_info_tbl s' i) \<Longrightarrow> used_ok (l_block_info_tbl s' i) (l_block i s')"
    and len: "\<And>i. data_block i \<Longrightarrow> length (l_block i s') = L_BLK_SIZE"
    and others: "\<And>i v. data_block i \<Longrightarrow> v \<noteq> uid \<Longrightarrow> l_brecs s' i v = l_brecs s i v"
    and map: "l_uid_map s' = (l_uid_map s)(uid := m)" and m: "m \<le> L_MAX_DATA_BLOCK"
    and own: "\<And>i. data_block i \<Longrightarrow> l_brecs s' i uid \<noteq> None \<longleftrightarrow> m = i"
  shows "l_db_ok s'" "l_view s' = (l_view s)(uid := if m = INVALID_BLOCK then None else l_brecs s' m uid)"
proof -
  show "l_db_ok s'"
    unfolding l_db_ok_def using used len m own l_db_okD(4) [OF ok] ok
    by (auto simp: map others l_db_ok_def)
  have "l_view s' v = l_view s v" if "v \<noteq> uid" for v
    using that others [OF l_db_okD(3) [OF ok] that] by (auto simp: l_view_def map)
  then show "l_view s' = (l_view s)(uid := if m = INVALID_BLOCK then None else l_brecs s' m uid)"
    using uid by (auto simp: fun_eq_iff l_view_def map)
qed

text \<open>What \<open>find_uid\<close> needs: the block that \<open>uid_map\<close> names is in use, well formed and has the record.\<close>

definition l_found :: "lfw \<Rightarrow> nat \<Rightarrow> nat \<Rightarrow> bool" where
  "l_found s uid i \<longleftrightarrow>
     l_uid_map s uid = i \<and> i \<noteq> INVALID_BLOCK \<and> used_ok (l_block_info_tbl s i) (l_block i s) \<and> l_brecs s i uid \<noteq> None"

lemma l_found: "l_db_ok s \<Longrightarrow> uid_ok uid \<Longrightarrow> l_uid_map s uid \<noteq> INVALID_BLOCK \<Longrightarrow> l_found s uid (l_uid_map s uid)"
  using l_db_okD(3) [of s uid] l_db_okD(4) [of s "l_uid_map s uid" uid] l_db_okD(1) [of s "l_uid_map s uid"]
  by (auto simp: l_found_def l_brecs_def split: if_splits)

lemma l_find_uid:
  assumes "l_found s uid i"
  obtains j where "l_find_uid uid s = Some (i, j)" "j < bi_part_occupancy (l_block_info_tbl s i)"
    "ent_uid (l_block i s) j = uid" "in_use (l_block_info_tbl s i)"
    "l_brecs s i uid = Some (blk_rec (l_block_info_tbl s i) (l_block i s) j)"
proof -
  let ?info = "l_block_info_tbl s i" and ?b = "l_block i s"
  have i: "l_uid_map s uid = i" "i \<noteq> INVALID_BLOCK" "used_ok ?info ?b" using assms by (simp_all add: l_found_def)
  have use: "in_use ?info" and r: "l_brecs s i uid = blk_recs ?info ?b uid" "blk_recs ?info ?b uid \<noteq> None"
    using assms by (auto simp: l_found_def l_brecs_def split: if_splits)
  then obtain j where j: "blk_find uid ?info ?b = Some j" by (auto simp: blk_recs_def)
  with blk_find_eq [OF i(3)] have "j < bi_part_occupancy ?info" "ent_uid ?b j = uid" by blast+
  moreover have "l_find_uid uid s = Some (i, j)" using i j by (simp add: l_find_uid_def blk_find_def Let_def)
  moreover have "l_brecs s i uid = Some (blk_rec ?info ?b j)" using r j by (simp add: blk_recs_def)
  ultimately show ?thesis using use that by blast
qed

section \<open>Choosing a block\<close>

lemma part_sizes_ok:
  assumes "p \<in> set part_sizes"
  shows "0 < p" "p \<le> 127" "0 < l_get_part_count p" "l_get_part_count p < 256"
proof -
  have "list_all (\<lambda>p. 0 < p \<and> p \<le> 127 \<and> 0 < l_get_part_count p) part_sizes" by code_simp
  with assms show "0 < p" "p \<le> 127" "0 < l_get_part_count p" by (auto simp: list_all_iff)
  show "l_get_part_count p < 256" using l_part_count_le [of p] by simp
qed

lemma target_part_size:
  assumes "target_part_size n \<noteq> 0"
  shows "target_part_size n \<in> set part_sizes" "SIZE_TO_SUB_BLK_COUNT n \<le> target_part_size n"
proof -
  obtain p where p: "find (\<lambda>p. p \<ge> SIZE_TO_SUB_BLK_COUNT n) part_sizes = Some p"
    using assms by (cases "find (\<lambda>p. p \<ge> SIZE_TO_SUB_BLK_COUNT n) part_sizes") (simp_all add: target_part_size_def)
  then have "p \<in> set part_sizes" "SIZE_TO_SUB_BLK_COUNT n \<le> p" by (auto simp: find_Some_iff)
  with p show "target_part_size n \<in> set part_sizes" "SIZE_TO_SUB_BLK_COUNT n \<le> target_part_size n"
    by (simp_all add: target_part_size_def)
qed

lemma new_block_ok:
  assumes "p \<in> set part_sizes"
  shows "used_ok (l_new_info p info) (l_initialize_block p)" "blk_recs (l_new_info p info) (l_initialize_block p) = Map.empty"
    "bi_part_occupancy (l_new_info p info) < bi_part_count (l_new_info p info)"
  using part_sizes_ok [OF assms]
  by (simp_all add: used_ok_def geometry_def l_new_info_def l_initialize_block_def block_simps fun_eq_iff blk_recs_def blk_find_def)

definition has_room :: "nat \<Rightarrow> block_info \<Rightarrow> bool" where
  "has_room p info \<longleftrightarrow> in_use info \<and> p \<le> bi_part_size info \<and> bi_part_occupancy info < bi_part_count info"

lemma find_data_block:
  "find P [MIN_DATA_BLOCK..<L_MAX_DATA_BLOCK + 1] = Some i \<Longrightarrow> data_block i \<and> P i"
  by (auto simp: find_Some_iff data_block_def simp del: upt_Suc upt_rec_numeral)

lemma l_alloc_exact: "l_alloc_exact p s = Some i \<Longrightarrow> data_block i \<and> has_room p (l_block_info_tbl s i)"
  unfolding l_alloc_exact_def by (drule find_data_block) (auto simp: Let_def has_room_def in_use_def)

lemma l_find_free_block:
  assumes "l_find_free_block s \<noteq> INVALID_BLOCK"
  shows "data_block (l_find_free_block s) \<and> \<not> in_use (l_block_info_tbl s (l_find_free_block s))"
proof (cases "find (\<lambda>i. bi_valid (l_block_info_tbl s i) \<and> \<not> bi_occupied (l_block_info_tbl s i)) [MIN_DATA_BLOCK..<L_MAX_DATA_BLOCK + 1]")
  case None
  then show ?thesis using assms unfolding l_find_free_block_def None option.case by simp
next
  case (Some i)
  then show ?thesis using find_data_block [OF Some] unfolding l_find_free_block_def Some option.case by (simp add: in_use_def)
qed

lemma l_alloc_larger_fold:
  assumes "\<forall>x\<in>set xs. data_block x" "fst acc \<noteq> INVALID_BLOCK \<Longrightarrow> data_block (fst acc) \<and> has_room p (l_block_info_tbl s (fst acc))"
    "fst (fold (l_alloc_larger_step p s) xs acc) \<noteq> INVALID_BLOCK"
  shows "data_block (fst (fold (l_alloc_larger_step p s) xs acc))
    \<and> has_room p (l_block_info_tbl s (fst (fold (l_alloc_larger_step p s) xs acc)))"
  using assms
proof (induction xs arbitrary: acc)
  case (Cons x xs)
  have "data_block (fst (l_alloc_larger_step p s x acc)) \<and> has_room p (l_block_info_tbl s (fst (l_alloc_larger_step p s x acc)))"
    if "fst (l_alloc_larger_step p s x acc) \<noteq> INVALID_BLOCK"
    using that Cons.prems(1,2) by (auto simp: l_alloc_larger_step_def Let_def has_room_def in_use_def split: prod.splits if_splits)
  then show ?case using Cons.IH [of "l_alloc_larger_step p s x acc"] Cons.prems(1,3) by simp
qed simp

lemma l_alloc_larger:
  assumes "l_alloc_larger p s \<noteq> INVALID_BLOCK"
  shows "data_block (l_alloc_larger p s) \<and> has_room p (l_block_info_tbl s (l_alloc_larger p s))"
  using assms unfolding l_alloc_larger_def
  by (intro l_alloc_larger_fold) (auto simp: data_block_def simp del: upt_rec_numeral)

lemma l_choose_block:
  assumes ok: "l_db_ok s" and p: "p \<in> set part_sizes"
    and c: "l_choose_block p bt it s = (i, b, info)" "i \<noteq> INVALID_BLOCK"
  shows "data_block i" "used_ok info b" "bi_part_occupancy info < bi_part_count info" "p \<le> bi_part_size info"
    "blk_recs info b = l_brecs s i"
proof -
  consider (old) "data_block i" "has_room p (l_block_info_tbl s i)" "b = l_block i s" "info = l_block_info_tbl s i"
    | (new) "data_block i" "\<not> in_use (l_block_info_tbl s i)" "b = l_initialize_block p" "info = l_new_info p it"
    using c l_alloc_exact [of p s] l_find_free_block [of s] l_alloc_larger [of p s]
    by (auto simp: l_choose_block_def Let_def split: option.splits if_splits)
  then have "data_block i \<and> used_ok info b \<and> bi_part_occupancy info < bi_part_count info \<and> p \<le> bi_part_size info
      \<and> blk_recs info b = l_brecs s i"
  proof cases
    case old
    then show ?thesis using l_db_okD(1) [OF ok] by (simp add: has_room_def l_brecs_def)
  next
    case new
    then show ?thesis using new_block_ok [OF p, of it] by (simp add: l_brecs_def) (simp add: l_new_info_def)
  qed
  then show "data_block i" "used_ok info b" "bi_part_occupancy info < bi_part_count info" "p \<le> bi_part_size info"
    "blk_recs info b = l_brecs s i"
    by blast+
qed

section \<open>Steps of a block\<close>

text \<open>A block and its info that stand for the records \<open>R\<close>.\<close>

definition stands_for :: "block_info \<Rightarrow> bytes \<Rightarrow> (nat \<Rightarrow> (nat \<times> bytes) option) \<Rightarrow> bool" where
  "stands_for info b R \<longleftrightarrow>
     length b = L_BLK_SIZE \<and> (if in_use info then used_ok info b \<and> blk_recs info b = R else R = Map.empty)"

lemma stands_for_crc: "stands_for info b R \<Longrightarrow> stands_for info (blk_set_crc c b) R"
  by (auto simp: stands_for_def blk_set_crc_recs)

lemma l_deallocate_uid:
  assumes f: "l_found s uid i" and bt: "length bt = L_BLK_SIZE"
  obtains b info where "l_deallocate_uid uid True bt it s = Some (i, b, info)" "stands_for info b ((l_brecs s i)(uid := None))"
proof -
  let ?i = "l_block_info_tbl s i" and ?b = "l_block i s"
  obtain j where j: "l_find_uid uid s = Some (i, j)" "j < bi_part_occupancy ?i" "ent_uid ?b j = uid" "in_use ?i"
    by (rule l_find_uid [OF f])
  have u: "used_ok ?i ?b" using f by (simp add: l_found_def)
  have brecs: "l_brecs s i = blk_recs ?i ?b" using j(4) by (simp add: l_brecs_def)
  show ?thesis
  proof (cases "bi_part_occupancy ?i = 1")
    case True
    have "blk_recs ?i ?b v = None" if "v \<noteq> uid" for v
      using that True j(2,3) by (simp add: blk_recs_def blk_find_def)
    then have "(l_brecs s i)(uid := None) = Map.empty" by (simp add: brecs fun_eq_iff)
    then show ?thesis using j(1) True bt
      by (intro that [of "blk_set_crc (-1) (blk_set_header INVALID_PART_SIZE 0 bt)" "?i\<lparr>bi_valid := True, bi_occupied := False\<rparr>"])
        (simp_all add: l_deallocate_uid_def Let_def stands_for_def in_use_def)
  next
    case False
    obtain b where "l_remove_entry j ?i ?b = Some (b, ?i\<lparr>bi_part_occupancy := bi_part_occupancy ?i - 1\<rparr>)"
      "used_ok (?i\<lparr>bi_part_occupancy := bi_part_occupancy ?i - 1\<rparr>) b"
      "blk_recs (?i\<lparr>bi_part_occupancy := bi_part_occupancy ?i - 1\<rparr>) b = (blk_recs ?i ?b)(ent_uid ?b j := None)"
      by (rule remove_entry [OF u j(2)])
    then show ?thesis using j False
      by (intro that [of b "?i\<lparr>bi_part_occupancy := bi_part_occupancy ?i - 1\<rparr>"])
        (simp_all add: l_deallocate_uid_def Let_def stands_for_def brecs used_ok_def in_use_def)
  qed
qed

text \<open>In place: the entry is taken out and added again at the end.\<close>

lemma l_replace_uid:
  assumes f: "l_found s uid i" and uid: "uid_ok uid" and sz: "sz < 65536" "SIZE_TO_SUB_BLK_COUNT sz \<le> bi_part_size (l_block_info_tbl s i)"
    and data: "length data = SIZE_TO_SUB_BLK_COUNT sz * SUB_BLK_SIZE"
    and key: "nettle_ok (le_nettle L)" "length (l_encrypt_key s) = 32" "length iv = 16"
  obtains b0 info0 b info where "l_deallocate_uid uid False bt it s = Some (i, b0, info0)"
    "l_allocate_uid_blk L uid data sz rv iv b0 info0 s = Some (b, info)" "in_use info"
    "stands_for info b ((l_brecs s i)(uid \<mapsto>
       (sz, stm_aes_256_encrypt_cbc (le_nettle L) (l_encrypt_key s) (SIZE_TO_SUB_BLK_COUNT sz) (Some iv) data)))"
proof -
  let ?i = "l_block_info_tbl s i" and ?b = "l_block i s"
  let ?enc = "stm_aes_256_encrypt_cbc (le_nettle L) (l_encrypt_key s) (SIZE_TO_SUB_BLK_COUNT sz) (Some iv) data"
  obtain j where j: "l_find_uid uid s = Some (i, j)" "j < bi_part_occupancy ?i" "ent_uid ?b j = uid" "in_use ?i"
    by (rule l_find_uid [OF f])
  have u: "used_ok ?i ?b" using f by (simp add: l_found_def)
  have brecs: "l_brecs s i = blk_recs ?i ?b" using j(4) by (simp add: l_brecs_def)
  define i0 where "i0 = ?i\<lparr>bi_part_occupancy := bi_part_occupancy ?i - 1\<rparr>"
  define i1 where "i1 = i0\<lparr>bi_part_occupancy := bi_part_occupancy i0 + 1, bi_occupied := True, bi_valid := True\<rparr>"
  obtain b0 where b0: "l_remove_entry j ?i ?b = Some (b0, i0)" "used_ok i0 b0" "blk_recs i0 b0 = (blk_recs ?i ?b)(ent_uid ?b j := None)"
    using remove_entry [OF u j(2)] unfolding i0_def by metis
  have room: "bi_part_occupancy i0 < bi_part_count i0" using u j(2) unfolding i0_def used_ok_def geometry_def by simp linarith
  have free: "blk_recs i0 b0 uid = None" using b0(3) j(3) by simp
  have fits: "SIZE_TO_SUB_BLK_COUNT sz \<le> bi_part_size i0" using sz(2) by (simp add: i0_def)
  obtain b where b: "l_allocate_uid_blk L uid data sz rv iv b0 i0 s = Some (b, i1)" "used_ok i1 b"
    "blk_recs i1 b = (blk_recs i0 b0)(uid \<mapsto> (sz, ?enc))"
    using add_entry [OF b0(2) room _ _ free sz(1) fits data key, of rv] uid unfolding i1_def uid_ok_def by metis
  have "l_deallocate_uid uid False bt it s = Some (i, b0, i0)" using j(1) b0(1) by (simp add: l_deallocate_uid_def Let_def)
  moreover have "in_use i1" by (simp add: i1_def in_use_def)
  moreover have "stands_for i1 b ((l_brecs s i)(uid \<mapsto> (sz, ?enc)))"
    using b(2,3) b0(3) j(3) \<open>in_use i1\<close> by (simp add: stands_for_def brecs used_ok_def)
  ultimately show ?thesis using that b(1) by blast
qed

text \<open>In a block with room for it.\<close>

lemma l_allocate_uid:
  assumes ok: "l_db_ok s" and uid: "uid_ok uid" and sz: "sz < 65536" "target_part_size sz \<noteq> 0"
    and data: "length data = SIZE_TO_SUB_BLK_COUNT sz * SUB_BLK_SIZE"
    and key: "nettle_ok (le_nettle L)" "length (l_encrypt_key s) = 32" "length iv = 16"
    and i: "fst (l_choose_block (target_part_size sz) bt it s) = i" "i \<noteq> INVALID_BLOCK" "l_uid_map s uid \<noteq> i"
  obtains b info where "l_allocate_uid L uid data sz rv iv bt it s = Some (i, b, info)" "data_block i" "in_use info"
    "stands_for info b ((l_brecs s i)(uid \<mapsto>
       (sz, stm_aes_256_encrypt_cbc (le_nettle L) (l_encrypt_key s) (SIZE_TO_SUB_BLK_COUNT sz) (Some iv) data)))"
proof -
  let ?enc = "stm_aes_256_encrypt_cbc (le_nettle L) (l_encrypt_key s) (SIZE_TO_SUB_BLK_COUNT sz) (Some iv) data"
  obtain b0 i0 where c: "l_choose_block (target_part_size sz) bt it s = (i, b0, i0)" using i(1) by (metis prod.collapse)
  note t = target_part_size [OF sz(2)]
  note b0 = l_choose_block [OF ok t(1) c i(2)]
  define i1 where "i1 = i0\<lparr>bi_part_occupancy := bi_part_occupancy i0 + 1, bi_occupied := True, bi_valid := True\<rparr>"
  have free: "blk_recs i0 b0 uid = None" using b0(5) l_db_okD(4) [OF ok b0(1) uid] i(3) by (metis (no_types))
  have fits: "SIZE_TO_SUB_BLK_COUNT sz \<le> bi_part_size i0" using t(2) b0(4) by simp
  obtain b where b: "l_allocate_uid_blk L uid data sz rv iv b0 i0 s = Some (b, i1)" "used_ok i1 b"
    "blk_recs i1 b = (blk_recs i0 b0)(uid \<mapsto> (sz, ?enc))"
    using add_entry [OF b0(2,3) _ _ free sz(1) fits data key, of rv] uid unfolding i1_def uid_ok_def by metis
  have "l_allocate_uid L uid data sz rv iv bt it s = Some (i, b, i1)"
    using c b(1) sz(2) i(2) by (simp add: l_allocate_uid_def Let_def)
  moreover have "in_use i1" by (simp add: i1_def in_use_def)
  moreover have "stands_for i1 b ((l_brecs s i)(uid \<mapsto> (sz, ?enc)))"
    using b(2,3) b0(5) \<open>in_use i1\<close> by (simp add: stands_for_def used_ok_def)
  ultimately show ?thesis using that b0(1) by blast
qed

end
