(* ===== verification/Legacy_Commands.thy ===== *)
theory Legacy_Commands
  imports Legacy_Db
begin

text \<open>
  The upper half of \<open>firmware/commands.c\<close> and \<open>firmware_update_state.c\<close>: what completes an
  active command (random words, flash writes, the button, typing), the handlers, the commands
  each state accepts, and the dispatcher; then the main loop of \<open>main_l443xc.c\<close>.
\<close>

section \<open>Random words\<close>

definition l_xor_rand :: "nat \<Rightarrow> bytes \<Rightarrow> lfw \<Rightarrow> (bytes \<times> lfw) option" where
  "l_xor_rand n b s =
     (let (ws, s) = l_rand_words n s
      in if 4 * n \<le> length b
         then Some (splice b 0 (map2 (XOR) (take (4 * n) b) (concat (map (\<lambda>w. le32 (unat w)) ws))), s) else None)"

definition l_root_signature :: bytes where
  "l_root_signature = map word_of_nat [2, 3, 4, 5, 6, 7, 8, 9, 10, 11, 12, 13, 14, 15, 0, 0]"

definition l_upd_init :: "(l_init_data \<Rightarrow> l_init_data) \<Rightarrow> lfw \<Rightarrow> lfw" where
  "l_upd_init f s = s\<lparr>l_init := f (l_init s)\<rparr>"

definition l_write_root_page :: "lfw \<Rightarrow> lfw" where
  "l_write_root_page s = l_flash_write_page (BLOCK_ADDR 0) (Some LB_root_page) (int L_ROOT_PAGE_SIZE) s"

definition l_finalize_root_page_check :: "lenv \<Rightarrow> laction" where
  "l_finalize_root_page_check L s =
     (if l_rand_avail s \<ge> int L_INIT_WORDS \<and> \<not> li_root_block_finalized (l_init s)
         \<and> li_blocks_written (l_init s) = L_NUM_DATA_BLOCKS
      then do {
        let s = l_rp_put 0 l_root_signature (l_upd_init (\<lambda>i. i\<lparr>li_root_block_finalized := True\<rparr>) s);
        (r, s) \<leftarrow> l_xor_rand L_INIT_WORDS (li_rand (l_init s)) s;
        let s = l_upd_init (\<lambda>i. i\<lparr>li_rand := r\<rparr>) s;
        let cbc = (\<lambda>d. stm_aes_256_encrypt_cbc (le_nettle L) (li_passwd (l_init s)) 2 None d);
        let s = l_rp_put LR_DB_VERSION [2] s;
        let s = l_rp_put LR_CBC_IV (slice r 0 16) s;
        let s = l_rp_put LR_AUTH_RAND (slice r 16 32) s;
        let s = l_rp_put LR_AUTH_RAND_CT (cbc (slice r 16 32)) s;
        let s = l_rp_put LR_ENCRYPT_KEY_CT (cbc (slice r 48 32)) s;
        let s = l_rp_put LR_SALT (li_salt (l_init s)) s;
        let s = l_rp_put LR_HASHFN (li_hashfn (l_init s)) s;
        Some (l_write_root_page s)
      } else Some s)"

definition l_get_rand_bits_cmd_check :: laction where
  "l_get_rand_bits_cmd_check s =
     (let d = l_rand_bits s in
      if l_rand_avail s \<ge> int (lg_sz d) then do {
        (b, s) \<leftarrow> l_xor_rand ((lg_sz d + 3) div 4) (lg_block d) s;
        l_finish_command OKAY (Some b) (lg_sz d) (s\<lparr>l_rand_bits := d\<lparr>lg_block := b\<rparr>\<rparr>)
      } else Some s)"

definition l_upd_login :: "(l_login_data \<Rightarrow> l_login_data) \<Rightarrow> lfw \<Rightarrow> lfw" where
  "l_upd_login f s = s\<lparr>l_login := f (l_login s)\<rparr>"

text \<open>As in \<open>firmware-hc\<close>, the payload of the response is the memory at the address \<open>gen_token\<close>.\<close>

definition l_login_cmd_iter :: "lenv \<Rightarrow> laction" where
  "l_login_cmd_iter L s =
     (if ll_authenticated (l_login s) \<and> l_rand_avail s \<ge> 8 then do {
        let (ws, s) = l_rand_words 8 s;
        let tok = concat (map (\<lambda>w. le32 (unat w)) ws);
        let cbc = (\<lambda>d. stm_aes_256_encrypt_cbc (le_nettle L) tok 2 None d);
        let s = l_upd_login (\<lambda>d. d\<lparr>ll_token := tok\<rparr>) s;
        let s = s\<lparr>l_token_auth_rand_ct := cbc (l_rp_get LR_AUTH_RAND 32 s), l_token_encrypt_key_ct := cbc (l_encrypt_key s)\<rparr>;
        let p = ll_gen_token (l_login s);
        s \<leftarrow> l_finish_command OKAY (if p = 0 then None else Some (drop p (le_low_mem L))) 32 s;
        l_enter_state DS_LOGGED_IN s
      } else Some s)"

definition l_cmd_rand_update :: "lenv \<Rightarrow> laction" where
  "l_cmd_rand_update L s = do {
     let avail = l_rand_avail s;
     s \<leftarrow> (if l_device_state s = DS_INITIALIZING then do {
             s \<leftarrow> (if avail \<le> int L_INIT_WORDS then
                    (let g = avail - li_rand_avail_init (l_init s);
                         s = l_upd_init (\<lambda>i. i\<lparr>li_random_data_gathered := g\<rparr>) s
                     in l_get_progress_check (s\<lparr>l_progress_level := (l_progress_level s)(1 := g)\<rparr>))
                  else Some s);
             l_finalize_root_page_check L s
           } else Some s);
     if l_active_cmd s = GET_RAND_BITS then l_get_rand_bits_cmd_check s
     else if l_active_cmd s = LOGIN then l_login_cmd_iter L s
     else Some s
   }"

section \<open>Startup\<close>

definition l_startup_resp :: "lfw \<Rightarrow> bytes" where
  "l_startup_resp s =
     [1, 3, 4, word_of_nat (ds_code (l_device_state s)), word_of_nat (l_header_version s), 0] @ replicate 48 0"

definition l_startup_cmd_iter :: "lenv \<Rightarrow> laction" where
  "l_startup_cmd_iter L s =
     (let resp = l_startup_resp s in
      if l_device_state s = DS_UNINITIALIZED then l_finish_command OKAY (Some resp) 54 s
      else if l_header_version s \<noteq> 2 then l_finish_command UNKNOWN_DB_FORMAT (Some resp) 54 s
      else do {
        let resp = splice resp 6 (l_rp_get LR_HASHFN HASH_FN_SZ s @ l_rp_get LR_SALT SALT_SZ_V2 s);
        let s = s\<lparr>l_db_version := unat (l_root_page s ! LR_DB_VERSION)\<rparr>;
        let resp = resp[5 := word_of_nat (l_db_version s)];
        if l_db_version s = 2 then do {
          (fin, s) \<leftarrow> db2_startup_scan L LB_startup_block s;
          if fin then l_finish_command OKAY (Some resp) 54 s else Some s
        } else l_finish_command UNKNOWN_DB_FORMAT (Some resp) 54 s
      })"

definition l_cmd_init :: "lfw \<Rightarrow> lfw" where
  "l_cmd_init s = s\<lparr>l_root_page := splice (l_root_page s) 0 (take L_ROOT_PAGE_SIZE (l_block 0 s))\<rparr>"

definition l_startup_cmd :: "lenv \<Rightarrow> laction" where
  "l_startup_cmd L s = do {
     let s = (if l_device_state s \<noteq> DS_DISCONNECTED
              then (l_end_long_button_press_wait (l_end_button_press_wait (l_stop_blinking s)))\<lparr>l_active_cmd := -1\<rparr>
              else s);
     let s = l_cmd_init s;
     s \<leftarrow> l_enter_state (if slice (l_root_page s) 1 15 \<noteq> slice l_root_signature 1 15
                          then DS_UNINITIALIZED else DS_LOGGED_OUT) s;
     l_startup_cmd_iter L (s\<lparr>l_header_version := l_signature0 s\<rparr>)
   }"

section \<open>Completion of flash writes\<close>

text \<open>The next block of an initialisation: a data block with its partition size, or an erased one.\<close>

definition l_write_init_block :: "lenv \<Rightarrow> lfw \<Rightarrow> lfw" where
  "l_write_init_block L s =
     (let i = li_blocks_written (l_init s) + MIN_DATA_BLOCK
      in case db2_initialize_block L i of
           Some b \<Rightarrow> l_flash_write_page (BLOCK_ADDR i) (Some LB_init_block) (int L_BLK_SIZE) (l_upd_init (\<lambda>d. d\<lparr>li_block := b\<rparr>) s)
         | None \<Rightarrow> l_flash_write_page (BLOCK_ADDR i) None 0 s)"

definition l_initializing_iter :: "lenv \<Rightarrow> laction" where
  "l_initializing_iter L s = do {
     let s = l_upd_init (\<lambda>i. i\<lparr>li_blocks_written := li_blocks_written i + 1\<rparr>) s;
     let n = int (li_blocks_written (l_init s));
     let lvl = (if n > l_progress_maximum s 0 then l_progress_maximum s 0 else n);
     s \<leftarrow> l_get_progress_check
            (s\<lparr>l_progress_level := (l_progress_level s)(0 := lvl, 1 := li_random_data_gathered (l_init s))\<rparr>);
     if li_blocks_written (l_init s) < L_NUM_DATA_BLOCKS then Some (l_write_init_block L s)
     else if li_blocks_written (l_init s) = L_NUM_DATA_BLOCKS then l_finalize_root_page_check L s
     else do {
       (fin, s) \<leftarrow> db2_startup_scan L LB_init_block (s\<lparr>l_header_version := 2, l_db_version := 2\<rparr>);
       l_enter_state (if fin then DS_LOGGED_OUT else DS_UNINITIALIZED) s
     }
   }"

definition l_wiping_iter :: laction where
  "l_wiping_iter s = do {
     let n = l_wipe_block s + 1;
     s \<leftarrow> l_get_progress_check (s\<lparr>l_wipe_block := n, l_progress_level := (l_progress_level s)(0 := int n)\<rparr>);
     if n = L_NUM_STORAGE_BLOCKS then l_enter_state DS_UNINITIALIZED s
     else Some (l_flash_write_page (BLOCK_ADDR n) None 0 s)
   }"

text \<open>The page numbers of the request are not used: page \<open>index\<close> is erased.\<close>

definition l_erase_page :: "nat \<Rightarrow> lfw \<Rightarrow> lfw" where
  "l_erase_page index s = l_flash_write_page (FLASH_MEM_BASE_ADDR + L_FLASH_PAGE_SIZE * index) None 0 s"

definition l_erasing_iter :: laction where
  "l_erasing_iter s = do {
     let n = (le_index (l_erase s) + 1) mod 65536;
     s \<leftarrow> l_get_progress_check
            (s\<lparr>l_erase := (l_erase s)\<lparr>le_index := n\<rparr>, l_progress_level := (l_progress_level s)(0 := int n)\<rparr>);
     if n = le_num_pages (l_erase s) then l_enter_state DS_FIRMWARE_UPDATE s else Some (l_erase_page n s)
   }"

definition l_flash_write_complete :: "lenv \<Rightarrow> laction" where
  "l_flash_write_complete L s = do {
     s \<leftarrow> (case l_device_state s of
             DS_INITIALIZING \<Rightarrow> l_initializing_iter L s
           | DS_WIPING \<Rightarrow> l_wiping_iter s
           | DS_ERASING_PAGES \<Rightarrow> l_erasing_iter s
           | _ \<Rightarrow> Some s);
     if l_active_cmd s \<in> {WRITE_CLEARTEXT_PASSWORD, CHANGE_MASTER_PASSWORD, WRITE_BLOCK, ERASE_BLOCK, WRITE_FLASH}
     then l_finish_command_resp OKAY s
     else if l_active_cmd s = UPDATE_UIDS \<or> l_active_cmd s = UPDATE_UID then l_update_uid_cmd_write_finished L s
     else if l_active_cmd s = STARTUP then l_startup_cmd_iter L s
     else Some s
   }"

definition l_flash_write_failed :: laction where
  "l_flash_write_failed s = (if l_active_cmd s \<noteq> -1 then l_finish_command_resp WRITE_FAILED s else Some s)"

definition l_cmd_packet_sent :: "lenv \<Rightarrow> laction" where
  "l_cmd_packet_sent L s = (if l_active_cmd s = READ_ALL_UIDS then l_read_all_uids_cmd_iter L s else Some s)"

section \<open>Cleartext passwords\<close>

definition l_usb_keyboard_typing_done :: laction where
  "l_usb_keyboard_typing_done s = do {
     s \<leftarrow> (if l_active_cmd s = TYPE_CMD then l_finish_command_resp OKAY s else Some s);
     Some (if l_device_state s = DS_DISCONNECTED then s\<lparr>l_cleartext_pass_typing := False\<rparr> else s)
   }"

definition l_type_cleartext :: "nat \<Rightarrow> laction" where
  "l_type_cleartext n s =
     l_usb_keyboard_type l_usb_keyboard_typing_done LK_cleartext n (s\<lparr>l_cleartext_pass_typing := True\<rparr>)"

definition l_generate_backspaces :: "nat \<Rightarrow> bytes \<Rightarrow> bytes option" where
  "l_generate_backspaces n b = memcpy_to b 0 (concat (replicate n [0, 42, 0, 0]))"

definition l_timer_timeout :: laction where
  "l_timer_timeout s =
     (let index = l_cleartext_pass_index s; s = s\<lparr>l_cleartext_pass_index := -1\<rparr>
      in if index \<ge> 0 then do {
           b \<leftarrow> l_generate_backspaces (nat index + 1) (l_cleartext_type_buf s);
           l_type_cleartext ((nat index + 1) * 2) (s\<lparr>l_cleartext_type_buf := b\<rparr>)
         } else Some s)"

definition l_button_release_disconnected :: laction where
  "l_button_release_disconnected s =
     (if l_cleartext_pass_typing s then Some s
      else let s = s\<lparr>l_cleartext_pass_index := l_cleartext_pass_index s + 1\<rparr> in
        if l_cleartext_pass_index s = int NUM_CLEARTEXT_PASS then map_option l_timer_stop (l_timer_timeout s)
        else do {
          s \<leftarrow> l_type_cleartext 2
                 (s\<lparr>l_cleartext_type_buf := (l_cleartext_type_buf s)[0 := 0, 1 := word_of_int (30 + l_cleartext_pass_index s)]\<rparr>);
          Some (l_timer_start 2000 s)
        })"

text \<open>
  Before the first short press the index is -1, and the entry it selects lies in front of the root
  page: not defined.
\<close>

definition l_long_button_press_disconnected :: laction where
  "l_long_button_press_disconnected s =
     (if l_signature0 s \<noteq> 2 then Some s
      else if l_cleartext_pass_index s < 0 then None
      else do {
        let index = nat (l_cleartext_pass_index s);
        p \<leftarrow> read_from (l_root_page s) (LR_CLEARTEXT + CLEARTEXT_PASS_SIZE * index) CLEARTEXT_PASS_SIZE;
        let format = unat (p ! 0);
        let n = unat (p ! 1);
        if format \<noteq> 0xff \<and> format \<noteq> 0 \<and> n * 2 \<le> 126 then do {
          b \<leftarrow> l_generate_backspaces (index + 1) (l_cleartext_type_buf s);
          b \<leftarrow> memcpy_to b ((index + 1) * 4) (slice p 130 (n * 2));
          l_type_cleartext (n + (index + 1) * 2) (s\<lparr>l_cleartext_pass_index := -1, l_cleartext_type_buf := b\<rparr>)
        } else map_option l_timer_stop (l_timer_timeout s)
      })"

definition l_cleartext_at :: "nat \<Rightarrow> lfw \<Rightarrow> bytes option" where
  "l_cleartext_at idx s = read_from (take L_ROOT_PAGE_SIZE (l_root_page s)) (LR_CLEARTEXT + CLEARTEXT_PASS_SIZE * idx) CLEARTEXT_PASS_SIZE"

text \<open>Both accept the index 4, one too many.\<close>

definition l_write_cleartext_password :: "bytes \<Rightarrow> int \<Rightarrow> laction" where
  "l_write_cleartext_password data data_len s =
     (if data_len \<noteq> int (CLEARTEXT_PASS_SIZE + 1) then l_finish_command_resp INVALID_INPUT s
      else if unat (data ! 0) > NUM_CLEARTEXT_PASS then l_finish_command_resp INVALID_INPUT s
      else do {
        d \<leftarrow> read_from data 1 CLEARTEXT_PASS_SIZE;
        Some (l_begin_button_press_wait (s\<lparr>l_write_cleartext_idx := unat (data ! 0), l_write_cleartext_data := d\<rparr>))
      })"

definition l_read_cleartext_password :: "bytes \<Rightarrow> int \<Rightarrow> laction" where
  "l_read_cleartext_password data data_len s =
     (if data_len \<noteq> 1 then l_finish_command_resp INVALID_INPUT s
      else if unat (data ! 0) > NUM_CLEARTEXT_PASS then l_finish_command_resp INVALID_INPUT s
      else Some (l_begin_button_press_wait (s\<lparr>l_read_cleartext_idx := unat (data ! 0)\<rparr>)))"

text \<open>
  The block of this command is declared with 256 bytes and filled with 260: the last four land in
  the rest of the union, so the field has room for them.
\<close>

definition l_read_cleartext_password_names :: laction where
  "l_read_cleartext_password_names s = do {
     let names = concat (map (\<lambda>i.
           let p = slice (l_root_page s) (LR_CLEARTEXT + CLEARTEXT_PASS_SIZE * i) CLEARTEXT_PASS_SIZE
           in p ! 0 # (if p ! 0 = 0 \<or> p ! 0 = 0xff then replicate CLEARTEXT_PASS_NAME_SIZE 0
                       else slice p 2 CLEARTEXT_PASS_NAME_SIZE)) [0..<NUM_CLEARTEXT_PASS]);
     b \<leftarrow> memcpy_to (l_names_block s) 0 names;
     l_finish_command OKAY (Some b) (NUM_CLEARTEXT_PASS * (CLEARTEXT_PASS_NAME_SIZE + 1)) (s\<lparr>l_names_block := b\<rparr>)
   }"

section \<open>The button\<close>

definition l_attempt_login_256 :: "lenv \<Rightarrow> bytes \<Rightarrow> bytes \<Rightarrow> bytes \<Rightarrow> bytes \<Rightarrow> bytes option" where
  "l_attempt_login_256 L auth_key auth_rand auth_rand_ct encrypt_key_ct =
     (if stm_aes_256_encrypt_cbc (le_nettle L) auth_key 2 None auth_rand \<noteq> take 32 auth_rand_ct then None
      else Some (stm_aes_256_decrypt_cbc (le_nettle L) auth_key 2 None encrypt_key_ct))"

definition l_button_press_login :: "lenv \<Rightarrow> laction" where
  "l_button_press_login L s =
     (if l_signature0 s = 2 then
        (case l_attempt_login_256 L (ll_password (l_login s)) (l_rp_get LR_AUTH_RAND 32 s) (l_rp_get LR_AUTH_RAND_CT 32 s)
                (l_rp_get LR_ENCRYPT_KEY_CT 32 s) of
           None \<Rightarrow> l_finish_command_resp BAD_PASSWORD s
         | Some k \<Rightarrow>
             (let s = s\<lparr>l_encrypt_key := k\<rparr> in
              if ll_gen_token (l_login s) \<noteq> 0 then l_login_cmd_iter L (l_upd_login (\<lambda>d. d\<lparr>ll_authenticated := True\<rparr>) s)
              else do { s \<leftarrow> l_finish_command_resp OKAY s; l_enter_state DS_LOGGED_IN s }))
      else l_finish_command_resp UNKNOWN_DB_FORMAT s)"

definition l_button_press_login_token :: "lenv \<Rightarrow> laction" where
  "l_button_press_login_token L s =
     (if l_signature0 s = 2 then
        (case l_attempt_login_256 L (l_login_token s) (l_rp_get LR_AUTH_RAND 32 s) (l_token_auth_rand_ct s)
                (l_token_encrypt_key_ct s) of
           None \<Rightarrow> l_finish_command_resp BAD_PASSWORD s
         | Some k \<Rightarrow> do { s \<leftarrow> l_finish_command_resp OKAY (s\<lparr>l_encrypt_key := k\<rparr>); l_enter_state DS_LOGGED_IN s })
      else Some s)"

definition l_button_press :: "lenv \<Rightarrow> laction" where
  "l_button_press L s =
     (if l_waiting_for_button_press s then
        (let s = l_end_button_press_wait s; cmd = l_active_cmd s in
         if cmd = READ_CLEARTEXT_PASSWORD then do {
           p \<leftarrow> l_cleartext_at (l_read_cleartext_idx s) s;
           l_finish_command OKAY (Some p) CLEARTEXT_PASS_SIZE s
         } else if cmd = WRITE_CLEARTEXT_PASSWORD then do {
           p \<leftarrow> l_cleartext_at (l_write_cleartext_idx s) s;
           Some (l_write_root_page
             (l_rp_put (LR_CLEARTEXT + CLEARTEXT_PASS_SIZE * l_write_cleartext_idx s) (l_write_cleartext_data s) s))
         } else if cmd = LOGIN then l_button_press_login L s
         else if cmd = LOGIN_TOKEN then l_button_press_login_token L s
         else if cmd = UPDATE_UID then Some (l_update_uid_cmd_complete L s)
         else if cmd = READ_UID then l_read_uid_cmd_complete L s
         else if cmd = BUTTON_WAIT then l_finish_command_resp OKAY s
         else Some s)
      else if \<not> l_waiting_for_long_button_press s then
        (if l_device_state s = DS_DISCONNECTED then Some (l_timer_stop s) else l_cmd_event_send 1 LE_null 0 s)
      else Some (l_pause_blinking s))"

definition l_change_master_password_complete :: "lenv \<Rightarrow> laction" where
  "l_change_master_password_complete L s =
     (if l_signature0 s = 2 then
        (let c = l_change s; cbc = stm_aes_256_encrypt_cbc (le_nettle L) (lc_new_key c) 2 None;
             s = l_rp_put LR_HASHFN (lc_hashfn c) s;
             s = l_rp_put LR_ENCRYPT_KEY_CT (cbc (l_encrypt_key s)) s;
             s = l_rp_put LR_AUTH_RAND_CT (cbc (l_rp_get LR_AUTH_RAND 32 s)) s;
             s = l_rp_put LR_SALT (lc_salt c) s
         in Some (l_write_root_page s))
      else l_finish_command_resp UNKNOWN_DB_FORMAT s)"

definition l_initialize_cmd_complete :: "lenv \<Rightarrow> laction" where
  "l_initialize_cmd_complete L s = do {
     let s = l_upd_init (\<lambda>i. i\<lparr>li_started := True, li_blocks_written := 0, li_random_data_gathered := 0,
               li_root_block_finalized := False\<rparr>) s;
     s \<leftarrow> l_finish_command_resp OKAY (l_write_init_block L s);
     let s = l_upd_init (\<lambda>i. i\<lparr>li_rand_avail_init := l_rand_avail s\<rparr>) s;
     let p = int L_INIT_WORDS - li_rand_avail_init (l_init s);
     l_enter_progressing_state DS_INITIALIZING [int L_NUM_DATA_BLOCKS, (if p < 0 then 0 else p), 1] s
   }"

definition l_long_button_press :: "lenv \<Rightarrow> laction" where
  "l_long_button_press L s =
     (if l_waiting_for_long_button_press s then
        (let s = l_end_long_button_press_wait s; cmd = l_active_cmd s in
         if cmd = READ_ALL_UIDS then l_read_all_uids_cmd_iter L s
         else if cmd = UPDATE_UIDS then Some (l_update_uid_cmd_complete L s)
         else if cmd = UPDATE_FIRMWARE then do { s \<leftarrow> l_finish_command_resp OKAY s; l_enter_state DS_FIRMWARE_UPDATE s }
         else if cmd = WIPE then do {
           s \<leftarrow> l_finish_command_resp OKAY s;
           l_enter_progressing_state DS_WIPING [int L_NUM_STORAGE_BLOCKS]
             (l_flash_write_page (BLOCK_ADDR 0) None 0 (s\<lparr>l_wipe_block := 0\<rparr>))
         } else if cmd = BACKUP_DEVICE then do {
           s \<leftarrow> l_finish_command_resp OKAY s;
           l_enter_state DS_BACKING_UP_DEVICE (s\<lparr>l_backup_prev_state := l_device_state s\<rparr>)
         } else if cmd = RESTORE_DEVICE then do { s \<leftarrow> l_finish_command_resp OKAY s; l_enter_state DS_RESTORING_DEVICE s }
         else if cmd = INITIALIZE then l_initialize_cmd_complete L s
         else if cmd = CHANGE_MASTER_PASSWORD then l_change_master_password_complete L s
         else Some s)
      else if l_device_state s = DS_DISCONNECTED then l_long_button_press_disconnected s
      else Some s)"

definition l_button_release :: laction where
  "l_button_release s =
     (if l_waiting_for_long_button_press s then l_resume_blinking l_blink_timeout s
      else if l_device_state s = DS_DISCONNECTED then l_button_release_disconnected s
      else Some s)"

end
