(* ===== verification/Legacy_Dispatch.thy ===== *)
theory Legacy_Dispatch
  imports Legacy_Commands
begin

text \<open>
  The commands of the original Signet: the handlers of \<open>commands.c\<close> and \<open>firmware_update_state.c\<close>
  that start one, the commands each state accepts, \<open>cmd_packet_recv\<close>, and the main loop and
  interrupts as steps.
\<close>

section \<open>Handlers\<close>

text \<open>The return values of the C functions: 0, and -1 for a command that the state does not know.\<close>

definition l_handled :: "lfw option \<Rightarrow> (bool \<times> lfw) option" where
  "l_handled r = map_option (Pair True) r"

definition l_initialize_cmd :: "bytes \<Rightarrow> int \<Rightarrow> laction" where
  "l_initialize_cmd data data_len s =
     (if data_len < int INITIALIZE_CMD_SIZE then l_finish_command_resp INVALID_INPUT s
      else Some (l_begin_long_button_press_wait
             (l_upd_init (\<lambda>i. i\<lparr>li_passwd := slice data 0 32, li_hashfn := slice data 32 16, li_salt := slice data 48 32,
                li_rand := slice data 80 80, li_started := False\<rparr>) s)))"

definition l_get_progress_cmd :: "bytes \<Rightarrow> laction" where
  "l_get_progress_cmd data s =
     (let s = s\<lparr>l_progress_check := int (rd16 data 0), l_progress_target_state := int (rd16 data 2)\<rparr>
      in if l_progress_target_state s \<noteq> int (ds_code (l_device_state s)) then l_finish_command_resp INVALID_STATE s
         else l_get_progress_check s)"

definition l_read_block_cmd :: "bytes \<Rightarrow> int \<Rightarrow> laction" where
  "l_read_block_cmd data data_len s =
     (if data_len \<noteq> 1 then l_finish_command_resp INVALID_INPUT s
      else let idx = unat (data ! 0) in
        if idx \<ge> L_NUM_STORAGE_BLOCKS then l_finish_command_resp INVALID_INPUT s
        else l_finish_command OKAY (Some (l_block idx s)) L_BLK_SIZE s)"

definition l_write_block_cmd :: "bytes \<Rightarrow> int \<Rightarrow> laction" where
  "l_write_block_cmd data data_len s =
     (if data_len \<noteq> 1 + int L_BLK_SIZE then l_finish_command_resp INVALID_INPUT s
      else let idx = unat (data ! 0) in
        if idx \<ge> L_NUM_STORAGE_BLOCKS then l_finish_command_resp INVALID_INPUT s
        else Some (l_flash_write_page (BLOCK_ADDR idx) (Some (LB_packet (CMD_PACKET_HEADER_SIZE + 1))) (int L_BLK_SIZE) s))"

definition l_erase_block_cmd :: "bytes \<Rightarrow> int \<Rightarrow> laction" where
  "l_erase_block_cmd data data_len s =
     (if data_len \<noteq> 1 then l_finish_command_resp INVALID_INPUT s
      else let idx = unat (data ! 0) in
        if idx \<ge> L_NUM_STORAGE_BLOCKS then l_finish_command_resp INVALID_INPUT s
        else Some (l_flash_write_page (BLOCK_ADDR idx) None 0 s))"

definition l_get_device_capacity_cmd :: laction where
  "l_get_device_capacity_cmd = l_finish_command OKAY (Some (replicate 6 0)) 6"

definition l_change_master_password_cmd :: "lenv \<Rightarrow> bytes \<Rightarrow> int \<Rightarrow> laction" where
  "l_change_master_password_cmd L data data_len s =
     (if data_len \<noteq> 112 then l_finish_command_resp INVALID_INPUT s
      else let s = s\<lparr>l_change := (l_change s)\<lparr>lc_hashfn := slice data 64 16, lc_salt := slice data 80 32\<rparr>\<rparr> in
        if l_signature0 s \<noteq> 2 then l_finish_command_resp UNKNOWN_DB_FORMAT s
        else let ct = stm_aes_256_encrypt_cbc (le_nettle L) (slice data 0 32) 2 None (l_rp_get LR_AUTH_RAND 32 s);
                 s = s\<lparr>l_change := (l_change s)\<lparr>lc_cyphertext := ct\<rparr>\<rparr> in
          if ct \<noteq> l_rp_get LR_AUTH_RAND_CT 32 s then l_finish_command_resp BAD_PASSWORD s
          else Some (l_begin_long_button_press_wait
                 (s\<lparr>l_encrypt_key := stm_aes_256_decrypt_cbc (le_nettle L) (slice data 0 32) 2 None (l_rp_get LR_ENCRYPT_KEY_CT 32 s),
                    l_change := (l_change s)\<lparr>lc_new_key := slice data 32 32\<rparr>\<rparr>)))"

definition l_cmd_disconnect :: laction where
  "l_cmd_disconnect s =
     l_enter_state DS_DISCONNECTED ((l_end_long_button_press_wait (l_end_button_press_wait s))\<lparr>l_active_cmd := -1\<rparr>)"

definition l_get_rand_bits_cmd :: "bytes \<Rightarrow> int \<Rightarrow> laction" where
  "l_get_rand_bits_cmd data data_len s =
     (if data_len < 2 then l_finish_command_resp INVALID_INPUT s
      else let sz = rd16 data 0; s = s\<lparr>l_rand_bits := (l_rand_bits s)\<lparr>lg_sz := sz\<rparr>\<rparr> in
        if sz \<ge> L_BLK_SIZE then l_finish_command_resp INVALID_INPUT s
        else do {
          b \<leftarrow> memcpy_to (lg_block (l_rand_bits s)) 0 (replicate ((sz + 3) div 4) 0);
          l_get_rand_bits_cmd_check (s\<lparr>l_rand_bits := (l_rand_bits s)\<lparr>lg_block := b\<rparr>\<rparr>)
        })"

definition l_login_cmd :: "bytes \<Rightarrow> int \<Rightarrow> laction" where
  "l_login_cmd data data_len s =
     (let s = l_upd_login (\<lambda>d. d\<lparr>ll_gen_token := 0, ll_authenticated := False\<rparr>) s in
      if data_len < 32 then l_finish_command_resp INVALID_INPUT s
      else Some (l_begin_button_press_wait
             (l_upd_login (\<lambda>d. d\<lparr>ll_password := slice data 0 32,
                ll_gen_token := (if data_len > 32 then unat (data ! 32) else ll_gen_token d)\<rparr>) s)))"

definition l_login_token_cmd :: "bytes \<Rightarrow> int \<Rightarrow> laction" where
  "l_login_token_cmd data data_len s =
     (if data_len \<noteq> 32 then l_finish_command_resp INVALID_INPUT s
      else Some (l_begin_button_press_wait (s\<lparr>l_login_token := slice data 0 32\<rparr>)))"

definition l_type_cmd :: "bytes \<Rightarrow> int \<Rightarrow> laction" where
  "l_type_cmd data data_len s =
     (if data_len < 0 then None
      else let n = nat data_len div 2 in do {
        d \<leftarrow> read_from data 0 (n * 2);
        c \<leftarrow> memcpy_to (l_chars s) 0 d;
        l_usb_keyboard_type l_usb_keyboard_typing_done LK_chars n (s\<lparr>l_chars := c\<rparr>)
      })"

definition l_enter_mobile_mode_cmd :: laction where
  "l_enter_mobile_mode_cmd s = map_option (\<lambda>s. put_lout LOut_usb_reconnect (put_lout LOut_usb_mobile s)) (l_cmd_disconnect s)"

definition l_is_device_wiped :: "lfw \<Rightarrow> bool" where
  "l_is_device_wiped s \<longleftrightarrow> (\<forall>i\<in>set [0..<L_NUM_STORAGE_BLOCKS]. \<forall>x\<in>set (l_block i s). x = 0xff)"

section \<open>Firmware update\<close>

definition in_flash_range :: "nat \<Rightarrow> bool" where
  "in_flash_range addr \<longleftrightarrow> addr \<ge> FLASH_MEM_BASE_ADDR \<and> addr \<le> FLASH_MEM_END_ADDR"

definition l_erase_flash_pages_cmd :: "bytes \<Rightarrow> int \<Rightarrow> laction" where
  "l_erase_flash_pages_cmd data data_len s =
     (if data_len < 0 then None
      else let pages = take (nat data_len) data in
        if \<exists>p\<in>set pages. unat p \<ge> L_FLASH_PAGES then l_finish_command_resp OKAY s
        else do {
          p \<leftarrow> memcpy_to (le_pages (l_erase s)) 0 pages;
          let s = s\<lparr>l_erase := \<lparr>le_index = 0, le_num_pages = nat data_len, le_pages = p\<rparr>\<rparr>;
          s \<leftarrow> l_enter_progressing_state DS_ERASING_PAGES [data_len] (l_erase_page 0 s);
          l_finish_command_resp OKAY s
        })"

definition l_write_flash_cmd :: "bytes \<Rightarrow> int \<Rightarrow> laction" where
  "l_write_flash_cmd data data_len s =
     (let dest = rd32 data 0; n = data_len - 4 in
      if \<not> in_flash_range dest \<or> \<not> in_flash_range (nat ((int dest + n) mod 2 ^ 32))
      then l_finish_command_resp INVALID_INPUT s
      else Some (l_flash_write dest (LB_packet (CMD_PACKET_HEADER_SIZE + 4)) n s))"

definition l_reset_device_cmd :: laction where
  "l_reset_device_cmd s = Some (put_lout LOut_reset s)"

definition l_firmware_update_state :: "int \<Rightarrow> bytes \<Rightarrow> int \<Rightarrow> lfw \<Rightarrow> (bool \<times> lfw) option" where
  "l_firmware_update_state cmd data data_len s =
     (if cmd = ERASE_FLASH_PAGES then l_handled (l_erase_flash_pages_cmd data data_len s)
      else if cmd = WRITE_FLASH then l_handled (l_write_flash_cmd data data_len s)
      else if cmd = RESET_DEVICE then l_handled (l_reset_device_cmd s)
      else Some (False, s))"

section \<open>The commands of each device state\<close>

text \<open>\<open>initializing_state\<close>, \<open>wiping_state\<close> and \<open>erasing_pages_state\<close> are the same.\<close>

definition l_progress_state :: "int \<Rightarrow> bytes \<Rightarrow> lfw \<Rightarrow> (bool \<times> lfw) option" where
  "l_progress_state cmd data s =
     (if cmd = GET_PROGRESS then l_handled (l_get_progress_cmd data s) else Some (False, s))"

definition l_uninitialized_state :: "int \<Rightarrow> bytes \<Rightarrow> int \<Rightarrow> lfw \<Rightarrow> (bool \<times> lfw) option" where
  "l_uninitialized_state cmd data data_len s =
     (if cmd = GET_PROGRESS then l_handled (l_get_progress_cmd data s)
      else if cmd = RESTORE_DEVICE then l_handled (Some (l_begin_long_button_press_wait s))
      else if cmd = INITIALIZE then l_handled (l_initialize_cmd data data_len s)
      else if cmd = GET_DEVICE_CAPACITY then l_handled (l_get_device_capacity_cmd s)
      else if cmd = ENTER_MOBILE_MODE then l_handled (l_enter_mobile_mode_cmd s)
      else if cmd = UPDATE_FIRMWARE then
        l_handled (if l_is_device_wiped s then Some (l_begin_long_button_press_wait s)
                   else l_finish_command_resp DEVICE_NOT_WIPED s)
      else Some (False, s))"

definition l_logged_out_state :: "lenv \<Rightarrow> int \<Rightarrow> bytes \<Rightarrow> int \<Rightarrow> lfw \<Rightarrow> (bool \<times> lfw) option" where
  "l_logged_out_state L cmd data data_len s =
     (if cmd = GET_PROGRESS then l_handled (l_get_progress_cmd data s)
      else if cmd = CHANGE_MASTER_PASSWORD then l_handled (l_change_master_password_cmd L data data_len s)
      else if cmd = INITIALIZE then l_handled (l_initialize_cmd data data_len s)
      else if cmd = WIPE \<or> cmd = BACKUP_DEVICE \<or> cmd = RESTORE_DEVICE
      then l_handled (Some (l_begin_long_button_press_wait s))
      else if cmd = LOGIN then l_handled (l_login_cmd data data_len s)
      else if cmd = LOGIN_TOKEN then l_handled (l_login_token_cmd data data_len s)
      else if cmd = GET_DEVICE_CAPACITY then l_handled (l_get_device_capacity_cmd s)
      else if cmd = ENTER_MOBILE_MODE then l_handled (l_enter_mobile_mode_cmd s)
      else Some (False, s))"

definition l_read_uid_request :: "lenv \<Rightarrow> bytes \<Rightarrow> int \<Rightarrow> laction" where
  "l_read_uid_request L data data_len s =
     (if data_len < 3 then l_finish_command_resp INVALID_INPUT s
      else let uid = rd16 data 0 in
        if uid < MIN_UID \<or> uid > MAX_UID then l_finish_command_resp INVALID_INPUT s
        else l_read_uid_cmd L uid (unat (data ! 2)) s)"

definition l_update_uid_request :: "lenv \<Rightarrow> bytes \<Rightarrow> int \<Rightarrow> laction" where
  "l_update_uid_request L data data_len s =
     (if data_len < 4 then l_finish_command_resp INVALID_INPUT s
      else let uid = rd16 data 0; sz = rd16 data 2; blk_count = SIZE_TO_SUB_BLK_COUNT sz in
        if uid < MIN_UID \<or> uid > MAX_UID \<or> data_len - 4 \<noteq> int (blk_count * SUB_BLK_SIZE)
        then l_finish_command_resp INVALID_INPUT s
        else let press = (if l_active_cmd s = UPDATE_UID then 1 else if l_cmd_iter_count s = 0 then 2 else 0)
             in l_update_uid_cmd L uid (drop 4 data) sz press s)"

definition l_logged_in_state :: "lenv \<Rightarrow> bytes \<Rightarrow> int \<Rightarrow> lfw \<Rightarrow> (bool \<times> lfw) option" where
  "l_logged_in_state L data data_len s =
     (let cmd = l_active_cmd s in
      if cmd = GET_PROGRESS then l_handled (l_get_progress_cmd data s)
      else if cmd = CHANGE_MASTER_PASSWORD then l_handled (l_change_master_password_cmd L data data_len s)
      else if cmd = BACKUP_DEVICE then l_handled (Some (l_begin_long_button_press_wait s))
      else if cmd = GET_RAND_BITS then l_handled (l_get_rand_bits_cmd data data_len s)
      else if cmd = READ_UID then l_handled (l_read_uid_request L data data_len s)
      else if cmd = UPDATE_UIDS \<or> cmd = UPDATE_UID then l_handled (l_update_uid_request L data data_len s)
      else if cmd = READ_ALL_UIDS then
        l_handled (if data_len < 1 then l_finish_command_resp INVALID_INPUT s
                   else l_read_all_uids_cmd L (unat (data ! 0)) s)
      else if cmd = TYPE_CMD then l_handled (l_type_cmd data data_len s)
      else if cmd = BUTTON_WAIT then l_handled (Some (l_begin_button_press_wait s))
      else if cmd = LOGOUT then
        l_handled (do { s \<leftarrow> l_enter_state DS_LOGGED_OUT s; l_finish_command_resp OKAY s })
      else if cmd = UPDATE_FIRMWARE then l_handled (Some (l_begin_long_button_press_wait s))
      else if cmd = READ_CLEARTEXT_PASSWORD_NAMES then l_handled (l_read_cleartext_password_names s)
      else if cmd = READ_CLEARTEXT_PASSWORD then l_handled (l_read_cleartext_password data data_len s)
      else if cmd = WRITE_CLEARTEXT_PASSWORD then l_handled (l_write_cleartext_password data data_len s)
      else Some (False, s))"

definition l_backing_up_device_state :: "int \<Rightarrow> bytes \<Rightarrow> int \<Rightarrow> lfw \<Rightarrow> (bool \<times> lfw) option" where
  "l_backing_up_device_state cmd data data_len s =
     (if cmd = READ_BLOCK then l_handled (l_read_block_cmd data data_len s)
      else if cmd = BACKUP_DEVICE_DONE then
        l_handled (do { s \<leftarrow> l_enter_state (l_backup_prev_state s) s; l_finish_command_resp OKAY s })
      else Some (False, s))"

definition l_restoring_device_state :: "int \<Rightarrow> bytes \<Rightarrow> int \<Rightarrow> lfw \<Rightarrow> (bool \<times> lfw) option" where
  "l_restoring_device_state cmd data data_len s =
     (if cmd = WRITE_BLOCK then l_handled (l_write_block_cmd data data_len s)
      else if cmd = ERASE_BLOCK then l_handled (l_erase_block_cmd data data_len s)
      else if cmd = RESTORE_DEVICE_DONE then
        l_handled (do { s \<leftarrow> l_enter_state DS_DISCONNECTED s; l_finish_command_resp OKAY s })
      else Some (False, s))"

section \<open>The dispatcher\<close>

definition l_run_state_command :: "lenv \<Rightarrow> bytes \<Rightarrow> int \<Rightarrow> lfw \<Rightarrow> (bool \<times> lfw) option" where
  "l_run_state_command L data data_len s =
     (case l_device_state s of
        DS_UNINITIALIZED \<Rightarrow> l_uninitialized_state (l_active_cmd s) data data_len s
      | DS_INITIALIZING \<Rightarrow> l_progress_state (l_active_cmd s) data s
      | DS_WIPING \<Rightarrow> l_progress_state (l_active_cmd s) data s
      | DS_BACKING_UP_DEVICE \<Rightarrow> l_backing_up_device_state (l_active_cmd s) data data_len s
      | DS_RESTORING_DEVICE \<Rightarrow> l_restoring_device_state (l_active_cmd s) data data_len s
      | DS_ERASING_PAGES \<Rightarrow> l_progress_state (l_active_cmd s) data s
      | DS_FIRMWARE_UPDATE \<Rightarrow> l_firmware_update_state (l_active_cmd s) data data_len s
      | DS_LOGGED_OUT \<Rightarrow> l_logged_out_state L (l_active_cmd s) data data_len s
      | DS_LOGGED_IN \<Rightarrow> l_logged_in_state L data data_len s
      | _ \<Rightarrow> Some (False, s))"

definition l_cmd_packet_recv :: "lenv \<Rightarrow> laction" where
  "l_cmd_packet_recv L s =
     (let data = drop CMD_PACKET_HEADER_SIZE (l_cmd_packet_buf s);
          data_len = int (rd16 (l_cmd_packet_buf s) 0) - int CMD_PACKET_HEADER_SIZE;
          next_active_cmd = int (unat (l_cmd_packet_buf s ! 2));
          messages_remaining = rd16 (l_cmd_packet_buf s) 3;
          waiting = (l_waiting_for_button_press s \<or> l_waiting_for_long_button_press s)
      in if next_active_cmd = DISCONNECT then l_cmd_disconnect s
         else if l_active_cmd s \<noteq> -1 \<and> next_active_cmd = CANCEL_BUTTON_PRESS \<and> \<not> waiting then Some s
         else if l_active_cmd s \<noteq> -1 \<and> waiting \<and> next_active_cmd = CANCEL_BUTTON_PRESS
         then l_finish_command_resp BUTTON_PRESS_CANCELED (l_end_button_press_wait s)
         else let s = (if l_active_cmd s \<noteq> next_active_cmd then s\<lparr>l_cmd_iter_count := 0\<rparr> else s);
                  s = s\<lparr>l_active_cmd := next_active_cmd, l_cmd_messages_remaining := messages_remaining\<rparr>
           in if next_active_cmd = STARTUP then l_startup_cmd L s
              else if next_active_cmd = GET_DEVICE_STATE
              then l_finish_command OKAY (Some [word_of_nat (ds_code (l_device_state s))]) 1 s
              else if next_active_cmd = CANCEL_BUTTON_PRESS then Some (s\<lparr>l_active_cmd := -1\<rparr>)
              else if data_len > int L_CMD_PACKET_PAYLOAD_SIZE then l_finish_command_resp INVALID_INPUT s
              else do {
                (known, s) \<leftarrow> l_run_state_command L data data_len s;
                s \<leftarrow> (if \<not> known then l_finish_command_resp INVALID_STATE s else Some s);
                Some (if messages_remaining \<noteq> 0 then s\<lparr>l_cmd_iter_count := l_cmd_iter_count s + 1\<rparr> else s)
              })"

section \<open>Main loop and interrupts\<close>

definition l_main_loop :: "lenv \<Rightarrow> bool \<Rightarrow> laction" where
  "l_main_loop L button_down s = do {
     s \<leftarrow> (if l_ms_count s > l_timer_target s \<and> l_timer_target s \<noteq> 0
           then map_option (\<lambda>s. s\<lparr>l_timer_target := 0\<rparr>) (l_timer_timeout s) else Some s);
     s \<leftarrow> l_usb_keyboard_idle s;
     s \<leftarrow> l_blink_idle l_blink_timeout s;
     s \<leftarrow> l_flash_idle L (l_flash_write_complete L) l_flash_write_failed s;
     s \<leftarrow> (if l_press_pending s then
             (let s = s\<lparr>l_press_pending := False\<rparr>
              in if \<not> l_button_state s then map_option (\<lambda>s. s\<lparr>l_button_state := True\<rparr>) (l_button_press L s) else Some s)
           else Some s);
     s \<leftarrow> (if \<not> button_down \<and> l_button_state s \<and> l_ms_count s - l_ms_last_pressed s > 100
           then map_option (\<lambda>s. s\<lparr>l_button_state := False\<rparr>) (l_button_release s) else Some s);
     if l_button_state s \<and> l_ms_count s - l_ms_last_pressed s > 2000
     then l_long_button_press L (s\<lparr>l_button_state := False\<rparr>) else Some s
   }"

datatype l_event =
  LEv_packet bytes | LEv_hid_tx | LEv_keyboard_tx | LEv_tick | LEv_button | LEv_rtc u32 | LEv_rng u32
| LEv_flash bool | LEv_loop bool

definition l_step :: "lenv \<Rightarrow> l_event \<Rightarrow> laction" where
  "l_step L e s =
     (case e of
        LEv_packet p \<Rightarrow> map_option snd (l_usb_raw_hid_rx (l_cmd_packet_recv L) p s)
      | LEv_hid_tx \<Rightarrow> l_hid_tx_done (l_cmd_packet_sent L) s
      | LEv_keyboard_tx \<Rightarrow> l_usb_tx_keyboard l_usb_keyboard_typing_done (s\<lparr>l_keyboard_tx_pending := False\<rparr>)
      | LEv_tick \<Rightarrow> Some (s\<lparr>l_ms_count := l_ms_count s + 1\<rparr>)
      | LEv_button \<Rightarrow> Some (s\<lparr>l_ms_last_pressed := l_ms_count s, l_press_pending := True\<rparr>)
      | LEv_rtc clk \<Rightarrow> rtc_wakeup (l_cmd_rand_update L) clk s
      | LEv_rng w \<Rightarrow> rng_handler (l_cmd_rand_update L) w s
      | LEv_flash ok \<Rightarrow> l_flash_handler (l_flash_write_complete L) l_flash_write_failed ok s
      | LEv_loop down \<Rightarrow> l_main_loop L down s)"

end
