(* ===== verification/Legacy_Commit.thy ===== *)
theory Legacy_Commit
  imports Legacy_Update Legacy_Dispatch
begin

text \<open>
  An update of a record in the original Signet from the request to the response: the writes of flash
  pages it causes, what each does to the map of records, and the theorem that the whole is an
  update of that map.
\<close>

section \<open>Writing a page\<close>

text \<open>The erase of a page ends, then the main loop comes round \<open>n\<close> times.\<close>

fun l_flash_rounds :: "lenv \<Rightarrow> nat \<Rightarrow> laction" where
  "l_flash_rounds L 0 s = Some s"
| "l_flash_rounds L (Suc n) s = do { s \<leftarrow> l_flash_idle L (l_flash_write_complete L) l_flash_write_failed s; l_flash_rounds L n s }"

definition l_page_run :: "lenv \<Rightarrow> laction" where
  "l_page_run L s = do { s \<leftarrow> l_flash_handler (l_flash_write_complete L) l_flash_write_failed True s; l_flash_rounds L 8 s }"

text \<open>The state after \<open>k\<close> double words of a page.\<close>

definition l_programmed :: "lbuf \<Rightarrow> nat \<Rightarrow> nat \<Rightarrow> lfw \<Rightarrow> lfw" where
  "l_programmed buf i k s =
     s\<lparr>l_flash_state := FLASH_WRITING,
       l_flash := (l_flash s)(32 + i := take (8 * k) (lbuf_get buf s) @ replicate (L_FLASH_PAGE_SIZE - 8 * k) 0xff),
       l_flash_write_data := Some (buf, 8 * k), l_flash_write_addr := BLOCK_ADDR i + 8 * k, l_flash_write_count := 256 - k\<rparr>"

lemma lbuf_get_programmed [simp]: "lbuf_get b (l_programmed buf i k s) = lbuf_get b s"
  by (cases b) (simp_all add: lbuf_get_def l_programmed_def)

lemma splice_erased:
  assumes "8 * k + 8 \<le> n" "n \<le> length d"
  shows "splice (take (8 * k) d @ replicate (n - 8 * k) e) (8 * k) (slice d (8 * k) 8) = take (8 * Suc k) d @ replicate (n - 8 * Suc k) e"
proof -
  have "take (8 * k) d @ take 8 (drop (8 * k) d) = take (8 + 8 * k) d"
    by (metis add.commute take_add)
  moreover have "n - (8 * k + 8) = n - (8 + 8 * k)" by simp
  ultimately show ?thesis using assms by (auto simp: splice_def slice_def min_def)
qed

lemma l_flash_program_step:
  assumes P: "program_ok L" and i: "i \<le> L_MAX_DATA_BLOCK" and d: "L_BLK_SIZE \<le> length (lbuf_get buf s)" and k: "k < 256"
  shows "l_flash_program L (l_programmed buf i k s)
    = Some (True, (l_programmed buf i (Suc k) s)\<lparr>l_flash_write_count := 256 - k\<rparr>)"
proof -
  let ?pg = "take (8 * k) (lbuf_get buf s) @ replicate (L_FLASH_PAGE_SIZE - 8 * k) 0xff"
  have e: "BLOCK_ADDR i + 8 * k - FLASH_MEM_BASE_ADDR = 8 * k + (32 + i) * L_FLASH_PAGE_SIZE" by (simp add: BLOCK_ADDR_def)
  have a: "(BLOCK_ADDR i + 8 * k - FLASH_MEM_BASE_ADDR) div L_FLASH_PAGE_SIZE = 32 + i"
    "(BLOCK_ADDR i + 8 * k - FLASH_MEM_BASE_ADDR) mod L_FLASH_PAGE_SIZE = 8 * k"
    unfolding e using k div_mult_self1 [of L_FLASH_PAGE_SIZE "8 * k" "32 + i"] mod_mult_self1 [of "8 * k" "32 + i" L_FLASH_PAGE_SIZE]
    by simp_all
  have "slice ?pg (8 * k) 8 = replicate 8 0xff" using k d by (simp add: slice_def min_def)
  moreover have "length ?pg = L_FLASH_PAGE_SIZE" "length (slice (lbuf_get buf s) (8 * k) 8) = 8" using k d by simp_all
  ultimately have "le_program L ?pg (8 * k) (slice (lbuf_get buf s) (8 * k) 8)
      = (take (8 * Suc k) (lbuf_get buf s) @ replicate (L_FLASH_PAGE_SIZE - 8 * Suc k) 0xff, True)"
    using P k d splice_erased [of k L_FLASH_PAGE_SIZE "lbuf_get buf s"] unfolding program_ok_def by simp
  moreover have "\<not> BLOCK_ADDR i + 8 * k < FLASH_MEM_BASE_ADDR" "\<not> 32 + i \<ge> L_FLASH_PAGES" using i by (simp_all add: BLOCK_ADDR_def)
  moreover define t where "t = l_programmed buf i k s"
  moreover have f: "l_flash_write_data t = Some (buf, 8 * k)" "l_flash_write_addr t = BLOCK_ADDR i + 8 * k"
    "l_flash t (32 + i) = ?pg" "lbuf_get buf t = lbuf_get buf s"
    by (simp_all add: t_def l_programmed_def lbuf_get_programmed [unfolded l_programmed_def])
  moreover have "read_from (lbuf_get buf s) (8 * k) 8 = Some (slice (lbuf_get buf s) (8 * k) 8)" using d k by simp
  moreover have "t\<lparr>l_flash := (l_flash t)(32 + i := take (8 * Suc k) (lbuf_get buf s) @ replicate (L_FLASH_PAGE_SIZE - 8 * Suc k) 0xff),
      l_flash_write_data := Some (buf, 8 * k + 8), l_flash_write_addr := BLOCK_ADDR i + 8 * k + 8\<rparr>
    = (l_programmed buf i (Suc k) s)\<lparr>l_flash_write_count := 256 - k\<rparr>"
    unfolding t_def l_programmed_def by simp
  ultimately show ?thesis
    unfolding l_flash_program_def by (simp add: a Let_def)
qed

lemma l_flash_loop:
  assumes P: "program_ok L" and i: "i \<le> L_MAX_DATA_BLOCK" and d: "L_BLK_SIZE \<le> length (lbuf_get buf s)" and k: "k + n \<le> 256"
  shows "l_flash_write_loop L n (l_programmed buf i k s) = Some (True, l_programmed buf i (k + n) s)"
  using k
proof (induction n arbitrary: k)
  case (Suc n)
  have c: "l_flash_write_count (l_programmed buf i k s) = 256 - k" by (simp add: l_programmed_def)
  have nxt: "((l_programmed buf i (Suc k) s)\<lparr>l_flash_write_count := 256 - k\<rparr>)\<lparr>l_flash_write_count := 256 - k - 1\<rparr> = l_programmed buf i (Suc k) s"
    by (simp add: l_programmed_def)
  show ?case
    using Suc.prems Suc.IH [of "Suc k"] l_flash_program_step [OF P i d, of k] nxt c by simp
qed simp

lemma l_flash_round:
  assumes "program_ok L" "i \<le> L_MAX_DATA_BLOCK" "L_BLK_SIZE \<le> length (lbuf_get buf s)" "k + 32 \<le> 256"
  shows "l_flash_idle L cpl failed (l_programmed buf i k s) =
    (if k + 32 = 256 then cpl ((l_programmed buf i 256 s)\<lparr>l_flash_state := FLASH_IDLE\<rparr>) else Some (l_programmed buf i (k + 32) s))"
proof -
  have st: "l_flash_state (l_programmed buf i k s) = FLASH_WRITING" by (simp add: l_programmed_def)
  have c: "l_flash_write_count (l_programmed buf i (k + 32) s) = 0 \<longleftrightarrow> k + 32 = 256" using assms(4) by (simp add: l_programmed_def)
  show ?thesis
    using l_flash_loop [OF assms] st c by (simp add: l_flash_idle_def l_flash_write_state_def)
qed

text \<open>The page is written: the buffer is in its block.\<close>

definition l_stored :: "lbuf \<Rightarrow> nat \<Rightarrow> lfw \<Rightarrow> lfw" where
  "l_stored buf i s = (l_programmed buf i 256 s)\<lparr>l_flash_state := FLASH_IDLE\<rparr>"

lemma l_page_run:
  assumes P: "program_ok L" and i: "i \<le> L_MAX_DATA_BLOCK" and d: "L_BLK_SIZE \<le> length (lbuf_get buf s)"
    and idle: "l_flash_state s = FLASH_IDLE"
  shows "l_page_run L (l_flash_write_page (BLOCK_ADDR i) (Some buf) (int L_BLK_SIZE) s) = l_flash_write_complete L (l_stored buf i s)"
proof -
  let ?s = "l_flash_write_page (BLOCK_ADDR i) (Some buf) (int L_BLK_SIZE) s"
  let ?c = "l_flash_write_complete L" and ?f = l_flash_write_failed
  have "l_flash_handler ?c ?f True ?s = Some (l_programmed buf i 0 s)"
    using idle block_page [of i] by (simp add: l_flash_handler_def l_flash_write_page_def l_programmed_def signed_divide_int_def)
  moreover have "l_flash_rounds L (Suc n) (l_programmed buf i (k * 32) s) = l_flash_rounds L n (l_programmed buf i ((k + 1) * 32) s)"
    if "k < 7" for n k
    using l_flash_round [OF P i d, of "k * 32" ?c ?f] that by (simp add: add.commute)
  from this [of 0] this [of 1] this [of 2] this [of 3] this [of 4] this [of 5] this [of 6]
  have "l_flash_rounds L 8 (l_programmed buf i 0 s) = l_flash_rounds L 1 (l_programmed buf i 224 s)"
    by (simp add: eval_nat_numeral)
  moreover have "l_flash_rounds L 0 = Some" by (simp add: fun_eq_iff)
  then have "l_flash_rounds L 1 (l_programmed buf i 224 s) = ?c (l_stored buf i s)"
    using l_flash_round [OF P i d, of 224 ?c ?f] by (simp add: l_stored_def)
  ultimately show ?thesis by (simp add: l_page_run_def)
qed

section \<open>Responses\<close>

text \<open>What the response code needs: buffers of their sizes and events as \<open>l_cmd_event_send\<close> makes them.\<close>

definition l_can_respond :: "lfw \<Rightarrow> bool" where
  "l_can_respond s \<longleftrightarrow>
     length (l_cmd_resp s) = L_CMD_PACKET_BUF_SIZE \<and> length (l_raw_hid_tx_cmd_packet s) = L_RAW_HID_PACKET_SIZE
   \<and> length (l_raw_hid_tx_event_packet s) = L_RAW_HID_PACKET_SIZE
   \<and> (\<forall>i<8. l_event_data s i = LE_null \<or> l_event_data_len s i \<le> 1)"

text \<open>What a response leaves alone.\<close>

definition l_core :: "lfw \<Rightarrow> (nat \<Rightarrow> bytes) \<times> (nat \<Rightarrow> block_info) \<times> (nat \<Rightarrow> nat) \<times> bytes \<times> bytes \<times> flash_state" where
  "l_core s = (l_flash s, l_block_info_tbl s, l_uid_map s, l_encrypt_key s, l_root_page s, l_flash_state s)"

definition l_rest :: "lfw \<Rightarrow> l_update_data \<times> device_state \<times> bool \<times> bool" where
  "l_rest s = (l_update s, l_device_state s, l_waiting_for_button_press s, l_waiting_for_long_button_press s)"

lemma l_next_event: "l_next_event m = Some i \<Longrightarrow> i < 8"
  by (auto simp: l_next_event_def find_Some_iff)

lemma l_maybe_send_raw_hid_event:
  assumes "l_can_respond s"
  obtains ev s' where "l_maybe_send_raw_hid_event s = Some (ev, s')" "l_core s' = l_core s" "l_cmd_resp s' = l_cmd_resp s"
    "l_raw_hid_tx_seq s' = l_raw_hid_tx_seq s" "l_raw_hid_tx_count s' = l_raw_hid_tx_count s"
    "l_rest s' = l_rest s" "l_can_respond s'"
proof (cases "l_event_mask s = 0 \<or> l_hid_tx_pending s \<or> l_next_event (l_event_mask s) = None")
  case True
  then have "l_maybe_send_raw_hid_event s = Some (l_event_mask s \<noteq> 0 \<and> \<not> l_hid_tx_pending s, s)"
    by (auto simp: l_maybe_send_raw_hid_event_def)
  then show ?thesis by (rule that) (use assms in \<open>simp_all add: l_can_respond_def\<close>)
next
  case False
  then obtain i where i: "l_next_event (l_event_mask s) = Some i" "l_event_mask s \<noteq> 0" "\<not> l_hid_tx_pending s" by auto
  show ?thesis
  proof (cases "l_event_data s i")
    case LE_null
    then show ?thesis using that i assms
      by (auto simp: l_maybe_send_raw_hid_event_def l_send_hid_def put_lout_def l_core_def l_rest_def l_can_respond_def Let_def)
  next
    case LE_timeout_secs
    moreover have "l_event_data_len s i \<le> 1" using assms l_next_event [OF i(1)] LE_timeout_secs by (auto simp: l_can_respond_def)
    ultimately show ?thesis using that i assms
      by (auto simp: l_maybe_send_raw_hid_event_def l_evbuf_bytes_def memcpy_to_def l_send_hid_def put_lout_def l_core_def
          l_rest_def l_can_respond_def Let_def)
  qed
qed

lemma l_finish_command:
  assumes s: "l_can_respond s" and n: "CMD_PACKET_HEADER_SIZE + n \<le> L_CMD_PACKET_BUF_SIZE"
    and p: "\<And>p. pl = Some p \<Longrightarrow> n \<le> length p"
  obtains s' where "l_finish_command r pl n s = Some s'" "l_core s' = l_core s"
    "l_cmd_resp s' ! 2 = word_of_nat (resp_code r)" "\<And>p. pl = Some p \<Longrightarrow> slice (l_cmd_resp s') CMD_PACKET_HEADER_SIZE n = take n p"
    "l_raw_hid_tx_count s' = (CMD_PACKET_HEADER_SIZE + n + 62) div 63" "l_rest s' = l_rest s" "l_can_respond s'"
proof -
  define h where "h = (l_cmd_resp s)[0 := word_of_nat (n + 6), 1 := word_of_nat ((n + 6) div 256), 2 := word_of_nat (resp_code r),
    3 := lo8 0, 4 := hi8 0, 5 := word_of_nat (ds_code (l_device_state s))]"
  define b where "b = (case pl of None \<Rightarrow> h | Some p \<Rightarrow> splice h 6 (take n p))"
  define s1 where "s1 = (let s = s\<lparr>l_cmd_resp := b\<rparr> in if l_cmd_messages_remaining s = 0 then s\<lparr>l_active_cmd := -1\<rparr> else s)"
  define cnt where "cnt = (CMD_PACKET_HEADER_SIZE + n + 62) div 63"
  define s2 where "s2 = s1\<lparr>l_raw_hid_tx_count := cnt, l_raw_hid_tx_seq := 0, l_raw_hid_tx_data := True\<rparr>"
  have h: "length h = L_CMD_PACKET_BUF_SIZE" "h ! 2 = word_of_nat (resp_code r)" using s by (simp_all add: h_def l_can_respond_def)
  have ln: "length (take n p) = n" if "pl = Some p" for p using assms(3) [OF that] by simp
  have b: "length b = L_CMD_PACKET_BUF_SIZE" "b ! 2 = word_of_nat (resp_code r)" "\<And>p. pl = Some p \<Longrightarrow> slice b 6 n = take n p"
    using h n ln by (auto simp: b_def nth_splice split: option.splits)
  have "n + 6 < 65536" using n by simp
  then have e: "l_finish_command r pl n s = l_maybe_send_raw_hid_packet (\<lambda>_. None) s2"
    using s n ln by (auto simp: l_finish_command_def l_finish_command_multi_def l_cmd_packet_send_def h_def read_from_def slice_def
        memcpy_to_def b_def s1_def s2_def cnt_def l_can_respond_def Let_def add.commute split: option.splits)
  have s2: "l_can_respond s2" "l_core s2 = l_core s" "l_cmd_resp s2 = b" "l_raw_hid_tx_seq s2 = 0" "l_raw_hid_tx_count s2 = cnt"
    "l_rest s2 = l_rest s"
    using s b(1) by (simp_all add: s2_def s1_def l_rest_def l_can_respond_def l_core_def Let_def)
  obtain ev s3 where s3: "l_maybe_send_raw_hid_event s2 = Some (ev, s3)" "l_core s3 = l_core s2" "l_cmd_resp s3 = l_cmd_resp s2"
    "l_raw_hid_tx_seq s3 = l_raw_hid_tx_seq s2" "l_raw_hid_tx_count s3 = l_raw_hid_tx_count s2" "l_rest s3 = l_rest s2" "l_can_respond s3"
    by (rule l_maybe_send_raw_hid_event [OF s2(1)])
  have cnt: "cnt \<noteq> 0" by (simp add: cnt_def)
  obtain s4 where s4: "l_maybe_send_raw_hid_packet (\<lambda>_. None) s2 = Some s4" "l_core s4 = l_core s2" "l_cmd_resp s4 = b"
    "l_raw_hid_tx_count s4 = cnt" "l_rest s4 = l_rest s2" "l_can_respond s4"
  proof (cases ev)
    case True
    then show ?thesis using that [of s3] s3 s2 by (simp add: l_maybe_send_raw_hid_packet_def)
  next
    case False
    have "read_from b 0 63 = Some (slice b 0 63)" using b(1) by simp
    then show ?thesis using that s3 s2 b(1) cnt False
      by (auto simp: l_maybe_send_raw_hid_packet_def memcpy_to_def l_send_hid_def put_lout_def l_core_def l_rest_def
          l_can_respond_def Let_def)
  qed
  then show ?thesis using that [of s4] e s2 b cnt_def by simp
qed

lemma l_finish_command_resp:
  assumes "l_can_respond s"
  obtains s' where "l_finish_command_resp r s = Some s'" "l_core s' = l_core s"
    "l_cmd_resp s' ! 2 = word_of_nat (resp_code r)" "l_raw_hid_tx_count s' = 1" "l_rest s' = l_rest s" "l_can_respond s'"
  unfolding l_finish_command_resp_def by (rule l_finish_command [OF assms, of 0 None r]) simp_all

section \<open>The database after a write\<close>

lemma l_brecs_stands: "stands_for (l_block_info_tbl t k) (l_block k t) R \<Longrightarrow> l_brecs t k = R"
  by (auto simp: stands_for_def l_brecs_def)

lemma stands_for_brecs: "l_db_ok s \<Longrightarrow> data_block k \<Longrightarrow> stands_for (l_block_info_tbl s k) (l_block k s) (l_brecs s k)"
  using l_db_okD(1,2) [of s k] by (auto simp: stands_for_def l_brecs_def)

lemma l_db_after:
  assumes ok: "l_db_ok s" and uid: "uid_ok uid" and map: "l_uid_map t = (l_uid_map s)(uid := m)" "m \<le> L_MAX_DATA_BLOCK"
    and R: "\<And>k. data_block k \<Longrightarrow> stands_for (l_block_info_tbl t k) (l_block k t) ((l_brecs s k)(uid := new k))"
    and own: "\<And>k. data_block k \<Longrightarrow> new k \<noteq> None \<longleftrightarrow> m = k"
  shows "l_db_ok t" "l_view t = (l_view s)(uid := if m = INVALID_BLOCK then None else new m)"
proof -
  have r: "l_brecs t k = (l_brecs s k)(uid := new k)" if "data_block k" for k using l_brecs_stands [OF R [OF that]] .
  have step: "l_db_ok t" "l_view t = (l_view s)(uid := if m = INVALID_BLOCK then None else l_brecs t m uid)"
    by (rule l_db_step [OF ok uid _ _ _ map]; use R own r in \<open>force simp: stands_for_def\<close>)+
  show "l_db_ok t" by (rule step(1))
  have "data_block m" if "m \<noteq> INVALID_BLOCK" using that map(2) by (simp add: data_block_def)
  then show "l_view t = (l_view s)(uid := if m = INVALID_BLOCK then None else new m)" using step(2) r by auto
qed

section \<open>Planning the update\<close>

text \<open>The block an update goes to, 0 if there is none.\<close>

definition l_update_block :: "lfw \<Rightarrow> nat \<Rightarrow> nat \<Rightarrow> nat" where
  "l_update_block s uid sz =
     (let old = l_uid_map s uid; p = target_part_size sz in
      if sz = 0 then old else if p = 0 then INVALID_BLOCK
      else if old \<noteq> INVALID_BLOCK \<and> bi_part_size (l_block_info_tbl s old) = p then old
      else fst (l_choose_block p [] (l_block_info_tbl s 0) s))"

text \<open>
  The last resort of \<open>allocate_uid\<close> can be the block that holds the record already: then the record
  has two entries there.
\<close>

definition l_doubled :: "lfw \<Rightarrow> nat \<Rightarrow> nat \<Rightarrow> bool" where
  "l_doubled s uid sz \<longleftrightarrow>
     sz \<noteq> 0 \<and> l_uid_map s uid \<noteq> INVALID_BLOCK \<and> l_update_block s uid sz = l_uid_map s uid
   \<and> bi_part_size (l_block_info_tbl s (l_uid_map s uid)) \<noteq> target_part_size sz"

lemma fst_l_choose_block: "fst (l_choose_block p bt it s) = fst (l_choose_block p bt' it' s)"
  by (simp add: l_choose_block_def Let_def split: option.splits)

definition l_new_record :: "lenv \<Rightarrow> lfw \<Rightarrow> bytes \<Rightarrow> nat \<Rightarrow> bytes \<Rightarrow> (nat \<times> bytes) option" where
  "l_new_record L s iv sz data =
     (if sz = 0 then None
      else Some (sz, stm_aes_256_encrypt_cbc (le_nettle L) (l_encrypt_key s) (SIZE_TO_SUB_BLK_COUNT sz) (Some iv) data))"

lemma l_update_plan:
  assumes ok: "l_db_ok s" and uid: "uid_ok uid" and sz: "sz < 65536"
    and data: "length data = SIZE_TO_SUB_BLK_COUNT sz * SUB_BLK_SIZE"
    and key: "nettle_ok (le_nettle L)" "length (l_encrypt_key s) = 32" "length iv = 16" and bt: "length bt = L_BLK_SIZE"
    and room: "l_update_block s uid sz \<noteq> INVALID_BLOCK" "\<not> l_doubled s uid sz"
  defines "i \<equiv> l_update_block s uid sz"
  defines "prev \<equiv> if sz = 0 then INVALID_BLOCK else l_uid_map s uid"
  obtains b info where "l_update_uid L uid data sz INVALID_BLOCK iv bt it s = Some (i, prev, b, info)" "data_block i"
    "stands_for info b ((l_brecs s i)(uid := l_new_record L s iv sz data))"
proof (cases "sz = 0")
  case True
  have i: "i = l_uid_map s uid" using True by (simp add: i_def l_update_block_def)
  have f: "l_found s uid i" unfolding i by (rule l_found [OF ok uid]) (use room i in \<open>simp add: i_def\<close>)
  obtain b info where "l_deallocate_uid uid True bt it s = Some (i, b, info)" "stands_for info b ((l_brecs s i)(uid := None))"
    by (rule l_deallocate_uid [OF f bt])
  moreover have "data_block i" unfolding i by (rule l_db_okD(3) [OF ok uid]) (use room i in \<open>simp add: i_def\<close>)
  ultimately show ?thesis using True by (intro that) (simp_all add: l_update_uid_def l_new_record_def prev_def)
next
  case False
  let ?p = "target_part_size sz" and ?old = "l_uid_map s uid"
  have p: "?p \<noteq> 0" using room(1) False by (auto simp: l_update_block_def Let_def split: if_splits)
  have prev: "prev = ?old" using False by (simp add: prev_def)
  show ?thesis
  proof (cases "?old \<noteq> INVALID_BLOCK \<and> bi_part_size (l_block_info_tbl s ?old) = ?p")
    case True
    then have i: "i = ?old" using False p by (simp add: i_def l_update_block_def)
    have f: "l_found s uid i" unfolding i by (rule l_found [OF ok uid]) (use True in simp)
    have fits: "SIZE_TO_SUB_BLK_COUNT sz \<le> bi_part_size (l_block_info_tbl s i)" using target_part_size(2) [OF p] True i by simp
    obtain j where j: "l_find_uid uid s = Some (i, j)" by (rule l_find_uid [OF f])
    obtain b0 info0 b info where "l_deallocate_uid uid False (l_block i s) (l_block_info_tbl s i) s = Some (i, b0, info0)"
      "l_allocate_uid_blk L uid data sz (ent_rev (l_block i s) j) iv b0 info0 s = Some (b, info)"
      "stands_for info b ((l_brecs s i)(uid \<mapsto>
         (sz, stm_aes_256_encrypt_cbc (le_nettle L) (l_encrypt_key s) (SIZE_TO_SUB_BLK_COUNT sz) (Some iv) data)))"
      by (rule l_replace_uid [OF f uid sz fits data key, of "l_block i s" "l_block_info_tbl s i" "ent_rev (l_block i s) j"])
    moreover have "data_block i" unfolding i by (rule l_db_okD(3) [OF ok uid]) (use True in simp)
    ultimately show ?thesis using that [of b info] j False True p i
      by (simp add: l_update_uid_def Let_def prev l_new_record_def)
  next
    case other: False
    then have i: "fst (l_choose_block ?p bt' it' s) = i" for bt' it'
      using False p fst_l_choose_block [of ?p bt' it' s "[]" "l_block_info_tbl s 0"]
      by (auto simp: i_def l_update_block_def Let_def)
    have ne: "?old \<noteq> i" using room(1) room(2) False other unfolding i_def l_doubled_def by metis
    have alloc: "\<exists>b info. l_allocate_uid L uid data sz rv iv bt it' s = Some (i, b, info) \<and> data_block i
        \<and> stands_for info b ((l_brecs s i)(uid := l_new_record L s iv sz data))" for rv it'
    proof -
      obtain b info where "l_allocate_uid L uid data sz rv iv bt it' s = Some (i, b, info)" "data_block i"
        "stands_for info b ((l_brecs s i)(uid \<mapsto>
           (sz, stm_aes_256_encrypt_cbc (le_nettle L) (l_encrypt_key s) (SIZE_TO_SUB_BLK_COUNT sz) (Some iv) data)))"
        by (rule l_allocate_uid [OF ok uid sz p data key i [of bt it'] room(1) [folded i_def] ne, where rv = rv])
      then show ?thesis using False by (simp add: l_new_record_def)
    qed
    show ?thesis
    proof (cases "?old = INVALID_BLOCK")
      case True
      have "l_find_uid uid s = None" using True by (simp add: l_find_uid_def)
      then show ?thesis using that alloc [of 0 it] False True by (auto simp: l_update_uid_def prev)
    next
      case old: False
      obtain j where j: "l_find_uid uid s = Some (?old, j)" by (rule l_find_uid [OF l_found [OF ok uid old]])
      then show ?thesis
        using that alloc [of "(ent_rev (l_block ?old s) j + 1) mod 4" "l_block_info_tbl s ?old"] False old other p
        by (auto simp: l_update_uid_def Let_def prev)
    qed
  qed
qed

end
