(* ===== verification/Legacy_Refine.thy ===== *)
theory Legacy_Refine
  imports Legacy_Commit
begin

text \<open>
  The theorem on updates in the original Signet: from the request over the button and one or two writes
  of flash pages to the response, an update of the map of records.
\<close>

section \<open>One write\<close>

definition l_updating :: "lfw \<Rightarrow> bool" where
  "l_updating s \<longleftrightarrow> l_device_state s = DS_LOGGED_IN \<and> (l_active_cmd s = UPDATE_UID \<or> l_active_cmd s = UPDATE_UIDS)"

definition l_ready :: "lfw \<Rightarrow> bool" where
  "l_ready s \<longleftrightarrow> l_flash_state s = FLASH_IDLE \<and> l_updating s \<and> l_can_respond s \<and> length (lu_block (l_update s)) = L_BLK_SIZE"

named_theorems stored_simps \<open>fields after a page has been written\<close>

lemma l_stored_fields [stored_simps]:
  "l_block_info_tbl (l_stored b i s) = l_block_info_tbl s" "l_uid_map (l_stored b i s) = l_uid_map s"
  "l_update (l_stored b i s) = l_update s" "l_encrypt_key (l_stored b i s) = l_encrypt_key s"
  "l_root_page (l_stored b i s) = l_root_page s" "l_flash_state (l_stored b i s) = FLASH_IDLE"
  "l_updating (l_stored b i s) = l_updating s" "l_can_respond (l_stored b i s) = l_can_respond s"
  "l_rest (l_stored b i s) = l_rest s"
  by (simp_all add: l_stored_def l_programmed_def l_updating_def l_can_respond_def l_rest_def)

lemma l_stored_block [stored_simps]:
  "length (lu_block (l_update s)) = L_BLK_SIZE
    \<Longrightarrow> l_block k (l_stored LB_update_block i s) = (if k = i then lu_block (l_update s) else l_block k s)"
  by (simp add: l_stored_def l_programmed_def l_block_def lbuf_get_def)

lemma l_flash_write_complete_updating: "l_updating s \<Longrightarrow> l_flash_write_complete L s = l_update_uid_cmd_write_finished L s"
  by (auto simp: l_flash_write_complete_def l_updating_def)

lemma l_written:
  assumes "program_ok L" "l_ready s" "i \<le> L_MAX_DATA_BLOCK"
  shows "l_page_run L (l_flash_write_page (BLOCK_ADDR i) (Some LB_update_block) (int L_BLK_SIZE) s)
      = l_update_uid_cmd_write_finished L (l_stored LB_update_block i s)"
proof -
  have "L_BLK_SIZE \<le> length (lbuf_get LB_update_block s)" using assms(2) by (simp add: lbuf_get_def l_ready_def)
  from l_page_run [OF assms(1,3) this] assms(2) show ?thesis
    by (simp add: l_flash_write_complete_updating stored_simps l_ready_def)
qed

text \<open>The button has been pressed: the checksum is set and the write begins.\<close>

definition l_sealed :: "lenv \<Rightarrow> lfw \<Rightarrow> lfw" where
  "l_sealed L s =
     (if bi_occupied (lu_blk_info (l_update s))
      then l_upd_update (\<lambda>u. u\<lparr>lu_block := blk_set_crc (l_block_crc L (lu_block u)) (lu_block u)\<rparr>) s else s)"

lemma l_update_uid_cmd_complete:
  "l_update_uid_cmd_complete L s =
     l_flash_write_page (BLOCK_ADDR (lu_block_num (l_update s))) (Some LB_update_block) (int L_BLK_SIZE) (l_sealed L s)"
  by (simp add: l_update_uid_cmd_complete_def l_sealed_def Let_def)

lemma l_sealed_frame:
  assumes len: "length (lu_block (l_update s)) = L_BLK_SIZE"
  shows "l_update (l_sealed L s) = (l_update s)\<lparr>lu_block := lu_block (l_update (l_sealed L s))\<rparr>"
    "l_core (l_sealed L s) = l_core s" "l_ready (l_sealed L s) = l_ready s" "snd (l_rest (l_sealed L s)) = snd (l_rest s)"
proof -
  show "l_update (l_sealed L s) = (l_update s)\<lparr>lu_block := lu_block (l_update (l_sealed L s))\<rparr>" by (simp add: l_sealed_def l_upd_update_def)
  show "l_core (l_sealed L s) = l_core s" by (simp add: l_sealed_def l_upd_update_def l_core_def)
  show "snd (l_rest (l_sealed L s)) = snd (l_rest s)" by (simp add: l_sealed_def l_upd_update_def l_rest_def)
  show "l_ready (l_sealed L s) = l_ready s"
    using len by (simp add: l_sealed_def l_upd_update_def l_ready_def l_updating_def l_can_respond_def)
qed

lemma l_sealed_stands:
  assumes "stands_for (lu_blk_info (l_update s)) (lu_block (l_update s)) R"
  shows "stands_for (lu_blk_info (l_update s)) (lu_block (l_update (l_sealed L s))) R"
  using assms stands_for_crc [OF assms] by (simp add: l_sealed_def l_upd_update_def)

section \<open>All writes of an update\<close>

definition l_settle :: "lenv \<Rightarrow> laction" where
  "l_settle L s = do { s \<leftarrow> l_page_run L s; if l_flash_state s = FLASH_IDLE then Some s else l_page_run L s }"

text \<open>The end of an update: the answer is \<open>OKAY\<close>, on its way in one packet.\<close>

definition l_answered :: "command_responses \<Rightarrow> lfw \<Rightarrow> bool" where
  "l_answered r t \<longleftrightarrow> l_cmd_resp t ! 2 = word_of_nat (resp_code r) \<and> l_raw_hid_tx_count t = 1"

lemma l_core_fields:
  assumes "l_core t = l_core s"
  shows "l_block_info_tbl t = l_block_info_tbl s" "l_uid_map t = l_uid_map s" "l_block k t = l_block k s" "l_flash t = l_flash s"
    "l_encrypt_key t = l_encrypt_key s" "l_root_page t = l_root_page s" "l_flash_state t = l_flash_state s"
  using assms by (simp_all add: l_core_def l_block_def)

text \<open>What an update leaves as it was, apart from the records: it can be followed by the next one.\<close>

definition l_kept :: "lfw \<Rightarrow> lfw \<Rightarrow> bool" where
  "l_kept s t \<longleftrightarrow>
     l_flash_state t = FLASH_IDLE \<and> l_can_respond t \<and> length (lu_block (l_update t)) = L_BLK_SIZE
   \<and> l_encrypt_key t = l_encrypt_key s \<and> l_root_page t = l_root_page s \<and> snd (l_rest t) = snd (l_rest s)"

lemma l_commit_raw:
  assumes P: "program_ok L" and s: "l_ready s" "lu_write_count (l_update s) = 0"
    and i: "i = lu_block_num (l_update s)" "data_block i"
    and prev: "lu_prev_block_num (l_update s) = i \<or> lu_prev_block_num (l_update s) = INVALID_BLOCK"
  obtains t where "l_settle L (l_update_uid_cmd_complete L s) = Some t" "l_answered OKAY t"
    "l_block i t = lu_block (l_update (l_sealed L s))" "\<And>k. k \<noteq> i \<Longrightarrow> l_block k t = l_block k s"
    "l_block_info_tbl t = (l_block_info_tbl s)(i := lu_blk_info (l_update s))"
    "l_uid_map t = (l_uid_map s)(lu_uid (l_update s) := (if lu_sz (l_update s) = 0 then INVALID_BLOCK else i))"
    "l_kept s t"
proof -
  let ?u = "l_update s"
  define s1 where "s1 = l_sealed L s"
  have "length (lu_block ?u) = L_BLK_SIZE" using s(1) by (simp add: l_ready_def)
  note s1 = l_sealed_frame [OF this, of L, folded s1_def]
  have r1: "l_ready s1" using s1(3) s(1) by simp
  have len: "length (lu_block (l_update s1)) = L_BLK_SIZE" using r1 by (simp add: l_ready_def)
  have run: "l_page_run L (l_update_uid_cmd_complete L s) = l_update_uid_cmd_write_finished L (l_stored LB_update_block i s1)"
    unfolding l_update_uid_cmd_complete i(1) [symmetric] s1_def [symmetric]
    by (rule l_written [OF P r1]) (use i(2) in \<open>simp add: data_block_def\<close>)
  define s2 where "s2 = (l_stored LB_update_block i s1)\<lparr>l_update := (l_update s1)\<lparr>lu_write_count := 1\<rparr>,
    l_block_info_tbl := (l_block_info_tbl s)(i := lu_blk_info ?u),
    l_uid_map := (l_uid_map s)(lu_uid ?u := (if lu_sz ?u = 0 then INVALID_BLOCK else i))\<rparr>"
  have u1: "lu_write_count (l_update s1) = 0" "lu_block_num (l_update s1) = i" "lu_blk_info (l_update s1) = lu_blk_info ?u"
    "lu_prev_block_num (l_update s1) = lu_prev_block_num ?u" "lu_uid (l_update s1) = lu_uid ?u" "lu_sz (l_update s1) = lu_sz ?u"
    using s(2) i(1) by (subst s1(1); simp)+
  have "i mod 256 = i" using i(2) by (simp add: data_block_def)
  then have fin: "l_update_uid_cmd_write_finished L (l_stored LB_update_block i s1) = l_finish_command_resp OKAY s2"
    using u1 prev by (auto simp: l_update_uid_cmd_write_finished_def Let_def l_upd_update_def stored_simps s2_def l_core_fields [OF s1(2)])
  have "l_can_respond s2"
    using r1 stored_simps(8) [of LB_update_block i s1] by (simp add: s2_def l_can_respond_def l_ready_def)
  then obtain t where t: "l_finish_command_resp OKAY s2 = Some t" "l_core t = l_core s2"
    "l_cmd_resp t ! 2 = word_of_nat (resp_code OKAY)" "l_raw_hid_tx_count t = 1" "l_rest t = l_rest s2" "l_can_respond t"
    by (rule l_finish_command_resp)
  note tc = l_core_fields [OF t(2)]
  have idle: "l_flash_state t = FLASH_IDLE" using tc(7) stored_simps(6) by (simp add: s2_def)
  have blk: "l_block k s2 = (if k = i then lu_block (l_update s1) else l_block k s1)" for k
    using l_stored_block [OF len, of k i] by (simp add: s2_def l_block_def)
  show ?thesis
  proof (rule that)
    show "l_settle L (l_update_uid_cmd_complete L s) = Some t" unfolding l_settle_def run fin t(1) by (simp add: idle)
    show "l_answered OKAY t" using t(3,4) by (simp add: l_answered_def)
    show "l_block i t = lu_block (l_update (l_sealed L s))" using tc(3) blk by (simp add: s1_def)
    show "l_block k t = l_block k s" if "k \<noteq> i" for k using that tc(3) blk l_core_fields(3) [OF s1(2)] by simp
    have "snd (l_rest t) = snd (l_rest s)" "length (lu_block (l_update t)) = L_BLK_SIZE"
      using t(5) stored_simps(9) [of LB_update_block i s1] s1(4) len by (simp_all add: s2_def l_rest_def)
    then show "l_kept s t" using t(6) tc stored_simps l_core_fields [OF s1(2)] idle by (simp add: l_kept_def s2_def)
  qed (use tc stored_simps l_core_fields [OF s1(2)] in \<open>simp_all add: s2_def\<close>)
qed

lemma l_commit_one:
  assumes P: "program_ok L" and s: "l_ready s" "lu_write_count (l_update s) = 0"
    and i: "i = lu_block_num (l_update s)" "data_block i"
    and st: "stands_for (lu_blk_info (l_update s)) (lu_block (l_update s)) R"
    and prev: "lu_prev_block_num (l_update s) = i \<or> lu_prev_block_num (l_update s) = INVALID_BLOCK"
  obtains t where "l_settle L (l_update_uid_cmd_complete L s) = Some t" "l_answered OKAY t"
    "stands_for (lu_blk_info (l_update s)) (l_block i t) R" "\<And>k. k \<noteq> i \<Longrightarrow> l_block k t = l_block k s"
    "l_block_info_tbl t = (l_block_info_tbl s)(i := lu_blk_info (l_update s))"
    "l_uid_map t = (l_uid_map s)(lu_uid (l_update s) := (if lu_sz (l_update s) = 0 then INVALID_BLOCK else i))"
    "l_kept s t"
proof -
  obtain t where t: "l_settle L (l_update_uid_cmd_complete L s) = Some t" "l_answered OKAY t"
    "l_block i t = lu_block (l_update (l_sealed L s))" "\<And>k. k \<noteq> i \<Longrightarrow> l_block k t = l_block k s"
    "l_block_info_tbl t = (l_block_info_tbl s)(i := lu_blk_info (l_update s))"
    "l_uid_map t = (l_uid_map s)(lu_uid (l_update s) := (if lu_sz (l_update s) = 0 then INVALID_BLOCK else i))" "l_kept s t"
    by (rule l_commit_raw [OF P s i prev]) blast
  show ?thesis by (rule that [OF t(1,2) _ t(4-7)]) (use t(3) l_sealed_stands [OF st] in simp_all)
qed

text \<open>A move: the new copy is written first, then the old entry is taken out of its block.\<close>

lemma l_commit_two:
  assumes P: "program_ok L" and s: "l_ready s" "lu_write_count (l_update s) = 0"
    and i: "i = lu_block_num (l_update s)" "data_block i"
    and st: "stands_for (lu_blk_info (l_update s)) (lu_block (l_update s)) R"
    and p: "p = lu_prev_block_num (l_update s)" "p \<noteq> i" "data_block p"
    and f: "l_found s (lu_uid (l_update s)) p"
  obtains t info2 where "l_settle L (l_update_uid_cmd_complete L s) = Some t" "l_answered OKAY t"
    "stands_for (lu_blk_info (l_update s)) (l_block i t) R"
    "stands_for info2 (l_block p t) ((l_brecs s p)(lu_uid (l_update s) := None))"
    "\<And>k. k \<noteq> i \<Longrightarrow> k \<noteq> p \<Longrightarrow> l_block k t = l_block k s"
    "l_block_info_tbl t = (l_block_info_tbl s)(i := lu_blk_info (l_update s), p := info2)"
    "l_uid_map t = (l_uid_map s)(lu_uid (l_update s) := i)"
    "l_kept s t"
proof -
  let ?u = "l_update s"
  define s1 where "s1 = l_sealed L s"
  have "length (lu_block ?u) = L_BLK_SIZE" using s(1) by (simp add: l_ready_def)
  note s1 = l_sealed_stands [OF st, of L, folded s1_def] l_sealed_frame [OF this, of L, folded s1_def]
  have r1: "l_ready s1" using s1(4) s(1) by simp
  have len: "length (lu_block (l_update s1)) = L_BLK_SIZE" using r1 by (simp add: l_ready_def)
  have bounds: "i \<le> L_MAX_DATA_BLOCK" "p \<le> L_MAX_DATA_BLOCK" "p \<noteq> INVALID_BLOCK" using i(2) p(3) by (simp_all add: data_block_def)
  have run: "l_page_run L (l_update_uid_cmd_complete L s) = l_update_uid_cmd_write_finished L (l_stored LB_update_block i s1)"
    unfolding l_update_uid_cmd_complete i(1) [symmetric] s1_def [symmetric] by (rule l_written [OF P r1 bounds(1)])
  have u1: "lu_write_count (l_update s1) = 0" "lu_block_num (l_update s1) = i" "lu_blk_info (l_update s1) = lu_blk_info ?u"
    "lu_prev_block_num (l_update s1) = p" "lu_uid (l_update s1) = lu_uid ?u"
    using s(2) i(1) p(1) by (subst s1(2); simp)+
  define s2 where "s2 = (l_stored LB_update_block i s1)\<lparr>l_update := (l_update s1)\<lparr>lu_write_count := 1\<rparr>,
    l_block_info_tbl := (l_block_info_tbl s)(i := lu_blk_info ?u)\<rparr>"
  have blk2: "l_block k s2 = (if k = i then lu_block (l_update s1) else l_block k s)" for k
    using l_stored_block [OF len, of k i] l_core_fields(3) [OF s1(3)] by (simp add: s2_def l_block_def)
  have f2: "l_uid_map s2 = l_uid_map s" "l_block_info_tbl s2 = (l_block_info_tbl s)(i := lu_blk_info ?u)"
    "l_encrypt_key s2 = l_encrypt_key s" "l_root_page s2 = l_root_page s"
    using stored_simps l_core_fields [OF s1(3)] by (simp_all add: s2_def)
  have br: "l_brecs s2 p = l_brecs s p" using p(2) blk2 f2 by (simp add: l_brecs_def)
  have found: "l_found s2 (lu_uid ?u) p" using f p(2) blk2 f2 br by (simp add: l_found_def)
  obtain b info2 where d: "l_deallocate_uid (lu_uid ?u) True (lu_block (l_update s1)) (lu_blk_info ?u) s2 = Some (p, b, info2)"
    "stands_for info2 b ((l_brecs s2 p)(lu_uid ?u := None))"
    by (rule l_deallocate_uid [OF found len])
  define c where "c = blk_set_crc (l_block_crc L b) b"
  have c: "stands_for info2 c ((l_brecs s p)(lu_uid ?u := None))" unfolding c_def by (rule stands_for_crc [OF d(2) [unfolded br]])
  define s3 where "s3 = s2\<lparr>l_update := (l_update s2)\<lparr>lu_block := c, lu_blk_info := info2\<rparr>\<rparr>"
  have step: "l_update_uid_cmd_write_finished L (l_stored LB_update_block i s1)
      = Some (l_flash_write_page (BLOCK_ADDR p) (Some LB_update_block) (int L_BLK_SIZE) s3)"
    using u1 p(2) bounds(3) d(1)
    by (simp add: l_update_uid_cmd_write_finished_def Let_def l_upd_update_def stored_simps l_core_fields [OF s1(3)] s2_def s3_def c_def)
  have r3: "l_ready s3"
    using r1 c stored_simps(6,7,8) [of LB_update_block i s1]
    by (simp add: s3_def s2_def l_ready_def l_updating_def l_can_respond_def stands_for_def)
  have len3: "length (lu_block (l_update s3)) = L_BLK_SIZE" using r3 by (simp add: l_ready_def)
  note run3 = l_written [OF P r3 bounds(2)]
  define s4 where "s4 = (l_stored LB_update_block p s3)\<lparr>l_update := (l_update s3)\<lparr>lu_write_count := 2\<rparr>,
    l_block_info_tbl := (l_block_info_tbl s)(i := lu_blk_info ?u, p := info2), l_uid_map := (l_uid_map s)(lu_uid ?u := i)\<rparr>"
  have "i mod 256 = i" using bounds(1) by simp
  then have fin: "l_update_uid_cmd_write_finished L (l_stored LB_update_block p s3) = l_finish_command_resp OKAY s4"
    using u1 f2
    by (simp add: l_update_uid_cmd_write_finished_def Let_def l_upd_update_def stored_simps s4_def s3_def s2_def numeral_2_eq_2)
  have "l_can_respond s4"
    using r3 stored_simps(8) [of LB_update_block p s3] by (simp add: s4_def l_can_respond_def l_ready_def)
  then obtain t where t: "l_finish_command_resp OKAY s4 = Some t" "l_core t = l_core s4"
    "l_cmd_resp t ! 2 = word_of_nat (resp_code OKAY)" "l_raw_hid_tx_count t = 1" "l_rest t = l_rest s4" "l_can_respond t"
    by (rule l_finish_command_resp)
  note tc = l_core_fields [OF t(2)]
  have blk: "l_block k s4 = (if k = p then c else l_block k s2)" for k
    using l_stored_block [OF len3, of k p] by (simp add: s4_def s3_def l_block_def)
  have busy: "l_flash_state (l_flash_write_page (BLOCK_ADDR p) (Some LB_update_block) (int L_BLK_SIZE) s3) \<noteq> FLASH_IDLE"
    using r3 by (simp add: l_flash_write_page_def l_ready_def)
  show ?thesis
  proof (rule that)
    show "l_settle L (l_update_uid_cmd_complete L s) = Some t" unfolding l_settle_def run step using busy run3 fin t(1) by simp
    show "l_answered OKAY t" using t(3,4) by (simp add: l_answered_def)
    show "stands_for (lu_blk_info ?u) (l_block i t) R" using s1(1) tc(3) blk blk2 p(2) by simp
    show "stands_for info2 (l_block p t) ((l_brecs s p)(lu_uid ?u := None))" using c tc(3) blk by simp
    show "l_block k t = l_block k s" if "k \<noteq> i" "k \<noteq> p" for k using that tc(3) blk blk2 by simp
    have "snd (l_rest t) = snd (l_rest s)" "length (lu_block (l_update t)) = L_BLK_SIZE"
      using t(5) stored_simps(9) [of LB_update_block i s1] stored_simps(9) [of LB_update_block p s3] s1(5) len3
      by (simp_all add: s4_def s3_def s2_def l_rest_def)
    then show "l_kept s t" using t(6) tc stored_simps f2 by (simp add: l_kept_def s4_def s3_def)
  qed (use tc stored_simps f2 in \<open>simp_all add: s4_def s3_def\<close>)
qed

section \<open>The effect on the map\<close>

lemma l_db_core:
  assumes "l_core t = l_core s"
  shows "l_db_ok t = l_db_ok s" "l_view t = l_view s" "l_brecs t = l_brecs s" "l_update_block t = l_update_block s"
    "l_doubled t = l_doubled s" "l_found t uid i = l_found s uid i" "l_new_record L t = l_new_record L s"
proof -
  note f [simp] = l_core_fields [OF assms]
  show b: "l_brecs t = l_brecs s" by (simp add: fun_eq_iff l_brecs_def)
  then show "l_db_ok t = l_db_ok s" "l_view t = l_view s" "l_found t uid i = l_found s uid i"
    by (simp_all add: l_db_ok_def l_view_def l_found_def fun_eq_iff)
  have "l_alloc_larger_step p t = l_alloc_larger_step p s" for p by (simp add: fun_eq_iff l_alloc_larger_step_def)
  then have "l_alloc_exact p t = l_alloc_exact p s" "l_find_free_block t = l_find_free_block s" "l_alloc_larger p t = l_alloc_larger p s" for p
    by (simp_all only: l_alloc_exact_def l_find_free_block_def l_alloc_larger_def f(1))
  then have "l_choose_block p bt it t = l_choose_block p bt it s" for p bt it
    by (simp only: l_choose_block_def f)
  then show u: "l_update_block t = l_update_block s" by (simp add: fun_eq_iff l_update_block_def Let_def)
  then show "l_doubled t = l_doubled s" by (simp add: fun_eq_iff l_doubled_def)
  show "l_new_record L t = l_new_record L s" by (simp add: fun_eq_iff l_new_record_def)
qed

lemma l_commit:
  assumes P: "program_ok L" and ok: "l_db_ok s" and s: "l_ready s" "lu_write_count (l_update s) = 0"
    and uid: "uid = lu_uid (l_update s)" "uid_ok uid" and sz: "sz = lu_sz (l_update s)"
    and i: "lu_block_num (l_update s) = l_update_block s uid sz" "data_block (l_update_block s uid sz)"
    and prev: "lu_prev_block_num (l_update s) = (if sz = 0 then INVALID_BLOCK else l_uid_map s uid)"
    and new: "new = None \<longleftrightarrow> sz = 0"
    and st: "stands_for (lu_blk_info (l_update s)) (lu_block (l_update s)) ((l_brecs s (l_update_block s uid sz))(uid := new))"
  obtains t where "l_settle L (l_update_uid_cmd_complete L s) = Some t" "l_answered OKAY t" "l_kept s t" "l_db_ok t"
    "l_view t = (l_view s)(uid := new)"
proof -
  let ?i = "l_update_block s uid sz" and ?old = "l_uid_map s uid"
  note b = stands_for_brecs [OF ok]
  have i0: "?i \<noteq> INVALID_BLOCK" "?i \<le> L_MAX_DATA_BLOCK" using i(2) by (simp_all add: data_block_def)
  have owner: "l_brecs s k uid = None \<longleftrightarrow> l_uid_map s uid \<noteq> k" if "data_block k" for k
    using l_db_okD(4) [OF ok that uid(2)] by blast
  show ?thesis
  proof (cases "sz \<noteq> 0 \<and> ?old \<noteq> INVALID_BLOCK \<and> ?old \<noteq> ?i")
    case False
    let ?m = "if sz = 0 then INVALID_BLOCK else ?i"
    have p: "lu_prev_block_num (l_update s) = ?i \<or> lu_prev_block_num (l_update s) = INVALID_BLOCK"
      using False prev by auto
    obtain t where t: "l_settle L (l_update_uid_cmd_complete L s) = Some t" "l_answered OKAY t"
      "stands_for (lu_blk_info (l_update s)) (l_block ?i t) ((l_brecs s ?i)(uid := new))" "\<And>k. k \<noteq> ?i \<Longrightarrow> l_block k t = l_block k s"
      "l_block_info_tbl t = (l_block_info_tbl s)(?i := lu_blk_info (l_update s))"
      "l_uid_map t = (l_uid_map s)(uid := ?m)" "l_kept s t"
      by (rule l_commit_one [OF P s i(1) [symmetric] i(2) st p, folded uid(1) sz]) blast
    have old: "?old = ?i \<or> ?old = INVALID_BLOCK" using False by (auto simp: l_update_block_def)
    let ?new = "\<lambda>k. if k = ?i then new else None"
    have R: "stands_for (l_block_info_tbl t k) (l_block k t) ((l_brecs s k)(uid := ?new k))" if "data_block k" for k
    proof (cases "k = ?i")
      case False
      then have "l_brecs s k uid = None" using owner [OF that] old that by (auto simp: data_block_def)
      then have "(l_brecs s k)(uid := None) = l_brecs s k" by auto
      then show ?thesis using False b [OF that] t(4,5) by simp
    qed (use t(3,5) in simp)
    have own: "?new k \<noteq> None \<longleftrightarrow> ?m = k" if "data_block k" for k using that new i0 by (auto simp: data_block_def)
    have m: "?m \<le> L_MAX_DATA_BLOCK" using i0 by simp
    have "l_db_ok t" by (rule l_db_after(1) [OF ok uid(2) t(6) m], erule R, erule own)
    moreover have "l_view t = (l_view s)(uid := if ?m = INVALID_BLOCK then None else ?new ?m)"
      by (rule l_db_after(2) [OF ok uid(2) t(6) m], erule R, erule own)
    moreover have "(if ?m = INVALID_BLOCK then None else ?new ?m) = new" using new i0 by auto
    ultimately show ?thesis using that t(1,2,7) by simp
  next
    case True
    have p: "?old = lu_prev_block_num (l_update s)" using True prev by simp
    have d: "data_block ?old" by (rule l_db_okD(3) [OF ok uid(2)]) (use True in simp)
    have f: "l_found s (lu_uid (l_update s)) ?old" unfolding uid(1) [symmetric] by (rule l_found [OF ok uid(2)]) (use True in simp)
    have ne: "?old \<noteq> ?i" using True by simp
    obtain t info2 where t: "l_settle L (l_update_uid_cmd_complete L s) = Some t" "l_answered OKAY t"
      "stands_for (lu_blk_info (l_update s)) (l_block ?i t) ((l_brecs s ?i)(uid := new))"
      "stands_for info2 (l_block ?old t) ((l_brecs s ?old)(uid := None))"
      "\<And>k. k \<noteq> ?i \<Longrightarrow> k \<noteq> ?old \<Longrightarrow> l_block k t = l_block k s"
      "l_block_info_tbl t = (l_block_info_tbl s)(?i := lu_blk_info (l_update s), ?old := info2)"
      "l_uid_map t = (l_uid_map s)(uid := ?i)" "l_kept s t"
      by (rule l_commit_two [OF P s i(1) [symmetric] i(2) st p ne d f, folded uid(1)]) blast
    let ?new = "\<lambda>k. if k = ?i then new else None"
    have R: "stands_for (l_block_info_tbl t k) (l_block k t) ((l_brecs s k)(uid := ?new k))" if "data_block k" for k
    proof (cases "k = ?i \<or> k = ?old")
      case False
      then have "l_brecs s k uid = None" using owner [OF that] by auto
      then have "(l_brecs s k)(uid := None) = l_brecs s k" by auto
      then show ?thesis using False b [OF that] t(5,6) by simp
    qed (use t(3,4,6) ne in auto)
    have own: "?new k \<noteq> None \<longleftrightarrow> ?i = k" if "data_block k" for k using new True by auto
    have "l_db_ok t" by (rule l_db_after(1) [OF ok uid(2) t(7) i0(2)], erule R, erule own)
    moreover have "l_view t = (l_view s)(uid := if ?i = INVALID_BLOCK then None else ?new ?i)"
      by (rule l_db_after(2) [OF ok uid(2) t(7) i0(2)], erule R, erule own)
    ultimately show ?thesis using that t(1,2,8) i0(1) by simp
  qed
qed

end
