(* ===== verification/Legacy_Request.thy ===== *)
theory Legacy_Request
  imports Legacy_Refine
begin

text \<open>
  Requests of the original Signet: an update from the packet that asks for it to the response.
\<close>

section \<open>The request\<close>

text \<open>Logged in and idle, with the buffers of their sizes.\<close>

definition l_serving :: "lfw \<Rightarrow> bool" where
  "l_serving s \<longleftrightarrow>
     l_device_state s = DS_LOGGED_IN \<and> l_flash_state s = FLASH_IDLE \<and> l_can_respond s
   \<and> length (lu_block (l_update s)) = L_BLK_SIZE \<and> length (l_encrypt_key s) = 32 \<and> l_signature0 s = 2
   \<and> L_ROOT_PAGE_SIZE \<le> length (l_root_page s) \<and> \<not> l_waiting_for_button_press s \<and> \<not> l_waiting_for_long_button_press s"

text \<open>The packet buffer holds an \<open>UPDATE_UID\<close> or \<open>UPDATE_UIDS\<close> request.\<close>

definition l_update_request :: "lfw \<Rightarrow> nat \<Rightarrow> bytes \<Rightarrow> nat \<Rightarrow> bool" where
  "l_update_request s uid data sz \<longleftrightarrow>
     (let b = l_cmd_packet_buf s; n = SIZE_TO_SUB_BLK_COUNT sz * SUB_BLK_SIZE in
      length b = L_CMD_PACKET_BUF_SIZE \<and> int (unat (b ! 2)) \<in> {UPDATE_UID, UPDATE_UIDS}
    \<and> rd16 b 0 = CMD_PACKET_HEADER_SIZE + 4 + n \<and> 4 + n \<le> L_CMD_PACKET_PAYLOAD_SIZE
    \<and> rd16 (drop CMD_PACKET_HEADER_SIZE b) 0 = uid \<and> rd16 (drop CMD_PACKET_HEADER_SIZE b) 2 = sz
    \<and> slice b (CMD_PACKET_HEADER_SIZE + 4) n = data \<and> uid_ok uid)"

definition l_confirm :: "lenv \<Rightarrow> laction" where
  "l_confirm L s =
     (if l_waiting_for_button_press s then l_button_press L s
      else if l_waiting_for_long_button_press s then l_long_button_press L s else Some s)"

text \<open>The vector of a record.\<close>

definition l_iv :: "lfw \<Rightarrow> nat \<Rightarrow> bytes" where
  "l_iv s uid = l_derive_iv uid [] s"

lemma l_iv:
  assumes "l_serving s"
  shows "l_derive_iv uid iv s = l_iv s uid" "length (l_iv s uid) = 16"
  using assms by (simp_all add: l_serving_def l_iv_def l_derive_iv_def l_rp_get_def Let_def)

lemma l_iv_cong: "l_root_page t = l_root_page s \<Longrightarrow> l_iv t = l_iv s"
  by (simp add: fun_eq_iff l_iv_def l_derive_iv_def l_rp_get_def l_signature0_def Let_def)

text \<open>The database as the user sees it: decrypted.\<close>

definition l_dview :: "lenv \<Rightarrow> lfw \<Rightarrow> nat \<Rightarrow> (nat \<times> bytes) option" where
  "l_dview L s uid =
     map_option (\<lambda>(sz, c). (sz, stm_aes_256_decrypt_cbc (le_nettle L) (l_encrypt_key s) (SIZE_TO_SUB_BLK_COUNT sz) (Some (l_iv s uid)) c))
       (l_view s uid)"

lemma l_dview_update:
  assumes L: "nettle_ok (le_nettle L)" "length (l_encrypt_key s) = 32" "length (l_iv s uid) = 16"
    and t: "l_encrypt_key t = l_encrypt_key s" "l_root_page t = l_root_page s"
    and v: "l_view t = (l_view s)(uid := l_new_record L s (l_iv s uid) sz data)"
    and data: "length data = SIZE_TO_SUB_BLK_COUNT sz * SUB_BLK_SIZE"
  shows "l_dview L t = (l_dview L s)(uid := if sz = 0 then None else Some (sz, data))"
proof
  fix x
  note iv = l_iv_cong [OF t(2)]
  have inv: "stm_aes_256_decrypt_cbc (le_nettle L) (l_encrypt_key s) (SIZE_TO_SUB_BLK_COUNT sz) (Some (l_iv s uid))
      (stm_aes_256_encrypt_cbc (le_nettle L) (l_encrypt_key s) (SIZE_TO_SUB_BLK_COUNT sz) (Some (l_iv s uid)) data) = data"
    using cbc_256_inverse [OF L(1), of "l_encrypt_key s" "Some (l_iv s uid)" "SIZE_TO_SUB_BLK_COUNT sz" data "[]"] L(2,3) data
    by (simp add: stm_aes_256_cbc mult.commute)
  show "l_dview L t x = ((l_dview L s)(uid := if sz = 0 then None else Some (sz, data))) x"
    by (simp add: l_dview_def v iv t(1) l_new_record_def inv)
qed

section \<open>Longer buffers\<close>

text \<open>The content of the request lies in the packet buffer, which is longer.\<close>

lemma l_allocate_uid_blk_take:
  "n = SIZE_TO_SUB_BLK_COUNT sz * SUB_BLK_SIZE \<Longrightarrow> n \<le> length d
    \<Longrightarrow> l_allocate_uid_blk L uid d sz rv iv b info s = l_allocate_uid_blk L uid (take n d) sz rv iv b info s"
  by (simp add: l_allocate_uid_blk_def read_from_def slice_def Let_def)

lemma l_update_uid_take:
  assumes "n = SIZE_TO_SUB_BLK_COUNT sz * SUB_BLK_SIZE" "n \<le> length d"
  shows "l_update_uid L uid d sz prev iv bt it s = l_update_uid L uid (take n d) sz prev iv bt it s"
proof -
  note e = l_allocate_uid_blk_take [OF assms, symmetric]
  have "l_allocate_uid L uid (take n d) sz rv iv bt it s = l_allocate_uid L uid d sz rv iv bt it s" for rv bt it
    by (auto simp: l_allocate_uid_def e Let_def split: prod.split)
  then show ?thesis unfolding l_update_uid_def
    by (auto simp: e Let_def intro!: Option.bind_cong split: option.split prod.split)
qed

section \<open>No room\<close>

lemma l_update_refused:
  assumes ok: "l_db_ok s" and uid: "uid_ok uid" and bt: "length bt = L_BLK_SIZE" and no: "l_update_block s uid sz = INVALID_BLOCK"
  obtains prev b info where "l_update_uid L uid data sz p iv bt it s = Some (INVALID_BLOCK, prev, b, info)" "length b = L_BLK_SIZE"
proof -
  let ?p = "target_part_size sz"
  have b: "snd (l_choose_block ?p bt it' s) = (bt, it')" if "fst (l_choose_block ?p bt it' s) = INVALID_BLOCK" for it'
    using that l_alloc_exact [of ?p s] l_find_free_block [of s] l_alloc_larger [of ?p s]
    by (auto simp: l_choose_block_def Let_def data_block_def split: option.splits if_splits)
  have alloc: "l_allocate_uid L uid data sz rv iv bt it' s = Some (INVALID_BLOCK, bt, it')"
    if "?p \<noteq> 0 \<longrightarrow> fst (l_choose_block ?p bt it' s) = INVALID_BLOCK" for rv it'
    using that b [of it'] by (cases "l_choose_block ?p bt it' s") (auto simp: l_allocate_uid_def Let_def)
  have choose: "fst (l_choose_block ?p bt it' s) = fst (l_choose_block ?p [] (l_block_info_tbl s 0) s)" for it'
    by (rule fst_l_choose_block)
  show ?thesis
  proof (cases "l_uid_map s uid = INVALID_BLOCK")
    case True
    then have "l_find_uid uid s = None" by (simp add: l_find_uid_def)
    then show ?thesis using that bt True no alloc [of it 0] choose [of it]
      by (auto simp: l_update_uid_def l_update_block_def l_deallocate_uid_def Let_def split: if_splits)
  next
    case False
    obtain j where "l_find_uid uid s = Some (l_uid_map s uid, j)" by (rule l_find_uid [OF l_found [OF ok uid False]])
    then show ?thesis using that bt False no alloc choose
      by (auto simp: l_update_uid_def l_update_block_def Let_def split: if_splits)
  qed
qed

section \<open>From the request to the button\<close>

definition l_await :: "lenv \<Rightarrow> nat \<Rightarrow> lfw \<Rightarrow> lfw" where
  "l_await L press s =
     (if press = 0 then l_update_uid_cmd_complete L s
      else if press = 1 then l_begin_button_press_wait s else l_begin_long_button_press_wait s)"

text \<open>\<open>cmd_data.update_uid\<close> when the search for a block begins.\<close>

definition l_request_data :: "lfw \<Rightarrow> nat \<Rightarrow> nat \<Rightarrow> l_update_data" where
  "l_request_data s uid sz =
     (l_update s)\<lparr>lu_iv := l_iv s uid, lu_uid := uid, lu_sz := sz, lu_write_count := 0, lu_prev_block_num := INVALID_BLOCK\<rparr>"

lemma l_update_uid_cmd_planned:
  fixes s :: lfw and uid sz :: nat
  defines "u1 \<equiv> l_request_data s uid sz"
  assumes s: "l_serving s" and d: "n = SIZE_TO_SUB_BLK_COUNT sz * SUB_BLK_SIZE" "n \<le> length d"
    and plan: "l_update_uid L uid (take n d) sz INVALID_BLOCK (l_iv s uid) (lu_block u1) (lu_blk_info u1) (s\<lparr>l_update := u1\<rparr>)
      = Some (i, prev, b, info)" "i \<noteq> INVALID_BLOCK"
  shows "l_update_uid_cmd L uid d sz press s
    = Some (l_await L press (s\<lparr>l_update := u1\<lparr>lu_block_num := i, lu_prev_block_num := prev, lu_block := b, lu_blk_info := info\<rparr>\<rparr>))"
proof -
  let ?s1 = "s\<lparr>l_update := u1\<rparr>"
  have e1: "l_upd_update (\<lambda>u. u\<lparr>lu_iv := l_derive_iv uid (lu_iv u) s, lu_uid := uid, lu_sz := sz, lu_write_count := 0,
      lu_prev_block_num := INVALID_BLOCK\<rparr>) s = ?s1"
    by (simp add: l_upd_update_def u1_def l_request_data_def l_iv(1) [OF s])
  have "lu_iv u1 = l_iv s uid" by (simp add: u1_def l_request_data_def)
  then show ?thesis
    unfolding l_update_uid_cmd_def Let_def e1 using plan l_update_uid_take [OF d] by (simp add: l_upd_update_def l_await_def)
qed

lemma l_update_uid_cmd:
  assumes ok: "l_db_ok s" and s: "l_serving s" and uid: "uid_ok uid" and sz: "sz < 65536" and L: "nettle_ok (le_nettle L)"
    and d: "n = SIZE_TO_SUB_BLK_COUNT sz * SUB_BLK_SIZE" "n \<le> length d"
    and room: "l_update_block s uid sz \<noteq> INVALID_BLOCK" "\<not> l_doubled s uid sz"
  obtains u where "l_update_uid_cmd L uid d sz press s = Some (l_await L press (s\<lparr>l_update := u\<rparr>))"
    "lu_uid u = uid" "lu_sz u = sz" "lu_write_count u = 0" "lu_block_num u = l_update_block s uid sz"
    "data_block (l_update_block s uid sz)"
    "lu_prev_block_num u = (if sz = 0 then INVALID_BLOCK else l_uid_map s uid)"
    "stands_for (lu_blk_info u) (lu_block u) ((l_brecs s (l_update_block s uid sz))(uid := l_new_record L s (l_iv s uid) sz (take n d)))"
proof -
  let ?u1 = "l_request_data s uid sz"
  let ?s1 = "s\<lparr>l_update := ?u1\<rparr>"
  have core: "l_core ?s1 = l_core s" by (simp add: l_core_def)
  have dl: "length (take n d) = SIZE_TO_SUB_BLK_COUNT sz * SUB_BLK_SIZE" using d by simp
  have key: "length (l_encrypt_key ?s1) = 32" and bt: "length (lu_block ?u1) = L_BLK_SIZE"
    using s by (simp_all add: l_request_data_def l_serving_def)
  obtain b info where b: "l_update_uid L uid (take n d) sz INVALID_BLOCK (l_iv s uid) (lu_block ?u1) (lu_blk_info ?u1) ?s1
      = Some (l_update_block ?s1 uid sz, if sz = 0 then INVALID_BLOCK else l_uid_map ?s1 uid, b, info)"
    "data_block (l_update_block ?s1 uid sz)"
    "stands_for info b ((l_brecs ?s1 (l_update_block ?s1 uid sz))(uid := l_new_record L ?s1 (l_iv s uid) sz (take n d)))"
    by (rule l_update_plan [where s = ?s1, OF _ uid sz dl L key l_iv(2) [OF s] bt])
      (use ok room in \<open>simp_all add: l_db_core [OF core]\<close>)
  note e = l_db_core [OF core] l_core_fields(2) [OF core]
  show ?thesis
    by (rule that [OF l_update_uid_cmd_planned [OF s d b(1) [unfolded e] room(1)]])
      (use b(2,3) in \<open>simp_all only: e\<close>, simp_all add: l_request_data_def)
qed

lemma l_confirm_await:
  assumes s: "\<not> l_waiting_for_button_press s" "\<not> l_waiting_for_long_button_press s" "l_updating s"
    and press: "press \<in> {0, 1, 2}" "press = 1 \<longrightarrow> l_active_cmd s = UPDATE_UID" "press = 2 \<longrightarrow> l_active_cmd s = UPDATE_UIDS"
  obtains s3 where "l_confirm L ((l_await L press s)\<lparr>l_cmd_iter_count := k\<rparr>) = Some (l_update_uid_cmd_complete L s3)"
    "l_core s3 = l_core s" "l_rest s3 = l_rest s" "l_can_respond s3 = l_can_respond s" "l_updating s3"
proof -
  consider "press = 0" | "press = 1" | "press = 2" using press(1) by auto
  then show ?thesis
  proof cases
    case 1
    show ?thesis
    proof (rule that [of "s\<lparr>l_cmd_iter_count := k\<rparr>"])
      show "l_confirm L ((l_await L press s)\<lparr>l_cmd_iter_count := k\<rparr>) = Some (l_update_uid_cmd_complete L (s\<lparr>l_cmd_iter_count := k\<rparr>))"
        using s(1,2) 1
        by (simp add: l_confirm_def l_await_def l_update_uid_cmd_complete_def l_upd_update_def l_flash_write_page_def Let_def)
    qed (use s in \<open>simp_all add: l_core_def l_rest_def l_can_respond_def l_updating_def\<close>)
  next
    case 2
    define s3 where "s3 = l_end_button_press_wait ((l_begin_button_press_wait s)\<lparr>l_cmd_iter_count := k\<rparr>)"
    show ?thesis
    proof (rule that [of s3])
      show "l_confirm L ((l_await L press s)\<lparr>l_cmd_iter_count := k\<rparr>) = Some (l_update_uid_cmd_complete L s3)"
        using 2 press(2) by (simp add: l_confirm_def l_await_def l_button_press_def s3_def Let_def l_begin_button_press_wait_def
            l_start_blinking_def l_led_on_def l_led_off_def put_lout_def l_end_button_press_wait_def l_stop_blinking_def)
    qed (use s in \<open>simp_all add: s3_def l_begin_button_press_wait_def l_start_blinking_def l_led_on_def l_led_off_def put_lout_def
        l_end_button_press_wait_def l_stop_blinking_def l_core_def l_rest_def l_can_respond_def l_updating_def\<close>)
  next
    case 3
    define s3 where "s3 = l_end_long_button_press_wait ((l_begin_long_button_press_wait s)\<lparr>l_cmd_iter_count := k\<rparr>)"
    show ?thesis
    proof (rule that [of s3])
      show "l_confirm L ((l_await L press s)\<lparr>l_cmd_iter_count := k\<rparr>) = Some (l_update_uid_cmd_complete L s3)"
        using 3 s(1) press(3) by (simp add: l_confirm_def l_await_def l_long_button_press_def s3_def Let_def l_begin_long_button_press_wait_def
            l_start_blinking_def l_led_on_def l_led_off_def put_lout_def l_end_long_button_press_wait_def l_stop_blinking_def)
    qed (use s in \<open>simp_all add: s3_def l_begin_long_button_press_wait_def l_start_blinking_def l_led_on_def l_led_off_def put_lout_def
        l_end_long_button_press_wait_def l_stop_blinking_def l_core_def l_rest_def l_can_respond_def l_updating_def\<close>)
  qed
qed

lemma l_update_uid_cmd_refused:
  assumes ok: "l_db_ok s" and s: "l_serving s" and uid: "uid_ok uid" and no: "l_update_block s uid sz = INVALID_BLOCK"
  obtains u where "l_update_uid_cmd L uid d sz press s = l_finish_command_resp NOT_ENOUGH_SPACE (s\<lparr>l_update := u\<rparr>)"
    "length (lu_block u) = L_BLK_SIZE"
proof -
  define u1 where "u1 = (l_update s)\<lparr>lu_iv := l_iv s uid, lu_uid := uid, lu_sz := sz, lu_write_count := 0, lu_prev_block_num := INVALID_BLOCK\<rparr>"
  define s1 where "s1 = s\<lparr>l_update := u1\<rparr>"
  have core: "l_core s1 = l_core s" by (simp add: s1_def l_core_def)
  have bt: "length (lu_block u1) = L_BLK_SIZE" using s by (simp add: u1_def l_serving_def)
  obtain prev b info where plan: "l_update_uid L uid d sz INVALID_BLOCK (l_iv s uid) (lu_block u1) (lu_blk_info u1) s1 = Some (INVALID_BLOCK, prev, b, info)"
    "length b = L_BLK_SIZE"
    by (rule l_update_refused [where s = s1, OF _ uid bt]) (use ok no in \<open>simp_all add: l_db_core [OF core]\<close>)
  have e1: "l_upd_update (\<lambda>u. u\<lparr>lu_iv := l_derive_iv uid (lu_iv u) s, lu_uid := uid, lu_sz := sz, lu_write_count := 0,
      lu_prev_block_num := INVALID_BLOCK\<rparr>) s = s1"
    by (simp add: l_upd_update_def s1_def u1_def l_iv(1) [OF s])
  have "l_update s1 = u1" "lu_iv u1 = l_iv s uid" by (simp_all add: s1_def u1_def)
  then have "l_update_uid_cmd L uid d sz press s = l_finish_command_resp NOT_ENOUGH_SPACE
      (s\<lparr>l_update := u1\<lparr>lu_block_num := INVALID_BLOCK, lu_prev_block_num := prev, lu_block := b, lu_blk_info := info\<rparr>\<rparr>)"
    unfolding l_update_uid_cmd_def Let_def e1 using plan(1) by (simp add: l_upd_update_def) (simp add: s1_def)
  then show ?thesis by (rule that) (simp add: plan(2))
qed

section \<open>The packet\<close>

text \<open>A request that is not one of the commands every state knows goes to the handler of the logged in state.\<close>

lemma l_cmd_packet_recv_serving:
  assumes s: "l_serving s" and cmd: "cmd = int (unat (l_cmd_packet_buf s ! 2))"
    "cmd \<notin> {DISCONNECT, STARTUP, GET_DEVICE_STATE, CANCEL_BUTTON_PRESS}"
    and len: "len = int (rd16 (l_cmd_packet_buf s) 0) - int CMD_PACKET_HEADER_SIZE" "len \<le> int L_CMD_PACKET_PAYLOAD_SIZE"
  obtains s1 m where "l_core s1 = l_core s" "l_rest s1 = l_rest s" "l_can_respond s1" "l_active_cmd s1 = cmd"
    "l_device_state s1 = DS_LOGGED_IN" "l_read s1 = l_read s"
    "l_cmd_packet_recv L s = do {
      (known, s) \<leftarrow> l_logged_in_state L (drop CMD_PACKET_HEADER_SIZE (l_cmd_packet_buf s)) len s1;
      s \<leftarrow> (if \<not> known then l_finish_command_resp INVALID_STATE s else Some s);
      Some (s\<lparr>l_cmd_iter_count := (if m then l_cmd_iter_count s + 1 else l_cmd_iter_count s)\<rparr>)
    }"
proof -
  define b where "b = l_cmd_packet_buf s"
  define mr where "mr = rd16 b 3"
  define s0 where "s0 = (if l_active_cmd s \<noteq> cmd then s\<lparr>l_cmd_iter_count := 0\<rparr> else s)"
  define s1 where "s1 = s0\<lparr>l_active_cmd := cmd, l_cmd_messages_remaining := mr\<rparr>"
  have w: "\<not> l_waiting_for_button_press s" "\<not> l_waiting_for_long_button_press s" using s by (simp_all add: l_serving_def)
  have same: "l_core s1 = l_core s" "l_rest s1 = l_rest s" "l_can_respond s1" "l_active_cmd s1 = cmd" "l_device_state s1 = DS_LOGGED_IN"
    "l_read s1 = l_read s"
    using s by (simp_all add: s1_def s0_def l_core_def l_rest_def l_can_respond_def l_serving_def)
  have iter: "(if mr \<noteq> 0 then s\<lparr>l_cmd_iter_count := l_cmd_iter_count s + 1\<rparr> else s)
      = s\<lparr>l_cmd_iter_count := (if mr \<noteq> 0 then l_cmd_iter_count s + 1 else l_cmd_iter_count s)\<rparr>" for s :: lfw
    by simp
  have run: "l_run_state_command L d n s1 = l_logged_in_state L d n s1" for d n
    using same(5) by (simp add: l_run_state_command_def)
  have cmdb: "int (unat (b ! 2)) = cmd" by (simp add: cmd(1) b_def)
  have recv: "l_cmd_packet_recv L s = do {
      (known, s) \<leftarrow> l_run_state_command L (drop 6 b) len s1;
      s \<leftarrow> (if \<not> known then l_finish_command_resp INVALID_STATE s else Some s);
      Some (if mr \<noteq> 0 then s\<lparr>l_cmd_iter_count := l_cmd_iter_count s + 1\<rparr> else s)
    }"
    using cmd(2) w len [folded b_def] unfolding l_cmd_packet_recv_def b_def [symmetric] cmdb mr_def [symmetric] Let_def
      s0_def [symmetric] s1_def [symmetric] by auto
  show ?thesis by (rule that [OF same recv [unfolded iter run b_def]])
qed

lemma l_cmd_packet_recv_update:
  assumes s: "l_serving s" and r: "l_update_request s uid data sz"
  obtains s1 press m where "l_core s1 = l_core s" "l_rest s1 = l_rest s" "l_can_respond s1" "l_updating s1"
    "press \<in> {0, 1, 2}" "press = 1 \<longrightarrow> l_active_cmd s1 = UPDATE_UID" "press = 2 \<longrightarrow> l_active_cmd s1 = UPDATE_UIDS"
    "\<And>s0. l_update_uid_cmd L uid (drop 10 (l_cmd_packet_buf s)) sz press s1 = Some s0
      \<Longrightarrow> l_cmd_packet_recv L s = Some (s0\<lparr>l_cmd_iter_count := (if m then l_cmd_iter_count s0 + 1 else l_cmd_iter_count s0)\<rparr>)"
proof -
  define b where "b = l_cmd_packet_buf s"
  define cmd where "cmd = int (unat (b ! 2))"
  define n where "n = SIZE_TO_SUB_BLK_COUNT sz * SUB_BLK_SIZE"
  have cmd: "cmd = UPDATE_UID \<or> cmd = UPDATE_UIDS" and len: "int (rd16 b 0) - int CMD_PACKET_HEADER_SIZE = 4 + int n"
    "4 + n \<le> L_CMD_PACKET_PAYLOAD_SIZE" and f: "rd16 (drop 6 b) 0 = uid" "rd16 (drop 6 b) 2 = sz" "uid_ok uid"
    using r by (auto simp: l_update_request_def b_def cmd_def n_def Let_def)
  obtain s1 m where s1: "l_core s1 = l_core s" "l_rest s1 = l_rest s" "l_can_respond s1" "l_active_cmd s1 = cmd" "l_device_state s1 = DS_LOGGED_IN"
    and recv: "l_cmd_packet_recv L s = do {
      (known, s) \<leftarrow> l_logged_in_state L (drop 6 b) (4 + int n) s1;
      s \<leftarrow> (if \<not> known then l_finish_command_resp INVALID_STATE s else Some s);
      Some (s\<lparr>l_cmd_iter_count := (if m then l_cmd_iter_count s + 1 else l_cmd_iter_count s)\<rparr>)
    }"
    unfolding b_def
    by (rule l_cmd_packet_recv_serving [OF s cmd_def [unfolded b_def], of "4 + int n" L]) (use cmd len in \<open>auto simp: b_def\<close>)
  define press :: nat where "press = (if l_active_cmd s1 = UPDATE_UID then 1 else if l_cmd_iter_count s1 = 0 then 2 else 0)"
  have req: "l_update_uid_request L (drop 6 b) (4 + int n) s1 = l_update_uid_cmd L uid (drop 10 b) sz press s1"
    using f by (simp add: l_update_uid_request_def n_def press_def uid_ok_def Let_def)
  have run: "l_logged_in_state L (drop 6 b) (4 + int n) s1 = map_option (Pair True) (l_update_uid_cmd L uid (drop 10 b) sz press s1)"
    using cmd s1(4) by (auto simp: l_logged_in_state_def l_handled_def req Let_def)
  show ?thesis
  proof (rule that [of s1 press m, OF s1(1-3)])
    show "l_updating s1" using cmd s1(4,5) by (auto simp: l_updating_def)
    show "l_cmd_packet_recv L s = Some (s0\<lparr>l_cmd_iter_count := (if m then l_cmd_iter_count s0 + 1 else l_cmd_iter_count s0)\<rparr>)"
      if "l_update_uid_cmd L uid (drop 10 (l_cmd_packet_buf s)) sz press s1 = Some s0" for s0
      unfolding recv run using that by (simp add: b_def)
  qed (use cmd s1(4) in \<open>auto simp: press_def\<close>)
qed

section \<open>The theorem\<close>

lemma l_serving_kept: "l_serving s \<Longrightarrow> l_kept s t \<Longrightarrow> l_serving t"
  by (auto simp: l_serving_def l_kept_def l_rest_def l_signature0_def)

lemma l_dview_core: "l_core t = l_core s \<Longrightarrow> l_dview L t = l_dview L s"
  using l_db_core(2) [of t s] l_core_fields(5) [of t s] l_iv_cong [OF l_core_fields(6), of t s] by (simp add: fun_eq_iff l_dview_def)

lemma l_iter_count [simp]:
  "l_core (t\<lparr>l_cmd_iter_count := k\<rparr>) = l_core t" "l_kept s (t\<lparr>l_cmd_iter_count := k\<rparr>) = l_kept s t"
  "l_answered r (t\<lparr>l_cmd_iter_count := k\<rparr>) = l_answered r t"
  by (simp_all add: l_core_def l_kept_def l_answered_def l_can_respond_def l_rest_def)

lemma l_update_no_room:
  assumes "l_db_ok s" "l_serving s" "uid_ok uid" "l_update_block s uid sz = INVALID_BLOCK"
  obtains t where "l_update_uid_cmd L uid d sz press s = Some t" "l_answered NOT_ENOUGH_SPACE t" "l_core t = l_core s" "l_kept s t"
proof -
  obtain u where u: "l_update_uid_cmd L uid d sz press s = l_finish_command_resp NOT_ENOUGH_SPACE (s\<lparr>l_update := u\<rparr>)"
    "length (lu_block u) = L_BLK_SIZE"
    by (rule l_update_uid_cmd_refused [OF assms])
  have "l_can_respond (s\<lparr>l_update := u\<rparr>)" using assms(2) by (simp add: l_can_respond_def l_serving_def)
  then obtain t where t: "l_finish_command_resp NOT_ENOUGH_SPACE (s\<lparr>l_update := u\<rparr>) = Some t" "l_core t = l_core (s\<lparr>l_update := u\<rparr>)"
    "l_cmd_resp t ! 2 = word_of_nat (resp_code NOT_ENOUGH_SPACE)" "l_raw_hid_tx_count t = 1" "l_rest t = l_rest (s\<lparr>l_update := u\<rparr>)" "l_can_respond t"
    by (rule l_finish_command_resp)
  have core: "l_core t = l_core s" using t(2) by (simp add: l_core_def)
  have "l_kept s t" using assms(2) t(5,6) u(2) l_core_fields [OF core] by (simp add: l_kept_def l_serving_def l_rest_def)
  then show ?thesis using that t(1,3,4) u(1) core by (simp add: l_answered_def)
qed

lemma l_update_runs:
  assumes P: "program_ok L" and N: "nettle_ok (le_nettle L)" and ok: "l_db_ok s" and sv: "l_serving s" and up: "l_updating s"
    and uid: "uid_ok uid" and sz: "sz < 65536" and d: "n = SIZE_TO_SUB_BLK_COUNT sz * SUB_BLK_SIZE" "n \<le> length d"
    and room: "l_update_block s uid sz \<noteq> INVALID_BLOCK" "\<not> l_doubled s uid sz"
    and press: "press \<in> {0, 1, 2}" "press = 1 \<longrightarrow> l_active_cmd s = UPDATE_UID" "press = 2 \<longrightarrow> l_active_cmd s = UPDATE_UIDS"
  obtains t0 where "l_update_uid_cmd L uid d sz press s = Some t0"
    "\<And>k. \<exists>t2 t. l_confirm L (t0\<lparr>l_cmd_iter_count := k\<rparr>) = Some t2 \<and> l_settle L t2 = Some t \<and> l_answered OKAY t \<and> l_kept s t
      \<and> l_db_ok t \<and> l_view t = (l_view s)(uid := l_new_record L s (l_iv s uid) sz (take n d))"
proof -
  let ?new = "l_new_record L s (l_iv s uid) sz (take n d)"
  obtain u where u: "l_update_uid_cmd L uid d sz press s = Some (l_await L press (s\<lparr>l_update := u\<rparr>))"
    "lu_uid u = uid" "lu_sz u = sz" "lu_write_count u = 0" "lu_block_num u = l_update_block s uid sz" "data_block (l_update_block s uid sz)"
    "lu_prev_block_num u = (if sz = 0 then INVALID_BLOCK else l_uid_map s uid)"
    "stands_for (lu_blk_info u) (lu_block u) ((l_brecs s (l_update_block s uid sz))(uid := ?new))"
    by (rule l_update_uid_cmd [OF ok sv uid sz N d room])
  define s2 where "s2 = s\<lparr>l_update := u\<rparr>"
  have w: "\<not> l_waiting_for_button_press s2" "\<not> l_waiting_for_long_button_press s2" "l_updating s2"
    using sv up by (simp_all add: s2_def l_serving_def l_updating_def)
  have pr: "press = 1 \<longrightarrow> l_active_cmd s2 = UPDATE_UID" "press = 2 \<longrightarrow> l_active_cmd s2 = UPDATE_UIDS"
    using press(2,3) by (simp_all add: s2_def)
  have "\<exists>t2 t. l_confirm L ((l_await L press s2)\<lparr>l_cmd_iter_count := k\<rparr>) = Some t2 \<and> l_settle L t2 = Some t \<and> l_answered OKAY t
      \<and> l_kept s t \<and> l_db_ok t \<and> l_view t = (l_view s)(uid := ?new)" for k
  proof -
    obtain s3 where s3: "l_confirm L ((l_await L press s2)\<lparr>l_cmd_iter_count := k\<rparr>) = Some (l_update_uid_cmd_complete L s3)"
      "l_core s3 = l_core s2" "l_rest s3 = l_rest s2" "l_can_respond s3 = l_can_respond s2" "l_updating s3"
      by (rule l_confirm_await [OF w press(1) pr])
    have core: "l_core s3 = l_core s" using s3(2) by (simp add: s2_def l_core_def)
    note d3 = l_db_core [OF core] and c3 = l_core_fields [OF core]
    have up: "l_update s3 = u" using s3(3) by (simp add: s2_def l_rest_def)
    have ready: "l_ready s3"
      using s3(4,5) u(8) sv c3(7) up by (simp add: l_ready_def s2_def l_can_respond_def l_serving_def stands_for_def)
    have st: "stands_for (lu_blk_info (l_update s3)) (lu_block (l_update s3)) ((l_brecs s3 (l_update_block s3 uid sz))(uid := ?new))"
      using u(8) d3 up by simp
    obtain t where t: "l_settle L (l_update_uid_cmd_complete L s3) = Some t" "l_answered OKAY t" "l_kept s3 t" "l_db_ok t"
      "l_view t = (l_view s3)(uid := ?new)"
      by (rule l_commit [OF P _ ready _ _ uid _ _ _ _ _ st]) (use ok u up d3 c3 in \<open>simp_all add: l_new_record_def\<close>)
    have "l_kept s t" using t(3) c3 s3(3) by (simp add: l_kept_def s2_def l_rest_def)
    then show ?thesis using s3(1) t d3 by auto
  qed
  then show ?thesis using that [OF u(1) [folded s2_def]] by blast
qed

text \<open>
  C2. An update of a record in the original Signet, from the packet to the response. Whatever the state of the
  database (\<open>l_db_ok\<close>: any blocks of any of the eleven partition sizes), an \<open>UPDATE_UID\<close> or
  \<open>UPDATE_UIDS\<close> request is answered: with \<open>NOT_ENOUGH_SPACE\<close>, nothing changed, if no block can
  take the record (or a record to be deleted is not there); else, after the press of the button it
  asks for and one or two writes of flash pages, each an erase and eight rounds of the main loop, with
  \<open>OKAY\<close>, and then the database that the user sees, the map from uids to decrypted records, has
  changed at this uid only: the record is deleted, or has the new size and content. The device is then ready for
  the next request. One case is excluded, \<open>l_doubled\<close>: that the last resort of the search for a block
  finds the block that already holds the record. Then the update is lost (theory \<open>Legacy_Lost\<close>).
\<close>

theorem legacy_update_refines:
  assumes "program_ok L" and "nettle_ok (le_nettle L)"
    and "l_db_ok s" and "l_serving s" and "l_update_request s uid data sz" and "\<not> l_doubled s uid sz"
  shows "if l_update_block s uid sz = INVALID_BLOCK
    then \<exists>t. l_cmd_packet_recv L s = Some t \<and> l_answered NOT_ENOUGH_SPACE t \<and> l_db_ok t \<and> l_serving t \<and> l_dview L t = l_dview L s
    else \<exists>t1 t2 t. l_cmd_packet_recv L s = Some t1 \<and> l_confirm L t1 = Some t2 \<and> l_settle L t2 = Some t
      \<and> l_answered OKAY t \<and> l_db_ok t \<and> l_serving t
      \<and> l_dview L t = (l_dview L s)(uid := if sz = 0 then None else Some (sz, data))"
proof -
  note P = assms(1) and N = assms(2) and ok = assms(3) and s = assms(4) and r = assms(5) and nd = assms(6)
  let ?d = "drop 10 (l_cmd_packet_buf s)"
  define n where "n = SIZE_TO_SUB_BLK_COUNT sz * SUB_BLK_SIZE"
  have uid: "uid_ok uid" and sz: "sz < 65536" and n: "n \<le> length ?d" and data: "take n ?d = data"
    using r rd16_less [of "drop 6 (l_cmd_packet_buf s)" 2] by (auto simp: l_update_request_def n_def slice_def Let_def)
  obtain s1 press m where s1: "l_core s1 = l_core s" "l_rest s1 = l_rest s" "l_can_respond s1" "l_updating s1"
    and press: "press \<in> {0, 1, 2}" "press = 1 \<longrightarrow> l_active_cmd s1 = UPDATE_UID" "press = 2 \<longrightarrow> l_active_cmd s1 = UPDATE_UIDS"
    and recv: "\<And>s0. l_update_uid_cmd L uid ?d sz press s1 = Some s0
      \<Longrightarrow> l_cmd_packet_recv L s = Some (s0\<lparr>l_cmd_iter_count := (if m then l_cmd_iter_count s0 + 1 else l_cmd_iter_count s0)\<rparr>)"
    by (rule l_cmd_packet_recv_update [OF s r]) blast
  note c = l_core_fields [OF s1(1)] and d = l_db_core [OF s1(1)]
  have kept: "l_kept s t" if "l_kept s1 t" for t using that s1(2) c by (simp add: l_kept_def)
  have sv1: "l_serving s1" using s s1(2,3) c by (simp add: l_serving_def l_rest_def l_signature0_def)
  have ok1: "l_db_ok s1" using ok d by simp
  show ?thesis
  proof (cases "l_update_block s uid sz = INVALID_BLOCK")
    case True
    obtain t where t: "l_update_uid_cmd L uid ?d sz press s1 = Some t" "l_answered NOT_ENOUGH_SPACE t" "l_core t = l_core s1" "l_kept s1 t"
      by (rule l_update_no_room [OF ok1 sv1 uid]) (use True d in simp)
    let ?t = "t\<lparr>l_cmd_iter_count := (if m then l_cmd_iter_count t + 1 else l_cmd_iter_count t)\<rparr>"
    have core: "l_core ?t = l_core s" using t(3) s1(1) by simp
    have "l_serving ?t" by (rule l_serving_kept [OF s]) (use kept [OF t(4)] in simp)
    then show ?thesis using True recv [OF t(1)] t(2) ok l_db_core(1) [OF core] l_dview_core [OF core] by auto
  next
    case False
    have room: "l_update_block s1 uid sz \<noteq> INVALID_BLOCK" "\<not> l_doubled s1 uid sz" using False d nd by simp_all
    obtain t0 where t0: "l_update_uid_cmd L uid ?d sz press s1 = Some t0"
      "\<And>k. \<exists>t2 t. l_confirm L (t0\<lparr>l_cmd_iter_count := k\<rparr>) = Some t2 \<and> l_settle L t2 = Some t \<and> l_answered OKAY t \<and> l_kept s1 t
        \<and> l_db_ok t \<and> l_view t = (l_view s1)(uid := l_new_record L s1 (l_iv s1 uid) sz (take n ?d))"
      by (rule l_update_runs [OF P N ok1 sv1 s1(4) uid sz n_def n room press]) blast
    then obtain t2 t where t: "l_confirm L (t0\<lparr>l_cmd_iter_count := (if m then l_cmd_iter_count t0 + 1 else l_cmd_iter_count t0)\<rparr>) = Some t2"
      "l_settle L t2 = Some t" "l_answered OKAY t" "l_kept s1 t" "l_db_ok t"
      "l_view t = (l_view s)(uid := l_new_record L s (l_iv s uid) sz data)"
      unfolding data d l_iv_cong [OF c(6)] by blast
    have "l_dview L t = (l_dview L s)(uid := if sz = 0 then None else Some (sz, data))"
      by (rule l_dview_update [OF N _ l_iv(2) [OF s] _ _ t(6)]) (use s kept [OF t(4)] data n n_def in \<open>auto simp: l_serving_def l_kept_def\<close>)
    then show ?thesis using False recv [OF t0(1)] t l_serving_kept [OF s kept [OF t(4)]] by auto
  qed
qed

text \<open>A device with an empty database that is asked to store five bytes under the uid 7.\<close>

definition l_env_example :: lenv where
  "l_env_example = \<lparr>le_nettle = nettle_xor, le_crc_reset = 0, le_crc_feed = (XOR), le_low_mem = [],
     le_program = (\<lambda>pg off d. (splice pg off d, True))\<rparr>"

definition l_packet_example :: bytes where
  "l_packet_example = [26, 0, 31, 0, 0, 0, 7, 0, 5, 0] @ replicate 16 42 @ replicate 2097 0"

definition l_example :: "lfw \<Rightarrow> lfw" where
  "l_example s = s\<lparr>l_device_state := DS_LOGGED_IN, l_cmd_packet_buf := l_packet_example, l_cmd_resp := replicate 2123 0,
     l_encrypt_key := replicate 32 1, l_root_page := 2 # replicate 1207 0, l_waiting_for_button_press := False,
     l_waiting_for_long_button_press := False, l_update := (l_update s)\<lparr>lu_block := replicate 2048 0\<rparr>,
     l_block_info_tbl := (\<lambda>_. \<lparr>bi_valid = True, bi_occupied = False, bi_part_count = 0, bi_part_occupancy = 0, bi_part_size = 65535, bi_part_tbl_offs = 0\<rparr>),
     l_uid_map := (\<lambda>_. 0), l_flash_state := FLASH_IDLE, l_flash := (\<lambda>_. replicate 2048 255),
     l_raw_hid_tx_cmd_packet := replicate 64 0, l_raw_hid_tx_event_packet := replicate 64 0, l_event_data := (\<lambda>_. LE_null)\<rparr>"

lemma l_example_db: "l_db_ok (l_example s)" "l_serving (l_example s)"
proof -
  have "\<not> in_use (l_block_info_tbl (l_example s) i)" for i by (simp add: l_example_def in_use_def)
  moreover have "length (l_block i (l_example s)) = L_BLK_SIZE" "l_uid_map (l_example s) u = 0" for i u
    by (simp_all add: l_example_def l_block_def)
  ultimately show "l_db_ok (l_example s)" by (auto simp: l_db_ok_def l_brecs_def data_block_def)
  show "l_serving (l_example s)" by (simp add: l_serving_def l_example_def l_can_respond_def l_signature0_def)
qed

lemma l_example_request: "l_update_request (l_example s) 7 (replicate 16 42) 5" "l_update_block (l_example s) 7 5 = 1"
proof -
  have b: "l_cmd_packet_buf (l_example s) = l_packet_example" by (simp add: l_example_def)
  have h: "length l_packet_example = 2123" "l_packet_example ! 2 = 31" "rd16 l_packet_example 0 = 26"
    "rd16 (drop 6 l_packet_example) 0 = 7" "rd16 (drop 6 l_packet_example) 2 = 5" "slice l_packet_example 10 16 = replicate 16 42"
    by (simp_all add: l_packet_example_def rd16_def slice_def)
  show "l_update_request (l_example s) 7 (replicate 16 42) 5"
    using h by (simp add: l_update_request_def b SIZE_TO_SUB_BLK_COUNT_def uid_ok_def)
  have "target_part_size 5 = 1" by code_simp
  moreover have "l_alloc_exact 1 (l_example s) = None" by (auto simp: l_alloc_exact_def l_example_def find_None_iff simp del: upt_rec_numeral)
  moreover have "l_find_free_block (l_example s) = 1"
    unfolding l_find_free_block_def by (subst upt_conv_Cons) (simp_all add: l_example_def del: upt_rec_numeral)
  moreover have "l_uid_map (l_example s) 7 = INVALID_BLOCK" by (simp add: l_example_def)
  ultimately show "l_update_block (l_example s) 7 5 = 1"
    by (simp add: l_update_block_def l_choose_block_def Let_def)
qed

theorem legacy_update_refines_witness:
  "\<forall>s. \<exists>t1 t2 t. l_cmd_packet_recv l_env_example (l_example s) = Some t1 \<and> l_confirm l_env_example t1 = Some t2
     \<and> l_settle l_env_example t2 = Some t \<and> l_answered OKAY t \<and> l_db_ok t
     \<and> l_dview l_env_example t 7 = Some (5, replicate 16 42)"
proof
  fix s
  have "program_ok l_env_example" by (simp add: program_ok_def l_env_example_def)
  moreover have "nettle_ok (le_nettle l_env_example)" by (simp add: l_env_example_def nettle_ok_xor)
  moreover have "\<not> l_doubled (l_example s) 7 5" by (simp add: l_doubled_def) (simp add: l_example_def)
  ultimately have "\<exists>t1 t2 t. l_cmd_packet_recv l_env_example (l_example s) = Some t1 \<and> l_confirm l_env_example t1 = Some t2
     \<and> l_settle l_env_example t2 = Some t \<and> l_answered OKAY t \<and> l_db_ok t \<and> l_serving t
     \<and> l_dview l_env_example t = (l_dview l_env_example (l_example s))(7 \<mapsto> (5, replicate 16 42))"
    using legacy_update_refines [OF _ _ l_example_db l_example_request(1)] l_example_request(2) by simp
  then show "\<exists>t1 t2 t. l_cmd_packet_recv l_env_example (l_example s) = Some t1 \<and> l_confirm l_env_example t1 = Some t2
     \<and> l_settle l_env_example t2 = Some t \<and> l_answered OKAY t \<and> l_db_ok t
     \<and> l_dview l_env_example t 7 = Some (5, replicate 16 42)"
    by auto
qed

end
