(* ===== verification/Legacy_Lost.thy ===== *)
theory Legacy_Lost
  imports Legacy_Request
begin

text \<open>
  The update that gets lost: the last resort of \<open>allocate_uid\<close> finds the block that already holds the
  record. The new entry goes behind the old one, and the old one is the one that is found.
\<close>

section \<open>Two entries of a record\<close>





section \<open>The request\<close>









end
