(* ===== verification/Spec2Isabelle.thy ===== *)
theory Spec2Isabelle
  imports Host_Api Host_Keymap Root_Page Update_Lemmas Login Db_Limits Transport Record_Path Typing Scsi_Read Legacy_Rand Legacy_Lost
begin

text \<open>
  A model of the Signet HC password manager: the firmware under \<open>src/firmware-hc\<close>, as built by
  its Makefile for the application (\<open>SIGNET_HC\<close>, \<open>BOOT_MODE_B\<close>, \<open>ENABLE_FIDO2\<close>), and the host
  library \<open>src/signetdev/host/signetdev.c\<close> that talks to it over USB, with theorems about
  what they promise.

  The parts. A host program calls the \<open>signetdev_*\<close> functions; each builds a request, which the
  message layer splits into reports of 512 bytes. The device collects the reports of a request
  (\<open>usb_raw_hid.c\<close>), hands it to the dispatcher (\<open>cmd_packet_recv\<close> in \<open>commands.c\<close>), and
  the handler of the command answers at once or leaves the command active until a button press,
  a block transfer, a flash write or fresh random numbers complete it. The main loop drives the
  pending transfers, the flash writes, the blinking and the keyboard. Records live in the
  eMMC, encrypted block by block (\<open>db.c\<close>); the keys and the settings live in the root page,
  of which there are two copies in flash.

  The theories.
  \<open>Prelude\<close>: byte buffers, little-endian fields, C integers, the style of effects.
  \<open>Signet_Common\<close>: the protocol constants of \<open>signetdev/common\<close>.
  \<open>Signet_Aes\<close> (\<open>signet_aes.c\<close>), \<open>Rand\<close> (\<open>rand.c\<close>, \<open>rtc_rand.c\<close>).
  \<open>Host_Codec\<close>, \<open>Host_Msg\<close>, \<open>Host_Api\<close>, \<open>Host_Keymap\<close> (\<open>signetdev.c\<close>): the packing of
  records, the message layer, the commands, the keyboard map.
  \<open>Fw_State\<close>: the record \<open>fw\<close>, one field per global variable of the firmware, its value at
  reset, and \<open>env\<close>, the code outside the tree that the firmware calls.
  \<open>Fw_Io\<close> (\<open>usb_raw_hid.c\<close>, \<open>usbd_hid.c\<close>, part of \<open>main.c\<close>), \<open>Fw_Flash\<close> (\<open>flash.c\<close>),
  \<open>Fw_Base\<close> (lower half of \<open>commands.c\<close>, \<open>crc.c\<close>, \<open>usb_keyboard.c\<close>), \<open>Db\<close> (\<open>db.c\<close>),
  \<open>Fw_Update\<close> (\<open>firmware_update_state.c\<close>, \<open>bootloader_state.c\<close>), \<open>Commands\<close> and
  \<open>Dispatch\<close> (upper half of \<open>commands.c\<close>).
  \<open>Frame\<close>: what responses, state changes and button waits leave alone.
  \<open>Machine\<close>: the main loop and the interrupts as one step function, \<open>dev_step\<close>.
  \<open>Session\<close>: the only ways into a session. \<open>Login\<close>: passwords, tokens, and a way around them.
  \<open>Flash_Lemmas\<close>: page writes end and stay inside their sector. \<open>Root_Page\<close>: the two copies
  of the root page survive a power failure. \<open>Update_Lemmas\<close>: the firmware update touches only
  the boot area that is not running. \<open>Db_Blocks\<close>, \<open>Db_Refine\<close>, \<open>Db_Commit\<close>, \<open>Db_Scan\<close>,
  \<open>Db_Limits\<close>: the database against its contract (\<open>db_view\<close>, a map from uids to records, under
  the invariant \<open>db_ok\<close>): the layout of blocks, the steps of an update from the request to the
  response, the scan at startup, and what goes wrong at the limits; \<open>Db_Read\<close>: reads return
  what the map holds. \<open>Transport\<close>: requests and
  responses arrive as they were sent, from one contract of packet receivers for both sides.
  \<open>Record_Path\<close>: a record from the application that saves it to the one that reads it. \<open>Typing\<close>: a
  text from the application to the reports of the device's keyboard.
  The mass storage side: \<open>Buffer_Fifo\<close> (\<open>buffer_manager.c\<close>), the ring of buffers with its stages;
  \<open>Scsi_State\<close>, \<open>Scsi\<close> (\<open>usbd_msc_scsi.c\<close>, \<open>usbd_msc_ops.c\<close>), the volumes and the commands;
  \<open>Msc_Bot\<close> (\<open>usbd_msc_bot.c\<close>), the transport and its events, \<open>msc_step\<close>; \<open>Scsi_Safety\<close>, what
  these give access to: in which device states the hidden volume is (a state is not a login: the volume
  is also there in the states of a backup and of a firmware update); \<open>Scsi_Pieces\<close>, \<open>Scsi_Inv\<close>, \<open>Scsi_Ends\<close>, \<open>Scsi_Transfer\<close>,
  \<open>Scsi_Read\<close>: a READ10 or WRITE10 from the command to the status, with the card, the cipher and
  the USB side at work at the same time (what moves, the invariant, the end of each stage, runs
  of events, the theorems). They work on a record of their own, \<open>msc\<close>, and take the keys from \<open>fw\<close>;
  the content of the card and the hardware's cipher are parameters of the events.
  The original Signet, \<open>src/firmware\<close>, an older program for a smaller device that speaks the same
  protocol: \<open>Legacy_State\<close> (its record \<open>lfw\<close> and its surroundings \<open>lenv\<close>; \<open>rtc_rand.c\<close>, \<open>rng_driver.c\<close>,
  \<open>stm_aes.c\<close>, \<open>crc.c\<close>), \<open>Legacy_Io\<close> (\<open>usb_raw_hid.c\<close>, \<open>usb_keyboard.c\<close>, \<open>flash_l443xc.c\<close>, part of
  \<open>main_l443xc.c\<close>), \<open>Legacy_Base\<close>, \<open>Legacy_Commands\<close>, \<open>Legacy_Dispatch\<close> (\<open>commands.c\<close>,
  \<open>firmware_update_state.c\<close>, the main loop), \<open>Legacy_Db\<close> (\<open>db.c\<close>); \<open>Legacy_Rand\<close>: what its random words
  lack; \<open>Legacy_Blocks\<close>, \<open>Legacy_Update\<close>, \<open>Legacy_Commit\<close>, \<open>Legacy_Refine\<close>, \<open>Legacy_Request\<close>: its blocks as
  maps from uids to records, for every partition size, the functions that plan an update, the
  writes of flash pages, and updates from the packet to the response against the map \<open>l_dview\<close> of
  decrypted records, under the invariant \<open>l_db_ok\<close>; \<open>Legacy_Lost\<close>: the case in which an update is
  answered but not found again.

  State and effects. A firmware function is a function from \<open>fw\<close> to \<open>fw option\<close>; \<open>None\<close>
  means that control does not come back (a failed assertion ends in an endless loop) or that the
  code leaves a buffer, which C does not define. What goes out (reports, HAL calls, the LED,
  resets) is appended to \<open>outs\<close>; code after a reset is not modelled, so a reset is the last
  output. Pointers into static buffers are names of buffers. Interrupt handlers run as whole
  steps between the steps of the main loop.

  Bounds. Loops over a fixed range are folds or searches over lists of that range; the loop that
  converts text to scan codes is a recursion with a termination proof; the loops the main loop
  drives are counted in its rounds (\<open>flash_steps\<close>, \<open>idle_steps\<close>), transfers of blocks are counted
  by their completions (\<open>read_done\<close>, \<open>transfer_done\<close>), and the theorems say how many are enough.

  Not modelled: the members of the union \<open>cmd_data\<close> as overlapping memory (each member is a
  field of its own; what a theorem says of such a field in every state, as on the word
  \<open>authenticated\<close> of a LOGIN, holds whatever another member has left there); HAL errors (the HAL calls are taken to succeed); the class setup and the
  descriptors of the USB classes, the USB device core and the HAL drivers; the FIDO2 code, whose reset is a parameter;
  the operating system threads of the host library; the emulator; the USB driver, the descriptors and the
  startup code of the original Signet.
\<close>

end
